(* ===== verification/Ldn_Prelude.thy ===== *)
theory Ldn_Prelude
  imports Main "HOL-Library.Word"
begin

text \<open>
  Shared vocabulary of the development: machine integers, byte strings in the
  little-endian layout of the target, faults, the fixed-layout memory operations
  (\<open>memcpy\<close> with bounds), and the interface that every wire structure satisfies.

  \<^item> \<open>le_bytes\<close>, \<open>le_nat\<close> and the \<open>put\<close>/\<open>get\<close> functions give the object
    representation of the integers the structures of \<open>ldn_types.hpp\<close> and
    \<open>ryuldn/types/\<close> are made of.
  \<^item> \<open>memcpy_to\<close> is \<open>std::memcpy\<close> into a buffer of known size: writing past its end is
    the fault \<open>BufferOverrun\<close>.
  \<^item> \<open>wire_struct\<close> is the contract of a plain-old-data structure: a size, a byte image and
    an inverse. Its lemmas (arrays, prefixes) are proved once and reached through the
    interpretations of \<open>Ldn_Types\<close> and \<open>Packet_Types\<close>.
\<close>

unbundle bit_operations_syntax

section \<open>Machine integers and collections of facts\<close>

type_synonym u8 = "8 word"
type_synonym u16 = "16 word"
type_synonym u32 = "32 word"
type_synonym u64 = "64 word"
type_synonym bytes = "u8 list"

named_theorems wire_defs \<open>definitions of wire structures\<close>
named_theorems wire_simps \<open>length and inverse laws of byte images\<close>

section \<open>Faults\<close>

text \<open>
  What the C++ code does outside its defined behaviour is a value of the model: reading
  through a null pointer, copying past the end of a buffer (a negative \<open>int\<close> length becomes
  a huge \<open>size_t\<close>), locking a non-recursive mutex twice from one thread, two
  threads that wait for each other, and waiting for a thread that was never created.
\<close>

datatype fault =
    NullDeref | BufferOverrun | SelfDeadlock | Deadlock | OutOfFuel | UseAfterFree | InvalidThread

type_synonym 'a run = "fault + 'a"

definition bind_run :: "'a run \<Rightarrow> ('a \<Rightarrow> 'b run) \<Rightarrow> 'b run" where
  "bind_run m f = (case m of Inl e \<Rightarrow> Inl e | Inr x \<Rightarrow> f x)"

lemma bind_run_simps [simp]:
  "bind_run (Inl e) f = Inl e" "bind_run (Inr x) f = f x"
  by (simp_all add: bind_run_def)

lemma bind_run_Inr_iff: "bind_run m f = Inr y \<longleftrightarrow> (\<exists>x. m = Inr x \<and> f x = Inr y)"
  by (cases m) auto

text \<open>
  Horizon result codes. \<open>MAKERESULT(module, description)\<close> keeps its two arguments; the three
  libnx errors the code returns by name are constants of that library.
\<close>

datatype libnx_error = AlreadyInitialized | OutOfMemory | IoError

datatype Result = ResultSuccess | MAKERESULT nat nat | Module_Libnx libnx_error

section \<open>Little-endian integers\<close>

fun le_bytes :: "nat \<Rightarrow> nat \<Rightarrow> bytes" where
  "le_bytes 0 n = []"
| "le_bytes (Suc k) n = of_nat n # le_bytes k (n div 256)"

fun le_nat :: "bytes \<Rightarrow> nat" where
  "le_nat [] = 0"
| "le_nat (b # bs) = unat b + 256 * le_nat bs"

lemma length_le_bytes [simp]: "length (le_bytes k n) = k"
  by (induction k arbitrary: n) auto

lemma unat_bound: "unat (w :: 'a::len word) < 2 ^ LENGTH('a)"
  by (rule unsigned_less)

lemma unat_of_nat_u8: "unat (of_nat n :: u8) = n mod 256"
  by (simp add: unat_of_nat)

lemma le_nat_le_bytes: "le_nat (le_bytes k n) = n mod 256 ^ k"
proof (induction k arbitrary: n)
  case (Suc k)
  have "n mod (256 * 256 ^ k) = n mod 256 + 256 * (n div 256 mod 256 ^ k)"
    by (simp add: mod_mult2_eq)
  with Suc show ?case by (simp add: unat_of_nat_u8)
qed simp

lemma le_bytes_le_nat: "length bs = k \<Longrightarrow> le_bytes k (le_nat bs) = bs"
proof (induction bs arbitrary: k)
  case (Cons b bs)
  have b: "unat b < 256" using unat_bound [of b] by simp
  then have "(unat b + 256 * le_nat bs) div 256 = le_nat bs" by simp
  moreover have "(of_nat (unat b + 256 * le_nat bs) :: u8) = b"
  proof -
    have "unat (of_nat (unat b + 256 * le_nat bs) :: u8) = unat b"
      using b by (simp only: unat_of_nat_u8) simp
    then show ?thesis by (simp only: unsigned_word_eqI)
  qed
  ultimately show ?case using Cons by auto
qed simp

lemma le_nat_bound: "le_nat bs < 256 ^ length bs"
proof (induction bs)
  case (Cons b bs)
  have "unat b < 256" using unat_bound [of b] by simp
  with Cons show ?case by simp
qed simp

definition put8 :: "u8 \<Rightarrow> bytes" where "put8 w = [w]"
definition put16 :: "u16 \<Rightarrow> bytes" where "put16 w = le_bytes 2 (unat w)"
definition put32 :: "u32 \<Rightarrow> bytes" where "put32 w = le_bytes 4 (unat w)"
definition put64 :: "u64 \<Rightarrow> bytes" where "put64 w = le_bytes 8 (unat w)"
definition get8 :: "bytes \<Rightarrow> u8" where "get8 bs = (case bs of [] \<Rightarrow> 0 | b # _ \<Rightarrow> b)"
definition get16 :: "bytes \<Rightarrow> u16" where "get16 bs = of_nat (le_nat (take 2 bs))"
definition get32 :: "bytes \<Rightarrow> u32" where "get32 bs = of_nat (le_nat (take 4 bs))"
definition get64 :: "bytes \<Rightarrow> u64" where "get64 bs = of_nat (le_nat (take 8 bs))"

lemma length_put [simp]:
  "length (put8 x) = 1" "length (put16 a) = 2" "length (put32 b) = 4" "length (put64 c) = 8"
  by (simp_all add: put8_def put16_def put32_def put64_def)

lemma get_put [simp]:
  "get8 (put8 x @ rest) = x" "get16 (put16 a @ rest) = a" "get32 (put32 b @ rest) = b"
  "get64 (put64 c @ rest) = c"
  using unat_bound [of a] unat_bound [of b] unat_bound [of c]
  by (simp_all add: put8_def put16_def put32_def put64_def get8_def get16_def get32_def
      get64_def le_nat_le_bytes)

lemma get_put_end [simp]:
  "get8 (put8 x) = x" "get16 (put16 a) = a" "get32 (put32 b) = b" "get64 (put64 c) = c"
  using get_put [where rest = "[]"] by simp_all

lemma put_get8 [simp]: "1 \<le> length bs \<Longrightarrow> put8 (get8 bs) = take 1 bs"
  by (cases bs) (simp_all add: put8_def get8_def)

lemma put_get16 [simp]: "2 \<le> length bs \<Longrightarrow> put16 (get16 bs) = take 2 bs"
  using le_nat_bound [of "take 2 bs"]
  by (simp add: put16_def get16_def unat_of_nat le_bytes_le_nat)

lemma put_get32 [simp]: "4 \<le> length bs \<Longrightarrow> put32 (get32 bs) = take 4 bs"
  using le_nat_bound [of "take 4 bs"]
  by (simp add: put32_def get32_def unat_of_nat le_bytes_le_nat)

lemma put_get64 [simp]: "8 \<le> length bs \<Longrightarrow> put64 (get64 bs) = take 8 bs"
  using le_nat_bound [of "take 8 bs"]
  by (simp add: put64_def get64_def unat_of_nat le_bytes_le_nat)

lemma get_word_append [simp]:
  "1 \<le> length xs \<Longrightarrow> get8 (xs @ ys) = get8 xs"
  "2 \<le> length xs \<Longrightarrow> get16 (xs @ ys) = get16 xs"
  "4 \<le> length xs \<Longrightarrow> get32 (xs @ ys) = get32 xs"
  "8 \<le> length xs \<Longrightarrow> get64 (xs @ ys) = get64 xs"
  by (cases xs; simp add: get8_def) (simp_all add: get16_def get32_def get64_def)

text \<open>
  Arrays of structures: the elements are consecutive, \<open>sz\<close> bytes each.
\<close>

fun get_array :: "(bytes \<Rightarrow> 'a) \<Rightarrow> nat \<Rightarrow> nat \<Rightarrow> bytes \<Rightarrow> 'a list" where
  "get_array get sz 0 bs = []"
| "get_array get sz (Suc n) bs = get bs # get_array get sz n (drop sz bs)"

definition put_array :: "('a \<Rightarrow> bytes) \<Rightarrow> 'a list \<Rightarrow> bytes" where
  "put_array put xs = concat (map put xs)"

section \<open>Copying into buffers\<close>

text \<open>\<open>std::memcpy(buf + off, src, n)\<close> with \<open>n = length src\<close> into the object \<open>buf\<close>.\<close>

definition memcpy_to :: "bytes \<Rightarrow> nat \<Rightarrow> bytes \<Rightarrow> bytes run" where
  "memcpy_to buf off src =
     (if off + length src \<le> length buf
      then Inr (take off buf @ src @ drop (off + length src) buf) else Inl BufferOverrun)"

lemma memcpy_to_ok:
  "off + length src \<le> length buf \<Longrightarrow>
   memcpy_to buf off src = Inr (take off buf @ src @ drop (off + length src) buf)"
  by (simp add: memcpy_to_def)

lemma memcpy_to_length: "memcpy_to buf off src = Inr buf' \<Longrightarrow> length buf' = length buf"
  by (auto simp: memcpy_to_def split: if_splits)

lemma memcpy_to_prefix:
  "memcpy_to buf off src = Inr buf' \<Longrightarrow> take (off + length src) buf' = take off buf @ src"
  by (auto simp: memcpy_to_def split: if_splits)

section \<open>Splitting byte strings\<close>

lemma split_bytesE:
  assumes "n \<le> length (bs :: 'a list)"
  obtains xs ys where "bs = xs @ ys" and "length xs = n"
  using assms by (metis append_take_drop_id length_take min.absorb2)

section \<open>The contract of a wire structure\<close>

text \<open>
  \<open>put x\<close> is the object representation of \<open>x\<close>, \<open>get bs\<close> the value \<open>std::memcpy\<close> of the first
  \<open>sz\<close> bytes yields, \<open>wf\<close> says that the array members have the declared number of elements.
\<close>

locale wire_struct =
  fixes put :: "'a \<Rightarrow> bytes"
    and get :: "bytes \<Rightarrow> 'a"
    and wf :: "'a \<Rightarrow> bool"
    and sz :: nat
  assumes length_put_wf: "wf x \<Longrightarrow> length (put x) = sz"
    and get_put_wf: "wf x \<Longrightarrow> get (put x @ rest) = x"
    and wf_get: "sz \<le> length bs \<Longrightarrow> wf (get bs)"
    and put_get: "length bs = sz \<Longrightarrow> put (get bs) = bs"
    and get_prefix: "length bs = sz \<Longrightarrow> get (bs @ rest) = get bs"
begin

lemma get_put_end_wf: "wf x \<Longrightarrow> get (put x) = x"
  using get_put_wf [of x "[]"] by simp

lemma get_take: "sz \<le> n \<Longrightarrow> n \<le> length bs \<Longrightarrow> get (take n bs) = get bs"
proof -
  assume n: "sz \<le> n" "n \<le> length bs"
  have "get (take sz bs @ drop sz (take n bs)) = get (take sz bs)"
    by (rule get_prefix) (use n in simp)
  moreover have "get (take sz bs @ drop sz bs) = get (take sz bs)"
    by (rule get_prefix) (use n in simp)
  moreover have "take sz bs @ drop sz (take n bs) = take n bs"
    using n by (metis append_take_drop_id min.absorb1 take_take)
  ultimately show ?thesis by simp
qed

lemma put_get_take: "sz \<le> length bs \<Longrightarrow> put (get bs) = take sz bs"
  using put_get [of "take sz bs"] get_take [of sz bs] by simp

lemma put_inj: "wf x \<Longrightarrow> wf y \<Longrightarrow> put x = put y \<Longrightarrow> x = y"
  by (metis get_put_end_wf)

lemma length_put_array: "\<forall>x \<in> set xs. wf x \<Longrightarrow> length (put_array put xs) = length xs * sz"
  by (induction xs) (auto simp: put_array_def length_put_wf)

lemma get_put_array:
  "length xs = n \<Longrightarrow> \<forall>x \<in> set xs. wf x \<Longrightarrow> get_array get sz n (put_array put xs @ rest) = xs"
  by (induction xs arbitrary: n) (auto simp: put_array_def get_put_wf length_put_wf)

lemma get_put_array_end:
  "length xs = n \<Longrightarrow> \<forall>x \<in> set xs. wf x \<Longrightarrow> get_array get sz n (put_array put xs) = xs"
  using get_put_array [of xs n "[]"] by simp

lemma length_get_array [simp]: "length (get_array get sz n bs) = n"
  by (induction n arbitrary: bs) auto

lemma wf_get_array: "n * sz \<le> length bs \<Longrightarrow> x \<in> set (get_array get sz n bs) \<Longrightarrow> wf x"
proof (induction n arbitrary: bs)
  case (Suc n)
  then have d: "n * sz \<le> length (drop sz bs)" by simp
  show ?case using Suc.IH [OF d] Suc.prems by (auto simp: wf_get)
qed simp

lemma get_append: "sz \<le> length bs \<Longrightarrow> get (bs @ rest) = get bs"
  using get_take [of sz bs] get_take [of sz "bs @ rest"] by simp

lemma put_get_array_take:
  "n * sz \<le> length bs \<Longrightarrow> put_array put (get_array get sz n bs) = take (n * sz) bs"
proof (induction n arbitrary: bs)
  case (Suc n)
  then have "put_array put (get_array get sz n (drop sz bs)) = take (n * sz) (drop sz bs)"
    by simp
  moreover have "put (get bs) = take sz bs" using Suc.prems by (simp add: put_get_take)
  ultimately show ?case by (simp add: put_array_def take_add)
qed (simp add: put_array_def)

lemma get_array_append:
  "n * sz \<le> length bs \<Longrightarrow> get_array get sz n (bs @ rest) = get_array get sz n bs"
proof (induction n arbitrary: bs)
  case (Suc n)
  moreover have "drop sz (bs @ rest) = drop sz bs @ rest" using Suc.prems by simp
  ultimately show ?case by (simp add: get_append)
qed simp

lemmas laws = length_put_wf get_put_wf get_put_end_wf wf_get put_get_take get_append

lemmas array_laws = length_put_array get_put_array get_put_array_end length_get_array
  put_get_array_take get_array_append

end

end
