(* ===== verification/Network_Timeout.thy ===== *)
theory Network_Timeout
  imports Ldn_Prelude
begin

text \<open>
  \<open>ryuldn/network_timeout.hpp\<close>: the inactivity timer of the master client. The mutex is a flag:
  \<open>os::Mutex\<close> is created non-recursive, so a method called while the flag is set by the same thread
  is the fault \<open>SelfDeadlock\<close>. Times are milliseconds of the system tick, at 64 bits. The callback is a
  function on the timer and the state of its owner, because \<open>CheckTimeout\<close> runs it with the mutex held.
\<close>

section \<open>State and operations\<close>

definition InactiveTimeout :: int where "InactiveTimeout = 6000"
definition FailureTimeout :: int where "FailureTimeout = 4000"
definition ScanTimeout :: int where "ScanTimeout = 1000"

record NetworkTimeout =
  nt_idleTimeout :: int
  nt_lastRefreshTime :: u64
  nt_active :: bool
  nt_locked :: bool

definition NetworkTimeout_new :: "int \<Rightarrow> NetworkTimeout" where
  "NetworkTimeout_new idleTimeout =
     \<lparr>nt_idleTimeout = idleTimeout, nt_lastRefreshTime = 0, nt_active = True, nt_locked = False\<rparr>"

text \<open>\<open>std::scoped_lock lock(_lock)\<close> around a body.\<close>

definition with_lock :: "(NetworkTimeout \<Rightarrow> (NetworkTimeout \<times> 's) run) \<Rightarrow> NetworkTimeout \<Rightarrow> (NetworkTimeout \<times> 's) run"
  where
  "with_lock body t =
     (if nt_locked t then Inl SelfDeadlock
      else bind_run (body (t\<lparr>nt_locked := True\<rparr>)) (\<lambda>(t, s). Inr (t\<lparr>nt_locked := False\<rparr>, s)))"

definition RefreshTimeout :: "u64 \<Rightarrow> NetworkTimeout \<Rightarrow> (NetworkTimeout \<times> bool) run" where
  "RefreshTimeout now =
     with_lock (\<lambda>t. Inr (if nt_active t then t\<lparr>nt_lastRefreshTime := now\<rparr> else t, True))"

definition CheckTimeout ::
    "u64 \<Rightarrow> (NetworkTimeout \<Rightarrow> 's \<Rightarrow> (NetworkTimeout \<times> 's) run) \<Rightarrow> 's \<Rightarrow> NetworkTimeout
       \<Rightarrow> (NetworkTimeout \<times> 's) run" where
  "CheckTimeout now timeoutCallback s =
     with_lock (\<lambda>t.
       if \<not> nt_active t then Inr (t, s)
       else
         let elapsed = now - nt_lastRefreshTime t in
         if elapsed \<ge> word_of_int (nt_idleTimeout t) then
           bind_run (timeoutCallback t s) (\<lambda>(t, s). Inr (t\<lparr>nt_lastRefreshTime := now\<rparr>, s))
         else Inr (t, s))"

definition DisableTimeout :: "NetworkTimeout \<Rightarrow> (NetworkTimeout \<times> unit) run" where
  "DisableTimeout = with_lock (\<lambda>t. Inr (t\<lparr>nt_active := False\<rparr>, ()))"

definition NetworkTimeout_Dispose :: "NetworkTimeout \<Rightarrow> (NetworkTimeout \<times> unit) run" where
  "NetworkTimeout_Dispose t = DisableTimeout t"

section \<open>Behaviour\<close>

lemma RefreshTimeout_unlocked [simp]:
  "\<not> nt_locked t \<Longrightarrow>
   RefreshTimeout now t = Inr (if nt_active t then t\<lparr>nt_lastRefreshTime := now\<rparr> else t, True)"
  by (cases t) (simp add: RefreshTimeout_def with_lock_def)

lemma RefreshTimeout_locked [simp]: "nt_locked t \<Longrightarrow> RefreshTimeout now t = Inl SelfDeadlock"
  by (simp add: RefreshTimeout_def with_lock_def)

lemma DisableTimeout_unlocked [simp]:
  "\<not> nt_locked t \<Longrightarrow> DisableTimeout t = Inr (t\<lparr>nt_active := False\<rparr>, ())"
  by (cases t) (simp add: DisableTimeout_def with_lock_def)

lemma CheckTimeout_inactive [simp]:
  "\<not> nt_locked t \<Longrightarrow> \<not> nt_active t \<Longrightarrow> CheckTimeout now cb s t = Inr (t, s)"
  by (cases t) (simp add: CheckTimeout_def with_lock_def)

text \<open>
  \<open>expired\<close> is the condition under which \<open>CheckTimeout\<close> calls back, with the subtraction at 64 bits.
\<close>

definition expired :: "u64 \<Rightarrow> NetworkTimeout \<Rightarrow> bool" where
  "expired now t \<longleftrightarrow> nt_active t \<and> word_of_int (nt_idleTimeout t) \<le> now - nt_lastRefreshTime t"

lemma CheckTimeout_eq:
  "\<not> nt_locked t \<Longrightarrow>
   CheckTimeout now cb s t =
     (if expired now t
      then bind_run (cb (t\<lparr>nt_locked := True\<rparr>) s)
             (\<lambda>(t, s). Inr (t\<lparr>nt_lastRefreshTime := now, nt_locked := False\<rparr>, s))
      else Inr (t, s))"
  by (cases t) (auto simp: CheckTimeout_def with_lock_def expired_def Let_def bind_run_def
      split: sum.splits prod.splits)

lemma expired_after_refresh:
  assumes "unat t0 \<le> unat now" and "nt_active t" and "nt_lastRefreshTime t = t0"
    and "nt_idleTimeout t = InactiveTimeout"
  shows "expired now t \<longleftrightarrow> 6000 \<le> unat now - unat t0"
proof -
  have "unat (now - t0) = unat now - unat t0"
    using assms(1) by (simp add: unat_sub word_le_nat_alt)
  then show ?thesis
    using assms(2-4) by (simp add: expired_def InactiveTimeout_def word_le_nat_alt)
qed

end
