(* ===== verification/Port_Pool.thy ===== *)
theory Port_Pool
  imports Ldn_Prelude
begin

text \<open>
  \<open>ryuldn/proxy/ephemeral_port_pool.hpp\<close> and \<open>proxy_helpers.hpp\<close>: the allocator of ephemeral ports
  and the address helpers of the proxy.

  The pool is its vector of allocated ports. \<open>AllocatePort_from\<close> is the loop of \<open>AllocatePort\<close>
  from an index on: it walks the rest of the vector with the candidate port, at 16 bits.
  The locale \<open>port_allocator\<close> is what the proxy relies on.
\<close>

section \<open>Byte order and addresses\<close>

definition htonl :: "u32 \<Rightarrow> u32" where "htonl w = get32 (rev (put32 w))"
definition htons :: "u16 \<Rightarrow> u16" where "htons w = get16 (rev (put16 w))"
definition ntohl :: "u32 \<Rightarrow> u32" where "ntohl w = get32 (rev (put32 w))"
definition ntohs :: "u16 \<Rightarrow> u16" where "ntohs w = get16 (rev (put16 w))"

lemma swap32: "get32 (rev (put32 (get32 (rev (put32 w))))) = w"
  by (subst put_get32) simp_all

lemma swap16: "get16 (rev (put16 (get16 (rev (put16 w))))) = w"
  by (subst put_get16) simp_all

lemma ntoh_hton [simp]:
  "ntohl (htonl a) = a" "ntohs (htons b) = b" "htonl (ntohl a) = a" "htons (ntohs b) = b"
  by (simp_all only: ntohl_def htonl_def ntohs_def htons_def swap32 swap16)

lemma hton_inject [simp]: "htonl a = htonl b \<longleftrightarrow> a = b" "htons c = htons d \<longleftrightarrow> c = d"
  by (auto dest: arg_cong [where f = ntohl] arg_cong [where f = ntohs])

lemma le_bytes_zero: "le_bytes k 0 = replicate k 0"
  by (induction k) auto

lemma rev_put_zero: "rev (put16 0) = put16 0" "rev (put32 0) = put32 0"
  by (simp_all add: put16_def put32_def le_bytes_zero)

lemma hton_zero [simp]: "htons 0 = 0" "htonl 0 = 0" "ntohs 0 = 0" "ntohl 0 = 0"
  by (simp_all add: htons_def htonl_def ntohs_def ntohl_def rev_put_zero)

lemma hton_eq_zero [simp]: "htons w = 0 \<longleftrightarrow> w = 0" "ntohs w = 0 \<longleftrightarrow> w = 0"
  using hton_inject(2) [of w 0] by (simp_all add: ntohs_def flip: htons_def)

record sockaddr_in =
  sin_family :: nat
  sin_addr :: u32
  sin_port :: u16

definition AF_INET :: nat where "AF_INET = 2"

definition SockAddrToU32 :: "sockaddr_in \<Rightarrow> u32" where
  "SockAddrToU32 addr = ntohl (sin_addr addr)"

definition U32ToSockAddr :: "u32 \<Rightarrow> u16 \<Rightarrow> sockaddr_in" where
  "U32ToSockAddr ip port = \<lparr>sin_family = AF_INET, sin_addr = htonl ip, sin_port = htons port\<rparr>"

definition IsInSubnet :: "u32 \<Rightarrow> u32 \<Rightarrow> u32 \<Rightarrow> bool" where
  "IsInSubnet ip subnet_base subnet_mask \<longleftrightarrow> ip AND subnet_mask = subnet_base AND subnet_mask"

definition CalculateBroadcastAddress :: "u32 \<Rightarrow> u32 \<Rightarrow> u32" where
  "CalculateBroadcastAddress ip subnet_mask = ip OR NOT subnet_mask"

lemma broadcast_in_subnet: "IsInSubnet (CalculateBroadcastAddress ip m) ip m"
  unfolding IsInSubnet_def CalculateBroadcastAddress_def
  by (rule bit_word_eqI) (auto simp: bit_simps)

lemma broadcast_of_subnet:
  "IsInSubnet a b m \<Longrightarrow> CalculateBroadcastAddress a m = CalculateBroadcastAddress b m"
  unfolding IsInSubnet_def CalculateBroadcastAddress_def
  by (rule bit_word_eqI) (auto simp: bit_simps dest!: arg_cong [where f = "\<lambda>w. bit w _"])

section \<open>The pool\<close>

type_synonym EphemeralPortPool = "u16 list"

definition EphemeralBase :: u16 where "EphemeralBase = 49152"
definition EphemeralEnd :: u16 where "EphemeralEnd = 65535"

definition EphemeralPortPool_new :: EphemeralPortPool where "EphemeralPortPool_new = []"

fun AllocatePort_from :: "u16 \<Rightarrow> u16 list \<Rightarrow> u16 \<times> u16 list" where
  "AllocatePort_from port [] =
     (if port \<noteq> 0 \<and> port \<le> EphemeralEnd then (port, [port]) else (0, []))"
| "AllocatePort_from port (existingPort # rest) =
     (if existingPort > port then (port, port # existingPort # rest)
      else
        let port = port + 1 in
        if port = 0 \<or> port > EphemeralEnd then (0, existingPort # rest)
        else let (p, rest') = AllocatePort_from port rest in (p, existingPort # rest'))"

definition AllocatePort :: "EphemeralPortPool \<Rightarrow> u16 \<times> EphemeralPortPool" where
  "AllocatePort ports = AllocatePort_from EphemeralBase ports"

definition ReturnPort :: "u16 \<Rightarrow> EphemeralPortPool \<Rightarrow> EphemeralPortPool" where
  "ReturnPort port ports = remove1 port ports"

definition GetAllocatedCount :: "EphemeralPortPool \<Rightarrow> nat" where
  "GetAllocatedCount ports = length ports"

section \<open>The invariant and the behaviour\<close>

definition ports_ok :: "u16 list \<Rightarrow> bool" where
  "ports_ok ps \<longleftrightarrow> sorted_wrt (<) ps \<and> (\<forall>p \<in> set ps. EphemeralBase \<le> p)"

lemma u16_le_end: "(p :: u16) \<le> EphemeralEnd"
  using unat_bound [of p] by (simp add: EphemeralEnd_def word_le_nat_alt)

lemma u16_inc: "p + 1 \<noteq> (0 :: u16) \<Longrightarrow> unat (p + 1) = Suc (unat p)"
  using unatSuc [of p] by (simp add: add.commute)

lemma u16_inc_zero: "p + 1 = (0 :: u16) \<Longrightarrow> q \<le> p"
proof -
  assume "p + 1 = 0"
  then have "p = - 1" by (simp add: eq_neg_iff_add_eq_0)
  then show ?thesis by simp
qed

lemma AllocatePort_from_spec:
  "sorted_wrt (<) ps \<Longrightarrow> \<forall>p \<in> set ps. port \<le> p \<Longrightarrow> port \<noteq> 0 \<Longrightarrow>
   AllocatePort_from port ps = (q, ps') \<Longrightarrow>
   if q = 0 then ps' = ps \<and> {port..} \<subseteq> set ps
   else port \<le> q \<and> q \<notin> set ps \<and> {port..<q} \<subseteq> set ps
      \<and> sorted_wrt (<) ps' \<and> set ps' = insert q (set ps) \<and> length ps' = Suc (length ps)"
proof (induction port ps arbitrary: q ps' rule: AllocatePort_from.induct)
  case (1 port)
  then show ?case by (auto simp: u16_le_end split: if_splits)
next
  case (2 port e rest)
  show ?case
  proof (cases "port < e")
    case True
    with 2 show ?thesis by (force simp: not_le)
  next
    case False
    with "2.prems" have e: "e = port" by auto
    show ?thesis
    proof (cases "port + 1 = 0")
      case True
      then have "q = 0" "ps' = e # rest" "{port..} = {port}"
        using "2.prems"(4) e u16_inc_zero [OF True] by (auto intro: antisym)
      with e show ?thesis by simp
    next
      case pos: False
      obtain r where r: "AllocatePort_from (port + 1) rest = (q, r)" "ps' = e # r"
        using "2.prems"(4) False pos u16_le_end [of "port + 1"] leD [OF u16_le_end [of "port + 1"]]
        by (auto simp: Let_def split: prod.splits)
      have step: "port < x \<longleftrightarrow> port + 1 \<le> x" for x
        using u16_inc [OF pos] by (simp add: word_less_nat_alt word_le_nat_alt Suc_le_eq)
      have "sorted_wrt (<) rest" "\<forall>p \<in> set rest. port + 1 \<le> p"
        using "2.prems"(1) e by (auto simp flip: step)
      from "2.IH" [OF _ refl _ this pos r(1)] False pos u16_le_end [of "port + 1"]
      have ih: "if q = 0 then r = rest \<and> {port + 1..} \<subseteq> set rest
          else port + 1 \<le> q \<and> q \<notin> set rest \<and> {port + 1..<q} \<subseteq> set rest
             \<and> sorted_wrt (<) r \<and> set r = insert q (set rest) \<and> length r = Suc (length rest)"
        by (simp add: not_less)
      have "{port..} = insert port {port + 1..}" by (auto simp flip: step)
      moreover have "port + 1 \<le> q \<Longrightarrow> {port..<q} = insert port {port + 1..<q}"
        by (auto simp flip: step)
      ultimately show ?thesis
        using ih r(2) e "2.prems"(1) by (auto simp flip: step split: if_splits)
    qed
  qed
qed

lemma AllocatePort_spec:
  assumes "ports_ok ps" and "AllocatePort ps = (q, ps')"
  shows "ports_ok ps'"
    and "q = 0 \<Longrightarrow> ps' = ps \<and> {EphemeralBase..} \<subseteq> set ps"
    and "q \<noteq> 0 \<Longrightarrow> EphemeralBase \<le> q \<and> q \<notin> set ps \<and> {EphemeralBase..<q} \<subseteq> set ps
           \<and> set ps' = insert q (set ps) \<and> length ps' = Suc (length ps)"
proof -
  have b: "EphemeralBase \<noteq> 0" by (simp add: EphemeralBase_def)
  note spec = AllocatePort_from_spec [OF _ _ b assms(2) [unfolded AllocatePort_def]]
  show "ports_ok ps'" and "q = 0 \<Longrightarrow> ps' = ps \<and> {EphemeralBase..} \<subseteq> set ps"
    and "q \<noteq> 0 \<Longrightarrow> EphemeralBase \<le> q \<and> q \<notin> set ps \<and> {EphemeralBase..<q} \<subseteq> set ps
           \<and> set ps' = insert q (set ps) \<and> length ps' = Suc (length ps)"
    using spec assms(1) by (auto simp: ports_ok_def split: if_splits)
qed

lemma ports_distinct: "ports_ok ps \<Longrightarrow> distinct ps"
  by (simp add: ports_ok_def strict_sorted_iff)

lemma ports_ok_return: "ports_ok ps \<Longrightarrow> ports_ok (ReturnPort p ps)"
  unfolding ports_ok_def ReturnPort_def
  by (auto simp: strict_sorted_iff sorted_remove1 dest: notin_set_remove1 set_remove1_subset [THEN subsetD])

lemma set_return: "ports_ok ps \<Longrightarrow> set (ReturnPort p ps) = set ps - {p}"
  using ports_distinct by (simp add: ReturnPort_def)

lemma card_ephemeral: "card {EphemeralBase..} = 16384"
proof -
  have "{EphemeralBase..} = (of_nat :: nat \<Rightarrow> u16) ` {49152..<65536}"
  proof (intro set_eqI iffI)
    fix x :: u16 assume "x \<in> {EphemeralBase..}"
    then have "unat x \<in> {49152..<65536}"
      using unat_bound [of x] by (simp add: EphemeralBase_def word_le_nat_alt)
    then show "x \<in> (of_nat :: nat \<Rightarrow> u16) ` {49152..<65536}"
      by (intro image_eqI [of _ _ "unat x"]) simp_all
  next
    fix x :: u16 assume "x \<in> of_nat ` {49152..<65536}"
    then show "x \<in> {EphemeralBase..}"
      by (auto simp: EphemeralBase_def word_le_nat_alt unat_of_nat)
  qed
  moreover have "inj_on (of_nat :: nat \<Rightarrow> u16) {49152..<65536}"
    by (rule inj_onI) (drule arg_cong [where f = unat], simp add: unat_of_nat)
  ultimately show ?thesis by (simp add: card_image)
qed

section \<open>The contract the proxy relies on\<close>

locale port_allocator =
  fixes inv :: "'s \<Rightarrow> bool" and used :: "'s \<Rightarrow> u16 set"
    and alloc :: "'s \<Rightarrow> u16 \<times> 's" and release :: "u16 \<Rightarrow> 's \<Rightarrow> 's" and range :: "u16 set"
  assumes alloc_inv: "inv s \<Longrightarrow> inv (snd (alloc s))"
    and release_inv: "inv s \<Longrightarrow> inv (release p s)"
    and alloc_fresh: "inv s \<Longrightarrow> alloc s = (p, s') \<Longrightarrow> p \<noteq> 0 \<Longrightarrow>
          p \<in> range - used s \<and> used s' = insert p (used s)"
    and alloc_none: "inv s \<Longrightarrow> alloc s = (0, s') \<Longrightarrow> used s = range \<and> s' = s"
    and release_used: "inv s \<Longrightarrow> used (release p s) = used s - {p}"
    and used_range: "inv s \<Longrightarrow> used s \<subseteq> range"
    and zero_range: "0 \<notin> range"
begin

lemma alloc_succeeds: "inv s \<Longrightarrow> used s \<noteq> range \<Longrightarrow> fst (alloc s) \<noteq> 0"
  using alloc_none [of s "snd (alloc s)"] by (metis prod.collapse)

lemma alloc_release: "inv s \<Longrightarrow> alloc s = (p, s') \<Longrightarrow> p \<noteq> 0 \<Longrightarrow> used (release p s') = used s"
  using alloc_inv [of s] alloc_fresh [of s p s'] by (auto simp: release_used)

text \<open>A client that allocates \<open>n\<close> times.\<close>

fun allocs :: "nat \<Rightarrow> 's \<Rightarrow> u16 list \<times> 's" where
  "allocs 0 s = ([], s)"
| "allocs (Suc n) s = (let (p, s') = alloc s; (ps, t) = allocs n s' in (p # ps, t))"

lemma allocs_distinct:
  "inv s \<Longrightarrow> allocs n s = (ps, t) \<Longrightarrow> 0 \<notin> set ps \<Longrightarrow>
   inv t \<and> distinct ps \<and> set ps \<inter> used s = {} \<and> used t = used s \<union> set ps"
proof (induction n arbitrary: s ps t)
  case (Suc n)
  obtain p s' where p: "alloc s = (p, s')" by (cases "alloc s")
  obtain qs where q: "allocs n s' = (qs, t)" "ps = p # qs"
    using Suc.prems(2) p by (auto split: prod.splits)
  have i: "inv s'" using alloc_inv [OF Suc.prems(1)] p by simp
  have "p \<noteq> 0" "0 \<notin> set qs" using Suc.prems(3) q(2) by auto
  with alloc_fresh [OF Suc.prems(1) p] Suc.IH [OF i q(1)] q(2) show ?case by auto
qed simp

end

lemma AllocatePort_zero: "ports_ok ps \<Longrightarrow> AllocatePort ps = (0, ps') \<Longrightarrow> set ps = {EphemeralBase..} \<and> ps' = ps"
  using AllocatePort_spec(2) [of ps 0 ps'] by (auto simp: ports_ok_def)

interpretation ports: port_allocator ports_ok set AllocatePort ReturnPort "{EphemeralBase..}"
proof unfold_locales
  fix s assume "ports_ok s"
  then show "ports_ok (snd (AllocatePort s))" using AllocatePort_spec(1) by (metis prod.collapse)
next
  fix s p s' assume "ports_ok s" "AllocatePort s = (p, s')" "p \<noteq> 0"
  then show "p \<in> {EphemeralBase..} - set s \<and> set s' = insert p (set s)"
    using AllocatePort_spec(3) by auto
qed (simp_all add: ports_ok_return set_return AllocatePort_zero,
     auto simp: ports_ok_def EphemeralBase_def)

section \<open>Properties\<close>

text \<open>
  C37: \<open>AllocatePort\<close> on a well-formed pool returns the lowest ephemeral port that is not allocated
  and records it in order; it returns 0, changing nothing, exactly when all 16384 are allocated.
\<close>

theorem AllocatePort_lowest_free:
  assumes "ports_ok ps" and "AllocatePort ps = (q, ps')"
  shows "ports_ok ps' \<and> (q = 0 \<longleftrightarrow> length ps = 16384)
    \<and> (if q = 0 then ps' = ps
       else EphemeralBase \<le> q \<and> q \<notin> set ps \<and> set ps' = insert q (set ps)
          \<and> (\<forall>p. EphemeralBase \<le> p \<and> p < q \<longrightarrow> p \<in> set ps))"
proof -
  have sub: "set ps \<subseteq> {EphemeralBase..}" using assms(1) by (auto simp: ports_ok_def)
  have len: "card (set ps) = length ps" using ports_distinct [OF assms(1)] by (rule distinct_card)
  note spec = AllocatePort_spec [OF assms]
  have "q = 0 \<longleftrightarrow> length ps = 16384"
  proof
    assume "q = 0"
    then have "set ps = {EphemeralBase..}" using spec(2) sub by blast
    then show "length ps = 16384" using len card_ephemeral by simp
  next
    assume "length ps = 16384"
    then have "set ps = {EphemeralBase..}"
      using len card_ephemeral card_subset_eq [OF _ sub] by simp
    then show "q = 0" using spec(3) by auto
  qed
  then show ?thesis using spec by (auto simp: subset_iff)
qed

theorem AllocatePort_lowest_free_witness:
  "ports_ok [49152, 49154] \<and> AllocatePort [49152, 49154] = (49153, [49152, 49153, 49154])
   \<and> ports_ok [49152, 49153, 49154]"
proof -
  have a: "ports_ok [49152, 49154]" by (simp add: ports_ok_def EphemeralBase_def)
  have b: "AllocatePort [49152, 49154] = (49153, [49152, 49153, 49154])"
    by (simp add: AllocatePort_def EphemeralBase_def EphemeralEnd_def)
  from AllocatePort_lowest_free [OF a b] a b show ?thesis by simp
qed

end
