(* ===== verification/Ldn_Types.thy ===== *)
theory Ldn_Types
  imports Ldn_Prelude
begin

text \<open>
  The structures of \<open>ryuldn_nx/source/ldn_types.hpp\<close>: one record per structure, with its
  object representation (\<open>put_\<close>), the value a \<open>std::memcpy\<close> from bytes yields (\<open>get_\<close>) and the
  array lengths of its members (\<open>wf_\<close>). Every structure is an instance of \<open>wire_struct\<close>
  at the size the compiler gives it (no member is preceded by padding). Signed members keep their
  two's complement word.
\<close>

record MacAddress =
  mac_raw :: bytes

definition wf_MacAddress :: "MacAddress \<Rightarrow> bool" where
  [wire_defs]: "wf_MacAddress x \<longleftrightarrow>
     length (mac_raw x) = 6"

definition put_MacAddress :: "MacAddress \<Rightarrow> bytes" where
  [wire_defs]: "put_MacAddress x =
     mac_raw x"

definition get_MacAddress :: "bytes \<Rightarrow> MacAddress" where
  [wire_defs]: "get_MacAddress bs =
     \<lparr>mac_raw = take 6 bs\<rparr>"

interpretation MacAddress_wire: wire_struct put_MacAddress get_MacAddress wf_MacAddress 6
  by unfold_locales (auto simp: wire_defs wire_simps append_eq_conv_conj)

declare MacAddress_wire.laws [wire_simps]
declare wf_MacAddress_def [wire_defs del] put_MacAddress_def [wire_defs del] get_MacAddress_def [wire_defs del]

record Ssid =
  ssid_length :: u8
  ssid_raw :: bytes

definition wf_Ssid :: "Ssid \<Rightarrow> bool" where
  [wire_defs]: "wf_Ssid x \<longleftrightarrow>
     length (ssid_raw x) = 33"

definition put_Ssid :: "Ssid \<Rightarrow> bytes" where
  [wire_defs]: "put_Ssid x =
     put8 (ssid_length x) @ ssid_raw x"

definition get_Ssid :: "bytes \<Rightarrow> Ssid" where
  [wire_defs]: "get_Ssid bs =
     \<lparr>ssid_length = get8 bs, ssid_raw = take 33 (drop 1 bs)\<rparr>"

interpretation Ssid_wire: wire_struct put_Ssid get_Ssid wf_Ssid 34
  by unfold_locales (auto simp: wire_defs wire_simps append_eq_conv_conj)

declare Ssid_wire.laws [wire_simps]
declare wf_Ssid_def [wire_defs del] put_Ssid_def [wire_defs del] get_Ssid_def [wire_defs del]

record CommonNetworkInfo =
  cni_bssid :: MacAddress
  cni_ssid :: Ssid
  cni_channel :: u16
  cni_linkLevel :: u8
  cni_networkType :: u8
  cni_unk :: u32

definition wf_CommonNetworkInfo :: "CommonNetworkInfo \<Rightarrow> bool" where
  [wire_defs]: "wf_CommonNetworkInfo x \<longleftrightarrow>
     wf_MacAddress (cni_bssid x) \<and> wf_Ssid (cni_ssid x)"

definition put_CommonNetworkInfo :: "CommonNetworkInfo \<Rightarrow> bytes" where
  [wire_defs]: "put_CommonNetworkInfo x =
     put_MacAddress (cni_bssid x) @ put_Ssid (cni_ssid x) @ put16 (cni_channel x) @
     put8 (cni_linkLevel x) @ put8 (cni_networkType x) @ put32 (cni_unk x)"

definition get_CommonNetworkInfo :: "bytes \<Rightarrow> CommonNetworkInfo" where
  [wire_defs]: "get_CommonNetworkInfo bs =
     \<lparr>cni_bssid = get_MacAddress bs, cni_ssid = get_Ssid (drop 6 bs),
      cni_channel = get16 (drop 40 bs), cni_linkLevel = get8 (drop 42 bs),
      cni_networkType = get8 (drop 43 bs), cni_unk = get32 (drop 44 bs)\<rparr>"

interpretation CommonNetworkInfo_wire: wire_struct put_CommonNetworkInfo get_CommonNetworkInfo wf_CommonNetworkInfo 48
  by unfold_locales (auto simp: wire_defs wire_simps append_eq_conv_conj)

declare CommonNetworkInfo_wire.laws [wire_simps]
declare wf_CommonNetworkInfo_def [wire_defs del] put_CommonNetworkInfo_def [wire_defs del] get_CommonNetworkInfo_def [wire_defs del]

record NodeInfo =
  node_ipv4Address :: u32
  node_macAddress :: MacAddress
  node_nodeId :: u8
  node_isConnected :: u8
  node_userName :: bytes
  node_unk1 :: u8
  node_localCommunicationVersion :: u16
  node_unk2 :: bytes

definition wf_NodeInfo :: "NodeInfo \<Rightarrow> bool" where
  [wire_defs]: "wf_NodeInfo x \<longleftrightarrow>
     wf_MacAddress (node_macAddress x) \<and> length (node_userName x) = 33 \<and>
     length (node_unk2 x) = 16"

definition put_NodeInfo :: "NodeInfo \<Rightarrow> bytes" where
  [wire_defs]: "put_NodeInfo x =
     put32 (node_ipv4Address x) @ put_MacAddress (node_macAddress x) @
     put8 (node_nodeId x) @ put8 (node_isConnected x) @ node_userName x @
     put8 (node_unk1 x) @ put16 (node_localCommunicationVersion x) @ node_unk2 x"

definition get_NodeInfo :: "bytes \<Rightarrow> NodeInfo" where
  [wire_defs]: "get_NodeInfo bs =
     \<lparr>node_ipv4Address = get32 bs, node_macAddress = get_MacAddress (drop 4 bs),
      node_nodeId = get8 (drop 10 bs), node_isConnected = get8 (drop 11 bs),
      node_userName = take 33 (drop 12 bs), node_unk1 = get8 (drop 45 bs),
      node_localCommunicationVersion = get16 (drop 46 bs),
      node_unk2 = take 16 (drop 48 bs)\<rparr>"

interpretation NodeInfo_wire: wire_struct put_NodeInfo get_NodeInfo wf_NodeInfo 64
  by unfold_locales (auto simp: wire_defs wire_simps append_eq_conv_conj)

declare NodeInfo_wire.laws [wire_simps] NodeInfo_wire.array_laws [wire_simps]
declare wf_NodeInfo_def [wire_defs del] put_NodeInfo_def [wire_defs del] get_NodeInfo_def [wire_defs del]

record LdnNetworkInfo =
  lni_unkRandom :: bytes
  lni_securityMode :: u16
  lni_stationAcceptPolicy :: u8
  lni_unk1 :: bytes
  lni_nodeCountMax :: u8
  lni_nodeCount :: u8
  lni_nodes :: "NodeInfo list"
  lni_unk2 :: u16
  lni_advertiseDataSize :: u16
  lni_advertiseData :: bytes
  lni_unk3 :: bytes

definition wf_LdnNetworkInfo :: "LdnNetworkInfo \<Rightarrow> bool" where
  [wire_defs]: "wf_LdnNetworkInfo x \<longleftrightarrow>
     length (lni_unkRandom x) = 16 \<and> length (lni_unk1 x) = 3 \<and>
     length (lni_nodes x) = 8 \<and>
     (\<forall>n \<in> set (lni_nodes x). wf_NodeInfo n) \<and>
     length (lni_advertiseData x) = 384 \<and> length (lni_unk3 x) = 148"

definition put_LdnNetworkInfo :: "LdnNetworkInfo \<Rightarrow> bytes" where
  [wire_defs]: "put_LdnNetworkInfo x =
     lni_unkRandom x @ put16 (lni_securityMode x) @ put8 (lni_stationAcceptPolicy x) @
     lni_unk1 x @ put8 (lni_nodeCountMax x) @ put8 (lni_nodeCount x) @
     put_array put_NodeInfo (lni_nodes x) @ put16 (lni_unk2 x) @
     put16 (lni_advertiseDataSize x) @ lni_advertiseData x @ lni_unk3 x"

definition get_LdnNetworkInfo :: "bytes \<Rightarrow> LdnNetworkInfo" where
  [wire_defs]: "get_LdnNetworkInfo bs =
     \<lparr>lni_unkRandom = take 16 bs, lni_securityMode = get16 (drop 16 bs),
      lni_stationAcceptPolicy = get8 (drop 18 bs), lni_unk1 = take 3 (drop 19 bs),
      lni_nodeCountMax = get8 (drop 22 bs), lni_nodeCount = get8 (drop 23 bs),
      lni_nodes = get_array get_NodeInfo 64 8 (drop 24 bs),
      lni_unk2 = get16 (drop 536 bs), lni_advertiseDataSize = get16 (drop 538 bs),
      lni_advertiseData = take 384 (drop 540 bs), lni_unk3 = take 148 (drop 924 bs)\<rparr>"

interpretation LdnNetworkInfo_wire: wire_struct put_LdnNetworkInfo get_LdnNetworkInfo wf_LdnNetworkInfo 1072
  by unfold_locales (auto simp: wire_defs wire_simps append_eq_conv_conj dest: NodeInfo_wire.wf_get_array [rotated])

declare LdnNetworkInfo_wire.laws [wire_simps]
declare wf_LdnNetworkInfo_def [wire_defs del] put_LdnNetworkInfo_def [wire_defs del] get_LdnNetworkInfo_def [wire_defs del]

record IntentId =
  int_localCommunicationId :: u64
  int_unk1 :: bytes
  int_sceneId :: u16
  int_unk2 :: bytes

definition wf_IntentId :: "IntentId \<Rightarrow> bool" where
  [wire_defs]: "wf_IntentId x \<longleftrightarrow>
     length (int_unk1 x) = 2 \<and> length (int_unk2 x) = 4"

definition put_IntentId :: "IntentId \<Rightarrow> bytes" where
  [wire_defs]: "put_IntentId x =
     put64 (int_localCommunicationId x) @ int_unk1 x @ put16 (int_sceneId x) @ int_unk2 x"

definition get_IntentId :: "bytes \<Rightarrow> IntentId" where
  [wire_defs]: "get_IntentId bs =
     \<lparr>int_localCommunicationId = get64 bs, int_unk1 = take 2 (drop 8 bs),
      int_sceneId = get16 (drop 10 bs), int_unk2 = take 4 (drop 12 bs)\<rparr>"

interpretation IntentId_wire: wire_struct put_IntentId get_IntentId wf_IntentId 16
  by unfold_locales (auto simp: wire_defs wire_simps append_eq_conv_conj)

declare IntentId_wire.laws [wire_simps]
declare wf_IntentId_def [wire_defs del] put_IntentId_def [wire_defs del] get_IntentId_def [wire_defs del]

record SessionId =
  ses_high :: u64
  ses_low :: u64

definition wf_SessionId :: "SessionId \<Rightarrow> bool" where
  [wire_defs]: "wf_SessionId x \<longleftrightarrow>
     True"

definition put_SessionId :: "SessionId \<Rightarrow> bytes" where
  [wire_defs]: "put_SessionId x =
     put64 (ses_high x) @ put64 (ses_low x)"

definition get_SessionId :: "bytes \<Rightarrow> SessionId" where
  [wire_defs]: "get_SessionId bs =
     \<lparr>ses_high = get64 bs, ses_low = get64 (drop 8 bs)\<rparr>"

interpretation SessionId_wire: wire_struct put_SessionId get_SessionId wf_SessionId 16
  by unfold_locales (auto simp: wire_defs wire_simps append_eq_conv_conj)

declare SessionId_wire.laws [wire_simps]
declare wf_SessionId_def [wire_defs del] put_SessionId_def [wire_defs del] get_SessionId_def [wire_defs del]

record NetworkId =
  nid_intentId :: IntentId
  nid_sessionId :: SessionId

definition wf_NetworkId :: "NetworkId \<Rightarrow> bool" where
  [wire_defs]: "wf_NetworkId x \<longleftrightarrow>
     wf_IntentId (nid_intentId x) \<and> wf_SessionId (nid_sessionId x)"

definition put_NetworkId :: "NetworkId \<Rightarrow> bytes" where
  [wire_defs]: "put_NetworkId x =
     put_IntentId (nid_intentId x) @ put_SessionId (nid_sessionId x)"

definition get_NetworkId :: "bytes \<Rightarrow> NetworkId" where
  [wire_defs]: "get_NetworkId bs =
     \<lparr>nid_intentId = get_IntentId bs, nid_sessionId = get_SessionId (drop 16 bs)\<rparr>"

interpretation NetworkId_wire: wire_struct put_NetworkId get_NetworkId wf_NetworkId 32
  by unfold_locales (auto simp: wire_defs wire_simps append_eq_conv_conj)

declare NetworkId_wire.laws [wire_simps]
declare wf_NetworkId_def [wire_defs del] put_NetworkId_def [wire_defs del] get_NetworkId_def [wire_defs del]

record NetworkInfo =
  net_networkId :: NetworkId
  net_common :: CommonNetworkInfo
  net_ldn :: LdnNetworkInfo

definition wf_NetworkInfo :: "NetworkInfo \<Rightarrow> bool" where
  [wire_defs]: "wf_NetworkInfo x \<longleftrightarrow>
     wf_NetworkId (net_networkId x) \<and> wf_CommonNetworkInfo (net_common x) \<and>
     wf_LdnNetworkInfo (net_ldn x)"

definition put_NetworkInfo :: "NetworkInfo \<Rightarrow> bytes" where
  [wire_defs]: "put_NetworkInfo x =
     put_NetworkId (net_networkId x) @ put_CommonNetworkInfo (net_common x) @
     put_LdnNetworkInfo (net_ldn x)"

definition get_NetworkInfo :: "bytes \<Rightarrow> NetworkInfo" where
  [wire_defs]: "get_NetworkInfo bs =
     \<lparr>net_networkId = get_NetworkId bs, net_common = get_CommonNetworkInfo (drop 32 bs),
      net_ldn = get_LdnNetworkInfo (drop 80 bs)\<rparr>"

interpretation NetworkInfo_wire: wire_struct put_NetworkInfo get_NetworkInfo wf_NetworkInfo 1152
  by unfold_locales (auto simp: wire_defs wire_simps append_eq_conv_conj)

declare NetworkInfo_wire.laws [wire_simps]
declare wf_NetworkInfo_def [wire_defs del] put_NetworkInfo_def [wire_defs del] get_NetworkInfo_def [wire_defs del]

record SecurityConfig =
  sec_securityMode :: u16
  sec_passphraseSize :: u16
  sec_passphrase :: bytes

definition wf_SecurityConfig :: "SecurityConfig \<Rightarrow> bool" where
  [wire_defs]: "wf_SecurityConfig x \<longleftrightarrow>
     length (sec_passphrase x) = 64"

definition put_SecurityConfig :: "SecurityConfig \<Rightarrow> bytes" where
  [wire_defs]: "put_SecurityConfig x =
     put16 (sec_securityMode x) @ put16 (sec_passphraseSize x) @ sec_passphrase x"

definition get_SecurityConfig :: "bytes \<Rightarrow> SecurityConfig" where
  [wire_defs]: "get_SecurityConfig bs =
     \<lparr>sec_securityMode = get16 bs, sec_passphraseSize = get16 (drop 2 bs),
      sec_passphrase = take 64 (drop 4 bs)\<rparr>"

interpretation SecurityConfig_wire: wire_struct put_SecurityConfig get_SecurityConfig wf_SecurityConfig 68
  by unfold_locales (auto simp: wire_defs wire_simps append_eq_conv_conj)

declare SecurityConfig_wire.laws [wire_simps]
declare wf_SecurityConfig_def [wire_defs del] put_SecurityConfig_def [wire_defs del] get_SecurityConfig_def [wire_defs del]

record UserConfig =
  usr_userName :: bytes
  usr_unk :: bytes

definition wf_UserConfig :: "UserConfig \<Rightarrow> bool" where
  [wire_defs]: "wf_UserConfig x \<longleftrightarrow>
     length (usr_userName x) = 33 \<and> length (usr_unk x) = 15"

definition put_UserConfig :: "UserConfig \<Rightarrow> bytes" where
  [wire_defs]: "put_UserConfig x =
     usr_userName x @ usr_unk x"

definition get_UserConfig :: "bytes \<Rightarrow> UserConfig" where
  [wire_defs]: "get_UserConfig bs =
     \<lparr>usr_userName = take 33 bs, usr_unk = take 15 (drop 33 bs)\<rparr>"

interpretation UserConfig_wire: wire_struct put_UserConfig get_UserConfig wf_UserConfig 48
  by unfold_locales (auto simp: wire_defs wire_simps append_eq_conv_conj)

declare UserConfig_wire.laws [wire_simps]
declare wf_UserConfig_def [wire_defs del] put_UserConfig_def [wire_defs del] get_UserConfig_def [wire_defs del]

record NetworkConfig =
  ncf_intentId :: IntentId
  ncf_channel :: u16
  ncf_nodeCountMax :: u8
  ncf_unk1 :: u8
  ncf_localCommunicationVersion :: u16
  ncf_unk2 :: bytes

definition wf_NetworkConfig :: "NetworkConfig \<Rightarrow> bool" where
  [wire_defs]: "wf_NetworkConfig x \<longleftrightarrow>
     wf_IntentId (ncf_intentId x) \<and> length (ncf_unk2 x) = 10"

definition put_NetworkConfig :: "NetworkConfig \<Rightarrow> bytes" where
  [wire_defs]: "put_NetworkConfig x =
     put_IntentId (ncf_intentId x) @ put16 (ncf_channel x) @ put8 (ncf_nodeCountMax x) @
     put8 (ncf_unk1 x) @ put16 (ncf_localCommunicationVersion x) @ ncf_unk2 x"

definition get_NetworkConfig :: "bytes \<Rightarrow> NetworkConfig" where
  [wire_defs]: "get_NetworkConfig bs =
     \<lparr>ncf_intentId = get_IntentId bs, ncf_channel = get16 (drop 16 bs),
      ncf_nodeCountMax = get8 (drop 18 bs), ncf_unk1 = get8 (drop 19 bs),
      ncf_localCommunicationVersion = get16 (drop 20 bs), ncf_unk2 = take 10 (drop 22 bs)\<rparr>"

interpretation NetworkConfig_wire: wire_struct put_NetworkConfig get_NetworkConfig wf_NetworkConfig 32
  by unfold_locales (auto simp: wire_defs wire_simps append_eq_conv_conj)

declare NetworkConfig_wire.laws [wire_simps]
declare wf_NetworkConfig_def [wire_defs del] put_NetworkConfig_def [wire_defs del] get_NetworkConfig_def [wire_defs del]

record AddressEntry =
  ade_ipv4Address :: u32
  ade_macAddress :: bytes
  ade_reserved :: u16

definition wf_AddressEntry :: "AddressEntry \<Rightarrow> bool" where
  [wire_defs]: "wf_AddressEntry x \<longleftrightarrow>
     length (ade_macAddress x) = 6"

definition put_AddressEntry :: "AddressEntry \<Rightarrow> bytes" where
  [wire_defs]: "put_AddressEntry x =
     put32 (ade_ipv4Address x) @ ade_macAddress x @ put16 (ade_reserved x)"

definition get_AddressEntry :: "bytes \<Rightarrow> AddressEntry" where
  [wire_defs]: "get_AddressEntry bs =
     \<lparr>ade_ipv4Address = get32 bs, ade_macAddress = take 6 (drop 4 bs),
      ade_reserved = get16 (drop 10 bs)\<rparr>"

interpretation AddressEntry_wire: wire_struct put_AddressEntry get_AddressEntry wf_AddressEntry 12
  by unfold_locales (auto simp: wire_defs wire_simps append_eq_conv_conj)

declare AddressEntry_wire.laws [wire_simps] AddressEntry_wire.array_laws [wire_simps]
declare wf_AddressEntry_def [wire_defs del] put_AddressEntry_def [wire_defs del] get_AddressEntry_def [wire_defs del]

record AddressList =
  adl_addresses :: "AddressEntry list"

definition wf_AddressList :: "AddressList \<Rightarrow> bool" where
  [wire_defs]: "wf_AddressList x \<longleftrightarrow>
     length (adl_addresses x) = 8 \<and>
     (\<forall>n \<in> set (adl_addresses x). wf_AddressEntry n)"

definition put_AddressList :: "AddressList \<Rightarrow> bytes" where
  [wire_defs]: "put_AddressList x =
     put_array put_AddressEntry (adl_addresses x)"

definition get_AddressList :: "bytes \<Rightarrow> AddressList" where
  [wire_defs]: "get_AddressList bs =
     \<lparr>adl_addresses = get_array get_AddressEntry 12 8 bs\<rparr>"

interpretation AddressList_wire: wire_struct put_AddressList get_AddressList wf_AddressList 96
  by unfold_locales (auto simp: wire_defs wire_simps append_eq_conv_conj dest: AddressEntry_wire.wf_get_array [rotated])

declare AddressList_wire.laws [wire_simps]
declare wf_AddressList_def [wire_defs del] put_AddressList_def [wire_defs del] get_AddressList_def [wire_defs del]

record CreateNetworkConfig =
  cnc_securityConfig :: SecurityConfig
  cnc_userConfig :: UserConfig
  cnc_unk :: bytes
  cnc_networkConfig :: NetworkConfig

definition wf_CreateNetworkConfig :: "CreateNetworkConfig \<Rightarrow> bool" where
  [wire_defs]: "wf_CreateNetworkConfig x \<longleftrightarrow>
     wf_SecurityConfig (cnc_securityConfig x) \<and>
     wf_UserConfig (cnc_userConfig x) \<and> length (cnc_unk x) = 4 \<and>
     wf_NetworkConfig (cnc_networkConfig x)"

definition put_CreateNetworkConfig :: "CreateNetworkConfig \<Rightarrow> bytes" where
  [wire_defs]: "put_CreateNetworkConfig x =
     put_SecurityConfig (cnc_securityConfig x) @ put_UserConfig (cnc_userConfig x) @
     cnc_unk x @ put_NetworkConfig (cnc_networkConfig x)"

definition get_CreateNetworkConfig :: "bytes \<Rightarrow> CreateNetworkConfig" where
  [wire_defs]: "get_CreateNetworkConfig bs =
     \<lparr>cnc_securityConfig = get_SecurityConfig bs,
      cnc_userConfig = get_UserConfig (drop 68 bs), cnc_unk = take 4 (drop 116 bs),
      cnc_networkConfig = get_NetworkConfig (drop 120 bs)\<rparr>"

interpretation CreateNetworkConfig_wire: wire_struct put_CreateNetworkConfig get_CreateNetworkConfig wf_CreateNetworkConfig 152
  by unfold_locales (auto simp: wire_defs wire_simps append_eq_conv_conj)

declare CreateNetworkConfig_wire.laws [wire_simps]
declare wf_CreateNetworkConfig_def [wire_defs del] put_CreateNetworkConfig_def [wire_defs del] get_CreateNetworkConfig_def [wire_defs del]

record ConnectNetworkData =
  cnd_securityConfig :: SecurityConfig
  cnd_userConfig :: UserConfig
  cnd_localCommunicationVersion :: u32
  cnd_option :: u32

definition wf_ConnectNetworkData :: "ConnectNetworkData \<Rightarrow> bool" where
  [wire_defs]: "wf_ConnectNetworkData x \<longleftrightarrow>
     wf_SecurityConfig (cnd_securityConfig x) \<and> wf_UserConfig (cnd_userConfig x)"

definition put_ConnectNetworkData :: "ConnectNetworkData \<Rightarrow> bytes" where
  [wire_defs]: "put_ConnectNetworkData x =
     put_SecurityConfig (cnd_securityConfig x) @ put_UserConfig (cnd_userConfig x) @
     put32 (cnd_localCommunicationVersion x) @ put32 (cnd_option x)"

definition get_ConnectNetworkData :: "bytes \<Rightarrow> ConnectNetworkData" where
  [wire_defs]: "get_ConnectNetworkData bs =
     \<lparr>cnd_securityConfig = get_SecurityConfig bs,
      cnd_userConfig = get_UserConfig (drop 68 bs),
      cnd_localCommunicationVersion = get32 (drop 116 bs),
      cnd_option = get32 (drop 120 bs)\<rparr>"

interpretation ConnectNetworkData_wire: wire_struct put_ConnectNetworkData get_ConnectNetworkData wf_ConnectNetworkData 124
  by unfold_locales (auto simp: wire_defs wire_simps append_eq_conv_conj)

declare ConnectNetworkData_wire.laws [wire_simps]
declare wf_ConnectNetworkData_def [wire_defs del] put_ConnectNetworkData_def [wire_defs del] get_ConnectNetworkData_def [wire_defs del]

record NodeLatestUpdate =
  nlu_stateChange :: u8
  nlu_unk :: bytes

definition wf_NodeLatestUpdate :: "NodeLatestUpdate \<Rightarrow> bool" where
  [wire_defs]: "wf_NodeLatestUpdate x \<longleftrightarrow>
     length (nlu_unk x) = 7"

definition put_NodeLatestUpdate :: "NodeLatestUpdate \<Rightarrow> bytes" where
  [wire_defs]: "put_NodeLatestUpdate x =
     put8 (nlu_stateChange x) @ nlu_unk x"

definition get_NodeLatestUpdate :: "bytes \<Rightarrow> NodeLatestUpdate" where
  [wire_defs]: "get_NodeLatestUpdate bs =
     \<lparr>nlu_stateChange = get8 bs, nlu_unk = take 7 (drop 1 bs)\<rparr>"

interpretation NodeLatestUpdate_wire: wire_struct put_NodeLatestUpdate get_NodeLatestUpdate wf_NodeLatestUpdate 8
  by unfold_locales (auto simp: wire_defs wire_simps append_eq_conv_conj)

declare NodeLatestUpdate_wire.laws [wire_simps]
declare wf_NodeLatestUpdate_def [wire_defs del] put_NodeLatestUpdate_def [wire_defs del] get_NodeLatestUpdate_def [wire_defs del]

record SecurityParameter =
  spm_unkRandom :: bytes
  spm_sessionId :: SessionId

definition wf_SecurityParameter :: "SecurityParameter \<Rightarrow> bool" where
  [wire_defs]: "wf_SecurityParameter x \<longleftrightarrow>
     length (spm_unkRandom x) = 16 \<and> wf_SessionId (spm_sessionId x)"

definition put_SecurityParameter :: "SecurityParameter \<Rightarrow> bytes" where
  [wire_defs]: "put_SecurityParameter x =
     spm_unkRandom x @ put_SessionId (spm_sessionId x)"

definition get_SecurityParameter :: "bytes \<Rightarrow> SecurityParameter" where
  [wire_defs]: "get_SecurityParameter bs =
     \<lparr>spm_unkRandom = take 16 bs, spm_sessionId = get_SessionId (drop 16 bs)\<rparr>"

interpretation SecurityParameter_wire: wire_struct put_SecurityParameter get_SecurityParameter wf_SecurityParameter 32
  by unfold_locales (auto simp: wire_defs wire_simps append_eq_conv_conj)

declare SecurityParameter_wire.laws [wire_simps]
declare wf_SecurityParameter_def [wire_defs del] put_SecurityParameter_def [wire_defs del] get_SecurityParameter_def [wire_defs del]

record ScanFilter =
  scf_networkId :: NetworkId
  scf_networkType :: u32
  scf_bssid :: MacAddress
  scf_ssid :: Ssid
  scf_unk :: bytes
  scf_flag :: u32

definition wf_ScanFilter :: "ScanFilter \<Rightarrow> bool" where
  [wire_defs]: "wf_ScanFilter x \<longleftrightarrow>
     wf_NetworkId (scf_networkId x) \<and> wf_MacAddress (scf_bssid x) \<and>
     wf_Ssid (scf_ssid x) \<and> length (scf_unk x) = 16"

definition put_ScanFilter :: "ScanFilter \<Rightarrow> bytes" where
  [wire_defs]: "put_ScanFilter x =
     put_NetworkId (scf_networkId x) @ put32 (scf_networkType x) @
     put_MacAddress (scf_bssid x) @ put_Ssid (scf_ssid x) @ scf_unk x @
     put32 (scf_flag x)"

definition get_ScanFilter :: "bytes \<Rightarrow> ScanFilter" where
  [wire_defs]: "get_ScanFilter bs =
     \<lparr>scf_networkId = get_NetworkId bs, scf_networkType = get32 (drop 32 bs),
      scf_bssid = get_MacAddress (drop 36 bs), scf_ssid = get_Ssid (drop 42 bs),
      scf_unk = take 16 (drop 76 bs), scf_flag = get32 (drop 92 bs)\<rparr>"

interpretation ScanFilter_wire: wire_struct put_ScanFilter get_ScanFilter wf_ScanFilter 96
  by unfold_locales (auto simp: wire_defs wire_simps append_eq_conv_conj)

declare ScanFilter_wire.laws [wire_simps]
declare wf_ScanFilter_def [wire_defs del] put_ScanFilter_def [wire_defs del] get_ScanFilter_def [wire_defs del]
section \<open>Constants, states and conversions\<close>

definition SsidLengthMax :: nat where "SsidLengthMax = 32"
definition AdvertiseDataSizeMax :: nat where "AdvertiseDataSizeMax = 384"
definition UserNameBytesMax :: nat where "UserNameBytesMax = 32"
definition NodeCountMax :: nat where "NodeCountMax = 8"
definition StationCountMax :: nat where "StationCountMax = NodeCountMax - 1"
definition PassphraseLengthMax :: nat where "PassphraseLengthMax = 64"

datatype CommState =
  CommState_None | Initialized | AccessPoint | AccessPointCreated | Station | StationConnected
  | CommState_Error

text \<open>\<open>static_cast<u32>(state)\<close>: the enumerators are numbered from 0 in order.\<close>

primrec CommState_code :: "CommState \<Rightarrow> nat" where
  "CommState_code CommState_None = 0"
| "CommState_code Initialized = 1"
| "CommState_code AccessPoint = 2"
| "CommState_code AccessPointCreated = 3"
| "CommState_code Station = 4"
| "CommState_code StationConnected = 5"
| "CommState_code CommState_Error = 6"

text \<open>
  The conversions and comparisons of \<open>ldn_types.cpp\<close>. \<open>Ssid::operator==\<close> compares
  \<open>length\<close> bytes of the 33-byte array and \<open>Ssid::operator=\<close> copies a C string into it: both go
  past the array when the length says so.
\<close>

definition NetworkInfo2NetworkConfig :: "NetworkInfo \<Rightarrow> NetworkConfig \<Rightarrow> NetworkConfig" where
  "NetworkInfo2NetworkConfig info out =
     out\<lparr>ncf_intentId := nid_intentId (net_networkId info),
         ncf_channel := cni_channel (net_common info),
         ncf_nodeCountMax := lni_nodeCountMax (net_ldn info),
         ncf_localCommunicationVersion :=
           node_localCommunicationVersion (lni_nodes (net_ldn info) ! 0)\<rparr>"

definition NetworkInfo2SecurityParameter ::
    "NetworkInfo \<Rightarrow> SecurityParameter \<Rightarrow> SecurityParameter" where
  "NetworkInfo2SecurityParameter info out =
     out\<lparr>spm_sessionId := nid_sessionId (net_networkId info),
         spm_unkRandom := take 16 (lni_unkRandom (net_ldn info))\<rparr>"

definition MacAddress_eq :: "MacAddress \<Rightarrow> MacAddress \<Rightarrow> bool" where
  "MacAddress_eq a b \<longleftrightarrow> take 6 (mac_raw a) = take 6 (mac_raw b)"

definition Ssid_eq :: "Ssid \<Rightarrow> Ssid \<Rightarrow> bool run" where
  "Ssid_eq a b =
     (if ssid_length a \<noteq> ssid_length b then Inr False
      else if length (ssid_raw a) < unat (ssid_length a)
              \<or> length (ssid_raw b) < unat (ssid_length a) then Inl BufferOverrun
      else Inr (take (unat (ssid_length a)) (ssid_raw a) = take (unat (ssid_length a)) (ssid_raw b)))"

text \<open>The argument is a C string, given without its terminating zero.\<close>

definition Ssid_assign :: "Ssid \<Rightarrow> bytes \<Rightarrow> Ssid run" where
  "Ssid_assign x s =
     bind_run (memcpy_to (ssid_raw x) 0 (s @ [0]))
       (\<lambda>raw. Inr (x\<lparr>ssid_raw := raw, ssid_length := of_nat (length s)\<rparr>))"

definition SessionId_eq :: "SessionId \<Rightarrow> SessionId \<Rightarrow> bool" where
  "SessionId_eq a b \<longleftrightarrow> ses_low a = ses_low b \<and> ses_high a = ses_high b"

lemma SessionId_eq_iff: "SessionId_eq a b \<longleftrightarrow> a = b"
  by (cases a; cases b) (auto simp: SessionId_eq_def)

lemma MacAddress_eq_iff: "wf_MacAddress a \<Longrightarrow> wf_MacAddress b \<Longrightarrow> MacAddress_eq a b \<longleftrightarrow> a = b"
  by (cases a; cases b) (auto simp: MacAddress_eq_def wf_MacAddress_def)

lemma Ssid_assign_ok:
  assumes "wf_Ssid x" and "length s \<le> SsidLengthMax"
  shows "\<exists>y. Ssid_assign x s = Inr y \<and> wf_Ssid y \<and> unat (ssid_length y) = length s
             \<and> take (length s) (ssid_raw y) = s"
proof -
  from assms have l: "length (s @ [0]) \<le> length (ssid_raw x)"
    by (simp add: wf_Ssid_def SsidLengthMax_def)
  then show ?thesis
    using assms by (simp add: Ssid_assign_def memcpy_to_def wf_Ssid_def SsidLengthMax_def
        unat_of_nat_u8)
qed

lemma Ssid_assign_overrun:
  "wf_Ssid x \<Longrightarrow> SsidLengthMax < length s \<Longrightarrow> Ssid_assign x s = Inl BufferOverrun"
  by (simp add: Ssid_assign_def memcpy_to_def wf_Ssid_def SsidLengthMax_def)

lemma Ssid_eq_refl:
  "wf_Ssid a \<Longrightarrow> unat (ssid_length a) \<le> SsidLengthMax + 1 \<Longrightarrow> Ssid_eq a a = Inr True"
  by (simp add: Ssid_eq_def wf_Ssid_def SsidLengthMax_def)

lemma wf_NetworkInfo2NetworkConfig:
  "wf_NetworkInfo i \<Longrightarrow> wf_NetworkConfig c \<Longrightarrow> wf_NetworkConfig (NetworkInfo2NetworkConfig i c)"
  by (simp add: NetworkInfo2NetworkConfig_def wf_NetworkConfig_def wf_NetworkInfo_def
      wf_NetworkId_def)

lemma wf_NetworkInfo2SecurityParameter:
  "wf_NetworkInfo i \<Longrightarrow> wf_SecurityParameter (NetworkInfo2SecurityParameter i p)"
  by (simp add: NetworkInfo2SecurityParameter_def wf_SecurityParameter_def wf_NetworkInfo_def
      wf_NetworkId_def wf_SessionId_def wf_LdnNetworkInfo_def)

end
