(* ===== verification/Packet_Types.thy ===== *)
theory Packet_Types
  imports Ldn_Types
begin

text \<open>
  The packet identifiers and message structures of \<open>ryuldn_nx/source/ryuldn/types/\<close>, in the
  same style as \<open>Ldn_Types\<close>.
\<close>

record LdnHeader =
  hdr_magic :: u32
  hdr_type :: u8
  hdr_version :: u8
  hdr_dataSize :: u32

definition wf_LdnHeader :: "LdnHeader \<Rightarrow> bool" where
  [wire_defs]: "wf_LdnHeader x \<longleftrightarrow>
     True"

definition put_LdnHeader :: "LdnHeader \<Rightarrow> bytes" where
  [wire_defs]: "put_LdnHeader x =
     put32 (hdr_magic x) @ put8 (hdr_type x) @ put8 (hdr_version x) @
     put32 (hdr_dataSize x)"

definition get_LdnHeader :: "bytes \<Rightarrow> LdnHeader" where
  [wire_defs]: "get_LdnHeader bs =
     \<lparr>hdr_magic = get32 bs, hdr_type = get8 (drop 4 bs), hdr_version = get8 (drop 5 bs),
      hdr_dataSize = get32 (drop 6 bs)\<rparr>"

interpretation LdnHeader_wire: wire_struct put_LdnHeader get_LdnHeader wf_LdnHeader 10
  by unfold_locales (auto simp: wire_defs wire_simps append_eq_conv_conj)

declare LdnHeader_wire.laws [wire_simps]
declare wf_LdnHeader_def [wire_defs del] put_LdnHeader_def [wire_defs del] get_LdnHeader_def [wire_defs del]

record InitializeMessage =
  ini_id :: bytes
  ini_macAddress :: bytes

definition wf_InitializeMessage :: "InitializeMessage \<Rightarrow> bool" where
  [wire_defs]: "wf_InitializeMessage x \<longleftrightarrow>
     length (ini_id x) = 16 \<and> length (ini_macAddress x) = 6"

definition put_InitializeMessage :: "InitializeMessage \<Rightarrow> bytes" where
  [wire_defs]: "put_InitializeMessage x =
     ini_id x @ ini_macAddress x"

definition get_InitializeMessage :: "bytes \<Rightarrow> InitializeMessage" where
  [wire_defs]: "get_InitializeMessage bs =
     \<lparr>ini_id = take 16 bs, ini_macAddress = take 6 (drop 16 bs)\<rparr>"

interpretation InitializeMessage_wire: wire_struct put_InitializeMessage get_InitializeMessage wf_InitializeMessage 22
  by unfold_locales (auto simp: wire_defs wire_simps append_eq_conv_conj)

declare InitializeMessage_wire.laws [wire_simps]
declare wf_InitializeMessage_def [wire_defs del] put_InitializeMessage_def [wire_defs del] get_InitializeMessage_def [wire_defs del]

record PassphraseMessage =
  pas_passphrase :: bytes

definition wf_PassphraseMessage :: "PassphraseMessage \<Rightarrow> bool" where
  [wire_defs]: "wf_PassphraseMessage x \<longleftrightarrow>
     length (pas_passphrase x) = 128"

definition put_PassphraseMessage :: "PassphraseMessage \<Rightarrow> bytes" where
  [wire_defs]: "put_PassphraseMessage x =
     pas_passphrase x"

definition get_PassphraseMessage :: "bytes \<Rightarrow> PassphraseMessage" where
  [wire_defs]: "get_PassphraseMessage bs =
     \<lparr>pas_passphrase = take 128 bs\<rparr>"

interpretation PassphraseMessage_wire: wire_struct put_PassphraseMessage get_PassphraseMessage wf_PassphraseMessage 128
  by unfold_locales (auto simp: wire_defs wire_simps append_eq_conv_conj)

declare PassphraseMessage_wire.laws [wire_simps]
declare wf_PassphraseMessage_def [wire_defs del] put_PassphraseMessage_def [wire_defs del] get_PassphraseMessage_def [wire_defs del]

record PingMessage =
  png_requester :: u8
  png_id :: u8

definition wf_PingMessage :: "PingMessage \<Rightarrow> bool" where
  [wire_defs]: "wf_PingMessage x \<longleftrightarrow>
     True"

definition put_PingMessage :: "PingMessage \<Rightarrow> bytes" where
  [wire_defs]: "put_PingMessage x =
     put8 (png_requester x) @ put8 (png_id x)"

definition get_PingMessage :: "bytes \<Rightarrow> PingMessage" where
  [wire_defs]: "get_PingMessage bs =
     \<lparr>png_requester = get8 bs, png_id = get8 (drop 1 bs)\<rparr>"

interpretation PingMessage_wire: wire_struct put_PingMessage get_PingMessage wf_PingMessage 2
  by unfold_locales (auto simp: wire_defs wire_simps append_eq_conv_conj)

declare PingMessage_wire.laws [wire_simps]
declare wf_PingMessage_def [wire_defs del] put_PingMessage_def [wire_defs del] get_PingMessage_def [wire_defs del]

record DisconnectMessage =
  dis_disconnectIp :: u32

definition wf_DisconnectMessage :: "DisconnectMessage \<Rightarrow> bool" where
  [wire_defs]: "wf_DisconnectMessage x \<longleftrightarrow>
     True"

definition put_DisconnectMessage :: "DisconnectMessage \<Rightarrow> bytes" where
  [wire_defs]: "put_DisconnectMessage x =
     put32 (dis_disconnectIp x)"

definition get_DisconnectMessage :: "bytes \<Rightarrow> DisconnectMessage" where
  [wire_defs]: "get_DisconnectMessage bs =
     \<lparr>dis_disconnectIp = get32 bs\<rparr>"

interpretation DisconnectMessage_wire: wire_struct put_DisconnectMessage get_DisconnectMessage wf_DisconnectMessage 4
  by unfold_locales (auto simp: wire_defs wire_simps append_eq_conv_conj)

declare DisconnectMessage_wire.laws [wire_simps]
declare wf_DisconnectMessage_def [wire_defs del] put_DisconnectMessage_def [wire_defs del] get_DisconnectMessage_def [wire_defs del]

record NetworkErrorMessage =
  nem_error :: u32

definition wf_NetworkErrorMessage :: "NetworkErrorMessage \<Rightarrow> bool" where
  [wire_defs]: "wf_NetworkErrorMessage x \<longleftrightarrow>
     True"

definition put_NetworkErrorMessage :: "NetworkErrorMessage \<Rightarrow> bytes" where
  [wire_defs]: "put_NetworkErrorMessage x =
     put32 (nem_error x)"

definition get_NetworkErrorMessage :: "bytes \<Rightarrow> NetworkErrorMessage" where
  [wire_defs]: "get_NetworkErrorMessage bs =
     \<lparr>nem_error = get32 bs\<rparr>"

interpretation NetworkErrorMessage_wire: wire_struct put_NetworkErrorMessage get_NetworkErrorMessage wf_NetworkErrorMessage 4
  by unfold_locales (auto simp: wire_defs wire_simps append_eq_conv_conj)

declare NetworkErrorMessage_wire.laws [wire_simps]
declare wf_NetworkErrorMessage_def [wire_defs del] put_NetworkErrorMessage_def [wire_defs del] get_NetworkErrorMessage_def [wire_defs del]

record RejectRequest =
  rej_nodeId :: u32
  rej_disconnectReason :: u32

definition wf_RejectRequest :: "RejectRequest \<Rightarrow> bool" where
  [wire_defs]: "wf_RejectRequest x \<longleftrightarrow>
     True"

definition put_RejectRequest :: "RejectRequest \<Rightarrow> bytes" where
  [wire_defs]: "put_RejectRequest x =
     put32 (rej_nodeId x) @ put32 (rej_disconnectReason x)"

definition get_RejectRequest :: "bytes \<Rightarrow> RejectRequest" where
  [wire_defs]: "get_RejectRequest bs =
     \<lparr>rej_nodeId = get32 bs, rej_disconnectReason = get32 (drop 4 bs)\<rparr>"

interpretation RejectRequest_wire: wire_struct put_RejectRequest get_RejectRequest wf_RejectRequest 8
  by unfold_locales (auto simp: wire_defs wire_simps append_eq_conv_conj)

declare RejectRequest_wire.laws [wire_simps]
declare wf_RejectRequest_def [wire_defs del] put_RejectRequest_def [wire_defs del] get_RejectRequest_def [wire_defs del]

record SetAcceptPolicyRequest =
  sap_stationAcceptPolicy :: u8

definition wf_SetAcceptPolicyRequest :: "SetAcceptPolicyRequest \<Rightarrow> bool" where
  [wire_defs]: "wf_SetAcceptPolicyRequest x \<longleftrightarrow>
     True"

definition put_SetAcceptPolicyRequest :: "SetAcceptPolicyRequest \<Rightarrow> bytes" where
  [wire_defs]: "put_SetAcceptPolicyRequest x =
     put8 (sap_stationAcceptPolicy x)"

definition get_SetAcceptPolicyRequest :: "bytes \<Rightarrow> SetAcceptPolicyRequest" where
  [wire_defs]: "get_SetAcceptPolicyRequest bs =
     \<lparr>sap_stationAcceptPolicy = get8 bs\<rparr>"

interpretation SetAcceptPolicyRequest_wire: wire_struct put_SetAcceptPolicyRequest get_SetAcceptPolicyRequest wf_SetAcceptPolicyRequest 1
  by unfold_locales (auto simp: wire_defs wire_simps append_eq_conv_conj)

declare SetAcceptPolicyRequest_wire.laws [wire_simps]
declare wf_SetAcceptPolicyRequest_def [wire_defs del] put_SetAcceptPolicyRequest_def [wire_defs del] get_SetAcceptPolicyRequest_def [wire_defs del]

record ProxyConfig =
  pcf_proxyIp :: u32
  pcf_proxySubnetMask :: u32

definition wf_ProxyConfig :: "ProxyConfig \<Rightarrow> bool" where
  [wire_defs]: "wf_ProxyConfig x \<longleftrightarrow>
     True"

definition put_ProxyConfig :: "ProxyConfig \<Rightarrow> bytes" where
  [wire_defs]: "put_ProxyConfig x =
     put32 (pcf_proxyIp x) @ put32 (pcf_proxySubnetMask x)"

definition get_ProxyConfig :: "bytes \<Rightarrow> ProxyConfig" where
  [wire_defs]: "get_ProxyConfig bs =
     \<lparr>pcf_proxyIp = get32 bs, pcf_proxySubnetMask = get32 (drop 4 bs)\<rparr>"

interpretation ProxyConfig_wire: wire_struct put_ProxyConfig get_ProxyConfig wf_ProxyConfig 8
  by unfold_locales (auto simp: wire_defs wire_simps append_eq_conv_conj)

declare ProxyConfig_wire.laws [wire_simps]
declare wf_ProxyConfig_def [wire_defs del] put_ProxyConfig_def [wire_defs del] get_ProxyConfig_def [wire_defs del]

record ProxyInfo =
  pin_sourceIpV4 :: u32
  pin_sourcePort :: u16
  pin_destIpV4 :: u32
  pin_destPort :: u16
  pin_protocol :: u32

definition wf_ProxyInfo :: "ProxyInfo \<Rightarrow> bool" where
  [wire_defs]: "wf_ProxyInfo x \<longleftrightarrow>
     True"

definition put_ProxyInfo :: "ProxyInfo \<Rightarrow> bytes" where
  [wire_defs]: "put_ProxyInfo x =
     put32 (pin_sourceIpV4 x) @ put16 (pin_sourcePort x) @ put32 (pin_destIpV4 x) @
     put16 (pin_destPort x) @ put32 (pin_protocol x)"

definition get_ProxyInfo :: "bytes \<Rightarrow> ProxyInfo" where
  [wire_defs]: "get_ProxyInfo bs =
     \<lparr>pin_sourceIpV4 = get32 bs, pin_sourcePort = get16 (drop 4 bs),
      pin_destIpV4 = get32 (drop 6 bs), pin_destPort = get16 (drop 10 bs),
      pin_protocol = get32 (drop 12 bs)\<rparr>"

interpretation ProxyInfo_wire: wire_struct put_ProxyInfo get_ProxyInfo wf_ProxyInfo 16
  by unfold_locales (auto simp: wire_defs wire_simps append_eq_conv_conj)

declare ProxyInfo_wire.laws [wire_simps]
declare wf_ProxyInfo_def [wire_defs del] put_ProxyInfo_def [wire_defs del] get_ProxyInfo_def [wire_defs del]

record ProxyDataHeaderFull =
  pdh_info :: ProxyInfo
  pdh_dataLength :: u32

definition wf_ProxyDataHeaderFull :: "ProxyDataHeaderFull \<Rightarrow> bool" where
  [wire_defs]: "wf_ProxyDataHeaderFull x \<longleftrightarrow>
     wf_ProxyInfo (pdh_info x)"

definition put_ProxyDataHeaderFull :: "ProxyDataHeaderFull \<Rightarrow> bytes" where
  [wire_defs]: "put_ProxyDataHeaderFull x =
     put_ProxyInfo (pdh_info x) @ put32 (pdh_dataLength x)"

definition get_ProxyDataHeaderFull :: "bytes \<Rightarrow> ProxyDataHeaderFull" where
  [wire_defs]: "get_ProxyDataHeaderFull bs =
     \<lparr>pdh_info = get_ProxyInfo bs, pdh_dataLength = get32 (drop 16 bs)\<rparr>"

interpretation ProxyDataHeaderFull_wire: wire_struct put_ProxyDataHeaderFull get_ProxyDataHeaderFull wf_ProxyDataHeaderFull 20
  by unfold_locales (auto simp: wire_defs wire_simps append_eq_conv_conj)

declare ProxyDataHeaderFull_wire.laws [wire_simps]
declare wf_ProxyDataHeaderFull_def [wire_defs del] put_ProxyDataHeaderFull_def [wire_defs del] get_ProxyDataHeaderFull_def [wire_defs del]

record ProxyConnectRequestFull =
  pcr_info :: ProxyInfo

definition wf_ProxyConnectRequestFull :: "ProxyConnectRequestFull \<Rightarrow> bool" where
  [wire_defs]: "wf_ProxyConnectRequestFull x \<longleftrightarrow>
     wf_ProxyInfo (pcr_info x)"

definition put_ProxyConnectRequestFull :: "ProxyConnectRequestFull \<Rightarrow> bytes" where
  [wire_defs]: "put_ProxyConnectRequestFull x =
     put_ProxyInfo (pcr_info x)"

definition get_ProxyConnectRequestFull :: "bytes \<Rightarrow> ProxyConnectRequestFull" where
  [wire_defs]: "get_ProxyConnectRequestFull bs =
     \<lparr>pcr_info = get_ProxyInfo bs\<rparr>"

interpretation ProxyConnectRequestFull_wire: wire_struct put_ProxyConnectRequestFull get_ProxyConnectRequestFull wf_ProxyConnectRequestFull 16
  by unfold_locales (auto simp: wire_defs wire_simps append_eq_conv_conj)

declare ProxyConnectRequestFull_wire.laws [wire_simps]
declare wf_ProxyConnectRequestFull_def [wire_defs del] put_ProxyConnectRequestFull_def [wire_defs del] get_ProxyConnectRequestFull_def [wire_defs del]

record ProxyConnectResponseFull =
  pcp_info :: ProxyInfo

definition wf_ProxyConnectResponseFull :: "ProxyConnectResponseFull \<Rightarrow> bool" where
  [wire_defs]: "wf_ProxyConnectResponseFull x \<longleftrightarrow>
     wf_ProxyInfo (pcp_info x)"

definition put_ProxyConnectResponseFull :: "ProxyConnectResponseFull \<Rightarrow> bytes" where
  [wire_defs]: "put_ProxyConnectResponseFull x =
     put_ProxyInfo (pcp_info x)"

definition get_ProxyConnectResponseFull :: "bytes \<Rightarrow> ProxyConnectResponseFull" where
  [wire_defs]: "get_ProxyConnectResponseFull bs =
     \<lparr>pcp_info = get_ProxyInfo bs\<rparr>"

interpretation ProxyConnectResponseFull_wire: wire_struct put_ProxyConnectResponseFull get_ProxyConnectResponseFull wf_ProxyConnectResponseFull 16
  by unfold_locales (auto simp: wire_defs wire_simps append_eq_conv_conj)

declare ProxyConnectResponseFull_wire.laws [wire_simps]
declare wf_ProxyConnectResponseFull_def [wire_defs del] put_ProxyConnectResponseFull_def [wire_defs del] get_ProxyConnectResponseFull_def [wire_defs del]

record ProxyDisconnectMessageFull =
  pdm_info :: ProxyInfo
  pdm_reason :: u32

definition wf_ProxyDisconnectMessageFull :: "ProxyDisconnectMessageFull \<Rightarrow> bool" where
  [wire_defs]: "wf_ProxyDisconnectMessageFull x \<longleftrightarrow>
     wf_ProxyInfo (pdm_info x)"

definition put_ProxyDisconnectMessageFull :: "ProxyDisconnectMessageFull \<Rightarrow> bytes" where
  [wire_defs]: "put_ProxyDisconnectMessageFull x =
     put_ProxyInfo (pdm_info x) @ put32 (pdm_reason x)"

definition get_ProxyDisconnectMessageFull :: "bytes \<Rightarrow> ProxyDisconnectMessageFull" where
  [wire_defs]: "get_ProxyDisconnectMessageFull bs =
     \<lparr>pdm_info = get_ProxyInfo bs, pdm_reason = get32 (drop 16 bs)\<rparr>"

interpretation ProxyDisconnectMessageFull_wire: wire_struct put_ProxyDisconnectMessageFull get_ProxyDisconnectMessageFull wf_ProxyDisconnectMessageFull 20
  by unfold_locales (auto simp: wire_defs wire_simps append_eq_conv_conj)

declare ProxyDisconnectMessageFull_wire.laws [wire_simps]
declare wf_ProxyDisconnectMessageFull_def [wire_defs del] put_ProxyDisconnectMessageFull_def [wire_defs del] get_ProxyDisconnectMessageFull_def [wire_defs del]

record ExternalProxyConfig =
  epc_proxyIp :: bytes
  epc_addressFamily :: u32
  epc_proxyPort :: u16
  epc_token :: bytes

definition wf_ExternalProxyConfig :: "ExternalProxyConfig \<Rightarrow> bool" where
  [wire_defs]: "wf_ExternalProxyConfig x \<longleftrightarrow>
     length (epc_proxyIp x) = 16 \<and> length (epc_token x) = 16"

definition put_ExternalProxyConfig :: "ExternalProxyConfig \<Rightarrow> bytes" where
  [wire_defs]: "put_ExternalProxyConfig x =
     epc_proxyIp x @ put32 (epc_addressFamily x) @ put16 (epc_proxyPort x) @ epc_token x"

definition get_ExternalProxyConfig :: "bytes \<Rightarrow> ExternalProxyConfig" where
  [wire_defs]: "get_ExternalProxyConfig bs =
     \<lparr>epc_proxyIp = take 16 bs, epc_addressFamily = get32 (drop 16 bs),
      epc_proxyPort = get16 (drop 20 bs), epc_token = take 16 (drop 22 bs)\<rparr>"

interpretation ExternalProxyConfig_wire: wire_struct put_ExternalProxyConfig get_ExternalProxyConfig wf_ExternalProxyConfig 38
  by unfold_locales (auto simp: wire_defs wire_simps append_eq_conv_conj)

declare ExternalProxyConfig_wire.laws [wire_simps]
declare wf_ExternalProxyConfig_def [wire_defs del] put_ExternalProxyConfig_def [wire_defs del] get_ExternalProxyConfig_def [wire_defs del]

record ExternalProxyToken =
  ept_virtualIp :: u32
  ept_token :: bytes
  ept_physicalIp :: bytes
  ept_addressFamily :: u32

definition wf_ExternalProxyToken :: "ExternalProxyToken \<Rightarrow> bool" where
  [wire_defs]: "wf_ExternalProxyToken x \<longleftrightarrow>
     length (ept_token x) = 16 \<and> length (ept_physicalIp x) = 16"

definition put_ExternalProxyToken :: "ExternalProxyToken \<Rightarrow> bytes" where
  [wire_defs]: "put_ExternalProxyToken x =
     put32 (ept_virtualIp x) @ ept_token x @ ept_physicalIp x @
     put32 (ept_addressFamily x)"

definition get_ExternalProxyToken :: "bytes \<Rightarrow> ExternalProxyToken" where
  [wire_defs]: "get_ExternalProxyToken bs =
     \<lparr>ept_virtualIp = get32 bs, ept_token = take 16 (drop 4 bs),
      ept_physicalIp = take 16 (drop 20 bs), ept_addressFamily = get32 (drop 36 bs)\<rparr>"

interpretation ExternalProxyToken_wire: wire_struct put_ExternalProxyToken get_ExternalProxyToken wf_ExternalProxyToken 40
  by unfold_locales (auto simp: wire_defs wire_simps append_eq_conv_conj)

declare ExternalProxyToken_wire.laws [wire_simps]
declare wf_ExternalProxyToken_def [wire_defs del] put_ExternalProxyToken_def [wire_defs del] get_ExternalProxyToken_def [wire_defs del]

record ExternalProxyConnectionState =
  eps_ipAddress :: u32
  eps_connected :: u8
  eps_padding :: bytes

definition wf_ExternalProxyConnectionState :: "ExternalProxyConnectionState \<Rightarrow> bool" where
  [wire_defs]: "wf_ExternalProxyConnectionState x \<longleftrightarrow>
     length (eps_padding x) = 3"

definition put_ExternalProxyConnectionState :: "ExternalProxyConnectionState \<Rightarrow> bytes" where
  [wire_defs]: "put_ExternalProxyConnectionState x =
     put32 (eps_ipAddress x) @ put8 (eps_connected x) @ eps_padding x"

definition get_ExternalProxyConnectionState :: "bytes \<Rightarrow> ExternalProxyConnectionState" where
  [wire_defs]: "get_ExternalProxyConnectionState bs =
     \<lparr>eps_ipAddress = get32 bs, eps_connected = get8 (drop 4 bs),
      eps_padding = take 3 (drop 5 bs)\<rparr>"

interpretation ExternalProxyConnectionState_wire: wire_struct put_ExternalProxyConnectionState get_ExternalProxyConnectionState wf_ExternalProxyConnectionState 8
  by unfold_locales (auto simp: wire_defs wire_simps append_eq_conv_conj)

declare ExternalProxyConnectionState_wire.laws [wire_simps]
declare wf_ExternalProxyConnectionState_def [wire_defs del] put_ExternalProxyConnectionState_def [wire_defs del] get_ExternalProxyConnectionState_def [wire_defs del]

record RyuNetworkConfig =
  rnc_gameVersion :: bytes
  rnc_privateIp :: bytes
  rnc_addressFamily :: u32
  rnc_externalProxyPort :: u16
  rnc_internalProxyPort :: u16

definition wf_RyuNetworkConfig :: "RyuNetworkConfig \<Rightarrow> bool" where
  [wire_defs]: "wf_RyuNetworkConfig x \<longleftrightarrow>
     length (rnc_gameVersion x) = 16 \<and> length (rnc_privateIp x) = 16"

definition put_RyuNetworkConfig :: "RyuNetworkConfig \<Rightarrow> bytes" where
  [wire_defs]: "put_RyuNetworkConfig x =
     rnc_gameVersion x @ rnc_privateIp x @ put32 (rnc_addressFamily x) @
     put16 (rnc_externalProxyPort x) @ put16 (rnc_internalProxyPort x)"

definition get_RyuNetworkConfig :: "bytes \<Rightarrow> RyuNetworkConfig" where
  [wire_defs]: "get_RyuNetworkConfig bs =
     \<lparr>rnc_gameVersion = take 16 bs, rnc_privateIp = take 16 (drop 16 bs),
      rnc_addressFamily = get32 (drop 32 bs), rnc_externalProxyPort = get16 (drop 36 bs),
      rnc_internalProxyPort = get16 (drop 38 bs)\<rparr>"

interpretation RyuNetworkConfig_wire: wire_struct put_RyuNetworkConfig get_RyuNetworkConfig wf_RyuNetworkConfig 40
  by unfold_locales (auto simp: wire_defs wire_simps append_eq_conv_conj)

declare RyuNetworkConfig_wire.laws [wire_simps]
declare wf_RyuNetworkConfig_def [wire_defs del] put_RyuNetworkConfig_def [wire_defs del] get_RyuNetworkConfig_def [wire_defs del]

record CreateAccessPointRequest =
  cap_securityConfig :: SecurityConfig
  cap_userConfig :: UserConfig
  cap_networkConfig :: NetworkConfig
  cap_ryuNetworkConfig :: RyuNetworkConfig

definition wf_CreateAccessPointRequest :: "CreateAccessPointRequest \<Rightarrow> bool" where
  [wire_defs]: "wf_CreateAccessPointRequest x \<longleftrightarrow>
     wf_SecurityConfig (cap_securityConfig x) \<and>
     wf_UserConfig (cap_userConfig x) \<and>
     wf_NetworkConfig (cap_networkConfig x) \<and>
     wf_RyuNetworkConfig (cap_ryuNetworkConfig x)"

definition put_CreateAccessPointRequest :: "CreateAccessPointRequest \<Rightarrow> bytes" where
  [wire_defs]: "put_CreateAccessPointRequest x =
     put_SecurityConfig (cap_securityConfig x) @ put_UserConfig (cap_userConfig x) @
     put_NetworkConfig (cap_networkConfig x) @
     put_RyuNetworkConfig (cap_ryuNetworkConfig x)"

definition get_CreateAccessPointRequest :: "bytes \<Rightarrow> CreateAccessPointRequest" where
  [wire_defs]: "get_CreateAccessPointRequest bs =
     \<lparr>cap_securityConfig = get_SecurityConfig bs,
      cap_userConfig = get_UserConfig (drop 68 bs),
      cap_networkConfig = get_NetworkConfig (drop 116 bs),
      cap_ryuNetworkConfig = get_RyuNetworkConfig (drop 148 bs)\<rparr>"

interpretation CreateAccessPointRequest_wire: wire_struct put_CreateAccessPointRequest get_CreateAccessPointRequest wf_CreateAccessPointRequest 188
  by unfold_locales (auto simp: wire_defs wire_simps append_eq_conv_conj)

declare CreateAccessPointRequest_wire.laws [wire_simps]
declare wf_CreateAccessPointRequest_def [wire_defs del] put_CreateAccessPointRequest_def [wire_defs del] get_CreateAccessPointRequest_def [wire_defs del]

record CreateAccessPointPrivateRequest =
  cpp_securityConfig :: SecurityConfig
  cpp_securityParameter :: SecurityParameter
  cpp_userConfig :: UserConfig
  cpp_networkConfig :: NetworkConfig
  cpp_addressList :: AddressList
  cpp_ryuNetworkConfig :: RyuNetworkConfig

definition wf_CreateAccessPointPrivateRequest :: "CreateAccessPointPrivateRequest \<Rightarrow> bool" where
  [wire_defs]: "wf_CreateAccessPointPrivateRequest x \<longleftrightarrow>
     wf_SecurityConfig (cpp_securityConfig x) \<and>
     wf_SecurityParameter (cpp_securityParameter x) \<and>
     wf_UserConfig (cpp_userConfig x) \<and>
     wf_NetworkConfig (cpp_networkConfig x) \<and>
     wf_AddressList (cpp_addressList x) \<and>
     wf_RyuNetworkConfig (cpp_ryuNetworkConfig x)"

definition put_CreateAccessPointPrivateRequest :: "CreateAccessPointPrivateRequest \<Rightarrow> bytes" where
  [wire_defs]: "put_CreateAccessPointPrivateRequest x =
     put_SecurityConfig (cpp_securityConfig x) @
     put_SecurityParameter (cpp_securityParameter x) @
     put_UserConfig (cpp_userConfig x) @ put_NetworkConfig (cpp_networkConfig x) @
     put_AddressList (cpp_addressList x) @ put_RyuNetworkConfig (cpp_ryuNetworkConfig x)"

definition get_CreateAccessPointPrivateRequest :: "bytes \<Rightarrow> CreateAccessPointPrivateRequest" where
  [wire_defs]: "get_CreateAccessPointPrivateRequest bs =
     \<lparr>cpp_securityConfig = get_SecurityConfig bs,
      cpp_securityParameter = get_SecurityParameter (drop 68 bs),
      cpp_userConfig = get_UserConfig (drop 100 bs),
      cpp_networkConfig = get_NetworkConfig (drop 148 bs),
      cpp_addressList = get_AddressList (drop 180 bs),
      cpp_ryuNetworkConfig = get_RyuNetworkConfig (drop 276 bs)\<rparr>"

interpretation CreateAccessPointPrivateRequest_wire: wire_struct put_CreateAccessPointPrivateRequest get_CreateAccessPointPrivateRequest wf_CreateAccessPointPrivateRequest 316
  by unfold_locales (auto simp: wire_defs wire_simps append_eq_conv_conj)

declare CreateAccessPointPrivateRequest_wire.laws [wire_simps]
declare wf_CreateAccessPointPrivateRequest_def [wire_defs del] put_CreateAccessPointPrivateRequest_def [wire_defs del] get_CreateAccessPointPrivateRequest_def [wire_defs del]

record ConnectRequest =
  crq_securityConfig :: SecurityConfig
  crq_userConfig :: UserConfig
  crq_localCommunicationVersion :: u32
  crq_optionUnknown :: u32
  crq_networkInfo :: NetworkInfo

definition wf_ConnectRequest :: "ConnectRequest \<Rightarrow> bool" where
  [wire_defs]: "wf_ConnectRequest x \<longleftrightarrow>
     wf_SecurityConfig (crq_securityConfig x) \<and>
     wf_UserConfig (crq_userConfig x) \<and> wf_NetworkInfo (crq_networkInfo x)"

definition put_ConnectRequest :: "ConnectRequest \<Rightarrow> bytes" where
  [wire_defs]: "put_ConnectRequest x =
     put_SecurityConfig (crq_securityConfig x) @ put_UserConfig (crq_userConfig x) @
     put32 (crq_localCommunicationVersion x) @ put32 (crq_optionUnknown x) @
     put_NetworkInfo (crq_networkInfo x)"

definition get_ConnectRequest :: "bytes \<Rightarrow> ConnectRequest" where
  [wire_defs]: "get_ConnectRequest bs =
     \<lparr>crq_securityConfig = get_SecurityConfig bs,
      crq_userConfig = get_UserConfig (drop 68 bs),
      crq_localCommunicationVersion = get32 (drop 116 bs),
      crq_optionUnknown = get32 (drop 120 bs),
      crq_networkInfo = get_NetworkInfo (drop 124 bs)\<rparr>"

interpretation ConnectRequest_wire: wire_struct put_ConnectRequest get_ConnectRequest wf_ConnectRequest 1276
  by unfold_locales (auto simp: wire_defs wire_simps append_eq_conv_conj)

declare ConnectRequest_wire.laws [wire_simps]
declare wf_ConnectRequest_def [wire_defs del] put_ConnectRequest_def [wire_defs del] get_ConnectRequest_def [wire_defs del]

record ConnectPrivateRequest =
  cpr_securityConfig :: SecurityConfig
  cpr_securityParameter :: SecurityParameter
  cpr_userConfig :: UserConfig
  cpr_localCommunicationVersion :: u32
  cpr_optionUnknown :: u32
  cpr_networkConfig :: NetworkConfig

definition wf_ConnectPrivateRequest :: "ConnectPrivateRequest \<Rightarrow> bool" where
  [wire_defs]: "wf_ConnectPrivateRequest x \<longleftrightarrow>
     wf_SecurityConfig (cpr_securityConfig x) \<and>
     wf_SecurityParameter (cpr_securityParameter x) \<and>
     wf_UserConfig (cpr_userConfig x) \<and> wf_NetworkConfig (cpr_networkConfig x)"

definition put_ConnectPrivateRequest :: "ConnectPrivateRequest \<Rightarrow> bytes" where
  [wire_defs]: "put_ConnectPrivateRequest x =
     put_SecurityConfig (cpr_securityConfig x) @
     put_SecurityParameter (cpr_securityParameter x) @
     put_UserConfig (cpr_userConfig x) @ put32 (cpr_localCommunicationVersion x) @
     put32 (cpr_optionUnknown x) @ put_NetworkConfig (cpr_networkConfig x)"

definition get_ConnectPrivateRequest :: "bytes \<Rightarrow> ConnectPrivateRequest" where
  [wire_defs]: "get_ConnectPrivateRequest bs =
     \<lparr>cpr_securityConfig = get_SecurityConfig bs,
      cpr_securityParameter = get_SecurityParameter (drop 68 bs),
      cpr_userConfig = get_UserConfig (drop 100 bs),
      cpr_localCommunicationVersion = get32 (drop 148 bs),
      cpr_optionUnknown = get32 (drop 152 bs),
      cpr_networkConfig = get_NetworkConfig (drop 156 bs)\<rparr>"

interpretation ConnectPrivateRequest_wire: wire_struct put_ConnectPrivateRequest get_ConnectPrivateRequest wf_ConnectPrivateRequest 188
  by unfold_locales (auto simp: wire_defs wire_simps append_eq_conv_conj)

declare ConnectPrivateRequest_wire.laws [wire_simps]
declare wf_ConnectPrivateRequest_def [wire_defs del] put_ConnectPrivateRequest_def [wire_defs del] get_ConnectPrivateRequest_def [wire_defs del]
section \<open>Protocol constants and packet identifiers\<close>

text \<open>\<open>('R' << 0) | ('L' << 8) | ('D' << 16) | ('N' << 24)\<close>\<close>

definition RyuLdnMagic :: u32 where
  "RyuLdnMagic = push_bit 0 0x52 OR push_bit 8 0x4C OR push_bit 16 0x44 OR push_bit 24 0x4E"

definition ProtocolVersion :: u8 where "ProtocolVersion = 1"

definition MaxPacketSize :: nat where "MaxPacketSize = 16384"

definition HeaderSize :: nat where "HeaderSize = 10"

text \<open>\<open>enum class DisconnectReason : u32\<close> and \<open>enum class NetworkError : int32_t\<close> hold any value
  of their underlying type, so they stay words with named values.\<close>

type_synonym DisconnectReason = u32

definition DisconnectReason_None :: DisconnectReason where "DisconnectReason_None = 0"
definition DisconnectedByUser :: DisconnectReason where "DisconnectedByUser = 1"
definition DisconnectedBySystem :: DisconnectReason where "DisconnectedBySystem = 2"
definition DestroyedByUser :: DisconnectReason where "DestroyedByUser = 3"
definition DestroyedBySystem :: DisconnectReason where "DestroyedBySystem = 4"
definition Rejected :: DisconnectReason where "Rejected = 5"
definition SignalLost :: DisconnectReason where "SignalLost = 6"

lemmas DisconnectReason_defs = DisconnectReason_None_def DisconnectedByUser_def
  DisconnectedBySystem_def DestroyedByUser_def DestroyedBySystem_def Rejected_def SignalLost_def

type_synonym NetworkError = u32

definition NetworkError_None :: NetworkError where "NetworkError_None = 0"
definition PortUnreachable :: NetworkError where "PortUnreachable = 1"
definition NetworkError_Unknown :: NetworkError where "NetworkError_Unknown = -1"

datatype PacketId =
  PacketId_Initialize | PacketId_Passphrase | PacketId_CreateAccessPoint
  | PacketId_CreateAccessPointPrivate | PacketId_ExternalProxy | PacketId_ExternalProxyToken
  | PacketId_ExternalProxyState | PacketId_SyncNetwork | PacketId_Reject | PacketId_RejectReply
  | PacketId_Scan | PacketId_ScanReply | PacketId_ScanReplyEnd | PacketId_Connect
  | PacketId_ConnectPrivate | PacketId_Connected | PacketId_Disconnect | PacketId_ProxyConfig
  | PacketId_ProxyConnect | PacketId_ProxyConnectReply | PacketId_ProxyData
  | PacketId_ProxyDisconnect | PacketId_SetAcceptPolicy | PacketId_SetAdvertiseData
  | PacketId_Ping | PacketId_NetworkError

primrec PacketId_code :: "PacketId \<Rightarrow> u8" where
  "PacketId_code PacketId_Initialize = 0"
| "PacketId_code PacketId_Passphrase = 1"
| "PacketId_code PacketId_CreateAccessPoint = 2"
| "PacketId_code PacketId_CreateAccessPointPrivate = 3"
| "PacketId_code PacketId_ExternalProxy = 4"
| "PacketId_code PacketId_ExternalProxyToken = 5"
| "PacketId_code PacketId_ExternalProxyState = 6"
| "PacketId_code PacketId_SyncNetwork = 7"
| "PacketId_code PacketId_Reject = 8"
| "PacketId_code PacketId_RejectReply = 9"
| "PacketId_code PacketId_Scan = 10"
| "PacketId_code PacketId_ScanReply = 11"
| "PacketId_code PacketId_ScanReplyEnd = 12"
| "PacketId_code PacketId_Connect = 13"
| "PacketId_code PacketId_ConnectPrivate = 14"
| "PacketId_code PacketId_Connected = 15"
| "PacketId_code PacketId_Disconnect = 16"
| "PacketId_code PacketId_ProxyConfig = 17"
| "PacketId_code PacketId_ProxyConnect = 24"
| "PacketId_code PacketId_ProxyConnectReply = 26"
| "PacketId_code PacketId_ProxyData = 27"
| "PacketId_code PacketId_ProxyDisconnect = 28"
| "PacketId_code PacketId_SetAcceptPolicy = 29"
| "PacketId_code PacketId_SetAdvertiseData = 30"
| "PacketId_code PacketId_Ping = 254"
| "PacketId_code PacketId_NetworkError = 255"

definition all_PacketIds :: "PacketId list" where
  "all_PacketIds =
     [PacketId_Initialize, PacketId_Passphrase, PacketId_CreateAccessPoint,
      PacketId_CreateAccessPointPrivate, PacketId_ExternalProxy, PacketId_ExternalProxyToken,
      PacketId_ExternalProxyState, PacketId_SyncNetwork, PacketId_Reject, PacketId_RejectReply,
      PacketId_Scan, PacketId_ScanReply, PacketId_ScanReplyEnd, PacketId_Connect,
      PacketId_ConnectPrivate, PacketId_Connected, PacketId_Disconnect, PacketId_ProxyConfig,
      PacketId_ProxyConnect, PacketId_ProxyConnectReply, PacketId_ProxyData,
      PacketId_ProxyDisconnect, PacketId_SetAcceptPolicy, PacketId_SetAdvertiseData,
      PacketId_Ping, PacketId_NetworkError]"

text \<open>The case label a \<open>switch\<close> over \<open>static_cast<PacketId>(type)\<close> selects; \<open>None\<close> is
  \<open>default\<close>.\<close>

definition PacketId_of :: "u8 \<Rightarrow> PacketId option" where
  "PacketId_of w = find (\<lambda>p. PacketId_code p = w) all_PacketIds"

lemma PacketId_of_code [simp]: "PacketId_of (PacketId_code p) = Some p"
  by (cases p) (simp_all add: PacketId_of_def all_PacketIds_def)

lemma PacketId_of_Some: "PacketId_of w = Some p \<Longrightarrow> PacketId_code p = w"
  by (auto simp: PacketId_of_def find_Some_iff)

lemma PacketId_code_inject: "PacketId_code p = PacketId_code q \<longleftrightarrow> p = q"
  by (metis PacketId_of_code option.inject)

end
