(* ===== verification/Proxy_Socket.thy ===== *)
theory Proxy_Socket
  imports Port_Pool Packet_Types
begin

text \<open>
  \<open>ryuldn/proxy/ldn_proxy_socket.hpp\<close> and the operations of \<open>ldn_proxy_socket.cpp\<close> that touch the
  socket alone: its queues, options, the receive calls and the BSD wrappers. The operations that go
  through the proxy are in \<open>Ldn_Proxy\<close>.

  An event is a flag that a signal sets and a wait clears. A blocking receive takes an argument
  \<open>wait\<close>, what the other threads do to the socket until the event or the timeout. Return values
  are the C ones, \<open>-1\<close> for an error; \<open>errno\<close> is returned beside them.
\<close>

section \<open>State\<close>

definition IPPROTO_TCP :: u32 where "IPPROTO_TCP = 6"
definition IPPROTO_UDP :: u32 where "IPPROTO_UDP = 17"
definition SOCK_STREAM :: int where "SOCK_STREAM = 1"
definition SOCK_DGRAM :: int where "SOCK_DGRAM = 2"
definition MSG_PEEK :: u32 where "MSG_PEEK = 2"

lemmas ipproto_defs = IPPROTO_TCP_def IPPROTO_UDP_def

datatype WsaError =
  WSAEWOULDBLOCK | WSAECONNREFUSED | WSAEINVAL | WSAEOPNOTSUPP | WSAEISCONN | WSAENOTCONN
  | WSAESHUTDOWN | WSAEMSGSIZE

primrec WsaError_code :: "WsaError \<Rightarrow> int" where
  "WsaError_code WSAEWOULDBLOCK = 10035"
| "WsaError_code WSAECONNREFUSED = 10061"
| "WsaError_code WSAEINVAL = 10022"
| "WsaError_code WSAEOPNOTSUPP = 10045"
| "WsaError_code WSAEISCONN = 10056"
| "WsaError_code WSAENOTCONN = 10057"
| "WsaError_code WSAESHUTDOWN = 10058"
| "WsaError_code WSAEMSGSIZE = 10040"

record ProxyDataPacket =
  pkt_header :: ProxyDataHeaderFull
  pkt_data :: bytes

datatype SocketOptionName =
  Opt_Broadcast | Opt_DontLinger | Opt_Debug | Opt_Error | Opt_KeepAlive | Opt_OutOfBandInline
  | Opt_ReceiveBuffer | Opt_ReceiveTimeout | Opt_SendBuffer | Opt_SendTimeout | Opt_Type
  | Opt_ReuseAddress

record LdnProxySocket =
  ps_isListening :: bool
  ps_listenSockets :: "nat list"
  ps_connectRequests :: "ProxyConnectRequestFull list"
  ps_acceptEvent :: bool
  ps_acceptTimeout :: int
  ps_errors :: "int list"
  ps_connectEvent :: bool
  ps_connectResponse :: ProxyConnectResponseFull
  ps_receiveTimeout :: int
  ps_receiveEvent :: bool
  ps_receiveQueue :: "ProxyDataPacket list"
  ps_connecting :: bool
  ps_broadcast :: bool
  ps_readShutdown :: bool
  ps_writeShutdown :: bool
  ps_closed :: bool
  ps_socketOptions :: "SocketOptionName \<rightharpoonup> int"
  ps_remoteEndPoint :: sockaddr_in
  ps_localEndPoint :: sockaddr_in
  ps_connected :: bool
  ps_isBound :: bool
  ps_addressFamily :: int
  ps_socketType :: int
  ps_protocolType :: u32
  ps_blocking :: bool

definition zero_sockaddr :: sockaddr_in where
  "zero_sockaddr = \<lparr>sin_family = 0, sin_addr = 0, sin_port = 0\<rparr>"

definition zero_response :: ProxyConnectResponseFull where
  "zero_response = get_ProxyConnectResponseFull (replicate 16 0)"

text \<open>The constructor, without its last step, the registration with the proxy.\<close>

definition LdnProxySocket_new :: "int \<Rightarrow> int \<Rightarrow> u32 \<Rightarrow> LdnProxySocket" where
  "LdnProxySocket_new addressFamily socketType protocolType =
     \<lparr>ps_isListening = False, ps_listenSockets = [], ps_connectRequests = [],
      ps_acceptEvent = False, ps_acceptTimeout = -1, ps_errors = [], ps_connectEvent = False,
      ps_connectResponse = zero_response, ps_receiveTimeout = -1, ps_receiveEvent = False,
      ps_receiveQueue = [], ps_connecting = False, ps_broadcast = False, ps_readShutdown = False,
      ps_writeShutdown = False, ps_closed = False,
      ps_socketOptions =
        [Opt_Broadcast \<mapsto> 0, Opt_DontLinger \<mapsto> 0, Opt_Debug \<mapsto> 0, Opt_Error \<mapsto> 0, Opt_KeepAlive \<mapsto> 0,
         Opt_OutOfBandInline \<mapsto> 0, Opt_ReceiveBuffer \<mapsto> 131072, Opt_ReceiveTimeout \<mapsto> -1,
         Opt_SendBuffer \<mapsto> 131072, Opt_SendTimeout \<mapsto> -1, Opt_Type \<mapsto> socketType, Opt_ReuseAddress \<mapsto> 0],
      ps_remoteEndPoint = zero_sockaddr, ps_localEndPoint = zero_sockaddr, ps_connected = False,
      ps_isBound = False, ps_addressFamily = addressFamily, ps_socketType = socketType,
      ps_protocolType = protocolType, ps_blocking = True\<rparr>"

section \<open>Incoming traffic\<close>

definition GetEndpoint :: "u32 \<Rightarrow> u16 \<Rightarrow> sockaddr_in" where
  "GetEndpoint ipv4 port = \<lparr>sin_family = AF_INET, sin_addr = htonl ipv4, sin_port = htons port\<rparr>"

definition SignalError :: "WsaError \<Rightarrow> LdnProxySocket \<Rightarrow> LdnProxySocket" where
  "SignalError error s = s\<lparr>ps_errors := ps_errors s @ [WsaError_code error]\<rparr>"

definition IncomingData :: "bool \<Rightarrow> ProxyDataPacket \<Rightarrow> LdnProxySocket \<Rightarrow> LdnProxySocket" where
  "IncomingData isBroadcast packet s =
     (if \<not> ps_closed s \<and> (ps_broadcast s \<or> \<not> isBroadcast)
      then s\<lparr>ps_receiveQueue := ps_receiveQueue s @ [packet], ps_receiveEvent := True\<rparr> else s)"

definition IncomingConnectionRequest ::
    "ProxyConnectRequestFull \<Rightarrow> LdnProxySocket \<Rightarrow> LdnProxySocket" where
  "IncomingConnectionRequest request s =
     s\<lparr>ps_connectRequests := ps_connectRequests s @ [request], ps_acceptEvent := True\<rparr>"

definition HandleConnectResponse ::
    "ProxyConnectResponseFull \<Rightarrow> LdnProxySocket \<Rightarrow> LdnProxySocket" where
  "HandleConnectResponse response s =
     (if \<not> ps_connecting s then s
      else
        let s = s\<lparr>ps_connecting := False, ps_connectResponse := response\<rparr>;
            s = (if pin_sourceIpV4 (pcp_info response) \<noteq> 0
                 then s\<lparr>ps_remoteEndPoint := GetEndpoint (pin_sourceIpV4 (pcp_info response))
                                               (pin_sourcePort (pcp_info response)),
                        ps_connected := True\<rparr>
                 else SignalError WSAECONNREFUSED s) in
        s\<lparr>ps_connectEvent := True\<rparr>)"

section \<open>Receiving\<close>

text \<open>The return value, the bytes stored in the caller's buffer, and \<open>*outSrcAddr\<close> if it is set.\<close>

type_synonym recv_result = "int \<times> bytes \<times> sockaddr_in option"

definition source_of :: "ProxyDataPacket \<Rightarrow> sockaddr_in" where
  "source_of packet =
     GetEndpoint (pin_sourceIpV4 (pdh_info (pkt_header packet)))
       (pin_sourcePort (pdh_info (pkt_header packet)))"

definition ReceiveFrom_queued ::
    "nat \<Rightarrow> bool \<Rightarrow> ProxyDataPacket \<Rightarrow> ProxyDataPacket list \<Rightarrow> LdnProxySocket
       \<Rightarrow> recv_result \<times> LdnProxySocket" where
  "ReceiveFrom_queued bufferSize peek packet rest s =
     (let popped = (if peek then s else s\<lparr>ps_receiveQueue := rest\<rparr>) in
      if length (pkt_data packet) > bufferSize then
        let stored = take bufferSize (pkt_data packet) in
        if ps_protocolType s = IPPROTO_UDP then
          ((-1, stored, Some (source_of packet)), popped)
        else if ps_protocolType s = IPPROTO_TCP then
          ((int bufferSize, stored, Some (source_of packet)),
           s\<lparr>ps_receiveQueue := packet\<lparr>pkt_data := drop bufferSize (pkt_data packet)\<rparr> # rest\<rparr>)
        else ((int bufferSize, stored, Some (source_of packet)), s)
      else
        ((int (length (pkt_data packet)), pkt_data packet, Some (source_of packet)), popped))"

definition ReceiveFrom_woken :: "nat \<Rightarrow> bool \<Rightarrow> LdnProxySocket \<Rightarrow> recv_result \<times> LdnProxySocket" where
  "ReceiveFrom_woken bufferSize peek s =
     (if \<not> ps_connected s \<and> ps_protocolType s = IPPROTO_TCP then ((-1, [], None), s)
      else
        case ps_receiveQueue s of
          packet # rest \<Rightarrow>
            let stored = take bufferSize (pkt_data packet) in
            ((int (length stored), stored, Some (source_of packet)),
             if peek then s else s\<lparr>ps_receiveQueue := rest\<rparr>)
        | [] \<Rightarrow> if ps_readShutdown s then ((0, [], None), s) else ((-1, [], None), s))"

definition ReceiveFrom ::
    "(LdnProxySocket \<Rightarrow> LdnProxySocket) \<Rightarrow> nat \<Rightarrow> u32 \<Rightarrow> LdnProxySocket \<Rightarrow> recv_result \<times> LdnProxySocket"
  where
  "ReceiveFrom wait bufferSize flags s =
     (let peek = (flags AND MSG_PEEK \<noteq> 0) in
      if \<not> ps_connected s \<and> ps_protocolType s = IPPROTO_TCP then ((-1, [], None), s)
      else
        case ps_receiveQueue s of
          packet # rest \<Rightarrow> ReceiveFrom_queued bufferSize peek packet rest s
        | [] \<Rightarrow>
            if ps_readShutdown s then ((0, [], None), s)
            else if \<not> ps_blocking s then ((-1, [], None), s)
            else ReceiveFrom_woken bufferSize peek ((wait s)\<lparr>ps_receiveEvent := False\<rparr>))"

definition Receive ::
    "(LdnProxySocket \<Rightarrow> LdnProxySocket) \<Rightarrow> nat \<Rightarrow> u32 \<Rightarrow> LdnProxySocket \<Rightarrow> (int \<times> bytes) \<times> LdnProxySocket"
  where
  "Receive wait bufferSize flags s =
     (case ReceiveFrom wait bufferSize flags s of ((ret, stored, _), s) \<Rightarrow> ((ret, stored), s))"

section \<open>State changes and queries\<close>

definition Listen :: "LdnProxySocket \<Rightarrow> LdnProxySocket" where
  "Listen s = (if \<not> ps_isBound s then s else s\<lparr>ps_isListening := True\<rparr>)"

definition SHUT_RD :: int where "SHUT_RD = 0"
definition SHUT_WR :: int where "SHUT_WR = 1"
definition SHUT_RDWR :: int where "SHUT_RDWR = 2"

definition Shutdown :: "int \<Rightarrow> LdnProxySocket \<Rightarrow> LdnProxySocket" where
  "Shutdown how s =
     (let s = (if how = SHUT_RD \<or> how = SHUT_RDWR
               then s\<lparr>ps_readShutdown := True, ps_receiveEvent := True\<rparr> else s) in
      if how = SHUT_WR \<or> how = SHUT_RDWR then s\<lparr>ps_writeShutdown := True\<rparr> else s)"

definition GetSocketOption :: "SocketOptionName \<Rightarrow> LdnProxySocket \<Rightarrow> int" where
  "GetSocketOption optionName s =
     (case ps_socketOptions s optionName of Some v \<Rightarrow> v | None \<Rightarrow> 0)"

definition SetSocketOption :: "SocketOptionName \<Rightarrow> int \<Rightarrow> LdnProxySocket \<Rightarrow> LdnProxySocket" where
  "SetSocketOption optionName optionValue s =
     (let s = s\<lparr>ps_socketOptions := (ps_socketOptions s)(optionName \<mapsto> optionValue)\<rparr> in
      if optionName = Opt_ReceiveTimeout then s\<lparr>ps_receiveTimeout := optionValue\<rparr>
      else if optionName = Opt_Broadcast then s\<lparr>ps_broadcast := (optionValue \<noteq> 0)\<rparr>
      else s)"

definition GetAvailable :: "LdnProxySocket \<Rightarrow> int" where
  "GetAvailable s =
     sint (fold (\<lambda>p result. result + of_nat (length (pkt_data p))) (ps_receiveQueue s) (0 :: u32))"

definition IsReadable :: "LdnProxySocket \<Rightarrow> bool" where
  "IsReadable s =
     (if ps_isListening s then ps_connectRequests s \<noteq> []
      else ps_readShutdown s \<or> ps_receiveQueue s \<noteq> [])"

definition IsWritable :: "LdnProxySocket \<Rightarrow> bool" where
  "IsWritable s \<longleftrightarrow> ps_connected s \<or> ps_protocolType s = IPPROTO_UDP"

definition HasError :: "LdnProxySocket \<Rightarrow> bool" where
  "HasError s \<longleftrightarrow> ps_errors s \<noteq> []"

section \<open>BSD wrappers\<close>

datatype errno = E_OK | EINVAL | EFAULT | ENOPROTOOPT | EAGAIN

text \<open>The BSD option names, by the values of \<open>sys/socket.h\<close>.\<close>

definition bsd_option :: "int \<Rightarrow> SocketOptionName option" where
  "bsd_option optname =
     map_of [(0x20, Opt_Broadcast), (0x1, Opt_Debug), (0x8, Opt_KeepAlive),
             (0x1002, Opt_ReceiveBuffer), (0x1006, Opt_ReceiveTimeout), (0x1001, Opt_SendBuffer),
             (0x1005, Opt_SendTimeout), (0x1008, Opt_Type), (0x4, Opt_ReuseAddress),
             (0x1007, Opt_Error)] optname"

text \<open>\<open>optlen = None\<close> is a null pointer. The result holds the value stored and the new \<open>*optlen\<close>.\<close>

definition BsdGetSocketOption ::
    "int \<Rightarrow> bool \<Rightarrow> nat option \<Rightarrow> LdnProxySocket \<Rightarrow> int \<times> errno \<times> (int \<times> nat) option" where
  "BsdGetSocketOption optname optval_set optlen s =
     (case optlen of
        None \<Rightarrow> (-1, EFAULT, None)
      | Some len \<Rightarrow>
          if \<not> optval_set then (-1, EFAULT, None)
          else case bsd_option optname of
                 None \<Rightarrow> (-1, ENOPROTOOPT, None)
               | Some opt \<Rightarrow>
                   if len \<ge> 4 then (0, E_OK, Some (GetSocketOption opt s, 4))
                   else (-1, EINVAL, None))"

definition BsdSetSocketOption ::
    "int \<Rightarrow> int option \<Rightarrow> nat \<Rightarrow> LdnProxySocket \<Rightarrow> (int \<times> errno) \<times> LdnProxySocket" where
  "BsdSetSocketOption optname optval optlen s =
     (case optval of
        None \<Rightarrow> ((-1, EINVAL), s)
      | Some value \<Rightarrow>
          if optlen < 4 then ((-1, EINVAL), s)
          else case bsd_option optname of
                 None \<Rightarrow> ((-1, ENOPROTOOPT), s)
               | Some opt \<Rightarrow>
                   if opt \<in> {Opt_Type, Opt_Error} then ((-1, ENOPROTOOPT), s)
                   else ((0, E_OK), SetSocketOption opt value s))"

definition BsdListen :: "int \<Rightarrow> LdnProxySocket \<Rightarrow> (int \<times> errno) \<times> LdnProxySocket" where
  "BsdListen backlog s = ((0, E_OK), Listen s)"

definition BsdShutdown :: "int \<Rightarrow> LdnProxySocket \<Rightarrow> (int \<times> errno) \<times> LdnProxySocket" where
  "BsdShutdown how s = ((0, E_OK), Shutdown how s)"

definition BsdFcntl :: "int \<Rightarrow> u32 \<Rightarrow> LdnProxySocket \<Rightarrow> (int \<times> errno) \<times> LdnProxySocket" where
  "BsdFcntl cmd flags s =
     (if cmd = 3 then ((if ps_blocking s then 0 else 4, E_OK), s)
      else if cmd = 4 then ((0, E_OK), s\<lparr>ps_blocking := (flags AND 4 = 0)\<rparr>)
      else ((-1, EINVAL), s))"

section \<open>A TCP socket is a byte stream, a UDP socket a queue of datagrams\<close>

datatype sock_op = Arrive ProxyDataPacket | Recv nat

fun sock_step :: "sock_op \<Rightarrow> LdnProxySocket \<Rightarrow> (int \<times> bytes) list \<times> LdnProxySocket" where
  "sock_step (Arrive p) s = ([], IncomingData False p s)"
| "sock_step (Recv n) s = (let (r, s) = Receive id n 0 s in ([r], s))"

fun sock_run :: "sock_op list \<Rightarrow> LdnProxySocket \<Rightarrow> (int \<times> bytes) list \<times> LdnProxySocket" where
  "sock_run [] s = ([], s)"
| "sock_run (x # xs) s =
     (let (rs, s) = sock_step x s; (rs', s) = sock_run xs s in (rs @ rs', s))"

definition queued :: "LdnProxySocket \<Rightarrow> bytes list" where
  "queued s = map pkt_data (ps_receiveQueue s)"

definition arrived :: "sock_op list \<Rightarrow> bytes list" where
  "arrived xs = concat (map (\<lambda>x. case x of Arrive p \<Rightarrow> [pkt_data p] | Recv n \<Rightarrow> []) xs)"

definition polling :: "u32 \<Rightarrow> LdnProxySocket \<Rightarrow> bool" where
  "polling proto s \<longleftrightarrow>
     ps_protocolType s = proto \<and> \<not> ps_blocking s \<and> \<not> ps_closed s \<and> \<not> ps_readShutdown s
     \<and> (proto = IPPROTO_TCP \<longrightarrow> ps_connected s)"

lemma polling_arrive [simp]: "polling proto (IncomingData b p s) = polling proto s"
  by (simp add: polling_def IncomingData_def)

lemma queued_arrive: "\<not> ps_closed s \<Longrightarrow> queued (IncomingData False p s) = queued s @ [pkt_data p]"
  by (simp add: queued_def IncomingData_def)

lemma tcp_recv:
  assumes "polling IPPROTO_TCP s" and "Receive id n 0 s = ((ret, d), s')"
  shows "polling IPPROTO_TCP s'" and "d @ concat (queued s') = concat (queued s)"
    and "length d \<le> n" and "ret = (if queued s = [] then -1 else int (length d))"
  using assms
  by (auto simp: polling_def Receive_def ReceiveFrom_def ReceiveFrom_queued_def queued_def Let_def
      ipproto_defs split: list.splits if_splits)

lemma tcp_run:
  "polling IPPROTO_TCP s \<Longrightarrow> sock_run xs s = (rs, s') \<Longrightarrow>
   polling IPPROTO_TCP s' \<and> concat (map snd rs) @ concat (queued s') = concat (queued s) @ concat (arrived xs)
   \<and> (\<forall>(ret, d) \<in> set rs. ret = int (length d) \<or> ret = -1 \<and> d = [])"
proof (induction xs arbitrary: s rs)
  case Nil
  then show ?case by (simp add: arrived_def)
next
  case (Cons x xs)
  obtain r s1 where r: "sock_step x s = (r, s1)" by (cases "sock_step x s")
  obtain rs1 where rs: "sock_run xs s1 = (rs1, s')" "rs = r @ rs1"
    using Cons.prems(2) r by (auto split: prod.splits)
  show ?case
  proof (cases x)
    case (Arrive p)
    then have s1: "r = []" "s1 = IncomingData False p s" using r by auto
    then have "polling IPPROTO_TCP s1" using Cons.prems(1) by simp
    from Cons.IH [OF this rs(1)] s1 rs(2) Arrive Cons.prems(1) show ?thesis
      by (simp add: queued_arrive polling_def arrived_def)
  next
    case (Recv n)
    then obtain ret d where d: "Receive id n 0 s = ((ret, d), s1)" "r = [(ret, d)]"
      using r by (auto split: prod.splits)
    note t = tcp_recv [OF Cons.prems(1) d(1)]
    have "queued s = [] \<Longrightarrow> d = []" using t(2) by simp
    with Cons.IH [OF t(1) rs(1)] t(2,4) rs(2) Recv d(2) show ?thesis
      by (auto simp: arrived_def append.assoc)
  qed
qed

text \<open>The specification of the datagram side.\<close>

fun dgram_run :: "sock_op list \<Rightarrow> bytes list \<Rightarrow> (int \<times> bytes) list \<times> bytes list" where
  "dgram_run [] q = ([], q)"
| "dgram_run (Arrive p # xs) q = dgram_run xs (q @ [pkt_data p])"
| "dgram_run (Recv n # xs) [] = (let (rs, q) = dgram_run xs [] in ((-1, []) # rs, q))"
| "dgram_run (Recv n # xs) (d # ds) =
     (let (rs, q) = dgram_run xs ds in
      ((if length d \<le> n then (int (length d), d) else (-1, take n d)) # rs, q))"

lemma udp_recv:
  assumes "polling IPPROTO_UDP s" and "Receive id n 0 s = (r, s')"
  shows "polling IPPROTO_UDP s'"
    and "case queued s of [] \<Rightarrow> r = (-1, []) \<and> queued s' = []
         | d # ds \<Rightarrow> r = (if length d \<le> n then (int (length d), d) else (-1, take n d)) \<and> queued s' = ds"
  using assms
  by (auto simp: polling_def Receive_def ReceiveFrom_def ReceiveFrom_queued_def queued_def Let_def
      ipproto_defs split: list.splits if_splits)

lemma udp_run:
  "polling IPPROTO_UDP s \<Longrightarrow> sock_run xs s = (rs, s') \<Longrightarrow> dgram_run xs (queued s) = (rs, queued s')"
proof (induction xs arbitrary: s rs)
  case (Cons x xs)
  obtain r s1 where r: "sock_step x s = (r, s1)" by (cases "sock_step x s")
  obtain rs1 where rs: "sock_run xs s1 = (rs1, s')" "rs = r @ rs1"
    using Cons.prems(2) r by (auto split: prod.splits)
  show ?case
  proof (cases x)
    case (Arrive p)
    then have s1: "r = []" "s1 = IncomingData False p s" using r by auto
    then have "polling IPPROTO_UDP s1" using Cons.prems(1) by simp
    from Cons.IH [OF this rs(1)] s1 rs(2) Arrive Cons.prems(1) show ?thesis
      by (simp add: queued_arrive polling_def)
  next
    case (Recv n)
    then obtain v where d: "Receive id n 0 s = (v, s1)" "r = [v]"
      using r by (auto split: prod.splits)
    note t = udp_recv [OF Cons.prems(1) d(1)]
    from Cons.IH [OF t(1) rs(1)] t(2) rs(2) Recv d(2) show ?thesis
      by (cases "queued s") auto
  qed
qed simp

section \<open>Properties\<close>

definition zero_info :: ProxyInfo where
  "zero_info = \<lparr>pin_sourceIpV4 = 0, pin_sourcePort = 0, pin_destIpV4 = 0, pin_destPort = 0, pin_protocol = 6\<rparr>"

definition demo_packet :: "bytes \<Rightarrow> ProxyDataPacket" where
  "demo_packet d = \<lparr>pkt_header = \<lparr>pdh_info = zero_info, pdh_dataLength = of_nat (length d)\<rparr>, pkt_data = d\<rparr>"

definition demo_socket :: "u32 \<Rightarrow> LdnProxySocket" where
  "demo_socket proto = (LdnProxySocket_new 2 1 proto)\<lparr>ps_connected := True, ps_blocking := False\<rparr>"

text \<open>
  C21: a connected non-blocking TCP socket is a byte stream. Through any interleaving of arriving
  packets and receive calls with any buffer sizes, what has been received followed by what is still
  queued is what was queued followed by what arrived; every call returns the number of bytes it
  stored, or \<open>-1\<close> and nothing.
\<close>

theorem tcp_socket_is_stream:
  assumes "polling IPPROTO_TCP s" and "sock_run xs s = (rs, s')"
  shows "concat (map snd rs) @ concat (queued s') = concat (queued s) @ concat (arrived xs)
    \<and> (\<forall>(ret, d) \<in> set rs. ret = int (length d) \<or> ret = -1 \<and> d = [])"
  using tcp_run [OF assms] by blast

theorem tcp_socket_is_stream_witness:
  "let xs = [Arrive (demo_packet [1, 2, 3]), Recv 2, Arrive (demo_packet [4]), Recv 5, Recv 5, Recv 5];
       (rs, s') = sock_run xs (demo_socket IPPROTO_TCP) in
   rs = [(2, [1, 2]), (1, [3]), (1, [4]), (-1, [])]
   \<and> concat (map snd rs) @ concat (queued s') = [1, 2, 3, 4]"
proof -
  let ?xs = "[Arrive (demo_packet [1, 2, 3]), Recv 2, Arrive (demo_packet [4]), Recv 5, Recv 5, Recv 5]"
  obtain rs s' where r: "sock_run ?xs (demo_socket IPPROTO_TCP) = (rs, s')"
    by (cases "sock_run ?xs (demo_socket IPPROTO_TCP)")
  have "polling IPPROTO_TCP (demo_socket IPPROTO_TCP)"
    by (simp add: polling_def demo_socket_def LdnProxySocket_new_def)
  from tcp_socket_is_stream [OF this r]
  have "concat (map snd rs) @ concat (queued s') = [1, 2, 3, 4]"
    by (simp add: queued_def demo_socket_def LdnProxySocket_new_def arrived_def demo_packet_def)
  moreover have "fst (sock_run ?xs (demo_socket IPPROTO_TCP)) = [(2, [1, 2]), (1, [3]), (1, [4]), (-1, [])]"
    by (simp add: demo_socket_def LdnProxySocket_new_def IncomingData_def Receive_def ReceiveFrom_def
        ReceiveFrom_queued_def demo_packet_def ipproto_defs Let_def)
  ultimately show ?thesis using r by (simp add: Let_def)
qed

text \<open>
  C22: a non-blocking UDP socket is a queue of datagrams. Each receive call takes exactly one,
  in order of arrival; one that does not fit is lost, the call returning \<open>-1\<close>.
\<close>

theorem udp_socket_is_datagram_queue:
  assumes "polling IPPROTO_UDP s" and "sock_run xs s = (rs, s')"
  shows "dgram_run xs (queued s) = (rs, queued s')"
  using assms by (rule udp_run)

theorem udp_socket_is_datagram_queue_witness:
  "dgram_run [Arrive (demo_packet [1, 2, 3]), Arrive (demo_packet [4]), Recv 2, Recv 2] [] =
     ([(-1, [1, 2]), (1, [4])], [])
   \<and> polling IPPROTO_UDP (demo_socket IPPROTO_UDP)
   \<and> fst (sock_run [Arrive (demo_packet [1, 2, 3]), Arrive (demo_packet [4]), Recv 2, Recv 2]
            (demo_socket IPPROTO_UDP)) = [(-1, [1, 2]), (1, [4])]"
proof -
  let ?xs = "[Arrive (demo_packet [1, 2, 3]), Arrive (demo_packet [4]), Recv 2, Recv 2]"
  obtain rs s' where r: "sock_run ?xs (demo_socket IPPROTO_UDP) = (rs, s')"
    by (cases "sock_run ?xs (demo_socket IPPROTO_UDP)")
  have p: "polling IPPROTO_UDP (demo_socket IPPROTO_UDP)"
    by (simp add: polling_def demo_socket_def LdnProxySocket_new_def ipproto_defs)
  have q: "queued (demo_socket IPPROTO_UDP) = []"
    by (simp add: queued_def demo_socket_def LdnProxySocket_new_def)
  have "dgram_run ?xs [] = ([(-1, [1, 2]), (1, [4])], [])" by (simp add: demo_packet_def)
  with udp_socket_is_datagram_queue [OF p r] p q r show ?thesis by simp
qed

text \<open>
  On a connected TCP socket a peek with a buffer shorter than the first packet consumes what it
  shows: the bytes are gone from the stream afterwards.
\<close>

theorem tcp_peek_consumes:
  assumes "ps_connected s" and "ps_protocolType s = IPPROTO_TCP"
    and "ps_receiveQueue s = p # rest" and "n < length (pkt_data p)"
  shows "\<exists>src s'. ReceiveFrom wait n MSG_PEEK s = ((int n, take n (pkt_data p), src), s')
           \<and> concat (queued s') = drop n (concat (queued s))"
  using assms
  by (simp add: ReceiveFrom_def ReceiveFrom_queued_def queued_def MSG_PEEK_def ipproto_defs)

theorem tcp_peek_consumes_witness:
  "\<exists>src s'. ReceiveFrom id 1 MSG_PEEK ((demo_socket IPPROTO_TCP)\<lparr>ps_receiveQueue := [demo_packet [7, 8]]\<rparr>)
       = ((1, [7], src), s')
     \<and> concat (queued s') = drop 1 (concat (queued ((demo_socket IPPROTO_TCP)\<lparr>ps_receiveQueue := [demo_packet [7, 8]]\<rparr>)))"
  using tcp_peek_consumes [of "(demo_socket IPPROTO_TCP)\<lparr>ps_receiveQueue := [demo_packet [7, 8]]\<rparr>"
      "demo_packet [7, 8]" "[]" 1 id]
  by (simp add: demo_socket_def LdnProxySocket_new_def demo_packet_def)

text \<open>
  A blocking TCP receive that had to wait drops the rest of the packet that woke it. Only the
  bytes that fit the buffer are returned, and the next receive starts with the following packet.
\<close>

theorem tcp_blocking_receive_truncates:
  assumes "ps_connected s" and "ps_protocolType s = IPPROTO_TCP" and "ps_receiveQueue s = []"
    and "ps_blocking s" and "\<not> ps_readShutdown s"
    and "wait s = IncomingData False p s" and "\<not> ps_closed s" and "n < length (pkt_data p)"
  shows "\<exists>src s'. ReceiveFrom wait n 0 s = ((int n, take n (pkt_data p), src), s')
           \<and> ps_receiveQueue s' = []"
  using assms
  by (simp add: ReceiveFrom_def ReceiveFrom_woken_def IncomingData_def Let_def)

theorem tcp_blocking_receive_truncates_witness:
  "\<exists>src s'. ReceiveFrom (IncomingData False (demo_packet [7, 8])) 1 0
        ((demo_socket IPPROTO_TCP)\<lparr>ps_blocking := True\<rparr>) = ((1, [7], src), s')
     \<and> ps_receiveQueue s' = []"
  using tcp_blocking_receive_truncates [of "(demo_socket IPPROTO_TCP)\<lparr>ps_blocking := True\<rparr>"
      "IncomingData False (demo_packet [7, 8])" "demo_packet [7, 8]" 1]
  by (simp add: demo_socket_def LdnProxySocket_new_def demo_packet_def)

end
