(* ===== verification/Slot_Pool.thy ===== *)
theory Slot_Pool
  imports Ldn_Prelude
begin

text \<open>
  The intrusive free list that \<open>BufferPool\<close> and \<open>SessionPool\<close> share: an array of slots, each
  with an in-use flag and a \<open>next\<close> pointer (the index of a slot), and a head pointer. The
  invariant \<open>slots_ok\<close> says that the chain from the head visits exactly the slots that are not in
  use, each once. \<open>lending_pool\<close> is the contract a pool offers its clients.
\<close>

section \<open>Slots and chains\<close>

record 'p slot =
  sl_val :: 'p
  sl_inUse :: bool
  sl_next :: "nat option"

fun is_chain :: "'p slot list \<Rightarrow> nat option \<Rightarrow> nat list \<Rightarrow> bool" where
  "is_chain ss p [] \<longleftrightarrow> p = None"
| "is_chain ss p (i # is) \<longleftrightarrow> p = Some i \<and> i < length ss \<and> is_chain ss (sl_next (ss ! i)) is"

definition free_slots :: "'p slot list \<Rightarrow> nat set" where
  "free_slots ss = {i. i < length ss \<and> \<not> sl_inUse (ss ! i)}"

definition busy_slots :: "'p slot list \<Rightarrow> nat set" where
  "busy_slots ss = {i. i < length ss \<and> sl_inUse (ss ! i)}"

definition slots_ok :: "'p slot list \<Rightarrow> nat option \<Rightarrow> bool" where
  "slots_ok ss fl \<longleftrightarrow> (\<exists>is. is_chain ss fl is \<and> distinct is \<and> set is = free_slots ss)"

lemma finite_slots [simp]: "finite (free_slots ss)" "finite (busy_slots ss)"
  by (simp_all add: free_slots_def busy_slots_def)

lemma card_busy: "card (busy_slots ss) + card (free_slots ss) = length ss"
proof -
  have "busy_slots ss \<union> free_slots ss = {..<length ss}" "busy_slots ss \<inter> free_slots ss = {}"
    by (auto simp: busy_slots_def free_slots_def)
  then show ?thesis by (metis card_Un_disjoint card_lessThan finite_slots)
qed

lemma is_chain_update:
  "i \<notin> set is \<Longrightarrow> is_chain (ss[i := s]) p is = is_chain ss p is"
  by (induction "is" arbitrary: p) auto

lemma free_slots_update:
  "i < length ss \<Longrightarrow> free_slots (ss[i := s]) =
     (if sl_inUse s then free_slots ss - {i} else insert i (free_slots ss))"
  by (auto simp: free_slots_def nth_list_update)

lemma busy_slots_update:
  "i < length ss \<Longrightarrow> busy_slots (ss[i := s]) =
     (if sl_inUse s then insert i (busy_slots ss) else busy_slots ss - {i})"
  by (auto simp: busy_slots_def nth_list_update)

lemma slots_ok_None: "slots_ok ss None \<longleftrightarrow> free_slots ss = {}"
proof
  assume "slots_ok ss None"
  then obtain js where "is_chain ss None js" "set js = free_slots ss"
    by (auto simp: slots_ok_def)
  then show "free_slots ss = {}" by (cases js) auto
next
  assume "free_slots ss = {}"
  then show "slots_ok ss None" by (auto simp: slots_ok_def intro!: exI [of _ "[]"])
qed

lemma slots_ok_SomeD: "slots_ok ss (Some i) \<Longrightarrow> i \<in> free_slots ss"
proof -
  assume "slots_ok ss (Some i)"
  then obtain js where "is_chain ss (Some i) js" "set js = free_slots ss"
    by (auto simp: slots_ok_def)
  then show ?thesis by (cases js) auto
qed

text \<open>Unlinking the head, and linking a slot in front.\<close>

lemma slots_ok_pop:
  assumes "slots_ok ss (Some i)"
  shows "slots_ok (ss[i := (ss ! i)\<lparr>sl_inUse := True, sl_next := None\<rparr>]) (sl_next (ss ! i))"
proof -
  obtain js where js: "is_chain ss (Some i) js" "distinct js" "set js = free_slots ss"
    using assms by (auto simp: slots_ok_def)
  then obtain ks where ks: "js = i # ks" by (cases js) auto
  let ?t = "ss[i := (ss ! i)\<lparr>sl_inUse := True, sl_next := None\<rparr>]"
  have i: "i < length ss" "i \<notin> set ks" using js(1,2) ks by auto
  have "is_chain ?t (sl_next (ss ! i)) ks" using js(1) ks i by (simp add: is_chain_update)
  moreover have "set ks = free_slots ?t"
    using js(3) [symmetric] ks i by (simp add: free_slots_update)
  moreover have "distinct ks" using js(2) ks by simp
  ultimately show ?thesis unfolding slots_ok_def by blast
qed

lemma slots_ok_push:
  assumes "slots_ok ss fl" and "i \<in> busy_slots ss"
  shows "slots_ok (ss[i := (ss ! i)\<lparr>sl_inUse := False, sl_next := fl\<rparr>]) (Some i)"
proof -
  obtain js where js: "is_chain ss fl js" "distinct js" "set js = free_slots ss"
    using assms by (auto simp: slots_ok_def)
  have i: "i < length ss" "i \<notin> set js"
    using assms js by (auto simp: busy_slots_def free_slots_def)
  let ?t = "ss[i := (ss ! i)\<lparr>sl_inUse := False, sl_next := fl\<rparr>]"
  have "is_chain ?t (Some i) (i # js)" using js(1) i by (simp add: is_chain_update)
  moreover have "set (i # js) = free_slots ?t"
    using js(3) [symmetric] i by (simp add: free_slots_update)
  moreover have "distinct (i # js)" using js(2) i by simp
  ultimately show ?thesis unfolding slots_ok_def by blast
qed

text \<open>The freshly constructed array: slot \<open>i\<close> points to slot \<open>i + 1\<close>, the last to nothing.\<close>

definition fresh_slots :: "nat \<Rightarrow> (nat \<Rightarrow> 'p) \<Rightarrow> 'p slot list" where
  "fresh_slots n f =
     map (\<lambda>i. \<lparr>sl_val = f i, sl_inUse = False, sl_next = (if i < n - 1 then Some (i + 1) else None)\<rparr>)
       [0..<n]"

lemma fresh_chain:
  "j \<le> n \<Longrightarrow> 0 < n \<Longrightarrow>
   is_chain (fresh_slots n f) (if j < n then Some j else None) [j..<n]"
proof (induction "n - j" arbitrary: j)
  case (Suc k)
  then have j: "j < n" "k = n - Suc j" by auto
  have "is_chain (fresh_slots n f) (if Suc j < n then Some (Suc j) else None) [Suc j..<n]"
    using j Suc.hyps(1) Suc.prems by simp
  moreover have "sl_next (fresh_slots n f ! j) = (if Suc j < n then Some (Suc j) else None)"
    using j by (auto simp: fresh_slots_def)
  ultimately show ?case using j by (simp add: upt_rec [of j] fresh_slots_def)
qed simp

lemma slots_ok_fresh: "0 < n \<Longrightarrow> slots_ok (fresh_slots n f) (Some 0)"
  unfolding slots_ok_def
  using fresh_chain [of 0 n f]
  by (intro exI [of _ "[0..<n]"]) (auto simp: free_slots_def fresh_slots_def)

section \<open>The contract of a lending pool\<close>

text \<open>
  \<open>owned s\<close> is the set of resources handed out. A borrow hands out a resource nobody owns, and
  fails only when all \<open>cap\<close> resources are out; giving back releases exactly that resource.
\<close>

locale lending_pool =
  fixes inv :: "'s \<Rightarrow> bool"
    and owned :: "'s \<Rightarrow> 'k set"
    and borrow :: "'s \<Rightarrow> 'k option \<times> 's"
    and give :: "'k \<Rightarrow> 's \<Rightarrow> 's"
    and cap :: nat
  assumes borrow_inv: "inv s \<Longrightarrow> inv (snd (borrow s))"
    and give_inv: "inv s \<Longrightarrow> inv (give k s)"
    and borrow_fresh: "inv s \<Longrightarrow> borrow s = (Some k, s') \<Longrightarrow> k \<notin> owned s"
    and borrow_owned: "inv s \<Longrightarrow> borrow s = (Some k, s') \<Longrightarrow> owned s' = insert k (owned s)"
    and borrow_None: "inv s \<Longrightarrow> borrow s = (None, s') \<Longrightarrow> owned s' = owned s \<and> card (owned s) = cap"
    and give_owned: "inv s \<Longrightarrow> owned (give k s) = owned s - {k}"
    and owned_finite: "inv s \<Longrightarrow> finite (owned s)"
    and owned_cap: "inv s \<Longrightarrow> card (owned s) \<le> cap"
begin

lemma borrow_succeeds:
  assumes "inv s" and "card (owned s) < cap"
  shows "\<exists>k s'. borrow s = (Some k, s') \<and> k \<notin> owned s"
  using assms by (cases "borrow s"; cases "fst (borrow s)") (auto dest: borrow_None borrow_fresh)

lemma borrow_give_owned:
  "inv s \<Longrightarrow> borrow s = (Some k, s') \<Longrightarrow> owned (give k s') = owned s"
  using borrow_inv [of s] by (auto simp: give_owned borrow_owned dest: borrow_fresh)

text \<open>A client that borrows \<open>n\<close> times in a row.\<close>

fun borrows :: "nat \<Rightarrow> 's \<Rightarrow> 'k list \<times> 's" where
  "borrows 0 s = ([], s)"
| "borrows (Suc n) s =
     (case borrow s of (None, s') \<Rightarrow> ([], s')
      | (Some k, s') \<Rightarrow> (let (ks, t) = borrows n s' in (k # ks, t)))"

lemma borrows_distinct:
  "inv s \<Longrightarrow> borrows n s = (ks, t) \<Longrightarrow>
   inv t \<and> distinct ks \<and> set ks \<inter> owned s = {} \<and> owned t = owned s \<union> set ks"
proof (induction n arbitrary: s ks t)
  case (Suc n)
  note i = borrow_inv [OF Suc.prems(1)]
  show ?case
  proof (cases "borrow s")
    case (Pair a s')
    show ?thesis
    proof (cases a)
      case None
      with Suc.prems Pair i show ?thesis by (auto dest: borrow_None)
    next
      case (Some k)
      obtain ls u where u: "borrows n s' = (ls, u)" by (cases "borrows n s'")
      from Pair i have "inv s'" by simp
      from Suc.IH [OF this u] have ih: "inv u" "distinct ls" "set ls \<inter> owned s' = {}"
        "owned u = owned s' \<union> set ls" by auto
      have b: "owned s' = insert k (owned s)" "k \<notin> owned s"
        using Suc.prems(1) Pair Some by (auto simp: borrow_owned dest: borrow_fresh)
      have "ks = k # ls" "t = u" using Suc.prems(2) Pair Some u by auto
      with ih b show ?thesis by auto
    qed
  qed
qed simp

lemma borrows_length:
  "inv s \<Longrightarrow> card (owned s) + n \<le> cap \<Longrightarrow> length (fst (borrows n s)) = n"
proof (induction n arbitrary: s)
  case (Suc n)
  then obtain k s' where k: "borrow s = (Some k, s')" "k \<notin> owned s"
    using borrow_succeeds [of s] by auto
  have "card (owned s') = Suc (card (owned s))"
    using k Suc.prems by (simp add: borrow_owned owned_finite)
  moreover have "inv s'" using borrow_inv [of s] k Suc.prems by simp
  ultimately have "length (fst (borrows n s')) = n" using Suc by simp
  then show ?case using k by (simp add: case_prod_beta)
qed simp

end

end
