(* ===== verification/Buffer_Pool.thy ===== *)
theory Buffer_Pool
  imports Slot_Pool Packet_Types
begin

text \<open>
  \<open>ryuldn/buffer_pool.hpp\<close> and \<open>buffer_pool.cpp\<close>: the pool of packet buffers shared by every
  protocol handler and sender. A buffer pointer is the number of its row in \<open>_bufferStorage\<close>;
  a slot's \<open>buffer\<close> member is that number, and its \<open>next\<close> member the index of another slot.

  \<open>BorrowBuffer_try\<close> is the critical section of \<open>BorrowBuffer\<close>; \<open>BorrowBuffer\<close> is the
  retry loop, run against a schedule that gives, for each round, the time elapsed at the timeout test
  and what the other threads do to the pool while this one sleeps. \<open>with_ScopedBuffer\<close> is the
  life of a \<open>ScopedBuffer\<close> around a body that writes the buffer.
\<close>

section \<open>State and operations\<close>

definition MaxBuffers :: nat where "MaxBuffers = 3"

definition BufferSize :: nat where "BufferSize = MaxPacketSize"

type_synonym BufferSlot = "nat slot"

record BufferPool =
  bp_slots :: "BufferSlot list"
  bp_freeList :: "nat option"
  bp_storage :: "bytes list"

text \<open>The constructor; \<open>_bufferStorage\<close> is not initialised, its contents are a parameter.\<close>

definition BufferPool_new :: "bytes list \<Rightarrow> BufferPool" where
  "BufferPool_new storage =
     \<lparr>bp_slots = fresh_slots MaxBuffers (\<lambda>i. i), bp_freeList = Some 0, bp_storage = storage\<rparr>"

definition BorrowBuffer_try :: "BufferPool \<Rightarrow> nat option \<times> BufferPool" where
  "BorrowBuffer_try p =
     (case bp_freeList p of
        None \<Rightarrow> (None, p)
      | Some i \<Rightarrow>
          let slot = bp_slots p ! i in
          (Some (sl_val slot),
           p\<lparr>bp_freeList := sl_next slot,
             bp_slots := (bp_slots p)[i := slot\<lparr>sl_inUse := True, sl_next := None\<rparr>]\<rparr>))"

fun BorrowBuffer ::
    "(nat \<times> (BufferPool \<Rightarrow> BufferPool)) list \<Rightarrow> nat \<Rightarrow> BufferPool \<Rightarrow> (nat option \<times> BufferPool) option"
  where
  "BorrowBuffer [] timeout p = None"
| "BorrowBuffer ((elapsed, others) # rounds) timeout p =
     (case BorrowBuffer_try p of
        (Some b, p') \<Rightarrow> Some (Some b, p')
      | (None, p') \<Rightarrow>
          if timeout \<le> elapsed then Some (None, p') else BorrowBuffer rounds timeout (others p'))"

definition ReturnBuffer :: "nat option \<Rightarrow> BufferPool \<Rightarrow> BufferPool" where
  "ReturnBuffer buffer p =
     (case buffer of
        None \<Rightarrow> p
      | Some b \<Rightarrow>
          (case find (\<lambda>i. sl_val (bp_slots p ! i) = b) [0..<length (bp_slots p)] of
             None \<Rightarrow> p
           | Some i \<Rightarrow>
               let slot = bp_slots p ! i in
               if \<not> sl_inUse slot then p
               else p\<lparr>bp_slots := (bp_slots p)
                        [i := slot\<lparr>sl_inUse := False, sl_next := bp_freeList p\<rparr>],
                      bp_freeList := Some i\<rparr>))"

definition write_buffer :: "nat \<Rightarrow> bytes \<Rightarrow> BufferPool \<Rightarrow> BufferPool" where
  "write_buffer b buf p = p\<lparr>bp_storage := (bp_storage p)[b := buf]\<rparr>"

definition with_ScopedBuffer ::
    "BufferPool \<Rightarrow> (bytes \<Rightarrow> (bytes \<times> 'a) run) \<Rightarrow> ('a option \<times> BufferPool) run" where
  "with_ScopedBuffer p body =
     (case BorrowBuffer_try p of
        (None, p') \<Rightarrow> Inr (None, p')
      | (Some b, p') \<Rightarrow>
          bind_run (body (bp_storage p' ! b))
            (\<lambda>(buf, r). Inr (Some r, ReturnBuffer (Some b) (write_buffer b buf p'))))"

text \<open>\<open>g_sharedBufferPool\<close>: \<open>None\<close> is the null pointer; \<open>mem\<close> is what \<open>mitm::Allocate\<close> gives.\<close>

definition InitializeBufferPool ::
    "bytes list option \<Rightarrow> BufferPool option \<Rightarrow> Result \<times> BufferPool option" where
  "InitializeBufferPool mem g =
     (case g of
        Some _ \<Rightarrow> (Module_Libnx AlreadyInitialized, g)
      | None \<Rightarrow>
          (case mem of
             None \<Rightarrow> (Module_Libnx OutOfMemory, g)
           | Some storage \<Rightarrow> (ResultSuccess, Some (BufferPool_new storage))))"

definition FinalizeBufferPool :: "BufferPool option \<Rightarrow> BufferPool option" where
  "FinalizeBufferPool g = (case g of Some _ \<Rightarrow> None | None \<Rightarrow> None)"

section \<open>The invariant\<close>

definition storage_ok :: "bytes list \<Rightarrow> bool" where
  "storage_ok st \<longleftrightarrow> length st = MaxBuffers \<and> (\<forall>b \<in> set st. length b = BufferSize)"

definition pool_inv :: "BufferPool \<Rightarrow> bool" where
  "pool_inv p \<longleftrightarrow>
     length (bp_slots p) = MaxBuffers \<and> map sl_val (bp_slots p) = [0..<MaxBuffers]
     \<and> slots_ok (bp_slots p) (bp_freeList p) \<and> storage_ok (bp_storage p)"

definition borrowed :: "BufferPool \<Rightarrow> nat set" where
  "borrowed p = busy_slots (bp_slots p)"

lemma pool_inv_val: "pool_inv p \<Longrightarrow> i < length (bp_slots p) \<Longrightarrow> sl_val (bp_slots p ! i) = i"
  unfolding pool_inv_def by (metis diff_zero length_upt nth_map nth_upt plus_nat.add_0)

lemma pool_inv_new: "storage_ok st \<Longrightarrow> pool_inv (BufferPool_new st)"
  by (simp add: pool_inv_def BufferPool_new_def slots_ok_fresh MaxBuffers_def)
     (simp add: fresh_slots_def comp_def MaxBuffers_def upt_rec)

lemma borrowed_new: "borrowed (BufferPool_new st) = {}"
  by (auto simp: borrowed_def BufferPool_new_def busy_slots_def fresh_slots_def)

lemma find_slot:
  "pool_inv p \<Longrightarrow>
   find (\<lambda>i. sl_val (bp_slots p ! i) = b) [0..<length (bp_slots p)] =
     (if b < length (bp_slots p) then Some b else None)"
proof (cases "b < length (bp_slots p)")
  case True
  assume p: "pool_inv p"
  have "sl_val (bp_slots p ! ([0..<length (bp_slots p)] ! j)) = j" if "j \<le> b" for j
    using True p that by (simp add: pool_inv_val)
  with True show ?thesis unfolding find_Some_iff if_P [OF True]
    by (intro exI [of _ b]) auto
qed (auto simp: find_None_iff pool_inv_val)

lemma ReturnBuffer_eq:
  "pool_inv p \<Longrightarrow>
   ReturnBuffer (Some b) p =
     (if b \<in> borrowed p
      then p\<lparr>bp_slots := (bp_slots p)
               [b := (bp_slots p ! b)\<lparr>sl_inUse := False, sl_next := bp_freeList p\<rparr>],
             bp_freeList := Some b\<rparr>
      else p)"
  by (auto simp: ReturnBuffer_def find_slot borrowed_def busy_slots_def Let_def)

lemma BorrowBuffer_try_eq:
  "pool_inv p \<Longrightarrow>
   BorrowBuffer_try p =
     (case bp_freeList p of
        None \<Rightarrow> (None, p)
      | Some i \<Rightarrow>
          (Some i,
           p\<lparr>bp_freeList := sl_next (bp_slots p ! i),
             bp_slots := (bp_slots p)
               [i := (bp_slots p ! i)\<lparr>sl_inUse := True, sl_next := None\<rparr>]\<rparr>))"
  using slots_ok_SomeD [of "bp_slots p"]
  by (auto simp: BorrowBuffer_try_def Let_def pool_inv_val free_slots_def pool_inv_def
      split: option.splits)

lemma map_update_val: "sl_val s = sl_val (ss ! i) \<Longrightarrow> map sl_val (ss[i := s]) = map sl_val ss"
  by (metis list_update_id map_update)

lemma pool_inv_borrow: "pool_inv p \<Longrightarrow> pool_inv (snd (BorrowBuffer_try p))"
  by (cases "bp_freeList p")
     (auto simp: BorrowBuffer_try_eq pool_inv_def map_update_val intro: slots_ok_pop)

lemma pool_inv_return: "pool_inv p \<Longrightarrow> pool_inv (ReturnBuffer b p)"
proof (cases b)
  case (Some c)
  moreover assume "pool_inv p"
  ultimately show ?thesis
    by (auto simp: ReturnBuffer_eq borrowed_def pool_inv_def map_update_val intro: slots_ok_push)
qed (simp add: ReturnBuffer_def)

lemma pool_inv_write:
  "pool_inv p \<Longrightarrow> length buf = BufferSize \<Longrightarrow> pool_inv (write_buffer b buf p)"
  by (auto simp: pool_inv_def write_buffer_def storage_ok_def
      dest!: set_update_subset_insert [THEN subsetD])

lemma borrowed_write [simp]: "borrowed (write_buffer b buf p) = borrowed p"
  by (simp add: borrowed_def write_buffer_def)

lemma borrow_Some:
  assumes "pool_inv p" and "BorrowBuffer_try p = (Some b, p')"
  shows "bp_freeList p = Some b" and "b < MaxBuffers" and "b \<notin> borrowed p"
    and "borrowed p' = insert b (borrowed p)" and "bp_storage p' = bp_storage p"
proof -
  obtain i where i: "bp_freeList p = Some i" "i \<in> free_slots (bp_slots p)"
    using assms by (auto simp: BorrowBuffer_try_def pool_inv_def split: option.splits
        dest: slots_ok_SomeD)
  have l: "i < length (bp_slots p)" using i by (simp add: free_slots_def)
  from assms i have b: "b = i" and p': "p' = p\<lparr>bp_freeList := sl_next (bp_slots p ! i),
      bp_slots := (bp_slots p)[i := (bp_slots p ! i)\<lparr>sl_inUse := True, sl_next := None\<rparr>]\<rparr>"
    by (auto simp: BorrowBuffer_try_eq)
  show "bp_freeList p = Some b" using b i by simp
  show "b < MaxBuffers" using b l assms(1) by (simp add: pool_inv_def)
  show "b \<notin> borrowed p" using b i by (simp add: borrowed_def busy_slots_def free_slots_def)
  show "borrowed p' = insert b (borrowed p)" using b p' l
    by (simp add: borrowed_def busy_slots_update)
  show "bp_storage p' = bp_storage p" using p' by simp
qed

lemma borrow_NoneD:
  assumes "pool_inv p" and "BorrowBuffer_try p = (None, p')"
  shows "p' = p" and "card (borrowed p) = MaxBuffers"
proof -
  have "bp_freeList p = None" "p' = p"
    using assms by (auto simp: BorrowBuffer_try_def Let_def split: option.splits)
  moreover from this have "free_slots (bp_slots p) = {}"
    using assms(1) slots_ok_None [of "bp_slots p"] by (simp add: pool_inv_def)
  ultimately show "p' = p" "card (borrowed p) = MaxBuffers"
    using card_busy [of "bp_slots p"] assms(1) by (simp_all add: borrowed_def pool_inv_def)
qed

lemma borrowed_return: "pool_inv p \<Longrightarrow> borrowed (ReturnBuffer (Some b) p) = borrowed p - {b}"
  by (auto simp: ReturnBuffer_eq borrowed_def busy_slots_def nth_list_update split: if_splits)

lemma card_borrowed: "pool_inv p \<Longrightarrow> card (borrowed p) \<le> MaxBuffers"
  using card_busy [of "bp_slots p"] by (simp add: borrowed_def pool_inv_def)

interpretation bpool: lending_pool pool_inv borrowed BorrowBuffer_try
  "\<lambda>b. ReturnBuffer (Some b)" MaxBuffers
proof unfold_locales
  fix s k s' assume "pool_inv s" "BorrowBuffer_try s = (None, s')"
  then show "borrowed s' = borrowed s \<and> card (borrowed s) = MaxBuffers"
    using borrow_NoneD by blast
next
  fix s assume "pool_inv s" then show "finite (borrowed s)" by (simp add: borrowed_def)
qed (simp_all add: pool_inv_borrow pool_inv_return borrowed_return card_borrowed
      borrow_Some(3,4))

section \<open>ScopedBuffer\<close>

lemma borrow_return_id:
  assumes "pool_inv p" and "BorrowBuffer_try p = (Some b, p')" and "length buf = BufferSize"
  shows "ReturnBuffer (Some b) (write_buffer b buf p') = write_buffer b buf p"
proof -
  have inv: "pool_inv (write_buffer b buf p')"
    using assms pool_inv_borrow [of p] by (simp add: pool_inv_write)
  have b: "bp_freeList p = Some b" "b \<notin> borrowed p" "borrowed p' = insert b (borrowed p)"
    using borrow_Some [OF assms(1,2)] by auto
  have l: "b < length (bp_slots p)" "\<not> sl_inUse (bp_slots p ! b)"
    using b(1) assms(1) slots_ok_SomeD [of "bp_slots p" b]
    by (auto simp: pool_inv_def free_slots_def)
  have p': "p' = p\<lparr>bp_freeList := sl_next (bp_slots p ! b),
      bp_slots := (bp_slots p)[b := (bp_slots p ! b)\<lparr>sl_inUse := True, sl_next := None\<rparr>]\<rparr>"
    using assms(2) b(1) assms(1) by (simp add: BorrowBuffer_try_eq)
  have "(bp_slots p)[b := (bp_slots p ! b)\<lparr>sl_inUse := False, sl_next := sl_next (bp_slots p ! b)\<rparr>]
      = bp_slots p"
  proof -
    have "(bp_slots p ! b)\<lparr>sl_inUse := False, sl_next := sl_next (bp_slots p ! b)\<rparr> = bp_slots p ! b"
      using l(2) by (cases "bp_slots p ! b") simp
    then show ?thesis by (metis list_update_id)
  qed
  then show ?thesis
    using inv b l by (simp add: ReturnBuffer_eq) (simp add: p' write_buffer_def b(1))
qed

text \<open>
  A scoped borrow leaves the free list as it was: only the contents of one free buffer change.
\<close>

lemma with_ScopedBuffer_ok:
  assumes "pool_inv p" and "borrowed p \<noteq> {..<MaxBuffers}"
    and "\<And>buf. length buf = BufferSize \<Longrightarrow> \<exists>buf'. body buf = Inr (buf', r) \<and> length buf' = BufferSize"
  shows "\<exists>b buf. with_ScopedBuffer p body = Inr (Some r, write_buffer b buf p)
           \<and> length buf = BufferSize \<and> b \<notin> borrowed p \<and> b < MaxBuffers"
proof -
  have "card (borrowed p) \<noteq> MaxBuffers"
  proof
    assume "card (borrowed p) = MaxBuffers"
    moreover have "borrowed p \<subseteq> {..<MaxBuffers}"
      using assms(1) by (auto simp: borrowed_def busy_slots_def pool_inv_def)
    ultimately show False using assms(2) by (simp add: card_subset_eq)
  qed
  with card_borrowed [OF assms(1)] have "card (borrowed p) < MaxBuffers" by simp
  then obtain b p' where b: "BorrowBuffer_try p = (Some b, p')"
    using bpool.borrow_succeeds [OF assms(1)] by blast
  have st: "b < MaxBuffers" "b \<notin> borrowed p" "bp_storage p' = bp_storage p"
    using borrow_Some [OF assms(1) b] by auto
  then have "length (bp_storage p' ! b) = BufferSize"
    using assms(1) by (auto simp: pool_inv_def storage_ok_def)
  then obtain buf where buf: "body (bp_storage p' ! b) = Inr (buf, r)" "length buf = BufferSize"
    using assms(3) by blast
  then have "with_ScopedBuffer p body = Inr (Some r, write_buffer b buf p)"
    using b borrow_return_id [OF assms(1) b] by (simp add: with_ScopedBuffer_def)
  with buf st show ?thesis by blast
qed

lemma with_ScopedBuffer_full:
  "pool_inv p \<Longrightarrow> borrowed p = {..<MaxBuffers} \<Longrightarrow> with_ScopedBuffer p body = Inr (None, p)"
proof -
  assume p: "pool_inv p" "borrowed p = {..<MaxBuffers}"
  have "\<And>b p'. BorrowBuffer_try p \<noteq> (Some b, p')"
    using borrow_Some(2,3) [OF p(1)] p(2) by blast
  then obtain p' where n: "BorrowBuffer_try p = (None, p')"
    by (cases "BorrowBuffer_try p"; cases "fst (BorrowBuffer_try p)") auto
  then show ?thesis using borrow_NoneD(1) [OF p(1) n] by (simp add: with_ScopedBuffer_def)
qed

section \<open>The waiting loop\<close>

lemma BorrowBuffer_returns:
  "\<exists>r \<in> set rounds. timeout \<le> fst r \<Longrightarrow> BorrowBuffer rounds timeout p \<noteq> None"
proof (induction rounds arbitrary: p)
  case (Cons a rounds)
  then show ?case
    by (cases a; cases "timeout \<le> fst a") (simp_all split: prod.splits option.splits)
qed simp

lemma BorrowBuffer_fresh:
  "pool_inv p \<Longrightarrow> \<forall>r \<in> set rounds. \<forall>q. pool_inv q \<longrightarrow> pool_inv (snd r q) \<Longrightarrow>
   BorrowBuffer rounds timeout p = Some (r, p') \<Longrightarrow>
   pool_inv p' \<and> (\<forall>b. r = Some b \<longrightarrow> b < MaxBuffers \<and> b \<in> borrowed p')"
proof (induction rounds arbitrary: p)
  case (Cons a rounds)
  obtain e f where a: "a = (e, f)" by (cases a)
  obtain q q' where q: "BorrowBuffer_try p = (q, q')" by (cases "BorrowBuffer_try p")
  note qi = pool_inv_borrow [OF Cons.prems(1)]
  show ?case
  proof (cases q)
    case None
    with q Cons.prems(1) have q': "q' = p" using borrow_NoneD(1) by blast
    show ?thesis
    proof (cases "timeout \<le> e")
      case True
      with Cons.prems a q None q' show ?thesis by auto
    next
      case False
      then have "BorrowBuffer rounds timeout (f q') = Some (r, p')"
        using Cons.prems a q None by simp
      moreover have "pool_inv (f q')" using Cons.prems(1,2) a q' by auto
      ultimately show ?thesis using Cons.IH [of "f q'"] Cons.prems(2) by auto
    qed
  next
    case (Some b)
    have "borrowed q' = insert b (borrowed p)" "b < MaxBuffers"
      using borrow_Some [OF Cons.prems(1)] q Some by auto
    with Cons.prems a q Some qi show ?thesis by auto
  qed
qed simp

text \<open>With no other thread around, waiting changes nothing: the loop is its first attempt.\<close>

lemma BorrowBuffer_alone:
  "pool_inv p \<Longrightarrow> \<forall>r \<in> set rounds. \<forall>q. snd r q = q \<Longrightarrow> \<exists>r \<in> set rounds. timeout \<le> fst r \<Longrightarrow>
   BorrowBuffer rounds timeout p = Some (BorrowBuffer_try p)"
proof (induction rounds)
  case (Cons a rounds)
  obtain e f where a: "a = (e, f)" by (cases a)
  obtain q q' where q: "BorrowBuffer_try p = (q, q')" by (cases "BorrowBuffer_try p")
  show ?case
  proof (cases q)
    case None
    then have "q' = p" using q Cons.prems(1) borrow_NoneD(1) by blast
    then show ?thesis using Cons a q None by (cases "timeout \<le> e") auto
  qed (use a q in simp)
qed simp

section \<open>Any sequence of borrows and returns\<close>

text \<open>
  The abstract pool is the set of buffers on loan. \<open>lend_step\<close> says what an observed operation may
  do to it: a buffer is handed out only when it is not on loan, and refused only when all are.
\<close>

datatype pool_op = Borrow | Give "nat option" | Fill nat bytes

fun pool_step :: "pool_op \<Rightarrow> BufferPool \<Rightarrow> nat option \<times> BufferPool" where
  "pool_step Borrow p = BorrowBuffer_try p"
| "pool_step (Give b) p = (None, ReturnBuffer b p)"
| "pool_step (Fill b buf) p = (None, write_buffer b buf p)"

fun pool_run :: "pool_op list \<Rightarrow> BufferPool \<Rightarrow> nat option list \<times> BufferPool" where
  "pool_run [] p = ([], p)"
| "pool_run (x # xs) p =
     (let (r, q) = pool_step x p; (rs, t) = pool_run xs q in (r # rs, t))"

fun lend_step :: "pool_op \<Rightarrow> nat option \<Rightarrow> nat set \<Rightarrow> nat set option" where
  "lend_step Borrow (Some b) L = (if b < MaxBuffers \<and> b \<notin> L then Some (insert b L) else None)"
| "lend_step Borrow None L = (if card L = MaxBuffers then Some L else None)"
| "lend_step (Give (Some b)) r L = Some (L - {b})"
| "lend_step (Give None) r L = Some L"
| "lend_step (Fill b buf) r L = Some L"

fun lend_run :: "pool_op list \<Rightarrow> nat option list \<Rightarrow> nat set \<Rightarrow> nat set option" where
  "lend_run (x # xs) (r # rs) L =
     (case lend_step x r L of None \<Rightarrow> None | Some L' \<Rightarrow> lend_run xs rs L')"
| "lend_run _ _ L = Some L"

definition op_ok :: "pool_op \<Rightarrow> bool" where
  "op_ok x = (case x of Fill b buf \<Rightarrow> length buf = BufferSize | _ \<Rightarrow> True)"

lemma pool_step_refines:
  assumes "pool_inv p" and "op_ok x" and "pool_step x p = (r, q)"
  shows "pool_inv q" and "lend_step x r (borrowed p) = Some (borrowed q)"
proof -
  show "pool_inv q"
    using assms pool_inv_borrow [OF assms(1)]
    by (cases x) (auto simp: op_ok_def pool_inv_return pool_inv_write)
  show "lend_step x r (borrowed p) = Some (borrowed q)"
  proof (cases x)
    case Borrow
    show ?thesis
    proof (cases r)
      case None
      then have "BorrowBuffer_try p = (None, q)" using assms(3) Borrow by simp
      from borrow_NoneD [OF assms(1) this] Borrow None show ?thesis by simp
    next
      case (Some b)
      then have "BorrowBuffer_try p = (Some b, q)" using assms(3) Borrow by simp
      from borrow_Some [OF assms(1) this] Borrow Some show ?thesis by simp
    qed
  next
    case (Give b)
    then show ?thesis using assms borrowed_return [OF assms(1)]
      by (cases b) (auto simp: ReturnBuffer_def [of None])
  qed (use assms in auto)
qed

lemma pool_run_refines:
  "pool_inv p \<Longrightarrow> list_all op_ok xs \<Longrightarrow> pool_run xs p = (rs, q) \<Longrightarrow>
   pool_inv q \<and> lend_run xs rs (borrowed p) = Some (borrowed q)"
proof (induction xs arbitrary: p rs)
  case (Cons x xs)
  obtain r p1 where s: "pool_step x p = (r, p1)" by (cases "pool_step x p")
  obtain rs1 where rs: "rs = r # rs1" "pool_run xs p1 = (rs1, q)"
    using Cons.prems(3) s by (auto split: prod.splits)
  have "op_ok x" using Cons.prems(2) by simp
  note st = pool_step_refines [OF Cons.prems(1) this s]
  from Cons.IH [OF st(1) _ rs(2)] Cons.prems(2) st(2) rs(1) show ?case by simp
qed simp

text \<open>
  C32: the pool implements the abstract one. From the constructor on, through any sequence of
  borrows, returns (of null, of unknown and of already returned buffers too) and writes, a buffer
  that is handed out was not on loan, a borrow is refused only when all three are on loan, and the
  free list stays consistent with the loans.
\<close>

theorem BufferPool_refines_lending:
  assumes "storage_ok st" and "list_all op_ok xs"
    and "pool_run xs (BufferPool_new st) = (rs, q)"
  shows "pool_inv q \<and> lend_run xs rs {} = Some (borrowed q) \<and> card (borrowed q) \<le> MaxBuffers"
  using pool_run_refines [OF pool_inv_new [OF assms(1)] assms(2,3)] card_borrowed
  by (auto simp: borrowed_new)

theorem BufferPool_refines_lending_witness:
  "let st = replicate 3 (replicate BufferSize 0);
       xs = [Borrow, Borrow, Borrow, Borrow, Give (Some 1), Give (Some 1), Borrow];
       (rs, q) = pool_run xs (BufferPool_new st) in
   rs = [Some 0, Some 1, Some 2, None, None, None, Some 1]
   \<and> pool_inv q \<and> lend_run xs rs {} = Some (borrowed q) \<and> card (borrowed q) \<le> MaxBuffers"
proof -
  let ?st = "replicate 3 (replicate BufferSize (0 :: u8))"
  let ?xs = "[Borrow, Borrow, Borrow, Borrow, Give (Some 1), Give (Some 1), Borrow]"
  obtain rs q where r: "pool_run ?xs (BufferPool_new ?st) = (rs, q)"
    by (cases "pool_run ?xs (BufferPool_new ?st)")
  have "storage_ok ?st" by (simp add: storage_ok_def MaxBuffers_def)
  from BufferPool_refines_lending [OF this _ r]
  have "pool_inv q \<and> lend_run ?xs rs {} = Some (borrowed q) \<and> card (borrowed q) \<le> MaxBuffers"
    by (simp add: op_ok_def)
  moreover have "fst (pool_run ?xs (BufferPool_new ?st)) = [Some 0, Some 1, Some 2, None, None, None, Some 1]"
    by (simp add: BufferPool_new_def fresh_slots_def MaxBuffers_def BorrowBuffer_try_def
        ReturnBuffer_def upt_rec Let_def)
  ultimately show ?thesis using r by (simp add: Let_def)
qed

text \<open>
  A \<open>ScopedBuffer\<close> gives back what it took. With a buffer free, the body runs on one nobody
  holds, and afterwards the pool differs from what it was in the contents of that buffer alone.
\<close>

theorem ScopedBuffer_restores:
  assumes "pool_inv p" and "borrowed p \<noteq> {..<MaxBuffers}"
    and "\<And>buf. length buf = BufferSize \<Longrightarrow> \<exists>buf'. body buf = Inr (buf', r) \<and> length buf' = BufferSize"
  shows "\<exists>b buf. with_ScopedBuffer p body = Inr (Some r, write_buffer b buf p)
           \<and> b < MaxBuffers \<and> b \<notin> borrowed p"
  using with_ScopedBuffer_ok [OF assms(1,2), of body r] assms(3) by blast

theorem ScopedBuffer_restores_witness:
  "let p = BufferPool_new (replicate 3 (replicate BufferSize 0)) in
   \<exists>b buf. with_ScopedBuffer p (\<lambda>buf. Inr (buf, ())) = Inr (Some (), write_buffer b buf p)
      \<and> b < MaxBuffers \<and> b \<notin> borrowed p"
proof -
  let ?p = "BufferPool_new (replicate 3 (replicate BufferSize 0))"
  have "pool_inv ?p" by (rule pool_inv_new) (simp add: storage_ok_def MaxBuffers_def)
  moreover have "0 \<in> {..<MaxBuffers}" and "0 \<notin> borrowed ?p"
    by (simp_all add: borrowed_new MaxBuffers_def)
  then have "borrowed ?p \<noteq> {..<MaxBuffers}" by blast
  ultimately show ?thesis
    using ScopedBuffer_restores [of ?p "\<lambda>buf. Inr (buf, ())" "()"] by simp
qed

text \<open>
  C38: the waiting loop of \<open>BorrowBuffer\<close> ends. Whatever the other threads do to the pool while it
  sleeps, as long as they keep it consistent: once a round sees the timeout elapsed the loop has
  returned, with a buffer that is now on loan or with null.
\<close>

theorem BorrowBuffer_ends:
  assumes "pool_inv p" and "\<forall>r \<in> set rounds. \<forall>q. pool_inv q \<longrightarrow> pool_inv (snd r q)"
    and "\<exists>r \<in> set rounds. timeout \<le> fst r"
  shows "\<exists>r p'. BorrowBuffer rounds timeout p = Some (r, p') \<and> pool_inv p'
           \<and> (\<forall>b. r = Some b \<longrightarrow> b < MaxBuffers \<and> b \<in> borrowed p')"
proof -
  obtain r p' where "BorrowBuffer rounds timeout p = Some (r, p')"
    using BorrowBuffer_returns [OF assms(3), of p] by auto
  with BorrowBuffer_fresh [OF assms(1,2) this] show ?thesis by blast
qed

theorem BorrowBuffer_ends_witness:
  "let p = snd (pool_run [Borrow, Borrow, Borrow] (BufferPool_new (replicate 3 (replicate BufferSize 0)))) in
   \<exists>r p'. BorrowBuffer [(0, ReturnBuffer (Some 2)), (5000, id)] 5000 p = Some (r, p') \<and> pool_inv p'
     \<and> (\<forall>b. r = Some b \<longrightarrow> b < MaxBuffers \<and> b \<in> borrowed p')"
proof -
  define p where "p = snd (pool_run [Borrow, Borrow, Borrow]
    (BufferPool_new (replicate 3 (replicate BufferSize 0))))"
  have "pool_inv (BufferPool_new (replicate 3 (replicate BufferSize 0)))"
    by (rule pool_inv_new) (simp add: storage_ok_def MaxBuffers_def)
  then have "pool_inv p"
    using pool_run_refines [of _ "[Borrow, Borrow, Borrow]"]
    by (simp add: p_def op_ok_def) (metis prod.collapse)
  moreover have "\<forall>r \<in> set [(0 :: nat, ReturnBuffer (Some 2)), (5000, id)].
      \<forall>q. pool_inv q \<longrightarrow> pool_inv (snd r q)" by (simp add: pool_inv_return)
  ultimately show ?thesis
    unfolding Let_def p_def [symmetric] by (rule BorrowBuffer_ends) simp
qed

end
