(* ===== verification/Ldn_Protocol.thy ===== *)
theory Ldn_Protocol
  imports Buffer_Pool
begin

text \<open>
  \<open>ryuldn/ryu_ldn_protocol.hpp\<close> and \<open>ryu_ldn_protocol.cpp\<close>: the packet framing between a byte
  stream and the callbacks.

  The state of a \<open>RyuLdnProtocol\<close> is a record; \<open>_currentBuffer\<close> is the number of a pool buffer.
  The callbacks are an argument \<open>cb\<close> on the pool and a state of their owner, and \<open>reg\<close> says
  which of them are set. \<open>Read\<close> is a loop with fuel: every phase of its body is a function, and
  the index is an integer because a negative \<open>dataSize\<close> makes it move backwards. The retry loop of
  \<open>BorrowBuffer\<close> is its first attempt, as \<open>BorrowBuffer_alone\<close> of \<open>Buffer_Pool\<close> shows for a pool
  that no other thread touches meanwhile.

  A pointer with a size handed to a callback is a \<open>span\<close>: the bytes that may be read through it
  and the size claimed for it. The two differ when the size has wrapped around.
\<close>

section \<open>Encoding\<close>

definition EncodeHeader :: "PacketId \<Rightarrow> int \<Rightarrow> bytes \<Rightarrow> bytes run" where
  "EncodeHeader type dataSize output =
     memcpy_to output 0
       (put_LdnHeader \<lparr>hdr_magic = RyuLdnMagic, hdr_type = PacketId_code type,
          hdr_version = ProtocolVersion, hdr_dataSize = word_of_int dataSize\<rparr>)"

definition Encode :: "PacketId \<Rightarrow> bytes \<Rightarrow> (nat \<times> bytes) run" where
  "Encode type output = bind_run (EncodeHeader type 0 output) (\<lambda>out. Inr (HeaderSize, out))"

definition Encode_data :: "PacketId \<Rightarrow> bytes \<Rightarrow> bytes \<Rightarrow> (nat \<times> bytes) run" where
  "Encode_data type data output =
     bind_run (EncodeHeader type (int (length data)) output) (\<lambda>out.
     bind_run (memcpy_to out HeaderSize data) (\<lambda>out.
     Inr (HeaderSize + length data, out)))"

text \<open>The two templates; \<open>packet\<close> is the byte image of the structure.\<close>

definition Encode_struct :: "PacketId \<Rightarrow> bytes \<Rightarrow> bytes \<Rightarrow> (nat \<times> bytes) run" where
  "Encode_struct type packet output =
     (let header = \<lparr>hdr_magic = RyuLdnMagic, hdr_type = PacketId_code type,
                    hdr_version = ProtocolVersion, hdr_dataSize = of_nat (length packet)\<rparr> in
      bind_run (memcpy_to output 0 (put_LdnHeader header)) (\<lambda>out.
      bind_run (memcpy_to out HeaderSize packet) (\<lambda>out.
      Inr (HeaderSize + length packet, out))))"

definition Encode_extra :: "PacketId \<Rightarrow> bytes \<Rightarrow> bytes \<Rightarrow> bytes \<Rightarrow> (nat \<times> bytes) run" where
  "Encode_extra type packet extraData output =
     (let header = \<lparr>hdr_magic = RyuLdnMagic, hdr_type = PacketId_code type,
                    hdr_version = ProtocolVersion,
                    hdr_dataSize = of_nat (length packet + length extraData)\<rparr> in
      bind_run (memcpy_to output 0 (put_LdnHeader header)) (\<lambda>out.
      bind_run (memcpy_to out HeaderSize packet) (\<lambda>out.
      bind_run (memcpy_to out (HeaderSize + length packet) extraData) (\<lambda>out.
      Inr (HeaderSize + length packet + length extraData, out)))))"

section \<open>Decoding\<close>

type_synonym span = "bytes \<times> u32"

definition span_at :: "bytes \<Rightarrow> nat \<Rightarrow> u32 \<Rightarrow> span" where
  "span_at data off sz = (take (unat sz) (drop off data), sz)"

datatype RyuEvent =
    onInitialize LdnHeader InitializeMessage
  | onPassphrase LdnHeader PassphraseMessage
  | onConnected LdnHeader NetworkInfo
  | onSyncNetwork LdnHeader NetworkInfo
  | onScanReply LdnHeader NetworkInfo
  | onScanReplyEnd LdnHeader
  | onDisconnected LdnHeader DisconnectMessage
  | onRejectReply LdnHeader
  | onReject LdnHeader RejectRequest
  | onCreateAccessPoint LdnHeader CreateAccessPointRequest span
  | onCreateAccessPointPrivate LdnHeader CreateAccessPointPrivateRequest span
  | onSetAcceptPolicy LdnHeader SetAcceptPolicyRequest
  | onSetAdvertiseData LdnHeader span
  | onConnect LdnHeader ConnectRequest
  | onConnectPrivate LdnHeader ConnectPrivateRequest
  | onScan LdnHeader ScanFilter
  | onProxyConfig LdnHeader ProxyConfig
  | onExternalProxy LdnHeader ExternalProxyConfig
  | onExternalProxyToken LdnHeader ExternalProxyToken
  | onExternalProxyState LdnHeader ExternalProxyConnectionState
  | onProxyConnect LdnHeader ProxyConnectRequestFull
  | onProxyConnectReply LdnHeader ProxyConnectResponseFull
  | onProxyData LdnHeader ProxyDataHeaderFull span
  | onProxyDisconnect LdnHeader ProxyDisconnectMessageFull
  | onPing LdnHeader PingMessage
  | onNetworkError LdnHeader NetworkErrorMessage

text \<open>
  \<open>std::memcpy(&output, data, sizeof(T))\<close>. A null pointer faults; so does an object shorter than
  the structure (the pool's buffers are longer than every structure).
\<close>

definition ParseStruct :: "(bytes \<Rightarrow> 'a) \<Rightarrow> nat \<Rightarrow> bytes option \<Rightarrow> 'a run" where
  "ParseStruct get sz data =
     (case data of
        None \<Rightarrow> Inl NullDeref
      | Some buf \<Rightarrow> if sz \<le> length buf then Inr (get buf) else Inl BufferOverrun)"

definition ParseNetworkInfo :: "bytes option \<Rightarrow> u32 \<Rightarrow> LdnNetworkInfo run" where
  "ParseNetworkInfo data dataSize =
     (if dataSize < 80 + 1072 then Inr (get_LdnNetworkInfo (replicate 1072 0))
      else case data of
             None \<Rightarrow> Inl NullDeref
           | Some buf \<Rightarrow> ParseStruct get_LdnNetworkInfo 1072 (Some (drop 80 buf)))"

text \<open>\<open>std::memset(&info, 0, sizeof(info)); info.ldn = ldnInfo\<close>\<close>

definition NetworkInfo_of_ldn :: "LdnNetworkInfo \<Rightarrow> NetworkInfo" where
  "NetworkInfo_of_ldn ldnInfo = (get_NetworkInfo (replicate 1152 0))\<lparr>net_ldn := ldnInfo\<rparr>"

definition HandleStruct ::
    "(bytes \<Rightarrow> 'a) \<Rightarrow> nat \<Rightarrow> (LdnHeader \<Rightarrow> 'a \<Rightarrow> RyuEvent) \<Rightarrow> LdnHeader \<Rightarrow> bytes option \<Rightarrow> RyuEvent run"
  where
  "HandleStruct get sz event header data =
     bind_run (ParseStruct get sz data) (\<lambda>msg. Inr (event header msg))"

definition HandleExtra ::
    "(bytes \<Rightarrow> 'a) \<Rightarrow> nat \<Rightarrow> (LdnHeader \<Rightarrow> 'a \<Rightarrow> span \<Rightarrow> RyuEvent) \<Rightarrow> LdnHeader \<Rightarrow> bytes option
       \<Rightarrow> RyuEvent run" where
  "HandleExtra get sz event header data =
     bind_run (ParseStruct get sz data) (\<lambda>req.
       let extraSize = hdr_dataSize header - of_nat sz in
       Inr (event header req
              (span_at (case data of None \<Rightarrow> [] | Some buf \<Rightarrow> buf) sz extraSize)))"

definition HandleNetworkInfo ::
    "(LdnHeader \<Rightarrow> NetworkInfo \<Rightarrow> RyuEvent) \<Rightarrow> LdnHeader \<Rightarrow> bytes option \<Rightarrow> RyuEvent run" where
  "HandleNetworkInfo event header data =
     bind_run (ParseNetworkInfo data (hdr_dataSize header)) (\<lambda>ldnInfo.
       Inr (event header (NetworkInfo_of_ldn ldnInfo)))"

text \<open>One case of the \<open>switch\<close>, the callback being set.\<close>

fun Handle :: "PacketId \<Rightarrow> LdnHeader \<Rightarrow> bytes option \<Rightarrow> RyuEvent run" where
  "Handle PacketId_Initialize = HandleStruct get_InitializeMessage 22 onInitialize"
| "Handle PacketId_Passphrase = HandleStruct get_PassphraseMessage 128 onPassphrase"
| "Handle PacketId_Connected = HandleNetworkInfo onConnected"
| "Handle PacketId_SyncNetwork = HandleNetworkInfo onSyncNetwork"
| "Handle PacketId_ScanReply = HandleNetworkInfo onScanReply"
| "Handle PacketId_ScanReplyEnd = (\<lambda>header data. Inr (onScanReplyEnd header))"
| "Handle PacketId_Disconnect = HandleStruct get_DisconnectMessage 4 onDisconnected"
| "Handle PacketId_RejectReply = (\<lambda>header data. Inr (onRejectReply header))"
| "Handle PacketId_Reject = HandleStruct get_RejectRequest 8 onReject"
| "Handle PacketId_CreateAccessPoint =
     HandleExtra get_CreateAccessPointRequest 188 onCreateAccessPoint"
| "Handle PacketId_CreateAccessPointPrivate =
     HandleExtra get_CreateAccessPointPrivateRequest 316 onCreateAccessPointPrivate"
| "Handle PacketId_SetAcceptPolicy = HandleStruct get_SetAcceptPolicyRequest 1 onSetAcceptPolicy"
| "Handle PacketId_SetAdvertiseData = (\<lambda>header data.
     Inr (onSetAdvertiseData header
       (span_at (case data of None \<Rightarrow> [] | Some buf \<Rightarrow> buf) 0 (hdr_dataSize header))))"
| "Handle PacketId_Connect = HandleStruct get_ConnectRequest 1276 onConnect"
| "Handle PacketId_ConnectPrivate = HandleStruct get_ConnectPrivateRequest 188 onConnectPrivate"
| "Handle PacketId_Scan = HandleStruct get_ScanFilter 96 onScan"
| "Handle PacketId_ProxyConfig = HandleStruct get_ProxyConfig 8 onProxyConfig"
| "Handle PacketId_ExternalProxy = HandleStruct get_ExternalProxyConfig 38 onExternalProxy"
| "Handle PacketId_ExternalProxyToken =
     HandleStruct get_ExternalProxyToken 40 onExternalProxyToken"
| "Handle PacketId_ExternalProxyState =
     HandleStruct get_ExternalProxyConnectionState 8 onExternalProxyState"
| "Handle PacketId_ProxyConnect = HandleStruct get_ProxyConnectRequestFull 16 onProxyConnect"
| "Handle PacketId_ProxyConnectReply =
     HandleStruct get_ProxyConnectResponseFull 16 onProxyConnectReply"
| "Handle PacketId_ProxyData = HandleExtra get_ProxyDataHeaderFull 20 onProxyData"
| "Handle PacketId_ProxyDisconnect =
     HandleStruct get_ProxyDisconnectMessageFull 20 onProxyDisconnect"
| "Handle PacketId_Ping = HandleStruct get_PingMessage 2 onPing"
| "Handle PacketId_NetworkError = HandleStruct get_NetworkErrorMessage 4 onNetworkError"

text \<open>\<open>None\<close>: the callback is not set, or the type is unknown.\<close>

definition DecodeAndHandle ::
    "(PacketId \<Rightarrow> bool) \<Rightarrow> LdnHeader \<Rightarrow> bytes option \<Rightarrow> RyuEvent option run" where
  "DecodeAndHandle reg header data =
     (case PacketId_of (hdr_type header) of
        None \<Rightarrow> Inr None
      | Some t \<Rightarrow> if reg t then bind_run (Handle t header data) (\<lambda>ev. Inr (Some ev)) else Inr None)"

section \<open>Reading a stream\<close>

record RyuLdnProtocol =
  rp_headerBuffer :: bytes
  rp_headerBytesReceived :: nat
  rp_currentBuffer :: "nat option"
  rp_bufferEnd :: nat
  rp_inPacket :: bool

definition RyuLdnProtocol_new :: RyuLdnProtocol where
  "RyuLdnProtocol_new =
     \<lparr>rp_headerBuffer = replicate HeaderSize 0, rp_headerBytesReceived = 0,
      rp_currentBuffer = None, rp_bufferEnd = 0, rp_inPacket = False\<rparr>"

definition RyuLdnProtocol_destroy :: "RyuLdnProtocol \<Rightarrow> BufferPool \<Rightarrow> BufferPool" where
  "RyuLdnProtocol_destroy s pool =
     (case rp_currentBuffer s of None \<Rightarrow> pool | Some b \<Rightarrow> ReturnBuffer (Some b) pool)"

definition Reset :: "RyuLdnProtocol \<Rightarrow> BufferPool \<Rightarrow> RyuLdnProtocol \<times> BufferPool" where
  "Reset s pool =
     (let (s, pool) = (case rp_currentBuffer s of
                         None \<Rightarrow> (s, pool)
                       | Some b \<Rightarrow> (s\<lparr>rp_currentBuffer := None\<rparr>, ReturnBuffer (Some b) pool)) in
      (s\<lparr>rp_headerBytesReceived := 0, rp_bufferEnd := 0, rp_inPacket := False\<rparr>, pool))"

text \<open>The source side of \<open>std::memcpy(_, data + start, n)\<close>, with \<open>n\<close> converted to \<open>size_t\<close>.\<close>

definition memcpy_from :: "bytes \<Rightarrow> int \<Rightarrow> int \<Rightarrow> bytes run" where
  "memcpy_from data start n =
     (if 0 \<le> n \<and> 0 \<le> start \<and> start + n \<le> int (length data)
      then Inr (take (nat n) (drop (nat start) data)) else Inl BufferOverrun)"

text \<open>How a phase of the loop body ends: it falls through, or \<open>continue\<close>s, or returns.\<close>

datatype 's flow = Fall 's | Continue 's | Return 's

type_synonym 'w read_state = "int \<times> RyuLdnProtocol \<times> BufferPool \<times> 'w"

type_synonym 'w callbacks = "RyuEvent \<Rightarrow> BufferPool \<times> 'w \<Rightarrow> (BufferPool \<times> 'w) run"

definition then_phase ::
    "'s flow run \<Rightarrow> ('s \<Rightarrow> 's flow run) \<Rightarrow> 's flow run" where
  "then_phase m f =
     bind_run m (\<lambda>r. case r of Fall s \<Rightarrow> f s | Continue s \<Rightarrow> Inr (Continue s)
                             | Return s \<Rightarrow> Inr (Return s))"

definition call ::
    "(PacketId \<Rightarrow> bool) \<Rightarrow> 'w callbacks \<Rightarrow> LdnHeader \<Rightarrow> bytes option \<Rightarrow> BufferPool \<times> 'w
       \<Rightarrow> (BufferPool \<times> 'w) run" where
  "call reg cb header data pw =
     bind_run (DecodeAndHandle reg header data)
       (\<lambda>ev. case ev of None \<Rightarrow> Inr pw | Some e \<Rightarrow> cb e pw)"

definition Read_phase1 :: "bytes \<Rightarrow> int \<Rightarrow> int \<Rightarrow> 'w read_state \<Rightarrow> 'w read_state flow run" where
  "Read_phase1 data offset sz = (\<lambda>(index, s, pool, w).
     if rp_headerBytesReceived s < HeaderSize then
       let copyable = min (sz - index) (int HeaderSize - int (rp_headerBytesReceived s)) in
       bind_run (memcpy_from data (index + offset) copyable) (\<lambda>src.
       bind_run (memcpy_to (rp_headerBuffer s) (rp_headerBytesReceived s) src) (\<lambda>hb.
       let s = s\<lparr>rp_headerBuffer := hb,
                 rp_headerBytesReceived := rp_headerBytesReceived s + nat copyable\<rparr> in
       if rp_headerBytesReceived s < HeaderSize
       then Inr (Continue (index + copyable, s, pool, w))
       else Inr (Fall (index + copyable, s, pool, w))))
     else Inr (Fall (index, s, pool, w)))"

definition Read_phase2 ::
    "(PacketId \<Rightarrow> bool) \<Rightarrow> 'w callbacks \<Rightarrow> int \<Rightarrow> 'w read_state \<Rightarrow> 'w read_state flow run" where
  "Read_phase2 reg cb sz = (\<lambda>(index, s, pool, w).
     if HeaderSize \<le> rp_headerBytesReceived s \<and> \<not> rp_inPacket s then
       let header = get_LdnHeader (rp_headerBuffer s); dataSize = sint (hdr_dataSize header) in
       if hdr_magic header \<noteq> RyuLdnMagic then
         (let (s, pool) = Reset s pool in Inr (Return (index, s, pool, w)))
       else if hdr_version header \<noteq> ProtocolVersion then
         (let (s, pool) = Reset s pool in Inr (Return (index, s, pool, w)))
       else if dataSize \<ge> int MaxPacketSize - int HeaderSize then
         (let (s, pool) = Reset s pool in Inr (Return (index, s, pool, w)))
       else if dataSize = 0 then
         bind_run (call reg cb header None (pool, w)) (\<lambda>(pool, w).
         Inr (Continue (index, s\<lparr>rp_headerBytesReceived := 0\<rparr>, pool, w)))
       else
         case BorrowBuffer_try pool of
           (None, pool) \<Rightarrow>
             let skipBytes = min (sz - index) dataSize in
             Inr (Continue (index + skipBytes,
                    s\<lparr>rp_currentBuffer := None, rp_headerBytesReceived := 0\<rparr>, pool, w))
         | (Some b, pool) \<Rightarrow>
             Inr (Fall (index,
                    s\<lparr>rp_currentBuffer := Some b, rp_inPacket := True, rp_bufferEnd := 0\<rparr>,
                    pool, w))
     else Inr (Fall (index, s, pool, w)))"

definition Read_phase3 ::
    "(PacketId \<Rightarrow> bool) \<Rightarrow> 'w callbacks \<Rightarrow> bytes \<Rightarrow> int \<Rightarrow> int \<Rightarrow> 'w read_state
       \<Rightarrow> 'w read_state flow run" where
  "Read_phase3 reg cb data offset sz = (\<lambda>(index, s, pool, w).
     case (rp_inPacket s, rp_currentBuffer s) of
       (True, Some b) \<Rightarrow>
         let header = get_LdnHeader (rp_headerBuffer s);
             finalSize = sint (hdr_dataSize header);
             copyable = min (sz - index) (finalSize - int (rp_bufferEnd s)) in
         bind_run (memcpy_from data (index + offset) copyable) (\<lambda>src.
         bind_run (memcpy_to (bp_storage pool ! b) (rp_bufferEnd s) src) (\<lambda>buf.
         let pool = write_buffer b buf pool; index = index + copyable;
             s = s\<lparr>rp_bufferEnd := rp_bufferEnd s + nat copyable\<rparr> in
         if int (rp_bufferEnd s) \<ge> finalSize then
           bind_run (call reg cb header (Some buf) (pool, w)) (\<lambda>(pool, w).
           Inr (Continue (index,
                  s\<lparr>rp_currentBuffer := None, rp_headerBytesReceived := 0, rp_bufferEnd := 0,
                    rp_inPacket := False\<rparr>,
                  ReturnBuffer (Some b) pool, w)))
         else Inr (Continue (index, s, pool, w))))
     | _ \<Rightarrow> Inr (Continue (index, s, pool, w)))"

definition Read_body ::
    "(PacketId \<Rightarrow> bool) \<Rightarrow> 'w callbacks \<Rightarrow> bytes \<Rightarrow> int \<Rightarrow> int \<Rightarrow> 'w read_state
       \<Rightarrow> 'w read_state flow run" where
  "Read_body reg cb data offset sz st =
     then_phase (then_phase (Read_phase1 data offset sz st) (Read_phase2 reg cb sz))
       (Read_phase3 reg cb data offset sz)"

fun Read_loop ::
    "nat \<Rightarrow> (PacketId \<Rightarrow> bool) \<Rightarrow> 'w callbacks \<Rightarrow> bytes \<Rightarrow> int \<Rightarrow> int \<Rightarrow> 'w read_state
       \<Rightarrow> (RyuLdnProtocol \<times> BufferPool \<times> 'w) run" where
  "Read_loop fuel reg cb data offset sz (index, s, pool, w) =
     (if index < sz then
        case fuel of
          0 \<Rightarrow> Inl OutOfFuel
        | Suc n \<Rightarrow>
            bind_run (Read_body reg cb data offset sz (index, s, pool, w)) (\<lambda>r.
              case r of
                Return (index, result) \<Rightarrow> Inr result
              | Continue st \<Rightarrow> Read_loop n reg cb data offset sz st
              | Fall st \<Rightarrow> Read_loop n reg cb data offset sz st)
      else Inr (s, pool, w))"

text \<open>One pass of the loop consumes at least a byte when no header has a negative size.\<close>

definition Read ::
    "(PacketId \<Rightarrow> bool) \<Rightarrow> 'w callbacks \<Rightarrow> bytes \<Rightarrow> int \<Rightarrow> int
       \<Rightarrow> RyuLdnProtocol \<times> BufferPool \<times> 'w \<Rightarrow> (RyuLdnProtocol \<times> BufferPool \<times> 'w) run" where
  "Read reg cb data offset sz st = Read_loop (nat sz) reg cb data offset sz (0, st)"

end
