(* ===== verification/Ldn_Framing.thy ===== *)
theory Ldn_Framing
  imports Ldn_Protocol
begin

text \<open>
  What \<open>RyuLdnProtocol\<close> promises: the stream is cut into frames, whatever the pieces it arrives in,
  and the callbacks see each frame once and in order.

  \<open>frames\<close> is the abstract specification, a function of the whole byte string. \<open>pending\<close> is the
  abstraction of a protocol object: the bytes of the incomplete frame it holds. The locale
  \<open>packet_handler\<close> is the contract of the callbacks, \<open>Read_frames\<close> the refinement lemma.
\<close>

section \<open>The specification\<close>

definition hdr_len :: "LdnHeader \<Rightarrow> nat" where
  "hdr_len h = unat (hdr_dataSize h)"

definition valid_header :: "LdnHeader \<Rightarrow> bool" where
  "valid_header h \<longleftrightarrow>
     hdr_magic h = RyuLdnMagic \<and> hdr_version h = ProtocolVersion \<and> hdr_len h < MaxPacketSize - HeaderSize"

type_synonym frame = "LdnHeader \<times> bytes"

function frames :: "bytes \<Rightarrow> frame list \<times> bytes" where
  "frames bs =
     (let h = get_LdnHeader bs; n = HeaderSize + hdr_len h in
      if length bs < HeaderSize \<or> length bs < n then ([], bs)
      else let (fs, rest) = frames (drop n bs) in ((h, take (hdr_len h) (drop HeaderSize bs)) # fs, rest))"
  by pat_completeness auto
termination by (relation "measure length") (auto simp: HeaderSize_def)

declare frames.simps [simp del]

text \<open>What the callbacks are given for a frame, with the payload alone as the object read.\<close>

definition frame_event :: "(PacketId \<Rightarrow> bool) \<Rightarrow> frame \<Rightarrow> RyuEvent option run" where
  "frame_event reg = (\<lambda>(h, p). DecodeAndHandle reg h (if p = [] then None else Some p))"

definition frame_events :: "(PacketId \<Rightarrow> bool) \<Rightarrow> frame list \<Rightarrow> RyuEvent list" where
  "frame_events reg fs =
     concat (map (\<lambda>f. case frame_event reg f of Inr (Some e) \<Rightarrow> [e] | _ \<Rightarrow> []) fs)"

definition frame_ok :: "(PacketId \<Rightarrow> bool) \<Rightarrow> frame \<Rightarrow> bool" where
  "frame_ok reg f \<longleftrightarrow> valid_header (fst f) \<and> \<not> isl (frame_event reg f)"

definition stream_ok :: "(PacketId \<Rightarrow> bool) \<Rightarrow> bytes \<Rightarrow> bool" where
  "stream_ok reg bs \<longleftrightarrow>
     list_all (frame_ok reg) (fst (frames bs))
     \<and> (HeaderSize \<le> length (snd (frames bs)) \<longrightarrow> valid_header (get_LdnHeader (snd (frames bs))))"

lemma frames_short: "length bs < HeaderSize \<Longrightarrow> frames bs = ([], bs)"
  by (simp add: frames.simps [of bs])

lemma frames_incomplete:
  "length bs < HeaderSize + hdr_len (get_LdnHeader bs) \<Longrightarrow> frames bs = ([], bs)"
  by (simp add: frames.simps [of bs])

lemma get_LdnHeader_prefix: "length hb = HeaderSize \<Longrightarrow> get_LdnHeader (hb @ x) = get_LdnHeader hb"
  by (simp add: LdnHeader_wire.get_append HeaderSize_def)

lemma frames_frame:
  assumes "length hb = HeaderSize" and "length p = hdr_len (get_LdnHeader hb)"
  shows "frames (hb @ p @ x) = ((get_LdnHeader hb, p) # fst (frames x), snd (frames x))"
  using assms by (simp add: frames.simps [of "hb @ p @ x"] get_LdnHeader_prefix Let_def
      split: prod.splits)

lemma frame_events_simps [simp]:
  "frame_events reg [] = []"
  "frame_events reg (fs @ gs) = frame_events reg fs @ frame_events reg gs"
  by (simp_all add: frame_events_def)

lemma frame_events_Cons:
  "frame_event reg f = Inr e \<Longrightarrow> frame_events reg (f # fs) = (case e of None \<Rightarrow> [] | Some e \<Rightarrow> [e]) @ frame_events reg fs"
  by (simp add: frame_events_def split: option.splits)

lemma stream_ok_frame:
  assumes "length hb = HeaderSize" and "length p = hdr_len (get_LdnHeader hb)"
    and "stream_ok reg (hb @ p @ x)"
  shows "frame_ok reg (get_LdnHeader hb, p)" and "stream_ok reg x"
  using assms(3) by (simp_all add: stream_ok_def frames_frame [OF assms(1,2)])

lemma stream_ok_header:
  assumes "HeaderSize \<le> length bs" and "stream_ok reg bs"
  shows "valid_header (get_LdnHeader bs)"
  using assms by (auto simp: stream_ok_def frame_ok_def frames.simps [of bs] Let_def
      split: if_splits prod.splits)

lemma sint_nonneg: "unat (w :: u32) < 2147483648 \<Longrightarrow> sint w = int (unat w)"
proof -
  assume w: "unat w < 2147483648"
  have u: "uint w = int (unat w)" by simp
  with w have "uint w < 2147483648" by linarith
  moreover have "- 2147483648 \<le> uint w" using u by linarith
  ultimately have "signed_take_bit 31 (uint w) = uint w"
    by (subst signed_take_bit_int_eq_self_iff) simp
  with u show ?thesis by (simp add: sint_uint)
qed

lemma sint_size: "valid_header h \<Longrightarrow> sint (hdr_dataSize h) = int (hdr_len h)"
  unfolding hdr_len_def
  by (rule sint_nonneg) (simp add: valid_header_def hdr_len_def MaxPacketSize_def HeaderSize_def)

section \<open>Decoding looks at the payload only\<close>

lemma span_at_append: "unat sz + off \<le> length p \<Longrightarrow> span_at (p @ r) off sz = span_at p off sz"
  by (simp add: span_at_def)

context wire_struct
begin

lemma ParseStruct_append:
  "ParseStruct get sz (Some p) = Inr x \<Longrightarrow> ParseStruct get sz (Some (p @ r)) = Inr x"
  by (simp add: ParseStruct_def get_append split: if_splits)

lemma HandleStruct_append:
  "HandleStruct get sz ev h (Some p) = Inr e \<Longrightarrow> HandleStruct get sz ev h (Some (p @ r)) = Inr e"
  unfolding HandleStruct_def bind_run_Inr_iff using ParseStruct_append by blast

lemma HandleExtra_append:
  assumes "HandleExtra get sz ev h (Some p) = Inr e" and "length p = hdr_len h"
  shows "HandleExtra get sz ev h (Some (p @ r)) = Inr e"
proof -
  obtain req where req: "ParseStruct get sz (Some p) = Inr req"
    using assms(1) by (auto simp: HandleExtra_def bind_run_Inr_iff)
  then have le: "sz \<le> length p" by (simp add: ParseStruct_def split: if_splits)
  have "of_nat sz \<le> hdr_dataSize h"
    using le assms(2) unat_bound [of "hdr_dataSize h"]
    by (simp add: word_le_nat_alt unat_of_nat hdr_len_def)
  then have "unat (hdr_dataSize h - of_nat sz) + sz = length p"
    using le assms(2) unat_bound [of "hdr_dataSize h"]
    by (simp add: unat_sub unat_of_nat hdr_len_def)
  with assms(1) req ParseStruct_append [OF req, of r] show ?thesis
    by (simp add: HandleExtra_def span_at_append)
qed

text \<open>A payload shorter than its structure is completed with what the buffer held before.\<close>

lemma HandleStruct_stale:
  "sz \<le> length (p @ stale) \<Longrightarrow>
   HandleStruct get sz ev h (Some (p @ stale)) = Inr (ev h (get (p @ stale)))"
  by (simp add: HandleStruct_def ParseStruct_def)

end

lemma HandleNetworkInfo_append:
  assumes "HandleNetworkInfo ev h (Some p) = Inr e"
  shows "HandleNetworkInfo ev h (Some (p @ r)) = Inr e"
proof -
  have "ParseNetworkInfo (Some p) n = Inr i \<Longrightarrow> ParseNetworkInfo (Some (p @ r)) n = Inr i" for n i
    using LdnNetworkInfo_wire.ParseStruct_append [of "drop 80 p" i "drop (80 - length p) r"]
    by (simp add: ParseNetworkInfo_def split: if_splits)
  with assms show ?thesis unfolding HandleNetworkInfo_def bind_run_Inr_iff by blast
qed

lemmas Handle_struct_append =
  InitializeMessage_wire.HandleStruct_append PassphraseMessage_wire.HandleStruct_append
  DisconnectMessage_wire.HandleStruct_append RejectRequest_wire.HandleStruct_append
  SetAcceptPolicyRequest_wire.HandleStruct_append ConnectRequest_wire.HandleStruct_append
  ConnectPrivateRequest_wire.HandleStruct_append ScanFilter_wire.HandleStruct_append
  ProxyConfig_wire.HandleStruct_append ExternalProxyConfig_wire.HandleStruct_append
  ExternalProxyToken_wire.HandleStruct_append
  ExternalProxyConnectionState_wire.HandleStruct_append
  ProxyConnectRequestFull_wire.HandleStruct_append
  ProxyConnectResponseFull_wire.HandleStruct_append
  ProxyDisconnectMessageFull_wire.HandleStruct_append PingMessage_wire.HandleStruct_append
  NetworkErrorMessage_wire.HandleStruct_append

lemmas Handle_extra_append =
  CreateAccessPointRequest_wire.HandleExtra_append
  CreateAccessPointPrivateRequest_wire.HandleExtra_append
  ProxyDataHeaderFull_wire.HandleExtra_append

lemma Handle_append:
  assumes "Handle t h (Some p) = Inr e" and "length p = hdr_len h"
  shows "Handle t h (Some (p @ r)) = Inr e"
  using assms
  by (cases t; simp only: Handle.simps)
     (erule Handle_struct_append HandleNetworkInfo_append | erule (1) Handle_extra_append
      | simp add: hdr_len_def span_at_append)+

lemma DecodeAndHandle_append:
  "DecodeAndHandle reg h (Some p) = Inr e \<Longrightarrow> length p = hdr_len h \<Longrightarrow>
   DecodeAndHandle reg h (Some (p @ r)) = Inr e"
  unfolding DecodeAndHandle_def
  by (cases "PacketId_of (hdr_type h)") (auto simp: bind_run_Inr_iff Handle_append)

section \<open>The abstraction of a protocol object\<close>

definition pending :: "RyuLdnProtocol \<Rightarrow> BufferPool \<Rightarrow> bytes" where
  "pending s pool =
     (case rp_currentBuffer s of
        None \<Rightarrow> take (rp_headerBytesReceived s) (rp_headerBuffer s)
      | Some b \<Rightarrow> rp_headerBuffer s @ take (rp_bufferEnd s) (bp_storage pool ! b))"

definition own :: "RyuLdnProtocol \<Rightarrow> nat set" where
  "own s = set_option (rp_currentBuffer s)"

definition prot_inv :: "RyuLdnProtocol \<Rightarrow> BufferPool \<Rightarrow> bool" where
  "prot_inv s pool \<longleftrightarrow>
     pool_inv pool \<and> length (rp_headerBuffer s) = HeaderSize \<and>
     (case rp_currentBuffer s of
        None \<Rightarrow> \<not> rp_inPacket s \<and> rp_headerBytesReceived s < HeaderSize \<and> rp_bufferEnd s = 0
      | Some b \<Rightarrow> rp_inPacket s \<and> rp_headerBytesReceived s = HeaderSize \<and> b \<in> borrowed pool
          \<and> valid_header (get_LdnHeader (rp_headerBuffer s))
          \<and> rp_bufferEnd s < hdr_len (get_LdnHeader (rp_headerBuffer s)))"

text \<open>What other owners of buffers rely on: the buffers lent to them, and their contents.\<close>

definition same_lent :: "nat set \<Rightarrow> BufferPool \<Rightarrow> BufferPool \<Rightarrow> bool" where
  "same_lent B p p' \<longleftrightarrow> (\<forall>b \<in> B. bp_storage p' ! b = bp_storage p ! b)"

definition free_for :: "nat \<Rightarrow> RyuLdnProtocol \<Rightarrow> BufferPool \<Rightarrow> bool" where
  "free_for n s pool \<longleftrightarrow> card (borrowed pool - own s) + n \<le> MaxBuffers"

lemma same_lent_refl [simp]: "same_lent B p p"
  by (simp add: same_lent_def)

lemma same_lent_trans: "same_lent B p q \<Longrightarrow> same_lent B q r \<Longrightarrow> same_lent B p r"
  by (simp add: same_lent_def)

lemma same_lent_mono: "same_lent B p q \<Longrightarrow> C \<subseteq> B \<Longrightarrow> same_lent C p q"
  by (auto simp: same_lent_def)

lemma same_lent_write: "b \<notin> B \<Longrightarrow> same_lent B p (write_buffer b buf p)"
  unfolding same_lent_def write_buffer_def by (auto intro!: nth_list_update_neq)

lemma ReturnBuffer_storage [simp]: "bp_storage (ReturnBuffer b p) = bp_storage p"
  by (simp add: ReturnBuffer_def Let_def split: option.splits)

lemma same_lent_return: "same_lent B p q \<Longrightarrow> same_lent B p (ReturnBuffer b q)"
  by (simp add: same_lent_def)

lemma prot_inv_new: "pool_inv pool \<Longrightarrow> prot_inv RyuLdnProtocol_new pool"
  by (simp add: prot_inv_def RyuLdnProtocol_new_def HeaderSize_def)

lemma pending_new [simp]: "pending RyuLdnProtocol_new pool = []"
  by (simp add: pending_def RyuLdnProtocol_new_def)

lemma prot_inv_destroy:
  "prot_inv s pool \<Longrightarrow>
   pool_inv (RyuLdnProtocol_destroy s pool)
   \<and> borrowed (RyuLdnProtocol_destroy s pool) = borrowed pool - own s"
  by (auto simp: RyuLdnProtocol_destroy_def prot_inv_def own_def pool_inv_return borrowed_return
      split: option.splits)

lemma prot_inv_Reset:
  assumes "pool_inv pool" and "length (rp_headerBuffer s) = HeaderSize" and "Reset s pool = (s', pool')"
  shows "prot_inv s' pool'" and "pending s' pool' = []" and "own s' = {}"
    and "borrowed pool' = borrowed pool - own s" and "bp_storage pool' = bp_storage pool"
  using assms
  by (auto simp: Reset_def prot_inv_def pending_def own_def pool_inv_return borrowed_return
      HeaderSize_def split: option.splits)

section \<open>The input that is left\<close>

definition remaining :: "bytes \<Rightarrow> int \<Rightarrow> int \<Rightarrow> int \<Rightarrow> bytes" where
  "remaining data offset sz index = take (nat (sz - index)) (drop (nat (index + offset)) data)"

definition in_data :: "bytes \<Rightarrow> int \<Rightarrow> int \<Rightarrow> int \<Rightarrow> bool" where
  "in_data data offset sz index \<longleftrightarrow>
     0 \<le> offset \<and> 0 \<le> index \<and> index \<le> sz \<and> offset + sz \<le> int (length data)"

lemma length_remaining:
  "in_data data offset sz index \<Longrightarrow> int (length (remaining data offset sz index)) = sz - index"
  by (auto simp: remaining_def in_data_def)

lemma memcpy_from_remaining:
  assumes "in_data data offset sz index" and "n \<le> length (remaining data offset sz index)"
  shows "memcpy_from data (index + offset) (int n) = Inr (take n (remaining data offset sz index))"
proof -
  have "int n \<le> sz - index" using assms length_remaining by fastforce
  then have "n \<le> nat (sz - index)" by simp
  with \<open>int n \<le> sz - index\<close> assms(1) show ?thesis
    by (simp add: remaining_def in_data_def memcpy_from_def min_def)
qed

lemma remaining_advance:
  assumes "in_data data offset sz index" and "n \<le> length (remaining data offset sz index)"
  shows "in_data data offset sz (index + int n)"
    and "remaining data offset sz (index + int n) = drop n (remaining data offset sz index)"
proof -
  have "int n \<le> sz - index" using assms length_remaining by fastforce
  with assms(1) show "in_data data offset sz (index + int n)" by (simp add: in_data_def)
  from \<open>int n \<le> sz - index\<close> assms(1)
  have "nat (sz - index) - n = nat (sz - (index + int n))"
    and "nat (index + offset) + n = nat (index + int n + offset)"
    by (auto simp: in_data_def)
  then show "remaining data offset sz (index + int n) = drop n (remaining data offset sz index)"
    by (simp add: remaining_def drop_take add.commute)
qed

section \<open>The contract of the callbacks\<close>

text \<open>
  What a callback may rely on: the span of a data packet is as long as it says and leaves room for
  the two headers in a packet buffer; network descriptions have arrays of the declared sizes.
\<close>

definition event_ok :: "RyuEvent \<Rightarrow> bool" where
  "event_ok ev =
     (case ev of
        onProxyData h pd sp \<Rightarrow>
          length (fst sp) = unat (snd sp) \<and> HeaderSize + 20 + length (fst sp) < MaxPacketSize
      | onConnected h info \<Rightarrow> wf_NetworkInfo info
      | onSyncNetwork h info \<Rightarrow> wf_NetworkInfo info
      | onScanReply h info \<Rightarrow> wf_NetworkInfo info
      | _ \<Rightarrow> True)"

lemma wf_NetworkInfo_of_ldn: "wf_LdnNetworkInfo i \<Longrightarrow> wf_NetworkInfo (NetworkInfo_of_ldn i)"
  using NetworkInfo_wire.wf_get [of "replicate 1152 0"]
  by (simp add: NetworkInfo_of_ldn_def wf_NetworkInfo_def)

lemma wf_ParseNetworkInfo: "ParseNetworkInfo data n = Inr i \<Longrightarrow> wf_LdnNetworkInfo i"
  using LdnNetworkInfo_wire.wf_get [of "replicate 1072 0"] LdnNetworkInfo_wire.wf_get
  by (auto simp: ParseNetworkInfo_def ParseStruct_def split: if_splits option.splits)

lemma HandleNetworkInfo_ok:
  "HandleNetworkInfo ev h data = Inr e \<Longrightarrow> (\<And>i. wf_NetworkInfo i \<Longrightarrow> event_ok (ev h i)) \<Longrightarrow> event_ok e"
  unfolding HandleNetworkInfo_def bind_run_Inr_iff
  using wf_ParseNetworkInfo wf_NetworkInfo_of_ldn by blast

lemma HandleProxyData_ok:
  assumes "HandleExtra get_ProxyDataHeaderFull 20 onProxyData h (Some p) = Inr e"
    and "length p = hdr_len h" and "valid_header h"
  shows "event_ok e"
proof -
  have le: "20 \<le> length p" using assms(1)
    by (auto simp: HandleExtra_def ParseStruct_def split: if_splits)
  then have "20 \<le> hdr_dataSize h" using assms(2) by (simp add: word_le_nat_alt hdr_len_def)
  then have "unat (hdr_dataSize h - 20) = length p - 20"
    using assms(2) by (simp add: unat_sub hdr_len_def)
  with le assms show ?thesis
    by (auto simp: HandleExtra_def ParseStruct_def event_ok_def span_at_def valid_header_def
        HeaderSize_def MaxPacketSize_def)
qed

lemma Handle_event_ok:
  assumes "Handle t h (if p = [] then None else Some p) = Inr e" and "length p = hdr_len h"
    and "valid_header h"
  shows "event_ok e"
proof (cases "t = PacketId_ProxyData")
  case True
  then show ?thesis using assms HandleProxyData_ok
    by (auto simp: HandleExtra_def ParseStruct_def split: if_splits)
next
  case False
  then show ?thesis using assms(1)
    by (cases t; simp only: Handle.simps)
       ((erule HandleNetworkInfo_ok, simp add: event_ok_def)
        | force simp: HandleStruct_def HandleExtra_def bind_run_Inr_iff event_ok_def)+
qed

locale packet_handler =
  fixes cb :: "'w callbacks" and eff :: "RyuEvent \<Rightarrow> 'w \<Rightarrow> 'w" and inv :: "'w \<Rightarrow> bool"
  assumes handle:
      "pool_inv p \<Longrightarrow> card (borrowed p) < MaxBuffers \<Longrightarrow> inv w \<Longrightarrow> event_ok ev \<Longrightarrow>
       \<exists>p'. cb ev (p, w) = Inr (p', eff ev w) \<and> pool_inv p' \<and> borrowed p' = borrowed p
          \<and> same_lent (borrowed p) p p'"
    and inv_eff: "inv w \<Longrightarrow> event_ok ev \<Longrightarrow> inv (eff ev w)"

section \<open>One pass of the loop\<close>

text \<open>
  A pass leaves the frame in progress as it is, or completes one frame and calls back for it.
\<close>

definition frame_step ::
    "(PacketId \<Rightarrow> bool) \<Rightarrow> (RyuEvent \<Rightarrow> 'w \<Rightarrow> 'w) \<Rightarrow> bytes \<Rightarrow> 'w \<Rightarrow> bytes \<Rightarrow> 'w \<Rightarrow> bool" where
  "frame_step reg eff x w x' w' \<longleftrightarrow>
     x' = x \<and> w' = w \<or>
     (\<exists>hb p. x = hb @ p @ x' \<and> length hb = HeaderSize \<and> length p = hdr_len (get_LdnHeader hb)
        \<and> w' = fold eff (frame_events reg [(get_LdnHeader hb, p)]) w)"

definition kept :: "RyuLdnProtocol \<Rightarrow> BufferPool \<Rightarrow> RyuLdnProtocol \<Rightarrow> BufferPool \<Rightarrow> bool" where
  "kept s pool s' pool' \<longleftrightarrow>
     borrowed pool' - own s' = borrowed pool - own s
     \<and> same_lent (borrowed pool - own s) pool pool'"

lemma kept_refl: "kept s pool s pool"
  by (simp add: kept_def)

lemma kept_trans: "kept s p s' p' \<Longrightarrow> kept s' p' s'' p'' \<Longrightarrow> kept s p s'' p''"
  by (auto simp: kept_def intro: same_lent_trans)

lemma frame_step_frames:
  assumes "frame_step reg eff x w x' w'" and "stream_ok reg x"
  shows "stream_ok reg x'" and "snd (frames x') = snd (frames x)"
    and "fold eff (frame_events reg (fst (frames x'))) w' =
         fold eff (frame_events reg (fst (frames x))) w"
proof -
  have "stream_ok reg x' \<and> snd (frames x') = snd (frames x)
     \<and> fold eff (frame_events reg (fst (frames x'))) w' =
       fold eff (frame_events reg (fst (frames x))) w"
  proof (cases "x' = x \<and> w' = w")
    case True
    with assms(2) show ?thesis by simp
  next
    case False
    then obtain hb p where hb: "length hb = HeaderSize" "length p = hdr_len (get_LdnHeader hb)"
      and x: "x = hb @ p @ x'" and w: "w' = fold eff (frame_events reg [(get_LdnHeader hb, p)]) w"
      using assms(1) by (auto simp: frame_step_def)
    have "frame_events reg (fst (frames x))
        = frame_events reg [(get_LdnHeader hb, p)] @ frame_events reg (fst (frames x'))"
      using frame_events_simps(2) [of reg "[(get_LdnHeader hb, p)]" "fst (frames x')"]
      unfolding x frames_frame [OF hb] by simp
    then show ?thesis
      using frames_frame [OF hb, of x'] stream_ok_frame(2) [OF hb assms(2) [unfolded x]] w x
      by (simp only: fold_append comp_apply snd_conv)
  qed
  then show "stream_ok reg x'" and "snd (frames x') = snd (frames x)"
    and "fold eff (frame_events reg (fst (frames x'))) w' =
         fold eff (frame_events reg (fst (frames x))) w" by auto
qed

lemma Read_phase3_copy:
  assumes "rp_inPacket s" and "rp_currentBuffer s = Some b"
    and "get_LdnHeader (rp_headerBuffer s) = h" and "rp_bufferEnd s = e"
    and "min (sz - index) (sint (hdr_dataSize h) - int e) = int n"
    and "memcpy_from data (index + offset) (int n) = Inr src"
    and "memcpy_to (bp_storage pool ! b) e src = Inr buf"
  shows "Read_phase3 reg cb data offset sz (index, s, pool, w) =
     (if sint (hdr_dataSize h) \<le> int (e + n) then
        bind_run (call reg cb h (Some buf) (write_buffer b buf pool, w)) (\<lambda>(pool, w).
        Inr (Continue (index + int n,
               s\<lparr>rp_currentBuffer := None, rp_headerBytesReceived := 0, rp_bufferEnd := 0,
                 rp_inPacket := False\<rparr>,
               ReturnBuffer (Some b) pool, w)))
      else Inr (Continue (index + int n, s\<lparr>rp_bufferEnd := e + n\<rparr>, write_buffer b buf pool, w)))"
  using assms by (simp add: Read_phase3_def Let_def del: int_nat_eq)

lemma Read_phase1_copy:
  fixes data offset sz index
  defines "rem \<equiv> remaining data offset sz index"
  assumes "in_data data offset sz index" and "length hb = HeaderSize" and "c < HeaderSize"
    and "rp_headerBuffer s = hb" and "rp_headerBytesReceived s = c"
    and "n = min (length rem) (HeaderSize - c)"
    and "s' = s\<lparr>rp_headerBuffer := take c hb @ take n rem @ drop (c + n) hb,
               rp_headerBytesReceived := c + n\<rparr>"
  shows "Read_phase1 data offset sz (index, s, pool, w) =
     Inr ((if c + n < HeaderSize then Continue else Fall) (index + int n, s', pool, w))"
proof -
  have nl: "n \<le> length rem" "c + n \<le> HeaderSize" using assms by auto
  have cp: "min (sz - index) (int HeaderSize - int c) = int n"
    using length_remaining [OF assms(2)] assms by (auto simp: of_nat_diff)
  have "memcpy_from data (index + offset) (int n) = Inr (take n rem)"
    unfolding rem_def by (rule memcpy_from_remaining [OF assms(2)]) (use nl rem_def in simp)
  moreover have "memcpy_to hb c (take n rem) = Inr (take c hb @ take n rem @ drop (c + n) hb)"
    using nl assms(3) by (simp add: memcpy_to_def min_absorb2)
  ultimately show ?thesis using assms(4-6,8) cp
    by (simp add: Read_phase1_def Let_def del: int_nat_eq)
qed

lemma Read_phase2_valid:
  assumes "rp_headerBytesReceived s = HeaderSize" and "\<not> rp_inPacket s"
    and "get_LdnHeader (rp_headerBuffer s) = h" and "valid_header h"
  shows "Read_phase2 reg cb sz (index, s, pool, w) =
     (if hdr_len h = 0 then
        bind_run (call reg cb h None (pool, w)) (\<lambda>(pool, w).
        Inr (Continue (index, s\<lparr>rp_headerBytesReceived := 0\<rparr>, pool, w)))
      else
        case BorrowBuffer_try pool of
          (None, pool) \<Rightarrow>
            Inr (Continue (index + min (sz - index) (int (hdr_len h)),
                   s\<lparr>rp_currentBuffer := None, rp_headerBytesReceived := 0\<rparr>, pool, w))
        | (Some b, pool) \<Rightarrow>
            Inr (Fall (index,
                   s\<lparr>rp_currentBuffer := Some b, rp_inPacket := True, rp_bufferEnd := 0\<rparr>, pool, w)))"
  using assms sint_size [OF assms(4)]
  by (simp add: Read_phase2_def Let_def valid_header_def MaxPacketSize_def HeaderSize_def
      split: prod.split option.split)

lemma Read_body_phase3:
  assumes "rp_headerBytesReceived s = HeaderSize" and "rp_inPacket s"
  shows "Read_body reg cb data offset sz (index, s, pool, w) = then_phase (Inr (Fall (index, s, pool, w)))
           (Read_phase3 reg cb data offset sz)"
  using assms by (simp add: Read_body_def then_phase_def Read_phase1_def Read_phase2_def)

lemma then_phase_simps [simp]:
  "then_phase (Inr (Fall st)) f = f st" "then_phase (Inr (Continue st)) f = Inr (Continue st)"
  "then_phase (Inr (Return st)) f = Inr (Return st)" "then_phase (Inl e) f = Inl e"
  by (simp_all add: then_phase_def)

lemma room_for_callback:
  "prot_inv s pool \<Longrightarrow> free_for 2 s pool \<Longrightarrow> card (borrowed pool) < MaxBuffers"
proof -
  assume a: "prot_inv s pool" "free_for 2 s pool"
  have "finite (borrowed pool)" using a(1) by (simp add: borrowed_def)
  moreover have "card (own s) \<le> 1" by (cases "rp_currentBuffer s") (auto simp: own_def)
  ultimately have "card (borrowed pool) \<le> card (borrowed pool - own s) + 1"
    using diff_card_le_card_Diff [of "own s" "borrowed pool"]
    by (cases "rp_currentBuffer s") (auto simp: own_def)
  with a(2) show ?thesis by (simp add: free_for_def)
qed

lemma remaining_done: "sz \<le> index \<Longrightarrow> remaining data offset sz index = []"
  by (simp add: remaining_def)

lemma frames_pending: "prot_inv s pool \<Longrightarrow> frames (pending s pool) = ([], pending s pool)"
proof (cases "rp_currentBuffer s")
  case None
  moreover assume "prot_inv s pool"
  ultimately show ?thesis by (auto simp: prot_inv_def pending_def intro: frames_short)
next
  case (Some b)
  moreover assume "prot_inv s pool"
  ultimately show ?thesis
    by (auto simp: prot_inv_def pending_def get_LdnHeader_prefix intro!: frames_incomplete)
qed

context packet_handler
begin

lemma call_frame:
  assumes "frame_ok reg (h, p)" and "length p = hdr_len h"
    and "data = (if p = [] then None else Some (p @ r))"
    and "pool_inv pool" and "card (borrowed pool) < MaxBuffers" and "inv w"
  shows "\<exists>pool' w'. call reg cb h data (pool, w) = Inr (pool', w')
           \<and> w' = fold eff (frame_events reg [(h, p)]) w \<and> inv w' \<and> pool_inv pool'
           \<and> borrowed pool' = borrowed pool \<and> same_lent (borrowed pool) pool pool'"
proof -
  obtain ev where ev: "DecodeAndHandle reg h (if p = [] then None else Some p) = Inr ev"
    using assms(1)
    by (cases "DecodeAndHandle reg h (if p = [] then None else Some p)")
       (simp_all add: frame_ok_def frame_event_def)
  then have d: "DecodeAndHandle reg h data = Inr ev"
    using assms(2,3) by (cases "p = []") (auto dest: DecodeAndHandle_append)
  have evs: "frame_events reg [(h, p)] = (case ev of None \<Rightarrow> [] | Some e \<Rightarrow> [e])"
    using ev by (subst frame_events_Cons [of _ _ ev]) (simp_all add: frame_event_def)
  show ?thesis
  proof (cases ev)
    case None
    with d evs assms(4,6) show ?thesis by (simp add: call_def)
  next
    case (Some e)
    then obtain t where "Handle t h (if p = [] then None else Some p) = Inr e"
      using ev by (auto simp: DecodeAndHandle_def bind_run_Inr_iff split: option.splits if_splits)
    then have e: "event_ok e"
      using Handle_event_ok assms(1,2) by (auto simp: frame_ok_def)
    from handle [OF assms(4-6) e] inv_eff [OF assms(6) e] d evs Some show ?thesis
      by (auto simp: call_def)
  qed
qed

lemma Read_phase3_frame:
  fixes data offset sz index
  defines "rem \<equiv> remaining data offset sz index"
  assumes inv: "prot_inv s pool" and b: "rp_currentBuffer s = Some b"
    and inp: "in_data data offset sz index" and ok: "stream_ok reg (pending s pool @ rem)"
    and room: "card (borrowed pool) < MaxBuffers" and w: "inv w"
  shows "\<exists>n s' pool' w'.
           Read_phase3 reg cb data offset sz (index, s, pool, w)
             = Inr (Continue (index + int n, s', pool', w'))
           \<and> n = min (length rem) (hdr_len (get_LdnHeader (rp_headerBuffer s)) - rp_bufferEnd s)
           \<and> prot_inv s' pool' \<and> kept s pool s' pool' \<and> inv w'
           \<and> frame_step reg eff (pending s pool @ rem) w (pending s' pool' @ drop n rem) w'"
proof -
  define hb e where "hb = rp_headerBuffer s" and "e = rp_bufferEnd s"
  define h where "h = get_LdnHeader hb"
  define n where "n = min (length rem) (hdr_len h - e)"
  define buf where "buf = bp_storage pool ! b"
  define buf' where "buf' = take e buf @ take n rem @ drop (e + n) buf"
  note defs = hb_def e_def h_def
  from inv b have p: "pool_inv pool" "length hb = HeaderSize" "rp_inPacket s" "b \<in> borrowed pool"
    "valid_header h" "e < hdr_len h" "rp_headerBytesReceived s = HeaderSize"
    by (auto simp: prot_inv_def defs)
  have bl: "length buf = BufferSize" "b < length (bp_storage pool)"
    using p(1,4) by (auto simp: buf_def pool_inv_def storage_ok_def borrowed_def busy_slots_def)
  have nl: "n \<le> length rem" "e + n \<le> length buf" "e + n \<le> hdr_len h"
    using p(5,6) bl by (auto simp: n_def valid_header_def BufferSize_def)
  have fs: "sint (hdr_dataSize h) = int (hdr_len h)" using p(5) by (rule sint_size)
  have cp: "min (sz - index) (int (hdr_len h) - int e) = int n"
    using length_remaining [OF inp] p(6) by (auto simp: n_def rem_def of_nat_diff)
  have src: "memcpy_from data (index + offset) (int n) = Inr (take n rem)"
    unfolding rem_def by (rule memcpy_from_remaining [OF inp]) (use nl rem_def in simp)
  have dst: "memcpy_to buf e (take n rem) = Inr buf'"
    using nl by (simp add: memcpy_to_def buf'_def min_absorb2)
  note copy = Read_phase3_copy [OF p(3) b h_def [symmetric, unfolded hb_def] e_def [symmetric]
      cp [folded fs] src dst [unfolded buf_def], unfolded fs]
  have l': "length buf' = BufferSize" using nl bl by (simp add: buf'_def)
  have pend: "pending s pool = hb @ take e buf" by (simp add: pending_def b defs buf_def)
  have wr: "pool_inv (write_buffer b buf' pool)" using p(1) l' by (rule pool_inv_write)
  have lent: "same_lent (borrowed pool - own s) pool (write_buffer b buf' pool)"
    by (rule same_lent_write) (simp add: own_def b)
  show ?thesis
  proof (cases "e + n < hdr_len h")
    case True
    define s' where "s' = s\<lparr>rp_bufferEnd := e + n\<rparr>"
    have r: "Read_phase3 reg cb data offset sz (index, s, pool, w)
        = Inr (Continue (index + int n, s', write_buffer b buf' pool, w))"
      using True by (simp add: copy s'_def)
    have "n = length rem" using True p(6) by (simp add: n_def)
    moreover have "pending s' (write_buffer b buf' pool) = pending s pool @ take n rem"
      using bl nl by (simp add: pending_def s'_def b write_buffer_def buf'_def defs flip: buf_def)
    moreover have "prot_inv s' (write_buffer b buf' pool)"
      using inv wr True by (simp add: prot_inv_def s'_def b defs)
    moreover have "kept s pool s' (write_buffer b buf' pool)"
      using lent by (simp add: kept_def s'_def own_def)
    ultimately show ?thesis
      using r w by (auto simp: frame_step_def n_def simp flip: defs)
  next
    case False
    define s' where "s' = s\<lparr>rp_currentBuffer := None, rp_headerBytesReceived := 0,
      rp_bufferEnd := 0, rp_inPacket := False\<rparr>"
    have n: "e + n = hdr_len h" using False nl by simp
    define pay where "pay = take e buf @ take n rem"
    have pl: "length pay = hdr_len h" "pay \<noteq> []" using n nl bl p(6) by (auto simp: pay_def)
    have x: "pending s pool @ rem = hb @ pay @ drop n rem" by (simp add: pend pay_def)
    have fo: "frame_ok reg (h, pay)"
      using stream_ok_frame(1) [of hb pay reg "drop n rem"] ok x p(2) pl h_def by simp
    have "card (borrowed (write_buffer b buf' pool)) < MaxBuffers" using room by simp
    from call_frame [OF fo pl(1) refl wr this w, of "drop (e + n) buf"] obtain pool' w' where
      c: "call reg cb h (Some (pay @ drop (e + n) buf)) (write_buffer b buf' pool, w) = Inr (pool', w')"
        "w' = fold eff (frame_events reg [(h, pay)]) w" "inv w'" "pool_inv pool'"
        "borrowed pool' = borrowed pool" "same_lent (borrowed pool) (write_buffer b buf' pool) pool'"
      using pl(2) by auto
    have r: "Read_phase3 reg cb data offset sz (index, s, pool, w)
        = Inr (Continue (index + int n, s', ReturnBuffer (Some b) pool', w'))"
      using c(1) n by (simp add: copy s'_def pay_def buf'_def)
    have "prot_inv s' (ReturnBuffer (Some b) pool')"
      using c(4) p(2) by (simp add: prot_inv_def s'_def pool_inv_return defs HeaderSize_def)
    moreover have "kept s pool s' (ReturnBuffer (Some b) pool')"
      using c(4-6) lent same_lent_trans [OF lent same_lent_mono [OF c(6)]]
      by (auto simp: kept_def s'_def own_def b borrowed_return intro: same_lent_return)
    moreover have "pending s' (ReturnBuffer (Some b) pool') = []"
      by (simp add: pending_def s'_def)
    moreover have "frame_step reg eff (pending s pool @ rem) w (drop n rem) w'"
      unfolding frame_step_def x
      by (rule disjI2, rule exI [of _ hb], rule exI [of _ pay]) (use p(2) pl c(2) h_def in simp)
    ultimately show ?thesis using r c(3) by (auto simp: n_def simp flip: defs)
  qed
qed

text \<open>The three ways a pass goes when no packet is in progress.\<close>

lemma Read_body_header:
  fixes data offset sz index
  defines "rem \<equiv> remaining data offset sz index"
  assumes inv: "prot_inv s pool" and none: "rp_currentBuffer s = None"
    and inp: "in_data data offset sz index" and more: "index < sz"
    and ok: "stream_ok reg (pending s pool @ rem)"
    and room: "free_for 2 s pool" and w: "inv w"
  shows "\<exists>n s' pool' w'.
           Read_body reg cb data offset sz (index, s, pool, w)
             = Inr (Continue (index + int n, s', pool', w'))
           \<and> 0 < n \<and> n \<le> length rem
           \<and> prot_inv s' pool' \<and> kept s pool s' pool' \<and> inv w'
           \<and> frame_step reg eff (pending s pool @ rem) w (pending s' pool' @ drop n rem) w'"
proof -
  define hb c where "hb = rp_headerBuffer s" and "c = rp_headerBytesReceived s"
  define n where "n = min (length rem) (HeaderSize - c)"
  define hb' where "hb' = take c hb @ take n rem @ drop (c + n) hb"
  define s1 where "s1 = s\<lparr>rp_headerBuffer := hb', rp_headerBytesReceived := c + n\<rparr>"
  from inv none have p: "pool_inv pool" "length hb = HeaderSize" "\<not> rp_inPacket s" "c < HeaderSize"
    "rp_bufferEnd s = 0" by (auto simp: prot_inv_def hb_def c_def)
  have rem: "rem \<noteq> []" using length_remaining [OF inp] more by (auto simp: rem_def)
  then have n: "0 < n" "n \<le> length rem" "c + n \<le> HeaderSize" using p(4) by (auto simp: n_def)
  have l': "length hb' = HeaderSize" using n p(2) by (simp add: hb'_def)
  have pend: "pending s pool = take c hb" by (simp add: pending_def none hb_def c_def)
  have ph1: "Read_phase1 data offset sz (index, s, pool, w) =
     Inr ((if c + n < HeaderSize then Continue else Fall) (index + int n, s1, pool, w))"
    by (rule Read_phase1_copy [OF inp p(2,4)])
       (simp_all add: hb_def c_def n_def rem_def s1_def hb'_def)
  have cardb: "card (borrowed pool) < MaxBuffers" using inv room by (rule room_for_callback)
  show ?thesis
  proof (cases "c + n < HeaderSize")
    case True
    have "n = length rem" using True by (simp add: n_def)
    moreover have "Read_body reg cb data offset sz (index, s, pool, w)
        = Inr (Continue (index + int n, s1, pool, w))"
      using True by (simp add: Read_body_def ph1)
    moreover have "pending s1 pool = take c hb @ rem"
      using \<open>n = length rem\<close> n p(2) by (simp add: pending_def s1_def none hb'_def)
    moreover have "prot_inv s1 pool" using inv none True l' by (simp add: prot_inv_def s1_def)
    moreover have "kept s pool s1 pool" by (simp add: kept_def own_def s1_def)
    ultimately show ?thesis using n w pend by (auto simp: frame_step_def)
  next
    case False
    then have full: "c + n = HeaderSize" using n by simp
    then have hbs: "pending s pool @ rem = hb' @ drop n rem"
      using p(2) pend by (simp add: hb'_def)
    define h where "h = get_LdnHeader hb'"
    have vh: "valid_header h"
      using stream_ok_header [of "hb' @ drop n rem" reg] ok hbs l'
      by (simp add: h_def get_LdnHeader_prefix)
    have body: "Read_body reg cb data offset sz (index, s, pool, w)
        = then_phase (Read_phase2 reg cb sz (index + int n, s1, pool, w))
            (Read_phase3 reg cb data offset sz)"
      using False by (simp add: Read_body_def ph1)
    have s1: "rp_headerBytesReceived s1 = HeaderSize" "\<not> rp_inPacket s1"
      "get_LdnHeader (rp_headerBuffer s1) = h" "rp_headerBuffer s1 = hb'"
      using full p(3) by (simp_all add: s1_def h_def)
    note ph2 = Read_phase2_valid [OF s1(1-3) vh]
    show ?thesis
    proof (cases "hdr_len h = 0")
      case True
      have fo: "frame_ok reg (h, [])"
        using stream_ok_frame(1) [of hb' "[]" reg "drop n rem"] ok hbs l' True h_def by simp
      from call_frame [OF fo _ refl p(1) cardb w] True obtain pool' w' where
        c: "call reg cb h None (pool, w) = Inr (pool', w')"
          "w' = fold eff (frame_events reg [(h, [])]) w" "inv w'" "pool_inv pool'"
          "borrowed pool' = borrowed pool" "same_lent (borrowed pool) pool pool'" by auto
      define s2 where "s2 = s1\<lparr>rp_headerBytesReceived := 0\<rparr>"
      have "Read_body reg cb data offset sz (index, s, pool, w)
          = Inr (Continue (index + int n, s2, pool', w'))"
        using True c(1) by (simp add: body ph2 s2_def)
      moreover have "prot_inv s2 pool'"
        using inv none l' c(4) by (simp add: prot_inv_def s2_def s1_def HeaderSize_def)
      moreover have "kept s pool s2 pool'"
        using c(5,6) by (auto simp: kept_def own_def s2_def s1_def none)
      moreover have "pending s2 pool' = []" by (simp add: pending_def s2_def s1_def none)
      moreover have "frame_step reg eff (pending s pool @ rem) w (drop n rem) w'"
        unfolding frame_step_def hbs
        by (rule disjI2, rule exI [of _ hb'], rule exI [of _ "[]"]) (use l' True c(2) h_def in simp)
      ultimately show ?thesis using n c(3) by auto
    next
      case False
      obtain b pool1 where b: "BorrowBuffer_try pool = (Some b, pool1)"
        using bpool.borrow_succeeds [OF p(1) cardb] by blast
      note bb = borrow_Some [OF p(1) b]
      define s2 where "s2 = s1\<lparr>rp_currentBuffer := Some b, rp_inPacket := True, rp_bufferEnd := 0\<rparr>"
      define i2 where "i2 = index + int n"
      have nr: "n \<le> length (remaining data offset sz index)" using n rem_def by simp
      have i2: "in_data data offset sz i2" "remaining data offset sz i2 = drop n rem"
        using remaining_advance [OF inp nr] by (simp_all add: i2_def rem_def)
      have inv2: "prot_inv s2 pool1"
        using pool_inv_borrow [OF p(1)] b bb(4) l' s1 vh False
        by (simp add: prot_inv_def s2_def)
      have pend2: "pending s2 pool1 = hb'" by (simp add: pending_def s2_def s1(4))
      have kept2: "kept s pool s2 pool1"
        using bb(3-5) by (auto simp: kept_def own_def s2_def none same_lent_def)
      have card1: "card (borrowed pool1) < MaxBuffers"
        using bb(3,4) room by (simp add: free_for_def own_def none borrowed_def)
      have cur2: "rp_currentBuffer s2 = Some b" by (simp add: s2_def)
      have "stream_ok reg (pending s2 pool1 @ remaining data offset sz i2)"
        using ok hbs i2(2) pend2 by simp
      from Read_phase3_frame [OF inv2 cur2 i2(1) this card1 w] obtain m s' pool' w' where
        r: "Read_phase3 reg cb data offset sz (i2, s2, pool1, w)
              = Inr (Continue (i2 + int m, s', pool', w'))"
          "m \<le> length (drop n rem)" "prot_inv s' pool'" "kept s2 pool1 s' pool'" "inv w'"
          "frame_step reg eff (hb' @ drop n rem) w (pending s' pool' @ drop m (drop n rem)) w'"
        unfolding i2(2) pend2 by auto
      have "Read_body reg cb data offset sz (index, s, pool, w)
          = Inr (Continue (index + int (n + m), s', pool', w'))"
        using False b r(1) by (simp add: body ph2 s2_def i2_def add.assoc)
      moreover have "n + m \<le> length rem" using r(2) n by simp
      ultimately show ?thesis
        using r(3,5,6) kept_trans [OF kept2 r(4)] n(1) hbs
        by (intro exI [of _ "n + m"] exI [of _ s'] exI [of _ pool'] exI [of _ w'])
           (simp add: add.commute [of m n])
    qed
  qed
qed

lemma Read_body_frame:
  fixes data offset sz index
  defines "rem \<equiv> remaining data offset sz index"
  assumes inv: "prot_inv s pool"
    and inp: "in_data data offset sz index" and more: "index < sz"
    and ok: "stream_ok reg (pending s pool @ rem)"
    and room: "free_for 2 s pool" and w: "inv w"
  shows "\<exists>n s' pool' w'.
           Read_body reg cb data offset sz (index, s, pool, w)
             = Inr (Continue (index + int n, s', pool', w'))
           \<and> 0 < n \<and> n \<le> length rem
           \<and> prot_inv s' pool' \<and> kept s pool s' pool' \<and> inv w'
           \<and> frame_step reg eff (pending s pool @ rem) w (pending s' pool' @ drop n rem) w'"
proof (cases "rp_currentBuffer s")
  case None
  then show ?thesis
    using Read_body_header [OF inv None inp more ok [unfolded rem_def] room w]
    unfolding rem_def by simp
next
  case (Some b)
  have "rem \<noteq> []" using length_remaining [OF inp] more by (auto simp: rem_def)
  moreover have "rp_bufferEnd s < hdr_len (get_LdnHeader (rp_headerBuffer s))"
    and "rp_headerBytesReceived s = HeaderSize" "rp_inPacket s"
    using inv Some by (auto simp: prot_inv_def)
  ultimately show ?thesis
    using Read_phase3_frame [OF inv Some inp ok [unfolded rem_def] room_for_callback [OF inv room] w]
    by (simp add: Read_body_phase3 flip: rem_def) (metis min.cobounded1 min_less_iff_conj
        length_greater_0_conv zero_less_diff)
qed

lemma Read_loop_frames:
  "prot_inv s pool \<Longrightarrow> in_data data offset sz index \<Longrightarrow> sz - index \<le> int fuel \<Longrightarrow>
   x = pending s pool @ remaining data offset sz index \<Longrightarrow> stream_ok reg x \<Longrightarrow>
   free_for 2 s pool \<Longrightarrow> inv w \<Longrightarrow>
   \<exists>s' pool' w'. Read_loop fuel reg cb data offset sz (index, s, pool, w) = Inr (s', pool', w')
     \<and> w' = fold eff (frame_events reg (fst (frames x))) w
     \<and> prot_inv s' pool' \<and> pending s' pool' = snd (frames x) \<and> kept s pool s' pool' \<and> inv w'"
proof (induction fuel arbitrary: index s pool w x)
  case (0 index s pool w x)
  then show ?case
    by (simp add: Read_loop.simps kept_refl remaining_done frames_pending)
next
  case (Suc fuel index s pool w x)
  show ?case
  proof (cases "index < sz")
    case False
    with Suc.prems show ?thesis
      by (simp add: Read_loop.simps kept_refl remaining_done frames_pending)
  next
    case True
    note pre = Suc.prems
    obtain n s' pool' w' where
      r: "Read_body reg cb data offset sz (index, s, pool, w)
            = Inr (Continue (index + int n, s', pool', w'))"
        "0 < n" "n \<le> length (remaining data offset sz index)"
        "prot_inv s' pool'" "kept s pool s' pool'" "inv w'"
        "frame_step reg eff x w (pending s' pool' @ drop n (remaining data offset sz index)) w'"
      using Read_body_frame [OF pre(1,2) True pre(5) [unfolded pre(4)] pre(6,7)] pre(4) by blast
    note adv = remaining_advance [OF pre(2) r(3)]
    note st = frame_step_frames [OF r(7) [folded adv(2)] pre(5)]
    have "sz - (index + int n) \<le> int fuel" using pre(3) r(2) by simp
    moreover have "free_for 2 s' pool'" using pre(6) r(5) by (simp add: free_for_def kept_def)
    ultimately obtain s'' pool'' w'' where
      l: "Read_loop fuel reg cb data offset sz (index + int n, s', pool', w') = Inr (s'', pool'', w'')"
        "w'' = fold eff (frame_events reg (fst (frames x))) w"
        "prot_inv s'' pool''" "pending s'' pool'' = snd (frames x)" "kept s' pool' s'' pool''" "inv w''"
      using Suc.IH [OF r(4) adv(1) _ refl st(1) _ r(6)] st(2,3) by auto
    with True r(1) kept_trans [OF r(5) l(5)] show ?thesis
      by (auto simp: Read_loop.simps [of "Suc fuel"])
  qed
qed

text \<open>
  The refinement: \<open>Read\<close> consumes the whole piece, delivers the frames that are now complete and
  holds the rest, whatever it held before.
\<close>

lemma Read_frames:
  assumes "prot_inv s pool" and "0 \<le> offset" and "0 \<le> sz" and "offset + sz \<le> int (length data)"
    and "stream_ok reg (pending s pool @ take (nat sz) (drop (nat offset) data))"
    and "free_for 2 s pool" and "inv w"
    and "frames (pending s pool @ take (nat sz) (drop (nat offset) data)) = (fs, rest)"
  shows "\<exists>s' pool'. Read reg cb data offset sz (s, pool, w)
             = Inr (s', pool', fold eff (frame_events reg fs) w)
           \<and> prot_inv s' pool' \<and> pending s' pool' = rest \<and> kept s pool s' pool'
           \<and> inv (fold eff (frame_events reg fs) w)"
proof -
  have "in_data data offset sz 0" using assms(2-4) by (simp add: in_data_def)
  moreover have "remaining data offset sz 0 = take (nat sz) (drop (nat offset) data)"
    by (simp add: remaining_def)
  ultimately show ?thesis
    using Read_loop_frames [OF assms(1) _ _ refl _ assms(6,7), where fuel = "nat sz" and index = 0
        and data = data and offset = offset and sz = sz and reg = reg] assms(3,5,8)
    by (auto simp: Read_def)
qed

end

section \<open>A stream in pieces\<close>

text \<open>A receive loop: every piece is read from the start of the receive buffer.\<close>

fun Read_all ::
    "(PacketId \<Rightarrow> bool) \<Rightarrow> 'w callbacks \<Rightarrow> bytes list \<Rightarrow> RyuLdnProtocol \<times> BufferPool \<times> 'w
       \<Rightarrow> (RyuLdnProtocol \<times> BufferPool \<times> 'w) run" where
  "Read_all reg cb [] st = Inr st"
| "Read_all reg cb (piece # pieces) st =
     bind_run (Read reg cb piece 0 (int (length piece)) st) (Read_all reg cb pieces)"

lemma frames_append:
  "frames (xs @ ys) =
     (fst (frames xs) @ fst (frames (snd (frames xs) @ ys)), snd (frames (snd (frames xs) @ ys)))"
proof (induction xs rule: frames.induct)
  case (1 bs)
  show ?case
  proof (cases "length bs < HeaderSize \<or> length bs < HeaderSize + hdr_len (get_LdnHeader bs)")
    case True
    then have "frames bs = ([], bs)" using frames_short frames_incomplete by blast
    then show ?thesis by simp
  next
    case False
    define hb p x where "hb = take HeaderSize bs"
      and "p = take (hdr_len (get_LdnHeader bs)) (drop HeaderSize bs)"
      and "x = drop (HeaderSize + hdr_len (get_LdnHeader bs)) bs"
    have bs: "bs = hb @ p @ x" unfolding hb_def p_def x_def
      by (metis add.commute append_take_drop_id drop_drop)
    have hb: "length hb = HeaderSize" using False by (simp add: hb_def)
    have "get_LdnHeader bs = get_LdnHeader hb"
      using get_LdnHeader_prefix [OF hb, of "p @ x"] by (simp only: bs)
    then have p: "length p = hdr_len (get_LdnHeader hb)" using False by (auto simp: p_def)
    have "frames (x @ ys) =
      (fst (frames x) @ fst (frames (snd (frames x) @ ys)), snd (frames (snd (frames x) @ ys)))"
      using "1.IH" [OF refl refl] False by (simp add: x_def)
    then show ?thesis
      using frames_frame [OF hb p, of x] frames_frame [OF hb p, of "x @ ys"] by (simp add: bs)
  qed
qed

lemma stream_ok_append:
  assumes "stream_ok reg (xs @ ys)"
  shows "stream_ok reg xs" and "stream_ok reg (snd (frames xs) @ ys)"
proof -
  let ?r = "snd (frames xs)"
  show r: "stream_ok reg (?r @ ys)"
    using assms frames_append [of xs ys] by (simp add: stream_ok_def)
  have "valid_header (get_LdnHeader ?r)" if "HeaderSize \<le> length ?r"
    using stream_ok_header [OF _ r] that LdnHeader_wire.get_append [of ?r ys]
    by (simp add: HeaderSize_def)
  then show "stream_ok reg xs"
    using assms frames_append [of xs ys] by (simp add: stream_ok_def)
qed

context packet_handler
begin

lemma Read_all_frames:
  "prot_inv s pool \<Longrightarrow> stream_ok reg (pending s pool @ concat pieces) \<Longrightarrow> free_for 2 s pool \<Longrightarrow>
   inv w \<Longrightarrow> frames (pending s pool @ concat pieces) = (fs, rest) \<Longrightarrow>
   \<exists>s' pool'. Read_all reg cb pieces (s, pool, w)
        = Inr (s', pool', fold eff (frame_events reg fs) w)
      \<and> prot_inv s' pool' \<and> pending s' pool' = rest \<and> kept s pool s' pool'"
proof (induction pieces arbitrary: s pool w fs)
  case Nil
  then show ?case by (simp add: frames_pending kept_refl)
next
  case (Cons piece pieces)
  obtain fs1 r1 where f1: "frames (pending s pool @ piece) = (fs1, r1)"
    by (cases "frames (pending s pool @ piece)")
  have app: "frames (pending s pool @ concat (piece # pieces))
      = (fs1 @ fst (frames (r1 @ concat pieces)), snd (frames (r1 @ concat pieces)))"
    using frames_append [of "pending s pool @ piece" "concat pieces"] f1 by simp
  have ok: "stream_ok reg (pending s pool @ piece)" "stream_ok reg (r1 @ concat pieces)"
    using stream_ok_append [of reg "pending s pool @ piece" "concat pieces"] Cons.prems(2) f1
    by simp_all
  obtain s1 pool1 where r: "Read reg cb piece 0 (int (length piece)) (s, pool, w)
        = Inr (s1, pool1, fold eff (frame_events reg fs1) w)"
      "prot_inv s1 pool1" "pending s1 pool1 = r1" "kept s pool s1 pool1"
      "inv (fold eff (frame_events reg fs1) w)"
    using Read_frames [OF Cons.prems(1), of 0 "int (length piece)" piece reg w fs1 r1]
      ok(1) f1 Cons.prems(3,4) by auto
  have "free_for 2 s1 pool1" using Cons.prems(3) r(4) by (simp add: free_for_def kept_def)
  with Cons.IH [OF r(2), of "fold eff (frame_events reg fs1) w" "fst (frames (r1 @ concat pieces))"]
    app ok(2) r Cons.prems(5) show ?case
    using kept_trans [OF r(4)] by auto
qed

end

section \<open>Encoding produces frames\<close>

definition packet_header :: "PacketId \<Rightarrow> nat \<Rightarrow> LdnHeader" where
  "packet_header type n =
     \<lparr>hdr_magic = RyuLdnMagic, hdr_type = PacketId_code type, hdr_version = ProtocolVersion,
      hdr_dataSize = of_nat n\<rparr>"

definition packet :: "PacketId \<Rightarrow> bytes \<Rightarrow> bytes" where
  "packet type payload = put_LdnHeader (packet_header type (length payload)) @ payload"

lemma length_put_LdnHeader [simp]: "length (put_LdnHeader h) = HeaderSize"
  using LdnHeader_wire.length_put_wf [of h] by (simp add: wf_LdnHeader_def HeaderSize_def)

lemma get_put_LdnHeader [simp]: "get_LdnHeader (put_LdnHeader h) = h"
  by (rule LdnHeader_wire.get_put_end_wf) (simp add: wf_LdnHeader_def)

lemma length_packet [simp]: "length (packet type payload) = HeaderSize + length payload"
  by (simp add: packet_def)

lemma memcpy_two:
  "bind_run (memcpy_to out 0 a) (\<lambda>out. bind_run (memcpy_to out (length a) b) f) =
     bind_run (memcpy_to out 0 (a @ b)) f"
  by (simp add: memcpy_to_def add.commute)

definition encoded :: "PacketId \<Rightarrow> bytes \<Rightarrow> bytes \<Rightarrow> (nat \<times> bytes) run" where
  "encoded type payload out =
     (if HeaderSize + length payload \<le> length out
      then Inr (HeaderSize + length payload,
                packet type payload @ drop (HeaderSize + length payload) out)
      else Inl BufferOverrun)"

lemma memcpy_packet:
  "bind_run (memcpy_to out 0 (packet type p)) (\<lambda>out. Inr (HeaderSize + length p, out))
     = encoded type p out"
  by (simp add: encoded_def memcpy_to_def)

lemma Encode_struct_packet: "Encode_struct type pk out = encoded type pk out"
  using memcpy_two [of out "put_LdnHeader (packet_header type (length pk))" pk
      "\<lambda>out. Inr (HeaderSize + length pk, out)"]
    memcpy_packet [of out type pk]
  by (simp add: Encode_struct_def packet_def packet_header_def)

lemma Encode_extra_packet: "Encode_extra type pk extra out = encoded type (pk @ extra) out"
proof -
  let ?h = "put_LdnHeader (packet_header type (length pk + length extra))"
  have "Encode_extra type pk extra out =
      bind_run (memcpy_to out 0 ?h) (\<lambda>out. bind_run (memcpy_to out (length ?h) pk) (\<lambda>out.
      bind_run (memcpy_to out (length (?h @ pk)) extra) (\<lambda>out.
      Inr (HeaderSize + length (pk @ extra), out))))"
    by (simp add: Encode_extra_def packet_header_def add.assoc)
  also have "\<dots> = bind_run (memcpy_to out 0 (packet type (pk @ extra)))
      (\<lambda>out. Inr (HeaderSize + length (pk @ extra), out))"
    unfolding memcpy_two by (simp add: packet_def)
  finally show ?thesis by (simp only: memcpy_packet)
qed

lemma Encode_data_packet: "Encode_data type d out = encoded type d out"
  using memcpy_two [of out "put_LdnHeader (packet_header type (length d))" d
      "\<lambda>out. Inr (HeaderSize + length d, out)"]
    memcpy_packet [of out type d]
  by (simp add: Encode_data_def EncodeHeader_def packet_def packet_header_def)

lemma Encode_packet: "Encode type out = encoded type [] out"
  using memcpy_packet [of out type "[]"]
  by (simp add: Encode_def EncodeHeader_def packet_def packet_header_def)

lemmas Encode_packets = Encode_packet Encode_data_packet Encode_struct_packet Encode_extra_packet

lemma hdr_len_packet: "n < 4294967296 \<Longrightarrow> hdr_len (packet_header type n) = n"
  by (simp add: hdr_len_def packet_header_def unat_of_nat)

lemma valid_packet_header: "n < MaxPacketSize - HeaderSize \<Longrightarrow> valid_header (packet_header type n)"
  by (simp add: valid_header_def hdr_len_packet MaxPacketSize_def HeaderSize_def)
     (simp add: packet_header_def)

lemma frames_packet:
  "length p < 4294967296 \<Longrightarrow>
   frames (packet type p @ x) =
     ((packet_header type (length p), p) # fst (frames x), snd (frames x))"
  using frames_frame [of "put_LdnHeader (packet_header type (length p))" p x]
  by (simp add: packet_def hdr_len_packet)

lemma frames_packets:
  "\<forall>(t, p) \<in> set ps. length p < 4294967296 \<Longrightarrow>
   frames (concat (map (\<lambda>(t, p). packet t p) ps)) = (map (\<lambda>(t, p). (packet_header t (length p), p)) ps, [])"
  by (induction ps) (auto simp: frames_packet frames_short HeaderSize_def)

section \<open>Properties\<close>

text \<open>
  C36: the four \<open>Encode\<close> functions write the same thing, a packet of the wire format: header and
  payload, at the start of the output, the rest of which stays; they return its size, and overrun
  the output exactly when it is shorter than that.
\<close>

theorem Encode_writes_packet:
  "Encode type out = encoded type [] out \<and> Encode_data type d out = encoded type d out
   \<and> Encode_struct type pk out = encoded type pk out
   \<and> Encode_extra type pk extra out = encoded type (pk @ extra) out"
  by (intro conjI Encode_packets)

lemma stream_ok_packets:
  assumes "\<forall>(t, p) \<in> set ps. length p < MaxPacketSize - HeaderSize
             \<and> \<not> isl (frame_event reg (packet_header t (length p), p))"
  shows "stream_ok reg (concat (map (\<lambda>(t, p). packet t p) ps))"
proof -
  have "\<forall>(t, p) \<in> set ps. length p < 4294967296"
    using assms by (fastforce simp: MaxPacketSize_def HeaderSize_def)
  from frames_packets [OF this] assms show ?thesis
    by (auto simp: stream_ok_def list_all_iff frame_ok_def valid_packet_header HeaderSize_def)
qed

text \<open>
  C5: encoding and \<open>Read\<close> are inverse, in any pieces. A sequence of packets, each with the payload
  its type needs, is cut into arbitrary pieces and handed to a new protocol object piece by piece,
  with callbacks that meet their contract and two buffers free. The loop always returns without a
  fault; the callbacks have seen the packets in order, each once; no byte is left over, no buffer is
  kept, and the buffers of other owners are untouched.
\<close>

theorem Read_any_pieces:
  assumes "packet_handler cb eff winv" and "pool_inv pool" and "card (borrowed pool) + 2 \<le> MaxBuffers"
    and "winv w"
    and "\<forall>(t, p) \<in> set ps. length p < MaxPacketSize - HeaderSize
           \<and> \<not> isl (frame_event reg (packet_header t (length p), p))"
    and "concat pieces = concat (map (\<lambda>(t, p). packet t p) ps)"
  shows "\<exists>s' pool'.
     Read_all reg cb pieces (RyuLdnProtocol_new, pool, w) =
       Inr (s', pool',
            fold eff (frame_events reg (map (\<lambda>(t, p). (packet_header t (length p), p)) ps)) w)
     \<and> pool_inv pool' \<and> pending s' pool' = [] \<and> rp_currentBuffer s' = None
     \<and> borrowed pool' = borrowed pool
     \<and> (\<forall>b \<in> borrowed pool. bp_storage pool' ! b = bp_storage pool ! b)"
proof -
  let ?fs = "map (\<lambda>(t, p). (packet_header t (length p), p)) ps"
  have "\<forall>(t, p) \<in> set ps. length p < 4294967296"
    using assms(5) by (fastforce simp: MaxPacketSize_def HeaderSize_def)
  then have fr: "frames (concat pieces) = (?fs, [])" using assms(6) by (simp add: frames_packets)
  have own: "own RyuLdnProtocol_new = {}" by (simp add: own_def RyuLdnProtocol_new_def)
  obtain s' pool' where r: "Read_all reg cb pieces (RyuLdnProtocol_new, pool, w) =
        Inr (s', pool', fold eff (frame_events reg ?fs) w)"
      "prot_inv s' pool'" "pending s' pool' = []" "kept RyuLdnProtocol_new pool s' pool'"
    using packet_handler.Read_all_frames [OF assms(1) prot_inv_new [OF assms(2)], of reg pieces w ?fs "[]"]
      stream_ok_packets [OF assms(5)] assms(3,4,6) fr own
    by (auto simp: free_for_def)
  have "rp_currentBuffer s' = None"
    using r(2,3) by (auto simp: prot_inv_def pending_def HeaderSize_def split: option.splits)
  moreover from this have "own s' = {}" by (simp add: own_def)
  ultimately show ?thesis
    using r own by (auto simp: prot_inv_def kept_def same_lent_def)
qed

lemma recording_handler:
  "packet_handler (\<lambda>ev (p, w). Inr (p, w @ [ev])) (\<lambda>ev w. w @ [ev]) (\<lambda>_. True)"
  by unfold_locales auto

theorem Read_any_pieces_witness:
  "let pool = BufferPool_new (replicate 3 (replicate BufferSize 0));
       ps = [(PacketId_ScanReplyEnd, []), (PacketId_Ping, [1, 7])];
       pieces = [take 15 (concat (map (\<lambda>(t, p). packet t p) ps)),
                 drop 15 (concat (map (\<lambda>(t, p). packet t p) ps))] in
   \<exists>s' pool'.
     Read_all (\<lambda>_. True) (\<lambda>ev (p, w). Inr (p, w @ [ev])) pieces (RyuLdnProtocol_new, pool, []) =
       Inr (s', pool', fold (\<lambda>ev w. w @ [ev])
              (frame_events (\<lambda>_. True) (map (\<lambda>(t, p). (packet_header t (length p), p)) ps)) [])
     \<and> pool_inv pool' \<and> pending s' pool' = [] \<and> rp_currentBuffer s' = None
     \<and> borrowed pool' = borrowed pool
     \<and> (\<forall>b \<in> borrowed pool. bp_storage pool' ! b = bp_storage pool ! b)"
proof -
  let ?ps = "[(PacketId_ScanReplyEnd, []), (PacketId_Ping, [1, 7 :: u8])]"
  have inv: "pool_inv (BufferPool_new (replicate 3 (replicate BufferSize 0)))"
    by (rule pool_inv_new) (simp add: storage_ok_def MaxBuffers_def)
  have ok: "\<forall>(t, p) \<in> set ?ps. length p < MaxPacketSize - HeaderSize
      \<and> \<not> isl (frame_event (\<lambda>_. True) (packet_header t (length p), p))"
    by (simp add: MaxPacketSize_def HeaderSize_def frame_event_def DecodeAndHandle_def
        packet_header_def PacketId_of_code HandleStruct_def ParseStruct_def del: PacketId_code.simps)
  show ?thesis
    unfolding Let_def
    by (rule Read_any_pieces [OF recording_handler inv _ TrueI ok])
       (simp_all add: borrowed_new MaxBuffers_def HeaderSize_def)
qed

end
