(* ===== verification/Ldn_Malformed.thy ===== *)
theory Ldn_Malformed
  imports Ldn_Framing
begin

text \<open>
  \<open>RyuLdnProtocol::Read\<close> on input that is not a well-formed stream, and when the buffer pool is
  empty. \<open>Read_first_header\<close> reduces each case to the second phase of the loop body.
\<close>

definition after_body ::
    "nat \<Rightarrow> (PacketId \<Rightarrow> bool) \<Rightarrow> 'w callbacks \<Rightarrow> bytes \<Rightarrow> 'w read_state flow run
       \<Rightarrow> (RyuLdnProtocol \<times> BufferPool \<times> 'w) run" where
  "after_body fuel reg cb data m =
     bind_run m (\<lambda>r. case r of
         Return (index, result) \<Rightarrow> Inr result
       | Continue st \<Rightarrow> Read_loop fuel reg cb data 0 (int (length data)) st
       | Fall st \<Rightarrow> Read_loop fuel reg cb data 0 (int (length data)) st)"

lemma Read_loop_step:
  "0 < length data \<Longrightarrow>
   Read_loop (length data) reg cb data 0 (int (length data)) (0, st) =
     after_body (length data - 1) reg cb data (Read_body reg cb data 0 (int (length data)) (0, st))"
  by (cases "length data"; cases st)
     (simp_all add: after_body_def Read_loop.simps [of "Suc _"] del: Read_loop.simps)

definition starts_header :: "RyuLdnProtocol \<Rightarrow> BufferPool \<Rightarrow> bytes \<Rightarrow> LdnHeader \<Rightarrow> bool" where
  "starts_header s pool piece h \<longleftrightarrow>
     prot_inv s pool \<and> rp_currentBuffer s = None
     \<and> HeaderSize \<le> length (pending s pool @ piece) \<and> get_LdnHeader (pending s pool @ piece) = h"

lemma Read_first_header:
  assumes "starts_header s pool piece h"
  defines "c \<equiv> rp_headerBytesReceived s"
  defines "s1 \<equiv> s\<lparr>rp_headerBuffer := take HeaderSize (pending s pool @ piece),
                 rp_headerBytesReceived := HeaderSize\<rparr>"
  shows "Read reg cb piece 0 (int (length piece)) (s, pool, w) =
     after_body (length piece - 1) reg cb piece
       (then_phase (Read_phase2 reg cb (int (length piece)) (int (HeaderSize - c), s1, pool, w))
          (Read_phase3 reg cb piece 0 (int (length piece))))"
    and "c < HeaderSize" and "HeaderSize - c \<le> length piece"
    and "get_LdnHeader (rp_headerBuffer s1) = h" and "length (rp_headerBuffer s1) = HeaderSize"
proof -
  let ?hb = "rp_headerBuffer s"
  have p: "length ?hb = HeaderSize" "c < HeaderSize" "pending s pool = take c ?hb"
    using assms(1) by (auto simp: starts_header_def prot_inv_def c_def pending_def)
  then have l: "HeaderSize - c \<le> length piece" using assms(1) by (auto simp: starts_header_def)
  have inp: "in_data piece 0 (int (length piece)) 0" by (simp add: in_data_def)
  have rem: "remaining piece 0 (int (length piece)) 0 = piece" by (simp add: remaining_def)
  have "s1 = s\<lparr>rp_headerBuffer := take c ?hb @ take (HeaderSize - c) piece @ drop (c + (HeaderSize - c)) ?hb,
      rp_headerBytesReceived := c + (HeaderSize - c)\<rparr>"
    using p l by (simp add: s1_def)
  then have "Read_phase1 piece 0 (int (length piece)) (0, s, pool, w) =
      Inr (Fall (int (HeaderSize - c), s1, pool, w))"
    using Read_phase1_copy [OF inp p(1,2), of s "HeaderSize - c" s1 pool w] p(2) l
    by (simp add: rem c_def)
  moreover have "0 < length piece" using l p(2) by linarith
  ultimately show "Read reg cb piece 0 (int (length piece)) (s, pool, w) =
     after_body (length piece - 1) reg cb piece
       (then_phase (Read_phase2 reg cb (int (length piece)) (int (HeaderSize - c), s1, pool, w))
          (Read_phase3 reg cb piece 0 (int (length piece))))"
    by (simp add: Read_def Read_loop_step Read_body_def del: Read_loop.simps)
  show "c < HeaderSize" "HeaderSize - c \<le> length piece" using p l by auto
  have "HeaderSize \<le> length (pending s pool @ piece)"
    "get_LdnHeader (pending s pool @ piece) = h" using assms(1) by (simp_all add: starts_header_def)
  then show "get_LdnHeader (rp_headerBuffer s1) = h" "length (rp_headerBuffer s1) = HeaderSize"
    using LdnHeader_wire.get_take [of HeaderSize "pending s pool @ piece"]
    by (simp_all add: s1_def HeaderSize_def)
qed

lemma after_body_simps [simp]:
  "after_body fuel reg cb data (Inl e) = Inl e"
  "after_body fuel reg cb data (Inr (Return (i, r))) = Inr r"
  "after_body fuel reg cb data (Inr (Continue st)) =
     Read_loop fuel reg cb data 0 (int (length data)) st"
  by (simp_all add: after_body_def)

section \<open>Rejected headers\<close>

definition rejected_header :: "LdnHeader \<Rightarrow> bool" where
  "rejected_header h \<longleftrightarrow>
     hdr_magic h \<noteq> RyuLdnMagic \<or> hdr_version h \<noteq> ProtocolVersion
     \<or> int MaxPacketSize - int HeaderSize \<le> sint (hdr_dataSize h)"

lemma Read_phase2_rejected:
  assumes "rejected_header (get_LdnHeader (rp_headerBuffer s))" and "\<not> rp_inPacket s"
    and "rp_headerBytesReceived s = HeaderSize"
  shows "Read_phase2 reg cb sz (index, s, pool, w) =
     Inr (Return (index, fst (Reset s pool), snd (Reset s pool), w))"
  using assms by (auto simp: Read_phase2_def Let_def rejected_header_def split: prod.split)

lemma Read_rejected:
  assumes "starts_header s pool piece h" and "rejected_header h"
  shows "\<exists>s'. Read reg cb piece 0 (int (length piece)) (s, pool, w) = Inr (s', pool, w)
           \<and> prot_inv s' pool \<and> pending s' pool = [] \<and> own s' = {}"
proof -
  note f = Read_first_header [OF assms(1)]
  define s1 where "s1 = s\<lparr>rp_headerBuffer := take HeaderSize (pending s pool @ piece),
                 rp_headerBytesReceived := HeaderSize\<rparr>"
  have s1: "\<not> rp_inPacket s1" "rp_headerBytesReceived s1 = HeaderSize" "rp_currentBuffer s1 = None"
    and inv: "pool_inv pool"
    using assms(1) by (auto simp: s1_def starts_header_def prot_inv_def)
  have "snd (Reset s1 pool) = pool" using s1(3) by (simp add: Reset_def)
  then have "Reset s1 pool = (fst (Reset s1 pool), pool)" by (metis prod.collapse)
  from prot_inv_Reset(1-3) [OF inv f(5) [folded s1_def] this]
    \<open>snd (Reset s1 pool) = pool\<close> assms(2) s1(1,2) f(4) [folded s1_def]
  show ?thesis
    by (intro exI [of _ "fst (Reset s1 pool)"])
       (simp add: f(1) [folded s1_def] Read_phase2_rejected)
qed

section \<open>Negative sizes\<close>

lemma Read_phase2_borrow:
  assumes "hdr_magic h = RyuLdnMagic" and "hdr_version h = ProtocolVersion"
    and "sint (hdr_dataSize h) < int MaxPacketSize - int HeaderSize" and "sint (hdr_dataSize h) \<noteq> 0"
    and "get_LdnHeader (rp_headerBuffer s) = h" and "\<not> rp_inPacket s"
    and "rp_headerBytesReceived s = HeaderSize"
  shows "Read_phase2 reg cb sz (index, s, pool, w) =
     (case BorrowBuffer_try pool of
        (None, pool) \<Rightarrow>
          Inr (Continue (index + min (sz - index) (sint (hdr_dataSize h)),
                 s\<lparr>rp_currentBuffer := None, rp_headerBytesReceived := 0\<rparr>, pool, w))
      | (Some b, pool) \<Rightarrow>
          Inr (Fall (index,
                 s\<lparr>rp_currentBuffer := Some b, rp_inPacket := True, rp_bufferEnd := 0\<rparr>, pool, w)))"
  using assms by (auto simp: Read_phase2_def Let_def split: prod.split option.split)

lemma Read_negative:
  assumes "starts_header s pool piece h" and "hdr_magic h = RyuLdnMagic"
    and "hdr_version h = ProtocolVersion" and "sint (hdr_dataSize h) < 0"
    and "card (borrowed pool) < MaxBuffers"
  shows "Read reg cb piece 0 (int (length piece)) (s, pool, w) = Inl BufferOverrun"
proof -
  note f = Read_first_header [OF assms(1)]
  have s: "\<not> rp_inPacket s" "pool_inv pool"
    using assms(1) by (auto simp: starts_header_def prot_inv_def)
  obtain b pool1 where b: "BorrowBuffer_try pool = (Some b, pool1)"
    using bpool.borrow_succeeds [OF s(2) assms(5)] by blast
  have "sint (hdr_dataSize h) < int MaxPacketSize - int HeaderSize"
    using assms(4) by (simp add: MaxPacketSize_def HeaderSize_def)
  with assms(2-4) f(4) b s(1) show ?thesis
    by (simp add: f(1) Read_phase2_borrow [of h])
       (simp add: Read_phase3_def memcpy_from_def Let_def)
qed

section \<open>Packets without the payload their type needs\<close>

definition needs_payload :: "PacketId \<Rightarrow> bool" where
  "needs_payload t \<longleftrightarrow>
     t \<notin> {PacketId_Connected, PacketId_SyncNetwork, PacketId_ScanReply, PacketId_ScanReplyEnd,
           PacketId_RejectReply, PacketId_SetAdvertiseData}"

lemma Handle_null: "needs_payload t \<Longrightarrow> Handle t h None = Inl NullDeref"
  by (cases t) (simp_all add: needs_payload_def HandleStruct_def HandleExtra_def ParseStruct_def)

lemma Read_null:
  assumes "starts_header s pool piece h" and "valid_header h" and "hdr_dataSize h = 0"
    and "PacketId_of (hdr_type h) = Some t" and "reg t" and "needs_payload t"
  shows "Read reg cb piece 0 (int (length piece)) (s, pool, w) = Inl NullDeref"
proof -
  note f = Read_first_header [OF assms(1)]
  have s: "\<not> rp_inPacket s" using assms(1) by (auto simp: starts_header_def prot_inv_def)
  have "hdr_len h = 0" using assms(3) by (simp add: hdr_len_def)
  moreover have "call reg cb h None (pool, w) = Inl NullDeref"
    using assms(4-6) by (simp add: call_def DecodeAndHandle_def Handle_null)
  ultimately show ?thesis
    using s f(4) assms(2) by (simp add: f(1) Read_phase2_valid [of _ h])
qed

section \<open>An empty pool\<close>

text \<open>
  With every buffer lent, the packet is dropped; the bytes of it that arrive later are not skipped.
\<close>

lemma Read_exhausted:
  assumes "starts_header s pool piece h" and "valid_header h" and "hdr_len h \<noteq> 0"
    and "borrowed pool = {..<MaxBuffers}"
    and "length (pending s pool @ piece) \<le> HeaderSize + hdr_len h"
  shows "\<exists>s'. Read reg cb piece 0 (int (length piece)) (s, pool, w) = Inr (s', pool, w)
           \<and> prot_inv s' pool \<and> pending s' pool = [] \<and> own s' = {}"
proof -
  note f = Read_first_header [OF assms(1)]
  define c where "c = rp_headerBytesReceived s"
  define s1 where "s1 = s\<lparr>rp_headerBuffer := take HeaderSize (pending s pool @ piece),
                 rp_headerBytesReceived := HeaderSize\<rparr>"
  define s2 where "s2 = s1\<lparr>rp_currentBuffer := None, rp_headerBytesReceived := 0\<rparr>"
  have s: "\<not> rp_inPacket s" "pool_inv pool" "rp_bufferEnd s = 0" "length (pending s pool) = c"
    using assms(1) by (auto simp: starts_header_def prot_inv_def pending_def c_def)
  have "\<And>b q. BorrowBuffer_try pool \<noteq> (Some b, q)"
    using borrow_Some(2,3) [OF s(2)] assms(4) by blast
  then obtain q where b: "BorrowBuffer_try pool = (None, q)"
    by (metis not_None_eq surj_pair)
  then have q: "q = pool" using borrow_NoneD(1) [OF s(2)] by blast
  have skip: "int (HeaderSize - c) + min (int (length piece) - int (HeaderSize - c)) (int (hdr_len h))
      = int (length piece)"
    using assms(5) s(4) f(2,3) by (simp add: c_def of_nat_diff min_def)
  have "Read_phase2 reg cb (int (length piece)) (int (HeaderSize - c), s1, pool, w)
      = Inr (Continue (int (length piece), s2, pool, w))"
    using s(1) assms(3) b q skip f(4) [folded s1_def]
    by (subst Read_phase2_valid [of _ h]) (simp_all add: assms(2) s2_def s1_def)
  then have "Read reg cb piece 0 (int (length piece)) (s, pool, w) = Inr (s2, pool, w)"
    by (simp add: f(1) [folded s1_def c_def] Read_loop.simps)
  moreover have "prot_inv s2 pool" "pending s2 pool = []" "own s2 = {}"
    using s f(5) [folded s1_def]
    by (simp_all add: s2_def prot_inv_def pending_def own_def HeaderSize_def)
       (simp_all add: s1_def)
  ultimately show ?thesis by blast
qed

section \<open>Data packets shorter than their header\<close>

lemma short_ProxyData:
  assumes "PacketId_of (hdr_type h) = Some PacketId_ProxyData" and "reg PacketId_ProxyData"
    and "hdr_len h < 20" and "length buf = BufferSize"
  shows "\<exists>pd bs n. DecodeAndHandle reg h (Some buf) = Inr (Some (onProxyData h pd (bs, n)))
           \<and> length bs < unat n \<and> unat n = 4294967296 - 20 + hdr_len h"
proof -
  have n: "unat (hdr_dataSize h - 20) = 4294967296 - 20 + hdr_len h"
    using assms(3) unat_sub_if' [of "hdr_dataSize h" "20 :: u32"] by (simp add: hdr_len_def)
  then show ?thesis using assms
    by (simp add: DecodeAndHandle_def HandleExtra_def ParseStruct_def BufferSize_def
        MaxPacketSize_def span_at_def Let_def)
qed

section \<open>Properties\<close>

lemma starts_header_new:
  "pool_inv pool \<Longrightarrow> starts_header RyuLdnProtocol_new pool (put_LdnHeader h @ rest) h"
  by (simp add: starts_header_def prot_inv_new get_LdnHeader_prefix)
     (simp add: RyuLdnProtocol_new_def)

definition zero_pool :: BufferPool where
  "zero_pool = BufferPool_new (replicate 3 (replicate BufferSize 0))"

lemma zero_pool_inv: "pool_inv zero_pool" and zero_pool_free: "card (borrowed zero_pool) < MaxBuffers"
  unfolding zero_pool_def
  by (rule pool_inv_new, simp add: storage_ok_def MaxBuffers_def)
     (simp add: borrowed_new MaxBuffers_def)

text \<open>
  A header with a wrong magic number, a wrong version or a size of \<open>MaxPacketSize - HeaderSize\<close>
  or more is refused. The rest of the piece is dropped with it, no callback runs, the pool is as it
  was and the object is ready for the next header.
\<close>

theorem Read_refuses_header:
  assumes "starts_header s pool piece h" and "rejected_header h"
  shows "\<exists>s'. Read reg cb piece 0 (int (length piece)) (s, pool, w) = Inr (s', pool, w)
           \<and> prot_inv s' pool \<and> pending s' pool = []"
  using Read_rejected [OF assms, of reg cb w] by blast

theorem Read_refuses_header_witness:
  "\<exists>s'. Read (\<lambda>_. True) (\<lambda>ev pw. Inl NullDeref)
      (put_LdnHeader \<lparr>hdr_magic = RyuLdnMagic, hdr_type = 0, hdr_version = 2, hdr_dataSize = 0\<rparr> @ [1, 2]) 0 12
      (RyuLdnProtocol_new, zero_pool, ()) = Inr (s', zero_pool, ())
    \<and> prot_inv s' zero_pool \<and> pending s' zero_pool = []"
proof -
  let ?h = "\<lparr>hdr_magic = RyuLdnMagic, hdr_type = 0, hdr_version = 2, hdr_dataSize = 0\<rparr>"
  have "rejected_header ?h" by (simp add: rejected_header_def ProtocolVersion_def)
  from Read_refuses_header [OF starts_header_new [OF zero_pool_inv, of ?h "[1, 2]"] this]
  show ?thesis by (simp add: HeaderSize_def)
qed

text \<open>
  C39: the size test lets negative sizes through, \<open>dataSize\<close> being signed. With a buffer free, such a
  header makes \<open>Read\<close> copy a negative number of bytes, a \<open>size_t\<close> beyond every buffer.
\<close>

theorem Read_negative_size_overruns:
  assumes "starts_header s pool piece h" and "hdr_magic h = RyuLdnMagic"
    and "hdr_version h = ProtocolVersion" and "sint (hdr_dataSize h) < 0"
    and "card (borrowed pool) < MaxBuffers"
  shows "Read reg cb piece 0 (int (length piece)) (s, pool, w) = Inl BufferOverrun"
  using assms by (rule Read_negative)

theorem Read_negative_size_overruns_witness:
  "Read (\<lambda>_. True) (\<lambda>ev pw. Inr pw)
      (put_LdnHeader \<lparr>hdr_magic = RyuLdnMagic, hdr_type = 21, hdr_version = ProtocolVersion,
                      hdr_dataSize = - 1\<rparr>) 0 10
      (RyuLdnProtocol_new, zero_pool, ()) = Inl BufferOverrun"
  using Read_negative_size_overruns [OF starts_header_new
      [OF zero_pool_inv, of "\<lparr>hdr_magic = RyuLdnMagic, hdr_type = 21, hdr_version = ProtocolVersion,
                      hdr_dataSize = - 1\<rparr>" "[]"]] zero_pool_free
  by (simp add: HeaderSize_def)

text \<open>
  A packet of a type with a fixed structure and a \<open>dataSize\<close> of zero is decoded from a null
  pointer, when its callback is set.
\<close>

theorem Read_empty_packet_null:
  assumes "starts_header s pool piece h" and "valid_header h" and "hdr_dataSize h = 0"
    and "PacketId_of (hdr_type h) = Some t" and "reg t" and "needs_payload t"
  shows "Read reg cb piece 0 (int (length piece)) (s, pool, w) = Inl NullDeref"
  using assms by (rule Read_null)

theorem Read_empty_packet_null_witness:
  "Read (\<lambda>t. t = PacketId_Ping) (\<lambda>ev pw. Inr pw) (packet PacketId_Ping []) 0 10
      (RyuLdnProtocol_new, zero_pool, ()) = Inl NullDeref"
proof -
  let ?h = "packet_header PacketId_Ping 0"
  have "starts_header RyuLdnProtocol_new zero_pool (packet PacketId_Ping []) ?h"
    using starts_header_new [OF zero_pool_inv, of ?h "[]"] by (simp add: packet_def)
  moreover have "valid_header ?h"
    by (rule valid_packet_header) (simp add: MaxPacketSize_def HeaderSize_def)
  moreover have "hdr_dataSize ?h = 0" and "PacketId_of (hdr_type ?h) = Some PacketId_Ping"
    by (simp_all add: packet_header_def PacketId_of_code del: PacketId_code.simps)
  ultimately show ?thesis
    using Read_empty_packet_null [of RyuLdnProtocol_new zero_pool "packet PacketId_Ping []" ?h
        PacketId_Ping "\<lambda>t. t = PacketId_Ping"]
    by (simp add: needs_payload_def HeaderSize_def)
qed

text \<open>
  When every buffer is on loan a packet that has only begun to arrive is forgotten with its first
  piece. No byte of it is pending afterwards, so the rest of its payload will be read as a header.
\<close>

theorem Read_exhausted_loses_sync:
  assumes "starts_header s pool piece h" and "valid_header h" and "hdr_len h \<noteq> 0"
    and "borrowed pool = {..<MaxBuffers}"
    and "length (pending s pool @ piece) < HeaderSize + hdr_len h"
  shows "\<exists>s'. Read reg cb piece 0 (int (length piece)) (s, pool, w) = Inr (s', pool, w)
           \<and> prot_inv s' pool \<and> pending s' pool = []
           \<and> (\<forall>later. HeaderSize \<le> length later \<longrightarrow>
                starts_header s' pool later (get_LdnHeader later))"
proof -
  obtain s' where s': "Read reg cb piece 0 (int (length piece)) (s, pool, w) = Inr (s', pool, w)"
    "prot_inv s' pool" "pending s' pool = []" "own s' = {}"
    using Read_exhausted [OF assms(1-4), of reg cb w] assms(5) by auto
  then have "rp_currentBuffer s' = None" by (cases "rp_currentBuffer s'") (auto simp: own_def)
  with s' show ?thesis by (auto simp: starts_header_def)
qed

theorem Read_exhausted_loses_sync_witness:
  "let pool = snd (pool_run [Borrow, Borrow, Borrow] zero_pool) in
   \<exists>s'. Read (\<lambda>_. True) (\<lambda>ev pw. Inr pw) (put_LdnHeader (packet_header PacketId_Ping 2) @ [1]) 0 11
      (RyuLdnProtocol_new, pool, ()) = Inr (s', pool, ())
    \<and> prot_inv s' pool \<and> pending s' pool = []
    \<and> (\<forall>later. HeaderSize \<le> length later \<longrightarrow> starts_header s' pool later (get_LdnHeader later))"
proof -
  let ?h = "packet_header PacketId_Ping 2"
  define pool where "pool = snd (pool_run [Borrow, Borrow, Borrow] zero_pool)"
  have inv: "pool_inv pool"
    using pool_run_refines [OF zero_pool_inv, of "[Borrow, Borrow, Borrow]"]
    by (simp add: pool_def op_ok_def) (metis prod.collapse)
  have full: "borrowed pool = {..<MaxBuffers}"
    by (auto simp: pool_def zero_pool_def BufferPool_new_def fresh_slots_def MaxBuffers_def
        BorrowBuffer_try_def upt_rec Let_def borrowed_def busy_slots_def less_Suc_eq numeral_3_eq_3)
  have v: "valid_header ?h" by (rule valid_packet_header) (simp add: MaxPacketSize_def HeaderSize_def)
  have l: "hdr_len ?h = 2" by (rule hdr_len_packet) simp
  show ?thesis
    using Read_exhausted_loses_sync [OF starts_header_new [OF inv, of ?h "[1]"] v _ full,
        where reg = "\<lambda>_. True" and cb = "\<lambda>ev pw. Inr pw" and w = "()"]
    unfolding Let_def pool_def [symmetric] by (simp add: l HeaderSize_def)
qed

text \<open>
  A data packet shorter than its own header reaches the callback with a payload size that has
  wrapped around below \<open>2\<^sup>3\<^sup>2\<close>, far more than the bytes behind the pointer.
\<close>

theorem short_ProxyData_wraps:
  assumes "PacketId_of (hdr_type h) = Some PacketId_ProxyData" and "reg PacketId_ProxyData"
    and "hdr_len h < 20" and "length buf = BufferSize"
  shows "\<exists>pd bs n. DecodeAndHandle reg h (Some buf) = Inr (Some (onProxyData h pd (bs, n)))
           \<and> length bs < unat n \<and> unat n = 4294967296 - 20 + hdr_len h"
  using assms by (rule short_ProxyData)

theorem short_ProxyData_wraps_witness:
  "\<exists>pd bs n. DecodeAndHandle (\<lambda>_. True) (packet_header PacketId_ProxyData 4)
        (Some (replicate BufferSize 0)) =
        Inr (Some (onProxyData (packet_header PacketId_ProxyData 4) pd (bs, n)))
     \<and> length bs < unat n \<and> unat n = 4294967296 - 20 + hdr_len (packet_header PacketId_ProxyData 4)"
proof -
  have "PacketId_of (hdr_type (packet_header PacketId_ProxyData 4)) = Some PacketId_ProxyData"
    by (simp add: packet_header_def PacketId_of_code del: PacketId_code.simps)
  then show ?thesis
    by (rule short_ProxyData_wraps) (simp_all add: hdr_len_packet)
qed

end
