(* ===== verification/Ldn_Proxy.thy ===== *)
theory Ldn_Proxy
  imports Proxy_Socket Ldn_Malformed
begin

text \<open>
  \<open>ryuldn/proxy/ldn_proxy.cpp\<close> and the operations of \<open>ldn_proxy_socket.cpp\<close> that go through the
  proxy. A socket object is a number in the heap \<open>px_heap\<close>; reading through the pointer of an object
  that is not there is the fault \<open>UseAfterFree\<close>. \<open>px_sent\<close> is what the proxy has handed to
  \<open>LdnMasterProxyClient::SendRawPacket\<close>, in order. The operations take and return the buffer pool
  and the proxy.
\<close>

section \<open>State\<close>

record LdnProxy =
  px_sockets :: "nat list"
  px_heap :: "nat \<rightharpoonup> LdnProxySocket"
  px_next :: nat
  px_ephemeralPorts :: "u32 \<rightharpoonup> EphemeralPortPool"
  px_subnetMask :: u32
  px_localIp :: u32
  px_broadcast :: u32
  px_handlers :: bool
  px_sent :: "bytes list"

type_synonym pxs = "BufferPool \<times> LdnProxy"

definition LdnProxy_new :: "ProxyConfig \<Rightarrow> LdnProxy" where
  "LdnProxy_new config =
     \<lparr>px_sockets = [], px_heap = Map.empty, px_next = 0,
      px_ephemeralPorts = [IPPROTO_UDP \<mapsto> EphemeralPortPool_new, IPPROTO_TCP \<mapsto> EphemeralPortPool_new],
      px_subnetMask = pcf_proxySubnetMask config, px_localIp = pcf_proxyIp config,
      px_broadcast = pcf_proxyIp config OR NOT (pcf_proxySubnetMask config),
      px_handlers = True, px_sent = []\<rparr>"

definition Supported :: "int \<Rightarrow> u32 \<Rightarrow> bool" where
  "Supported domain protocol \<longleftrightarrow>
     domain = int AF_INET \<and> (protocol = IPPROTO_TCP \<or> protocol = IPPROTO_UDP)"

definition IsBroadcast :: "u32 \<Rightarrow> LdnProxy \<Rightarrow> bool" where
  "IsBroadcast ip px \<longleftrightarrow> ip = px_broadcast px"

definition IsVirtualIP :: "u32 \<Rightarrow> LdnProxy \<Rightarrow> bool" where
  "IsVirtualIP ip px \<longleftrightarrow> ip AND px_subnetMask px = px_localIp px AND px_subnetMask px"

definition GetEphemeralPort :: "u32 \<Rightarrow> LdnProxy \<Rightarrow> u16 \<times> LdnProxy" where
  "GetEphemeralPort protocolType px =
     (case px_ephemeralPorts px protocolType of
        Some ports \<Rightarrow>
          let (p, ports) = AllocatePort ports in
          (p, px\<lparr>px_ephemeralPorts := (px_ephemeralPorts px)(protocolType \<mapsto> ports)\<rparr>)
      | None \<Rightarrow> (49152, px))"

definition ReturnEphemeralPort :: "u32 \<Rightarrow> u16 \<Rightarrow> LdnProxy \<Rightarrow> LdnProxy" where
  "ReturnEphemeralPort protocolType port px =
     (case px_ephemeralPorts px protocolType of
        Some ports \<Rightarrow> px\<lparr>px_ephemeralPorts := (px_ephemeralPorts px)(protocolType \<mapsto> ReturnPort port ports)\<rparr>
      | None \<Rightarrow> px)"

definition RegisterSocket :: "nat \<Rightarrow> LdnProxy \<Rightarrow> LdnProxy" where
  "RegisterSocket i px = px\<lparr>px_sockets := px_sockets px @ [i]\<rparr>"

definition UnregisterSocket :: "nat \<Rightarrow> LdnProxy \<Rightarrow> LdnProxy" where
  "UnregisterSocket i px = px\<lparr>px_sockets := removeAll i (px_sockets px)\<rparr>"

text \<open>\<open>Dispose\<close>, and \<open>UnregisterHandlers\<close> in it.\<close>

definition Dispose :: "LdnProxy \<Rightarrow> LdnProxy" where
  "Dispose px = px\<lparr>px_handlers := False, px_sockets := []\<rparr>"

definition deref :: "nat \<Rightarrow> LdnProxy \<Rightarrow> LdnProxySocket run" where
  "deref i px = (case px_heap px i of Some s \<Rightarrow> Inr s | None \<Rightarrow> Inl UseAfterFree)"

definition store :: "nat \<Rightarrow> LdnProxySocket \<Rightarrow> LdnProxy \<Rightarrow> LdnProxy" where
  "store i s px = px\<lparr>px_heap := (px_heap px)(i \<mapsto> s)\<rparr>"

section \<open>Routing\<close>

definition routed :: "ProxyInfo \<Rightarrow> LdnProxySocket \<Rightarrow> bool" where
  "routed info s \<longleftrightarrow>
     ps_protocolType s = pin_protocol info \<and> ntohs (sin_port (ps_localEndPoint s)) = pin_destPort info"

fun for_sockets ::
    "nat list \<Rightarrow> ProxyInfo \<Rightarrow> (nat \<Rightarrow> LdnProxySocket \<Rightarrow> pxs \<Rightarrow> pxs run) \<Rightarrow> pxs \<Rightarrow> pxs run" where
  "for_sockets [] info action st = Inr st"
| "for_sockets (i # is) info action (pool, px) =
     bind_run (deref i px) (\<lambda>s.
       if routed info s then bind_run (action i s (pool, px)) (for_sockets is info action)
       else for_sockets is info action (pool, px))"

definition ForRoutedSockets ::
    "ProxyInfo \<Rightarrow> (nat \<Rightarrow> LdnProxySocket \<Rightarrow> pxs \<Rightarrow> pxs run) \<Rightarrow> pxs \<Rightarrow> pxs run" where
  "ForRoutedSockets info action st = for_sockets (px_sockets (snd st)) info action st"

definition GetIpV4 :: "sockaddr_in \<Rightarrow> u32" where
  "GetIpV4 endpoint = (if sin_family endpoint \<noteq> AF_INET then 0 else ntohl (sin_addr endpoint))"

definition MakeInfo :: "sockaddr_in \<Rightarrow> sockaddr_in \<Rightarrow> u32 \<Rightarrow> ProxyInfo" where
  "MakeInfo localEp remoteEp protocolType =
     \<lparr>pin_sourceIpV4 = GetIpV4 localEp, pin_sourcePort = ntohs (sin_port localEp),
      pin_destIpV4 = GetIpV4 remoteEp, pin_destPort = ntohs (sin_port remoteEp),
      pin_protocol = protocolType\<rparr>"

section \<open>Sending\<close>

text \<open>
  A \<open>ScopedBuffer\<close>, an \<open>Encode\<close> into it, and \<open>SendRawPacket\<close> with the size that \<open>Encode\<close> returned;
  \<open>False\<close> when no buffer could be borrowed.
\<close>

definition send_encoded :: "(bytes \<Rightarrow> (nat \<times> bytes) run) \<Rightarrow> pxs \<Rightarrow> (bool \<times> pxs) run" where
  "send_encoded encode = (\<lambda>(pool, px).
     bind_run
       (with_ScopedBuffer pool (\<lambda>buf.
          bind_run (encode buf) (\<lambda>(n, buf). Inr (buf, take n buf))))
       (\<lambda>(r, pool).
          case r of
            None \<Rightarrow> Inr (False, pool, px)
          | Some pk \<Rightarrow> Inr (True, pool, px\<lparr>px_sent := px_sent px @ [pk]\<rparr>)))"

definition RequestConnection :: "sockaddr_in \<Rightarrow> sockaddr_in \<Rightarrow> u32 \<Rightarrow> pxs \<Rightarrow> pxs run" where
  "RequestConnection localEp remoteEp protocolType st =
     (let request = \<lparr>pcr_info = MakeInfo localEp remoteEp protocolType\<rparr> in
      bind_run (send_encoded (Encode_struct PacketId_ProxyConnect (put_ProxyConnectRequestFull request)) st)
        (\<lambda>(_, st). Inr st))"

definition SignalConnected :: "sockaddr_in \<Rightarrow> sockaddr_in \<Rightarrow> u32 \<Rightarrow> pxs \<Rightarrow> pxs run" where
  "SignalConnected localEp remoteEp protocolType st =
     (let response = \<lparr>pcp_info = MakeInfo localEp remoteEp protocolType\<rparr> in
      bind_run (send_encoded (Encode_struct PacketId_ProxyConnectReply (put_ProxyConnectResponseFull response)) st)
        (\<lambda>(_, st). Inr st))"

definition EndConnection :: "sockaddr_in \<Rightarrow> sockaddr_in \<Rightarrow> u32 \<Rightarrow> pxs \<Rightarrow> pxs run" where
  "EndConnection localEp remoteEp protocolType st =
     (let message = \<lparr>pdm_info = MakeInfo localEp remoteEp protocolType, pdm_reason = DisconnectReason_None\<rparr> in
      bind_run (send_encoded (Encode_struct PacketId_ProxyDisconnect (put_ProxyDisconnectMessageFull message)) st)
        (\<lambda>(_, st). Inr st))"

definition SendTo :: "bytes \<Rightarrow> sockaddr_in \<Rightarrow> sockaddr_in \<Rightarrow> u32 \<Rightarrow> pxs \<Rightarrow> (int \<times> pxs) run" where
  "SendTo buffer localEp remoteEp protocolType st =
     (let header = \<lparr>pdh_info = MakeInfo localEp remoteEp protocolType, pdh_dataLength = of_nat (length buffer)\<rparr> in
      bind_run (send_encoded (Encode_extra PacketId_ProxyData (put_ProxyDataHeaderFull header) buffer) st)
        (\<lambda>(ok, st). Inr (if ok then int (length buffer) else -1, st)))"

text \<open>The descriptor variants kept for the BSD service.\<close>

definition SendTo_fd :: "bytes \<Rightarrow> sockaddr_in \<Rightarrow> pxs \<Rightarrow> (int \<times> pxs) run" where
  "SendTo_fd buffer dest st =
     SendTo buffer \<lparr>sin_family = AF_INET, sin_addr = htonl (px_localIp (snd st)), sin_port = 0\<rparr>
       dest IPPROTO_UDP st"

definition RecvFrom_fd :: "bool \<Rightarrow> Result \<times> nat option" where
  "RecvFrom_fd received_set = (Module_Libnx IoError, if received_set then Some 0 else None)"

definition CleanupSocket :: "int \<Rightarrow> pxs \<Rightarrow> pxs" where
  "CleanupSocket fd st = st"

section \<open>Sockets\<close>

definition socket_create :: "int \<Rightarrow> int \<Rightarrow> u32 \<Rightarrow> LdnProxy \<Rightarrow> nat \<times> LdnProxy" where
  "socket_create addressFamily socketType protocolType px =
     (let i = px_next px;
          px = px\<lparr>px_heap := (px_heap px)(i \<mapsto> LdnProxySocket_new addressFamily socketType protocolType),
                  px_next := Suc i\<rparr> in
      (i, RegisterSocket i px))"

definition EnsureLocalEndpoint :: "bool \<Rightarrow> nat \<Rightarrow> LdnProxy \<Rightarrow> (sockaddr_in \<times> LdnProxy) run" where
  "EnsureLocalEndpoint replace i px =
     bind_run (deref i px) (\<lambda>s.
       let has_port = (ps_isBound s \<and> sin_port (ps_localEndPoint s) \<noteq> 0) in
       if has_port \<and> \<not> replace then Inr (ps_localEndPoint s, px)
       else
         let px = (if has_port
                   then ReturnEphemeralPort (ps_protocolType s) (ntohs (sin_port (ps_localEndPoint s))) px
                   else px);
             (port, px) = GetEphemeralPort (ps_protocolType s) px;
             localEp = \<lparr>sin_family = AF_INET, sin_addr = htonl (px_localIp px), sin_port = htons port\<rparr> in
         Inr (localEp, store i (s\<lparr>ps_localEndPoint := localEp\<rparr>) px))"

definition Bind :: "sockaddr_in option \<Rightarrow> nat \<Rightarrow> LdnProxy \<Rightarrow> LdnProxy run" where
  "Bind localEP i px =
     (case localEP of
        None \<Rightarrow> Inr px
      | Some ep \<Rightarrow>
          bind_run (deref i px) (\<lambda>s.
            let px = (if ps_isBound s \<and> sin_port (ps_localEndPoint s) \<noteq> 0
                      then ReturnEphemeralPort (ps_protocolType s) (ntohs (sin_port (ps_localEndPoint s))) px
                      else px);
                (ep, px) = (if sin_port ep = 0
                            then (let (port, px) = GetEphemeralPort (ps_protocolType s) px in
                                  (ep\<lparr>sin_port := htons port\<rparr>, px))
                            else (ep, px)) in
            Inr (store i (s\<lparr>ps_localEndPoint := ep, ps_isBound := True\<rparr>) px)))"

definition Disconnect :: "nat \<Rightarrow> pxs \<Rightarrow> pxs run" where
  "Disconnect i = (\<lambda>(pool, px).
     bind_run (deref i px) (\<lambda>s.
       if ps_connected s then
         bind_run (EndConnection (ps_localEndPoint s) (ps_remoteEndPoint s) (ps_protocolType s) (pool, px))
           (\<lambda>(pool, px).
              Inr (pool, store i (s\<lparr>ps_remoteEndPoint := zero_sockaddr, ps_connected := False\<rparr>) px))
       else Inr (pool, px)))"

definition AsAccepted :: "sockaddr_in \<Rightarrow> nat \<Rightarrow> pxs \<Rightarrow> pxs run" where
  "AsAccepted remoteEp i = (\<lambda>(pool, px).
     bind_run (deref i px) (\<lambda>s.
       bind_run (EnsureLocalEndpoint True i
                   (store i (s\<lparr>ps_connected := True, ps_remoteEndPoint := remoteEp\<rparr>) px))
         (\<lambda>(localEp, px). SignalConnected localEp remoteEp (ps_protocolType s) (pool, px))))"

text \<open>\<open>Close\<close> recurses into the accepted sockets; each level takes one unit of fuel.\<close>

fun Close_fuel :: "nat \<Rightarrow> nat \<Rightarrow> pxs \<Rightarrow> pxs run"
  and Close_list :: "nat \<Rightarrow> nat list \<Rightarrow> pxs \<Rightarrow> pxs run" where
  "Close_fuel 0 i st = Inl OutOfFuel"
| "Close_fuel (Suc n) i (pool, px) =
     bind_run (deref i px) (\<lambda>s.
       if ps_closed s then Inr (pool, px)
       else
         bind_run (Disconnect i (pool, UnregisterSocket i (store i (s\<lparr>ps_closed := True\<rparr>) px))) (\<lambda>st.
         bind_run (Close_list n (ps_listenSockets s) st) (\<lambda>(pool, px).
         bind_run (deref i px) (\<lambda>s.
           Inr (pool, store i (s\<lparr>ps_listenSockets := [], ps_isListening := False\<rparr>) px)))))"
| "Close_list n [] st = Inr st"
| "Close_list n (j # js) st = bind_run (Close_fuel n j st) (Close_list n js)"

definition Close :: "nat \<Rightarrow> pxs \<Rightarrow> pxs run" where
  "Close i st = Close_fuel (Suc (px_next (snd st))) i st"

text \<open>
  \<open>Connect\<close>; \<open>answer\<close> is the response that arrives while it waits for \<open>_connectEvent\<close>, and the
  result \<open>None\<close> means that it is still waiting. Where the answer to an earlier connection has left the
  event signalled, the wait ends at once, with the response of that time.
\<close>

definition Connect ::
    "ProxyConnectResponseFull option \<Rightarrow> sockaddr_in option \<Rightarrow> nat \<Rightarrow> pxs \<Rightarrow> pxs option run" where
  "Connect answer remoteEP i = (\<lambda>(pool, px).
     bind_run (deref i px) (\<lambda>s.
       case remoteEP of
         None \<Rightarrow> Inr (Some (pool, px))
       | Some remote \<Rightarrow>
           if ps_isListening s \<or> \<not> ps_isBound s then Inr (Some (pool, px))
           else
             bind_run (EnsureLocalEndpoint True i px) (\<lambda>(localEp, px).
             bind_run (deref i px) (\<lambda>s.
             bind_run (RequestConnection localEp remote (ps_protocolType s)
                         (pool, store i (s\<lparr>ps_connecting := True\<rparr>) px)) (\<lambda>(pool, px).
             if \<not> ps_blocking s \<and> ps_protocolType s = IPPROTO_TCP then Inr (Some (pool, px))
             else
               bind_run (deref i px) (\<lambda>s.
               case (if ps_connectEvent s then Some s
                     else map_option (\<lambda>r. HandleConnectResponse r s) answer) of
                 None \<Rightarrow> Inr None
               | Some s \<Rightarrow>
                   let s = s\<lparr>ps_connectEvent := False\<rparr> in
                   if pin_sourceIpV4 (pcp_info (ps_connectResponse s)) = 0
                   then Inr (Some (pool, store i s px))
                   else Inr (Some (pool, store i (s\<lparr>ps_connectResponse := zero_response\<rparr>) px))))))))"

definition socket_SendTo :: "bytes \<Rightarrow> sockaddr_in option \<Rightarrow> nat \<Rightarrow> pxs \<Rightarrow> (int \<times> pxs) run" where
  "socket_SendTo buffer destAddr i = (\<lambda>(pool, px).
     bind_run (deref i px) (\<lambda>s.
       if \<not> ps_connected s \<and> ps_protocolType s = IPPROTO_TCP then Inr (-1, pool, px)
       else
         bind_run (EnsureLocalEndpoint False i px) (\<lambda>(localEp, px).
           case destAddr of
             None \<Rightarrow> Inr (-1, pool, px)
           | Some dest \<Rightarrow> SendTo buffer localEp dest (ps_protocolType s) (pool, px))))"

definition Send :: "bytes \<Rightarrow> nat \<Rightarrow> pxs \<Rightarrow> (int \<times> pxs) run" where
  "Send buffer i = (\<lambda>(pool, px).
     bind_run (deref i px) (\<lambda>s.
       if \<not> ps_connected s then Inr (-1, pool, px)
       else socket_SendTo buffer (Some (ps_remoteEndPoint s)) i (pool, px)))"

section \<open>Accepting\<close>

datatype accept_result = NotAccepted | Accepted nat | Waiting

text \<open>
  The inner loop of \<open>Accept\<close>: pop requests until one is for the local end point. \<open>alloc_ok\<close> says
  whether \<open>new (std::nothrow)\<close> succeeds. \<open>None\<close>: the queue ran empty.
\<close>

fun Accept_scan ::
    "bool \<Rightarrow> ProxyConnectRequestFull list \<Rightarrow> nat \<Rightarrow> pxs \<Rightarrow> (accept_result option \<times> pxs) run" where
  "Accept_scan alloc_ok [] i st = Inr (None, st)"
| "Accept_scan alloc_ok (request # requests) i (pool, px) =
     bind_run (deref i px) (\<lambda>s.
       let s = s\<lparr>ps_connectRequests := requests\<rparr>;
           s = (if requests \<noteq> [] then s\<lparr>ps_acceptEvent := True\<rparr> else s);
           px = store i s px;
           endpoint = GetEndpoint (pin_destIpV4 (pcr_info request)) (pin_destPort (pcr_info request)) in
       if sin_addr endpoint = sin_addr (ps_localEndPoint s)
          \<and> sin_port endpoint = sin_port (ps_localEndPoint s) then
         let remote = GetEndpoint (pin_sourceIpV4 (pcr_info request)) (pin_sourcePort (pcr_info request)) in
         if \<not> alloc_ok then Inr (Some NotAccepted, pool, px)
         else
           let (j, px) = socket_create (ps_addressFamily s) (ps_socketType s) (ps_protocolType s) px in
           bind_run (AsAccepted remote j (pool, px)) (\<lambda>(pool, px).
           bind_run (deref i px) (\<lambda>s.
             Inr (Some (Accepted j), pool,
                  store i (s\<lparr>ps_listenSockets := ps_listenSockets s @ [j]\<rparr>) px)))
       else Accept_scan alloc_ok requests i (pool, px))"

text \<open>
  The outer loop; \<open>wakes\<close> gives, for each wait on \<open>_acceptEvent\<close>, the requests that arrive before it
  returns. When \<open>wakes\<close> is used up the call is still waiting.
\<close>

fun Accept_loop ::
    "bool \<Rightarrow> ProxyConnectRequestFull list list \<Rightarrow> nat \<Rightarrow> pxs \<Rightarrow> (accept_result \<times> pxs) run" where
  "Accept_loop alloc_ok [] i st = Inr (Waiting, st)"
| "Accept_loop alloc_ok (arriving # wakes) i (pool, px) =
     bind_run (deref i px) (\<lambda>s.
       let s = (fold IncomingConnectionRequest arriving s)\<lparr>ps_acceptEvent := False\<rparr> in
       bind_run (Accept_scan alloc_ok (ps_connectRequests s) i (pool, store i s px)) (\<lambda>(r, st).
         case r of Some a \<Rightarrow> Inr (a, st) | None \<Rightarrow> Accept_loop alloc_ok wakes i st))"

definition Accept ::
    "bool \<Rightarrow> ProxyConnectRequestFull list list \<Rightarrow> nat \<Rightarrow> pxs \<Rightarrow> (accept_result \<times> pxs) run" where
  "Accept alloc_ok wakes i = (\<lambda>(pool, px).
     bind_run (deref i px) (\<lambda>s.
       if \<not> ps_isListening s then Inr (NotAccepted, pool, px)
       else if \<not> ps_blocking s \<and> ps_connectRequests s = [] then Inr (NotAccepted, pool, px)
       else Accept_loop alloc_ok wakes i (pool, px)))"

text \<open>
  \<open>BsdAccept\<close>: the return value, \<open>errno\<close> and the address stored; \<open>None\<close> while \<open>Accept\<close> waits.
\<close>

definition BsdAccept ::
    "bool \<Rightarrow> ProxyConnectRequestFull list list \<Rightarrow> bool \<Rightarrow> nat \<Rightarrow> pxs
       \<Rightarrow> ((int \<times> errno \<times> sockaddr_in option) option \<times> pxs) run" where
  "BsdAccept alloc_ok wakes addr_set i = (\<lambda>(pool, px).
     bind_run (deref i px) (\<lambda>s.
       if \<not> ps_isListening s then Inr (Some (-1, EINVAL, None), pool, px)
       else
         bind_run (Accept alloc_ok wakes i (pool, px)) (\<lambda>(r, pool, px).
           case r of
             Waiting \<Rightarrow> Inr (None, pool, px)
           | NotAccepted \<Rightarrow> Inr (Some (-1, EAGAIN, None), pool, px)
           | Accepted j \<Rightarrow>
               bind_run (deref j px) (\<lambda>a.
                 Inr (Some (1, E_OK, if addr_set then Some (ps_remoteEndPoint a) else None), pool, px)))))"

section \<open>Packet handlers\<close>

definition on_socket :: "(LdnProxySocket \<Rightarrow> LdnProxySocket) \<Rightarrow> nat \<Rightarrow> LdnProxySocket \<Rightarrow> pxs \<Rightarrow> pxs run" where
  "on_socket f i s = (\<lambda>(pool, px). Inr (pool, store i (f s) px))"

definition HandleConnectionRequest :: "ProxyConnectRequestFull \<Rightarrow> pxs \<Rightarrow> pxs run" where
  "HandleConnectionRequest request =
     ForRoutedSockets (pcr_info request) (on_socket (IncomingConnectionRequest request))"

definition HandleConnectionResponse :: "ProxyConnectResponseFull \<Rightarrow> pxs \<Rightarrow> pxs run" where
  "HandleConnectionResponse response =
     ForRoutedSockets (pcp_info response) (on_socket (HandleConnectResponse response))"

definition HandleData :: "ProxyDataHeaderFull \<Rightarrow> span \<Rightarrow> pxs \<Rightarrow> pxs run" where
  "HandleData proxyHeader = (\<lambda>(data, dataSize) (pool, px).
     if length data < unat dataSize then Inl BufferOverrun
     else
       let packet = \<lparr>pkt_header = proxyHeader, pkt_data = take (unat dataSize) data\<rparr> in
       ForRoutedSockets (pdh_info proxyHeader)
         (on_socket (IncomingData (IsBroadcast (pin_destIpV4 (pdh_info proxyHeader)) px) packet))
         (pool, px))"

definition HandleDisconnect :: "ProxyDisconnectMessageFull \<Rightarrow> pxs \<Rightarrow> pxs run" where
  "HandleDisconnect disconnect =
     ForRoutedSockets (pdm_info disconnect) (\<lambda>i s. Disconnect i)"

text \<open>\<open>RegisterHandlers\<close>: which callbacks the proxy sets, and what they do.\<close>

definition LdnProxy_registers :: "PacketId \<Rightarrow> bool" where
  "LdnProxy_registers t \<longleftrightarrow>
     t \<in> {PacketId_ProxyConnect, PacketId_ProxyConnectReply, PacketId_ProxyData, PacketId_ProxyDisconnect}"

definition LdnProxy_callbacks :: "LdnProxy callbacks" where
  "LdnProxy_callbacks ev st =
     (case ev of
        onProxyConnect header request \<Rightarrow> HandleConnectionRequest request st
      | onProxyConnectReply header response \<Rightarrow> HandleConnectionResponse response st
      | onProxyData header proxyHeader sp \<Rightarrow> HandleData proxyHeader sp st
      | onProxyDisconnect header disconnect \<Rightarrow> HandleDisconnect disconnect st
      | _ \<Rightarrow> Inr st)"

section \<open>What sending does\<close>

text \<open>The pool's side of the contract: a free buffer in, the same loans and contents out.\<close>

definition pool_kept :: "BufferPool \<Rightarrow> BufferPool \<Rightarrow> bool" where
  "pool_kept p p' \<longleftrightarrow> pool_inv p' \<and> borrowed p' = borrowed p \<and> same_lent (borrowed p) p p'"

definition pool_ready :: "BufferPool \<Rightarrow> bool" where
  "pool_ready p \<longleftrightarrow> pool_inv p \<and> card (borrowed p) < MaxBuffers"

lemma pool_kept_refl: "pool_ready p \<Longrightarrow> pool_kept p p"
  by (simp add: pool_kept_def pool_ready_def)

lemma pool_kept_trans: "pool_kept p q \<Longrightarrow> pool_kept q r \<Longrightarrow> pool_kept p r"
  by (auto simp: pool_kept_def intro: same_lent_trans)

lemma pool_kept_ready: "pool_ready p \<Longrightarrow> pool_kept p q \<Longrightarrow> pool_ready q"
  by (simp add: pool_kept_def pool_ready_def)

lemma send_encoded_ok:
  assumes "pool_ready pool" and "HeaderSize + length payload \<le> BufferSize"
    and "\<And>buf. encode buf = encoded type payload buf"
  shows "\<exists>pool'. send_encoded encode (pool, px) =
      Inr (True, pool', px\<lparr>px_sent := px_sent px @ [packet type payload]\<rparr>) \<and> pool_kept pool pool'"
proof -
  let ?body = "\<lambda>buf. bind_run (encode buf) (\<lambda>(n, buf). Inr (buf, take n buf))"
  have body: "\<exists>buf'. ?body buf = Inr (buf', packet type payload) \<and> length buf' = BufferSize"
    if "length buf = BufferSize" for buf
    using that assms(2) by (simp add: assms(3) encoded_def)
  have "card (borrowed pool) \<noteq> card {..<MaxBuffers}" using assms(1) by (simp add: pool_ready_def)
  then have "borrowed pool \<noteq> {..<MaxBuffers}" by metis
  moreover have "pool_inv pool" using assms(1) by (simp add: pool_ready_def)
  ultimately have "\<exists>b buf. with_ScopedBuffer pool ?body
      = Inr (Some (packet type payload), write_buffer b buf pool)
      \<and> length buf = BufferSize \<and> b \<notin> borrowed pool \<and> b < MaxBuffers"
    using body by (intro with_ScopedBuffer_ok)
  then obtain b buf where r: "with_ScopedBuffer pool ?body = Inr (Some (packet type payload), write_buffer b buf pool)"
      "length buf = BufferSize" "b \<notin> borrowed pool"
    by blast
  have "pool_kept pool (write_buffer b buf pool)"
    using assms(1) r(2,3) by (simp add: pool_kept_def pool_ready_def pool_inv_write same_lent_write)
  with r(1) show ?thesis by (simp add: send_encoded_def)
qed

lemma send_encoded_overrun:
  assumes "pool_ready pool" and "BufferSize < HeaderSize + length payload"
    and "\<And>buf. encode buf = encoded type payload buf"
  shows "send_encoded encode (pool, px) = Inl BufferOverrun"
proof -
  obtain b p' where b: "BorrowBuffer_try pool = (Some b, p')"
    using bpool.borrow_succeeds assms(1) unfolding pool_ready_def by blast
  have inv: "pool_inv pool" using assms(1) by (simp add: pool_ready_def)
  have "length (bp_storage p' ! b) = BufferSize"
    using borrow_Some [OF inv b] inv by (auto simp: pool_inv_def storage_ok_def)
  with assms(2) show ?thesis
    by (simp add: send_encoded_def with_ScopedBuffer_def b assms(3) encoded_def)
qed

lemma EndConnection_ok:
  assumes "pool_ready pool"
  shows "\<exists>pool'. EndConnection l r t (pool, px) =
      Inr (pool', px\<lparr>px_sent := px_sent px @ [packet PacketId_ProxyDisconnect
        (put_ProxyDisconnectMessageFull \<lparr>pdm_info = MakeInfo l r t, pdm_reason = DisconnectReason_None\<rparr>)]\<rparr>)
      \<and> pool_kept pool pool'"
proof -
  let ?m = "\<lparr>pdm_info = MakeInfo l r t, pdm_reason = DisconnectReason_None\<rparr>"
  have "length (put_ProxyDisconnectMessageFull ?m) = 20"
    by (rule ProxyDisconnectMessageFull_wire.length_put_wf)
       (simp add: wf_ProxyDisconnectMessageFull_def wf_ProxyInfo_def)
  then have "HeaderSize + length (put_ProxyDisconnectMessageFull ?m) \<le> BufferSize"
    by (simp add: BufferSize_def MaxPacketSize_def HeaderSize_def)
  from send_encoded_ok [OF assms this Encode_struct_packet, of PacketId_ProxyDisconnect px]
  show ?thesis by (auto simp: EndConnection_def)
qed

section \<open>The callbacks meet the contract of the protocol\<close>

definition socket_effect :: "(nat \<Rightarrow> LdnProxySocket \<Rightarrow> LdnProxy \<Rightarrow> LdnProxy) \<Rightarrow> ProxyInfo \<Rightarrow> nat \<Rightarrow> LdnProxy \<Rightarrow> LdnProxy" where
  "socket_effect f info i px =
     (case px_heap px i of None \<Rightarrow> px | Some s \<Rightarrow> if routed info s then f i s px else px)"

definition route :: "(nat \<Rightarrow> LdnProxySocket \<Rightarrow> LdnProxy \<Rightarrow> LdnProxy) \<Rightarrow> ProxyInfo \<Rightarrow> LdnProxy \<Rightarrow> LdnProxy" where
  "route f info px = fold (socket_effect f info) (px_sockets px) px"

definition update_socket :: "(LdnProxySocket \<Rightarrow> LdnProxySocket) \<Rightarrow> nat \<Rightarrow> LdnProxySocket \<Rightarrow> LdnProxy \<Rightarrow> LdnProxy" where
  "update_socket f i s px = store i (f s) px"

definition disconnect_socket :: "nat \<Rightarrow> LdnProxySocket \<Rightarrow> LdnProxy \<Rightarrow> LdnProxy" where
  "disconnect_socket i s px =
     (if ps_connected s
      then store i (s\<lparr>ps_remoteEndPoint := zero_sockaddr, ps_connected := False\<rparr>)
             (px\<lparr>px_sent := px_sent px @ [packet PacketId_ProxyDisconnect
                (put_ProxyDisconnectMessageFull
                  \<lparr>pdm_info = MakeInfo (ps_localEndPoint s) (ps_remoteEndPoint s) (ps_protocolType s),
                   pdm_reason = DisconnectReason_None\<rparr>)]\<rparr>)
      else px)"

definition LdnProxy_effect :: "RyuEvent \<Rightarrow> LdnProxy \<Rightarrow> LdnProxy" where
  "LdnProxy_effect ev px =
     (case ev of
        onProxyConnect h request \<Rightarrow>
          route (update_socket (IncomingConnectionRequest request)) (pcr_info request) px
      | onProxyConnectReply h response \<Rightarrow>
          route (update_socket (HandleConnectResponse response)) (pcp_info response) px
      | onProxyData h pd sp \<Rightarrow>
          route (update_socket (IncomingData (IsBroadcast (pin_destIpV4 (pdh_info pd)) px)
                   \<lparr>pkt_header = pd, pkt_data = fst sp\<rparr>)) (pdh_info pd) px
      | onProxyDisconnect h m \<Rightarrow> route disconnect_socket (pdm_info m) px
      | _ \<Rightarrow> px)"

definition live :: "LdnProxy \<Rightarrow> bool" where
  "live px \<longleftrightarrow> set (px_sockets px) \<subseteq> dom (px_heap px)"

definition refines_action ::
    "(nat \<Rightarrow> LdnProxySocket \<Rightarrow> pxs \<Rightarrow> pxs run) \<Rightarrow> (nat \<Rightarrow> LdnProxySocket \<Rightarrow> LdnProxy \<Rightarrow> LdnProxy) \<Rightarrow> bool" where
  "refines_action action f \<longleftrightarrow>
     (\<forall>i s pool px. pool_ready pool \<longrightarrow> px_heap px i = Some s \<longrightarrow>
        (\<exists>pool'. action i s (pool, px) = Inr (pool', f i s px) \<and> pool_kept pool pool')
        \<and> dom (px_heap (f i s px)) = dom (px_heap px))"

lemma for_sockets_route:
  "refines_action action f \<Longrightarrow> pool_ready pool \<Longrightarrow> set is \<subseteq> dom (px_heap px) \<Longrightarrow>
   \<exists>pool'. for_sockets is info action (pool, px) = Inr (pool', fold (socket_effect f info) is px)
     \<and> pool_kept pool pool' \<and> dom (px_heap (fold (socket_effect f info) is px)) = dom (px_heap px)"
proof (induction "is" arbitrary: pool px)
  case Nil
  then show ?case by (simp add: pool_kept_refl)
next
  case (Cons i "is")
  then obtain s where s: "px_heap px i = Some s" by auto
  show ?case
  proof (cases "routed info s")
    case False
    then have "socket_effect f info i px = px" using s by (simp add: socket_effect_def)
    with Cons s False show ?thesis by (simp add: deref_def)
  next
    case True
    obtain pool1 where a: "action i s (pool, px) = Inr (pool1, f i s px)" "pool_kept pool pool1"
      and d: "dom (px_heap (f i s px)) = dom (px_heap px)"
      using Cons.prems(1,2) s unfolding refines_action_def by blast
    have "set is \<subseteq> dom (px_heap (f i s px))" using Cons.prems(3) d by simp
    from Cons.IH [OF Cons.prems(1) pool_kept_ready [OF Cons.prems(2) a(2)] this]
    obtain pool2 where
      "for_sockets is info action (pool1, f i s px) = Inr (pool2, fold (socket_effect f info) is (f i s px))"
      "pool_kept pool1 pool2"
      "dom (px_heap (fold (socket_effect f info) is (f i s px))) = dom (px_heap px)"
      using d by auto
    moreover have "socket_effect f info i px = f i s px" using True s by (simp add: socket_effect_def)
    ultimately show ?thesis
      using a True s pool_kept_trans [OF a(2)] by (simp add: deref_def)
  qed
qed

lemma ForRoutedSockets_route:
  assumes "refines_action action f" and "pool_ready pool" and "live px"
  shows "\<exists>pool'. ForRoutedSockets info action (pool, px) = Inr (pool', route f info px) \<and> pool_kept pool pool'"
  using for_sockets_route [OF assms(1,2)] assms(3)
  by (fastforce simp: ForRoutedSockets_def route_def live_def)

lemma refines_on_socket: "refines_action (on_socket f) (update_socket f)"
  by (auto simp: refines_action_def on_socket_def update_socket_def store_def pool_kept_refl)

lemma refines_disconnect: "refines_action (\<lambda>i s. Disconnect i) disconnect_socket"
proof -
  have "(\<exists>pool'. Disconnect i (pool, px) = Inr (pool', disconnect_socket i s px) \<and> pool_kept pool pool')
      \<and> dom (px_heap (disconnect_socket i s px)) = dom (px_heap px)"
    if "pool_ready pool" "px_heap px i = Some s" for i s pool px
    using that EndConnection_ok [OF that(1), of "ps_localEndPoint s" "ps_remoteEndPoint s" "ps_protocolType s" px]
    by (auto simp: Disconnect_def deref_def disconnect_socket_def store_def pool_kept_refl)
  then show ?thesis unfolding refines_action_def by blast
qed

lemma socket_effect_dom:
  "refines_action action f \<Longrightarrow> pool_ready pool \<Longrightarrow> dom (px_heap (socket_effect f info i px)) = dom (px_heap px)"
  by (auto simp: socket_effect_def refines_action_def split: option.splits)

lemma px_sockets_effect [simp]:
  "px_sockets (update_socket f i s px) = px_sockets px"
  "px_sockets (disconnect_socket i s px) = px_sockets px"
  by (simp_all add: update_socket_def disconnect_socket_def store_def)

lemma route_sockets:
  assumes "\<And>i s px. px_sockets (f i s px) = px_sockets px"
  shows "px_sockets (route f info px) = px_sockets px"
proof -
  have "px_sockets (fold (socket_effect f info) is p) = px_sockets p" for "is" p
    by (induction "is" arbitrary: p) (auto simp: socket_effect_def assms split: option.splits)
  then show ?thesis by (simp add: route_def)
qed

lemma route_dom:
  assumes "\<And>i s px. px_heap px i = Some s \<Longrightarrow> dom (px_heap (f i s px)) = dom (px_heap px)"
  shows "dom (px_heap (route f info px)) = dom (px_heap px)"
proof -
  have "dom (px_heap (fold (socket_effect f info) is p)) = dom (px_heap p)" for "is" p
    by (induction "is" arbitrary: p) (auto simp: socket_effect_def assms split: option.splits)
  then show ?thesis by (simp add: route_def)
qed

lemma dom_effect:
  "px_heap px i = Some s \<Longrightarrow> dom (px_heap (update_socket f i s px)) = dom (px_heap px)"
  "px_heap px i = Some s \<Longrightarrow> dom (px_heap (disconnect_socket i s px)) = dom (px_heap px)"
  by (auto simp: update_socket_def disconnect_socket_def store_def)

lemma live_effect: "live px \<Longrightarrow> live (LdnProxy_effect ev px)"
  by (simp add: live_def LdnProxy_effect_def route_sockets route_dom dom_effect split: RyuEvent.split)

lemma LdnProxy_callbacks_effect:
  assumes "pool_ready pool" and "live px" and "event_ok ev"
  shows "\<exists>pool'. LdnProxy_callbacks ev (pool, px) = Inr (pool', LdnProxy_effect ev px) \<and> pool_kept pool pool'"
proof -
  note r = ForRoutedSockets_route [OF refines_on_socket assms(1,2)]
    ForRoutedSockets_route [OF refines_disconnect assms(1,2)]
  show ?thesis
  proof (cases ev)
    case (onProxyData h pd sp)
    then have "length (fst sp) = unat (snd sp)" using assms(3) by (simp add: event_ok_def)
    with onProxyData r(1) show ?thesis
      by (cases sp) (simp add: LdnProxy_callbacks_def LdnProxy_effect_def HandleData_def)
  qed (use r pool_kept_refl [OF assms(1)] in \<open>simp_all add: LdnProxy_callbacks_def LdnProxy_effect_def
        HandleConnectionRequest_def HandleConnectionResponse_def HandleDisconnect_def\<close>)
qed

interpretation proxy_handler: packet_handler LdnProxy_callbacks LdnProxy_effect live
proof unfold_locales
  fix p w ev assume "pool_inv p" "card (borrowed p) < MaxBuffers" "live w" "event_ok ev"
  then show "\<exists>p'. LdnProxy_callbacks ev (p, w) = Inr (p', LdnProxy_effect ev w) \<and> pool_inv p'
      \<and> borrowed p' = borrowed p \<and> same_lent (borrowed p) p p'"
    using LdnProxy_callbacks_effect [of p w ev] by (auto simp: pool_ready_def pool_kept_def)
qed (rule live_effect)

end
