(* ===== verification/Proxy_Machine.thy ===== *)
theory Proxy_Machine
  imports Ldn_Proxy
begin

text \<open>
  The proxy and its sockets as a state machine: the invariant of the object graph, the step relation
  whose steps are the operations of \<open>Proxy_Socket\<close> and \<open>Ldn_Proxy\<close>, and what holds in every
  reachable state. \<open>Close\<close>, the one recursive operation, is shown to return.
\<close>

section \<open>The invariant\<close>

definition ports_inv :: "(u32 \<rightharpoonup> EphemeralPortPool) \<Rightarrow> bool" where
  "ports_inv m \<longleftrightarrow> dom m = {IPPROTO_TCP, IPPROTO_UDP} \<and> (\<forall>t ps. m t = Some ps \<longrightarrow> ports_ok ps)"

definition children_ok :: "nat \<Rightarrow> LdnProxySocket \<Rightarrow> LdnProxy \<Rightarrow> bool" where
  "children_ok i s px \<longleftrightarrow> (\<forall>j \<in> set (ps_listenSockets s). i < j \<and> j \<in> dom (px_heap px))"

text \<open>
  The parameter is a set of sockets that the owner of the proxy holds, none of which another socket has
  accepted; the operations keep it. A socket may be registered more than once.
\<close>

definition px_shape :: "nat set \<Rightarrow> LdnProxy \<Rightarrow> bool" where
  "px_shape R px \<longleftrightarrow>
     R \<subseteq> dom (px_heap px) \<and> live px \<and> (\<forall>i \<in> dom (px_heap px). i < px_next px)
     \<and> ports_inv (px_ephemeralPorts px)
     \<and> (\<forall>i s. px_heap px i = Some s \<longrightarrow>
          (ps_closed s \<longrightarrow> i \<notin> set (px_sockets px)) \<and> children_ok i s px
          \<and> set (ps_listenSockets s) \<inter> R = {})"

abbreviation px_inv :: "LdnProxy \<Rightarrow> bool" where
  "px_inv \<equiv> px_shape {}"

lemma px_inv_new: "px_shape {} (LdnProxy_new config)"
  by (auto simp: px_shape_def live_def ports_inv_def ports_ok_def LdnProxy_new_def
      EphemeralPortPool_new_def split: if_splits)

lemma px_invD:
  assumes "px_shape R px" and "px_heap px i = Some s"
  shows "i < px_next px" and "ps_closed s \<Longrightarrow> i \<notin> set (px_sockets px)" and "children_ok i s px"
    and "set (ps_listenSockets s) \<inter> R = {}"
  using assms by (auto simp: px_shape_def)

lemma px_inv_store:
  assumes "px_shape R px" and "px_heap px i = Some s"
    and "ps_closed s' \<Longrightarrow> i \<notin> set (px_sockets px)"
    and "children_ok i s' px" and "set (ps_listenSockets s') \<inter> R = {}"
  shows "px_shape R (store i s' px)"
  using assms unfolding px_shape_def live_def store_def children_ok_def
  by (auto split: if_splits)

text \<open>An update that leaves the flags and the children of a socket alone.\<close>

lemma px_inv_update:
  assumes "px_shape R px" and "px_heap px i = Some s"
    and "ps_closed s' = ps_closed s" and "ps_listenSockets s' = ps_listenSockets s"
  shows "px_shape R (store i s' px)"
  using assms px_invD [OF assms(1,2)] by (intro px_inv_store) (auto simp: children_ok_def)

lemma px_inv_same:
  assumes "px_shape R px" and "px_sockets px' = px_sockets px" and "px_heap px' = px_heap px"
    and "px_next px' = px_next px" and "px_ephemeralPorts px' = px_ephemeralPorts px"
  shows "px_shape R px'"
  using assms by (simp add: px_shape_def live_def children_ok_def)

lemma px_inv_sent [simp]: "px_shape R (px\<lparr>px_sent := x\<rparr>) = px_shape R px"
  by (simp add: px_shape_def live_def children_ok_def)

lemma px_inv_ports:
  "px_shape R px \<Longrightarrow> ports_inv m \<Longrightarrow> px_shape R (px\<lparr>px_ephemeralPorts := m\<rparr>)"
  by (simp add: px_shape_def live_def children_ok_def)

lemma ports_inv_upd: "ports_inv m \<Longrightarrow> m t = Some ps \<Longrightarrow> ports_ok ps' \<Longrightarrow> ports_inv (m(t \<mapsto> ps'))"
  by (auto simp: ports_inv_def)

lemma ports_invD: "px_shape R px \<Longrightarrow> px_ephemeralPorts px t = Some ps \<Longrightarrow> ports_ok ps"
  by (auto simp: px_shape_def ports_inv_def)

lemma GetEphemeralPort_inv:
  assumes "px_shape R px" and "GetEphemeralPort t px = (p, px')"
  shows "px_shape R px'" and "px_heap px' = px_heap px" and "px_sockets px' = px_sockets px"
    and "px_next px' = px_next px"
proof -
  have "ports_inv (px_ephemeralPorts px')"
  proof (cases "px_ephemeralPorts px t")
    case None
    with assms show ?thesis by (auto simp: GetEphemeralPort_def px_shape_def)
  next
    case (Some ps)
    obtain q ps' where a: "AllocatePort ps = (q, ps')" by (cases "AllocatePort ps")
    then have "ports_ok ps'" using AllocatePort_spec(1) ports_invD [OF assms(1) Some] by blast
    with assms Some a show ?thesis
      by (auto simp: GetEphemeralPort_def px_shape_def ports_inv_upd)
  qed
  moreover show "px_heap px' = px_heap px" "px_sockets px' = px_sockets px" "px_next px' = px_next px"
    using assms(2) by (auto simp: GetEphemeralPort_def split: option.splits prod.splits)
  ultimately show "px_shape R px'" using assms(1) by (simp add: px_shape_def live_def children_ok_def)
qed

lemma ReturnEphemeralPort_inv:
  assumes "px_shape R px"
  shows "px_shape R (ReturnEphemeralPort t p px)" and "px_heap (ReturnEphemeralPort t p px) = px_heap px"
    and "px_sockets (ReturnEphemeralPort t p px) = px_sockets px"
    and "px_next (ReturnEphemeralPort t p px) = px_next px"
proof -
  have "ports_inv (px_ephemeralPorts (ReturnEphemeralPort t p px))"
    using assms ports_invD [OF assms]
    by (auto simp: ReturnEphemeralPort_def px_shape_def ports_inv_upd ports_ok_return split: option.splits)
  moreover show "px_heap (ReturnEphemeralPort t p px) = px_heap px"
    and "px_sockets (ReturnEphemeralPort t p px) = px_sockets px"
    and "px_next (ReturnEphemeralPort t p px) = px_next px"
    by (auto simp: ReturnEphemeralPort_def split: option.splits)
  ultimately show "px_shape R (ReturnEphemeralPort t p px)"
    using assms by (simp add: px_shape_def live_def children_ok_def)
qed

section \<open>Every operation keeps it\<close>

lemma send_encoded_sent:
  assumes "send_encoded enc (pool, px) = Inr (ok, pool', px')"
  shows "\<exists>x. px' = px\<lparr>px_sent := x\<rparr>"
proof -
  have "px' = px\<lparr>px_sent := px_sent px\<rparr> \<or> (\<exists>pk. px' = px\<lparr>px_sent := px_sent px @ [pk]\<rparr>)"
    using assms by (auto simp: send_encoded_def bind_run_Inr_iff split: option.splits)
  then show ?thesis by blast
qed

lemma send_struct_sent:
  "RequestConnection l r t (pool, px) = Inr (pool', px') \<Longrightarrow> \<exists>x. px' = px\<lparr>px_sent := x\<rparr>"
  "SignalConnected l r t (pool, px) = Inr (pool', px') \<Longrightarrow> \<exists>x. px' = px\<lparr>px_sent := x\<rparr>"
  "EndConnection l r t (pool, px) = Inr (pool', px') \<Longrightarrow> \<exists>x. px' = px\<lparr>px_sent := x\<rparr>"
  "SendTo d l r t (pool, px) = Inr (n, pool', px') \<Longrightarrow> \<exists>x. px' = px\<lparr>px_sent := x\<rparr>"
  by (auto simp: RequestConnection_def SignalConnected_def EndConnection_def SendTo_def
      bind_run_Inr_iff Let_def dest: send_encoded_sent)

lemma deref_Some: "deref i px = Inr s \<longleftrightarrow> px_heap px i = Some s"
  by (simp add: deref_def split: option.splits)

lemma new_socket:
  "ps_closed (LdnProxySocket_new d t p) = False" "ps_listenSockets (LdnProxySocket_new d t p) = []"
  by (simp_all add: LdnProxySocket_new_def)

lemma px_inv_create: "px_shape R px \<Longrightarrow> px_shape R (snd (socket_create d t p px))"
proof -
  assume inv: "px_shape R px"
  then have "px_next px \<notin> dom (px_heap px)" "px_next px \<notin> set (px_sockets px)"
    by (auto simp: px_shape_def live_def subset_iff)
  with inv show ?thesis
    by (auto simp: socket_create_def RegisterSocket_def px_shape_def live_def children_ok_def
        new_socket subset_iff less_Suc_eq Let_def)
qed

lemma EnsureLocalEndpoint_inv:
  assumes "px_shape R px" and "EnsureLocalEndpoint r i px = Inr (ep, px')"
  shows "px_shape R px'" and "px_sockets px' = px_sockets px" and "px_next px' = px_next px"
    and "\<exists>s. px_heap px i = Some s
           \<and> (px' = px \<or> px_heap px' = (px_heap px)(i \<mapsto> s\<lparr>ps_localEndPoint := ep\<rparr>))"
proof -
  obtain s where s: "px_heap px i = Some s"
    using assms(2) by (auto simp: EnsureLocalEndpoint_def bind_run_Inr_iff deref_Some)
  define c where "c = (ps_isBound s \<and> sin_port (ps_localEndPoint s) \<noteq> 0)"
  define px1 where "px1 = (if c then ReturnEphemeralPort (ps_protocolType s)
      (ntohs (sin_port (ps_localEndPoint s))) px else px)"
  obtain port px2 where p: "GetEphemeralPort (ps_protocolType s) px1 = (port, px2)"
    by (cases "GetEphemeralPort (ps_protocolType s) px1")
  have 1: "px_shape R px1" "px_heap px1 = px_heap px" "px_sockets px1 = px_sockets px" "px_next px1 = px_next px"
    using assms(1) by (simp_all add: px1_def ReturnEphemeralPort_inv)
  note 2 = GetEphemeralPort_inv [OF 1(1) p]
  have "px' = px \<or> (px' = store i (s\<lparr>ps_localEndPoint := ep\<rparr>) px2)"
    using assms(2) s p
    by (auto simp: EnsureLocalEndpoint_def deref_def Let_def c_def px1_def split: if_splits)
  moreover have "px_shape R (store i (s\<lparr>ps_localEndPoint := ep\<rparr>) px2)"
    by (rule px_inv_update [OF 2(1), of i s]) (simp_all add: 1 2 s)
  ultimately show "px_shape R px'" "px_sockets px' = px_sockets px" "px_next px' = px_next px"
    "\<exists>s. px_heap px i = Some s
       \<and> (px' = px \<or> px_heap px' = (px_heap px)(i \<mapsto> s\<lparr>ps_localEndPoint := ep\<rparr>))"
    using assms(1) s 1 2 by (auto simp: store_def)
qed

lemma Bind_inv:
  assumes "px_shape R px" and "Bind ep i px = Inr px'"
  shows "px_shape R px'"
proof (cases ep)
  case None
  with assms show ?thesis by (simp add: Bind_def)
next
  case (Some e)
  obtain s where s: "px_heap px i = Some s"
    using assms(2) Some by (auto simp: Bind_def bind_run_Inr_iff deref_Some)
  define px1 where "px1 = (if ps_isBound s \<and> sin_port (ps_localEndPoint s) \<noteq> 0
      then ReturnEphemeralPort (ps_protocolType s) (ntohs (sin_port (ps_localEndPoint s))) px else px)"
  have 1: "px_shape R px1" "px_heap px1 = px_heap px"
    using assms(1) by (simp_all add: px1_def ReturnEphemeralPort_inv)
  obtain port px2 where p: "GetEphemeralPort (ps_protocolType s) px1 = (port, px2)"
    by (cases "GetEphemeralPort (ps_protocolType s) px1")
  note 2 = GetEphemeralPort_inv [OF 1(1) p]
  have "px' = store i (s\<lparr>ps_localEndPoint := e\<rparr>\<lparr>ps_isBound := True\<rparr>) px1
      \<or> (\<exists>e'. px' = store i (s\<lparr>ps_localEndPoint := e', ps_isBound := True\<rparr>) px2)"
    using assms(2) Some s p by (auto simp: Bind_def deref_def Let_def px1_def split: if_splits)
  with px_inv_update [OF 1(1), of i s] px_inv_update [OF 2(1), of i s] 1 2 s
  show ?thesis by auto
qed

lemma Disconnect_inv:
  assumes "px_shape R px" and "Disconnect i (pool, px) = Inr (pool', px')"
  shows "px_shape R px'" and "px_sockets px' = px_sockets px" and "px_next px' = px_next px"
    and "\<exists>s s'. px_heap px i = Some s \<and> px_heap px' = (px_heap px)(i \<mapsto> s')
           \<and> ps_closed s' = ps_closed s \<and> ps_listenSockets s' = ps_listenSockets s"
proof -
  obtain s where s: "px_heap px i = Some s"
    using assms(2) by (auto simp: Disconnect_def bind_run_Inr_iff deref_Some)
  define s' where "s' = s\<lparr>ps_remoteEndPoint := zero_sockaddr, ps_connected := False\<rparr>"
  have "(px' = px) \<or> (\<exists>x. px' = store i s' (px\<lparr>px_sent := x\<rparr>))"
    using assms(2) s
    by (auto simp: Disconnect_def deref_def bind_run_Inr_iff s'_def split: if_splits
        dest!: send_struct_sent)
  moreover have "px_shape R (store i s' (px\<lparr>px_sent := x\<rparr>))" for x
    by (rule px_inv_update [of _ _ i s]) (simp_all add: assms(1) s s'_def)
  moreover have "px_heap px = (px_heap px)(i \<mapsto> s)" using s by (simp add: fun_upd_idem)
  ultimately show "px_shape R px'" "px_sockets px' = px_sockets px" "px_next px' = px_next px"
    "\<exists>s s'. px_heap px i = Some s \<and> px_heap px' = (px_heap px)(i \<mapsto> s')
           \<and> ps_closed s' = ps_closed s \<and> ps_listenSockets s' = ps_listenSockets s"
    using assms(1) s by (auto simp: store_def s'_def)
qed

section \<open>Closing\<close>

text \<open>What a \<open>Close\<close> may change of the object graph.\<close>

definition closes :: "LdnProxy \<Rightarrow> LdnProxy \<Rightarrow> bool" where
  "closes px px' \<longleftrightarrow>
     dom (px_heap px') = dom (px_heap px) \<and> px_next px' = px_next px
     \<and> set (px_sockets px') \<subseteq> set (px_sockets px)
     \<and> (\<forall>i s s'. px_heap px i = Some s \<longrightarrow> px_heap px' i = Some s' \<longrightarrow>
          set (ps_listenSockets s') \<subseteq> set (ps_listenSockets s) \<and> (ps_closed s \<longrightarrow> ps_closed s'))"

lemma closes_refl: "closes px px"
  by (simp add: closes_def)

lemma closes_trans: "closes a b \<Longrightarrow> closes b c \<Longrightarrow> closes a c"
  unfolding closes_def by (metis (no_types, opaque_lifting) domD domI subset_trans)

lemma closesD: "closes px px' \<Longrightarrow> px_heap px i = Some s \<Longrightarrow>
  \<exists>s'. px_heap px' i = Some s' \<and> set (ps_listenSockets s') \<subseteq> set (ps_listenSockets s)
     \<and> (ps_closed s \<longrightarrow> ps_closed s')"
  unfolding closes_def by (metis domD domI)

lemma mark_closed:
  assumes "px_shape R px" and "px_heap px i = Some s"
  shows "px_shape R (UnregisterSocket i (store i (s\<lparr>ps_closed := True\<rparr>) px))"
    and "closes px (UnregisterSocket i (store i (s\<lparr>ps_closed := True\<rparr>) px))"
proof -
  have "px_shape R (px\<lparr>px_sockets := removeAll i (px_sockets px)\<rparr>)"
    using assms by (auto simp: px_shape_def live_def children_ok_def)
  then have "px_shape R (store i (s\<lparr>ps_closed := True\<rparr>) (px\<lparr>px_sockets := removeAll i (px_sockets px)\<rparr>))"
    using assms px_invD(3,4) [OF assms] by (intro px_inv_store [of _ _ i s]) (auto simp: children_ok_def)
  then show "px_shape R (UnregisterSocket i (store i (s\<lparr>ps_closed := True\<rparr>) px))"
    by (rule px_inv_same) (simp_all add: UnregisterSocket_def store_def)
  show "closes px (UnregisterSocket i (store i (s\<lparr>ps_closed := True\<rparr>) px))"
    using assms by (auto simp: closes_def UnregisterSocket_def store_def)
qed

definition close_ok :: "nat \<Rightarrow> bool" where
  "close_ok n \<longleftrightarrow>
     (\<forall>R i pool px. px_shape R px \<longrightarrow> pool_ready pool \<longrightarrow> i \<in> dom (px_heap px) \<longrightarrow> px_next px - i < n \<longrightarrow>
        (\<exists>pool' px'. Close_fuel n i (pool, px) = Inr (pool', px') \<and> px_shape R px' \<and> pool_kept pool pool'
           \<and> closes px px' \<and> (\<exists>s. px_heap px' i = Some s \<and> ps_closed s)))"

lemma Close_list_returns:
  "close_ok n \<Longrightarrow> px_shape R px \<Longrightarrow> pool_ready pool \<Longrightarrow>
   \<forall>j \<in> set js. j \<in> dom (px_heap px) \<and> px_next px - j < n \<Longrightarrow>
   \<exists>pool' px'. Close_list n js (pool, px) = Inr (pool', px') \<and> px_shape R px' \<and> pool_kept pool pool'
     \<and> closes px px'"
proof (induction js arbitrary: pool px)
  case Nil
  then show ?case by (simp add: pool_kept_refl closes_refl)
next
  case (Cons j js)
  from Cons.prems have j: "j \<in> dom (px_heap px)" "px_next px - j < n" by auto
  obtain pool1 px1 where 1: "Close_fuel n j (pool, px) = Inr (pool1, px1)" "px_shape R px1"
      "pool_kept pool pool1" "closes px px1"
    using Cons.prems(1) [unfolded close_ok_def, rule_format, OF Cons.prems(2,3) j] by blast
  have "\<forall>j \<in> set js. j \<in> dom (px_heap px1) \<and> px_next px1 - j < n"
    using Cons.prems(4) 1(4) by (simp add: closes_def)
  from Cons.IH [OF Cons.prems(1) 1(2) pool_kept_ready [OF Cons.prems(3) 1(3)] this]
  obtain pool2 px2 where "Close_list n js (pool1, px1) = Inr (pool2, px2)" "px_shape R px2"
      "pool_kept pool1 pool2" "closes px1 px2" by blast
  with 1 pool_kept_trans [OF 1(3)] closes_trans [OF 1(4)] show ?case by simp
qed

lemma unlist_ok:
  assumes "px_shape R px" and "px_heap px i = Some s"
  shows "px_shape R (store i (s\<lparr>ps_listenSockets := [], ps_isListening := False\<rparr>) px)"
    and "closes px (store i (s\<lparr>ps_listenSockets := [], ps_isListening := False\<rparr>) px)"
proof -
  show "px_shape R (store i (s\<lparr>ps_listenSockets := [], ps_isListening := False\<rparr>) px)"
    using assms px_invD [OF assms] by (intro px_inv_store) (auto simp: children_ok_def)
  show "closes px (store i (s\<lparr>ps_listenSockets := [], ps_isListening := False\<rparr>) px)"
    using assms by (auto simp: closes_def store_def)
qed

lemma close_ok_Suc: "close_ok n \<Longrightarrow> close_ok (Suc n)"
  unfolding close_ok_def [of "Suc n"]
proof (intro allI impI)
  fix R i pool px
  assume ih: "close_ok n" and inv: "px_shape R px" and rdy: "pool_ready pool"
    and i: "i \<in> dom (px_heap px)" and n: "px_next px - i < Suc n"
  from i obtain s where s: "px_heap px i = Some s" by auto
  show "\<exists>pool' px'. Close_fuel (Suc n) i (pool, px) = Inr (pool', px') \<and> px_shape R px'
      \<and> pool_kept pool pool' \<and> closes px px' \<and> (\<exists>s. px_heap px' i = Some s \<and> ps_closed s)"
  proof (cases "ps_closed s")
    case True
    with s inv rdy show ?thesis by (simp add: deref_def pool_kept_refl closes_refl)
  next
    case False
    define s1 where "s1 = s\<lparr>ps_closed := True\<rparr>"
    define px1 where "px1 = UnregisterSocket i (store i s1 px)"
    have m: "px_shape R px1" "closes px px1" using mark_closed [OF inv s] by (simp_all add: px1_def s1_def)
    have h1: "px_heap px1 i = Some s1" by (simp add: px1_def UnregisterSocket_def store_def)
    obtain pool2 where d: "Disconnect i (pool, px1) = Inr (pool2, disconnect_socket i s1 px1)"
        "pool_kept pool pool2"
      using refines_disconnect rdy h1 unfolding refines_action_def by blast
    define px2 where "px2 = disconnect_socket i s1 px1"
    note di = Disconnect_inv [OF m(1) d(1), folded px2_def]
    obtain s2 where h2: "px_heap px2 = (px_heap px1)(i \<mapsto> s2)" "ps_closed s2"
        "ps_listenSockets s2 = ps_listenSockets s"
      using di(4) h1 by (auto simp: s1_def)
    have c12: "closes px1 px2" using di(2,3) h1 h2 by (auto simp: closes_def s1_def)
    note c2 = closes_trans [OF m(2) c12]
    have js: "\<forall>j \<in> set (ps_listenSockets s). j \<in> dom (px_heap px2) \<and> px_next px2 - j < n"
    proof
      fix j assume "j \<in> set (ps_listenSockets s)"
      then have j: "i < j" "j \<in> dom (px_heap px)" using px_invD(3) [OF inv s] by (auto simp: children_ok_def)
      then have "j < px_next px" using inv by (auto simp: px_shape_def)
      with j n c2 show "j \<in> dom (px_heap px2) \<and> px_next px2 - j < n" by (auto simp: closes_def)
    qed
    obtain pool3 px3 where l: "Close_list n (ps_listenSockets s) (pool2, px2) = Inr (pool3, px3)"
        "px_shape R px3" "pool_kept pool2 pool3" "closes px2 px3"
      using Close_list_returns [OF ih di(1) pool_kept_ready [OF rdy d(2)] js] by blast
    obtain s3 where s3: "px_heap px3 i = Some s3" "ps_closed s3"
      using closesD [OF l(4), of i s2] h2 by auto
    let ?s4 = "s3\<lparr>ps_listenSockets := [], ps_isListening := False\<rparr>"
    have "Close_fuel (Suc n) i (pool, px) = Inr (pool3, store i ?s4 px3)"
      using s False d(1) l(1) s3(1) by (simp add: deref_def px1_def s1_def px2_def)
    moreover have "closes px (store i ?s4 px3)"
      using closes_trans [OF closes_trans [OF c2 l(4)] unlist_ok(2) [OF l(2) s3(1)]] .
    moreover have "px_heap (store i ?s4 px3) i = Some ?s4" by (simp add: store_def)
    ultimately show ?thesis
      using unlist_ok(1) [OF l(2) s3(1)] pool_kept_trans [OF d(2) l(3)] s3(2) by fastforce
  qed
qed

lemma close_ok: "close_ok n"
  by (induction n) (simp_all add: close_ok_Suc, simp add: close_ok_def)

lemma Close_returns:
  assumes "px_shape R px" and "pool_ready pool" and "i \<in> dom (px_heap px)"
  shows "\<exists>pool' px'. Close i (pool, px) = Inr (pool', px') \<and> px_shape R px' \<and> pool_kept pool pool'
     \<and> closes px px' \<and> (\<exists>s. px_heap px' i = Some s \<and> ps_closed s)"
  using close_ok [of "Suc (px_next px)", unfolded close_ok_def, rule_format, OF assms]
  by (simp add: Close_def)

section \<open>Traffic and connections\<close>

lemma send_encoded_kept:
  assumes "pool_ready pool" and "send_encoded encode (pool, px) = Inr (ok, pool', px')"
    and "\<And>buf. encode buf = encoded type payload buf"
  shows "pool_kept pool pool'"
proof (cases "HeaderSize + length payload \<le> BufferSize")
  case True
  from send_encoded_ok [OF assms(1) True assms(3), of px] assms(2) show ?thesis by auto
next
  case False
  then have "BufferSize < HeaderSize + length payload" by simp
  from send_encoded_overrun [OF assms(1) this assms(3), of px] assms(2) show ?thesis by simp
qed

lemma send_struct_kept:
  "pool_ready pool \<Longrightarrow> RequestConnection l r t (pool, px) = Inr (pool', px') \<Longrightarrow> pool_kept pool pool'"
  "pool_ready pool \<Longrightarrow> SignalConnected l r t (pool, px) = Inr (pool', px') \<Longrightarrow> pool_kept pool pool'"
  "pool_ready pool \<Longrightarrow> EndConnection l r t (pool, px) = Inr (pool', px') \<Longrightarrow> pool_kept pool pool'"
  "pool_ready pool \<Longrightarrow> SendTo d l r t (pool, px) = Inr (n, pool', px') \<Longrightarrow> pool_kept pool pool'"
  by (auto simp: RequestConnection_def SignalConnected_def EndConnection_def SendTo_def
      bind_run_Inr_iff Let_def
      dest: send_encoded_kept [OF _ _ Encode_struct_packet] send_encoded_kept [OF _ _ Encode_extra_packet])

definition st_shape :: "nat set \<Rightarrow> pxs \<Rightarrow> bool" where
  "st_shape R st \<longleftrightarrow> pool_ready (fst st) \<and> px_shape R (snd st)"

lemma st_inv_send:
  "st_shape R (pool, px) \<Longrightarrow> RequestConnection l r t (pool, px) = Inr st \<Longrightarrow> st_shape R st"
  "st_shape R (pool, px) \<Longrightarrow> SignalConnected l r t (pool, px) = Inr st \<Longrightarrow> st_shape R st"
  "st_shape R (pool, px) \<Longrightarrow> SendTo d l r t (pool, px) = Inr (n, st) \<Longrightarrow> st_shape R st"
  using send_struct_kept send_struct_sent pool_kept_ready
  by (auto simp: st_shape_def) (metis px_inv_sent prod.collapse)+

lemma st_inv_ensure:
  "st_shape R (pool, px) \<Longrightarrow> EnsureLocalEndpoint r i px = Inr (ep, px') \<Longrightarrow> st_shape R (pool, px')"
  by (auto simp: st_shape_def dest: EnsureLocalEndpoint_inv(1))

lemma st_inv_store:
  "st_shape R (pool, px) \<Longrightarrow> px_heap px i = Some s \<Longrightarrow> ps_closed s' = ps_closed s \<Longrightarrow>
   ps_listenSockets s' = ps_listenSockets s \<Longrightarrow> st_shape R (pool, store i s' px)"
  by (simp add: st_shape_def px_inv_update)

lemma SendTo_inv: "st_shape R (pool, px) \<Longrightarrow> socket_SendTo d dest i (pool, px) = Inr (n, st) \<Longrightarrow> st_shape R st"
  by (auto simp: socket_SendTo_def bind_run_Inr_iff split: if_splits option.splits
      dest: st_inv_ensure intro: st_inv_send(3))

lemma Send_inv: "st_shape R (pool, px) \<Longrightarrow> Send d i (pool, px) = Inr (n, st) \<Longrightarrow> st_shape R st"
  by (auto simp: Send_def bind_run_Inr_iff split: if_splits intro: SendTo_inv)

lemma HandleConnectResponse_keeps:
  "ps_closed (HandleConnectResponse r s) = ps_closed s"
  "ps_listenSockets (HandleConnectResponse r s) = ps_listenSockets s"
  by (simp_all add: HandleConnectResponse_def SignalError_def Let_def)

lemma Connect_inv:
  assumes "st_shape R (pool, px)" and "Connect answer remote i (pool, px) = Inr (Some st)"
  shows "st_shape R st"
proof -
  obtain s where s: "px_heap px i = Some s"
    using assms(2) by (auto simp: Connect_def bind_run_Inr_iff deref_Some)
  show ?thesis
  proof (cases "remote = None \<or> ps_isListening s \<or> \<not> ps_isBound s")
    case True
    with assms s show ?thesis by (auto simp: Connect_def deref_def split: option.splits)
  next
    case False
    then obtain rm where rm: "remote = Some rm" "\<not> ps_isListening s" "ps_isBound s" by auto
    obtain l px1 where e: "EnsureLocalEndpoint True i px = Inr (l, px1)"
      using assms(2) s rm by (auto simp: Connect_def deref_def bind_run_Inr_iff)
    obtain s1 where s1: "px_heap px1 i = Some s1"
      using assms(2) s rm e by (auto simp: Connect_def deref_def bind_run_Inr_iff split: option.splits)
    obtain pool2 px2 where r: "RequestConnection l rm (ps_protocolType s1)
        (pool, store i (s1\<lparr>ps_connecting := True\<rparr>) px1) = Inr (pool2, px2)"
      using assms(2) s rm e s1 by (auto simp: Connect_def deref_def bind_run_Inr_iff)
    have "st_shape R (pool, store i (s1\<lparr>ps_connecting := True\<rparr>) px1)"
      using st_inv_ensure [OF assms(1) e] s1 by (rule st_inv_store) simp_all
    from st_inv_send(1) [OF this r] have i2: "st_shape R (pool2, px2)" .
    show ?thesis
    proof (cases "\<not> ps_blocking s1 \<and> ps_protocolType s1 = IPPROTO_TCP")
      case True
      with assms(2) s rm e s1 r i2 show ?thesis by (simp add: Connect_def deref_def)
    next
      case False
      let ?woken = "\<lambda>s. if ps_connectEvent s then Some s else map_option (\<lambda>r. HandleConnectResponse r s) answer"
      from False obtain s2 where s2: "px_heap px2 i = Some s2"
        using assms(2) s rm e s1 r by (auto simp: Connect_def deref_def bind_run_Inr_iff split: option.splits)
      have eq: "Connect answer remote i (pool, px) = (case ?woken s2 of
           None \<Rightarrow> Inr None
         | Some s \<Rightarrow>
             let s = s\<lparr>ps_connectEvent := False\<rparr> in
             if pin_sourceIpV4 (pcp_info (ps_connectResponse s)) = 0 then Inr (Some (pool2, store i s px2))
             else Inr (Some (pool2, store i (s\<lparr>ps_connectResponse := zero_response\<rparr>) px2)))"
        using s rm e s1 r False s2 by (cases "ps_blocking s1") (simp_all add: Connect_def deref_def)
      obtain s3 where s3: "?woken s2 = Some s3"
        using assms(2) eq by (cases "?woken s2") simp_all
      then have keep: "ps_closed s3 = ps_closed s2" "ps_listenSockets s3 = ps_listenSockets s2"
        by (auto simp: HandleConnectResponse_keeps split: if_splits)
      from assms(2) have "st = (pool2, store i (s3\<lparr>ps_connectEvent := False\<rparr>) px2)
          \<or> st = (pool2, store i (s3\<lparr>ps_connectEvent := False, ps_connectResponse := zero_response\<rparr>) px2)"
        unfolding eq s3 by (simp add: Let_def split: if_splits)
      with st_inv_store [OF i2 s2] keep show ?thesis by auto
    qed
  qed
qed

lemma AsAccepted_inv:
  assumes "st_shape R (pool, px)" and "AsAccepted r i (pool, px) = Inr st"
  shows "st_shape R st"
proof -
  obtain s ep px1 where s: "px_heap px i = Some s"
    and e: "EnsureLocalEndpoint True i (store i (s\<lparr>ps_connected := True, ps_remoteEndPoint := r\<rparr>) px) = Inr (ep, px1)"
    and c: "SignalConnected ep r (ps_protocolType s) (pool, px1) = Inr st"
    using assms(2) by (auto simp: AsAccepted_def bind_run_Inr_iff deref_Some)
  have "st_shape R (pool, store i (s\<lparr>ps_connected := True, ps_remoteEndPoint := r\<rparr>) px)"
    using assms(1) s by (rule st_inv_store) simp_all
  from st_inv_send(2) [OF st_inv_ensure [OF this e] c] show ?thesis .
qed

lemma create_inv:
  assumes "st_shape R (pool, px)" and "socket_create d t p px = (j, px')"
  shows "st_shape R (pool, px')" and "px_heap px' = (px_heap px)(j \<mapsto> LdnProxySocket_new d t p)"
    and "j = px_next px" and "px_next px' = Suc j"
  using assms px_inv_create [of R px d t p]
  by (auto simp: st_shape_def socket_create_def RegisterSocket_def Let_def)

lemma AsAccepted_heap:
  assumes "AsAccepted r j (pool, px) = Inr (pool', px')" and "st_shape R (pool, px)"
  shows "dom (px_heap px') = dom (px_heap px)" and "i \<noteq> j \<Longrightarrow> px_heap px' i = px_heap px i"
proof -
  obtain s ep px1 where s: "px_heap px j = Some s"
    and e: "EnsureLocalEndpoint True j (store j (s\<lparr>ps_connected := True, ps_remoteEndPoint := r\<rparr>) px) = Inr (ep, px1)"
    and c: "SignalConnected ep r (ps_protocolType s) (pool, px1) = Inr (pool', px')"
    using assms(1) by (auto simp: AsAccepted_def bind_run_Inr_iff deref_Some)
  have i1: "st_shape R (pool, store j (s\<lparr>ps_connected := True, ps_remoteEndPoint := r\<rparr>) px)"
    using assms(2) s by (rule st_inv_store) simp_all
  have "px_shape R (store j (s\<lparr>ps_connected := True, ps_remoteEndPoint := r\<rparr>) px)"
    using i1 by (simp add: st_shape_def)
  from EnsureLocalEndpoint_inv(4) [OF this e] send_struct_sent(2) [OF c] s
  show "dom (px_heap px') = dom (px_heap px)" and "i \<noteq> j \<Longrightarrow> px_heap px' i = px_heap px i"
    by (auto simp: store_def split: if_splits)
qed

lemma adopt_inv:
  assumes "st_shape R (pool, px)" and "px_heap px i = Some s" and "i < j" and "j \<in> dom (px_heap px)"
    and "j \<notin> R"
  shows "st_shape R (pool, store i (s\<lparr>ps_listenSockets := ps_listenSockets s @ [j]\<rparr>) px)"
proof -
  have inv: "px_shape R px" using assms(1) by (simp add: st_shape_def)
  have "px_shape R (store i (s\<lparr>ps_listenSockets := ps_listenSockets s @ [j]\<rparr>) px)"
    by (rule px_inv_store [OF inv assms(2)])
       (use px_invD [OF inv assms(2)] assms(3-5) in \<open>auto simp: children_ok_def\<close>)
  with assms(1) show ?thesis by (simp add: st_shape_def)
qed

lemma Accept_scan_inv:
  "st_shape R (pool, px) \<Longrightarrow> Accept_scan ok rs i (pool, px) = Inr (a, st) \<Longrightarrow> st_shape R st"
proof (induction rs arbitrary: pool px)
  case (Cons r rs)
  obtain s where s: "px_heap px i = Some s"
    using Cons.prems(2) by (auto simp: bind_run_Inr_iff deref_Some)
  define s1 where "s1 = (let s = s\<lparr>ps_connectRequests := rs\<rparr> in
      if rs \<noteq> [] then s\<lparr>ps_acceptEvent := True\<rparr> else s)"
  define px1 where "px1 = store i s1 px"
  have keep: "ps_closed s1 = ps_closed s" "ps_listenSockets s1 = ps_listenSockets s"
    by (simp_all add: s1_def Let_def)
  have i1: "st_shape R (pool, px1)"
    unfolding px1_def using Cons.prems(1) s by (rule st_inv_store) (simp_all add: keep)
  define ep where "ep = GetEndpoint (pin_destIpV4 (pcr_info r)) (pin_destPort (pcr_info r))"
  define match where "match \<longleftrightarrow> sin_addr ep = sin_addr (ps_localEndPoint s1)
      \<and> sin_port ep = sin_port (ps_localEndPoint s1)"
  define rem where "rem = GetEndpoint (pin_sourceIpV4 (pcr_info r)) (pin_sourcePort (pcr_info r))"
  obtain j px2 where cr: "socket_create (ps_addressFamily s1) (ps_socketType s1) (ps_protocolType s1) px1 = (j, px2)"
    by (cases "socket_create (ps_addressFamily s1) (ps_socketType s1) (ps_protocolType s1) px1")
  note c = create_inv [OF i1 cr]
  have eq: "Accept_scan ok (r # rs) i (pool, px) =
      (if match then
         if \<not> ok then Inr (Some NotAccepted, pool, px1)
         else bind_run (AsAccepted rem j (pool, px2)) (\<lambda>(pool, px).
              bind_run (deref i px) (\<lambda>s. Inr (Some (Accepted j), pool,
                store i (s\<lparr>ps_listenSockets := ps_listenSockets s @ [j]\<rparr>) px)))
       else Accept_scan ok rs i (pool, px1))"
    using s cr
    by (simp add: deref_def Let_def match_def ep_def rem_def px1_def s1_def split: prod.splits)
  show ?case
  proof (cases "match \<and> ok")
    case True
    then obtain pool3 px3 s3 where a: "AsAccepted rem j (pool, px2) = Inr (pool3, px3)"
      and s3: "px_heap px3 i = Some s3"
      and st: "st = (pool3, store i (s3\<lparr>ps_listenSockets := ps_listenSockets s3 @ [j]\<rparr>) px3)"
      using Cons.prems(2) [unfolded eq] by (auto simp: bind_run_Inr_iff deref_Some)
    have "i < j" using i1 s c(3) by (auto simp: st_shape_def px_shape_def px1_def store_def split: if_splits)
    moreover have "j \<notin> R" using i1 c(3) by (auto simp: st_shape_def px_shape_def)
    moreover have "j \<in> dom (px_heap px3)" using AsAccepted_heap(1) [OF a c(1)] c(2) by auto
    ultimately show ?thesis
      using adopt_inv [OF AsAccepted_inv [OF c(1) a] s3] st by simp
  next
    case False
    with Cons.prems(2) [unfolded eq] i1 Cons.IH [OF i1] show ?thesis by (auto split: if_splits)
  qed
qed auto

lemma IncomingConnectionRequest_keeps:
  "ps_closed (fold IncomingConnectionRequest rs s) = ps_closed s"
  "ps_listenSockets (fold IncomingConnectionRequest rs s) = ps_listenSockets s"
  by (induction rs arbitrary: s) (simp_all add: IncomingConnectionRequest_def)

lemma Accept_loop_inv:
  "st_shape R (pool, px) \<Longrightarrow> Accept_loop ok ws i (pool, px) = Inr (a, st) \<Longrightarrow> st_shape R st"
proof (induction ws arbitrary: pool px)
  case (Cons w ws)
  obtain s where s: "px_heap px i = Some s"
    using Cons.prems(2) by (auto simp: bind_run_Inr_iff deref_Some)
  define s1 where "s1 = (fold IncomingConnectionRequest w s)\<lparr>ps_acceptEvent := False\<rparr>"
  have i1: "st_shape R (pool, store i s1 px)"
    using Cons.prems(1) s by (rule st_inv_store) (simp_all add: s1_def IncomingConnectionRequest_keeps)
  obtain r pool2 px2 where a: "Accept_scan ok (ps_connectRequests s1) i (pool, store i s1 px) = Inr (r, pool2, px2)"
    using Cons.prems(2) s by (auto simp: deref_def Let_def bind_run_Inr_iff s1_def)
  note i2 = Accept_scan_inv [OF i1 a]
  have eq: "Accept_loop ok (w # ws) i (pool, px) =
      bind_run (Accept_scan ok (ps_connectRequests s1) i (pool, store i s1 px)) (\<lambda>(r, st).
         case r of Some a \<Rightarrow> Inr (a, st) | None \<Rightarrow> Accept_loop ok ws i st)"
    using s by (simp add: deref_def Let_def s1_def)
  show ?case using Cons.prems(2) Cons.IH [OF i2] i2
    unfolding eq by (cases r) (auto simp: a)
qed simp

lemma Accept_inv: "st_shape R (pool, px) \<Longrightarrow> Accept ok ws i (pool, px) = Inr (a, st) \<Longrightarrow> st_shape R st"
  by (auto simp: Accept_def bind_run_Inr_iff split: if_splits intro: Accept_loop_inv)

section \<open>The step relation\<close>

text \<open>Operations on one socket that leave the object graph alone.\<close>

inductive local_op :: "LdnProxySocket \<Rightarrow> LdnProxySocket \<Rightarrow> bool" where
  "local_op s (Listen s)"
| "local_op s (Shutdown how s)"
| "local_op s (SetSocketOption opt v s)"
| "local_op s (snd (BsdSetSocketOption optname optval optlen s))"
| "local_op s (snd (BsdFcntl cmd flags s))"
| "local_op s (snd (ReceiveFrom (fold (IncomingData b) arriving) n flags s))"

text \<open>No listening socket has accepted the socket.\<close>

definition unowned :: "nat \<Rightarrow> LdnProxy \<Rightarrow> bool" where
  "unowned i px \<longleftrightarrow> (\<forall>j s. px_heap px j = Some s \<longrightarrow> i \<notin> set (ps_listenSockets s))"

text \<open>
  The sockets come and go by their constructor, \<open>Close\<close> and destructor; \<open>RegisterSocket\<close> is also called
  from outside, by the socket service for every socket it makes, on a socket that exists and is open.
\<close>

inductive proxy_step :: "pxs \<Rightarrow> pxs \<Rightarrow> bool" where
  create: "proxy_step (pool, px) (pool, snd (socket_create d t p px))"
| bind: "Bind ep i px = Inr px' \<Longrightarrow> proxy_step (pool, px) (pool, px')"
| local: "px_heap px i = Some s \<Longrightarrow> local_op s s' \<Longrightarrow> proxy_step (pool, px) (pool, store i s' px)"
| connect: "Connect answer remote i (pool, px) = Inr (Some st) \<Longrightarrow> proxy_step (pool, px) st"
| accept: "Accept ok wakes i (pool, px) = Inr (a, st) \<Longrightarrow> proxy_step (pool, px) st"
| send_to: "socket_SendTo d dest i (pool, px) = Inr (n, st) \<Longrightarrow> proxy_step (pool, px) st"
| send: "Send d i (pool, px) = Inr (n, st) \<Longrightarrow> proxy_step (pool, px) st"
| disconnect: "Disconnect i (pool, px) = Inr st \<Longrightarrow> proxy_step (pool, px) st"
| close: "Close i (pool, px) = Inr st \<Longrightarrow> proxy_step (pool, px) st"
| packet: "event_ok ev \<Longrightarrow> LdnProxy_callbacks ev (pool, px) = Inr st \<Longrightarrow> proxy_step (pool, px) st"
| register: "px_heap px i = Some s \<Longrightarrow> \<not> ps_closed s \<Longrightarrow> proxy_step (pool, px) (pool, RegisterSocket i px)"
| unregister: "proxy_step (pool, px) (pool, UnregisterSocket i px)"
| delete: "unowned i px \<Longrightarrow> Close i (pool, px) = Inr (pool', px') \<Longrightarrow>
     proxy_step (pool, px) (pool', px'\<lparr>px_heap := (px_heap px')(i := None)\<rparr>)"

inductive reachable :: "BufferPool \<Rightarrow> ProxyConfig \<Rightarrow> pxs \<Rightarrow> bool" for pool config where
  init: "reachable pool config (pool, LdnProxy_new config)"
| step: "reachable pool config st \<Longrightarrow> proxy_step st st' \<Longrightarrow> reachable pool config st'"

inductive_cases local_opE: "local_op s s'"

lemma IncomingData_keeps:
  "ps_closed (IncomingData b p s) = ps_closed s"
  "ps_listenSockets (IncomingData b p s) = ps_listenSockets s"
  by (simp_all add: IncomingData_def)

lemma fold_IncomingData_keeps:
  "ps_closed (fold (IncomingData b) ps s) = ps_closed s"
  "ps_listenSockets (fold (IncomingData b) ps s) = ps_listenSockets s"
  by (induction ps arbitrary: s) (simp_all add: IncomingData_def)

lemma socket_ops_keep:
  "ps_closed (Listen s) = ps_closed s" "ps_listenSockets (Listen s) = ps_listenSockets s"
  "ps_closed (Shutdown how s) = ps_closed s" "ps_listenSockets (Shutdown how s) = ps_listenSockets s"
  "ps_closed (SetSocketOption opt v s) = ps_closed s"
  "ps_listenSockets (SetSocketOption opt v s) = ps_listenSockets s"
  "ps_closed (snd (BsdFcntl cmd flags s)) = ps_closed s"
  "ps_listenSockets (snd (BsdFcntl cmd flags s)) = ps_listenSockets s"
  by (simp_all add: Listen_def Shutdown_def SetSocketOption_def BsdFcntl_def Let_def)

lemma BsdSetSocketOption_keeps:
  "ps_closed (snd (BsdSetSocketOption optname optval optlen s)) = ps_closed s"
  "ps_listenSockets (snd (BsdSetSocketOption optname optval optlen s)) = ps_listenSockets s"
  by (simp_all add: BsdSetSocketOption_def socket_ops_keep split: option.split)

lemma ReceiveFrom_keeps:
  assumes "ps_closed (wait s) = ps_closed s" and "ps_listenSockets (wait s) = ps_listenSockets s"
  shows "ps_closed (snd (ReceiveFrom wait n flags s)) = ps_closed s"
    and "ps_listenSockets (snd (ReceiveFrom wait n flags s)) = ps_listenSockets s"
  using assms
  by (simp_all add: ReceiveFrom_def ReceiveFrom_queued_def ReceiveFrom_woken_def Let_def split: list.split)

lemma local_op_keeps:
  assumes "local_op s s'"
  shows "ps_closed s' = ps_closed s" and "ps_listenSockets s' = ps_listenSockets s"
  using assms
  by (auto elim!: local_opE
      simp: socket_ops_keep BsdSetSocketOption_keeps ReceiveFrom_keeps fold_IncomingData_keeps)

definition keeps_inv :: "(nat \<Rightarrow> LdnProxySocket \<Rightarrow> LdnProxy \<Rightarrow> LdnProxy) \<Rightarrow> bool" where
  "keeps_inv f \<longleftrightarrow> (\<forall>R i s px. px_shape R px \<longrightarrow> px_heap px i = Some s \<longrightarrow> px_shape R (f i s px))"

lemma route_inv: "keeps_inv f \<Longrightarrow> px_shape R px \<Longrightarrow> px_shape R (route f info px)"
proof -
  assume f: "keeps_inv f" and "px_shape R px"
  have "px_shape R p \<Longrightarrow> px_shape R (fold (socket_effect f info) is p)" for "is" p
    using f by (induction "is" arbitrary: p)
      (auto simp: socket_effect_def keeps_inv_def simp del: split_paired_All split: option.splits)
  with \<open>px_shape R px\<close> show ?thesis by (simp add: route_def)
qed

lemma keeps_update_socket:
  "(\<And>s. ps_closed (f s) = ps_closed s \<and> ps_listenSockets (f s) = ps_listenSockets s) \<Longrightarrow>
   keeps_inv (update_socket f)"
  by (simp add: keeps_inv_def update_socket_def px_inv_update)

lemma keeps_disconnect: "keeps_inv disconnect_socket"
  unfolding keeps_inv_def disconnect_socket_def
  by (auto intro!: px_inv_update)

lemma effect_inv: "px_shape R px \<Longrightarrow> px_shape R (LdnProxy_effect ev px)"
  by (cases ev)
     (auto simp: LdnProxy_effect_def intro!: route_inv keeps_disconnect keeps_update_socket,
      auto simp: IncomingConnectionRequest_def HandleConnectResponse_keeps IncomingData_keeps)

lemma px_inv_live: "px_shape R px \<Longrightarrow> live px"
  by (simp add: px_shape_def)

lemma callbacks_keep:
  assumes "event_ok ev" and "LdnProxy_callbacks ev (pool, px) = Inr st" and "st_shape R (pool, px)"
  shows "st_shape R st"
proof -
  have "px_shape R px" "pool_ready pool" using assms(3) by (auto simp: st_shape_def)
  with LdnProxy_callbacks_effect [OF this(2) px_inv_live [OF this(1)] assms(1)] assms(2)
  show ?thesis by (auto simp: st_shape_def effect_inv dest: pool_kept_ready)
qed

lemma px_shape_register:
  "px_shape R px \<Longrightarrow> px_heap px i = Some s \<Longrightarrow> \<not> ps_closed s \<Longrightarrow> px_shape R (RegisterSocket i px)"
  by (auto simp: px_shape_def RegisterSocket_def live_def children_ok_def)

lemma px_shape_unregister: "px_shape R px \<Longrightarrow> px_shape R (UnregisterSocket i px)"
  by (auto simp: px_shape_def UnregisterSocket_def live_def children_ok_def)

text \<open>Deleting an open or closed socket that no other socket has accepted.\<close>

lemma delete_keeps:
  assumes "st_shape R (pool, px)" and "unowned i px" and "Close i (pool, px) = Inr (pool', px')"
  shows "st_shape (R - {i}) (pool', px'\<lparr>px_heap := (px_heap px')(i := None)\<rparr>)"
proof -
  have px: "px_shape R px" "pool_ready pool" using assms(1) by (simp_all add: st_shape_def)
  have "i \<in> dom (px_heap px)" using assms(3) by (auto simp: Close_def bind_run_Inr_iff deref_Some)
  then obtain s where c: "px_shape R px'" "pool_kept pool pool'" "closes px px'" "px_heap px' i = Some s" "ps_closed s"
    using Close_returns [OF px] assms(3) by fastforce
  have out: "i \<notin> set (px_sockets px')" by (rule px_invD(2) [OF c(1,4,5)])
  have "i \<notin> set (ps_listenSockets t)" if t: "px_heap px' j = Some t" for j t
  proof -
    have "j \<in> dom (px_heap px)" using c(3) t by (auto simp: closes_def)
    then obtain u where "px_heap px j = Some u" by blast
    then show ?thesis using closesD [OF c(3)] t assms(2) by (fastforce simp: unowned_def)
  qed
  then have "px_shape (R - {i}) (px'\<lparr>px_heap := (px_heap px')(i := None)\<rparr>)"
    using c(1) out unfolding px_shape_def children_ok_def live_def by (auto 0 3)
  then show ?thesis using pool_kept_ready [OF px(2) c(2)] by (simp add: st_shape_def)
qed

lemma step_inv: "proxy_step st st' \<Longrightarrow> st_shape {} st \<Longrightarrow> st_shape {} st'"
proof (induction rule: proxy_step.induct)
  case (create pool px d t p)
  then show ?case by (simp add: st_shape_def px_inv_create)
next
  case (bind ep i px px' pool)
  then show ?case by (auto simp: st_shape_def intro: Bind_inv)
next
  case (local px i s s' pool)
  then show ?case by (auto intro: st_inv_store dest: local_op_keeps)
next
  case (disconnect i pool px st)
  obtain pool' px' where st: "st = (pool', px')" by (cases st)
  obtain s where s: "px_heap px i = Some s"
    using disconnect(1) by (auto simp: Disconnect_def bind_run_Inr_iff deref_Some)
  have "pool_ready pool" "px_shape {} px" using disconnect(2) by (auto simp: st_shape_def)
  with refines_disconnect s obtain q where q: "Disconnect i (pool, px) = Inr (q, disconnect_socket i s px)"
      "pool_kept pool q"
    unfolding refines_action_def by blast
  then have "pool_kept pool pool'" using disconnect(1) st by simp
  with Disconnect_inv(1) [OF \<open>px_shape {} px\<close> disconnect(1) [unfolded st]] \<open>pool_ready pool\<close> st
  show ?case by (simp add: st_shape_def pool_kept_ready)
next
  case (close i pool px st)
  then have inv: "px_shape {} px" "pool_ready pool" by (auto simp: st_shape_def)
  moreover have "i \<in> dom (px_heap px)"
    using close(1) by (auto simp: Close_def bind_run_Inr_iff deref_Some)
  ultimately show ?case using Close_returns [of "{}" px pool i] close(1)
    by (auto simp: st_shape_def dest: pool_kept_ready)
next
  case (packet ev pool px st)
  then show ?case by (blast intro: callbacks_keep)
next
  case (register px i s pool)
  then show ?case by (simp add: st_shape_def px_shape_register)
next
  case (unregister pool px i)
  then show ?case by (simp add: st_shape_def px_shape_unregister)
next
  case (delete i px pool pool' px')
  from delete_keeps [OF delete(3,1,2)] show ?case by simp
qed (auto intro: Connect_inv Accept_inv SendTo_inv Send_inv)

lemma reachable_inv: "reachable pool config st \<Longrightarrow> pool_ready pool \<Longrightarrow> st_shape {} st"
proof (induction rule: reachable.induct)
  case init
  then show ?case by (simp add: st_shape_def px_inv_new)
next
  case (step st st')
  then show ?case using step_inv by blast
qed

end
