(* ===== verification/Proxy_Traffic.thy ===== *)
theory Proxy_Traffic
  imports Proxy_Machine
begin

text \<open>
  Properties of the proxy that span its parts: what every reachable state guarantees, that data sent
  through one proxy reaches exactly the bound sockets of another through the packet protocol, and the
  limits of sending (packet size, ephemeral ports).
\<close>

section \<open>Reachable states\<close>

lemma closed_unregistered:
  "px_inv px \<Longrightarrow> px_heap px i = Some s \<Longrightarrow> ps_closed s \<Longrightarrow> i \<notin> set (px_sockets px)"
  by (simp add: px_shape_def)


definition demo_config :: ProxyConfig where
  "demo_config = \<lparr>pcf_proxyIp = 0x0A720001, pcf_proxySubnetMask = 0xFFFF0000\<rparr>"

lemma zero_pool_ready: "pool_ready zero_pool"
  using zero_pool_inv zero_pool_free by (simp add: pool_ready_def)


section \<open>Routing\<close>

text \<open>Routing handles a socket once for every time it is registered.\<close>

lemma fold_update_count:
  assumes "\<And>s. routed info (f s) = routed info s"
  shows "px_heap (fold (socket_effect (update_socket f) info) is p) i =
    (case px_heap p i of None \<Rightarrow> None | Some s \<Rightarrow> Some (if routed info s then (f ^^ count_list is i) s else s))"
proof (induction "is" arbitrary: p)
  case (Cons j "is")
  have h: "px_heap (socket_effect (update_socket f) info j p) i =
      (if i = j then (case px_heap p i of None \<Rightarrow> None | Some s \<Rightarrow> Some (if routed info s then f s else s))
       else px_heap p i)"
    by (auto simp: socket_effect_def update_socket_def store_def split: option.split)
  show ?case
    unfolding fold_simps Cons.IH h by (auto simp: assms funpow_swap1 split: option.split)
qed (simp split: option.split)

lemma route_update_heap:
  assumes "\<And>s. routed info (f s) = routed info s"
  shows "px_heap (route (update_socket f) info px) =
    (\<lambda>i. map_option (\<lambda>s. if routed info s then (f ^^ count_list (px_sockets px) i) s else s) (px_heap px i))"
  using fold_update_count [of info f, OF assms] by (auto simp: route_def fun_eq_iff split: option.split)

lemma route_update_sent: "px_sent (route (update_socket f) info px) = px_sent px"
proof -
  have "px_sent (fold (socket_effect (update_socket f) info) is p) = px_sent p" for "is" p
    by (induction "is" arbitrary: p)
       (auto simp: socket_effect_def update_socket_def store_def split: option.splits)
  then show ?thesis by (simp add: route_def)
qed

text \<open>The same data \<open>n\<close> times; a broadcast is dropped by a socket that does not accept broadcasts.\<close>

lemma IncomingData_times:
  assumes "\<not> ps_closed s"
  shows "(IncomingData b p ^^ n) s = (if (b \<longrightarrow> ps_broadcast s) \<and> n \<noteq> 0
     then s\<lparr>ps_receiveQueue := ps_receiveQueue s @ replicate n p, ps_receiveEvent := True\<rparr> else s)"
proof (induction n)
  case (Suc n)
  then show ?case using assms by (cases "b \<longrightarrow> ps_broadcast s") (auto simp: IncomingData_def replicate_append_same)
qed simp

lemma routed_IncomingData: "routed info (IncomingData b p s) = routed info s"
  by (simp add: routed_def IncomingData_def)

section \<open>From one proxy to another\<close>

lemma put_ProxyDataHeaderFull_length: "length (put_ProxyDataHeaderFull h) = 20"
  by (rule ProxyDataHeaderFull_wire.length_put_wf)
     (simp add: wf_ProxyDataHeaderFull_def wf_ProxyInfo_def)

lemma get_put_ProxyDataHeaderFull: "get_ProxyDataHeaderFull (put_ProxyDataHeaderFull h @ r) = h"
  by (rule ProxyDataHeaderFull_wire.get_put_wf) (simp add: wf_ProxyDataHeaderFull_def wf_ProxyInfo_def)

definition data_header :: "bytes \<Rightarrow> sockaddr_in \<Rightarrow> sockaddr_in \<Rightarrow> u32 \<Rightarrow> ProxyDataHeaderFull" where
  "data_header d l r t = \<lparr>pdh_info = MakeInfo l r t, pdh_dataLength = of_nat (length d)\<rparr>"

definition data_packet :: "bytes \<Rightarrow> sockaddr_in \<Rightarrow> sockaddr_in \<Rightarrow> u32 \<Rightarrow> bytes" where
  "data_packet d l r t = packet PacketId_ProxyData (put_ProxyDataHeaderFull (data_header d l r t) @ d)"

lemma SendTo_sends:
  assumes "pool_ready pool" and "length d \<le> MaxPacketSize - 30"
  shows "\<exists>pool'. SendTo d l r t (pool, px) =
     Inr (int (length d), pool', px\<lparr>px_sent := px_sent px @ [data_packet d l r t]\<rparr>) \<and> pool_kept pool pool'"
proof -
  have "HeaderSize + length (put_ProxyDataHeaderFull (data_header d l r t) @ d) \<le> BufferSize"
    using assms(2) by (simp add: put_ProxyDataHeaderFull_length BufferSize_def MaxPacketSize_def HeaderSize_def)
  from send_encoded_ok [OF assms(1) this Encode_extra_packet, of PacketId_ProxyData px]
  show ?thesis by (auto simp: SendTo_def data_packet_def data_header_def)
qed

lemma frame_event_data:
  fixes l r t
  assumes "length d < MaxPacketSize - 30"
  defines "p \<equiv> put_ProxyDataHeaderFull (data_header d l r t) @ d"
  shows "frame_event LdnProxy_registers (packet_header PacketId_ProxyData (length p), p) =
    Inr (Some (onProxyData (packet_header PacketId_ProxyData (length p)) (data_header d l r t)
      (d, of_nat (length d))))"
proof -
  have l: "length p = 20 + length d" by (simp add: p_def put_ProxyDataHeaderFull_length)
  have n: "length d < 65536" using assms(1) by (simp add: MaxPacketSize_def)
  have "(of_nat (20 + length d) :: u32) - 20 = of_nat (length d)" by simp
  moreover have "unat (of_nat (length d) :: u32) = length d" using n by (simp add: unat_of_nat)
  ultimately have "span_at p 20 (of_nat (length p) - 20) = (d, of_nat (length d))"
    unfolding l by (simp add: span_at_def p_def put_ProxyDataHeaderFull_length)
  moreover have "p \<noteq> []" using l by auto
  ultimately show ?thesis
    by (simp add: frame_event_def DecodeAndHandle_def packet_header_def PacketId_of_code
        LdnProxy_registers_def HandleExtra_def ParseStruct_def l del: PacketId_code.simps)
       (simp add: p_def get_put_ProxyDataHeaderFull)
qed

text \<open>
  C17: data sent through one proxy arrives at the other. The packet that \<open>SendTo\<close> hands on is received
  by the peer in arbitrary pieces; afterwards the data is at the end of the queue of every registered
  socket of that protocol whose local port is the destination port, once for each time the socket is
  registered; a broadcast only where the socket has \<open>SO_BROADCAST\<close> set. Every other socket is as it was,
  and nothing is sent back.
\<close>

theorem data_reaches_bound_sockets:
  assumes "pool_ready pool1" and "length d < MaxPacketSize - 30"
    and "pool_inv pool2" and "card (borrowed pool2) + 2 \<le> MaxBuffers" and "px_inv px2"
    and "concat pieces = concat (px_sent px1') " and "px_sent px1 = []"
    and "SendTo d l r t (pool1, px1) = Inr (n, pool1', px1')"
  shows "n = int (length d) \<and>
    (\<exists>s' pool2' px2'. Read_all LdnProxy_registers LdnProxy_callbacks pieces (RyuLdnProtocol_new, pool2, px2)
        = Inr (s', pool2', px2')
      \<and> px_heap px2' = (\<lambda>i. map_option (\<lambda>s.
            if i \<in> set (px_sockets px2) \<and> routed (MakeInfo l r t) s
               \<and> (IsBroadcast (GetIpV4 r) px2 \<longrightarrow> ps_broadcast s)
            then s\<lparr>ps_receiveQueue := ps_receiveQueue s
                     @ replicate (count_list (px_sockets px2) i) \<lparr>pkt_header = data_header d l r t, pkt_data = d\<rparr>,
                   ps_receiveEvent := True\<rparr>
            else s) (px_heap px2 i))
      \<and> px_sent px2' = px_sent px2)"
proof -
  let ?h = "data_header d l r t"
  let ?p = "put_ProxyDataHeaderFull ?h @ d"
  have "length d \<le> MaxPacketSize - 30" using assms(2) by simp
  from SendTo_sends [OF assms(1) this, of l r t px1] assms(7,8)
  have n: "n = int (length d)" and sent: "px_sent px1' = [data_packet d l r t]" by auto
  have len: "length ?p < MaxPacketSize - HeaderSize"
    using assms(2) by (simp add: put_ProxyDataHeaderFull_length MaxPacketSize_def HeaderSize_def)
  note fe = frame_event_data [OF assms(2), of l r t]
  have evs: "frame_events LdnProxy_registers [(packet_header PacketId_ProxyData (length ?p), ?p)] =
      [onProxyData (packet_header PacketId_ProxyData (length ?p)) ?h (d, of_nat (length d))]"
    by (subst frame_events_Cons [OF fe]) simp
  have conc: "concat pieces = concat (map (\<lambda>(t, p). packet t p) [(PacketId_ProxyData, ?p)])"
    using assms(6) sent by (simp add: data_packet_def)
  have fr: "frames (concat pieces) = ([(packet_header PacketId_ProxyData (length ?p), ?p)], [])"
    unfolding conc using frames_packets [of "[(PacketId_ProxyData, ?p)]"] len
    by (simp add: MaxPacketSize_def)
  have ok: "stream_ok LdnProxy_registers (concat pieces)"
    unfolding conc by (rule stream_ok_packets) (use len fe in simp)
  have "live px2" using assms(5) by (rule px_inv_live)
  moreover have "own RyuLdnProtocol_new = {}" by (simp add: own_def RyuLdnProtocol_new_def)
  ultimately obtain s' pool2' where rd: "Read_all LdnProxy_registers LdnProxy_callbacks pieces (RyuLdnProtocol_new, pool2, px2)
      = Inr (s', pool2', LdnProxy_effect (onProxyData (packet_header PacketId_ProxyData (length ?p)) ?h
          (d, of_nat (length d))) px2)"
    using proxy_handler.Read_all_frames [OF prot_inv_new [OF assms(3)], of LdnProxy_registers pieces px2
      "[(packet_header PacketId_ProxyData (length ?p), ?p)]" "[]"] fr ok assms(4) evs
    by (auto simp: free_for_def)
  let ?b = "IsBroadcast (GetIpV4 r) px2" and ?pk = "\<lparr>pkt_header = ?h, pkt_data = d\<rparr>"
  have dh: "pdh_info ?h = MakeInfo l r t" and md: "pin_destIpV4 (MakeInfo l r t) = GetIpV4 r"
    by (simp_all add: data_header_def MakeInfo_def)
  have "px_heap (LdnProxy_effect (onProxyData (packet_header PacketId_ProxyData (length ?p)) ?h
          (d, of_nat (length d))) px2) i =
      map_option (\<lambda>s. if routed (MakeInfo l r t) s
          then (IncomingData ?b ?pk ^^ count_list (px_sockets px2) i) s else s) (px_heap px2 i)" for i
    using route_update_heap [of "MakeInfo l r t" "IncomingData ?b ?pk" px2]
    by (simp add: LdnProxy_effect_def dh md routed_IncomingData)
  moreover have "(IncomingData ?b ?pk ^^ count_list (px_sockets px2) i) s =
      (if i \<in> set (px_sockets px2) \<and> (?b \<longrightarrow> ps_broadcast s)
       then s\<lparr>ps_receiveQueue := ps_receiveQueue s @ replicate (count_list (px_sockets px2) i) ?pk,
              ps_receiveEvent := True\<rparr>
       else s)" if "px_heap px2 i = Some s" for i s
  proof (cases "i \<in> set (px_sockets px2)")
    case True
    then have "\<not> ps_closed s" "count_list (px_sockets px2) i \<noteq> 0"
      using closed_unregistered [OF assms(5) that] by (auto simp: count_list_0_iff)
    with True show ?thesis by (simp add: IncomingData_times)
  next
    case False
    then show ?thesis by (simp add: count_list_0_iff [THEN iffD2])
  qed
  ultimately have "px_heap (LdnProxy_effect (onProxyData (packet_header PacketId_ProxyData (length ?p)) ?h
          (d, of_nat (length d))) px2) = (\<lambda>i. map_option (\<lambda>s.
            if i \<in> set (px_sockets px2) \<and> routed (MakeInfo l r t) s \<and> (?b \<longrightarrow> ps_broadcast s)
            then s\<lparr>ps_receiveQueue := ps_receiveQueue s @ replicate (count_list (px_sockets px2) i) ?pk,
                   ps_receiveEvent := True\<rparr>
            else s) (px_heap px2 i))"
    by (intro ext) (auto split: option.split intro!: map_option_cong)
  moreover have "px_sent (LdnProxy_effect (onProxyData (packet_header PacketId_ProxyData (length ?p)) ?h
          (d, of_nat (length d))) px2) = px_sent px2"
    by (simp add: LdnProxy_effect_def route_update_sent)
  ultimately show ?thesis using n rd by blast
qed

text \<open>A peer whose socket is registered twice, as the socket service leaves it.\<close>

definition demo_peer :: LdnProxy where
  "demo_peer = store 0 ((LdnProxySocket_new 2 2 IPPROTO_UDP)\<lparr>ps_localEndPoint := GetEndpoint 0x0A720002 5000, ps_isBound := True\<rparr>)
     (RegisterSocket 0 (snd (socket_create 2 2 IPPROTO_UDP (LdnProxy_new demo_config))))"

lemma demo_peer_inv: "px_inv demo_peer"
  unfolding demo_peer_def
  by (rule px_inv_update [OF px_shape_register [OF px_inv_create [OF px_inv_new], where s = "LdnProxySocket_new 2 2 IPPROTO_UDP"],
        where s = "LdnProxySocket_new 2 2 IPPROTO_UDP"])
     (simp_all add: socket_create_def RegisterSocket_def LdnProxy_new_def Let_def new_socket)

theorem data_reaches_bound_sockets_witness:
  "let l = GetEndpoint 0x0A720001 49152; r = GetEndpoint 0x0A720002 5000;
       pk = data_packet [1, 2, 3] l r IPPROTO_UDP in
   \<exists>s' pool2' px2'. Read_all LdnProxy_registers LdnProxy_callbacks [take 7 pk, drop 7 pk]
        (RyuLdnProtocol_new, zero_pool, demo_peer) = Inr (s', pool2', px2')
     \<and> map_option queued (px_heap px2' 0) = Some [[1, 2, 3], [1, 2, 3]]"
proof -
  define l r where "l = GetEndpoint 0x0A720001 49152" and "r = GetEndpoint 0x0A720002 5000"
  define pk where "pk = data_packet [1, 2, 3] l r IPPROTO_UDP"
  let ?px1 = "LdnProxy_new demo_config"
  obtain q where s: "SendTo [1, 2, 3] l r IPPROTO_UDP (zero_pool, ?px1) =
      Inr (3, q, ?px1\<lparr>px_sent := [pk]\<rparr>)"
    using SendTo_sends [OF zero_pool_ready, of "[1, 2, 3]" l r IPPROTO_UDP ?px1]
    by (auto simp: MaxPacketSize_def LdnProxy_new_def pk_def)
  have c: "card (borrowed zero_pool) + 2 \<le> MaxBuffers"
    by (simp add: zero_pool_def borrowed_new MaxBuffers_def)
  from data_reaches_bound_sockets [OF zero_pool_ready _ zero_pool_inv c demo_peer_inv _ _ s,
      of "[take 7 pk, drop 7 pk]"]
  obtain s' pool2' px2' where rd: "Read_all LdnProxy_registers LdnProxy_callbacks [take 7 pk, drop 7 pk]
        (RyuLdnProtocol_new, zero_pool, demo_peer) = Inr (s', pool2', px2')"
    and h: "px_heap px2' = (\<lambda>i. map_option (\<lambda>s.
            if i \<in> set (px_sockets demo_peer) \<and> routed (MakeInfo l r IPPROTO_UDP) s
               \<and> (IsBroadcast (GetIpV4 r) demo_peer \<longrightarrow> ps_broadcast s)
            then s\<lparr>ps_receiveQueue := ps_receiveQueue s @ replicate (count_list (px_sockets demo_peer) i)
                     \<lparr>pkt_header = data_header [1, 2, 3] l r IPPROTO_UDP, pkt_data = [1, 2, 3]\<rparr>,
                   ps_receiveEvent := True\<rparr>
            else s) (px_heap demo_peer i))"
    by (auto simp: MaxPacketSize_def LdnProxy_new_def)
  have "map_option queued (px_heap px2' 0) = Some [[1, 2, 3], [1, 2, 3]]"
    by (simp add: h demo_peer_def store_def socket_create_def RegisterSocket_def LdnProxy_new_def
        demo_config_def routed_def MakeInfo_def r_def GetEndpoint_def GetIpV4_def IsBroadcast_def
        IncomingData_def LdnProxySocket_new_def queued_def AF_INET_def)
  with rd show ?thesis unfolding Let_def l_def r_def pk_def by blast
qed

section \<open>Limits\<close>

lemma header_of_packet:
  "get_LdnHeader (packet type p) = packet_header type (length p)"
  by (simp add: packet_def get_LdnHeader_prefix)

text \<open>
  \<open>SendTo\<close> does not check the size of the data. Beyond 16354 bytes it writes past the end of the
  pool buffer; with exactly 16354 it sends a packet that \<open>Read\<close> at the other end refuses.
\<close>

theorem SendTo_size_limits:
  assumes "pool_ready pool"
  shows "(MaxPacketSize - 30 < length d \<longrightarrow> SendTo d l r t (pool, px) = Inl BufferOverrun)
    \<and> (length d = MaxPacketSize - 30 \<longrightarrow>
        (\<exists>pool' px'. SendTo d l r t (pool, px) = Inr (int (length d), pool', px')
           \<and> px_sent px' = px_sent px @ [data_packet d l r t]
           \<and> rejected_header (get_LdnHeader (data_packet d l r t))))"
proof (intro conjI impI)
  assume "MaxPacketSize - 30 < length d"
  then have "BufferSize < HeaderSize + length (put_ProxyDataHeaderFull (data_header d l r t) @ d)"
    by (simp add: put_ProxyDataHeaderFull_length BufferSize_def MaxPacketSize_def HeaderSize_def)
  from send_encoded_overrun [OF assms this Encode_extra_packet, of PacketId_ProxyData px]
  show "SendTo d l r t (pool, px) = Inl BufferOverrun" by (simp add: SendTo_def data_header_def)
next
  assume len: "length d = MaxPacketSize - 30"
  have "sint (hdr_dataSize (packet_header PacketId_ProxyData 16374)) = 16374"
    by (subst sint_nonneg) (simp_all add: packet_header_def)
  then have "rejected_header (get_LdnHeader (data_packet d l r t))"
    using len
    by (simp add: data_packet_def header_of_packet put_ProxyDataHeaderFull_length rejected_header_def
        MaxPacketSize_def HeaderSize_def)
  then show "\<exists>pool' px'. SendTo d l r t (pool, px) = Inr (int (length d), pool', px')
           \<and> px_sent px' = px_sent px @ [data_packet d l r t]
           \<and> rejected_header (get_LdnHeader (data_packet d l r t))"
    using SendTo_sends [OF assms, of d l r t px] len by auto
qed

theorem SendTo_size_limits_witness:
  "SendTo (replicate 16355 0) (GetEndpoint 1 2) (GetEndpoint 3 4) IPPROTO_UDP (zero_pool, demo_peer)
     = Inl BufferOverrun"
  using SendTo_size_limits [OF zero_pool_ready, of "replicate 16355 0"]
  by (simp add: MaxPacketSize_def)

text \<open>
  A UDP socket that was never bound takes another ephemeral port for every datagram it sends,
  since the port it is given does not mark it as bound; the earlier ones stay allocated.
\<close>

theorem unbound_send_takes_port:
  assumes "px_inv px" and "pool_ready pool" and "px_heap px i = Some s" and "\<not> ps_isBound s"
    and "ps_protocolType s = IPPROTO_UDP" and "length d \<le> MaxPacketSize - 30"
    and "px_ephemeralPorts px IPPROTO_UDP = Some ps" and "length ps < 16384"
  shows "\<exists>pool' px' s' ps' p. socket_SendTo d (Some dest) i (pool, px) = Inr (int (length d), pool', px')
    \<and> px_heap px' i = Some s' \<and> \<not> ps_isBound s' \<and> ps_protocolType s' = IPPROTO_UDP
    \<and> px_ephemeralPorts px' IPPROTO_UDP = Some ps' \<and> p \<notin> set ps \<and> set ps' = insert p (set ps)
    \<and> length ps' = Suc (length ps) \<and> ntohs (sin_port (ps_localEndPoint s')) = p"
proof -
  obtain p ps' where a: "AllocatePort ps = (p, ps')" by (cases "AllocatePort ps")
  have ok: "ports_ok ps" using ports_invD [OF assms(1,7)] .
  have "p \<noteq> 0"
  proof
    assume "p = 0"
    with AllocatePort_zero [OF ok] a have "set ps = {EphemeralBase..}" by blast
    then show False
      using distinct_card [OF ports_distinct [OF ok]] card_ephemeral assms(8) by simp
  qed
  note sp = AllocatePort_spec(3) [OF ok a this]
  define ep where "ep = \<lparr>sin_family = AF_INET, sin_addr = htonl (px_localIp px), sin_port = htons p\<rparr>"
  define s' where "s' = s\<lparr>ps_localEndPoint := ep\<rparr>"
  define px1 where "px1 = store i s' (px\<lparr>px_ephemeralPorts := (px_ephemeralPorts px)(IPPROTO_UDP \<mapsto> ps')\<rparr>)"
  have e: "EnsureLocalEndpoint False i px = Inr (ep, px1)"
    using assms(3-5,7) a
    by (simp add: EnsureLocalEndpoint_def deref_def GetEphemeralPort_def Let_def ep_def s'_def px1_def)
  obtain pool' where "SendTo d ep dest IPPROTO_UDP (pool, px1) =
      Inr (int (length d), pool', px1\<lparr>px_sent := px_sent px1 @ [data_packet d ep dest IPPROTO_UDP]\<rparr>)"
    using SendTo_sends [OF assms(2,6)] by blast
  with assms(3,5) e sp assms(4) show ?thesis
    by (simp add: socket_SendTo_def deref_def ipproto_defs px1_def store_def s'_def ep_def)
qed

theorem unbound_send_takes_port_witness:
  "\<exists>pool' px' s' ps' p. socket_SendTo [1] (Some (GetEndpoint 1 2)) 0
      (zero_pool, snd (socket_create 2 2 IPPROTO_UDP (LdnProxy_new demo_config))) = Inr (1, pool', px')
    \<and> px_heap px' 0 = Some s' \<and> \<not> ps_isBound s' \<and> ps_protocolType s' = IPPROTO_UDP
    \<and> px_ephemeralPorts px' IPPROTO_UDP = Some ps' \<and> p \<notin> set [] \<and> set ps' = insert p (set [])
    \<and> length ps' = 1 \<and> ntohs (sin_port (ps_localEndPoint s')) = p"
proof -
  let ?px = "snd (socket_create 2 2 IPPROTO_UDP (LdnProxy_new demo_config))"
  have "px_heap ?px 0 = Some (LdnProxySocket_new 2 2 IPPROTO_UDP)"
    and "px_ephemeralPorts ?px IPPROTO_UDP = Some []"
    by (simp_all add: socket_create_def RegisterSocket_def LdnProxy_new_def Let_def
        EphemeralPortPool_new_def ipproto_defs)
  from unbound_send_takes_port [OF px_inv_create [OF px_inv_new] zero_pool_ready this(1) _ _ _ this(2),
      of "[1]" "GetEndpoint 1 2"]
  show ?thesis by (simp add: LdnProxySocket_new_def MaxPacketSize_def)
qed

end
