(* ===== verification/Master_Client.thy ===== *)
theory Master_Client
  imports Network_Timeout Proxy_Traffic
begin

text \<open>
  \<open>ryuldn/ldn_master_proxy_client.cpp\<close>: the connection to the master server and the LDN operations.

  The client is a record; with it go the buffer pool and the state \<open>'w\<close> of whoever owns the client,
  which the callbacks change. The operating system is seen through the record too: \<open>mc_open\<close> are the
  descriptors open, \<open>mc_wire\<close> what went out on which descriptor, \<open>mc_sends\<close> the answers \<open>send\<close> will
  give, \<open>mc_now\<close> the system tick, \<open>mc_servers\<close> the ports of the P2P servers running.

  The worker thread runs passes of \<open>WorkerLoop\<close>. An operation that waits for an event takes the
  passes that happen during the wait; the event is a flag, and the wait succeeds when the flag is set
  after them. A buffer that the C++ scope holds during a wait is held during those passes.

  \<open>Env\<close> is what the client does not decide: its callbacks, the handlers other components have put into
  its protocol object, and whether a P2P server or client comes up.
\<close>

section \<open>State\<close>

record SystemEventContainer =
  ev_connected :: bool
  ev_error :: bool
  ev_scan :: bool
  ev_reject :: bool
  ev_apConnected :: bool
  ev_initialize :: bool

definition SystemEventContainer_new :: SystemEventContainer where
  "SystemEventContainer_new =
     \<lparr>ev_connected = False, ev_error = False, ev_scan = False, ev_reject = False,
      ev_apConnected = False, ev_initialize = False\<rparr>"

text \<open>
  What one \<open>send\<close> accepts. When the list of answers is used up, \<open>send\<close> accepts all it is given.
\<close>

datatype send_result = Sends nat | WouldBlock | SendFailed

record LdnMasterProxyClient =
  mc_serverAddress :: string
  mc_serverPort :: int
  mc_socket :: int
  mc_connected :: bool
  mc_networkConnected :: bool
  mc_stop :: bool
  mc_useP2pProxy :: bool
  mc_constructionFailed :: bool
  mc_thread :: bool
  mc_events :: SystemEventContainer
  mc_protocol :: RyuLdnProtocol
  mc_timeout :: "NetworkTimeout option"
  mc_availableGames :: "NetworkInfo list"
  mc_disconnectReason :: DisconnectReason
  mc_disconnectIp :: u32
  mc_lastError :: NetworkError
  mc_lastNetworkInfo :: NetworkInfo
  mc_initializeMemory :: InitializeMessage
  mc_config :: ProxyConfig
  mc_gameVersion :: bytes
  mc_passphrase :: bytes
  mc_hostedProxy :: "u16 option"
  mc_connectedProxy :: "ExternalProxyConfig option"
  mc_open :: "int list"
  mc_wire :: "(int \<times> bytes) list"
  mc_sends :: "send_result list"
  mc_now :: u64
  mc_servers :: "u16 list"

type_synonym 'w mcw = "LdnMasterProxyClient \<times> 'w"
type_synonym 'w mcs = "BufferPool \<times> 'w mcw"

record 'w Env =
  env_networkChange ::
    "(LdnMasterProxyClient \<Rightarrow> NetworkInfo \<Rightarrow> bool \<Rightarrow> DisconnectReason \<Rightarrow> 'w \<Rightarrow> 'w) option"
  env_proxyConfig :: "(LdnHeader \<Rightarrow> ProxyConfig \<Rightarrow> 'w \<Rightarrow> 'w) option"
  env_proxyData :: "(LdnHeader \<Rightarrow> ProxyDataHeaderFull \<Rightarrow> span \<Rightarrow> 'w \<Rightarrow> 'w) option"
  env_other :: "RyuEvent \<Rightarrow> 'w mcs \<Rightarrow> 'w mcs run option"
  env_otherRegisters :: "PacketId \<Rightarrow> bool"
  env_serverNew :: "u16 \<Rightarrow> bool"
  env_serverStart :: "u16 \<Rightarrow> bool"
  env_serverNatPunch :: "u16 \<Rightarrow> u16"
  env_clientNew :: "ExternalProxyConfig \<Rightarrow> bool"
  env_clientConnect :: "ExternalProxyConfig \<Rightarrow> bool"
  env_clientAuth :: "ExternalProxyConfig \<Rightarrow> bool"

definition zero_info :: NetworkInfo where
  "zero_info = get_NetworkInfo (replicate 1152 0)"

text \<open>
  The constructor. \<open>_constructionFailed\<close>, \<open>_config\<close> and \<open>_lastNetworkInfo\<close> are not initialised: their
  values are arguments. A failed allocation of the thread stack aborts the process and has no
  successor state.
\<close>

definition LdnMasterProxyClient_new ::
    "bool \<Rightarrow> ProxyConfig \<Rightarrow> NetworkInfo \<Rightarrow> string \<Rightarrow> int \<Rightarrow> bool \<Rightarrow> LdnMasterProxyClient" where
  "LdnMasterProxyClient_new failed config info serverAddress serverPort useP2pProxy =
     \<lparr>mc_serverAddress = serverAddress, mc_serverPort = serverPort, mc_socket = -1,
      mc_connected = False, mc_networkConnected = False, mc_stop = False,
      mc_useP2pProxy = useP2pProxy, mc_constructionFailed = failed, mc_thread = False,
      mc_events = SystemEventContainer_new, mc_protocol = RyuLdnProtocol_new, mc_timeout = None,
      mc_availableGames = [], mc_disconnectReason = DisconnectReason_None, mc_disconnectIp = 0,
      mc_lastError = NetworkError_None, mc_lastNetworkInfo = info,
      mc_initializeMemory = get_InitializeMessage (replicate 22 0), mc_config = config,
      mc_gameVersion = replicate 16 0, mc_passphrase = [], mc_hostedProxy = None,
      mc_connectedProxy = None, mc_open = [], mc_wire = [], mc_sends = [], mc_now = 0,
      mc_servers = []\<rparr>"

definition IsConstructionSuccessful :: "LdnMasterProxyClient \<Rightarrow> bool" where
  "IsConstructionSuccessful c \<longleftrightarrow> \<not> mc_constructionFailed c"

section \<open>Sending\<close>

text \<open>The loop of \<open>SendPacket\<close>: whether it ends well, the bytes that went out, the answers left.\<close>

fun SendPacket_loop :: "send_result list \<Rightarrow> bytes \<Rightarrow> bytes \<Rightarrow> bool \<times> bytes \<times> send_result list" where
  "SendPacket_loop [] data out = (True, out @ data, [])"
| "SendPacket_loop (r # rs) data out =
     (if data = [] then (True, out, r # rs)
      else case r of
             Sends n \<Rightarrow> SendPacket_loop rs (drop n data) (out @ take n data)
           | WouldBlock \<Rightarrow> SendPacket_loop rs data out
           | SendFailed \<Rightarrow> (False, out, rs))"

definition SendPacket :: "bytes \<Rightarrow> LdnMasterProxyClient \<Rightarrow> int \<times> LdnMasterProxyClient" where
  "SendPacket data c =
     (if \<not> mc_connected c \<or> mc_socket c < 0 then (-1, c)
      else
        let (ok, out, rs) = SendPacket_loop (mc_sends c) data [] in
        (if ok then int (length data) else -1,
         c\<lparr>mc_wire := mc_wire c @ [(mc_socket c, out)], mc_sends := rs\<rparr>))"

definition SendRawPacket :: "bytes \<Rightarrow> LdnMasterProxyClient \<Rightarrow> int \<times> LdnMasterProxyClient" where
  "SendRawPacket data c = SendPacket data c"

text \<open>A \<open>ScopedBuffer\<close> that lives to the end of the scope \<open>body\<close>; \<open>None\<close> when none was borrowed.\<close>

definition scoped ::
    "(nat \<Rightarrow> BufferPool \<times> 's \<Rightarrow> ('a \<times> BufferPool \<times> 's) run) \<Rightarrow> BufferPool \<times> 's
       \<Rightarrow> ('a option \<times> BufferPool \<times> 's) run" where
  "scoped body = (\<lambda>(pool, s).
     case BorrowBuffer_try pool of
       (None, pool) \<Rightarrow> Inr (None, pool, s)
     | (Some b, pool) \<Rightarrow>
         bind_run (body b (pool, s)) (\<lambda>(r, pool, s). Inr (Some r, ReturnBuffer (Some b) pool, s)))"

text \<open>\<open>Encode\<close> into the borrowed buffer, and \<open>SendPacket\<close> of what \<open>Encode\<close> says it wrote.\<close>

definition encode_send :: "(bytes \<Rightarrow> (nat \<times> bytes) run) \<Rightarrow> nat \<Rightarrow> 'w mcs \<Rightarrow> ((int \<times> nat) \<times> 'w mcs) run" where
  "encode_send encode b = (\<lambda>(pool, c, w).
     bind_run (encode (bp_storage pool ! b)) (\<lambda>(n, buf).
       let (sent, c) = SendPacket (take n buf) c in
       Inr ((sent, n), write_buffer b buf pool, c, w)))"

text \<open>The buffer, the encoding and the sending with nothing after them.\<close>

definition send_scoped :: "(bytes \<Rightarrow> (nat \<times> bytes) run) \<Rightarrow> 'w mcs \<Rightarrow> (bool \<times> 'w mcs) run" where
  "send_scoped encode st =
     bind_run (scoped (encode_send encode) st) (\<lambda>(r, st). Inr (r \<noteq> None, st))"

section \<open>Disconnecting\<close>

definition close_fd :: "int \<Rightarrow> LdnMasterProxyClient \<Rightarrow> LdnMasterProxyClient" where
  "close_fd fd c = c\<lparr>mc_open := remove1 fd (mc_open c)\<rparr>"

text \<open>\<open>delete _hostedProxy; _hostedProxy = nullptr\<close>: the destructor stops the server.\<close>

definition delete_hosted :: "LdnMasterProxyClient \<Rightarrow> LdnMasterProxyClient" where
  "delete_hosted c =
     (case mc_hostedProxy c of
        None \<Rightarrow> c
      | Some port \<Rightarrow> c\<lparr>mc_hostedProxy := None, mc_servers := remove1 port (mc_servers c)\<rparr>)"

definition notify ::
    "'w Env \<Rightarrow> NetworkInfo \<Rightarrow> bool \<Rightarrow> DisconnectReason \<Rightarrow> 'w mcw \<Rightarrow> 'w mcw" where
  "notify env info connected reason = (\<lambda>(c, w).
     case env_networkChange env of None \<Rightarrow> (c, w) | Some f \<Rightarrow> (c, f c info connected reason w))"

text \<open>\<open>if (_timeout) _timeout->RefreshTimeout()\<close>, and the same for \<open>DisableTimeout\<close>.\<close>

definition refresh :: "LdnMasterProxyClient \<Rightarrow> LdnMasterProxyClient run" where
  "refresh c =
     (case mc_timeout c of
        None \<Rightarrow> Inr c
      | Some t \<Rightarrow> bind_run (RefreshTimeout (mc_now c) t) (\<lambda>(t, _). Inr (c\<lparr>mc_timeout := Some t\<rparr>)))"

definition disable :: "LdnMasterProxyClient \<Rightarrow> LdnMasterProxyClient run" where
  "disable c =
     (case mc_timeout c of
        None \<Rightarrow> Inr c
      | Some t \<Rightarrow> bind_run (DisableTimeout t) (\<lambda>(t, _). Inr (c\<lparr>mc_timeout := Some t\<rparr>)))"

definition DisconnectInternal :: "'w Env \<Rightarrow> 'w mcw \<Rightarrow> 'w mcw run" where
  "DisconnectInternal env = (\<lambda>(c, w).
     if mc_networkConnected c then
       let c = (delete_hosted (c\<lparr>mc_networkConnected := False\<rparr>))\<lparr>mc_connectedProxy := None\<rparr>;
           (c, w) = notify env zero_info False (mc_disconnectReason c) (c, w) in
       bind_run (refresh c) (\<lambda>c. Inr (c, w))
     else Inr (c, w))"

definition mc_Disconnect :: "'w Env \<Rightarrow> 'w mcw \<Rightarrow> 'w mcw run" where
  "mc_Disconnect env = (\<lambda>(c, w).
     let c = (if 0 \<le> mc_socket c then (close_fd (mc_socket c) c)\<lparr>mc_socket := -1\<rparr> else c);
         c = c\<lparr>mc_connected := False\<rparr> in
     DisconnectInternal env (c, w))"

text \<open>The loop at the end waits until \<open>_socket\<close> is negative; nobody else would make it so.\<close>

definition TimeoutConnection :: "'w Env \<Rightarrow> 'w mcw \<Rightarrow> 'w mcw run" where
  "TimeoutConnection env = (\<lambda>(c, w).
     bind_run (mc_Disconnect env (c\<lparr>mc_connected := False\<rparr>, w)) (\<lambda>(c, w).
       if 0 \<le> mc_socket c then Inl OutOfFuel else Inr (c, w)))"

definition DisconnectProxy :: "LdnMasterProxyClient \<Rightarrow> LdnMasterProxyClient" where
  "DisconnectProxy c = (delete_hosted c)\<lparr>mc_connectedProxy := None\<rparr>"

section \<open>Packet handlers\<close>

definition signal ::
    "(SystemEventContainer \<Rightarrow> SystemEventContainer) \<Rightarrow> LdnMasterProxyClient \<Rightarrow> LdnMasterProxyClient" where
  "signal f c = c\<lparr>mc_events := f (mc_events c)\<rparr>"

definition HandleInitialize :: "InitializeMessage \<Rightarrow> 'w mcw \<Rightarrow> 'w mcw" where
  "HandleInitialize m = (\<lambda>(c, w).
     (signal (ev_initialize_update (\<lambda>_. True)) (c\<lparr>mc_initializeMemory := m\<rparr>), w))"

definition HandleConnected :: "'w Env \<Rightarrow> NetworkInfo \<Rightarrow> 'w mcw \<Rightarrow> 'w mcw" where
  "HandleConnected env i = (\<lambda>(c, w).
     notify env i True DisconnectReason_None
       (signal (ev_apConnected_update (\<lambda>_. True))
          (c\<lparr>mc_networkConnected := True, mc_disconnectReason := DisconnectReason_None,
             mc_disconnectIp := 0, mc_lastNetworkInfo := i\<rparr>), w))"

definition HandleSyncNetwork :: "'w Env \<Rightarrow> NetworkInfo \<Rightarrow> 'w mcw \<Rightarrow> 'w mcw" where
  "HandleSyncNetwork env i = (\<lambda>(c, w).
     notify env i True DisconnectReason_None (c\<lparr>mc_lastNetworkInfo := i\<rparr>, w))"

definition HandleDisconnected :: "'w Env \<Rightarrow> DisconnectMessage \<Rightarrow> 'w mcw \<Rightarrow> 'w mcw run" where
  "HandleDisconnected env msg = (\<lambda>(c, w).
     DisconnectInternal env (c\<lparr>mc_disconnectIp := dis_disconnectIp msg\<rparr>, w))"

definition HandleRejectReply :: "'w mcw \<Rightarrow> 'w mcw" where
  "HandleRejectReply = (\<lambda>(c, w). (signal (ev_reject_update (\<lambda>_. True)) c, w))"

definition HandleScanReply :: "NetworkInfo \<Rightarrow> 'w mcw \<Rightarrow> 'w mcw" where
  "HandleScanReply i = (\<lambda>(c, w). (c\<lparr>mc_availableGames := mc_availableGames c @ [i]\<rparr>, w))"

definition HandleScanReplyEnd :: "'w mcw \<Rightarrow> 'w mcw" where
  "HandleScanReplyEnd = (\<lambda>(c, w). (signal (ev_scan_update (\<lambda>_. True)) c, w))"

definition HandleProxyConfig :: "'w Env \<Rightarrow> LdnHeader \<Rightarrow> ProxyConfig \<Rightarrow> 'w mcw \<Rightarrow> 'w mcw" where
  "HandleProxyConfig env h cfg = (\<lambda>(c, w).
     (c\<lparr>mc_config := cfg\<rparr>, case env_proxyConfig env of None \<Rightarrow> w | Some f \<Rightarrow> f h cfg w))"

definition HandleProxyData ::
    "'w Env \<Rightarrow> LdnHeader \<Rightarrow> ProxyDataHeaderFull \<Rightarrow> span \<Rightarrow> 'w mcw \<Rightarrow> 'w mcw" where
  "HandleProxyData env h hdr sp = (\<lambda>(c, w).
     (c, case env_proxyData env of None \<Rightarrow> w | Some f \<Rightarrow> f h hdr sp w))"

definition HandlePing :: "PingMessage \<Rightarrow> 'w mcs \<Rightarrow> 'w mcs run" where
  "HandlePing p st =
     (if png_requester p = 0
      then bind_run (send_scoped (Encode_struct PacketId_Ping (put_PingMessage p)) st) (\<lambda>(_, st). Inr st)
      else Inr st)"

definition HandleNetworkError :: "NetworkErrorMessage \<Rightarrow> 'w mcw \<Rightarrow> 'w mcw" where
  "HandleNetworkError e = (\<lambda>(c, w).
     (if nem_error e = PortUnreachable then c\<lparr>mc_useP2pProxy := False\<rparr>
      else c\<lparr>mc_lastError := nem_error e\<rparr>, w))"

definition HandleExternalProxy :: "'w Env \<Rightarrow> ExternalProxyConfig \<Rightarrow> 'w mcw \<Rightarrow> 'w mcw" where
  "HandleExternalProxy env config = (\<lambda>(c, w).
     if epc_addressFamily config \<noteq> of_nat AF_INET then (c, w)
     else if \<not> env_clientNew env config then (c, w)
     else if \<not> env_clientConnect env config \<or> \<not> env_clientAuth env config
     then (c\<lparr>mc_connectedProxy := None\<rparr>, w)
     else (c\<lparr>mc_connectedProxy := Some config\<rparr>, w))"

definition HandleReject :: "RejectRequest \<Rightarrow> 'w mcw \<Rightarrow> 'w mcw" where
  "HandleReject req = (\<lambda>(c, w). (c\<lparr>mc_disconnectReason := rej_disconnectReason req\<rparr>, w))"

text \<open>The handlers that only write to the log.\<close>

definition HandleSetAdvertiseData :: "span \<Rightarrow> 'w mcw \<Rightarrow> 'w mcw" where
  "HandleSetAdvertiseData sp cw = cw"

definition HandleSetAcceptPolicy :: "SetAcceptPolicyRequest \<Rightarrow> 'w mcw \<Rightarrow> 'w mcw" where
  "HandleSetAcceptPolicy req cw = cw"

definition HandleCreateAccessPoint :: "CreateAccessPointRequest \<Rightarrow> span \<Rightarrow> 'w mcw \<Rightarrow> 'w mcw" where
  "HandleCreateAccessPoint req sp cw = cw"

definition HandleCreateAccessPointPrivate ::
    "CreateAccessPointPrivateRequest \<Rightarrow> span \<Rightarrow> 'w mcw \<Rightarrow> 'w mcw" where
  "HandleCreateAccessPointPrivate req sp cw = cw"

definition HandleConnect :: "ConnectRequest \<Rightarrow> 'w mcw \<Rightarrow> 'w mcw" where
  "HandleConnect req cw = cw"

definition HandleConnectPrivate :: "ConnectPrivateRequest \<Rightarrow> 'w mcw \<Rightarrow> 'w mcw" where
  "HandleConnectPrivate req cw = cw"

definition HandleScanRequest :: "ScanFilter \<Rightarrow> 'w mcw \<Rightarrow> 'w mcw" where
  "HandleScanRequest f cw = cw"

definition ConsumeNetworkError :: "LdnMasterProxyClient \<Rightarrow> NetworkError \<times> LdnMasterProxyClient" where
  "ConsumeNetworkError c = (mc_lastError c, c\<lparr>mc_lastError := NetworkError_None\<rparr>)"

text \<open>The callbacks the constructor sets.\<close>

definition mc_registers :: "PacketId \<Rightarrow> bool" where
  "mc_registers t \<longleftrightarrow>
     t \<in> {PacketId_Initialize, PacketId_Connected, PacketId_SyncNetwork, PacketId_Disconnect,
          PacketId_RejectReply, PacketId_ScanReply, PacketId_ScanReplyEnd, PacketId_ProxyConfig,
          PacketId_ProxyData, PacketId_Ping, PacketId_NetworkError, PacketId_ExternalProxy,
          PacketId_SetAdvertiseData, PacketId_SetAcceptPolicy, PacketId_CreateAccessPoint,
          PacketId_CreateAccessPointPrivate, PacketId_Connect, PacketId_ConnectPrivate,
          PacketId_Scan, PacketId_Reject}"

definition mc_callbacks :: "'w Env \<Rightarrow> 'w mcw callbacks" where
  "mc_callbacks env ev = (\<lambda>(pool, cw).
     case ev of
       onInitialize h m \<Rightarrow> Inr (pool, HandleInitialize m cw)
     | onConnected h i \<Rightarrow> Inr (pool, HandleConnected env i cw)
     | onSyncNetwork h i \<Rightarrow> Inr (pool, HandleSyncNetwork env i cw)
     | onDisconnected h m \<Rightarrow> bind_run (HandleDisconnected env m cw) (\<lambda>cw. Inr (pool, cw))
     | onRejectReply h \<Rightarrow> Inr (pool, HandleRejectReply cw)
     | onScanReply h i \<Rightarrow> Inr (pool, HandleScanReply i cw)
     | onScanReplyEnd h \<Rightarrow> Inr (pool, HandleScanReplyEnd cw)
     | onProxyConfig h cfg \<Rightarrow> Inr (pool, HandleProxyConfig env h cfg cw)
     | onProxyData h hdr sp \<Rightarrow> Inr (pool, HandleProxyData env h hdr sp cw)
     | onPing h p \<Rightarrow> HandlePing p (pool, cw)
     | onNetworkError h e \<Rightarrow> Inr (pool, HandleNetworkError e cw)
     | onExternalProxy h config \<Rightarrow> Inr (pool, HandleExternalProxy env config cw)
     | onSetAdvertiseData h sp \<Rightarrow> Inr (pool, HandleSetAdvertiseData sp cw)
     | onSetAcceptPolicy h req \<Rightarrow> Inr (pool, HandleSetAcceptPolicy req cw)
     | onCreateAccessPoint h req sp \<Rightarrow> Inr (pool, HandleCreateAccessPoint req sp cw)
     | onCreateAccessPointPrivate h req sp \<Rightarrow> Inr (pool, HandleCreateAccessPointPrivate req sp cw)
     | onConnect h req \<Rightarrow> Inr (pool, HandleConnect req cw)
     | onConnectPrivate h req \<Rightarrow> Inr (pool, HandleConnectPrivate req cw)
     | onScan h f \<Rightarrow> Inr (pool, HandleScanRequest f cw)
     | onReject h req \<Rightarrow> Inr (pool, HandleReject req cw)
     | _ \<Rightarrow> Inr (pool, cw))"

text \<open>
  The callback table of the protocol object: the client's, and what \<open>LdnProxy\<close> and
  \<open>P2pProxyServer\<close> put over it while they exist.
\<close>

definition protocol_callbacks :: "'w Env \<Rightarrow> 'w mcw callbacks" where
  "protocol_callbacks env ev st =
     (case env_other env ev st of Some r \<Rightarrow> r | None \<Rightarrow> mc_callbacks env ev st)"

definition protocol_registers :: "'w Env \<Rightarrow> PacketId \<Rightarrow> bool" where
  "protocol_registers env t \<longleftrightarrow> mc_registers t \<or> env_otherRegisters env t"

section \<open>The worker thread\<close>

datatype recv_result = Received bytes | RecvFailed

datatype poll_result = Readable recv_result | NotReadable | PollTimedOut | PollInterrupted | PollFailed

text \<open>One pass of the loop: what \<open>poll\<close> and \<open>recv\<close> answer, and the system tick.\<close>

type_synonym pass = "poll_result \<times> u64"

definition ReceiveData :: "'w Env \<Rightarrow> recv_result \<Rightarrow> 'w mcs \<Rightarrow> (int \<times> 'w mcs) run" where
  "ReceiveData env answer = (\<lambda>(pool, c, w).
     if \<not> mc_connected c \<or> mc_socket c < 0 then Inr (-1, pool, c, w)
     else
       case answer of
         RecvFailed \<Rightarrow> Inr (-1, pool, c, w)
       | Received bs \<Rightarrow>
           let buffer = take 4096 bs; received = int (length buffer) in
           if received = 0 then Inr (-1, pool, c, w)
           else
             bind_run (Read (protocol_registers env) (protocol_callbacks env) buffer 0 received
                         (mc_protocol c, pool, c, w))
               (\<lambda>(s, pool, c, w). Inr (received, pool, c\<lparr>mc_protocol := s\<rparr>, w)))"

definition disconnect_and_signal :: "'w Env \<Rightarrow> 'w mcs \<Rightarrow> 'w mcs run" where
  "disconnect_and_signal env = (\<lambda>(pool, cw).
     bind_run (mc_Disconnect env cw) (\<lambda>(c, w). Inr (pool, signal (ev_error_update (\<lambda>_. True)) c, w)))"

text \<open>\<open>if (_timeout) _timeout->CheckTimeout()\<close> with \<open>TimeoutConnection\<close> as the callback.\<close>

definition check_timeout :: "'w Env \<Rightarrow> 'w mcw \<Rightarrow> 'w mcw run" where
  "check_timeout env = (\<lambda>(c, w).
     case mc_timeout c of
       None \<Rightarrow> Inr (c, w)
     | Some t \<Rightarrow>
         bind_run
           (CheckTimeout (mc_now c)
              (\<lambda>t (c, w).
                 bind_run (TimeoutConnection env (c\<lparr>mc_timeout := Some t\<rparr>, w)) (\<lambda>(c, w).
                   case mc_timeout c of None \<Rightarrow> Inl UseAfterFree | Some t \<Rightarrow> Inr (t, c, w)))
              (c, w) t)
           (\<lambda>(t, c, w). Inr (c\<lparr>mc_timeout := Some t\<rparr>, w)))"

definition WorkerLoop_pass :: "'w Env \<Rightarrow> pass \<Rightarrow> 'w mcs \<Rightarrow> 'w mcs run" where
  "WorkerLoop_pass env = (\<lambda>(answer, now) (pool, c, w).
     if mc_stop c then Inr (pool, c, w)
     else
       let c = c\<lparr>mc_now := now\<rparr> in
       bind_run
         (if mc_connected c \<and> 0 \<le> mc_socket c then
            case answer of
              Readable r \<Rightarrow>
                bind_run (ReceiveData env r (pool, c, w)) (\<lambda>(n, st).
                  if n < 0 then disconnect_and_signal env st else Inr st)
            | PollFailed \<Rightarrow> disconnect_and_signal env (pool, c, w)
            | _ \<Rightarrow> Inr (pool, c, w)
          else Inr (pool, c, w))
         (\<lambda>(pool, cw). bind_run (check_timeout env cw) (\<lambda>cw. Inr (pool, cw))))"

fun WorkerLoop :: "'w Env \<Rightarrow> pass list \<Rightarrow> 'w mcs \<Rightarrow> 'w mcs run" where
  "WorkerLoop env [] st = Inr st"
| "WorkerLoop env (p # ps) st = bind_run (WorkerLoop_pass env p st) (WorkerLoop env ps)"

text \<open>
  \<open>TimedWait\<close> on an event, while the worker makes the passes \<open>ps\<close>; \<open>clear\<close> resets the flag of an
  event in mode \<open>AutoClear\<close>.
\<close>

definition TimedWait ::
    "'w Env \<Rightarrow> pass list \<Rightarrow> (SystemEventContainer \<Rightarrow> bool) \<Rightarrow> (SystemEventContainer \<Rightarrow> SystemEventContainer)
       \<Rightarrow> 'w mcs \<Rightarrow> (bool \<times> 'w mcs) run" where
  "TimedWait env ps event clear st =
     bind_run (WorkerLoop env ps st) (\<lambda>(pool, c, w).
       if event (mc_events c) then Inr (True, pool, signal clear c, w) else Inr (False, pool, c, w))"

definition wait_ap :: "'w Env \<Rightarrow> pass list \<Rightarrow> 'w mcs \<Rightarrow> (bool \<times> 'w mcs) run" where
  "wait_ap env ps = TimedWait env ps ev_apConnected (ev_apConnected_update (\<lambda>_. False))"

section \<open>Connecting to the server\<close>

text \<open>
  What the operating system answers to one attempt: the descriptor of \<open>socket\<close>, whether the name
  resolves, whether \<open>connect\<close> succeeds or is in progress, the result of \<open>poll\<close>, the value of
  \<open>SO_ERROR\<close>; and the passes of the worker while the reply to \<open>Initialize\<close> is awaited.
\<close>

record Attempt =
  at_socket :: int
  at_resolved :: bool
  at_connecting :: bool
  at_poll :: int
  at_error :: int
  at_passes :: "pass list"

definition abandon :: "LdnMasterProxyClient \<Rightarrow> LdnMasterProxyClient" where
  "abandon c = (close_fd (mc_socket c) c)\<lparr>mc_socket := -1\<rparr>"

text \<open>Opening the TCP connection: the part of \<open>EnsureConnected\<close> up to \<open>_connected = true\<close>.\<close>

definition open_connection :: "Attempt \<Rightarrow> LdnMasterProxyClient \<Rightarrow> bool \<times> LdnMasterProxyClient" where
  "open_connection a c =
     (let c = signal (ev_error_update (\<lambda>_. False) \<circ> ev_connected_update (\<lambda>_. False)) c;
          c = c\<lparr>mc_socket := at_socket a\<rparr> in
      if mc_socket c < 0 then (False, c)
      else
        let c = c\<lparr>mc_open := at_socket a # mc_open c\<rparr> in
        if \<not> at_resolved a then (False, abandon c)
        else if \<not> at_connecting a then (False, abandon c)
        else if at_poll a \<le> 0 then (False, abandon c)
        else if at_error a \<noteq> 0 then (False, abandon c)
        else (True, c\<lparr>mc_connected := True\<rparr>))"

text \<open>The handshake with the borrowed buffer \<open>b\<close>.\<close>

definition handshake :: "'w Env \<Rightarrow> Attempt \<Rightarrow> nat \<Rightarrow> 'w mcs \<Rightarrow> (bool \<times> 'w mcs) run" where
  "handshake env a b = (\<lambda>(pool, c, w).
     bind_run
       (encode_send (Encode_struct PacketId_Initialize (put_InitializeMessage (mc_initializeMemory c))) b
          (pool, signal (ev_initialize_update (\<lambda>_. False)) c, w))
       (\<lambda>((sent, n), pool, c, w).
          if sent \<noteq> int n then Inr (False, pool, c\<lparr>mc_connected := False\<rparr>, w)
          else
            bind_run (TimedWait env (at_passes a) ev_initialize (ev_initialize_update (\<lambda>_. False)) (pool, c, w))
              (\<lambda>(ok, pool, c, w).
                 if ok then Inr (True, pool, c, w) else Inr (False, pool, c\<lparr>mc_connected := False\<rparr>, w))))"

definition EnsureConnected :: "'w Env \<Rightarrow> Attempt \<Rightarrow> 'w mcs \<Rightarrow> (bool \<times> 'w mcs) run" where
  "EnsureConnected env a = (\<lambda>(pool, c, w).
     if mc_connected c then Inr (True, pool, c, w)
     else
       let (ok, c) = open_connection a c in
       if \<not> ok then Inr (False, pool, c, w)
       else
         let (s, pool) = Reset (mc_protocol c) pool;
             c = signal (ev_connected_update (\<lambda>_. True)) (c\<lparr>mc_protocol := s\<rparr>) in
         bind_run (scoped (handshake env a) (pool, c, w)) (\<lambda>(r, pool, c, w).
           case r of
             None \<Rightarrow> Inr (False, pool, c\<lparr>mc_connected := False\<rparr>, w)
           | Some ok \<Rightarrow> Inr (ok, pool, c, w)))"

section \<open>Life cycle\<close>

text \<open>\<open>thread_rc\<close> is the result of \<open>os::CreateThread\<close>. The stack was allocated by the constructor.\<close>

definition mc_Initialize :: "Result \<Rightarrow> LdnMasterProxyClient \<Rightarrow> Result \<times> LdnMasterProxyClient" where
  "mc_Initialize thread_rc c =
     (let c = c\<lparr>mc_timeout := Some (NetworkTimeout_new InactiveTimeout)\<rparr> in
      if thread_rc \<noteq> ResultSuccess then (thread_rc, c)
      else (ResultSuccess, c\<lparr>mc_thread := True\<rparr>))"

text \<open>\<open>os::WaitThread\<close> on the zeroed structure of a thread that was never created is a fault.\<close>

definition mc_Finalize :: "'w Env \<Rightarrow> 'w mcw \<Rightarrow> (Result \<times> 'w mcw) run" where
  "mc_Finalize env = (\<lambda>(c, w).
     if mc_stop c then Inr (ResultSuccess, c, w)
     else
       bind_run (let c = c\<lparr>mc_stop := True\<rparr> in
                 if 0 \<le> mc_socket c then mc_Disconnect env (c, w) else Inr (c, w)) (\<lambda>(c, w).
       bind_run (disable c) (\<lambda>c.
         let c = c\<lparr>mc_timeout := None\<rparr> in
         if mc_thread c then Inr (ResultSuccess, c\<lparr>mc_thread := False\<rparr>, w)
         else Inl InvalidThread)))"

text \<open>The destructor, with the destructor of the protocol object.\<close>

definition LdnMasterProxyClient_destroy :: "'w Env \<Rightarrow> 'w mcs \<Rightarrow> (BufferPool \<times> 'w) run" where
  "LdnMasterProxyClient_destroy env = (\<lambda>(pool, cw).
     bind_run (mc_Finalize env cw) (\<lambda>(_, c, w).
       Inr (RyuLdnProtocol_destroy (mc_protocol (DisconnectProxy c)) pool, w)))"

section \<open>Passphrase and version\<close>

definition SetGameVersion :: "bytes \<Rightarrow> LdnMasterProxyClient \<Rightarrow> LdnMasterProxyClient" where
  "SetGameVersion v c =
     c\<lparr>mc_gameVersion := take (min (length v) 16) v @ drop (min (length v) 16) (mc_gameVersion c)\<rparr>"

text \<open>\<open>strncpy(msg.passphrase, passphrase, sizeof(msg.passphrase) - 1)\<close> into a zeroed message.\<close>

definition passphrase_message :: "bytes \<Rightarrow> PassphraseMessage" where
  "passphrase_message p =
     \<lparr>pas_passphrase = take 127 p @ replicate (128 - min 127 (length p)) 0\<rparr>"

definition UpdatePassphraseIfNeeded :: "bytes option \<Rightarrow> 'w mcs \<Rightarrow> 'w mcs run" where
  "UpdatePassphraseIfNeeded passphrase = (\<lambda>(pool, c, w).
     case passphrase of
       None \<Rightarrow> Inr (pool, c, w)
     | Some p \<Rightarrow>
         if mc_passphrase c = p then Inr (pool, c, w)
         else
           let c = c\<lparr>mc_passphrase := p\<rparr> in
           if mc_connected c then
             bind_run (send_scoped (Encode_struct PacketId_Passphrase
                         (put_PassphraseMessage (passphrase_message p))) (pool, c, w))
               (\<lambda>(_, st). Inr st)
           else Inr (pool, c, w))"

definition SetPassphrase :: "bytes option \<Rightarrow> 'w mcs \<Rightarrow> 'w mcs run" where
  "SetPassphrase p st = UpdatePassphraseIfNeeded p st"

section \<open>Hosting\<close>

definition PrivatePortBase :: u16 where "PrivatePortBase = 39990"
definition PrivatePortRange :: nat where "PrivatePortRange = 10"

fun ConfigureAccessPoint_ports ::
    "'w Env \<Rightarrow> nat list \<Rightarrow> RyuNetworkConfig \<Rightarrow> LdnMasterProxyClient \<Rightarrow> RyuNetworkConfig \<times> LdnMasterProxyClient"
  where
  "ConfigureAccessPoint_ports env [] config c =
     (config\<lparr>rnc_externalProxyPort := 0, rnc_internalProxyPort := 0\<rparr>, c)"
| "ConfigureAccessPoint_ports env (i # is) config c =
     (let port = PrivatePortBase + of_nat i in
      if \<not> env_serverNew env port then (config, c\<lparr>mc_hostedProxy := None\<rparr>)
      else if \<not> env_serverStart env port
      then ConfigureAccessPoint_ports env is config (c\<lparr>mc_hostedProxy := None\<rparr>)
      else
        let c = c\<lparr>mc_hostedProxy := Some port, mc_servers := port # mc_servers c\<rparr>;
            externalPort = env_serverNatPunch env port in
        if externalPort \<noteq> 0
        then (config\<lparr>rnc_externalProxyPort := externalPort, rnc_internalProxyPort := port,
                     rnc_addressFamily := 2\<rparr>, c)
        else ConfigureAccessPoint_ports env is config (delete_hosted c))"

definition ConfigureAccessPoint ::
    "'w Env \<Rightarrow> RyuNetworkConfig \<Rightarrow> LdnMasterProxyClient \<Rightarrow> RyuNetworkConfig \<times> LdnMasterProxyClient" where
  "ConfigureAccessPoint env config c =
     (if \<not> mc_useP2pProxy c
      then (config\<lparr>rnc_externalProxyPort := 0, rnc_internalProxyPort := 0\<rparr>, c)
      else ConfigureAccessPoint_ports env [0..<PrivatePortRange] config c)"

definition cstr :: "string \<Rightarrow> bytes" where
  "cstr s = map (\<lambda>ch. of_nat (of_char ch)) s"

text \<open>\<open>std::strcpy(array, s)\<close> into an array of bytes that is long enough.\<close>

definition put_cstr :: "bytes \<Rightarrow> bytes \<Rightarrow> bytes" where
  "put_cstr array s = s @ [0] @ drop (length s + 1) array"

definition host_bssid :: MacAddress where
  "host_bssid = \<lparr>mac_raw = [0x00, 0xA0, 0xC9, 0x52, 0x00, 0x00]\<rparr>"

definition dummy_host :: "NetworkConfig \<Rightarrow> bytes \<Rightarrow> NodeInfo \<Rightarrow> NodeInfo" where
  "dummy_host config d node =
     node\<lparr>node_nodeId := 0, node_isConnected := 1, node_ipv4Address := 0xC0A8001,
          node_macAddress := host_bssid,
          node_localCommunicationVersion := ncf_localCommunicationVersion config,
          node_userName :=
            (if 0 < length d \<and> length d \<le> UserNameBytesMax
             then put_cstr (node_userName node) d else put_cstr (node_userName node) (cstr ''HOST''))\<rparr>"

definition dummyInfo :: "NetworkConfig \<Rightarrow> bytes \<Rightarrow> NetworkInfo" where
  "dummyInfo config d =
     (let i = zero_info; nid = net_networkId i; cni = net_common i; lni = net_ldn i in
      \<lparr>net_networkId =
         nid\<lparr>nid_intentId := (nid_intentId nid)
               \<lparr>int_localCommunicationId := int_localCommunicationId (ncf_intentId config),
                int_sceneId := int_sceneId (ncf_intentId config)\<rparr>,
             nid_sessionId := \<lparr>ses_high = 0x0001020304050607, ses_low = 0x08090A0B0C0D0E0F\<rparr>\<rparr>,
       net_common =
         cni\<lparr>cni_bssid := host_bssid,
             cni_ssid := \<lparr>ssid_length = 11, ssid_raw = put_cstr (ssid_raw (cni_ssid cni)) (cstr ''Nintendo_AP'')\<rparr>,
             cni_channel := 6, cni_linkLevel := 100, cni_networkType := 0\<rparr>,
       net_ldn =
         lni\<lparr>lni_nodeCountMax := ncf_nodeCountMax config, lni_nodeCount := 1, lni_securityMode := 2,
             lni_stationAcceptPolicy := 1,
             lni_nodes := (lni_nodes lni)[0 := dummy_host config d (lni_nodes lni ! 0)]\<rparr>\<rparr>)"

text \<open>
  The tail that \<open>CreateNetwork\<close>, \<open>CreateNetworkPrivate\<close>, \<open>Connect\<close> and \<open>ConnectPrivate\<close> share: a buffer,
  the request, the wait for \<open>apConnectedEvent\<close>, and what \<open>success\<close> does before the buffer is returned.
\<close>

definition request ::
    "'w Env \<Rightarrow> pass list \<Rightarrow> (bytes \<Rightarrow> (nat \<times> bytes) run) \<Rightarrow> ('w mcw \<Rightarrow> 'w mcw) \<Rightarrow> 'w mcs
       \<Rightarrow> (Result \<times> 'w mcs) run" where
  "request env ps encode success = (\<lambda>(pool, c, w).
     bind_run
       (scoped (\<lambda>b (pool, c, w).
          bind_run (encode_send encode b (pool, signal (ev_apConnected_update (\<lambda>_. False)) c, w)) (\<lambda>(_, st).
          bind_run (wait_ap env ps st) (\<lambda>(ok, pool, cw).
            if ok then Inr (ResultSuccess, pool, success cw) else Inr (MAKERESULT 0xFD 2, pool, cw))))
          (pool, c, w))
       (\<lambda>(r, st). Inr (case r of None \<Rightarrow> MAKERESULT 0xFD 1 | Some rc \<Rightarrow> rc, st)))"

definition mc_CreateNetwork ::
    "'w Env \<Rightarrow> Attempt \<Rightarrow> pass list \<Rightarrow> CreateAccessPointRequest \<Rightarrow> bytes \<Rightarrow> 'w mcs \<Rightarrow> (Result \<times> 'w mcs) run"
  where
  "mc_CreateNetwork env a ps req d = (\<lambda>(pool, c, w).
     bind_run (disable c) (\<lambda>c.
     bind_run (EnsureConnected env a (pool, c, w)) (\<lambda>(ok, pool, c, w).
       if \<not> ok then Inr (MAKERESULT 0xFD 1, pool, DisconnectProxy c, w)
       else
         bind_run (DisconnectInternal env (c, w)) (\<lambda>(c, w).
           let config = (cap_ryuNetworkConfig req)\<lparr>rnc_gameVersion := mc_gameVersion c\<rparr>;
               (config, c) = ConfigureAccessPoint env config c;
               mod_req = req\<lparr>cap_ryuNetworkConfig := config\<rparr> in
           request env ps
             (Encode_extra PacketId_CreateAccessPoint (put_CreateAccessPointRequest mod_req) d)
             (\<lambda>(c, w). let info = dummyInfo (cap_networkConfig req) d in
                        notify env info True DisconnectReason_None (c\<lparr>mc_lastNetworkInfo := info\<rparr>, w))
             (pool, c, w)))))"

definition mc_CreateNetworkPrivate ::
    "'w Env \<Rightarrow> Attempt \<Rightarrow> pass list \<Rightarrow> CreateAccessPointPrivateRequest \<Rightarrow> bytes \<Rightarrow> 'w mcs
       \<Rightarrow> (Result \<times> 'w mcs) run" where
  "mc_CreateNetworkPrivate env a ps req d = (\<lambda>(pool, c, w).
     bind_run (disable c) (\<lambda>c.
     bind_run (EnsureConnected env a (pool, c, w)) (\<lambda>(ok, pool, c, w).
       if \<not> ok then Inr (MAKERESULT 0xFD 1, pool, DisconnectProxy c, w)
       else
         request env ps
           (Encode_extra PacketId_CreateAccessPointPrivate (put_CreateAccessPointPrivateRequest req) d)
           id (pool, c, w))))"

section \<open>Joining and scanning\<close>

definition mc_Connect ::
    "'w Env \<Rightarrow> Attempt \<Rightarrow> pass list \<Rightarrow> ConnectRequest \<Rightarrow> 'w mcs \<Rightarrow> (Result \<times> 'w mcs) run" where
  "mc_Connect env a ps req = (\<lambda>(pool, c, w).
     bind_run (disable c) (\<lambda>c.
     bind_run (EnsureConnected env a (pool, c, w)) (\<lambda>(ok, st).
       if \<not> ok then Inr (MAKERESULT 0xFD 1, st)
       else request env ps (Encode_struct PacketId_Connect (put_ConnectRequest req)) id st)))"

definition mc_ConnectPrivate ::
    "'w Env \<Rightarrow> Attempt \<Rightarrow> pass list \<Rightarrow> ConnectPrivateRequest \<Rightarrow> 'w mcs \<Rightarrow> (Result \<times> 'w mcs) run" where
  "mc_ConnectPrivate env a ps req = (\<lambda>(pool, c, w).
     bind_run (disable c) (\<lambda>c.
     bind_run (EnsureConnected env a (pool, c, w)) (\<lambda>(ok, st).
       if \<not> ok then Inr (MAKERESULT 0xFD 1, st)
       else request env ps (Encode_struct PacketId_ConnectPrivate (put_ConnectPrivateRequest req)) id st)))"

text \<open>\<open>Scan\<close> yields the result, the networks stored in the caller's array and the value of \<open>*count\<close>.\<close>

definition mc_Scan ::
    "'w Env \<Rightarrow> Attempt \<Rightarrow> pass list \<Rightarrow> u16 \<Rightarrow> ScanFilter \<Rightarrow> 'w mcs
       \<Rightarrow> ((Result \<times> NetworkInfo list \<times> u16) \<times> 'w mcs) run" where
  "mc_Scan env a ps count f = (\<lambda>(pool, c, w).
     bind_run (if \<not> mc_networkConnected c then refresh c else Inr c) (\<lambda>c.
     bind_run (EnsureConnected env a (pool, c\<lparr>mc_availableGames := []\<rparr>, w)) (\<lambda>(ok, pool, c, w).
       if \<not> ok then Inr ((MAKERESULT 0xFD 1, [], 0), pool, c, w)
       else
         bind_run (send_scoped (Encode_struct PacketId_Scan (put_ScanFilter f))
                     (pool, signal (ev_scan_update (\<lambda>_. False)) c, w)) (\<lambda>(ok, st).
           if \<not> ok then Inr ((MAKERESULT 0xFD 1, [], 0), st)
           else
             bind_run (TimedWait env ps ev_scan id st) (\<lambda>(ok, pool, c, w).
               if \<not> ok then Inr ((ResultSuccess, [], 0), pool, c, w)
               else
                 let found = min (of_nat (length (mc_availableGames c))) count in
                 Inr ((ResultSuccess, take (unat found) (mc_availableGames c), found), pool, c, w))))))"

section \<open>In a network\<close>

definition mc_DisconnectNetwork :: "'w Env \<Rightarrow> 'w mcs \<Rightarrow> (Result \<times> 'w mcs) run" where
  "mc_DisconnectNetwork env = (\<lambda>(pool, c, w).
     if mc_networkConnected c then
       let c = c\<lparr>mc_disconnectReason := DisconnectedByUser, mc_disconnectIp := 0\<rparr> in
       bind_run
         (scoped (\<lambda>b st.
            bind_run (encode_send (Encode_struct PacketId_Disconnect
                         (put_DisconnectMessage \<lparr>dis_disconnectIp = 0\<rparr>)) b st) (\<lambda>(_, pool, cw).
            bind_run (DisconnectInternal env cw) (\<lambda>cw. Inr ((), pool, cw)))) (pool, c, w))
         (\<lambda>(r, pool, cw).
            case r of
              Some _ \<Rightarrow> Inr (ResultSuccess, pool, cw)
            | None \<Rightarrow> bind_run (DisconnectInternal env cw) (\<lambda>cw. Inr (ResultSuccess, pool, cw)))
     else Inr (ResultSuccess, pool, c, w))"

definition mc_SetAdvertiseData :: "bytes \<Rightarrow> 'w mcs \<Rightarrow> (Result \<times> 'w mcs) run" where
  "mc_SetAdvertiseData d st =
     (if \<not> mc_networkConnected (fst (snd st)) then Inr (MAKERESULT 0xFD 3, st)
      else
        bind_run (send_scoped (Encode_data PacketId_SetAdvertiseData d) st) (\<lambda>(ok, st).
          Inr (if ok then ResultSuccess else MAKERESULT 0xFD 1, st)))"

definition mc_SetStationAcceptPolicy :: "u8 \<Rightarrow> 'w mcs \<Rightarrow> (Result \<times> 'w mcs) run" where
  "mc_SetStationAcceptPolicy p st =
     (if \<not> mc_networkConnected (fst (snd st)) then Inr (MAKERESULT 0xFD 3, st)
      else
        bind_run (send_scoped (Encode_struct PacketId_SetAcceptPolicy
                    (put_SetAcceptPolicyRequest \<lparr>sap_stationAcceptPolicy = p\<rparr>)) st) (\<lambda>(ok, st).
          Inr (if ok then ResultSuccess else MAKERESULT 0xFD 1, st)))"

definition mc_Reject ::
    "'w Env \<Rightarrow> pass list \<Rightarrow> DisconnectReason \<Rightarrow> u32 \<Rightarrow> 'w mcs \<Rightarrow> (Result \<times> 'w mcs) run" where
  "mc_Reject env ps reason nodeId = (\<lambda>(pool, c, w).
     if \<not> mc_networkConnected c then Inr (MAKERESULT 0xFD 3, pool, c, w)
     else
       bind_run
         (scoped (\<lambda>b st.
            bind_run (encode_send (Encode_struct PacketId_Reject
                         (put_RejectRequest \<lparr>rej_nodeId = nodeId, rej_disconnectReason = reason\<rparr>)) b st)
              (\<lambda>(_, st). TimedWait env ps ev_reject id st))
            (pool, signal (ev_reject_update (\<lambda>_. False)) c, w))
         (\<lambda>(r, st).
            Inr (case r of
                   None \<Rightarrow> MAKERESULT 0xFD 1
                 | Some ok \<Rightarrow> if ok then ResultSuccess else MAKERESULT 0xFD 4, st)))"

end
