(* ===== verification/Master_Worker.thy ===== *)
theory Master_Worker
  imports Master_Client
begin

text \<open>
  What the worker thread of the master client does with the byte stream of the server: whatever the
  pieces it arrives in and however many polls time out between them, the client goes through the
  handlers of the packets, in order, and nothing else changes but the timer and the protocol object.

  \<open>client_effect\<close> is the effect of a packet as a function, \<open>core\<close> forgets the timer, the clock and the
  protocol object. The locale \<open>client_env\<close> is the contract of the environment: callbacks that read
  only the core of the client, and handlers installed by others that only send packets and change
  their own state.
\<close>

section \<open>Invariant and core\<close>

definition mc_inv :: "LdnMasterProxyClient \<Rightarrow> bool" where
  "mc_inv c \<longleftrightarrow>
     (\<forall>t. mc_timeout c = Some t \<longrightarrow> \<not> nt_locked t)
     \<and> (mc_connected c \<longrightarrow> 0 \<le> mc_socket c)
     \<and> (0 \<le> mc_socket c \<longrightarrow> mc_socket c \<in> set (mc_open c))"

definition core :: "LdnMasterProxyClient \<Rightarrow> LdnMasterProxyClient" where
  "core c = c\<lparr>mc_timeout := None, mc_now := 0, mc_protocol := RyuLdnProtocol_new\<rparr>"

lemma core_core [simp]: "core (core c) = core c"
  by (simp add: core_def)

lemma core_fields [simp]:
  "mc_timeout (core c) = None" "mc_connected (core c) = mc_connected c" "mc_socket (core c) = mc_socket c"
  "mc_networkConnected (core c) = mc_networkConnected c" "mc_stop (core c) = mc_stop c"
  "mc_sends (core c) = mc_sends c" "mc_wire (core c) = mc_wire c" "mc_events (core c) = mc_events c"
  "mc_hostedProxy (core c) = mc_hostedProxy c" "mc_disconnectReason (core c) = mc_disconnectReason c"
  "mc_servers (core c) = mc_servers c" "mc_availableGames (core c) = mc_availableGames c"
  "mc_disconnectIp (core c) = mc_disconnectIp c" "mc_open (core c) = mc_open c"
  by (simp_all add: core_def)

lemma core_update [simp]:
  "core (c\<lparr>mc_timeout := t\<rparr>) = core c" "core (c\<lparr>mc_now := n\<rparr>) = core c"
  "core (c\<lparr>mc_protocol := s\<rparr>) = core c"
  by (simp_all add: core_def)

lemma core_commute:
  "core (c\<lparr>mc_networkConnected := b\<rparr>) = (core c)\<lparr>mc_networkConnected := b\<rparr>"
  "core (c\<lparr>mc_disconnectReason := r\<rparr>) = (core c)\<lparr>mc_disconnectReason := r\<rparr>"
  "core (c\<lparr>mc_disconnectIp := i\<rparr>) = (core c)\<lparr>mc_disconnectIp := i\<rparr>"
  "core (c\<lparr>mc_lastNetworkInfo := n\<rparr>) = (core c)\<lparr>mc_lastNetworkInfo := n\<rparr>"
  "core (c\<lparr>mc_events := e\<rparr>) = (core c)\<lparr>mc_events := e\<rparr>"
  "core (c\<lparr>mc_availableGames := g\<rparr>) = (core c)\<lparr>mc_availableGames := g\<rparr>"
  "core (c\<lparr>mc_connected := k\<rparr>) = (core c)\<lparr>mc_connected := k\<rparr>"
  "core (c\<lparr>mc_passphrase := p\<rparr>) = (core c)\<lparr>mc_passphrase := p\<rparr>"
  by (cases c; simp add: core_def)+

section \<open>Sending\<close>

lemma SendPacket_keeps [simp]:
  "mc_timeout (snd (SendPacket d c)) = mc_timeout c" "mc_now (snd (SendPacket d c)) = mc_now c"
  "mc_protocol (snd (SendPacket d c)) = mc_protocol c" "mc_connected (snd (SendPacket d c)) = mc_connected c"
  "mc_socket (snd (SendPacket d c)) = mc_socket c" "mc_stop (snd (SendPacket d c)) = mc_stop c"
  "mc_open (snd (SendPacket d c)) = mc_open c" "mc_events (snd (SendPacket d c)) = mc_events c"
  "mc_networkConnected (snd (SendPacket d c)) = mc_networkConnected c"
  "mc_availableGames (snd (SendPacket d c)) = mc_availableGames c"
  "mc_disconnectReason (snd (SendPacket d c)) = mc_disconnectReason c"
  "mc_disconnectIp (snd (SendPacket d c)) = mc_disconnectIp c"
  "mc_hostedProxy (snd (SendPacket d c)) = mc_hostedProxy c"
  "mc_servers (snd (SendPacket d c)) = mc_servers c"
  "mc_config (snd (SendPacket d c)) = mc_config c"
  by (simp_all add: SendPacket_def Let_def split: prod.split)

lemma SendPacket_core: "core (snd (SendPacket d c)) = snd (SendPacket d (core c))"
  by (simp add: SendPacket_def Let_def split: prod.split) (simp add: core_def)

definition send_all :: "bytes list \<Rightarrow> LdnMasterProxyClient \<Rightarrow> LdnMasterProxyClient" where
  "send_all pks c = fold (\<lambda>pk c. snd (SendPacket pk c)) pks c"

lemma send_all_simps [simp]:
  "send_all [] c = c" "send_all (pk # pks) c = send_all pks (snd (SendPacket pk c))"
  by (simp_all add: send_all_def)

lemma send_all_keeps [simp]:
  "mc_timeout (send_all ds c) = mc_timeout c" "mc_now (send_all ds c) = mc_now c"
  "mc_protocol (send_all ds c) = mc_protocol c" "mc_connected (send_all ds c) = mc_connected c"
  "mc_socket (send_all ds c) = mc_socket c" "mc_stop (send_all ds c) = mc_stop c"
  "mc_open (send_all ds c) = mc_open c" "mc_events (send_all ds c) = mc_events c"
  "mc_networkConnected (send_all ds c) = mc_networkConnected c"
  "mc_availableGames (send_all ds c) = mc_availableGames c"
  "mc_disconnectReason (send_all ds c) = mc_disconnectReason c"
  "mc_disconnectIp (send_all ds c) = mc_disconnectIp c"
  "mc_hostedProxy (send_all ds c) = mc_hostedProxy c"
  "mc_servers (send_all ds c) = mc_servers c"
  "mc_config (send_all ds c) = mc_config c"
  by (induction ds arbitrary: c) simp_all

lemma send_all_core: "core (send_all ds c) = send_all ds (core c)"
  by (induction ds arbitrary: c) (simp_all add: SendPacket_core)

text \<open>A borrowed buffer is there, the packet fits: the packet goes to \<open>SendPacket\<close>.\<close>

lemma encode_send_ok:
  assumes "length (bp_storage pool ! b) = BufferSize" and "HeaderSize + length payload \<le> BufferSize"
    and "\<And>buf. encode buf = encoded type payload buf"
  shows "\<exists>buf. length buf = BufferSize \<and>
     encode_send encode b (pool, c, w) =
       Inr ((fst (SendPacket (packet type payload) c), HeaderSize + length payload),
            write_buffer b buf pool, snd (SendPacket (packet type payload) c), w)"
proof -
  let ?buf = "packet type payload @ drop (HeaderSize + length payload) (bp_storage pool ! b)"
  have "encode (bp_storage pool ! b) = Inr (HeaderSize + length payload, ?buf)"
    using assms by (simp add: encoded_def)
  moreover have "length ?buf = BufferSize" using assms(1,2) by simp
  moreover have "take (HeaderSize + length payload) ?buf = packet type payload" by simp
  ultimately show ?thesis
    by (intro exI [of _ ?buf]) (simp add: encode_send_def split_beta Let_def)
qed

lemma scoped_ready:
  assumes "pool_ready pool"
  obtains b p where "BorrowBuffer_try pool = (Some b, p)"
    and "b < MaxBuffers" and "b \<notin> borrowed pool" and "pool_inv p"
    and "borrowed p = insert b (borrowed pool)" and "bp_storage p = bp_storage pool"
    and "length (bp_storage pool ! b) = BufferSize"
proof -
  have inv: "pool_inv pool" using assms by (simp add: pool_ready_def)
  obtain b p where b: "BorrowBuffer_try pool = (Some b, p)"
    using bpool.borrow_succeeds assms unfolding pool_ready_def by blast
  have "length (bp_storage pool ! b) = BufferSize"
    using borrow_Some [OF inv b] inv by (auto simp: pool_inv_def storage_ok_def)
  then show ?thesis
    using that [OF b] borrow_Some [OF inv b] pool_inv_borrow [OF inv] b by simp
qed

lemma return_kept:
  assumes "pool_inv pool" and "b \<notin> borrowed pool" and "pool_inv p"
    and "borrowed p = insert b (borrowed pool)" and "same_lent (borrowed pool) pool p"
  shows "pool_kept pool (ReturnBuffer (Some b) p)"
proof -
  have "borrowed (ReturnBuffer (Some b) p) = borrowed pool"
    using assms(2,4) borrowed_return [OF assms(3)] by auto
  then show ?thesis
    using pool_inv_return [OF assms(3)] same_lent_return [OF assms(5)] by (simp add: pool_kept_def)
qed

lemma send_scoped_ok:
  assumes "pool_ready pool" and "HeaderSize + length payload \<le> BufferSize"
    and "\<And>buf. encode buf = encoded type payload buf"
  shows "\<exists>pool'. send_scoped encode (pool, c, w) =
       Inr (True, pool', snd (SendPacket (packet type payload) c), w) \<and> pool_kept pool pool'"
proof -
  obtain b p where b: "BorrowBuffer_try pool = (Some b, p)" "b < MaxBuffers"
      "b \<notin> borrowed pool" "pool_inv p" "borrowed p = insert b (borrowed pool)"
      "bp_storage p = bp_storage pool" "length (bp_storage pool ! b) = BufferSize"
    by (rule scoped_ready [OF assms(1)])
  obtain buf where buf: "length buf = BufferSize"
    and e: "encode_send encode b (p, c, w) =
       Inr ((fst (SendPacket (packet type payload) c), HeaderSize + length payload),
            write_buffer b buf p, snd (SendPacket (packet type payload) c), w)"
    using encode_send_ok [of p b payload encode type c w] b(6,7) assms(2,3) by auto
  have "same_lent (borrowed pool) pool (write_buffer b buf p)"
    using b(3,6) same_lent_write [of b "borrowed pool" p buf] by (simp add: same_lent_def)
  then have "pool_kept pool (ReturnBuffer (Some b) (write_buffer b buf p))"
    using return_kept [of pool b "write_buffer b buf p"] b(3-5) buf assms(1)
    by (simp add: pool_inv_write pool_ready_def)
  then show ?thesis
    using b(1) e by (simp add: send_scoped_def scoped_def)
qed

section \<open>The effect of a packet\<close>

text \<open>\<open>DisconnectInternal\<close> without the timer's mutex.\<close>

definition refreshed :: "LdnMasterProxyClient \<Rightarrow> LdnMasterProxyClient" where
  "refreshed c =
     (case mc_timeout c of
        None \<Rightarrow> c
      | Some t \<Rightarrow> c\<lparr>mc_timeout := Some (if nt_active t then t\<lparr>nt_lastRefreshTime := mc_now c\<rparr> else t)\<rparr>)"

definition disconnect_effect :: "'w Env \<Rightarrow> 'w mcw \<Rightarrow> 'w mcw" where
  "disconnect_effect env = (\<lambda>(c, w).
     if mc_networkConnected c then
       let c = (delete_hosted (c\<lparr>mc_networkConnected := False\<rparr>))\<lparr>mc_connectedProxy := None\<rparr>;
           (c, w) = notify env zero_info False (mc_disconnectReason c) (c, w) in
       (refreshed c, w)
     else (c, w))"

definition mc_effect :: "'w Env \<Rightarrow> RyuEvent \<Rightarrow> 'w mcw \<Rightarrow> 'w mcw" where
  "mc_effect env ev cw =
     (case ev of
        onDisconnected h m \<Rightarrow>
          disconnect_effect env ((fst cw)\<lparr>mc_disconnectIp := dis_disconnectIp m\<rparr>, snd cw)
      | onPing h p \<Rightarrow>
          (if png_requester p = 0
           then (snd (SendPacket (packet PacketId_Ping (put_PingMessage p)) (fst cw)), snd cw) else cw)
      | _ \<Rightarrow> (case mc_callbacks env ev (zero_pool, cw) of Inl e \<Rightarrow> cw | Inr (p, cw) \<Rightarrow> cw))"

definition client_effect ::
    "'w Env \<Rightarrow> (RyuEvent \<Rightarrow> 'w \<Rightarrow> (bytes list \<times> 'w) option) \<Rightarrow> RyuEvent \<Rightarrow> 'w mcw \<Rightarrow> 'w mcw" where
  "client_effect env oeff ev = (\<lambda>(c, w).
     case oeff ev w of
       Some (pks, w') \<Rightarrow> (send_all pks c, w')
     | None \<Rightarrow> mc_effect env ev (c, w))"

lemma refresh_unlocked:
  "\<forall>t. mc_timeout c = Some t \<longrightarrow> \<not> nt_locked t \<Longrightarrow> refresh c = Inr (refreshed c)"
  by (simp add: refresh_def refreshed_def split: option.split)

lemma delete_hosted_keeps [simp]:
  "mc_timeout (delete_hosted c) = mc_timeout c" "mc_now (delete_hosted c) = mc_now c"
  "mc_protocol (delete_hosted c) = mc_protocol c" "mc_connected (delete_hosted c) = mc_connected c"
  "mc_socket (delete_hosted c) = mc_socket c" "mc_stop (delete_hosted c) = mc_stop c"
  "mc_open (delete_hosted c) = mc_open c" "mc_events (delete_hosted c) = mc_events c"
  "mc_networkConnected (delete_hosted c) = mc_networkConnected c"
  "mc_availableGames (delete_hosted c) = mc_availableGames c"
  "mc_disconnectReason (delete_hosted c) = mc_disconnectReason c"
  "mc_disconnectIp (delete_hosted c) = mc_disconnectIp c"
  "mc_config (delete_hosted c) = mc_config c" "mc_wire (delete_hosted c) = mc_wire c"
  "mc_sends (delete_hosted c) = mc_sends c"
  by (simp_all add: delete_hosted_def split: option.split)

lemma notify_fst [simp]: "fst (notify env i b r (c, w)) = c"
  by (simp add: notify_def split: option.split)

lemma notify_pair: "notify env i b r (c, w) = (c, snd (notify env i b r (c, w)))"
  by (simp add: notify_def split: option.split)

lemma DisconnectInternal_effect:
  assumes "\<forall>t. mc_timeout c = Some t \<longrightarrow> \<not> nt_locked t"
  shows "DisconnectInternal env (c, w) = Inr (disconnect_effect env (c, w))"
  using assms
  by (auto simp: DisconnectInternal_def disconnect_effect_def Let_def refresh_unlocked notify_def
      split: option.split)

lemma mc_callbacks_effect:
  assumes "pool_ready pool" and "\<forall>t. mc_timeout c = Some t \<longrightarrow> \<not> nt_locked t"
  shows "\<exists>pool'. mc_callbacks env ev (pool, c, w) = Inr (pool', mc_effect env ev (c, w)) \<and> pool_kept pool pool'"
proof (cases ev)
  case (onPing h p)
  have "length (put_PingMessage p) = 2"
    by (rule PingMessage_wire.length_put_wf) (simp add: wf_PingMessage_def)
  then have "HeaderSize + length (put_PingMessage p) \<le> BufferSize"
    by (simp add: BufferSize_def MaxPacketSize_def HeaderSize_def)
  from send_scoped_ok [OF assms(1) this Encode_struct_packet, of PacketId_Ping c w] onPing
  show ?thesis
    by (auto simp: mc_callbacks_def mc_effect_def HandlePing_def pool_kept_refl [OF assms(1)])
next
  case (onDisconnected h m)
  then show ?thesis
    using DisconnectInternal_effect [of "c\<lparr>mc_disconnectIp := dis_disconnectIp m\<rparr>" env w] assms
    by (simp add: mc_callbacks_def mc_effect_def HandleDisconnected_def pool_kept_refl)
qed (simp_all add: mc_callbacks_def mc_effect_def pool_kept_refl [OF assms(1)])

section \<open>What an effect keeps\<close>

lemmas mc_handler_defs = mc_effect_def mc_callbacks_def signal_def
    HandleInitialize_def HandleConnected_def
    HandleSyncNetwork_def HandleRejectReply_def HandleScanReply_def HandleScanReplyEnd_def
    HandleProxyConfig_def HandleProxyData_def HandleNetworkError_def HandleExternalProxy_def
    HandleReject_def HandleSetAdvertiseData_def HandleSetAcceptPolicy_def HandleCreateAccessPoint_def
    HandleCreateAccessPointPrivate_def HandleConnect_def HandleConnectPrivate_def HandleScanRequest_def

text \<open>The handlers leave the connection to the server and the clock alone.\<close>

definition same_link :: "LdnMasterProxyClient \<Rightarrow> LdnMasterProxyClient \<Rightarrow> bool" where
  "same_link c c' \<longleftrightarrow>
     mc_connected c' = mc_connected c \<and> mc_socket c' = mc_socket c \<and> mc_stop c' = mc_stop c
     \<and> mc_open c' = mc_open c \<and> mc_now c' = mc_now c \<and> mc_protocol c' = mc_protocol c
     \<and> (mc_timeout c' = mc_timeout c \<or> mc_timeout c' = mc_timeout (refreshed c))"

lemma refreshed_keeps [simp]:
  "mc_connected (refreshed c) = mc_connected c" "mc_socket (refreshed c) = mc_socket c"
  "mc_stop (refreshed c) = mc_stop c" "mc_open (refreshed c) = mc_open c" "mc_now (refreshed c) = mc_now c"
  "mc_protocol (refreshed c) = mc_protocol c" "core (refreshed c) = core c"
  "mc_networkConnected (refreshed c) = mc_networkConnected c" "mc_events (refreshed c) = mc_events c"
  "mc_availableGames (refreshed c) = mc_availableGames c"
  by (simp_all add: refreshed_def split: option.split)

lemma refreshed_timeout:
  "mc_timeout c' = mc_timeout c \<Longrightarrow> mc_now c' = mc_now c \<Longrightarrow> mc_timeout (refreshed c') = mc_timeout (refreshed c)"
  by (simp add: refreshed_def split: option.split)

lemma disconnect_effect_link: "same_link c (fst (disconnect_effect env (c, w)))"
proof -
  let ?c = "(delete_hosted (c\<lparr>mc_networkConnected := False\<rparr>))\<lparr>mc_connectedProxy := None\<rparr>"
  have "mc_timeout (refreshed ?c) = mc_timeout (refreshed c)" by (rule refreshed_timeout) simp_all
  then show ?thesis
    by (auto simp: disconnect_effect_def Let_def same_link_def notify_def split: option.split)
qed

lemma mc_effect_link: "same_link c (fst (mc_effect env ev (c, w)))"
proof (cases ev)
  case (onDisconnected h m)
  have "mc_timeout (refreshed (c\<lparr>mc_disconnectIp := i\<rparr>)) = mc_timeout (refreshed c)" for i
    by (rule refreshed_timeout) simp_all
  then show ?thesis
    using disconnect_effect_link [of "c\<lparr>mc_disconnectIp := dis_disconnectIp m\<rparr>" env w] onDisconnected
    by (simp add: mc_effect_def same_link_def)
qed (auto simp: mc_handler_defs same_link_def notify_def split: option.split)

lemma client_effect_link: "same_link c (fst (client_effect env oeff ev (c, w)))"
  using mc_effect_link [of c env ev w]
  by (simp add: client_effect_def split: option.split prod.split) (simp add: same_link_def)

lemma same_link_inv: "same_link c c' \<Longrightarrow> mc_inv c \<Longrightarrow> mc_inv c'"
  by (auto simp: same_link_def mc_inv_def refreshed_def split: option.splits if_splits)

section \<open>The contract of the environment\<close>

text \<open>The packets whose callbacks other components set in the client's protocol object.\<close>

definition proxy_event :: "RyuEvent \<Rightarrow> bool" where
  "proxy_event ev =
     (case ev of
        onProxyConnect h m \<Rightarrow> True | onProxyConnectReply h m \<Rightarrow> True | onProxyData h m sp \<Rightarrow> True
      | onProxyDisconnect h m \<Rightarrow> True | onExternalProxyToken h m \<Rightarrow> True
      | onExternalProxyState h m \<Rightarrow> True | _ \<Rightarrow> False)"

locale client_env =
  fixes env :: "'w Env" and oeff :: "RyuEvent \<Rightarrow> 'w \<Rightarrow> (bytes list \<times> 'w) option" and winv :: "'w \<Rightarrow> bool"
  assumes other_events: "oeff ev w \<noteq> None \<Longrightarrow> proxy_event ev"
    and other_None: "oeff ev w = None \<Longrightarrow> env_other env ev (p, c, w) = None"
    and other_Some: "pool_ready p \<Longrightarrow> winv w \<Longrightarrow> event_ok ev \<Longrightarrow> oeff ev w = Some (pks, w') \<Longrightarrow>
       (\<exists>p'. env_other env ev (p, c, w) = Some (Inr (p', send_all pks c, w')) \<and> pool_kept p p') \<and> winv w'"
    and change_core: "env_networkChange env = Some f \<Longrightarrow> f (core c) i b r w = f c i b r w"
    and winv_change: "env_networkChange env = Some f \<Longrightarrow> winv w \<Longrightarrow> winv (f c i b r w)"
    and winv_config: "env_proxyConfig env = Some g \<Longrightarrow> winv w \<Longrightarrow> winv (g h cfg w)"
    and winv_data: "env_proxyData env = Some d \<Longrightarrow> winv w \<Longrightarrow> winv (d h hdr sp w)"
begin

lemma notify_core: "map_prod core id (notify env i b r (c, w)) = notify env i b r (core c, w)"
  by (simp add: notify_def change_core split: option.split)

lemma winv_notify: "winv w \<Longrightarrow> winv (snd (notify env i b r (c, w)))"
  by (simp add: notify_def winv_change split: option.split)

lemma winv_disconnect: "winv w \<Longrightarrow> winv (snd (disconnect_effect env (c, w)))"
  by (auto simp: disconnect_effect_def Let_def notify_def winv_change split: option.split)

lemma winv_mc_effect: "winv w \<Longrightarrow> winv (snd (mc_effect env ev (c, w)))"
proof (cases ev)
  case (onDisconnected h m)
  then show "winv w \<Longrightarrow> winv (snd (mc_effect env ev (c, w)))"
    by (simp add: mc_effect_def winv_disconnect)
qed (auto simp: mc_handler_defs winv_notify winv_config winv_data split: option.split)

lemma disconnect_core: "map_prod core id (disconnect_effect env (c, w)) = disconnect_effect env (core c, w)"
proof -
  let ?d = "\<lambda>c. (delete_hosted (c\<lparr>mc_networkConnected := False\<rparr>))\<lparr>mc_connectedProxy := None\<rparr>"
  have d: "core (?d c) = ?d (core c)"
    by (simp add: delete_hosted_def core_def split: option.split)
  have "refreshed (?d (core c)) = ?d (core c)" by (simp add: refreshed_def)
  with d show ?thesis
    by (auto simp: disconnect_effect_def Let_def notify_def
        change_core [of _ "?d c", unfolded d, symmetric] split: option.split)
qed

lemma mc_effect_core: "map_prod core id (mc_effect env ev (c, w)) = mc_effect env ev (core c, w)"
proof (cases ev)
  case (onDisconnected h m)
  have "core (c\<lparr>mc_disconnectIp := i\<rparr>) = (core c)\<lparr>mc_disconnectIp := i\<rparr>" for i by (simp add: core_def)
  with onDisconnected show ?thesis
    using disconnect_core [of "c\<lparr>mc_disconnectIp := dis_disconnectIp m\<rparr>" w] by (simp add: mc_effect_def)
next
  case (onPing h p)
  then show ?thesis by (simp add: mc_effect_def SendPacket_core)
next
  case (onConnected h i)
  then show ?thesis by (simp add: mc_handler_defs notify_core core_commute)
next
  case (onSyncNetwork h i)
  then show ?thesis by (simp add: mc_handler_defs notify_core core_commute)
qed (simp_all add: mc_handler_defs, simp_all add: core_def)

lemma client_effect_core:
  "map_prod core id (client_effect env oeff ev (c, w)) = client_effect env oeff ev (core c, w)"
  by (simp add: client_effect_def mc_effect_core send_all_core split: option.split prod.split)

lemma fold_effect_core:
  "map_prod core id (fold (client_effect env oeff) evs (c, w)) = fold (client_effect env oeff) evs (core c, w)"
proof (induction evs arbitrary: c w)
  case (Cons ev evs)
  obtain c' w' where e: "client_effect env oeff ev (c, w) = (c', w')" by force
  then have "client_effect env oeff ev (core c, w) = (core c', w')"
    using client_effect_core [of ev c w] by simp
  with e Cons show ?case by simp
qed simp

lemma fold_effect_link: "same_link c (fst (fold (client_effect env oeff) evs (c, w)))"
proof (induction evs arbitrary: c w)
  case Nil
  then show ?case by (simp add: same_link_def)
next
  case (Cons ev evs)
  obtain c' w' where e: "client_effect env oeff ev (c, w) = (c', w')" by force
  have l: "same_link c c'" using client_effect_link [of c env oeff ev w] e by simp
  have "same_link c' (fst (fold (client_effect env oeff) evs (c', w')))" by (rule Cons.IH)
  moreover have "mc_timeout (refreshed c') = mc_timeout (refreshed c)"
    using l by (auto simp: same_link_def refreshed_def split: option.splits)
  ultimately show ?case using l e by (auto simp: same_link_def)
qed

text \<open>The callback table meets the contract of the protocol.\<close>

lemma protocol_callbacks_effect:
  assumes "pool_ready p" and "mc_inv c" and "winv w" and "event_ok ev"
  shows "\<exists>p'. protocol_callbacks env ev (p, c, w) = Inr (p', client_effect env oeff ev (c, w)) \<and> pool_kept p p'"
    and "winv (snd (client_effect env oeff ev (c, w)))"
proof -
  have u: "\<forall>t. mc_timeout c = Some t \<longrightarrow> \<not> nt_locked t" using assms(2) by (simp add: mc_inv_def)
  note m = mc_callbacks_effect [OF assms(1) u, of env ev w]
  show "\<exists>p'. protocol_callbacks env ev (p, c, w) = Inr (p', client_effect env oeff ev (c, w)) \<and> pool_kept p p'"
  proof (cases "oeff ev w")
    case None
    with m show ?thesis by (simp add: protocol_callbacks_def client_effect_def other_None)
  next
    case (Some r)
    then obtain pks w' where r: "oeff ev w = Some (pks, w')" by (cases r) simp
    then show ?thesis
      using other_Some [OF assms(1,3,4) r, of c] by (auto simp: protocol_callbacks_def client_effect_def)
  qed
  show "winv (snd (client_effect env oeff ev (c, w)))"
    using other_Some [OF assms(1,3,4)] winv_mc_effect [OF assms(3)]
    by (auto simp: client_effect_def split: option.split prod.split)
qed

sublocale packet_handler "protocol_callbacks env" "client_effect env oeff" "\<lambda>(c, w). mc_inv c \<and> winv w"
proof
  fix p and cw :: "'w mcw" and ev
  assume a: "pool_inv p" "card (borrowed p) < MaxBuffers" "case cw of (c, w) \<Rightarrow> mc_inv c \<and> winv w" "event_ok ev"
  then show "\<exists>p'. protocol_callbacks env ev (p, cw) = Inr (p', client_effect env oeff ev cw) \<and> pool_inv p'
      \<and> borrowed p' = borrowed p \<and> same_lent (borrowed p) p p'"
    using protocol_callbacks_effect(1) [of p "fst cw" "snd cw" ev]
    by (auto simp: pool_ready_def pool_kept_def split_beta)
next
  fix cw :: "'w mcw" and ev
  assume a: "case cw of (c, w) \<Rightarrow> mc_inv c \<and> winv w" "event_ok ev"
  then show "case client_effect env oeff ev cw of (c, w) \<Rightarrow> mc_inv c \<and> winv w"
    using same_link_inv [OF client_effect_link [of "fst cw" env oeff ev "snd cw"]]
      protocol_callbacks_effect(2) [OF zero_pool_ready, of "fst cw" "snd cw" ev]
    by (auto simp: split_beta)
qed

end

section \<open>The passes of the worker\<close>

text \<open>A pass in which \<open>bs\<close> arrives, or in which \<open>poll\<close> times out.\<close>

definition pass_of :: "bytes \<times> u64 \<Rightarrow> pass" where
  "pass_of = (\<lambda>(bs, now). (if bs = [] then PollTimedOut else Readable (Received bs), now))"

text \<open>
  The timer is off, or was refreshed at or after \<open>t0\<close>: it does not fire before \<open>t0 + 6000\<close>.
\<close>

definition timer_within :: "nat \<Rightarrow> LdnMasterProxyClient \<Rightarrow> bool" where
  "timer_within t0 c \<longleftrightarrow>
     t0 \<le> unat (mc_now c)
     \<and> (\<forall>t. mc_timeout c = Some t \<longrightarrow> nt_active t \<longrightarrow>
          nt_idleTimeout t = InactiveTimeout \<and> t0 \<le> unat (nt_lastRefreshTime t)
          \<and> unat (nt_lastRefreshTime t) \<le> unat (mc_now c))"

definition linked :: "('w \<Rightarrow> bool) \<Rightarrow> nat \<Rightarrow> 'w mcs \<Rightarrow> bool" where
  "linked winv t0 = (\<lambda>(pool, c, w).
     mc_inv c \<and> winv w \<and> \<not> mc_stop c \<and> mc_connected c
     \<and> prot_inv (mc_protocol c) pool \<and> free_for 2 (mc_protocol c) pool \<and> timer_within t0 c)"

lemma timer_within_not_expired:
  assumes "timer_within t0 c" and "unat (mc_now c) < t0 + 6000" and "mc_timeout c = Some t"
  shows "\<not> expired (mc_now c) t"
proof (cases "nt_active t")
  case True
  then have "nt_idleTimeout t = InactiveTimeout" "t0 \<le> unat (nt_lastRefreshTime t)"
      "unat (nt_lastRefreshTime t) \<le> unat (mc_now c)"
    using assms(1,3) by (auto simp: timer_within_def)
  with True assms(2) show ?thesis
    using expired_after_refresh [of "nt_lastRefreshTime t" "mc_now c" t] by simp
qed (simp add: expired_def)

lemma check_timeout_quiet:
  assumes "timer_within t0 c" and "unat (mc_now c) < t0 + 6000" and "mc_inv c"
  shows "check_timeout env (c, w) = Inr (c, w)"
  using assms timer_within_not_expired [OF assms(1,2)]
  by (cases "mc_timeout c") (auto simp: check_timeout_def CheckTimeout_eq mc_inv_def)

lemma timer_within_later:
  "timer_within t0 c \<Longrightarrow> unat (mc_now c) \<le> unat now \<Longrightarrow> timer_within t0 (c\<lparr>mc_now := now\<rparr>)"
  by (auto simp: timer_within_def)

lemma timer_within_link: "timer_within t0 c \<Longrightarrow> same_link c c' \<Longrightarrow> timer_within t0 c'"
  by (auto simp: timer_within_def same_link_def refreshed_def split: option.splits if_splits)

lemma kept_free_for: "kept s p s' p' \<Longrightarrow> free_for n s p \<Longrightarrow> free_for n s' p'"
  by (simp add: kept_def free_for_def)

context client_env
begin

lemma ReceiveData_frames:
  assumes "linked winv t0 (pool, c, w)" and "bs \<noteq> []" and "length bs \<le> 4096"
    and "stream_ok (protocol_registers env) (pending (mc_protocol c) pool @ bs)"
    and "frames (pending (mc_protocol c) pool @ bs) = (fs, rest)"
  defines "cw \<equiv> fold (client_effect env oeff) (frame_events (protocol_registers env) fs) (c, w)"
  shows "\<exists>s' pool'. ReceiveData env (Received bs) (pool, c, w) =
      Inr (int (length bs), pool', (fst cw)\<lparr>mc_protocol := s'\<rparr>, snd cw)
      \<and> prot_inv s' pool' \<and> pending s' pool' = rest \<and> kept (mc_protocol c) pool s' pool' \<and> winv (snd cw)"
proof -
  have l: "prot_inv (mc_protocol c) pool" "free_for 2 (mc_protocol c) pool" "mc_inv c" "winv w" "mc_connected c"
    using assms(1) by (simp_all add: linked_def)
  have d: "take (nat (int (length bs))) (drop (nat 0) bs) = bs" by simp
  obtain s' pool' where r: "Read (protocol_registers env) (protocol_callbacks env) bs 0 (int (length bs))
      (mc_protocol c, pool, c, w) = Inr (s', pool', cw)" "prot_inv s' pool'" "pending s' pool' = rest"
      "kept (mc_protocol c) pool s' pool'" "case cw of (c, w) \<Rightarrow> mc_inv c \<and> winv w"
    using Read_frames [of "mc_protocol c" pool 0 "int (length bs)" bs "protocol_registers env" "(c, w)" fs rest]
      l assms(4,5) unfolding d cw_def by auto
  have "ReceiveData env (Received bs) (pool, c, w) =
      Inr (int (length bs), pool', (fst cw)\<lparr>mc_protocol := s'\<rparr>, snd cw)"
    using l(3,5) assms(2,3) r(1) by (simp add: ReceiveData_def Let_def mc_inv_def split_beta)
  with r show ?thesis by (auto simp: split_beta)
qed

lemma WorkerLoop_pass_frames:
  assumes l: "linked winv t0 (pool, c, w)" and "length bs \<le> 4096"
    and "stream_ok (protocol_registers env) (pending (mc_protocol c) pool @ bs)"
    and "frames (pending (mc_protocol c) pool @ bs) = (fs, rest)"
    and t: "unat (mc_now c) \<le> unat now" "unat now < t0 + 6000"
  shows "\<exists>pool' c' w'. WorkerLoop_pass env (pass_of (bs, now)) (pool, c, w) = Inr (pool', c', w')
    \<and> (core c', w') = fold (client_effect env oeff) (frame_events (protocol_registers env) fs) (core c, w)
    \<and> linked winv t0 (pool', c', w') \<and> pending (mc_protocol c') pool' = rest
    \<and> kept (mc_protocol c) pool (mc_protocol c') pool' \<and> mc_now c' = now"
proof -
  let ?c = "c\<lparr>mc_now := now\<rparr>"
  have l1: "linked winv t0 (pool, ?c, w)"
    using l timer_within_later [of t0 c now] t(1) by (simp add: linked_def mc_inv_def)
  have on: "mc_connected ?c" "0 \<le> mc_socket ?c" "\<not> mc_stop c" "mc_inv ?c" "timer_within t0 ?c"
    using l1 l by (auto simp: linked_def mc_inv_def)
  show ?thesis
  proof (cases "bs = []")
    case True
    then have "fs = []" "rest = pending (mc_protocol c) pool"
      using assms(4) frames_pending [of "mc_protocol c" pool] l by (simp_all add: linked_def)
    moreover have "check_timeout env (?c, w) = Inr (?c, w)"
      by (rule check_timeout_quiet [OF on(5)]) (use on t in simp_all)
    ultimately show ?thesis
      using True on l1 by (auto simp: WorkerLoop_pass_def pass_of_def kept_refl)
  next
    case False
    let ?cw = "fold (client_effect env oeff) (frame_events (protocol_registers env) fs) (?c, w)"
    obtain s' pool' where r: "ReceiveData env (Received bs) (pool, ?c, w) =
        Inr (int (length bs), pool', (fst ?cw)\<lparr>mc_protocol := s'\<rparr>, snd ?cw)" "prot_inv s' pool'"
        "pending s' pool' = rest" "kept (mc_protocol c) pool s' pool'" "winv (snd ?cw)"
      using ReceiveData_frames [OF l1 False assms(2)] assms(3,4) by auto
    let ?d = "(fst ?cw)\<lparr>mc_protocol := s'\<rparr>"
    have k: "same_link ?c (fst ?cw)" by (rule fold_effect_link)
    have d: "mc_now ?d = now" "mc_connected ?d" "\<not> mc_stop ?d" "mc_protocol ?d = s'"
      using k on by (simp_all add: same_link_def)
    have i: "mc_inv ?d" using same_link_inv [OF k on(4)] by (simp add: mc_inv_def)
    have tw: "timer_within t0 ?d"
      using timer_within_link [OF on(5) k] by (simp add: timer_within_def)
    have "check_timeout env (?d, snd ?cw) = Inr (?d, snd ?cw)"
      by (rule check_timeout_quiet [OF tw]) (use d i t in simp_all)
    then have p: "WorkerLoop_pass env (pass_of (bs, now)) (pool, c, w) = Inr (pool', ?d, snd ?cw)"
      using False on r(1) by (simp add: WorkerLoop_pass_def pass_of_def)
    have e: "(core ?d, snd ?cw) = fold (client_effect env oeff) (frame_events (protocol_registers env) fs) (core c, w)"
      using fold_effect_core [of "frame_events (protocol_registers env) fs" ?c w]
      by (cases ?cw) simp
    have "linked winv t0 (pool', ?d, snd ?cw)"
      using d i tw r(2,5) kept_free_for [OF r(4)] l by (simp add: linked_def)
    with p e d r(3,4) show ?thesis by metis
  qed
qed

text \<open>The stream is handled packet by packet, however the passes cut it.\<close>

lemma WorkerLoop_frames:
  assumes "linked winv t0 (pool, c, w)" and "\<forall>(bs, now) \<in> set arrivals. length bs \<le> 4096 \<and> unat now < t0 + 6000"
    and "sorted (map unat (mc_now c # map snd arrivals))"
    and "stream_ok (protocol_registers env) (pending (mc_protocol c) pool @ concat (map fst arrivals))"
    and "frames (pending (mc_protocol c) pool @ concat (map fst arrivals)) = (fs, rest)"
  shows "\<exists>pool' c' w'. WorkerLoop env (map pass_of arrivals) (pool, c, w) = Inr (pool', c', w')
    \<and> (core c', w') = fold (client_effect env oeff) (frame_events (protocol_registers env) fs) (core c, w)
    \<and> linked winv t0 (pool', c', w') \<and> pending (mc_protocol c') pool' = rest
    \<and> kept (mc_protocol c) pool (mc_protocol c') pool'"
  using assms
proof (induction arrivals arbitrary: pool c w fs)
  case Nil
  then have "frames (pending (mc_protocol c) pool) = ([], pending (mc_protocol c) pool)"
    by (intro frames_pending) (simp add: linked_def)
  with Nil show ?case by (simp add: kept_refl)
next
  case (Cons a arrivals)
  obtain bs now where a: "a = (bs, now)" by force
  let ?x = "pending (mc_protocol c) pool @ bs" and ?ys = "concat (map fst arrivals)"
  obtain fs1 r1 where f1: "frames ?x = (fs1, r1)" by force
  have st: "stream_ok (protocol_registers env) (?x @ ?ys)" using Cons.prems(4) a by simp
  have so: "stream_ok (protocol_registers env) ?x" "stream_ok (protocol_registers env) (r1 @ ?ys)"
    using stream_ok_append [OF st] f1 by simp_all
  have f2: "frames (r1 @ ?ys) = (drop (length fs1) fs, rest)" "fs = fs1 @ drop (length fs1) fs"
    using Cons.prems(5) frames_append [of ?x ?ys] f1 a by (cases "frames (r1 @ ?ys)", force)+
  obtain pool1 c1 w1 where s1: "WorkerLoop_pass env (pass_of (bs, now)) (pool, c, w) = Inr (pool1, c1, w1)"
    and e1: "(core c1, w1) = fold (client_effect env oeff) (frame_events (protocol_registers env) fs1) (core c, w)"
    and l1: "linked winv t0 (pool1, c1, w1)" "pending (mc_protocol c1) pool1 = r1"
      "kept (mc_protocol c) pool (mc_protocol c1) pool1" "mc_now c1 = now"
    using WorkerLoop_pass_frames [OF Cons.prems(1) _ so(1) f1, of now] Cons.prems(2,3) a by auto
  obtain pool2 c2 w2 where "WorkerLoop env (map pass_of arrivals) (pool1, c1, w1) = Inr (pool2, c2, w2)"
    "(core c2, w2) = fold (client_effect env oeff) (frame_events (protocol_registers env) (drop (length fs1) fs)) (core c1, w1)"
    "linked winv t0 (pool2, c2, w2)" "pending (mc_protocol c2) pool2 = rest"
    "kept (mc_protocol c1) pool1 (mc_protocol c2) pool2"
    using Cons.IH [OF l1(1), of "drop (length fs1) fs"] Cons.prems(2,3) a l1(2,4) so(2) f2(1) by auto
  moreover have "frame_events (protocol_registers env) fs = frame_events (protocol_registers env) fs1
      @ frame_events (protocol_registers env) (drop (length fs1) fs)"
    using f2(2) frame_events_simps(2) by metis
  ultimately show ?case
    using s1 e1 a kept_trans [OF l1(3)] by simp
qed

end

end
