(* ===== verification/Master_Ops.thy ===== *)
theory Master_Ops
  imports Master_Worker
begin

text \<open>
  The operations of the master client end to end: what is sent, what the server's packets make of
  the wait, what is returned, and the invariant that every operation keeps whatever the server sends.
\<close>

section \<open>Sending\<close>

lemma SendPacket_loop_spec:
  "SendPacket_loop rs data out = (ok, out', rs') \<Longrightarrow>
   (\<exists>k. out' = out @ take k data) \<and> (ok \<longrightarrow> out' = out @ data) \<and> (SendFailed \<notin> set rs \<longrightarrow> ok)"
proof (induction rs arbitrary: data out)
  case Nil
  then show ?case by (auto intro: exI [of _ "length data"])
next
  case (Cons r rs)
  show ?case
  proof (cases "data = []")
    case True
    with Cons.prems show ?thesis by simp
  next
    case False
    show ?thesis
    proof (cases r)
      case (Sends n)
      note IH = Cons.IH [of "drop n data" "out @ take n data"]
      have l: "SendPacket_loop rs (drop n data) (out @ take n data) = (ok, out', rs')"
        using Cons.prems False Sends by simp
      obtain k where "out' = (out @ take n data) @ take k (drop n data)" using IH [OF l] by blast
      moreover have "ok \<longrightarrow> out' = (out @ take n data) @ drop n data" "SendFailed \<notin> set rs \<longrightarrow> ok"
        using IH [OF l] by simp_all
      moreover have "take n data @ take k (drop n data) = take (n + k) data" by (simp add: take_add)
      ultimately show ?thesis using Sends by (metis append.assoc append_take_drop_id insertCI list.set(2))
    next
      case WouldBlock
      with Cons.IH [of data out] Cons.prems False show ?thesis by simp
    next
      case SendFailed
      with Cons.prems False show ?thesis by (auto intro: exI [of _ 0])
    qed
  qed
qed

lemma SendPacket_loop_rest: "set (snd (snd (SendPacket_loop rs data out))) \<subseteq> set rs"
proof (induction rs arbitrary: data out)
  case (Cons r rs)
  then show ?case by (cases r) (auto dest!: subsetD)
qed simp

lemma SendPacket_sends: "set (mc_sends (snd (SendPacket d c))) \<subseteq> set (mc_sends c)"
  using SendPacket_loop_rest [of "mc_sends c" d "[]"] by (auto simp: SendPacket_def Let_def split: prod.splits)

text \<open>
  On an open connection \<open>SendPacket\<close> puts one uninterrupted run of bytes on the client's
  descriptor, however \<open>send\<close> splits it and however often it would block. If no \<open>send\<close> fails it is the
  whole packet and the size is returned; otherwise it is a prefix, and -1 is returned unless all went out.
\<close>

theorem SendPacket_whole_or_prefix:
  assumes "mc_connected c" and "0 \<le> mc_socket c"
  shows "\<exists>k. mc_wire (snd (SendPacket d c)) = mc_wire c @ [(mc_socket c, take k d)]
    \<and> (SendFailed \<notin> set (mc_sends c) \<longrightarrow> fst (SendPacket d c) = int (length d))
    \<and> fst (SendPacket d c) \<in> {-1, int (length d)}
    \<and> (fst (SendPacket d c) = int (length d) \<longrightarrow> take k d = d)"
proof -
  obtain ok out rs where l: "SendPacket_loop (mc_sends c) d [] = (ok, out, rs)" by (metis prod_cases3)
  note sp = SendPacket_loop_spec [OF l]
  then obtain k where "out = take k d" by auto
  moreover have "ok \<longrightarrow> out = d" "SendFailed \<notin> set (mc_sends c) \<longrightarrow> ok" using sp by simp_all
  ultimately show ?thesis using assms l
    by (intro exI [of _ k]) (auto simp: SendPacket_def)
qed

definition demo_client :: LdnMasterProxyClient where
  "demo_client =
     LdnMasterProxyClient_new False \<lparr>pcf_proxyIp = 0, pcf_proxySubnetMask = 0\<rparr> zero_info ''ldn'' 30456 True"

theorem SendPacket_whole_or_prefix_witness:
  "let c = demo_client\<lparr>mc_connected := True, mc_socket := 3, mc_sends := [Sends 1, WouldBlock, Sends 1]\<rparr> in
   fst (SendPacket [7, 8, 9] c) = 3 \<and> mc_wire (snd (SendPacket [7, 8, 9] c)) = [(3, [7, 8, 9])]"
proof -
  let ?c = "demo_client\<lparr>mc_connected := True, mc_socket := 3, mc_sends := [Sends 1, WouldBlock, Sends 1]\<rparr>"
  have "\<exists>k. mc_wire (snd (SendPacket [7, 8, 9] ?c)) = [(3, take k [7, 8, 9])]
      \<and> fst (SendPacket [7, 8, 9] ?c) = 3 \<and> take k [7, 8, 9] = [7, 8, 9 :: u8]"
    using SendPacket_whole_or_prefix [of ?c "[7, 8, 9]"]
    by (auto simp: demo_client_def LdnMasterProxyClient_new_def)
  then show ?thesis by (auto simp: Let_def)
qed

section \<open>What a sequence of packets leaves behind\<close>

lemma core_initialize: "mc_initializeMemory (core c) = mc_initializeMemory c"
  by (simp add: core_def)

lemma SendPacket_initialize [simp]: "mc_initializeMemory (snd (SendPacket d c)) = mc_initializeMemory c"
  by (simp add: SendPacket_def Let_def split: prod.split)

definition scan_infos :: "RyuEvent list \<Rightarrow> NetworkInfo list" where
  "scan_infos evs = concat (map (\<lambda>ev. case ev of onScanReply h i \<Rightarrow> [i] | _ \<Rightarrow> []) evs)"

definition event_flags :: "RyuEvent \<Rightarrow> SystemEventContainer \<Rightarrow> SystemEventContainer" where
  "event_flags ev e =
     (case ev of
        onInitialize h m \<Rightarrow> e\<lparr>ev_initialize := True\<rparr>
      | onConnected h i \<Rightarrow> e\<lparr>ev_apConnected := True\<rparr>
      | onScanReplyEnd h \<Rightarrow> e\<lparr>ev_scan := True\<rparr>
      | onRejectReply h \<Rightarrow> e\<lparr>ev_reject := True\<rparr>
      | _ \<Rightarrow> e)"

definition network_flag :: "RyuEvent \<Rightarrow> bool \<Rightarrow> bool" where
  "network_flag ev b = (case ev of onConnected h i \<Rightarrow> True | onDisconnected h m \<Rightarrow> False | _ \<Rightarrow> b)"

lemma disconnect_effect_view:
  "mc_availableGames (fst (disconnect_effect env (c, w))) = mc_availableGames c"
  "mc_events (fst (disconnect_effect env (c, w))) = mc_events c"
  "\<not> mc_networkConnected (fst (disconnect_effect env (c, w)))"
  by (auto simp: disconnect_effect_def Let_def notify_def split: option.split)

lemma mc_effect_view:
  "mc_availableGames (fst (mc_effect env ev (c, w))) = mc_availableGames c @ scan_infos [ev]"
  "mc_events (fst (mc_effect env ev (c, w))) = event_flags ev (mc_events c)"
  "mc_networkConnected (fst (mc_effect env ev (c, w))) = network_flag ev (mc_networkConnected c)"
  by (cases ev; simp add: mc_handler_defs scan_infos_def event_flags_def network_flag_def
      disconnect_effect_view)+

context client_env
begin

lemma client_effect_view:
  "mc_availableGames (fst (client_effect env oeff ev (c, w))) = mc_availableGames c @ scan_infos [ev]"
  "mc_events (fst (client_effect env oeff ev (c, w))) = event_flags ev (mc_events c)"
  "mc_networkConnected (fst (client_effect env oeff ev (c, w))) = network_flag ev (mc_networkConnected c)"
proof -
  have "scan_infos [ev] = [] \<and> event_flags ev e = e \<and> network_flag ev b = b" if "proxy_event ev" for e b
    using that by (cases ev) (simp_all add: proxy_event_def scan_infos_def event_flags_def network_flag_def)
  then show "mc_availableGames (fst (client_effect env oeff ev (c, w))) = mc_availableGames c @ scan_infos [ev]"
    "mc_events (fst (client_effect env oeff ev (c, w))) = event_flags ev (mc_events c)"
    "mc_networkConnected (fst (client_effect env oeff ev (c, w))) = network_flag ev (mc_networkConnected c)"
    using other_events [of ev w]
    by (auto simp: client_effect_def mc_effect_view split: option.split)
qed

lemma fold_effect_views:
  "mc_availableGames (fst (fold (client_effect env oeff) evs (c, w))) = mc_availableGames c @ scan_infos evs
   \<and> mc_events (fst (fold (client_effect env oeff) evs (c, w))) = fold event_flags evs (mc_events c)
   \<and> mc_networkConnected (fst (fold (client_effect env oeff) evs (c, w))) =
       fold network_flag evs (mc_networkConnected c)"
proof (induction evs arbitrary: c w)
  case (Cons ev evs)
  obtain c' w' where e: "client_effect env oeff ev (c, w) = (c', w')" by force
  have s: "scan_infos (ev # evs) = scan_infos [ev] @ scan_infos evs" by (simp add: scan_infos_def)
  show ?case unfolding s
    using client_effect_view [of ev c w, unfolded e fst_conv] Cons [of c' w'] e by simp
qed (simp add: scan_infos_def)

lemmas fold_effect_view = fold_effect_views [THEN conjunct1] fold_effect_views [THEN conjunct2, THEN conjunct1]
  fold_effect_views [THEN conjunct2, THEN conjunct2]

end

lemma fold_event_flags:
  "ev_scan (fold event_flags evs e) \<longleftrightarrow> ev_scan e \<or> (\<exists>h. onScanReplyEnd h \<in> set evs)"
  "ev_apConnected (fold event_flags evs e) \<longleftrightarrow> ev_apConnected e \<or> (\<exists>h i. onConnected h i \<in> set evs)"
  "ev_initialize (fold event_flags evs e) \<longleftrightarrow> ev_initialize e \<or> (\<exists>h m. onInitialize h m \<in> set evs)"
  "ev_reject (fold event_flags evs e) \<longleftrightarrow> ev_reject e \<or> (\<exists>h. onRejectReply h \<in> set evs)"
proof (induction evs arbitrary: e)
  case (Cons ev evs)
  {
    case 1 then show ?case using Cons(1) by (cases ev) (auto simp: event_flags_def)
  next
    case 2 then show ?case using Cons(2) by (cases ev) (auto simp: event_flags_def)
  next
    case 3 then show ?case using Cons(3) by (cases ev) (auto simp: event_flags_def)
  next
    case 4 then show ?case using Cons(4) by (cases ev) (auto simp: event_flags_def)
  }
qed simp_all

section \<open>Waiting while packets arrive\<close>

text \<open>
  \<open>arrivals\<close> are the pieces that arrive during a wait, with the ticks of the passes; together with what
  the protocol object holds already they are well-formed packets, which give the events \<open>evs\<close>.
\<close>

definition arriving ::
    "'w Env \<Rightarrow> nat \<Rightarrow> BufferPool \<Rightarrow> LdnMasterProxyClient \<Rightarrow> (bytes \<times> u64) list \<Rightarrow> RyuEvent list \<Rightarrow> bool" where
  "arriving env t0 pool c arrivals evs \<longleftrightarrow>
     (\<forall>(bs, now) \<in> set arrivals. length bs \<le> 4096 \<and> unat now < t0 + 6000)
     \<and> sorted (map unat (mc_now c # map snd arrivals))
     \<and> (let stream = pending (mc_protocol c) pool @ concat (map fst arrivals) in
        stream_ok (protocol_registers env) stream
        \<and> evs = frame_events (protocol_registers env) (fst (frames stream)))"

lemma arriving_cong:
  "arriving env t0 pool c arrivals evs \<Longrightarrow> mc_now c' = mc_now c \<Longrightarrow>
   pending (mc_protocol c') pool' = pending (mc_protocol c) pool \<Longrightarrow> arriving env t0 pool' c' arrivals evs"
  by (simp add: arriving_def)

lemma linked_link: "linked winv t0 (pool, c, w) \<Longrightarrow> same_link c c' \<Longrightarrow> linked winv t0 (pool, c', w)"
  using same_link_inv [of c c'] timer_within_link [of t0 c c'] by (auto simp: linked_def same_link_def)

lemma linked_ready: "linked winv t0 (pool, c, w) \<Longrightarrow> pool_ready pool"
  using room_for_callback [of "mc_protocol c" pool] by (auto simp: linked_def pool_ready_def prot_inv_def)

lemma prot_inv_kept:
  assumes "prot_inv s pool" and "pool_kept pool pool'"
  shows "prot_inv s pool'" and "pending s pool' = pending s pool"
    and "kept s pool s pool'" and "free_for n s pool \<Longrightarrow> free_for n s pool'"
proof -
  have b: "b \<in> borrowed pool \<Longrightarrow> bp_storage pool' ! b = bp_storage pool ! b" for b
    using assms(2) by (simp add: pool_kept_def same_lent_def)
  show "prot_inv s pool'" using assms by (auto simp: prot_inv_def pool_kept_def split: option.splits)
  show "pending s pool' = pending s pool" using assms(1) b
    by (auto simp: prot_inv_def pending_def split: option.splits)
  show "kept s pool s pool'" using assms(2) by (auto simp: kept_def pool_kept_def same_lent_def)
  then show "free_for n s pool \<Longrightarrow> free_for n s pool'" by (rule kept_free_for)
qed

lemma linked_kept: "linked winv t0 (pool, c, w) \<Longrightarrow> pool_kept pool pool' \<Longrightarrow> linked winv t0 (pool', c, w)"
  using prot_inv_kept [of "mc_protocol c" pool pool'] by (auto simp: linked_def)

lemma same_link_SendPacket: "same_link c (snd (SendPacket d c))"
  by (simp add: same_link_def)

lemma same_link_trans_timeout:
  "same_link c c' \<Longrightarrow> mc_timeout c' = mc_timeout c \<Longrightarrow> same_link c' c'' \<Longrightarrow> same_link c c''"
  using refreshed_timeout [of c' c] by (auto simp: same_link_def)

context client_env
begin

lemma WorkerLoop_arriving:
  assumes "linked winv t0 (pool, c, w)" and "arriving env t0 pool c arrivals evs"
  shows "\<exists>pool' c' w'. WorkerLoop env (map pass_of arrivals) (pool, c, w) = Inr (pool', c', w')
    \<and> (core c', w') = fold (client_effect env oeff) evs (core c, w) \<and> linked winv t0 (pool', c', w')
    \<and> kept (mc_protocol c) pool (mc_protocol c') pool'"
proof -
  obtain fs rest where f: "frames (pending (mc_protocol c) pool @ concat (map fst arrivals)) = (fs, rest)"
    by force
  then show ?thesis
    using WorkerLoop_frames [OF assms(1) _ _ _ f] assms(2) by (auto simp: arriving_def Let_def)
qed

lemma TimedWait_arriving:
  fixes event :: "SystemEventContainer \<Rightarrow> bool"
  assumes "linked winv t0 (pool, c, w)" and "arriving env t0 pool c arrivals evs"
  defines "ok \<equiv> event (fold event_flags evs (mc_events c))"
  shows "\<exists>pool' c' w'. TimedWait env (map pass_of arrivals) event clear (pool, c, w) =
      Inr (ok, pool', if ok then signal clear c' else c', w')
    \<and> (core c', w') = fold (client_effect env oeff) evs (core c, w) \<and> linked winv t0 (pool', c', w')
    \<and> kept (mc_protocol c) pool (mc_protocol c') pool'"
proof -
  obtain pool' c' w' where r: "WorkerLoop env (map pass_of arrivals) (pool, c, w) = Inr (pool', c', w')"
    "(core c', w') = fold (client_effect env oeff) evs (core c, w)" "linked winv t0 (pool', c', w')"
    "kept (mc_protocol c) pool (mc_protocol c') pool'"
    using WorkerLoop_arriving [OF assms(1,2)] by blast
  have "mc_events (core c') = fold event_flags evs (mc_events c)"
    using fold_effect_view(2) [of evs "core c" w] r(2) [symmetric] by simp
  then have "event (mc_events c') = ok" by (simp add: ok_def)
  with r show ?thesis by (auto simp: TimedWait_def)
qed

lemma Scan_arriving:
  fixes count :: u16
  assumes l: "linked winv t0 (pool, c, w)" and ar: "arriving env t0 pool c arrivals evs" and "wf_ScanFilter f"
  defines "c0 \<equiv> snd (SendPacket (packet PacketId_Scan (put_ScanFilter f))
             (c\<lparr>mc_availableGames := [], mc_events := (mc_events c)\<lparr>ev_scan := False\<rparr>\<rparr>))"
    and "n \<equiv> min (of_nat (length (scan_infos evs))) count :: u16"
  shows "\<exists>pool' c' w'. mc_Scan env a (map pass_of arrivals) count f (pool, c, w) =
      Inr (if \<exists>h. onScanReplyEnd h \<in> set evs then (ResultSuccess, take (unat n) (scan_infos evs), n)
           else (ResultSuccess, [], 0), pool', c', w')
    \<and> (core c', w') = fold (client_effect env oeff) evs (core c0, w)
    \<and> linked winv t0 (pool', c', w') \<and> kept (mc_protocol c) pool (mc_protocol c') pool'"
proof -
  define c1 where "c1 = (if \<not> mc_networkConnected c then refreshed c else c)"
  let ?c2 = "signal (ev_scan_update (\<lambda>_. False)) (c1\<lparr>mc_availableGames := []\<rparr>)"
  let ?c3 = "snd (SendPacket (packet PacketId_Scan (put_ScanFilter f)) ?c2)"
  have u: "\<forall>t. mc_timeout c = Some t \<longrightarrow> \<not> nt_locked t" using l by (simp add: linked_def mc_inv_def)
  have rf: "(if \<not> mc_networkConnected c then refresh c else Inr c) = Inr c1"
    using refresh_unlocked [OF u] by (simp add: c1_def)
  have conn: "mc_connected c1" using l by (simp add: c1_def linked_def)
  have "length (put_ScanFilter f) = 96" by (rule ScanFilter_wire.length_put_wf [OF assms(3)])
  then have fit: "HeaderSize + length (put_ScanFilter f) \<le> BufferSize"
    by (simp add: BufferSize_def MaxPacketSize_def HeaderSize_def)
  obtain pool1 where s: "send_scoped (Encode_struct PacketId_Scan (put_ScanFilter f)) (pool, ?c2, w) =
      Inr (True, pool1, ?c3, w)" "pool_kept pool pool1"
    using send_scoped_ok [OF linked_ready [OF l] fit Encode_struct_packet, of PacketId_Scan ?c2 w] by blast
  have k: "same_link c ?c3" by (simp add: same_link_def c1_def signal_def)
  have p: "mc_protocol ?c3 = mc_protocol c" "mc_now ?c3 = mc_now c" using k by (simp_all add: same_link_def)
  have pr: "prot_inv (mc_protocol c) pool" using l by (simp add: linked_def)
  have l3: "linked winv t0 (pool1, ?c3, w)" by (rule linked_kept [OF linked_link [OF l k] s(2)])
  have a3: "arriving env t0 pool1 ?c3 arrivals evs"
    by (rule arriving_cong [OF ar]) (use p prot_inv_kept(2) [OF pr s(2)] in simp_all)
  have e3: "core ?c3 = core c0"
    by (simp add: c0_def c1_def SendPacket_core signal_def core_commute)
  have ev: "ev_scan (fold event_flags evs (mc_events ?c3)) \<longleftrightarrow> (\<exists>h. onScanReplyEnd h \<in> set evs)"
    by (simp add: fold_event_flags signal_def)
  obtain pool' c' w' where t: "TimedWait env (map pass_of arrivals) ev_scan id (pool1, ?c3, w) =
      Inr (\<exists>h. onScanReplyEnd h \<in> set evs, pool', c', w')"
      "(core c', w') = fold (client_effect env oeff) evs (core c0, w)"
      "linked winv t0 (pool', c', w')" "kept (mc_protocol c) pool1 (mc_protocol c') pool'"
    using TimedWait_arriving [OF l3 a3, of ev_scan id] unfolding ev e3 p(1)
    by (auto simp: signal_def)
  have "mc_availableGames (core c') = scan_infos evs"
    using fold_effect_view(1) [of evs "core c0" w] t(2) [symmetric] e3 [symmetric]
    by (simp add: signal_def)
  then have g: "mc_availableGames c' = scan_infos evs" by simp
  have "kept (mc_protocol c) pool (mc_protocol c') pool'"
    using kept_trans [OF prot_inv_kept(3) [OF pr s(2)] t(4)] .
  then show ?thesis
    using t(2,3) unfolding mc_Scan_def
    by (simp add: rf EnsureConnected_def conn s(1) t(1) g Let_def n_def)
qed

end

section \<open>Holding a buffer during a wait\<close>

text \<open>
  A buffer borrowed beside the protocol's own and released after the passes of the worker: the
  protocol is not disturbed, neither by the loan nor by the release.
\<close>

lemma hold_buffer:
  assumes pr: "prot_inv s pool" and fr: "free_for 3 s pool"
  obtains b p where "BorrowBuffer_try pool = (Some b, p)" and "length (bp_storage p ! b) = BufferSize"
    and "\<And>buf. length buf = BufferSize \<Longrightarrow>
           prot_inv s (write_buffer b buf p) \<and> pending s (write_buffer b buf p) = pending s pool
           \<and> free_for 2 s (write_buffer b buf p)"
    and "\<And>buf s' q. length buf = BufferSize \<Longrightarrow> prot_inv s' q \<Longrightarrow> kept s (write_buffer b buf p) s' q \<Longrightarrow>
           prot_inv s' (ReturnBuffer (Some b) q) \<and> pending s' (ReturnBuffer (Some b) q) = pending s' q
           \<and> kept s pool s' (ReturnBuffer (Some b) q)"
proof -
  have "free_for 2 s pool" using fr by (simp add: free_for_def)
  then have "pool_ready pool" using pr room_for_callback by (auto simp: pool_ready_def prot_inv_def)
  from scoped_ready [OF this] obtain b p where b: "BorrowBuffer_try pool = (Some b, p)"
    "b \<notin> borrowed pool" "pool_inv p" "borrowed p = insert b (borrowed pool)"
    "bp_storage p = bp_storage pool" "length (bp_storage pool ! b) = BufferSize" by metis
  have own: "own s \<subseteq> borrowed pool" using pr by (auto simp: own_def prot_inv_def split: option.splits)
  then have bo: "b \<notin> own s" using b(2) by blast
  show ?thesis
  proof (rule that [OF b(1)])
    show "length (bp_storage p ! b) = BufferSize" using b(5,6) by simp
    fix buf :: bytes assume len: "length buf = BufferSize"
    let ?q = "write_buffer b buf p"
    have st: "c \<in> borrowed pool \<Longrightarrow> bp_storage ?q ! c = bp_storage pool ! c" for c
      using b(2,5) by (cases "c = b") (auto simp: write_buffer_def)
    have q: "pool_inv ?q" "borrowed ?q = insert b (borrowed pool)"
      using pool_inv_write [OF b(3) len] b(4) by simp_all
    have "card (insert b (borrowed pool) - own s) \<le> Suc (card (borrowed pool - own s))"
      using bo by (simp add: insert_Diff_if card_insert_if borrowed_def)
    then show "prot_inv s ?q \<and> pending s ?q = pending s pool \<and> free_for 2 s ?q"
      using pr q st fr by (auto simp: prot_inv_def pending_def free_for_def split: option.splits)
    fix s' q assume r: "prot_inv s' q" "kept s ?q s' q"
    have "borrowed q - own s' = insert b (borrowed pool - own s)" using r(2) q(2) bo by (auto simp: kept_def)
    then have n: "b \<notin> own s'" "borrowed q - {b} - own s' = borrowed pool - own s" using b(2) by blast+
    have rb: "borrowed (ReturnBuffer (Some b) q) = borrowed q - {b}" "pool_inv (ReturnBuffer (Some b) q)"
      using r(1) borrowed_return [of q b] pool_inv_return [of q "Some b"] by (simp_all add: prot_inv_def)
    have "same_lent (borrowed pool - own s) pool (ReturnBuffer (Some b) q)"
      using r(2) st q(2) bo by (auto simp: kept_def same_lent_def)
    then show "prot_inv s' (ReturnBuffer (Some b) q) \<and> pending s' (ReturnBuffer (Some b) q) = pending s' q
        \<and> kept s pool s' (ReturnBuffer (Some b) q)"
      using r(1) rb n by (auto simp: prot_inv_def pending_def kept_def own_def split: option.splits)
  qed
qed

text \<open>The same for \<open>linked\<close> states; the buffer is still held at the end of \<open>body\<close>.\<close>

lemma scoped_linked:
  assumes l: "linked winv t0 (pool, c, w)" and fr: "free_for 3 (mc_protocol c) pool"
    and fit: "HeaderSize + length payload \<le> BufferSize" and enc: "\<And>buf. encode buf = encoded type payload buf"
    and k: "same_link c c0"
  defines "c1 \<equiv> snd (SendPacket (packet type payload) c0)"
  obtains b p q where "BorrowBuffer_try pool = (Some b, p)"
    and "encode_send encode b (p, c0, w) =
           Inr ((fst (SendPacket (packet type payload) c0), HeaderSize + length payload), q, c1, w)"
    and "linked winv t0 (q, c1, w)" and "pending (mc_protocol c1) q = pending (mc_protocol c) pool"
    and "\<And>q' c' w'. linked winv t0 (q', c', w') \<Longrightarrow> kept (mc_protocol c) q (mc_protocol c') q' \<Longrightarrow>
           linked winv t0 (ReturnBuffer (Some b) q', c', w')
           \<and> kept (mc_protocol c) pool (mc_protocol c') (ReturnBuffer (Some b) q')"
proof -
  have pr: "prot_inv (mc_protocol c) pool" using l by (simp add: linked_def)
  from hold_buffer [OF pr fr] obtain b p where b: "BorrowBuffer_try pool = (Some b, p)"
      "length (bp_storage p ! b) = BufferSize"
    and w1: "\<And>buf. length buf = BufferSize \<Longrightarrow>
           prot_inv (mc_protocol c) (write_buffer b buf p)
           \<and> pending (mc_protocol c) (write_buffer b buf p) = pending (mc_protocol c) pool
           \<and> free_for 2 (mc_protocol c) (write_buffer b buf p)"
    and w2: "\<And>buf s' q. length buf = BufferSize \<Longrightarrow> prot_inv s' q \<Longrightarrow> kept (mc_protocol c) (write_buffer b buf p) s' q \<Longrightarrow>
           prot_inv s' (ReturnBuffer (Some b) q) \<and> pending s' (ReturnBuffer (Some b) q) = pending s' q
           \<and> kept (mc_protocol c) pool s' (ReturnBuffer (Some b) q)" by blast
  obtain buf where buf: "length buf = BufferSize" and e: "encode_send encode b (p, c0, w) =
       Inr ((fst (SendPacket (packet type payload) c0), HeaderSize + length payload), write_buffer b buf p, c1, w)"
    using encode_send_ok [OF b(2) fit enc, of c0 w] c1_def by blast
  have k1: "same_link c c1" using k by (simp add: same_link_def c1_def)
  then have p1: "mc_protocol c1 = mc_protocol c" by (simp add: same_link_def)
  have l0: "linked winv t0 (write_buffer b buf p, c, w)" using l w1 [OF buf] by (simp add: linked_def)
  show ?thesis
  proof (rule that [OF b(1) e linked_link [OF l0 k1]])
    show "pending (mc_protocol c1) (write_buffer b buf p) = pending (mc_protocol c) pool"
      using w1 [OF buf] p1 by simp
    fix q' c' w' assume a: "linked winv t0 (q', c', w')" "kept (mc_protocol c) (write_buffer b buf p) (mc_protocol c') q'"
    have x: "prot_inv (mc_protocol c') (ReturnBuffer (Some b) q')"
        "kept (mc_protocol c) pool (mc_protocol c') (ReturnBuffer (Some b) q')"
      using w2 [OF buf _ a(2)] a(1) by (simp_all add: linked_def)
    have "free_for 2 (mc_protocol c) pool" using l by (simp add: linked_def)
    then have "free_for 2 (mc_protocol c') (ReturnBuffer (Some b) q')" by (rule kept_free_for [OF x(2)])
    with x a(1) show "linked winv t0 (ReturnBuffer (Some b) q', c', w')
        \<and> kept (mc_protocol c) pool (mc_protocol c') (ReturnBuffer (Some b) q')"
      by (simp add: linked_def)
  qed
qed

context client_env
begin

text \<open>\<open>CreateNetwork\<close>, \<open>Connect\<close> and their private variants, from the request on.\<close>

lemma request_arriving:
  assumes l: "linked winv t0 (pool, c, w)" and fr: "free_for 3 (mc_protocol c) pool"
    and ar: "arriving env t0 pool c arrivals evs"
    and fit: "HeaderSize + length payload \<le> BufferSize" and enc: "\<And>buf. encode buf = encoded type payload buf"
    and succ: "\<And>c w. same_link c (fst (success (c, w)))" "\<And>c w. winv w \<Longrightarrow> winv (snd (success (c, w)))"
  defines "c0 \<equiv> snd (SendPacket (packet type payload) (c\<lparr>mc_events := (mc_events c)\<lparr>ev_apConnected := False\<rparr>\<rparr>))"
    and "ok \<equiv> (\<exists>h i. onConnected h i \<in> set evs)"
  shows "\<exists>pool' c1 w1 cw'. request env (map pass_of arrivals) encode success (pool, c, w) =
      Inr (if ok then ResultSuccess else MAKERESULT 0xFD 2, pool', cw')
    \<and> (core c1, w1) = fold (client_effect env oeff) evs (core c0, w)
    \<and> cw' = (if ok then success (signal (ev_apConnected_update (\<lambda>_. False)) c1, w1) else (c1, w1))
    \<and> linked winv t0 (pool', cw') \<and> kept (mc_protocol c) pool (mc_protocol (fst cw')) pool'"
proof -
  let ?d = "signal (ev_apConnected_update (\<lambda>_. False)) c"
  have d: "snd (SendPacket (packet type payload) ?d) = c0" by (simp add: c0_def signal_def)
  have k: "same_link c ?d" by (simp add: same_link_def signal_def)
  obtain b p q where b: "BorrowBuffer_try pool = (Some b, p)"
      "encode_send encode b (p, ?d, w) =
           Inr ((fst (SendPacket (packet type payload) ?d), HeaderSize + length payload), q, c0, w)"
      "linked winv t0 (q, c0, w)" "pending (mc_protocol c0) q = pending (mc_protocol c) pool"
    and rel: "\<And>q' c' w'. linked winv t0 (q', c', w') \<Longrightarrow> kept (mc_protocol c) q (mc_protocol c') q' \<Longrightarrow>
           linked winv t0 (ReturnBuffer (Some b) q', c', w')
           \<and> kept (mc_protocol c) pool (mc_protocol c') (ReturnBuffer (Some b) q')"
    using scoped_linked [OF l fr fit enc k] unfolding d by blast
  have n: "mc_now c0 = mc_now c" "mc_protocol c0 = mc_protocol c" "\<not> ev_apConnected (mc_events c0)"
    by (simp_all add: c0_def)
  have a0: "arriving env t0 q c0 arrivals evs" by (rule arriving_cong [OF ar n(1) b(4)])
  have ev: "ev_apConnected (fold event_flags evs (mc_events c0)) = ok"
    using n(3) by (simp add: fold_event_flags ok_def)
  obtain q' c1 w1 where t: "wait_ap env (map pass_of arrivals) (q, c0, w) =
      Inr (ok, q', if ok then signal (ev_apConnected_update (\<lambda>_. False)) c1 else c1, w1)"
      "(core c1, w1) = fold (client_effect env oeff) evs (core c0, w)" "linked winv t0 (q', c1, w1)"
      "kept (mc_protocol c) q (mc_protocol c1) q'"
    using TimedWait_arriving [OF b(3) a0, of ev_apConnected "ev_apConnected_update (\<lambda>_. False)"]
    unfolding wait_ap_def ev n(2) by blast
  define cw' where "cw' = (if ok then success (signal (ev_apConnected_update (\<lambda>_. False)) c1, w1) else (c1, w1))"
  have "same_link c1 (fst cw') \<and> winv (snd cw')"
    using succ(1) [of "signal (ev_apConnected_update (\<lambda>_. False)) c1" w1]
      succ(2) [of w1 "signal (ev_apConnected_update (\<lambda>_. False)) c1"] t(3)
      refreshed_timeout [of "signal (ev_apConnected_update (\<lambda>_. False)) c1" c1]
    by (auto simp: cw'_def same_link_def signal_def linked_def)
  then have l': "linked winv t0 (q', cw')" "mc_protocol (fst cw') = mc_protocol c1"
    using linked_link [OF t(3), of "fst cw'"] by (auto simp: linked_def same_link_def split_beta)
  have r: "request env (map pass_of arrivals) encode success (pool, c, w) =
      Inr (if ok then ResultSuccess else MAKERESULT 0xFD 2, ReturnBuffer (Some b) q', cw')"
    using t(1) b(1,2) by (simp add: request_def scoped_def cw'_def)
  show ?thesis
    using r rel [of q' "fst cw'" "snd cw'"] l' t(2,4) cw'_def by auto
qed

end

section \<open>The connection to the server\<close>

text \<open>An attempt in which the TCP connection comes up.\<close>

definition attempt_opens :: "Attempt \<Rightarrow> bool" where
  "attempt_opens a \<longleftrightarrow> 0 \<le> at_socket a \<and> at_resolved a \<and> at_connecting a \<and> 0 < at_poll a \<and> at_error a = 0"

lemma open_connection_opens:
  "attempt_opens a \<Longrightarrow>
   open_connection a c =
     (True, (signal (ev_error_update (\<lambda>_. False) \<circ> ev_connected_update (\<lambda>_. False)) c)
        \<lparr>mc_socket := at_socket a, mc_open := at_socket a # mc_open c, mc_connected := True\<rparr>)"
  by (simp add: attempt_opens_def open_connection_def Let_def signal_def)

text \<open>A state without a connection in which the client could make one.\<close>

definition unlinked :: "('w \<Rightarrow> bool) \<Rightarrow> nat \<Rightarrow> 'w mcs \<Rightarrow> bool" where
  "unlinked winv t0 = (\<lambda>(pool, c, w).
     mc_inv c \<and> winv w \<and> \<not> mc_stop c \<and> \<not> mc_connected c
     \<and> prot_inv (mc_protocol c) pool \<and> free_for 3 (mc_protocol c) pool \<and> timer_within t0 c)"

lemma Reset_spec:
  assumes "prot_inv s pool" and "Reset s pool = (s', pool')"
  shows "prot_inv s' pool'" and "pending s' pool' = []" and "kept s pool s' pool'"
proof -
  have s: "pool_inv pool" "length (rp_headerBuffer s) = HeaderSize" using assms(1) by (simp_all add: prot_inv_def)
  note r = prot_inv_Reset [OF s assms(2)]
  show "prot_inv s' pool'" "pending s' pool' = []" by (rule r)+
  show "kept s pool s' pool'" using r(3-5) by (simp add: kept_def same_lent_def)
qed

lemma SendPacket_wire: "\<exists>k. mc_wire (snd (SendPacket d c)) = mc_wire c @ k"
  by (auto simp: SendPacket_def Let_def split: prod.split)

lemma mc_effect_wire: "\<exists>k. mc_wire (fst (mc_effect env ev (c, w))) = mc_wire c @ k"
proof (cases ev)
  case (onPing h p)
  then show ?thesis by (simp add: mc_effect_def SendPacket_wire)
next
  case (onDisconnected h m)
  then show ?thesis
    by (auto simp: mc_effect_def disconnect_effect_def Let_def notify_def refreshed_def split: option.split)
qed (auto simp: mc_handler_defs notify_def split: option.split)

lemma send_all_wire: "\<exists>k. mc_wire (send_all ds c) = mc_wire c @ k"
proof (induction ds arbitrary: c)
  case (Cons d ds)
  obtain k where k: "mc_wire (snd (SendPacket d c)) = mc_wire c @ k" using SendPacket_wire by blast
  obtain k' where "mc_wire (send_all ds (snd (SendPacket d c))) = mc_wire (snd (SendPacket d c)) @ k'"
    using Cons by blast
  with k show ?case by simp
qed simp

lemma fold_effect_wire: "\<exists>k. mc_wire (fst (fold (client_effect env oeff) evs (c, w))) = mc_wire c @ k"
proof (induction evs arbitrary: c w)
  case (Cons ev evs)
  obtain c' w' where e: "client_effect env oeff ev (c, w) = (c', w')" by force
  then obtain k where k: "mc_wire c' = mc_wire c @ k"
    using mc_effect_wire [of env ev c w] send_all_wire [of _ c]
    by (auto simp: client_effect_def split: option.splits)
  obtain k' where "mc_wire (fst (fold (client_effect env oeff) evs (c', w'))) = mc_wire c' @ k'"
    using Cons by blast
  with e k show ?case by simp
qed simp

context client_env
begin

lemma EnsureConnected_arriving:
  assumes u: "unlinked winv t0 (pool, c, w)" and op: "attempt_opens a" and ps: "at_passes a = map pass_of arrivals"
    and wf: "wf_InitializeMessage (mc_initializeMemory c)" and snd: "SendFailed \<notin> set (mc_sends c)"
    and ar: "arriving env t0 pool (c\<lparr>mc_protocol := RyuLdnProtocol_new\<rparr>) arrivals evs"
  defines "pk \<equiv> packet PacketId_Initialize (put_InitializeMessage (mc_initializeMemory c))"
    and "ok \<equiv> (\<exists>h m. onInitialize h m \<in> set evs)"
  shows "\<exists>pool' c' w' k. EnsureConnected env a (pool, c, w) = Inr (ok, pool', c', w')
    \<and> mc_connected c' = ok \<and> mc_socket c' = at_socket a \<and> mc_open c' = at_socket a # mc_open c
    \<and> mc_wire c' = mc_wire c @ (at_socket a, pk) # k
    \<and> linked winv t0 (pool', c'\<lparr>mc_connected := True\<rparr>, w') \<and> kept (mc_protocol c) pool (mc_protocol c') pool'
    \<and> (evs = [] \<longrightarrow> set (mc_sends c') \<subseteq> set (mc_sends c) \<and> mc_initializeMemory c' = mc_initializeMemory c)"
proof -
  obtain s1 pool1 where rs: "Reset (mc_protocol c) pool = (s1, pool1)" by force
  have pr: "prot_inv (mc_protocol c) pool" using u by (simp add: unlinked_def)
  note R = Reset_spec [OF pr rs]
  let ?f = "ev_error_update (\<lambda>_. False) \<circ> ev_connected_update (\<lambda>_. False)"
  define c1 where "c1 = signal (ev_connected_update (\<lambda>_. True))
     ((signal ?f c)\<lparr>mc_socket := at_socket a, mc_open := at_socket a # mc_open c, mc_connected := True,
        mc_protocol := s1\<rparr>)"
  let ?c2 = "signal (ev_initialize_update (\<lambda>_. False)) c1"
  have c1: "mc_connected c1" "mc_socket c1 = at_socket a" "mc_open c1 = at_socket a # mc_open c" "mc_protocol c1 = s1"
      "mc_now c1 = mc_now c" "mc_timeout c1 = mc_timeout c" "mc_stop c1 = mc_stop c" "mc_sends c1 = mc_sends c"
      "mc_wire c1 = mc_wire c" "mc_initializeMemory c1 = mc_initializeMemory c"
    by (simp_all add: c1_def signal_def)
  have fr: "free_for 3 s1 pool1" using u kept_free_for [OF R(3)] by (simp add: unlinked_def)
  have l1: "linked winv t0 (pool1, c1, w)"
    using u op R(1) fr c1 by (auto simp: unlinked_def linked_def mc_inv_def timer_within_def free_for_def attempt_opens_def)
  have len: "length (put_InitializeMessage (mc_initializeMemory c)) = 22"
    by (rule InitializeMessage_wire.length_put_wf [OF wf])
  have fit: "HeaderSize + length (put_InitializeMessage (mc_initializeMemory c)) \<le> BufferSize"
    by (simp add: len BufferSize_def MaxPacketSize_def HeaderSize_def)
  define c3 where "c3 = snd (SendPacket pk ?c2)"
  have k: "same_link c1 ?c2" by (simp add: same_link_def signal_def)
  obtain b p q where b: "BorrowBuffer_try pool1 = (Some b, p)"
      "encode_send (Encode_struct PacketId_Initialize (put_InitializeMessage (mc_initializeMemory c))) b (p, ?c2, w) =
           Inr ((fst (SendPacket pk ?c2), HeaderSize + 22), q, c3, w)"
      "linked winv t0 (q, c3, w)" "pending (mc_protocol c3) q = pending (mc_protocol c1) pool1"
    and rel: "\<And>q' c' w'. linked winv t0 (q', c', w') \<Longrightarrow> kept (mc_protocol c1) q (mc_protocol c') q' \<Longrightarrow>
           linked winv t0 (ReturnBuffer (Some b) q', c', w')
           \<and> kept (mc_protocol c1) pool1 (mc_protocol c') (ReturnBuffer (Some b) q')"
    using scoped_linked [OF l1 _ fit Encode_struct_packet k, of PacketId_Initialize] fr
    unfolding len pk_def [symmetric] c3_def [symmetric] c1(4) by blast
  have wire: "fst (SendPacket pk ?c2) = int (HeaderSize + 22) \<and> mc_wire c3 = mc_wire c @ [(at_socket a, pk)]"
    using SendPacket_loop_spec [of "mc_sends c" pk "[]"] snd op c1 len
    by (auto simp: c3_def SendPacket_def signal_def attempt_opens_def pk_def Let_def split: prod.split)
  have c3: "mc_now c3 = mc_now c" "mc_protocol c3 = s1" "mc_connected c3" "mc_socket c3 = at_socket a"
      "mc_open c3 = at_socket a # mc_open c" "\<not> ev_initialize (mc_events c3)"
    using c1 by (simp_all add: c3_def signal_def)
  have a3: "arriving env t0 q c3 arrivals evs"
    by (rule arriving_cong [OF ar]) (use c3 b(4) R(2) c1(4) in simp_all)
  have ev: "ev_initialize (fold event_flags evs (mc_events c3)) = ok"
    using c3 by (simp add: fold_event_flags ok_def)
  obtain q' c4 w' where t: "TimedWait env (map pass_of arrivals) ev_initialize (ev_initialize_update (\<lambda>_. False)) (q, c3, w) =
      Inr (ok, q', if ok then signal (ev_initialize_update (\<lambda>_. False)) c4 else c4, w')"
      "(core c4, w') = fold (client_effect env oeff) evs (core c3, w)" "linked winv t0 (q', c4, w')"
      "kept s1 q (mc_protocol c4) q'"
    using TimedWait_arriving [OF b(3) a3, of ev_initialize "ev_initialize_update (\<lambda>_. False)"]
    unfolding ev c3(2) by blast
  obtain kw where "mc_wire (core c4) = mc_wire (core c3) @ kw"
    using fold_effect_wire [of env oeff evs "core c3" w] t(2) [symmetric] by auto
  then have w4: "mc_wire c4 = mc_wire c @ (at_socket a, pk) # kw" using wire by simp
  have "same_link (core c3) (core c4)"
    using fold_effect_link [of "core c3" evs w] t(2) [symmetric] by simp
  then have k4: "mc_socket c4 = at_socket a" "mc_open c4 = at_socket a # mc_open c"
    using c3 by (simp_all add: same_link_def)
  define c5 where "c5 = (if ok then signal (ev_initialize_update (\<lambda>_. False)) c4 else c4\<lparr>mc_connected := False\<rparr>)"
  have c5: "mc_connected c5 = ok" "mc_socket c5 = at_socket a" "mc_open c5 = at_socket a # mc_open c"
      "mc_wire c5 = mc_wire c @ (at_socket a, pk) # kw" "mc_protocol c5 = mc_protocol c4"
    using k4 w4 t(3) by (simp_all add: c5_def signal_def linked_def)
  have "same_link c4 (c5\<lparr>mc_connected := True\<rparr>)"
    using t(3) by (simp add: c5_def same_link_def signal_def linked_def)
  from rel [OF linked_link [OF t(3) this]] t(4) c1(4) c5(5)
  have f: "linked winv t0 (ReturnBuffer (Some b) q', c5\<lparr>mc_connected := True\<rparr>, w')"
      "kept s1 pool1 (mc_protocol c5) (ReturnBuffer (Some b) q')" by simp_all
  have h: "handshake env a b (p, c1, w) = Inr (ok, q', c5, w')"
    using b(2) wire t(1) ps c1(10) by (auto simp: handshake_def c5_def)
  have nc: "\<not> mc_connected c" using u by (simp add: unlinked_def)
  have "EnsureConnected env a (pool, c, w) = Inr (ok, ReturnBuffer (Some b) q', c5, w')"
    using nc open_connection_opens [OF op, of c] rs b(1) h
    by (simp add: EnsureConnected_def scoped_def Let_def signal_def c1_def)
  moreover have "evs = [] \<longrightarrow> set (mc_sends c5) \<subseteq> set (mc_sends c) \<and> mc_initializeMemory c5 = mc_initializeMemory c"
  proof
    assume "evs = []"
    then have "core c4 = core c3" using t(2) by simp
    then have "mc_sends c4 = mc_sends c3" "mc_initializeMemory c4 = mc_initializeMemory c3"
      by (metis core_fields(6), metis core_initialize)
    then show "set (mc_sends c5) \<subseteq> set (mc_sends c) \<and> mc_initializeMemory c5 = mc_initializeMemory c"
      using SendPacket_sends [of pk ?c2] c1(8,10) by (simp add: c5_def c3_def signal_def)
  qed
  ultimately show ?thesis using c5 f kept_trans [OF R(3) f(2)] by blast
qed

end

end
