(* ===== verification/Master_Properties.thy ===== *)
theory Master_Properties
  imports Master_Ops
begin

text \<open>
  Properties of the operations of the master client, stated for every environment that keeps the
  contract \<open>client_env\<close>; \<open>plain_env\<close> is an environment with no callbacks, on which the witnesses run.
\<close>

section \<open>A plain environment\<close>

definition plain_env :: "unit Env" where
  "plain_env =
     \<lparr>env_networkChange = None, env_proxyConfig = None, env_proxyData = None, env_other = (\<lambda>_ _. None),
      env_otherRegisters = (\<lambda>_. False), env_serverNew = (\<lambda>_. True), env_serverStart = (\<lambda>_. True),
      env_serverNatPunch = (\<lambda>_. 0), env_clientNew = (\<lambda>_. True), env_clientConnect = (\<lambda>_. True),
      env_clientAuth = (\<lambda>_. True)\<rparr>"

interpretation plain: client_env plain_env "\<lambda>_ _. None" "\<lambda>_. True"
  by unfold_locales (simp_all add: plain_env_def)

definition demo_linked :: LdnMasterProxyClient where
  "demo_linked = demo_client\<lparr>mc_connected := True, mc_socket := 3, mc_open := [3]\<rparr>"

lemma demo_client_fields:
  "mc_timeout demo_client = None" "mc_now demo_client = 0" "mc_stop demo_client = False"
  "mc_protocol demo_client = RyuLdnProtocol_new" "mc_networkConnected demo_client = False"
  "mc_connected demo_client = False" "mc_socket demo_client = -1" "mc_open demo_client = []"
  "mc_sends demo_client = []" "mc_wire demo_client = []"
  "mc_initializeMemory demo_client = get_InitializeMessage (replicate 22 0)"
  by (simp_all add: demo_client_def LdnMasterProxyClient_new_def)

lemma own_new [simp]: "own RyuLdnProtocol_new = {}"
  by (simp add: own_def RyuLdnProtocol_new_def)

lemma borrowed_zero_pool [simp]: "borrowed zero_pool = {}"
  by (simp add: zero_pool_def borrowed_new)

lemma free_for_zero_pool: "n \<le> 3 \<Longrightarrow> free_for n RyuLdnProtocol_new zero_pool"
  by (simp add: free_for_def MaxBuffers_def)

lemma demo_linked_linked: "linked (\<lambda>_. True) 0 (zero_pool, demo_linked, ())"
  by (simp add: linked_def demo_linked_def demo_client_fields mc_inv_def timer_within_def
      prot_inv_new [OF zero_pool_inv] free_for_zero_pool)

lemma demo_unlinked: "unlinked (\<lambda>_. True) 0 (zero_pool, demo_client, ())"
  by (simp add: unlinked_def demo_client_fields mc_inv_def timer_within_def
      prot_inv_new [OF zero_pool_inv] free_for_zero_pool)

text \<open>Packets that arrive whole, one per pass, at tick 0.\<close>

lemma arriving_packets:
  assumes "\<forall>(t, p) \<in> set ps. length p < 4087 \<and> \<not> isl (frame_event (protocol_registers env) (packet_header t (length p), p))"
    and "mc_now c = 0" and "pending (mc_protocol c) pool = []"
  shows "arriving env 0 pool c (map (\<lambda>(t, p). (packet t p, 0)) ps)
     (frame_events (protocol_registers env) (map (\<lambda>(t, p). (packet_header t (length p), p)) ps))"
proof -
  have c: "concat (map fst (map (\<lambda>(t, p). (packet t p, 0 :: u64)) ps)) = concat (map (\<lambda>(t, p). packet t p) ps)"
    by (rule arg_cong [of _ _ concat]) (auto simp: comp_def)
  have "stream_ok (protocol_registers env) (concat (map (\<lambda>(t, p). packet t p) ps))"
    by (rule stream_ok_packets) (use assms(1) in \<open>fastforce simp: MaxPacketSize_def HeaderSize_def\<close>)
  moreover have "frames (concat (map (\<lambda>(t, p). packet t p) ps)) =
      (map (\<lambda>(t, p). (packet_header t (length p), p)) ps, [])"
    by (rule frames_packets) (use assms(1) in fastforce)
  moreover have "sorted (map unat (mc_now c # map snd (map (\<lambda>(t, p). (packet t p, 0)) ps)))"
    using assms(2) by (induction ps) auto
  moreover have "\<forall>(bs, now) \<in> set (map (\<lambda>(t, p). (packet t p, 0 :: u64)) ps). length bs \<le> 4096 \<and> unat now < 0 + 6000"
    using assms(1) by (auto simp: HeaderSize_def)
  ultimately show ?thesis
    unfolding arriving_def c Let_def using assms(3) by simp
qed

section \<open>Scanning\<close>

text \<open>
  C33: \<open>Scan\<close> on an open connection sends one \<open>Scan\<close> request and returns the networks of the
  \<open>ScanReply\<close> packets that arrive while it waits, in order, at most as many as the caller has room
  for, provided a \<open>ScanReplyEnd\<close> arrives; otherwise it succeeds with no network. The pieces in which the
  packets arrive and the polls that time out in between do not matter; every packet among them, of
  whatever type, has had exactly its own effect on the client, and no pool buffer is lost.
\<close>

theorem Scan_returns_replies:
  fixes count :: u16
  assumes "client_env env oeff winv" and "linked winv t0 (pool, c, w)"
    and "arriving env t0 pool c arrivals evs" and "wf_ScanFilter f"
  shows "\<exists>pool' c' w' nets n. mc_Scan env a (map pass_of arrivals) count f (pool, c, w) =
      Inr ((ResultSuccess, nets, n), pool', c', w')
    \<and> ((\<exists>h. onScanReplyEnd h \<in> set evs) \<longrightarrow>
         n = min (of_nat (length (scan_infos evs))) count \<and> nets = take (unat n) (scan_infos evs))
    \<and> (\<not> (\<exists>h. onScanReplyEnd h \<in> set evs) \<longrightarrow> n = 0 \<and> nets = [])
    \<and> (core c', w') = fold (client_effect env oeff) evs
         (core (snd (SendPacket (packet PacketId_Scan (put_ScanFilter f))
            (c\<lparr>mc_availableGames := [], mc_events := (mc_events c)\<lparr>ev_scan := False\<rparr>\<rparr>))), w)
    \<and> linked winv t0 (pool', c', w') \<and> kept (mc_protocol c) pool (mc_protocol c') pool'"
  using client_env.Scan_arriving [OF assms, of a count]
  by (cases "\<exists>h. onScanReplyEnd h \<in> set evs") auto

definition demo_filter :: ScanFilter where
  "demo_filter = get_ScanFilter (replicate 96 0)"

lemma plain_registers [simp]: "protocol_registers plain_env = mc_registers"
  by (rule ext) (simp add: protocol_registers_def plain_env_def)

lemma packet_header_size [simp]: "hdr_dataSize (packet_header t n) = of_nat n"
  by (simp add: packet_header_def)

lemma frame_event_packet:
  "frame_event reg (packet_header t n, p) =
     (if reg t then bind_run (Handle t (packet_header t n) (if p = [] then None else Some p)) (\<lambda>ev. Inr (Some ev))
      else Inr None)"
  by (simp add: frame_event_def DecodeAndHandle_def packet_header_def)

lemma scan_reply_event:
  "frame_event mc_registers (packet_header PacketId_ScanReply (length [0 :: u8]), [0]) =
     Inr (Some (onScanReply (packet_header PacketId_ScanReply 1)
       (NetworkInfo_of_ldn (get_LdnNetworkInfo (replicate 1072 0)))))"
  by (simp add: frame_event_packet mc_registers_def HandleNetworkInfo_def ParseNetworkInfo_def)

lemma scan_end_event:
  "frame_event mc_registers (packet_header PacketId_ScanReplyEnd (length []), []) =
     Inr (Some (onScanReplyEnd (packet_header PacketId_ScanReplyEnd 0)))"
  by (simp add: frame_event_packet mc_registers_def)

theorem Scan_returns_replies_witness:
  "\<exists>st. mc_Scan plain_env undefined
       (map pass_of [(packet PacketId_ScanReply [0], 0), (packet PacketId_ScanReplyEnd [], 0)]) 24 demo_filter
       (zero_pool, demo_linked, ()) =
     Inr ((ResultSuccess, [NetworkInfo_of_ldn (get_LdnNetworkInfo (replicate 1072 0))], 1), st)"
proof -
  let ?ps = "[(PacketId_ScanReply, [0 :: u8]), (PacketId_ScanReplyEnd, [])]"
  let ?i = "NetworkInfo_of_ldn (get_LdnNetworkInfo (replicate 1072 0))"
  let ?evs = "[onScanReply (packet_header PacketId_ScanReply 1) ?i,
               onScanReplyEnd (packet_header PacketId_ScanReplyEnd 0)]"
  have fe: "frame_events mc_registers (map (\<lambda>(t, p). (packet_header t (length p), p)) ?ps) = ?evs"
    using scan_reply_event scan_end_event by (simp add: frame_events_def)
  have ar: "arriving plain_env 0 zero_pool demo_linked (map (\<lambda>(t, p). (packet t p, 0)) ?ps) ?evs"
    using arriving_packets [of ?ps plain_env demo_linked zero_pool] fe scan_reply_event scan_end_event
    by (simp add: demo_linked_def demo_client_fields)
  have wf: "wf_ScanFilter demo_filter" unfolding demo_filter_def by (rule ScanFilter_wire.wf_get) simp
  have "min (1 :: u16) 24 = 1" by simp
  then show ?thesis
    using Scan_returns_replies [OF plain.client_env_axioms demo_linked_linked ar wf, of undefined 24]
    by (auto simp: scan_infos_def)
qed

section \<open>Joining a network\<close>

definition disabled :: "LdnMasterProxyClient \<Rightarrow> LdnMasterProxyClient" where
  "disabled c = (case mc_timeout c of None \<Rightarrow> c | Some t \<Rightarrow> c\<lparr>mc_timeout := Some (t\<lparr>nt_active := False\<rparr>)\<rparr>)"

lemma disable_unlocked:
  "\<forall>t. mc_timeout c = Some t \<longrightarrow> \<not> nt_locked t \<Longrightarrow> disable c = Inr (disabled c)"
  by (simp add: disable_def disabled_def split: option.split)

lemma disabled_fields [simp]:
  "mc_connected (disabled c) = mc_connected c" "mc_protocol (disabled c) = mc_protocol c"
  "mc_now (disabled c) = mc_now c" "core (disabled c) = core c" "mc_events (disabled c) = mc_events c"
  "mc_networkConnected (disabled c) = mc_networkConnected c"
  by (simp_all add: disabled_def split: option.split)

lemma linked_disabled: "linked winv t0 (pool, c, w) \<Longrightarrow> linked winv t0 (pool, disabled c, w)"
  by (auto simp: linked_def disabled_def mc_inv_def timer_within_def split: option.split)

lemma length_put_ConnectRequest:
  "wf_ConnectRequest req \<Longrightarrow> HeaderSize + length (put_ConnectRequest req) \<le> BufferSize"
  by (simp add: ConnectRequest_wire.length_put_wf BufferSize_def MaxPacketSize_def HeaderSize_def)

text \<open>
  \<open>Connect\<close> on an open connection sends the request and succeeds exactly when a \<open>Connected\<close>
  packet is among those that arrive while it waits, and fails with (0xFD, 2) otherwise; the flag
  \<open>_networkConnected\<close> says afterwards whether a \<open>Connected\<close> or a \<open>Disconnect\<close> packet came last. The
  buffer of the request is held during the wait; the two others are enough for the worker.
\<close>

theorem Connect_awaits_reply:
  assumes "client_env env oeff winv" and "linked winv t0 (pool, c, w)"
    and "free_for 3 (mc_protocol c) pool" and "arriving env t0 pool c arrivals evs" and "wf_ConnectRequest req"
  shows "\<exists>pool' c' w' k. mc_Connect env a (map pass_of arrivals) req (pool, c, w) =
      Inr (if \<exists>h i. onConnected h i \<in> set evs then ResultSuccess else MAKERESULT 0xFD 2, pool', c', w')
    \<and> mc_networkConnected c' = fold network_flag evs (mc_networkConnected c)
    \<and> mc_wire c' = mc_wire (snd (SendPacket (packet PacketId_Connect (put_ConnectRequest req)) c)) @ k
    \<and> linked winv t0 (pool', c', w') \<and> kept (mc_protocol c) pool (mc_protocol c') pool'"
proof -
  let ?c = "disabled c"
  have u: "\<forall>t. mc_timeout c = Some t \<longrightarrow> \<not> nt_locked t" using assms(2) by (simp add: linked_def mc_inv_def)
  have ar: "arriving env t0 pool ?c arrivals evs" by (rule arriving_cong [OF assms(4)]) simp_all
  have conn: "mc_connected c" using assms(2) by (simp add: linked_def)
  have id: "same_link x (fst (id (x, y)))" "winv y \<Longrightarrow> winv (snd (id (x, y)))" for x and y :: 'a
    by (simp_all add: same_link_def)
  have fr: "free_for 3 (mc_protocol ?c) pool" using assms(3) by simp
  let ?ok = "\<exists>h i. onConnected h i \<in> set evs"
  let ?pk = "packet PacketId_Connect (put_ConnectRequest req)"
  define c0 where "c0 = snd (SendPacket ?pk (?c\<lparr>mc_events := (mc_events ?c)\<lparr>ev_apConnected := False\<rparr>\<rparr>))"
  obtain pool' c1 w1 cw' where r: "request env (map pass_of arrivals)
        (Encode_struct PacketId_Connect (put_ConnectRequest req)) id (pool, ?c, w) =
      Inr (if ?ok then ResultSuccess else MAKERESULT 0xFD 2, pool', cw')"
    "(core c1, w1) = fold (client_effect env oeff) evs (core c0, w)"
    "cw' = (if ?ok then id (signal (ev_apConnected_update (\<lambda>_. False)) c1, w1) else (c1, w1))"
    "linked winv t0 (pool', cw')" "kept (mc_protocol c) pool (mc_protocol (fst cw')) pool'"
    using client_env.request_arriving [OF assms(1) linked_disabled [OF assms(2)] fr ar
        length_put_ConnectRequest [OF assms(5)] Encode_struct_packet id, of PacketId_Connect]
    unfolding c0_def disabled_fields by blast
  have v: "mc_networkConnected (fst cw') = mc_networkConnected (core c1)" "mc_wire (fst cw') = mc_wire (core c1)"
    using r(3) by (auto simp: signal_def)
  have "mc_networkConnected (core c1) = fold network_flag evs (mc_networkConnected c)"
    using client_env.fold_effect_view(3) [OF assms(1), of evs "core c0" w] r(2) [symmetric] by (simp add: c0_def)
  moreover obtain k where "mc_wire (core c1) = mc_wire (core c0) @ k"
    using fold_effect_wire [of env oeff evs "core c0" w] r(2) [symmetric] by auto
  moreover have "mc_wire c0 = mc_wire (snd (SendPacket ?pk c))"
    by (simp add: c0_def SendPacket_def disabled_def Let_def split: option.split prod.split)
  moreover have "mc_Connect env a (map pass_of arrivals) req (pool, c, w) =
      Inr (if ?ok then ResultSuccess else MAKERESULT 0xFD 2, pool', cw')"
    using r(1) by (simp add: mc_Connect_def disable_unlocked [OF u] EnsureConnected_def conn)
  ultimately show ?thesis
    using r(4,5) v by (cases cw') auto
qed

definition demo_connect :: ConnectRequest where
  "demo_connect = get_ConnectRequest (replicate 1276 0)"

lemma connected_event:
  "frame_event mc_registers (packet_header PacketId_Connected (length [0 :: u8]), [0]) =
     Inr (Some (onConnected (packet_header PacketId_Connected 1)
       (NetworkInfo_of_ldn (get_LdnNetworkInfo (replicate 1072 0)))))"
  by (simp add: frame_event_packet mc_registers_def HandleNetworkInfo_def ParseNetworkInfo_def)

theorem Connect_awaits_reply_witness:
  "(\<exists>st. mc_Connect plain_env undefined (map pass_of [(packet PacketId_Connected [0], 0)]) demo_connect
        (zero_pool, demo_linked, ()) = Inr (ResultSuccess, st) \<and> mc_networkConnected (fst (snd st)))
   \<and> (\<exists>st. mc_Connect plain_env undefined [] demo_connect (zero_pool, demo_linked, ()) =
        Inr (MAKERESULT 0xFD 2, st))"
proof -
  let ?i = "NetworkInfo_of_ldn (get_LdnNetworkInfo (replicate 1072 0))"
  let ?ev = "onConnected (packet_header PacketId_Connected 1) ?i"
  have a1: "arriving plain_env 0 zero_pool demo_linked [(packet PacketId_Connected [0], 0)] [?ev]"
    using arriving_packets [of "[(PacketId_Connected, [0])]" plain_env demo_linked zero_pool] connected_event
    by (simp add: demo_linked_def demo_client_fields frame_events_def)
  have a2: "arriving plain_env 0 zero_pool demo_linked [] []"
    using arriving_packets [of "[]" plain_env demo_linked zero_pool]
    by (simp add: demo_linked_def demo_client_fields frame_events_def)
  have wf: "wf_ConnectRequest demo_connect" unfolding demo_connect_def by (rule ConnectRequest_wire.wf_get) simp
  have fr: "free_for 3 (mc_protocol demo_linked) zero_pool"
    by (simp add: demo_linked_def demo_client_fields free_for_zero_pool)
  note c = Connect_awaits_reply [OF plain.client_env_axioms demo_linked_linked fr _ wf, of _ _ undefined]
  show ?thesis
    using c [OF a1] c [OF a2] by (auto simp: network_flag_def)
qed

section \<open>Connecting to the server\<close>

text \<open>
  C34: when the TCP connection comes up and no \<open>send\<close> fails, \<open>EnsureConnected\<close> sends the client's
  \<open>Initialize\<close> message and returns whether an \<open>Initialize\<close> packet arrives during the wait. On success
  the client is connected on the new descriptor.
\<close>

theorem EnsureConnected_handshake:
  assumes "client_env env oeff winv" and "unlinked winv t0 (pool, c, w)" and "attempt_opens a"
    and "at_passes a = map pass_of arrivals" and "wf_InitializeMessage (mc_initializeMemory c)"
    and "SendFailed \<notin> set (mc_sends c)"
    and "arriving env t0 pool (c\<lparr>mc_protocol := RyuLdnProtocol_new\<rparr>) arrivals evs"
  shows "\<exists>pool' c' w' k ok. EnsureConnected env a (pool, c, w) = Inr (ok, pool', c', w')
    \<and> ok = (\<exists>h m. onInitialize h m \<in> set evs) \<and> mc_connected c' = ok
    \<and> mc_socket c' = at_socket a \<and> mc_open c' = at_socket a # mc_open c
    \<and> mc_wire c' = mc_wire c @
        (at_socket a, packet PacketId_Initialize (put_InitializeMessage (mc_initializeMemory c))) # k
    \<and> kept (mc_protocol c) pool (mc_protocol c') pool' \<and> mc_inv c'"
proof -
  obtain pool' c' w' k where r: "EnsureConnected env a (pool, c, w) =
        Inr (\<exists>h m. onInitialize h m \<in> set evs, pool', c', w')"
      "mc_connected c' = (\<exists>h m. onInitialize h m \<in> set evs)" "mc_socket c' = at_socket a"
      "mc_open c' = at_socket a # mc_open c"
      "mc_wire c' = mc_wire c @
        (at_socket a, packet PacketId_Initialize (put_InitializeMessage (mc_initializeMemory c))) # k"
      "linked winv t0 (pool', c'\<lparr>mc_connected := True\<rparr>, w')" "kept (mc_protocol c) pool (mc_protocol c') pool'"
    using client_env.EnsureConnected_arriving [OF assms] by blast
  moreover have "mc_inv c'" using r(6) by (auto simp: linked_def mc_inv_def)
  ultimately show ?thesis by blast
qed

definition demo_attempt :: "int \<Rightarrow> pass list \<Rightarrow> Attempt" where
  "demo_attempt fd ps = \<lparr>at_socket = fd, at_resolved = True, at_connecting = True, at_poll = 1, at_error = 0, at_passes = ps\<rparr>"

lemma initialize_event:
  "frame_event mc_registers (packet_header PacketId_Initialize (length (replicate 22 0 :: bytes)), replicate 22 0) =
     Inr (Some (onInitialize (packet_header PacketId_Initialize 22) (get_InitializeMessage (replicate 22 0))))"
  by (simp add: frame_event_packet mc_registers_def HandleStruct_def ParseStruct_def)

lemma wf_demo_initialize: "wf_InitializeMessage (mc_initializeMemory demo_client)"
  unfolding demo_client_fields by (rule InitializeMessage_wire.wf_get) simp

theorem EnsureConnected_handshake_witness:
  "\<exists>st. EnsureConnected plain_env
      (demo_attempt 5 (map pass_of [(packet PacketId_Initialize (replicate 22 0), 0)])) (zero_pool, demo_client, ()) =
     Inr (True, st) \<and> mc_socket (fst (snd st)) = 5 \<and> mc_open (fst (snd st)) = [5]"
proof -
  let ?ev = "onInitialize (packet_header PacketId_Initialize 22) (get_InitializeMessage (replicate 22 0))"
  let ?ar = "[(packet PacketId_Initialize (replicate 22 0), 0 :: u64)]"
  have fe: "frame_events mc_registers [(packet_header PacketId_Initialize 22, replicate 22 0)] = [?ev]"
    using initialize_event by (simp add: frame_events_def)
  have ar: "arriving plain_env 0 zero_pool (demo_client\<lparr>mc_protocol := RyuLdnProtocol_new\<rparr>) ?ar [?ev]"
    using arriving_packets [of "[(PacketId_Initialize, replicate 22 0)]" plain_env
        "demo_client\<lparr>mc_protocol := RyuLdnProtocol_new\<rparr>" zero_pool] initialize_event fe
    by (simp add: demo_client_fields)
  have o: "attempt_opens (demo_attempt 5 (map pass_of ?ar))" by (simp add: attempt_opens_def demo_attempt_def)
  have p: "at_passes (demo_attempt 5 (map pass_of ?ar)) = map pass_of ?ar" by (simp add: demo_attempt_def)
  have s: "SendFailed \<notin> set (mc_sends demo_client)" by (simp add: demo_client_fields)
  show ?thesis
    using EnsureConnected_handshake [OF plain.client_env_axioms demo_unlinked o p wf_demo_initialize s ar]
    by (auto simp: demo_attempt_def demo_client_fields)
qed

section \<open>A server that does not answer\<close>

fun ensure_all :: "'w Env \<Rightarrow> Attempt list \<Rightarrow> 'w mcs \<Rightarrow> (bool list \<times> 'w mcs) run" where
  "ensure_all env [] st = Inr ([], st)"
| "ensure_all env (a # as) st =
     bind_run (EnsureConnected env a st) (\<lambda>(ok, st).
     bind_run (ensure_all env as st) (\<lambda>(oks, st). Inr (ok # oks, st)))"

lemma arriving_nothing: "pending (mc_protocol c) pool = [] \<Longrightarrow> arriving env t0 pool c [] []"
  by (simp add: arriving_def stream_ok_def frames_short HeaderSize_def)

text \<open>
  A server that accepts the connection and never answers costs a descriptor per attempt. Each
  \<open>EnsureConnected\<close> returns false with the socket still open, and the next one overwrites \<open>_socket\<close>
  without closing it: after \<open>n\<close> attempts \<open>n\<close> descriptors more are open, and only the last is known.
\<close>

theorem silent_server_leaks:
  assumes "client_env env oeff winv" and "unlinked winv t0 (pool, c, w)"
    and "\<forall>a \<in> set as. attempt_opens a \<and> at_passes a = []"
    and "wf_InitializeMessage (mc_initializeMemory c)" and "SendFailed \<notin> set (mc_sends c)"
  shows "\<exists>pool' c' w'. ensure_all env as (pool, c, w) = Inr (replicate (length as) False, pool', c', w')
    \<and> mc_open c' = rev (map at_socket as) @ mc_open c \<and> \<not> mc_connected c'
    \<and> (as \<noteq> [] \<longrightarrow> mc_socket c' = at_socket (last as))"
  using assms(2-)
proof (induction "as" arbitrary: pool c w)
  case Nil
  then show ?case by (simp add: unlinked_def)
next
  case (Cons a "as")
  have ar: "arriving env t0 pool (c\<lparr>mc_protocol := RyuLdnProtocol_new\<rparr>) [] []" by (rule arriving_nothing) simp
  have a: "attempt_opens a" "at_passes a = map pass_of []" using Cons.prems(2) by simp_all
  obtain pool1 c1 w1 where r: "EnsureConnected env a (pool, c, w) = Inr (False, pool1, c1, w1)"
      "\<not> mc_connected c1" "mc_socket c1 = at_socket a" "mc_open c1 = at_socket a # mc_open c"
      "linked winv t0 (pool1, c1\<lparr>mc_connected := True\<rparr>, w1)" "kept (mc_protocol c) pool (mc_protocol c1) pool1"
      "set (mc_sends c1) \<subseteq> set (mc_sends c)" "mc_initializeMemory c1 = mc_initializeMemory c"
    using client_env.EnsureConnected_arriving [OF assms(1) Cons.prems(1) a Cons.prems(3,4) ar] by auto
  have "free_for 3 (mc_protocol c1) pool1"
    using Cons.prems(1) kept_free_for [OF r(6)] by (simp add: unlinked_def)
  then have u: "unlinked winv t0 (pool1, c1, w1)"
    using r(2,5) by (simp add: linked_def unlinked_def mc_inv_def timer_within_def)
  obtain pool' c' w' where "ensure_all env as (pool1, c1, w1) = Inr (replicate (length as) False, pool', c', w')"
    "mc_open c' = rev (map at_socket as) @ mc_open c1" "\<not> mc_connected c'" "as \<noteq> [] \<longrightarrow> mc_socket c' = at_socket (last as)"
    "as = [] \<longrightarrow> c' = c1"
    using Cons.IH [OF u] Cons.prems(2,3,4) r(7,8) by (cases "as") (auto simp: r(2))
  with r show ?case by auto
qed

theorem silent_server_leaks_witness:
  "\<exists>st. ensure_all plain_env [demo_attempt 5 [], demo_attempt 6 []] (zero_pool, demo_client, ()) =
      Inr ([False, False], st) \<and> mc_open (fst (snd st)) = [6, 5] \<and> mc_socket (fst (snd st)) = 6"
proof -
  have "\<forall>a \<in> set [demo_attempt 5 [], demo_attempt 6 []]. attempt_opens a \<and> at_passes a = []"
    by (simp add: attempt_opens_def demo_attempt_def)
  moreover have "SendFailed \<notin> set (mc_sends demo_client)" by (simp add: demo_client_fields)
  ultimately show ?thesis
    using silent_server_leaks [OF plain.client_env_axioms demo_unlinked _ wf_demo_initialize,
        of "[demo_attempt 5 [], demo_attempt 6 []]"]
    by (auto simp: demo_attempt_def demo_client_fields)
qed

section \<open>The inactivity timer\<close>

text \<open>
  C40: when the timer fires while a network is joined, the worker locks the timer's mutex a second
  time: \<open>CheckTimeout\<close> holds it while \<open>TimeoutConnection\<close> runs, and \<open>DisconnectInternal\<close> calls
  \<open>RefreshTimeout\<close>. With no network joined the same timeout closes the connection.
\<close>

theorem timeout_in_network_deadlocks:
  assumes "mc_timeout c = Some t" and "expired now t" and "\<not> nt_locked t" and "\<not> mc_stop c"
  shows "(mc_networkConnected c \<longrightarrow> WorkerLoop_pass env (PollTimedOut, now) (pool, c, w) = Inl SelfDeadlock)
    \<and> (\<not> mc_networkConnected c \<longrightarrow>
        (\<exists>c'. WorkerLoop_pass env (PollTimedOut, now) (pool, c, w) = Inr (pool, c', w)
          \<and> \<not> mc_connected c' \<and> mc_socket c' < 0
          \<and> mc_open c' = (if 0 \<le> mc_socket c then remove1 (mc_socket c) (mc_open c) else mc_open c)
          \<and> mc_timeout c' = Some (t\<lparr>nt_lastRefreshTime := now\<rparr>)))"
  using assms
  by (auto simp: WorkerLoop_pass_def check_timeout_def CheckTimeout_eq TimeoutConnection_def mc_Disconnect_def
      DisconnectInternal_def refresh_def close_fd_def Let_def notify_def split: option.split)

theorem timeout_in_network_deadlocks_witness:
  "let c = demo_linked\<lparr>mc_timeout := Some (NetworkTimeout_new InactiveTimeout)\<rparr> in
   WorkerLoop_pass plain_env (PollTimedOut, 6000) (zero_pool, c\<lparr>mc_networkConnected := True\<rparr>, ()) = Inl SelfDeadlock
   \<and> (\<exists>c'. WorkerLoop_pass plain_env (PollTimedOut, 6000) (zero_pool, c, ()) = Inr (zero_pool, c', ())
        \<and> mc_open c' = [])"
proof -
  let ?t = "NetworkTimeout_new InactiveTimeout"
  let ?c = "demo_linked\<lparr>mc_timeout := Some ?t\<rparr>"
  have t: "expired 6000 ?t" "\<not> nt_locked ?t"
    by (simp_all add: expired_def NetworkTimeout_new_def InactiveTimeout_def)
  have c: "\<not> mc_stop ?c" "\<not> mc_networkConnected ?c" "mc_socket ?c = 3" "mc_open ?c = [3]"
    by (simp_all add: demo_linked_def demo_client_fields)
  show ?thesis
    using timeout_in_network_deadlocks [of "?c\<lparr>mc_networkConnected := True\<rparr>" ?t 6000 plain_env zero_pool "()"]
      timeout_in_network_deadlocks [of ?c ?t 6000 plain_env zero_pool "()"] t c
    by (auto simp: Let_def)
qed

section \<open>Hosting\<close>

definition usable_port :: "'w Env \<Rightarrow> nat \<Rightarrow> bool" where
  "usable_port env i \<longleftrightarrow>
     env_serverStart env (PrivatePortBase + of_nat i) \<and> env_serverNatPunch env (PrivatePortBase + of_nat i) \<noteq> 0"

lemma ConfigureAccessPoint_ports_spec:
  assumes "\<forall>i \<in> set is. env_serverNew env (PrivatePortBase + of_nat i)" and "is \<noteq> []"
  shows "ConfigureAccessPoint_ports env is config c =
    (case filter (usable_port env) is of
       [] \<Rightarrow> (config\<lparr>rnc_externalProxyPort := 0, rnc_internalProxyPort := 0\<rparr>, c\<lparr>mc_hostedProxy := None\<rparr>)
     | i # _ \<Rightarrow>
         let port = PrivatePortBase + of_nat i in
         (config\<lparr>rnc_externalProxyPort := env_serverNatPunch env port, rnc_internalProxyPort := port,
                 rnc_addressFamily := 2\<rparr>,
          c\<lparr>mc_hostedProxy := Some port, mc_servers := port # mc_servers c\<rparr>))"
  using assms
proof (induction "is" arbitrary: c)
  case Nil
  from Nil(2) show ?case by (rule notE) (rule refl)
next
  case (Cons i "is")
  let ?port = "PrivatePortBase + of_nat i"
  have n: "env_serverNew env ?port" using Cons.prems(1) by simp
  have d: "delete_hosted (c\<lparr>mc_hostedProxy := Some ?port, mc_servers := ?port # mc_servers c\<rparr>) =
      c\<lparr>mc_hostedProxy := None\<rparr>" by (simp add: delete_hosted_def)
  have r: "ConfigureAccessPoint_ports env is config (c\<lparr>mc_hostedProxy := None\<rparr>) =
    (case filter (usable_port env) is of
       [] \<Rightarrow> (config\<lparr>rnc_externalProxyPort := 0, rnc_internalProxyPort := 0\<rparr>, c\<lparr>mc_hostedProxy := None\<rparr>)
     | i # _ \<Rightarrow>
         let port = PrivatePortBase + of_nat i in
         (config\<lparr>rnc_externalProxyPort := env_serverNatPunch env port, rnc_internalProxyPort := port,
                 rnc_addressFamily := 2\<rparr>,
          c\<lparr>mc_hostedProxy := Some port, mc_servers := port # mc_servers c\<rparr>))"
    using Cons.IH [of "c\<lparr>mc_hostedProxy := None\<rparr>"] Cons.prems(1)
    by (cases "is = []") (auto simp: Let_def split: list.splits)
  show ?case
  proof (cases "usable_port env i")
    case True
    then show ?thesis using n by (simp add: Let_def usable_port_def)
  next
    case False
    then have "ConfigureAccessPoint_ports env (i # is) config c =
        ConfigureAccessPoint_ports env is config (c\<lparr>mc_hostedProxy := None\<rparr>)"
      using n d by (auto simp: Let_def usable_port_def)
    with False r show ?thesis by simp
  qed
qed

text \<open>
  With P2P enabled, \<open>ConfigureAccessPoint\<close> hosts on the first of the ten ports where a server starts
  and the NAT punch succeeds, and announces that port; if there is none it announces the relay. It never
  stops a server hosted before: \<open>_hostedProxy\<close> is overwritten, and the old server goes on running with
  nobody left to stop it.
\<close>

theorem ConfigureAccessPoint_first_port:
  assumes "mc_useP2pProxy c" and "\<forall>i < 10. env_serverNew env (PrivatePortBase + of_nat i)"
  shows "let (config', c') = ConfigureAccessPoint env config c in
    (case filter (usable_port env) [0..<10] of
       [] \<Rightarrow> rnc_externalProxyPort config' = 0 \<and> rnc_internalProxyPort config' = 0
             \<and> mc_hostedProxy c' = None \<and> mc_servers c' = mc_servers c
     | i # _ \<Rightarrow>
         let port = PrivatePortBase + of_nat i in
         rnc_externalProxyPort config' = env_serverNatPunch env port \<and> rnc_internalProxyPort config' = port
         \<and> mc_hostedProxy c' = Some port \<and> mc_servers c' = port # mc_servers c)"
  using assms ConfigureAccessPoint_ports_spec [of "[0..<PrivatePortRange]" env config c]
  by (auto simp: ConfigureAccessPoint_def PrivatePortRange_def Let_def split: list.splits)

theorem ConfigureAccessPoint_first_port_witness:
  "let env = plain_env\<lparr>env_serverStart := (\<lambda>p. p \<noteq> 39990), env_serverNatPunch := (\<lambda>_. 40000)\<rparr>;
       c = snd (ConfigureAccessPoint env (get_RyuNetworkConfig (replicate 40 0))
             (demo_client\<lparr>mc_hostedProxy := Some 39995, mc_servers := [39995]\<rparr>)) in
   mc_hostedProxy c = Some 39991 \<and> mc_servers c = [39991, 39995]"
proof -
  let ?env = "plain_env\<lparr>env_serverStart := (\<lambda>p. p \<noteq> 39990), env_serverNatPunch := (\<lambda>_. 40000)\<rparr>"
  let ?c = "demo_client\<lparr>mc_hostedProxy := Some 39995, mc_servers := [39995]\<rparr>"
  have "mc_useP2pProxy ?c" by (simp add: demo_client_def LdnMasterProxyClient_new_def)
  moreover have "\<forall>i < 10. env_serverNew ?env (PrivatePortBase + of_nat i)" by (simp add: plain_env_def)
  moreover have "[0..<10] = 0 # 1 # [2..<10]" by (simp add: upt_rec)
  then have "filter (usable_port ?env) [0..<10] = 1 # filter (usable_port ?env) [2..<10]"
    by (simp add: usable_port_def PrivatePortBase_def)
  ultimately show ?thesis
    using ConfigureAccessPoint_first_port [of ?c ?env "get_RyuNetworkConfig (replicate 40 0)"]
    by (auto simp: Let_def PrivatePortBase_def split: prod.splits)
qed

end
