(* ===== verification/Master_Machine.thy ===== *)
theory Master_Machine
  imports Master_Properties
begin

text \<open>
  Invariants of the master client under arbitrary input: whatever bytes the server sends, and whatever
  the operating system answers, an operation that returns leaves the client's invariant and the
  invariant of its owner intact. The locale \<open>client_keeps\<close> is what is asked of the callbacks.
\<close>

section \<open>Reading arbitrary bytes\<close>

fun flow_world :: "'w read_state flow \<Rightarrow> 'w" where
  "flow_world (Fall (index, s, pool, w)) = w"
| "flow_world (Continue (index, s, pool, w)) = w"
| "flow_world (Return (index, s, pool, w)) = w"

definition preserves :: "('w \<Rightarrow> bool) \<Rightarrow> 'w callbacks \<Rightarrow> bool" where
  "preserves R cb \<longleftrightarrow> (\<forall>ev p w p' w'. R w \<longrightarrow> cb ev (p, w) = Inr (p', w') \<longrightarrow> R w')"

lemma call_preserves:
  "preserves R cb \<Longrightarrow> R w \<Longrightarrow> call reg cb h d (p, w) = Inr (p', w') \<Longrightarrow> R w'"
  by (auto simp: preserves_def call_def bind_run_Inr_iff split: option.splits)

lemma Read_phase1_world: "Read_phase1 data offset sz (i, s, p, w) = Inr fl \<Longrightarrow> flow_world fl = w"
  by (auto simp: Read_phase1_def Let_def bind_run_Inr_iff split: if_splits)

lemma Read_phase2_preserves:
  assumes "preserves R cb" and "R w" and "Read_phase2 reg cb sz (i, s, p, w) = Inr fl"
  shows "R (flow_world fl)"
proof (cases "HeaderSize \<le> rp_headerBytesReceived s \<and> \<not> rp_inPacket s")
  case True
  note c = call_preserves [OF assms(1,2)]
  show ?thesis
    using assms(2,3) True
    by (auto simp: Read_phase2_def Let_def split_beta bind_run_Inr_iff dest: c split: if_splits option.splits)
qed (use assms in \<open>auto simp: Read_phase2_def\<close>)

lemma Read_phase3_preserves:
  assumes "preserves R cb" and "R w" and "Read_phase3 reg cb data offset sz (i, s, p, w) = Inr fl"
  shows "R (flow_world fl)"
proof (cases "rp_inPacket s \<and> rp_currentBuffer s \<noteq> None")
  case True
  then obtain b where b: "rp_inPacket s" "rp_currentBuffer s = Some b" by auto
  note c = call_preserves [OF assms(1,2)]
  from assms(2,3) b show ?thesis
    by (auto simp: Read_phase3_def Let_def bind_run_Inr_iff dest: c simp del: int_nat_eq split: if_splits)
next
  case False
  with assms(2,3) show ?thesis
    by (cases "rp_inPacket s"; cases "rp_currentBuffer s") (auto simp: Read_phase3_def)
qed

lemma Read_body_preserves:
  assumes "preserves R cb" and "R w" and "Read_body reg cb data offset sz (i, s, p, w) = Inr fl"
  shows "R (flow_world fl)"
proof -
  obtain f1 where f1: "Read_phase1 data offset sz (i, s, p, w) = Inr f1"
    using assms(3) by (auto simp: Read_body_def then_phase_def bind_run_Inr_iff)
  have w1: "R (flow_world f1)" using Read_phase1_world [OF f1] assms(2) by simp
  obtain f2 where f2: "then_phase (Inr f1) (Read_phase2 reg cb sz) = Inr f2"
    and f3: "then_phase (Inr f2) (Read_phase3 reg cb data offset sz) = Inr fl"
    using assms(3) f1 by (auto simp: Read_body_def then_phase_def bind_run_Inr_iff)
  have w2: "R (flow_world f2)"
    using f2 w1 Read_phase2_preserves [OF assms(1)] by (cases f1) (auto simp: then_phase_def)
  show ?thesis
    using f3 w2 Read_phase3_preserves [OF assms(1)] by (cases f2) (auto simp: then_phase_def)
qed

lemma Read_loop_preserves:
  assumes "preserves R cb"
  shows "R w \<Longrightarrow> Read_loop fuel reg cb data offset sz (i, s, p, w) = Inr (s', p', w') \<Longrightarrow> R w'"
proof (induction fuel arbitrary: i s p w)
  case 0
  then show ?case by (auto split: if_splits)
next
  case (Suc fuel)
  show ?case
  proof (cases "i < sz")
    case False
    with Suc.prems show ?thesis by simp
  next
    case True
    with Suc.prems(2) obtain fl where fl: "Read_body reg cb data offset sz (i, s, p, w) = Inr fl"
      and r: "(case fl of Return (i, res) \<Rightarrow> Inr res | Continue st \<Rightarrow> Read_loop fuel reg cb data offset sz st
              | Fall st \<Rightarrow> Read_loop fuel reg cb data offset sz st) = Inr (s', p', w')"
      by (auto simp: bind_run_Inr_iff)
    have w: "R (flow_world fl)" by (rule Read_body_preserves [OF assms Suc.prems(1) fl])
    show ?thesis
    proof (cases fl)
      case (Fall st)
      obtain i1 s1 p1 w1 where st: "st = (i1, s1, p1, w1)" by (cases st) auto
      show ?thesis by (rule Suc.IH [of w1 i1 s1 p1]) (use Fall st r w in simp_all)
    next
      case (Continue st)
      obtain i1 s1 p1 w1 where st: "st = (i1, s1, p1, w1)" by (cases st) auto
      show ?thesis by (rule Suc.IH [of w1 i1 s1 p1]) (use Continue st r w in simp_all)
    next
      case (Return st)
      then show ?thesis using r w by (cases st) auto
    qed
  qed
qed

lemma Read_preserves:
  "preserves R cb \<Longrightarrow> R w \<Longrightarrow> Read reg cb data offset sz (s, p, w) = Inr (s', p', w') \<Longrightarrow> R w'"
  unfolding Read_def by (rule Read_loop_preserves)

section \<open>The contract of the owner\<close>

locale client_keeps =
  fixes env :: "'w Env" and Q :: "'w \<Rightarrow> bool"
  assumes keep_change: "env_networkChange env = Some f \<Longrightarrow> Q w \<Longrightarrow> Q (f c i b r w)"
    and keep_config: "env_proxyConfig env = Some g \<Longrightarrow> Q w \<Longrightarrow> Q (g h cfg w)"
    and keep_data: "env_proxyData env = Some d \<Longrightarrow> Q w \<Longrightarrow> Q (d h hdr sp w)"
    and keep_other: "env_other env ev (p, c, w) = Some (Inr (p', c', w')) \<Longrightarrow> Q w \<Longrightarrow> Q w' \<and> same_link c c'"
begin

definition keeps :: "'w mcw \<Rightarrow> bool" where
  "keeps = (\<lambda>(c, w). mc_inv c \<and> Q w)"

lemma keeps_notify: "keeps (c, w) \<Longrightarrow> keeps (notify env i b r (c, w))"
  by (auto simp: keeps_def notify_def keep_change split: option.split)

lemma unlocked: "keeps (c, w) \<Longrightarrow> \<forall>t. mc_timeout c = Some t \<longrightarrow> \<not> nt_locked t"
  by (simp add: keeps_def mc_inv_def)

lemma keeps_DisconnectInternal: "keeps (c, w) \<Longrightarrow> DisconnectInternal env (c, w) = Inr cw \<Longrightarrow> keeps cw"
proof -
  assume k: "keeps (c, w)" and d: "DisconnectInternal env (c, w) = Inr cw"
  have cw: "cw = disconnect_effect env (c, w)" using d DisconnectInternal_effect [OF unlocked [OF k], of env w] by simp
  have "mc_inv (fst cw)"
    using same_link_inv [OF disconnect_effect_link [of c env w]] k cw by (simp add: keeps_def)
  moreover have "Q (snd cw)"
    using k unfolding cw by (auto simp: disconnect_effect_def keeps_def Let_def notify_def keep_change split: option.split)
  ultimately show ?thesis by (simp add: keeps_def split_beta)
qed

lemma keeps_SendPacket: "keeps (c, w) \<Longrightarrow> keeps (snd (SendPacket d c), w)"
  by (simp add: keeps_def mc_inv_def)

lemma keeps_encode_send:
  "keeps (c, w) \<Longrightarrow> encode_send e b (p, c, w) = Inr (r, p', cw) \<Longrightarrow> keeps cw"
  using keeps_SendPacket [of c w]
  by (auto simp: encode_send_def bind_run_Inr_iff Let_def split_beta)

lemma keeps_scoped:
  assumes "scoped body (p, cw) = Inr (r, p', cw')" and "keeps cw"
    and "\<And>b p r p' cw'. body b (p, cw) = Inr (r, p', cw') \<Longrightarrow> keeps cw'"
  shows "keeps cw'"
  using assms by (auto simp: scoped_def bind_run_Inr_iff split: prod.splits option.splits)

lemma keeps_send_scoped: "keeps (c, w) \<Longrightarrow> send_scoped e (p, c, w) = Inr (r, p', cw) \<Longrightarrow> keeps cw"
proof -
  assume k: "keeps (c, w)" and s: "send_scoped e (p, c, w) = Inr (r, p', cw)"
  obtain x where x: "scoped (encode_send e) (p, c, w) = Inr (x, p', cw)"
    using s by (auto simp: send_scoped_def bind_run_Inr_iff)
  show ?thesis by (rule keeps_scoped [OF x k]) (rule keeps_encode_send [OF k])
qed

lemma keeps_mc_callbacks: "keeps cw \<Longrightarrow> mc_callbacks env ev (p, cw) = Inr (p', cw') \<Longrightarrow> keeps cw'"
proof -
  assume k: "keeps cw" and m: "mc_callbacks env ev (p, cw) = Inr (p', cw')"
  obtain c w where cw: "cw = (c, w)" by force
  show ?thesis
  proof (cases ev)
    case (onPing h png)
    then show ?thesis using m k cw keeps_send_scoped [of c w]
      by (auto simp: mc_callbacks_def HandlePing_def bind_run_Inr_iff split: if_splits)
  next
    case (onDisconnected h msg)
    have "keeps (c\<lparr>mc_disconnectIp := dis_disconnectIp msg\<rparr>, w)" using k cw by (simp add: keeps_def mc_inv_def)
    then show ?thesis using m cw onDisconnected keeps_DisconnectInternal
      by (auto simp: mc_callbacks_def HandleDisconnected_def bind_run_Inr_iff)
  next
    case (onConnected h i)
    have "keeps (signal (ev_apConnected_update (\<lambda>_. True))
          (c\<lparr>mc_networkConnected := True, mc_disconnectReason := DisconnectReason_None,
             mc_disconnectIp := 0, mc_lastNetworkInfo := i\<rparr>), w)"
      using k cw by (simp add: keeps_def mc_inv_def signal_def)
    then show ?thesis using m cw onConnected keeps_notify by (auto simp: mc_callbacks_def HandleConnected_def)
  next
    case (onSyncNetwork h i)
    have "keeps (c\<lparr>mc_lastNetworkInfo := i\<rparr>, w)" using k cw by (simp add: keeps_def mc_inv_def)
    then show ?thesis using m cw onSyncNetwork keeps_notify by (auto simp: mc_callbacks_def HandleSyncNetwork_def)
  qed (use m k cw in \<open>auto simp: mc_handler_defs keeps_def mc_inv_def keep_config keep_data split: option.splits if_splits\<close>)
qed

lemma preserves_protocol: "preserves keeps (protocol_callbacks env)"
proof -
  have "keeps cw'" if "keeps cw" "protocol_callbacks env ev (p, cw) = Inr (p', cw')" for ev p cw p' cw'
  proof (cases "env_other env ev (p, cw)")
    case None
    then show ?thesis using that keeps_mc_callbacks by (simp add: protocol_callbacks_def)
  next
    case (Some r)
    then have "env_other env ev (p, fst cw, snd cw) = Some (Inr (p', fst cw', snd cw'))"
      using that(2) by (simp add: protocol_callbacks_def)
    from keep_other [OF this] that(1) show ?thesis
      by (auto simp: keeps_def split_beta intro: same_link_inv)
  qed
  then show ?thesis unfolding preserves_def by blast
qed

lemma keeps_ReceiveData: "keeps (c, w) \<Longrightarrow> ReceiveData env r (p, c, w) = Inr (n, p', cw) \<Longrightarrow> keeps cw"
  using Read_preserves [OF preserves_protocol, of "(c, w)"]
  by (fastforce simp: ReceiveData_def Let_def bind_run_Inr_iff keeps_def mc_inv_def
      split: if_splits recv_result.splits)

lemma keeps_Disconnect: "keeps (c, w) \<Longrightarrow> mc_Disconnect env (c, w) = Inr cw \<Longrightarrow> keeps cw"
proof -
  assume k: "keeps (c, w)" and d: "mc_Disconnect env (c, w) = Inr cw"
  let ?c = "(if 0 \<le> mc_socket c then (close_fd (mc_socket c) c)\<lparr>mc_socket := -1\<rparr> else c)\<lparr>mc_connected := False\<rparr>"
  have "keeps (?c, w)" using k by (simp add: keeps_def mc_inv_def close_fd_def)
  then show ?thesis by (rule keeps_DisconnectInternal) (use d in \<open>simp add: mc_Disconnect_def Let_def\<close>)
qed

lemma mc_Disconnect_socket: "mc_Disconnect env (c, w) = Inr (c', w') \<Longrightarrow> keeps (c, w) \<Longrightarrow> mc_socket c' < 0"
proof -
  assume d: "mc_Disconnect env (c, w) = Inr (c', w')" and k: "keeps (c, w)"
  let ?c = "(if 0 \<le> mc_socket c then (close_fd (mc_socket c) c)\<lparr>mc_socket := -1\<rparr> else c)\<lparr>mc_connected := False\<rparr>"
  have "keeps (?c, w)" using k by (simp add: keeps_def mc_inv_def close_fd_def)
  then have "(c', w') = disconnect_effect env (?c, w)"
    using d DisconnectInternal_effect [OF unlocked, of ?c w env w] by (simp add: mc_Disconnect_def Let_def)
  then have "same_link ?c c'" using disconnect_effect_link [of ?c env w] by (metis fst_conv)
  then show ?thesis by (simp add: same_link_def)
qed

lemma keeps_check_timeout: "keeps (c, w) \<Longrightarrow> check_timeout env (c, w) = Inr cw \<Longrightarrow> keeps cw"
proof -
  assume k: "keeps (c, w)" and r: "check_timeout env (c, w) = Inr cw"
  show ?thesis
  proof (cases "mc_timeout c")
    case None
    then show ?thesis using k r by (simp add: check_timeout_def)
  next
    case (Some t)
    have u: "\<not> nt_locked t" using unlocked [OF k] Some by simp
    show ?thesis
    proof (cases "expired (mc_now c) t")
      case False
      then show ?thesis using k r Some u by (auto simp: check_timeout_def CheckTimeout_eq keeps_def mc_inv_def)
    next
      case True
      let ?c = "c\<lparr>mc_timeout := Some (t\<lparr>nt_locked := True\<rparr>), mc_connected := False\<rparr>"
      let ?d = "(if 0 \<le> mc_socket ?c then (close_fd (mc_socket ?c) ?c)\<lparr>mc_socket := -1\<rparr> else ?c)\<lparr>mc_connected := False\<rparr>"
      show ?thesis
      proof (cases "mc_networkConnected c")
        case True
        then have "check_timeout env (c, w) = Inl SelfDeadlock"
          using Some u \<open>expired (mc_now c) t\<close>
          by (auto simp: check_timeout_def CheckTimeout_eq TimeoutConnection_def mc_Disconnect_def
              DisconnectInternal_def refresh_def close_fd_def Let_def notify_def split: option.split)
        then show ?thesis using r by simp
      next
        case False
        then have "cw = (?d\<lparr>mc_timeout := Some (t\<lparr>nt_lastRefreshTime := mc_now c, nt_locked := False\<rparr>)\<rparr>, w)"
          using r Some u \<open>expired (mc_now c) t\<close>
          by (auto simp: check_timeout_def CheckTimeout_eq TimeoutConnection_def mc_Disconnect_def
              DisconnectInternal_def close_fd_def Let_def split: if_splits)
        then show ?thesis using k by (simp add: keeps_def mc_inv_def close_fd_def)
      qed
    qed
  qed
qed

lemma keeps_WorkerLoop_pass: "keeps cw \<Longrightarrow> WorkerLoop_pass env ps (p, cw) = Inr (p', cw') \<Longrightarrow> keeps cw'"
proof -
  assume k: "keeps cw" and r: "WorkerLoop_pass env ps (p, cw) = Inr (p', cw')"
  obtain c w where cw: "cw = (c, w)" by force
  obtain answer now where ps: "ps = (answer, now)" by force
  let ?c = "c\<lparr>mc_now := now\<rparr>"
  have k1: "keeps (?c, w)" using k cw by (simp add: keeps_def mc_inv_def)
  have ds: "keeps cw2" if "keeps cw1" "disconnect_and_signal env (p1, cw1) = Inr (p2, cw2)" for p1 cw1 p2 cw2
    using that keeps_Disconnect [of "fst cw1" "snd cw1"]
    by (auto simp: disconnect_and_signal_def bind_run_Inr_iff keeps_def mc_inv_def signal_def)
  show ?thesis
  proof (cases "mc_stop c")
    case True
    then show ?thesis using k r cw ps by (simp add: WorkerLoop_pass_def)
  next
    case False
    then obtain p1 cw1 where s1: "(if mc_connected ?c \<and> 0 \<le> mc_socket ?c then
            case answer of
              Readable r \<Rightarrow>
                bind_run (ReceiveData env r (p, ?c, w)) (\<lambda>(n, st).
                  if n < 0 then disconnect_and_signal env st else Inr st)
            | PollFailed \<Rightarrow> disconnect_and_signal env (p, ?c, w)
            | _ \<Rightarrow> Inr (p, ?c, w)
          else Inr (p, ?c, w)) = Inr (p1, cw1)" and s2: "check_timeout env cw1 = Inr cw'"
      using r cw ps by (auto simp: WorkerLoop_pass_def Let_def bind_run_Inr_iff)
    have "keeps cw1"
    proof (cases "mc_connected ?c \<and> 0 \<le> mc_socket ?c")
      case True
      show ?thesis
      proof (cases answer)
        case (Readable x)
        then obtain n p2 cw2 where rd: "ReceiveData env x (p, ?c, w) = Inr (n, p2, cw2)"
          and "(if n < 0 then disconnect_and_signal env (p2, cw2) else Inr (p2, cw2)) = Inr (p1, cw1)"
          using s1 True by (auto simp: bind_run_Inr_iff)
        then show ?thesis using keeps_ReceiveData [OF k1 rd] ds by (auto split: if_splits)
      qed (use s1 True k1 ds in auto)
    qed (use s1 k1 in auto)
    then show ?thesis using keeps_check_timeout [of "fst cw1" "snd cw1"] s2 by simp
  qed
qed

lemma keeps_WorkerLoop: "keeps cw \<Longrightarrow> WorkerLoop env ps (p, cw) = Inr (p', cw') \<Longrightarrow> keeps cw'"
proof (induction ps arbitrary: p cw)
  case (Cons x xs)
  then obtain p1 cw1 where "WorkerLoop_pass env x (p, cw) = Inr (p1, cw1)" "WorkerLoop env xs (p1, cw1) = Inr (p', cw')"
    by (auto simp: bind_run_Inr_iff)
  then show ?case using Cons keeps_WorkerLoop_pass by blast
qed simp

lemma keeps_TimedWait: "keeps cw \<Longrightarrow> TimedWait env ps e f (p, cw) = Inr (r, p', cw') \<Longrightarrow> keeps cw'"
  using keeps_WorkerLoop [of cw ps p]
  by (fastforce simp: TimedWait_def bind_run_Inr_iff keeps_def mc_inv_def signal_def split: if_splits)

lemma keeps_update [simp]:
  "keeps (signal f c, w) = keeps (c, w)" "keeps (c\<lparr>mc_availableGames := g\<rparr>, w) = keeps (c, w)"
  "keeps (c\<lparr>mc_protocol := s\<rparr>, w) = keeps (c, w)" "keeps (c\<lparr>mc_lastNetworkInfo := i\<rparr>, w) = keeps (c, w)"
  "keeps (c\<lparr>mc_hostedProxy := x\<rparr>, w) = keeps (c, w)" "keeps (c\<lparr>mc_servers := y\<rparr>, w) = keeps (c, w)"
  "keeps (c\<lparr>mc_connectedProxy := z\<rparr>, w) = keeps (c, w)" "keeps (c\<lparr>mc_passphrase := pp\<rparr>, w) = keeps (c, w)"
  "keeps (c\<lparr>mc_disconnectReason := r\<rparr>, w) = keeps (c, w)" "keeps (c\<lparr>mc_disconnectIp := ip\<rparr>, w) = keeps (c, w)"
  "keeps (c\<lparr>mc_stop := st\<rparr>, w) = keeps (c, w)" "keeps (c\<lparr>mc_thread := th\<rparr>, w) = keeps (c, w)"
  "keeps (delete_hosted c, w) = keeps (c, w)" "keeps (DisconnectProxy c, w) = keeps (c, w)"
  by (simp_all add: keeps_def mc_inv_def signal_def DisconnectProxy_def)

lemma keeps_unlinked: "keeps (c, w) \<Longrightarrow> keeps (c\<lparr>mc_connected := False\<rparr>, w)"
  by (simp add: keeps_def mc_inv_def)

lemma keeps_timer: "keeps (c, w) \<Longrightarrow> \<forall>t. x = Some t \<longrightarrow> \<not> nt_locked t \<Longrightarrow> keeps (c\<lparr>mc_timeout := x\<rparr>, w)"
  by (simp add: keeps_def mc_inv_def)

lemma keeps_refresh: "keeps (c, w) \<Longrightarrow> refresh c = Inr c' \<Longrightarrow> keeps (c', w)"
  using refresh_unlocked [OF unlocked [of c w]] unlocked [of c w]
  by (auto simp: refreshed_def intro!: keeps_timer split: option.splits if_splits)

lemma keeps_disable: "keeps (c, w) \<Longrightarrow> disable c = Inr c' \<Longrightarrow> keeps (c', w)"
  using unlocked [of c w]
  by (auto simp: disable_def DisableTimeout_def with_lock_def bind_run_Inr_iff intro!: keeps_timer split: option.splits)

lemma keeps_open_connection: "keeps (c, w) \<Longrightarrow> \<not> mc_connected c \<Longrightarrow> keeps (snd (open_connection a c), w)"
  by (simp add: open_connection_def Let_def keeps_def mc_inv_def signal_def abandon_def close_fd_def)

lemma keeps_handshake: "keeps (c, w) \<Longrightarrow> handshake env a b (p, c, w) = Inr (ok, p', cw) \<Longrightarrow> keeps cw"
proof -
  assume k: "keeps (c, w)" and h: "handshake env a b (p, c, w) = Inr (ok, p', cw)"
  obtain sent n p1 c1 w1 where
    e: "encode_send (Encode_struct PacketId_Initialize (put_InitializeMessage (mc_initializeMemory c))) b
          (p, signal (ev_initialize_update (\<lambda>_. False)) c, w) = Inr ((sent, n), p1, c1, w1)"
    and r: "(if sent \<noteq> int n then Inr (False, p1, c1\<lparr>mc_connected := False\<rparr>, w1)
          else
            bind_run (TimedWait env (at_passes a) ev_initialize (ev_initialize_update (\<lambda>_. False)) (p1, c1, w1))
              (\<lambda>(ok, pool, c, w).
                 if ok then Inr (True, pool, c, w) else Inr (False, pool, c\<lparr>mc_connected := False\<rparr>, w))) = Inr (ok, p', cw)"
    using h by (auto simp: handshake_def bind_run_Inr_iff)
  have k1: "keeps (c1, w1)" by (rule keeps_encode_send [OF _ e]) (simp add: k)
  show ?thesis
    using r k1 keeps_TimedWait [OF k1]
    by (auto simp: bind_run_Inr_iff keeps_unlinked split: if_splits)
qed

lemma keeps_EnsureConnected: "keeps (c, w) \<Longrightarrow> EnsureConnected env a (p, c, w) = Inr (ok, p', cw) \<Longrightarrow> keeps cw"
proof -
  assume k: "keeps (c, w)" and r: "EnsureConnected env a (p, c, w) = Inr (ok, p', cw)"
  obtain ok1 c1 where o: "open_connection a c = (ok1, c1)" by force
  show ?thesis
  proof (cases "mc_connected c \<or> \<not> ok1")
    case True
    then show ?thesis using r k o keeps_open_connection [OF k, of a] by (auto simp: EnsureConnected_def split: if_splits)
  next
    case False
    have k1: "keeps (c1, w)" using keeps_open_connection [OF k, of a] False o by simp
    obtain s p1 where s: "Reset (mc_protocol c1) p = (s, p1)" by force
    let ?c = "signal (ev_connected_update (\<lambda>_. True)) (c1\<lparr>mc_protocol := s\<rparr>)"
    obtain x p2 c2 w2 where sc: "scoped (handshake env a) (p1, ?c, w) = Inr (x, p2, c2, w2)"
      and fin: "((case x of None \<Rightarrow> Inr (False, p2, c2\<lparr>mc_connected := False\<rparr>, w2)
           | Some ok \<Rightarrow> Inr (ok, p2, c2, w2)) :: (bool \<times> 'w mcs) run) = Inr (ok, p', cw)"
      using r False o s by (auto simp: EnsureConnected_def Let_def bind_run_Inr_iff)
    have "keeps (c2, w2)"
      by (rule keeps_scoped [OF sc]) (use k1 keeps_handshake [of ?c w] in \<open>auto\<close>)
    then show ?thesis using fin by (auto simp: keeps_unlinked split: option.splits)
  qed
qed

section \<open>The operations\<close>

lemma keeps_ports: "keeps (c, w) \<Longrightarrow> keeps (snd (ConfigureAccessPoint_ports e is cfg c), w)"
  by (induction e "is" cfg c rule: ConfigureAccessPoint_ports.induct) (auto simp: Let_def)

lemma keeps_ConfigureAccessPoint: "keeps (c, w) \<Longrightarrow> ConfigureAccessPoint env cfg c = (cfg', c') \<Longrightarrow> keeps (c', w)"
  using keeps_ports [of c w env "[0..<PrivatePortRange]" cfg] by (auto simp: ConfigureAccessPoint_def split: if_splits)

lemma keeps_request:
  assumes "keeps (c, w)" and "request env ps e f (p, c, w) = Inr (r, p', cw)" and "\<And>cw. keeps cw \<Longrightarrow> keeps (f cw)"
  shows "keeps cw"
proof -
  let ?body = "\<lambda>b (pool, c, w).
          bind_run (encode_send e b (pool, signal (ev_apConnected_update (\<lambda>_. False)) c, w)) (\<lambda>(_, st).
          bind_run (wait_ap env ps st) (\<lambda>(ok, pool, cw).
            if ok then Inr (ResultSuccess, pool, f cw) else Inr (MAKERESULT 0xFD 2, pool, cw)))"
  obtain x where x: "scoped ?body (p, c, w) = Inr (x, p', cw)"
    using assms(2) by (auto simp: request_def bind_run_Inr_iff)
  have "keeps cw2" if b2: "?body b (p1, c, w) = Inr (r2, p2, cw2)" for b p1 r2 p2 cw2
  proof -
    obtain y p3 c3 w3 where e3: "encode_send e b (p1, signal (ev_apConnected_update (\<lambda>_. False)) c, w) = Inr (y, p3, c3, w3)"
      and w3: "bind_run (wait_ap env ps (p3, c3, w3)) (\<lambda>(ok, pool, cw).
            if ok then Inr (ResultSuccess, pool, f cw) else Inr (MAKERESULT 0xFD 2, pool, cw)) = Inr (r2, p2, cw2)"
      using b2 by (auto simp: bind_run_Inr_iff)
    have "keeps (c3, w3)" by (rule keeps_encode_send [OF _ e3]) (simp add: assms(1))
    then show ?thesis
      using w3 keeps_TimedWait [of "(c3, w3)"] assms(3) by (auto simp: wait_ap_def bind_run_Inr_iff split: if_splits)
  qed
  then show ?thesis using keeps_scoped [OF x assms(1)] by blast
qed

lemma keeps_request_id: "keeps (c, w) \<Longrightarrow> request env ps e id (p, c, w) = Inr (r, p', cw) \<Longrightarrow> keeps cw"
  by (rule keeps_request [of c w ps e id p r p' cw]) simp_all

lemma keeps_connecting:
  assumes "keeps (c, w)"
    and "bind_run (disable c) (\<lambda>c. bind_run (EnsureConnected env a (p, c, w)) g) = Inr (r, p', cw)"
    and "\<And>ok p c w. keeps (c, w) \<Longrightarrow> g (ok, p, c, w) = Inr (r, p', cw) \<Longrightarrow> keeps cw"
  shows "keeps cw"
proof -
  obtain c1 ok p2 c2 w2 where "disable c = Inr c1" and e: "EnsureConnected env a (p, c1, w) = Inr (ok, p2, c2, w2)"
    and g: "g (ok, p2, c2, w2) = Inr (r, p', cw)"
    using assms(2) by (auto simp: bind_run_Inr_iff)
  then have "keeps (c2, w2)" using keeps_disable [OF assms(1)] keeps_EnsureConnected by blast
  then show ?thesis by (rule assms(3) [OF _ g])
qed

lemma keeps_Connect: "keeps (c, w) \<Longrightarrow> mc_Connect env a ps req (p, c, w) = Inr (r, p', cw) \<Longrightarrow> keeps cw"
  unfolding mc_Connect_def by (erule keeps_connecting) (auto dest: keeps_request_id split: if_splits)

lemma keeps_ConnectPrivate:
  "keeps (c, w) \<Longrightarrow> mc_ConnectPrivate env a ps req (p, c, w) = Inr (r, p', cw) \<Longrightarrow> keeps cw"
  unfolding mc_ConnectPrivate_def by (erule keeps_connecting) (auto dest: keeps_request_id split: if_splits)

lemma keeps_CreateNetworkPrivate:
  "keeps (c, w) \<Longrightarrow> mc_CreateNetworkPrivate env a ps req d (p, c, w) = Inr (r, p', cw) \<Longrightarrow> keeps cw"
  unfolding mc_CreateNetworkPrivate_def by (erule keeps_connecting) (auto dest: keeps_request_id split: if_splits)

lemma keeps_CreateNetwork:
  assumes "keeps (c, w)" and "mc_CreateNetwork env a ps req d (p, c, w) = Inr (r, p', cw)"
  shows "keeps cw"
proof (rule keeps_connecting [OF assms(1)])
  let ?f = "\<lambda>(c, w). let info = dummyInfo (cap_networkConfig req) d in
               notify env info True DisconnectReason_None (c\<lparr>mc_lastNetworkInfo := info\<rparr>, w)"
  let ?g = "\<lambda>(ok, pool, c, w).
       if \<not> ok then Inr (MAKERESULT 0xFD 1, pool, DisconnectProxy c, w)
       else
         bind_run (DisconnectInternal env (c, w)) (\<lambda>(c, w).
           let config = (cap_ryuNetworkConfig req)\<lparr>rnc_gameVersion := mc_gameVersion c\<rparr>;
               (config, c) = ConfigureAccessPoint env config c;
               mod_req = req\<lparr>cap_ryuNetworkConfig := config\<rparr> in
           request env ps
             (Encode_extra PacketId_CreateAccessPoint (put_CreateAccessPointRequest mod_req) d) ?f (pool, c, w))"
  show "bind_run (disable c) (\<lambda>c. bind_run (EnsureConnected env a (p, c, w)) ?g) = Inr (r, p', cw)"
    using assms(2) by (simp add: mc_CreateNetwork_def)
  have f: "keeps (?f cw)" if "keeps cw" for cw
    using that keeps_notify [of "(fst cw)\<lparr>mc_lastNetworkInfo := i\<rparr>" "snd cw" for i] by (simp add: split_beta Let_def)
  show "keeps cw" if k: "keeps (c1, w1)" and r: "?g (ok, p1, c1, w1) = Inr (r, p', cw)" for ok p1 c1 w1
  proof (cases ok)
    case False
    then show ?thesis using k r by auto
  next
    case True
    then obtain c2 w2 where d2: "DisconnectInternal env (c1, w1) = Inr (c2, w2)"
      and r2: "(let config = (cap_ryuNetworkConfig req)\<lparr>rnc_gameVersion := mc_gameVersion c2\<rparr>;
               (config, c) = ConfigureAccessPoint env config c2;
               mod_req = req\<lparr>cap_ryuNetworkConfig := config\<rparr> in
           request env ps
             (Encode_extra PacketId_CreateAccessPoint (put_CreateAccessPointRequest mod_req) d) ?f (p1, c, w2)) = Inr (r, p', cw)"
      using r by (auto simp: bind_run_Inr_iff)
    obtain cfg c3 where c3: "ConfigureAccessPoint env ((cap_ryuNetworkConfig req)\<lparr>rnc_gameVersion := mc_gameVersion c2\<rparr>) c2 = (cfg, c3)"
      by force
    have "keeps (c2, w2)" by (rule keeps_DisconnectInternal [OF k d2])
    from keeps_ConfigureAccessPoint [OF this c3] have k3: "keeps (c3, w2)" .
    show ?thesis by (rule keeps_request [OF k3 _ f]) (use r2 c3 in \<open>simp_all\<close>)
  qed
qed

lemma keeps_Scan: "keeps (c, w) \<Longrightarrow> mc_Scan env a ps n f (p, c, w) = Inr (r, p', cw) \<Longrightarrow> keeps cw"
proof -
  assume k: "keeps (c, w)" and s: "mc_Scan env a ps n f (p, c, w) = Inr (r, p', cw)"
  obtain c1 ok p2 c2 w2 where c1: "(if \<not> mc_networkConnected c then refresh c else Inr c) = Inr c1"
    and e: "EnsureConnected env a (p, c1\<lparr>mc_availableGames := []\<rparr>, w) = Inr (ok, p2, c2, w2)"
    and g: "(if \<not> ok then Inr ((MAKERESULT 0xFD 1, [], 0), p2, c2, w2)
       else
         bind_run (send_scoped (Encode_struct PacketId_Scan (put_ScanFilter f))
                     (p2, signal (ev_scan_update (\<lambda>_. False)) c2, w2)) (\<lambda>(ok, st).
           if \<not> ok then Inr ((MAKERESULT 0xFD 1, [], 0), st)
           else
             bind_run (TimedWait env ps ev_scan id st) (\<lambda>(ok, pool, c, w).
               if \<not> ok then Inr ((ResultSuccess, [], 0), pool, c, w)
               else
                 let found = min (of_nat (length (mc_availableGames c))) n in
                 Inr ((ResultSuccess, take (unat found) (mc_availableGames c), found), pool, c, w)))) = Inr (r, p', cw)"
    using s by (auto simp: mc_Scan_def bind_run_Inr_iff)
  have "keeps (c1, w)" using c1 k keeps_refresh by (auto split: if_splits)
  then have k2: "keeps (c2, w2)" using keeps_EnsureConnected [OF _ e] by simp
  show ?thesis
  proof (cases ok)
    case False
    then show ?thesis using g k2 by auto
  next
    case True
    then obtain ok3 p3 c3 w3 where ss: "send_scoped (Encode_struct PacketId_Scan (put_ScanFilter f))
                     (p2, signal (ev_scan_update (\<lambda>_. False)) c2, w2) = Inr (ok3, p3, c3, w3)"
      and h: "(if \<not> ok3 then Inr ((MAKERESULT 0xFD 1, [], 0), p3, c3, w3)
           else
             bind_run (TimedWait env ps ev_scan id (p3, c3, w3)) (\<lambda>(ok, pool, c, w).
               if \<not> ok then Inr ((ResultSuccess, [], 0), pool, c, w)
               else
                 let found = min (of_nat (length (mc_availableGames c))) n in
                 Inr ((ResultSuccess, take (unat found) (mc_availableGames c), found), pool, c, w))) = Inr (r, p', cw)"
      using g by (auto simp: bind_run_Inr_iff)
    have k3: "keeps (c3, w3)" by (rule keeps_send_scoped [OF _ ss]) (simp add: k2)
    show ?thesis
      using h k3 keeps_TimedWait [OF k3] by (auto simp: bind_run_Inr_iff Let_def split: if_splits)
  qed
qed

lemma keeps_DisconnectNetwork: "keeps (c, w) \<Longrightarrow> mc_DisconnectNetwork env (p, c, w) = Inr (r, p', cw) \<Longrightarrow> keeps cw"
proof -
  assume k: "keeps (c, w)" and s: "mc_DisconnectNetwork env (p, c, w) = Inr (r, p', cw)"
  let ?c = "c\<lparr>mc_disconnectReason := DisconnectedByUser, mc_disconnectIp := 0\<rparr>"
  let ?body = "\<lambda>b st.
            bind_run (encode_send (Encode_struct PacketId_Disconnect
                         (put_DisconnectMessage \<lparr>dis_disconnectIp = 0\<rparr>)) b st) (\<lambda>(_, pool, cw).
            bind_run (DisconnectInternal env cw) (\<lambda>cw. Inr ((), pool, cw)))"
  show ?thesis
  proof (cases "mc_networkConnected c")
    case False
    then show ?thesis using k s by (auto simp: mc_DisconnectNetwork_def)
  next
    case True
    then obtain x p1 c1 w1 where x: "scoped ?body (p, ?c, w) = Inr (x, p1, c1, w1)"
      and g: "(case x of
              Some _ \<Rightarrow> Inr (ResultSuccess, p1, c1, w1)
            | None \<Rightarrow> bind_run (DisconnectInternal env (c1, w1)) (\<lambda>cw. Inr (ResultSuccess, p1, cw))) = Inr (r, p', cw)"
      using s by (auto simp: mc_DisconnectNetwork_def bind_run_Inr_iff)
    have "keeps cw2" if b2: "?body b (p1, ?c, w) = Inr (r2, p2, cw2)" for b p1 r2 p2 cw2
    proof -
      obtain y p3 c3 w3 where e3: "encode_send (Encode_struct PacketId_Disconnect
                         (put_DisconnectMessage \<lparr>dis_disconnectIp = 0\<rparr>)) b (p1, ?c, w) = Inr (y, p3, c3, w3)"
        and d3: "DisconnectInternal env (c3, w3) = Inr cw2"
        using b2 by (auto simp: bind_run_Inr_iff)
      have "keeps (c3, w3)" by (rule keeps_encode_send [OF _ e3]) (simp add: k)
      then show ?thesis by (rule keeps_DisconnectInternal [OF _ d3])
    qed
    then have "keeps (c1, w1)" using keeps_scoped [OF x] k by simp
    then show ?thesis using g keeps_DisconnectInternal by (auto simp: bind_run_Inr_iff split: option.splits)
  qed
qed

lemma keeps_SetAdvertiseData: "keeps (c, w) \<Longrightarrow> mc_SetAdvertiseData d (p, c, w) = Inr (r, p', cw) \<Longrightarrow> keeps cw"
  by (auto simp: mc_SetAdvertiseData_def bind_run_Inr_iff dest: keeps_send_scoped split: if_splits)

lemma keeps_SetStationAcceptPolicy:
  "keeps (c, w) \<Longrightarrow> mc_SetStationAcceptPolicy d (p, c, w) = Inr (r, p', cw) \<Longrightarrow> keeps cw"
  by (auto simp: mc_SetStationAcceptPolicy_def bind_run_Inr_iff dest: keeps_send_scoped split: if_splits)

lemma keeps_SetPassphrase: "keeps (c, w) \<Longrightarrow> SetPassphrase x (p, c, w) = Inr (p', cw) \<Longrightarrow> keeps cw"
proof -
  assume k: "keeps (c, w)" and s: "SetPassphrase x (p, c, w) = Inr (p', cw)"
  have "keeps (c\<lparr>mc_passphrase := y\<rparr>, w)" for y using k by simp
  note keeps_send_scoped [OF this]
  then show ?thesis using k s
    by (auto simp: SetPassphrase_def UpdatePassphraseIfNeeded_def Let_def bind_run_Inr_iff split: option.splits if_splits)
qed

lemma keeps_Finalize: "keeps (c, w) \<Longrightarrow> mc_Finalize env (c, w) = Inr (r, cw) \<Longrightarrow> keeps cw"
proof -
  assume k: "keeps (c, w)" and s: "mc_Finalize env (c, w) = Inr (r, cw)"
  show ?thesis
  proof (cases "mc_stop c")
    case True
    then show ?thesis using k s by (simp add: mc_Finalize_def)
  next
    case False
    let ?c = "c\<lparr>mc_stop := True\<rparr>"
    obtain c1 w1 c2 where d: "(if 0 \<le> mc_socket ?c then mc_Disconnect env (?c, w) else Inr (?c, w)) = Inr (c1, w1)"
      and di: "disable c1 = Inr c2" and f: "cw = (c2\<lparr>mc_timeout := None, mc_thread := False\<rparr>, w1)"
      using s False by (auto simp: mc_Finalize_def Let_def bind_run_Inr_iff split: if_splits)
    have "keeps (c1, w1)" using d k keeps_Disconnect [of ?c w] by (auto split: if_splits)
    then have "keeps (c2, w1)" by (rule keeps_disable [OF _ di])
    then show ?thesis unfolding f using keeps_timer [of c2 w1 None] by simp
  qed
qed

end

end
