(* ===== verification/Ldn_Config.thy ===== *)
theory Ldn_Config
  imports Ldn_Prelude
begin

text \<open>
  \<open>ryuldnnx_config.cpp\<close> and \<open>ryuldnnx_config.hpp\<close>: the settings, their INI file and the commands of the
  configuration service. A \<open>char\<close> array is a list of characters of its declared length; the C string in it
  ends at the first zero. The file is an optional string. What the file system answers is an argument.
\<close>

section \<open>Characters and C strings\<close>

definition NUL :: char where "NUL = CHR 0x00"
definition newline :: char where "newline = CHR 0x0A"

definition is_ws :: "char \<Rightarrow> bool" where
  "is_ws ch \<longleftrightarrow> ch \<in> {CHR '' '', CHR 0x09, CHR 0x0D, CHR 0x0A}"

definition Trim :: "string \<Rightarrow> string" where
  "Trim str = rev (dropWhile is_ws (rev (dropWhile is_ws str)))"

definition c_str :: "string \<Rightarrow> string" where
  "c_str array = takeWhile (\<lambda>ch. ch \<noteq> NUL) array"

text \<open>\<open>std::strcpy\<close> between arrays: without a zero in the source, or with too little room, it overruns.\<close>

definition strcpy :: "string \<Rightarrow> string \<Rightarrow> string run" where
  "strcpy dst src =
     (if NUL \<notin> set src \<or> length dst \<le> length (c_str src) then Inl BufferOverrun
      else Inr (c_str src @ [NUL] @ drop (Suc (length (c_str src))) dst))"

text \<open>\<open>std::strncpy(dst, src, sizeof(dst) - 1); dst[sizeof(dst) - 1] = '\0'\<close>\<close>

definition strncpy_last :: "string \<Rightarrow> string \<Rightarrow> string" where
  "strncpy_last dst src =
     (let n = length dst - 1; s = take n (c_str src) in s @ replicate (n - length s) NUL @ [NUL])"

definition tolower :: "char \<Rightarrow> char" where
  "tolower ch = (if 65 \<le> (of_char ch :: nat) \<and> (of_char ch :: nat) \<le> 90 then char_of ((of_char ch :: nat) + 32) else ch)"

definition is_digit :: "char \<Rightarrow> bool" where
  "is_digit ch \<longleftrightarrow> 48 \<le> (of_char ch :: nat) \<and> (of_char ch :: nat) \<le> 57"

definition is_space :: "char \<Rightarrow> bool" where
  "is_space ch \<longleftrightarrow> ch = CHR '' '' \<or> 9 \<le> (of_char ch :: nat) \<and> (of_char ch :: nat) \<le> 13"

definition digits_value :: "string \<Rightarrow> nat" where
  "digits_value ds = foldl (\<lambda>n d. 10 * n + (of_char d - 48)) 0 ds"

text \<open>\<open>std::atoi\<close>; a value outside \<open>int\<close> is undefined behaviour and kept as the number written.\<close>

definition atoi :: "string \<Rightarrow> int" where
  "atoi str =
     (case dropWhile is_space str of
        [] \<Rightarrow> 0
      | ch # cs \<Rightarrow>
          if ch = CHR ''-'' then - int (digits_value (takeWhile is_digit cs))
          else if ch = CHR ''+'' then int (digits_value (takeWhile is_digit cs))
          else int (digits_value (takeWhile is_digit (ch # cs))))"

fun to_string :: "nat \<Rightarrow> string" where
  "to_string n = (if n < 10 then [char_of (48 + n)] else to_string (n div 10) @ [char_of (48 + n mod 10)])"

declare to_string.simps [simp del]

section \<open>State\<close>

record LdnConfig =
  cfg_server_ip :: string
  cfg_server_port :: u16
  cfg_passphrase :: string
  cfg_enabled :: bool
  cfg_logging_enabled :: bool
  cfg_logging_level :: u32
  cfg_gLogLevel :: u32
  cfg_file :: "string option"
  cfg_handler :: bool
  cfg_updates :: "string list"

definition LdnConfig_initial :: "u32 \<Rightarrow> string option \<Rightarrow> LdnConfig" where
  "LdnConfig_initial log_level file =
     \<lparr>cfg_server_ip = replicate 16 NUL, cfg_server_port = 30456, cfg_passphrase = replicate 17 NUL,
      cfg_enabled = True, cfg_logging_enabled = False, cfg_logging_level = 1, cfg_gLogLevel = log_level,
      cfg_file = file, cfg_handler = False, cfg_updates = []\<rparr>"

section \<open>Loading\<close>

lemma rest_shorter: "content \<noteq> [] \<Longrightarrow> length (drop 1 (dropWhile P content)) < length content"
  using length_dropWhile_le [of P content] by (cases content) auto

function ini_lines :: "string \<Rightarrow> string list" where
  "ini_lines content =
     (if content = [] then []
      else takeWhile (\<lambda>ch. ch \<noteq> newline) content # ini_lines (drop 1 (dropWhile (\<lambda>ch. ch \<noteq> newline) content)))"
  by pat_completeness auto
termination by (relation "measure length") (use rest_shorter in auto)

declare ini_lines.simps [simp del]

record IniValues =
  ini_custom_host :: string
  ini_custom_port :: int
  ini_log_enabled :: bool
  ini_log_level :: int

definition ini_defaults :: IniValues where
  "ini_defaults = \<lparr>ini_custom_host = [], ini_custom_port = 30456, ini_log_enabled = False, ini_log_level = 3\<rparr>"

definition ini_assign :: "string \<Rightarrow> string \<Rightarrow> IniValues \<Rightarrow> IniValues" where
  "ini_assign key value v =
     (if key = ''custom_host'' then v\<lparr>ini_custom_host := value\<rparr>
      else if key = ''custom_port'' then
        (let port = atoi value in if 0 < port \<and> port \<le> 65535 then v\<lparr>ini_custom_port := port\<rparr> else v)
      else if key = ''logging_enabled'' then v\<lparr>ini_log_enabled := (value = ''true'' \<or> value = ''1'')\<rparr>
      else if key = ''logging_level'' then
        (let lvl = atoi value in if 1 \<le> lvl \<and> lvl \<le> 5 then v\<lparr>ini_log_level := lvl\<rparr> else v)
      else v)"

definition ini_entry :: "string \<Rightarrow> IniValues \<Rightarrow> IniValues" where
  "ini_entry line v =
     (let entry = Trim (takeWhile (\<lambda>ch. ch \<noteq> CHR ''#'' \<and> ch \<noteq> CHR '';'') line) in
      if entry \<noteq> [] \<and> CHR ''='' \<in> set entry then
        let key = Trim (takeWhile (\<lambda>ch. ch \<noteq> CHR ''='') entry);
            value = Trim (drop 1 (dropWhile (\<lambda>ch. ch \<noteq> CHR ''='') entry)) in
        ini_assign (map tolower key) value v
      else v)"

definition parse_ini :: "string \<Rightarrow> IniValues" where
  "parse_ini content = fold ini_entry (ini_lines content) ini_defaults"

text \<open>\<open>read_ok\<close>: whether \<open>ReadFile\<close> fills the string; it stays zeroed otherwise.\<close>

definition LoadConfigFromIni :: "bool \<Rightarrow> LdnConfig \<Rightarrow> LdnConfig" where
  "LoadConfigFromIni read_ok c =
     (case cfg_file c of
        None \<Rightarrow> c
      | Some file \<Rightarrow>
          if file = [] then c
          else
            let v = parse_ini (if read_ok then file else replicate (length file) NUL);
                c = (if ini_custom_host v \<noteq> []
                     then c\<lparr>cfg_server_ip := strncpy_last (cfg_server_ip c) (ini_custom_host v),
                            cfg_server_port := word_of_int (ini_custom_port v)\<rparr>
                     else c) in
            c\<lparr>cfg_logging_enabled := ini_log_enabled v, cfg_logging_level := word_of_int (ini_log_level v),
              cfg_gLogLevel := word_of_int (ini_log_level v)\<rparr>)"

definition LdnConfig_Initialize :: "bool \<Rightarrow> LdnConfig \<Rightarrow> LdnConfig" where
  "LdnConfig_Initialize read_ok c = LoadConfigFromIni read_ok c"

section \<open>Saving\<close>

definition ini_content :: "LdnConfig \<Rightarrow> string" where
  "ini_content c =
     ''custom_host = '' @ (if c_str (cfg_server_ip c) \<noteq> [] then c_str (cfg_server_ip c) else ''0.0.0.0'') @ [newline] @
     ''custom_port = '' @ to_string (if 0 < unat (cfg_server_port c) then unat (cfg_server_port c) else 30456) @ [newline] @
     ''logging_enabled = '' @ (if cfg_logging_enabled c then ''true'' else ''false'') @ [newline] @
     ''logging_level = '' @ to_string (unat (cfg_logging_level c)) @ [newline]"

text \<open>
  Whether \<open>DeleteFile\<close>, \<open>CreateFile\<close>, \<open>OpenFile\<close> and \<open>WriteFile\<close> succeed. A file created and not written
  is zeroed; where the old file could not be deleted the new one cannot be created, and the old one stays.
\<close>

record FsAnswers =
  fs_delete :: bool
  fs_create :: bool
  fs_open :: bool
  fs_write :: bool

definition SaveConfigToIni :: "FsAnswers \<Rightarrow> LdnConfig \<Rightarrow> LdnConfig" where
  "SaveConfigToIni fs c =
     (let content = ini_content c in
      c\<lparr>cfg_file :=
          (if \<not> fs_delete fs \<and> cfg_file c \<noteq> None then cfg_file c
           else if \<not> fs_create fs then None
           else if fs_open fs \<and> fs_write fs then Some content
           else Some (replicate (length content) NUL))\<rparr>)"

section \<open>Commands\<close>

definition VERSION_STRING :: string where "VERSION_STRING = ''v1.0.0''"

definition GetVersion :: "string \<Rightarrow> string run" where
  "GetVersion raw = strcpy raw (VERSION_STRING @ [NUL])"

definition GetLogging :: "LdnConfig \<Rightarrow> u32" where
  "GetLogging c = (if cfg_logging_enabled c then 1 else 0)"

definition SetLogging :: "FsAnswers \<Rightarrow> u32 \<Rightarrow> LdnConfig \<Rightarrow> LdnConfig" where
  "SetLogging fs enabled c = SaveConfigToIni fs (c\<lparr>cfg_logging_enabled := enabled \<noteq> 0\<rparr>)"

definition GetEnabled :: "LdnConfig \<Rightarrow> u32" where
  "GetEnabled c = (if cfg_enabled c then 1 else 0)"

definition SetEnabled :: "u32 \<Rightarrow> LdnConfig \<Rightarrow> LdnConfig" where
  "SetEnabled enabled c = c\<lparr>cfg_enabled := enabled \<noteq> 0\<rparr>"

definition cfg_GetPassphrase :: "string \<Rightarrow> LdnConfig \<Rightarrow> string run" where
  "cfg_GetPassphrase raw c = strcpy raw (cfg_passphrase c)"

text \<open>\<open>cfg_updates\<close> are the calls of \<open>PassphraseUpdateHandler\<close>; \<open>cfg_handler\<close> says whether it is set.\<close>

definition SetPassphraseUpdateHandler :: "LdnConfig \<Rightarrow> LdnConfig" where
  "SetPassphraseUpdateHandler c = c\<lparr>cfg_handler := True\<rparr>"

definition cfg_SetPassphrase :: "string \<Rightarrow> LdnConfig \<Rightarrow> LdnConfig run" where
  "cfg_SetPassphrase raw c =
     bind_run (strcpy (cfg_passphrase c) raw) (\<lambda>p.
       let c = c\<lparr>cfg_passphrase := p\<rparr> in
       Inr (if cfg_handler c then c\<lparr>cfg_updates := cfg_updates c @ [c_str raw]\<rparr> else c))"

definition cfg_GetServerIP :: "string \<Rightarrow> LdnConfig \<Rightarrow> string run" where
  "cfg_GetServerIP raw c = strcpy raw (cfg_server_ip c)"

definition SetServerIP :: "FsAnswers \<Rightarrow> string \<Rightarrow> LdnConfig \<Rightarrow> LdnConfig run" where
  "SetServerIP fs raw c =
     bind_run (strcpy (cfg_server_ip c) raw) (\<lambda>ip. Inr (SaveConfigToIni fs (c\<lparr>cfg_server_ip := ip\<rparr>)))"

definition cfg_GetServerPort :: "LdnConfig \<Rightarrow> u16" where
  "cfg_GetServerPort c = cfg_server_port c"

definition SetServerPort :: "FsAnswers \<Rightarrow> u16 \<Rightarrow> LdnConfig \<Rightarrow> LdnConfig" where
  "SetServerPort fs port c = SaveConfigToIni fs (c\<lparr>cfg_server_port := port\<rparr>)"

definition GetLoggingLevel :: "LdnConfig \<Rightarrow> u32" where
  "GetLoggingLevel c = cfg_logging_level c"

definition SetLoggingLevel :: "FsAnswers \<Rightarrow> u32 \<Rightarrow> LdnConfig \<Rightarrow> LdnConfig" where
  "SetLoggingLevel fs level c =
     (if 1 \<le> level \<and> level \<le> 5
      then SaveConfigToIni fs (c\<lparr>cfg_logging_level := level, cfg_gLogLevel := level\<rparr>) else c)"

section \<open>Accessors\<close>

definition IsLoggingEnabled :: "LdnConfig \<Rightarrow> bool" where
  "IsLoggingEnabled c = cfg_logging_enabled c"

definition GetLoggingLevelValue :: "LdnConfig \<Rightarrow> u32" where
  "GetLoggingLevelValue c = cfg_logging_level c"

definition getPassphraseIncluded :: "LdnConfig \<Rightarrow> bool" where
  "getPassphraseIncluded c \<longleftrightarrow> 0 < length (c_str (cfg_passphrase c))"

definition getPassphraseSize :: "LdnConfig \<Rightarrow> nat" where
  "getPassphraseSize c = length (c_str (cfg_passphrase c))"

definition kDefaultPort :: int where "kDefaultPort = 30456"
definition kDefaultHost :: string where "kDefaultHost = ''ldn.ryujinx.app''"

definition GetServerAddress :: "LdnConfig \<Rightarrow> string" where
  "GetServerAddress c = (if c_str (cfg_server_ip c) \<noteq> [] then c_str (cfg_server_ip c) else kDefaultHost)"

definition GetServerPort :: "LdnConfig \<Rightarrow> int" where
  "GetServerPort c = (if 0 < cfg_server_port c then uint (cfg_server_port c) else kDefaultPort)"

section \<open>Printing and parsing numbers\<close>

lemma of_char_digit: "d < 10 \<Longrightarrow> of_char (char_of (48 + d) :: char) = (48 + d :: nat)"
  by simp

lemma to_string_digits: "\<forall>d \<in> set (to_string n). is_digit d" and to_string_not_Nil: "to_string n \<noteq> []"
proof -
  have "(\<forall>d \<in> set (to_string n). is_digit d) \<and> to_string n \<noteq> []"
  proof (induction n rule: to_string.induct)
    case (1 n)
    show ?case
    proof (cases "n < 10")
      case True
      then show ?thesis by (simp add: to_string.simps [of n] is_digit_def)
    next
      case False
      have "n mod 10 < 10" by simp
      then have "is_digit (char_of (48 + n mod 10))" using of_char_digit [of "n mod 10"] by (simp add: is_digit_def)
      with 1 False show ?thesis by (simp add: to_string.simps [of n])
    qed
  qed
  then show "\<forall>d \<in> set (to_string n). is_digit d" "to_string n \<noteq> []" by simp_all
qed

lemma digits_value_to_string: "digits_value (to_string n) = n"
proof (induction n rule: to_string.induct)
  case (1 n)
  show ?case
  proof (cases "n < 10")
    case True
    then show ?thesis by (simp add: to_string.simps [of n] digits_value_def)
  next
    case False
    have "n mod 10 < 10" by simp
    then have "of_char (char_of (48 + n mod 10) :: char) - 48 = n mod 10"
      using of_char_digit [of "n mod 10"] by simp
    then have "digits_value (to_string n) = 10 * digits_value (to_string (n div 10)) + n mod 10"
      using False by (simp add: to_string.simps [of n] digits_value_def)
    with 1 False show ?thesis by simp
  qed
qed

lemma digit_not_special: "is_digit d \<Longrightarrow> \<not> is_space d \<and> d \<noteq> CHR ''-'' \<and> d \<noteq> CHR ''+''"
  by (auto simp: is_digit_def is_space_def)

lemma to_string_length: "0 < k \<Longrightarrow> length (to_string n) \<le> k \<longleftrightarrow> n < 10 ^ k"
proof (induction k arbitrary: n)
  case (Suc k)
  have s: "length (to_string n) = (if n < 10 then 1 else Suc (length (to_string (n div 10))))"
    by (simp add: to_string.simps [of n])
  show ?case
  proof (cases "k = 0")
    case True
    then show ?thesis using s to_string_not_Nil [of "n div 10"] by (cases "n < 10") simp_all
  next
    case False
    have "n < 10 \<Longrightarrow> n < 10 ^ Suc k" by (rule less_le_trans [of n 10]) simp_all
    moreover have "n div 10 < 10 ^ k \<longleftrightarrow> n < 10 ^ Suc k" by (simp add: div_less_iff_less_mult mult.commute)
    ultimately show ?thesis using Suc.IH [of "n div 10"] False s by auto
  qed
qed simp

lemma atoi_to_string: "atoi (to_string n) = int n"
proof -
  obtain d ds where ds: "to_string n = d # ds" using to_string_not_Nil by (cases "to_string n") auto
  have "\<not> is_space d \<and> d \<noteq> CHR ''-'' \<and> d \<noteq> CHR ''+''"
    using to_string_digits [of n] ds by (intro digit_not_special) simp
  moreover have "takeWhile is_digit (d # ds) = d # ds"
    using to_string_digits [of n] ds by (simp add: takeWhile_eq_all_conv)
  ultimately show ?thesis using digits_value_to_string [of n] ds by (simp add: atoi_def)
qed

section \<open>Lines of the file\<close>

lemma ini_lines_line:
  "newline \<notin> set line \<Longrightarrow> ini_lines (line @ newline # rest) = line # ini_lines rest"
proof -
  assume n: "newline \<notin> set line"
  have "takeWhile (\<lambda>ch. ch \<noteq> newline) (line @ newline # rest) = line"
    using n by (subst takeWhile_append2) auto
  moreover have "dropWhile (\<lambda>ch. ch \<noteq> newline) (line @ newline # rest) = newline # rest"
    using n by (subst dropWhile_append2) auto
  ultimately show ?thesis by (subst ini_lines.simps) simp
qed

lemma ini_lines_Nil [simp]: "ini_lines [] = []"
  by (simp add: ini_lines.simps)

text \<open>A value that survives comments, trimming and splitting.\<close>

definition clean :: "string \<Rightarrow> bool" where
  "clean v \<longleftrightarrow>
     v \<noteq> [] \<and> \<not> is_ws (hd v) \<and> \<not> is_ws (last v)
     \<and> newline \<notin> set v \<and> CHR ''#'' \<notin> set v \<and> CHR '';'' \<notin> set v"

lemma dropWhile_hd: "v \<noteq> [] \<Longrightarrow> \<not> P (hd v) \<Longrightarrow> dropWhile P v = v"
  by (cases v) auto

lemma Trim_clean: "v \<noteq> [] \<Longrightarrow> \<not> is_ws (hd v) \<Longrightarrow> \<not> is_ws (last v) \<Longrightarrow> Trim v = v"
  by (simp add: Trim_def dropWhile_hd hd_rev)

lemma Trim_space_front: "clean v \<Longrightarrow> Trim (CHR '' '' # v) = v"
  using Trim_clean [of v] by (simp add: Trim_def is_ws_def clean_def)

lemma Trim_space_back: "clean v \<Longrightarrow> Trim (v @ '' '') = v"
  by (simp add: Trim_def clean_def dropWhile_hd hd_append hd_rev is_ws_def)

lemma ini_entry_clean:
  assumes "clean key" and "CHR ''='' \<notin> set key" and "map tolower key = key" and "clean val"
  shows "ini_entry (key @ '' = '' @ val) v = ini_assign key val v"
proof -
  let ?line = "key @ '' = '' @ val"
  have e1: "takeWhile (\<lambda>ch. ch \<noteq> CHR ''#'' \<and> ch \<noteq> CHR '';'') ?line = ?line"
    using assms(1,4) by (auto simp: clean_def takeWhile_eq_all_conv)
  have e2: "Trim ?line = ?line" using assms(1,4) by (intro Trim_clean) (auto simp: clean_def hd_append)
  have e3: "takeWhile (\<lambda>ch. ch \<noteq> CHR ''='') ?line = key @ '' ''"
    using assms(2) by (subst takeWhile_append2) auto
  have e4: "dropWhile (\<lambda>ch. ch \<noteq> CHR ''='') ?line = CHR ''='' # CHR '' '' # val"
    using assms(2) by (subst dropWhile_append2) auto
  show ?thesis
    unfolding ini_entry_def Let_def e1 e2 e3 e4
    using assms by (simp add: Trim_space_front Trim_space_back)
qed

lemma clean_digits: "clean (to_string n)"
proof -
  have d: "ch \<in> set (to_string n) \<Longrightarrow> is_digit ch" for ch using to_string_digits by blast
  have "\<not> is_ws ch \<and> ch \<noteq> newline \<and> ch \<noteq> CHR ''#'' \<and> ch \<noteq> CHR '';''" if "is_digit ch" for ch
    using that by (auto simp: is_digit_def is_ws_def newline_def)
  then show ?thesis using d to_string_not_Nil [of n] unfolding clean_def by (metis hd_in_set last_in_set)
qed

lemma clean_keys:
  "clean ''custom_host''" "clean ''custom_port''" "clean ''logging_enabled''" "clean ''logging_level''"
  "clean ''true''" "clean ''false''" "clean ''0.0.0.0''"
  by (simp_all add: clean_def is_ws_def newline_def)

lemma tolower_keys:
  "map tolower ''custom_host'' = ''custom_host''" "map tolower ''custom_port'' = ''custom_port''"
  "map tolower ''logging_enabled'' = ''logging_enabled''" "map tolower ''logging_level'' = ''logging_level''"
  by (simp_all add: tolower_def)

lemma eq_keys:
  "CHR ''='' \<notin> set ''custom_host''" "CHR ''='' \<notin> set ''custom_port''"
  "CHR ''='' \<notin> set ''logging_enabled''" "CHR ''='' \<notin> set ''logging_level''"
  by simp_all

lemma newline_entry: "clean key \<Longrightarrow> clean val \<Longrightarrow> newline \<notin> set (key @ '' = '' @ val)"
  by (auto simp: clean_def newline_def)

text \<open>The text a save writes, read back.\<close>

lemma parse_ini_saved:
  assumes "clean host"
  shows "parse_ini (''custom_host = '' @ host @ [newline] @ ''custom_port = '' @ to_string port @ [newline] @
      ''logging_enabled = '' @ (if log then ''true'' else ''false'') @ [newline] @
      ''logging_level = '' @ to_string level @ [newline]) =
    \<lparr>ini_custom_host = host,
     ini_custom_port = (if 0 < port \<and> port \<le> 65535 then int port else 30456),
     ini_log_enabled = log, ini_log_level = (if 1 \<le> level \<and> level \<le> 5 then int level else 3)\<rparr>"
proof -
  let ?f = "if log then ''true'' else ''false''"
  have f: "clean ?f" by (simp add: clean_keys)
  note e = ini_entry_clean [OF clean_keys(1) eq_keys(1) tolower_keys(1) assms]
    ini_entry_clean [OF clean_keys(2) eq_keys(2) tolower_keys(2) clean_digits [of port]]
    ini_entry_clean [OF clean_keys(3) eq_keys(3) tolower_keys(3) f]
    ini_entry_clean [OF clean_keys(4) eq_keys(4) tolower_keys(4) clean_digits [of level]]
  have "ini_lines (''custom_host = '' @ host @ [newline] @ ''custom_port = '' @ to_string port @ [newline] @
      ''logging_enabled = '' @ ?f @ [newline] @ ''logging_level = '' @ to_string level @ [newline]) =
    [''custom_host'' @ '' = '' @ host, ''custom_port'' @ '' = '' @ to_string port,
     ''logging_enabled'' @ '' = '' @ ?f, ''logging_level'' @ '' = '' @ to_string level]"
    using ini_lines_line [OF newline_entry [OF clean_keys(1) assms]]
      ini_lines_line [OF newline_entry [OF clean_keys(2) clean_digits [of port]]]
      ini_lines_line [OF newline_entry [OF clean_keys(3) f]]
      ini_lines_line [OF newline_entry [OF clean_keys(4) clean_digits [of level]], of "[]"]
    by simp
  then show ?thesis
    unfolding parse_ini_def
    by (simp only: fold_Cons fold_Nil comp_apply e id_apply) (auto simp: ini_assign_def ini_defaults_def atoi_to_string)
qed

section \<open>Properties\<close>

definition fs_ok :: FsAnswers where
  "fs_ok = \<lparr>fs_delete = True, fs_create = True, fs_open = True, fs_write = True\<rparr>"

text \<open>The next start of the system module: static initialisers, then \<open>Initialize\<close> on the file left behind.\<close>

definition restart :: "u32 \<Rightarrow> LdnConfig \<Rightarrow> LdnConfig" where
  "restart g c = LdnConfig_Initialize True (LdnConfig_initial g (cfg_file c))"

lemma c_str_append_NUL: "NUL \<notin> set s \<Longrightarrow> c_str (s @ NUL # rest) = s"
  unfolding c_str_def by (subst takeWhile_append2) auto

lemma c_str_strncpy: "c_str (strncpy_last dst src) = take (length dst - 1) (c_str src)"
proof -
  let ?n = "length dst - 1"
  have n: "NUL \<notin> set (take ?n (c_str src))"
    using set_take_subset [of ?n "c_str src"] by (auto simp: c_str_def dest: set_takeWhileD)
  show ?thesis
    unfolding strncpy_last_def Let_def replicate_append_same by (rule c_str_append_NUL [OF n])
qed

lemma c_str_c_str [simp]: "c_str (c_str s) = c_str s"
  by (simp add: c_str_def takeWhile_idem)

lemma restart_saved:
  fixes c
  defines "host \<equiv> if c_str (cfg_server_ip c) \<noteq> [] then c_str (cfg_server_ip c) else ''0.0.0.0''"
    and "port \<equiv> if 0 < unat (cfg_server_port c) then unat (cfg_server_port c) else 30456"
  assumes "clean host"
  shows "restart g (SaveConfigToIni fs_ok c) =
    (LdnConfig_initial g (Some (ini_content c)))
      \<lparr>cfg_server_ip := strncpy_last (replicate 16 NUL) host, cfg_server_port := of_nat port,
       cfg_logging_enabled := cfg_logging_enabled c,
       cfg_logging_level := (if 1 \<le> unat (cfg_logging_level c) \<and> unat (cfg_logging_level c) \<le> 5 then cfg_logging_level c else 3),
       cfg_gLogLevel := (if 1 \<le> unat (cfg_logging_level c) \<and> unat (cfg_logging_level c) \<le> 5 then cfg_logging_level c else 3)\<rparr>"
proof -
  have p: "0 < port \<and> port \<le> 65535" using unat_bound [of "cfg_server_port c"] by (auto simp: port_def)
  have i: "ini_content c = ''custom_host = '' @ host @ [newline] @ ''custom_port = '' @ to_string port @ [newline] @
      ''logging_enabled = '' @ (if cfg_logging_enabled c then ''true'' else ''false'') @ [newline] @
      ''logging_level = '' @ to_string (unat (cfg_logging_level c)) @ [newline]"
    by (simp add: ini_content_def host_def port_def)
  have ne: "ini_content c \<noteq> []" by (simp add: ini_content_def)
  have h: "host \<noteq> []" using assms(3) by (simp add: clean_def)
  show ?thesis
    using p ne h parse_ini_saved [OF assms(3), of port "cfg_logging_enabled c" "unat (cfg_logging_level c)"] i
    by (simp add: restart_def LdnConfig_Initialize_def LoadConfigFromIni_def SaveConfigToIni_def fs_ok_def
        LdnConfig_initial_def Let_def)
qed

text \<open>
  C35: settings survive a restart. When the server name in memory has no blank at either end, no line
  break and no comment character, the port is set and the level is between 1 and 5, then saving and
  loading at the next start gives the same server name, port, logging switch and level.
\<close>

theorem settings_survive_restart:
  assumes "clean (c_str (cfg_server_ip c))" and "length (cfg_server_ip c) = 16" and "NUL \<in> set (cfg_server_ip c)"
    and "0 < cfg_server_port c" and "1 \<le> cfg_logging_level c" and "cfg_logging_level c \<le> 5"
  shows "let c' = restart g (SaveConfigToIni fs_ok c) in
     c_str (cfg_server_ip c') = c_str (cfg_server_ip c) \<and> cfg_server_port c' = cfg_server_port c
     \<and> cfg_logging_enabled c' = cfg_logging_enabled c \<and> cfg_logging_level c' = cfg_logging_level c
     \<and> GetServerAddress c' = GetServerAddress c \<and> GetServerPort c' = GetServerPort c"
proof -
  let ?h = "c_str (cfg_server_ip c)"
  have ne: "?h \<noteq> []" using assms(1) by (simp add: clean_def)
  have t: "?h = take (length ?h) (cfg_server_ip c)" unfolding c_str_def by (rule takeWhile_eq_take)
  have "NUL \<notin> set ?h" by (auto simp: c_str_def dest: set_takeWhileD)
  then have "?h \<noteq> cfg_server_ip c" using assms(3) by auto
  then have "length ?h < 16" using t assms(2) by (cases "length ?h < 16") simp_all
  then have s: "c_str (strncpy_last (replicate 16 NUL) ?h) = ?h" by (simp add: c_str_strncpy)
  have p: "0 < unat (cfg_server_port c)" using assms(4) by (simp add: word_less_nat_alt)
  have l: "1 \<le> unat (cfg_logging_level c) \<and> unat (cfg_logging_level c) \<le> 5"
    using assms(5,6) by (simp add: word_le_nat_alt)
  show ?thesis
    using restart_saved [of c g] assms(1) ne p l s
    by (simp add: Let_def GetServerAddress_def GetServerPort_def)
qed

definition demo_settings :: LdnConfig where
  "demo_settings =
     (LdnConfig_initial 3 None)\<lparr>cfg_server_ip := ''10.0.0.7'' @ replicate 8 NUL, cfg_server_port := 40000,
        cfg_logging_enabled := True, cfg_logging_level := 4\<rparr>"

lemma demo_settings_host: "c_str (cfg_server_ip demo_settings) = ''10.0.0.7''"
  by (simp add: demo_settings_def c_str_def NUL_def)

theorem settings_survive_restart_witness:
  "let c' = restart 3 (SaveConfigToIni fs_ok demo_settings) in
   GetServerAddress c' = ''10.0.0.7'' \<and> GetServerPort c' = 40000 \<and> cfg_logging_level c' = 4"
proof -
  have "clean (c_str (cfg_server_ip demo_settings))"
    unfolding demo_settings_host by (simp add: clean_def is_ws_def newline_def)
  moreover have "length (cfg_server_ip demo_settings) = 16" "NUL \<in> set (cfg_server_ip demo_settings)"
      "cfg_server_port demo_settings = 40000" "cfg_logging_level demo_settings = 4"
    by (simp_all add: demo_settings_def)
  moreover have "GetServerAddress demo_settings = ''10.0.0.7''" "GetServerPort demo_settings = 40000"
    by (simp add: GetServerAddress_def demo_settings_host) (simp add: GetServerPort_def demo_settings_def)
  ultimately show ?thesis
    using settings_survive_restart [of demo_settings 3] by (simp add: Let_def)
qed

text \<open>
  A save made while no server is configured replaces the default server. Before it the module
  connects to the built-in host; after any save, for instance by switching logging on, and a restart it
  connects to 0.0.0.0.
\<close>

theorem save_replaces_default_server:
  assumes "c_str (cfg_server_ip c) = []"
  shows "GetServerAddress c = kDefaultHost
    \<and> GetServerAddress (restart g (SetLogging fs_ok v c)) = ''0.0.0.0''"
proof -
  have "c_str (strncpy_last (replicate 16 NUL) ''0.0.0.0'') = ''0.0.0.0''"
    by (simp add: c_str_strncpy) (simp add: c_str_def NUL_def)
  then show ?thesis
    using assms restart_saved [of "c\<lparr>cfg_logging_enabled := v \<noteq> 0\<rparr>" g]
    by (simp add: GetServerAddress_def SetLogging_def clean_keys)
qed

theorem save_replaces_default_server_witness:
  "GetServerAddress (LdnConfig_initial 3 None) = ''ldn.ryujinx.app''
   \<and> GetServerAddress (restart 3 (SetLogging fs_ok 1 (LdnConfig_initial 3 None))) = ''0.0.0.0''"
  using save_replaces_default_server [of "LdnConfig_initial 3 None" 3 1]
  by (simp add: LdnConfig_initial_def c_str_def kDefaultHost_def)

text \<open>
  A server name in the file is cut to fifteen characters without notice, and a name or a passphrase
  that a client sends without its terminating zero overruns the array it is copied to.
\<close>

theorem server_name_limits:
  assumes "clean host" and "NUL \<notin> set host" and "0 < port" and "port \<le> 65535"
  shows "(let c = restart g ((LdnConfig_initial g None)\<lparr>cfg_file := Some
            (''custom_host = '' @ host @ [newline] @ ''custom_port = '' @ to_string port @ [newline] @
             ''logging_enabled = '' @ ''true'' @ [newline] @ ''logging_level = '' @ to_string 3 @ [newline])\<rparr>) in
          GetServerAddress c = take 15 host \<and> GetServerPort c = int port)
    \<and> (NUL \<notin> set raw \<longrightarrow> SetServerIP fs raw c = Inl BufferOverrun \<and> cfg_SetPassphrase raw c = Inl BufferOverrun)"
proof -
  have h: "c_str host = host" using assms(2) by (simp add: c_str_def takeWhile_eq_all_conv) metis
  have p: "word_of_int (int port) = (of_nat port :: u16)" "unat (of_nat port :: u16) = port"
    using assms(4) by (simp_all add: unat_of_nat)
  have "0 < (of_nat port :: u16)" using p(2) assms(3) by (simp add: word_less_nat_alt)
  moreover have "uint (of_nat port :: u16) = int port" using p(2) by (metis uint_nat)
  moreover have "take 15 host \<noteq> []" using assms(1) by (simp add: clean_def)
  ultimately have "let c = restart g ((LdnConfig_initial g None)\<lparr>cfg_file := Some
            (''custom_host = '' @ host @ [newline] @ ''custom_port = '' @ to_string port @ [newline] @
             ''logging_enabled = '' @ ''true'' @ [newline] @ ''logging_level = '' @ to_string 3 @ [newline])\<rparr>) in
          GetServerAddress c = take 15 host \<and> GetServerPort c = int port"
    using parse_ini_saved [OF assms(1), of port True 3] assms(1,3,4) h
    by (simp add: restart_def LdnConfig_Initialize_def LoadConfigFromIni_def LdnConfig_initial_def Let_def
        GetServerAddress_def GetServerPort_def c_str_strncpy clean_def)
  moreover have "NUL \<notin> set raw \<longrightarrow>
      SetServerIP fs raw c = Inl BufferOverrun \<and> cfg_SetPassphrase raw c = Inl BufferOverrun"
    by (simp add: SetServerIP_def cfg_SetPassphrase_def strcpy_def)
  ultimately show ?thesis by blast
qed

theorem server_name_limits_witness:
  "GetServerAddress (restart 3 ((LdnConfig_initial 3 None)\<lparr>cfg_file := Some
      (''custom_host = '' @ ''play.example.org.uk'' @ [newline] @ ''custom_port = '' @ to_string 30456 @ [newline] @
       ''logging_enabled = '' @ ''true'' @ [newline] @ ''logging_level = '' @ to_string 3 @ [newline])\<rparr>))
     = ''play.example.or''
   \<and> SetServerIP fs_ok (replicate 16 (CHR ''1'')) (LdnConfig_initial 3 None) = Inl BufferOverrun"
proof -
  have "clean ''play.example.org.uk''" "NUL \<notin> set ''play.example.org.uk''"
    by (simp_all add: clean_def is_ws_def newline_def NUL_def)
  moreover have "NUL \<notin> set (replicate 16 (CHR ''1''))" by (simp add: NUL_def)
  ultimately show ?thesis
    using server_name_limits [of "''play.example.org.uk''" 30456 3 "replicate 16 (CHR ''1'')" fs_ok
        "LdnConfig_initial 3 None"] by (simp add: Let_def)
qed

end
