(* ===== verification/Upnp_Client.thy ===== *)
theory Upnp_Client
  imports Ldn_Config
begin

text \<open>
  \<open>ryuldn/proxy/upnp_client.hpp\<close> and \<open>upnp_client.cpp\<close>: port mappings on the home gateway.

  The library miniupnpc and the gateway behind it are parameters: what \<open>upnpDiscover\<close> and
  \<open>UPNP_GetValidIGD\<close> find is an argument of \<open>DiscoverDevice\<close>, and \<open>IGD\<close> holds the three commands as
  functions on the state \<open>'g\<close> of the gateway; \<open>UPNPCOMMAND_SUCCESS\<close> is zero. The mutex is taken by one
  thread at a time and released at the end of each method; no method calls another that takes it.
\<close>

section \<open>Data\<close>

datatype UpnpProtocol = UpnpTCP | UpnpUDP

record PortMapping =
  pm_protocol :: UpnpProtocol
  pm_privatePort :: u16
  pm_publicPort :: u16
  pm_leaseDuration :: u32
  pm_description :: string

definition PortMapping_default :: PortMapping where
  "PortMapping_default =
     \<lparr>pm_protocol = UpnpTCP, pm_privatePort = 0, pm_publicPort = 0, pm_leaseDuration = 3600,
      pm_description = ''RyuLDN''\<rparr>"

definition PortMapping_new :: "UpnpProtocol \<Rightarrow> u16 \<Rightarrow> u16 \<Rightarrow> u32 \<Rightarrow> string \<Rightarrow> PortMapping" where
  "PortMapping_new proto privPort pubPort lease desc =
     \<lparr>pm_protocol = proto, pm_privatePort = privPort, pm_publicPort = pubPort,
      pm_leaseDuration = lease, pm_description = desc\<rparr>"

record UpnpClient =
  up_discovered :: bool
  up_lastHttpStatus :: int
  up_socket :: int
  up_controlURL :: string
  up_servicetype :: string
  up_lanaddr :: string
  up_hasIgd :: bool

text \<open>\<open>_urls\<close>, \<open>_data\<close> and \<open>_lanaddr\<close> are not initialised; they are not read before a discovery.\<close>

definition UpnpClient_new :: UpnpClient where
  "UpnpClient_new =
     \<lparr>up_discovered = False, up_lastHttpStatus = 0, up_socket = -1, up_controlURL = [],
      up_servicetype = [], up_lanaddr = [], up_hasIgd = False\<rparr>"

definition UpnpClient_destroy :: "UpnpClient \<Rightarrow> UpnpClient" where
  "UpnpClient_destroy u = u\<lparr>up_socket := -1, up_hasIgd := False\<rparr>"

definition IsDiscovered :: "UpnpClient \<Rightarrow> bool" where
  "IsDiscovered u \<longleftrightarrow> up_discovered u"

definition GetLastHttpStatus :: "UpnpClient \<Rightarrow> int" where
  "GetLastHttpStatus u = up_lastHttpStatus u"

section \<open>Operations\<close>

text \<open>\<open>None\<close>: \<open>upnpDiscover\<close> found no device.\<close>

record IgdAnswer =
  ia_igd :: int
  ia_controlURL :: string
  ia_servicetype :: string
  ia_lanaddr :: string

definition DiscoverDevice :: "IgdAnswer option \<Rightarrow> UpnpClient \<Rightarrow> bool \<times> UpnpClient" where
  "DiscoverDevice devlist u =
     (case devlist of
        None \<Rightarrow> (False, u)
      | Some a \<Rightarrow>
          let u = u\<lparr>up_controlURL := ia_controlURL a, up_servicetype := ia_servicetype a\<rparr> in
          if ia_igd a = 0 then (False, u)
          else (True, u\<lparr>up_hasIgd := True, up_discovered := True,
                        up_lanaddr := take 63 (c_str (ia_lanaddr a))\<rparr>))"

text \<open>\<open>inet_ntop\<close> for IPv4: the four bytes in memory order.\<close>

definition inet_ntop :: "u32 \<Rightarrow> string" where
  "inet_ntop a =
     (let bs = map (\<lambda>b. to_string (unat b)) (put32 a) in
      bs ! 0 @ ''.'' @ bs ! 1 @ ''.'' @ bs ! 2 @ ''.'' @ bs ! 3)"

text \<open>What the system answers to \<open>socket\<close>, \<open>connect\<close> and \<open>getsockname\<close>.\<close>

record LocalAnswer =
  la_socket :: int
  la_connect :: bool
  la_sockname :: "u32 option"

definition GetLocalIPAddress :: "LocalAnswer \<Rightarrow> string option" where
  "GetLocalIPAddress a =
     (if la_socket a < 0 then None
      else if \<not> la_connect a then None
      else case la_sockname a of None \<Rightarrow> None | Some addr \<Rightarrow> Some (inet_ntop addr))"

text \<open>\<open>snprintf(buffer, size, "%u", n)\<close> cuts the digits to the buffer less its terminator.\<close>

definition snprintf_u :: "nat \<Rightarrow> nat \<Rightarrow> string" where
  "snprintf_u sz n = take (sz - 1) (to_string n)"

definition proto_name :: "UpnpProtocol \<Rightarrow> string" where
  "proto_name p = (if p = UpnpTCP then ''TCP'' else ''UDP'')"

record 'g IGD =
  igd_add :: "string \<Rightarrow> string \<Rightarrow> string \<Rightarrow> string \<Rightarrow> string \<Rightarrow> string \<Rightarrow> string \<Rightarrow> string \<Rightarrow> 'g \<Rightarrow> int \<times> 'g"
  igd_delete :: "string \<Rightarrow> string \<Rightarrow> string \<Rightarrow> string \<Rightarrow> 'g \<Rightarrow> int \<times> 'g"
  igd_external :: "string \<Rightarrow> string \<Rightarrow> 'g \<Rightarrow> (int \<times> string) \<times> 'g"

definition CreatePortMapping ::
    "'g IGD \<Rightarrow> LocalAnswer \<Rightarrow> PortMapping \<Rightarrow> UpnpClient \<times> 'g \<Rightarrow> bool \<times> UpnpClient \<times> 'g" where
  "CreatePortMapping igd a m = (\<lambda>(u, g).
     if \<not> up_discovered u \<or> \<not> up_hasIgd u then (False, u, g)
     else
       let localIP = (case GetLocalIPAddress a of None \<Rightarrow> up_lanaddr u | Some ip \<Rightarrow> ip);
           (r, g) = igd_add igd (up_controlURL u) (up_servicetype u)
                      (snprintf_u 8 (unat (pm_publicPort m))) (snprintf_u 8 (unat (pm_privatePort m)))
                      localIP (pm_description m) (proto_name (pm_protocol m))
                      (snprintf_u 16 (unat (pm_leaseDuration m))) g in
       (r = 0, u, g))"

definition DeletePortMapping :: "'g IGD \<Rightarrow> PortMapping \<Rightarrow> UpnpClient \<times> 'g \<Rightarrow> bool \<times> UpnpClient \<times> 'g" where
  "DeletePortMapping igd m = (\<lambda>(u, g).
     if \<not> up_discovered u \<or> \<not> up_hasIgd u then (False, u, g)
     else
       let (r, g) = igd_delete igd (up_controlURL u) (up_servicetype u)
                      (snprintf_u 8 (unat (pm_publicPort m))) (proto_name (pm_protocol m)) g in
       (r = 0, u, g))"

definition GetExternalIPAddress :: "'g IGD \<Rightarrow> UpnpClient \<times> 'g \<Rightarrow> string option \<times> UpnpClient \<times> 'g" where
  "GetExternalIPAddress igd = (\<lambda>(u, g).
     if \<not> up_discovered u \<or> \<not> up_hasIgd u then (None, u, g)
     else
       let ((r, ip), g) = igd_external igd (up_controlURL u) (up_servicetype u) g in
       (if r = 0 then Some (c_str ip) else None, u, g))"

section \<open>The arguments the gateway gets\<close>

lemma length_to_string: "n < 10 ^ k \<Longrightarrow> 0 < k \<Longrightarrow> length (to_string n) \<le> k"
proof (induction k arbitrary: n)
  case (Suc k)
  show ?case
  proof (cases "n < 10")
    case True
    then show ?thesis by (subst to_string.simps) simp
  next
    case False
    with Suc.prems have "n div 10 < 10 ^ k" "0 < k"
      by (cases k; simp add: less_mult_imp_div_less)+
    with Suc.IH [of "n div 10"] False show ?thesis by (subst to_string.simps) simp
  qed
qed simp

lemma snprintf_u_exact: "n < 10 ^ k \<Longrightarrow> 0 < k \<Longrightarrow> k < sz \<Longrightarrow> snprintf_u sz n = to_string n"
  using length_to_string [of n k] by (simp add: snprintf_u_def)

text \<open>The two port buffers of eight bytes and the lease buffer of sixteen never cut a number.\<close>

lemma snprintf_u_port [simp]: "snprintf_u 8 (unat (p :: u16)) = to_string (unat p)"
  by (rule snprintf_u_exact [of _ 5]) (use unsigned_less [of p, where 'a = nat] in simp_all)

lemma snprintf_u_lease [simp]: "snprintf_u 16 (unat (l :: u32)) = to_string (unat l)"
  by (rule snprintf_u_exact [of _ 10]) (use unsigned_less [of l, where 'a = nat] in simp_all)

text \<open>Every dotted address fits the buffer of \<open>INET_ADDRSTRLEN\<close> bytes with its terminator.\<close>

lemma length_byte_string: "length (to_string (unat (b :: u8))) \<le> 3"
  by (rule length_to_string) (use unsigned_less [of b, where 'a = nat] in simp_all)

lemma length_inet_ntop: "length (inet_ntop a) < 16"
proof -
  have "length (map (\<lambda>b. to_string (unat b)) (put32 a) ! i) \<le> 3" if "i < 4" for i
    using that length_byte_string by (simp add: wire_simps)
  from this [of 0] this [of 1] this [of 2] this [of 3]
  show ?thesis by (simp add: inet_ntop_def Let_def)
qed

lemma CreatePortMapping_client [simp]: "fst (snd (CreatePortMapping igd a m (u, g))) = u"
  by (auto simp: CreatePortMapping_def Let_def split: prod.split)

text \<open>Nothing ever changes the status that \<open>GetLastHttpStatus\<close> returns.\<close>

lemma DiscoverDevice_status [simp]:
  "up_lastHttpStatus (snd (DiscoverDevice d u)) = up_lastHttpStatus u"
  by (auto simp: DiscoverDevice_def Let_def split: option.split)

end
