(* ===== verification/P2p_Common.thy ===== *)
theory P2p_Common
  imports Master_Machine Upnp_Client
begin

text \<open>
  What the two ends of a peer-to-peer connection share: the life of a receive thread, a single
  \<open>send\<close>, the answers of \<open>recv\<close>, and the scope of a packet buffer around one packet.
\<close>

text \<open>
  A zeroed \<open>os::ThreadType\<close>; a thread that is in its loop, waiting in \<open>recv\<close>; a thread that waits for
  its own end, and so does nothing any more; a thread that has left its function and has not been destroyed.
\<close>

datatype thread = NoThread | Receiving | WaitsForItself | Ended

datatype recv_answer = Got bytes | Interrupted | Failed

text \<open>The result of one \<open>send\<close>, the bytes that went out, the answers left.\<close>

fun send_once :: "send_result list \<Rightarrow> bytes \<Rightarrow> int \<times> bytes \<times> send_result list" where
  "send_once [] data = (int (length data), data, [])"
| "send_once (Sends n # rs) data = (int (min n (length data)), take n data, rs)"
| "send_once (WouldBlock # rs) data = (-1, [], rs)"
| "send_once (SendFailed # rs) data = (-1, [], rs)"

text \<open>
  \<open>ScopedBuffer buffer(g_sharedBufferPool)\<close>, \<open>Encode\<close> into it and one use of the bytes; \<open>None\<close> when no
  buffer could be borrowed.
\<close>

definition encode_scoped ::
    "(bytes \<Rightarrow> (nat \<times> bytes) run) \<Rightarrow> (bytes \<Rightarrow> 's \<Rightarrow> ('a \<times> 's) run) \<Rightarrow> BufferPool \<times> 's
       \<Rightarrow> ('a option \<times> BufferPool \<times> 's) run" where
  "encode_scoped encode use =
     scoped (\<lambda>b (pool, s).
       bind_run (encode (bp_storage pool ! b)) (\<lambda>(n, buf).
         bind_run (use (take n buf) s) (\<lambda>(r, s). Inr (r, write_buffer b buf pool, s))))"

lemma scoped_Inr:
  assumes "scoped body (p, s) = Inr (r, q)"
  shows "(r = None \<and> snd q = s) \<or>
         (\<exists>b p1 x p2 t. body b (p1, s) = Inr (x, p2, t) \<and> r = Some x \<and> snd q = t)"
  using assms
  by (auto simp: scoped_def bind_run_Inr_iff split_beta split: prod.splits option.splits)

lemma encode_scoped_Inr:
  assumes "encode_scoped encode use (p, s) = Inr (r, p', s')"
  shows "(r = None \<and> s' = s) \<or> (\<exists>bs x. use bs s = Inr (x, s') \<and> r = Some x)"
  using scoped_Inr [OF assms [unfolded encode_scoped_def]]
  by (auto simp: bind_run_Inr_iff split_beta)

end
