(* ===== verification/P2p_Client.thy ===== *)
theory P2p_Client
  imports P2p_Common
begin

text \<open>
  \<open>ryuldn/proxy/p2p_proxy_client.hpp\<close> and \<open>p2p_proxy_client.cpp\<close>: the guest's end of a direct
  connection to the console that hosts the network.

  The receive thread makes passes of \<open>ReceiveLoop\<close>, each with what \<open>recv\<close> answers; a method that waits
  for an event takes the passes made during the wait. The two system events are flags, cleared by hand.
  The mutexes guard single assignments and are taken one at a time, so they are left out. Of the
  operating system the record holds the open descriptors, what was sent, and the answers \<open>send\<close> will give.
\<close>

section \<open>State\<close>

record P2pProxyClient =
  pc_address :: string
  pc_port :: u16
  pc_socket :: int
  pc_connected :: bool
  pc_ready :: bool
  pc_running :: bool
  pc_proxyConfig :: ProxyConfig
  pc_protocol :: RyuLdnProtocol
  pc_thread :: thread
  pc_connectedEvent :: bool
  pc_readyEvent :: bool
  pc_open :: "int list"
  pc_wire :: "(int \<times> bytes) list"
  pc_sends :: "send_result list"

text \<open>\<open>_proxyConfig\<close> is not initialised; \<open>sends\<close> is what the network will accept.\<close>

definition P2pProxyClient_new ::
    "ProxyConfig \<Rightarrow> send_result list \<Rightarrow> string \<Rightarrow> u16 \<Rightarrow> P2pProxyClient" where
  "P2pProxyClient_new junk sends address port =
     \<lparr>pc_address = address, pc_port = port, pc_socket = -1, pc_connected = False, pc_ready = False,
      pc_running = False, pc_proxyConfig = junk, pc_protocol = RyuLdnProtocol_new,
      pc_thread = NoThread, pc_connectedEvent = False, pc_readyEvent = False, pc_open = [],
      pc_wire = [], pc_sends = sends\<rparr>"

type_synonym pcs = "BufferPool \<times> P2pProxyClient"

section \<open>The receive thread\<close>

definition pc_HandleProxyConfig :: "ProxyConfig \<Rightarrow> P2pProxyClient \<Rightarrow> P2pProxyClient" where
  "pc_HandleProxyConfig config c =
     c\<lparr>pc_proxyConfig := config, pc_ready := True, pc_readyEvent := True\<rparr>"

definition pc_registers :: "PacketId \<Rightarrow> bool" where
  "pc_registers t \<longleftrightarrow> t = PacketId_ProxyConfig"

definition pc_callbacks :: "P2pProxyClient callbacks" where
  "pc_callbacks ev = (\<lambda>(pool, c).
     case ev of onProxyConfig h config \<Rightarrow> Inr (pool, pc_HandleProxyConfig config c) | _ \<Rightarrow> Inr (pool, c))"

definition pc_ReceiveBufferSize :: nat where "pc_ReceiveBufferSize = 8192"

text \<open>After the loop the thread marks the client as disconnected and ends.\<close>

definition pc_leave :: "P2pProxyClient \<Rightarrow> P2pProxyClient" where
  "pc_leave c =
     c\<lparr>pc_connected := False, pc_ready := False, pc_connectedEvent := False, pc_readyEvent := False,
       pc_thread := Ended\<rparr>"

definition pc_ReceiveLoop_pass :: "recv_answer \<Rightarrow> pcs \<Rightarrow> pcs run" where
  "pc_ReceiveLoop_pass answer = (\<lambda>(pool, c).
     if pc_thread c \<noteq> Receiving then Inr (pool, c)
     else if \<not> pc_running c then Inr (pool, pc_leave c)
     else
       case answer of
         Got bs \<Rightarrow>
           let buffer = take pc_ReceiveBufferSize bs in
           if buffer = [] then Inr (pool, pc_leave c)
           else
             bind_run (Read pc_registers pc_callbacks buffer 0 (int (length buffer)) (pc_protocol c, pool, c))
               (\<lambda>(s, pool, c). Inr (pool, c\<lparr>pc_protocol := s\<rparr>))
       | Interrupted \<Rightarrow> Inr (pool, c)
       | Failed \<Rightarrow> Inr (pool, pc_leave c))"

fun pc_ReceiveLoop :: "recv_answer list \<Rightarrow> pcs \<Rightarrow> pcs run" where
  "pc_ReceiveLoop [] st = Inr st"
| "pc_ReceiveLoop (a # as) st = bind_run (pc_ReceiveLoop_pass a st) (pc_ReceiveLoop as)"

section \<open>Operations\<close>

text \<open>
  What the system answers in \<open>Connect\<close>: the descriptor, whether \<open>inet_pton\<close> accepts the address,
  whether \<open>connect\<close> succeeds, whether the stack is allocated and the thread created.
\<close>

record ConnectAnswer =
  ca_socket :: int
  ca_address :: bool
  ca_connect :: bool
  ca_stack :: bool
  ca_thread :: bool

definition pc_abandon :: "P2pProxyClient \<Rightarrow> P2pProxyClient" where
  "pc_abandon c = c\<lparr>pc_open := remove1 (pc_socket c) (pc_open c), pc_socket := -1\<rparr>"

definition pc_Connect :: "ConnectAnswer \<Rightarrow> P2pProxyClient \<Rightarrow> bool \<times> P2pProxyClient" where
  "pc_Connect a c =
     (if pc_connected c then (True, c)
      else
        let c = c\<lparr>pc_socket := ca_socket a\<rparr> in
        if pc_socket c < 0 then (False, c)
        else
          let c = c\<lparr>pc_open := pc_socket c # pc_open c\<rparr> in
          if \<not> ca_address a then (False, pc_abandon c)
          else if \<not> ca_connect a then (False, pc_abandon c)
          else if \<not> ca_stack a then (False, pc_abandon c)
          else if \<not> ca_thread a then (False, pc_abandon (c\<lparr>pc_thread := NoThread\<rparr>))
          else (True, c\<lparr>pc_connected := True, pc_running := True, pc_connectedEvent := True,
                        pc_thread := Receiving\<rparr>))"

text \<open>
  \<open>_running\<close> is cleared before it is tested, so the branch that waits for the thread and destroys it is
  never taken; it is written out as the code has it.
\<close>

definition pc_Disconnect :: "P2pProxyClient \<Rightarrow> P2pProxyClient" where
  "pc_Disconnect c =
     (if \<not> pc_connected c \<and> \<not> pc_running c then c
      else
        let c = c\<lparr>pc_running := False, pc_connected := False, pc_ready := False,
                  pc_connectedEvent := False, pc_readyEvent := False\<rparr>;
            c = (if pc_running c then c\<lparr>pc_thread := NoThread\<rparr> else c) in
        if 0 \<le> pc_socket c then pc_abandon c else c)"

text \<open>
  \<open>delete client\<close>: after \<open>Disconnect\<close> the stack of the thread and the object are freed. \<open>left\<close> says
  whether the thread, woken by the shutdown, has got out of its function by then.
\<close>

definition P2pProxyClient_destroy :: "bool \<Rightarrow> pcs \<Rightarrow> BufferPool run" where
  "P2pProxyClient_destroy left = (\<lambda>(pool, c).
     let c = pc_Disconnect c;
         c = (if left \<and> pc_thread c = Receiving then pc_leave c else c) in
     if pc_thread c = Receiving then Inl UseAfterFree
     else Inr (RyuLdnProtocol_destroy (pc_protocol c) pool))"

definition pc_SendAsync :: "bytes \<Rightarrow> P2pProxyClient \<Rightarrow> bool \<times> P2pProxyClient" where
  "pc_SendAsync data c =
     (if pc_socket c < 0 \<or> \<not> pc_connected c then (False, c)
      else
        let (sent, out, rs) = send_once (pc_sends c) data in
        (sent = int (length data),
         c\<lparr>pc_wire := pc_wire c @ [(pc_socket c, out)], pc_sends := rs\<rparr>))"

text \<open>The waits take the passes the thread makes before the timeout.\<close>

definition PerformAuth :: "recv_answer list \<Rightarrow> ExternalProxyConfig \<Rightarrow> pcs \<Rightarrow> (bool \<times> pcs) run" where
  "PerformAuth as config = (\<lambda>(pool, c).
     bind_run (pc_ReceiveLoop as (pool, c\<lparr>pc_connectedEvent := False\<rparr>)) (\<lambda>(pool, c).
       if \<not> pc_connectedEvent c then Inr (False, pool, c)
       else if \<not> pc_connected c then Inr (False, pool, c)
       else
         bind_run (encode_scoped (Encode_struct PacketId_ExternalProxy (put_ExternalProxyConfig config))
                     (\<lambda>bs c. Inr (pc_SendAsync bs c)) (pool, c))
           (\<lambda>(r, st). Inr (r = Some True, st))))"

definition EnsureProxyReady :: "recv_answer list \<Rightarrow> pcs \<Rightarrow> (bool \<times> pcs) run" where
  "EnsureProxyReady as = (\<lambda>(pool, c).
     bind_run (pc_ReceiveLoop as (pool, c\<lparr>pc_readyEvent := False\<rparr>)) (\<lambda>(pool, c).
       Inr (pc_readyEvent c \<and> pc_ready c, pool, c)))"

definition pc_IsConnected :: "P2pProxyClient \<Rightarrow> bool" where
  "pc_IsConnected c \<longleftrightarrow> pc_connected c"

definition pc_IsReady :: "P2pProxyClient \<Rightarrow> bool" where
  "pc_IsReady c \<longleftrightarrow> pc_ready c"

section \<open>An invitation from the master server\<close>

text \<open>
  \<open>LdnMasterProxyClient::HandleExternalProxy\<close> with its client: the address is the IPv4 part of the
  announced one. The result is the client kept in \<open>_connectedProxy\<close>, if any, and what the client has sent
  to the host.
\<close>

record Invitation =
  inv_junk :: ProxyConfig
  inv_sends :: "send_result list"
  inv_connect :: ConnectAnswer
  inv_passes :: "recv_answer list"
  inv_left :: bool

definition join_host ::
    "Invitation \<Rightarrow> ExternalProxyConfig \<Rightarrow> BufferPool
       \<Rightarrow> (P2pProxyClient option \<times> (int \<times> bytes) list \<times> BufferPool) run" where
  "join_host v config pool =
     (let c = P2pProxyClient_new (inv_junk v) (inv_sends v)
                (inet_ntop (get32 (drop 12 (epc_proxyIp config)))) (epc_proxyPort config);
          (ok, c) = pc_Connect (inv_connect v) c in
      if \<not> ok then
        bind_run (P2pProxyClient_destroy (inv_left v) (pool, c)) (\<lambda>pool. Inr (None, pc_wire c, pool))
      else
        bind_run (PerformAuth (inv_passes v) config (pool, c)) (\<lambda>(ok, pool, c).
          if \<not> ok then
            bind_run (P2pProxyClient_destroy (inv_left v) (pool, c)) (\<lambda>pool. Inr (None, pc_wire c, pool))
          else Inr (Some c, pc_wire c, pool)))"

section \<open>Invariants of the receive thread\<close>

definition pc_quiet :: "int \<Rightarrow> (int \<times> bytes) list \<Rightarrow> P2pProxyClient \<Rightarrow> bool" where
  "pc_quiet fd out c \<longleftrightarrow> \<not> pc_connectedEvent c \<and> pc_socket c = fd \<and> pc_wire c = out"

lemma pc_callbacks_quiet: "preserves (pc_quiet fd out) pc_callbacks"
  by (auto simp: preserves_def pc_callbacks_def pc_HandleProxyConfig_def pc_quiet_def split: RyuEvent.splits)

lemma pc_pass_quiet:
  "pc_quiet fd out c \<Longrightarrow> pc_ReceiveLoop_pass a (p, c) = Inr (p', c') \<Longrightarrow> pc_quiet fd out c'"
  using Read_preserves [OF pc_callbacks_quiet]
  by (auto simp: pc_ReceiveLoop_pass_def Let_def bind_run_Inr_iff pc_leave_def pc_quiet_def
      split: if_splits recv_answer.splits)

lemma pc_ReceiveLoop_quiet:
  "pc_quiet fd out c \<Longrightarrow> pc_ReceiveLoop as (p, c) = Inr (p', c') \<Longrightarrow> pc_quiet fd out c'"
proof (induction "as" arbitrary: p c)
  case (Cons a as)
  from Cons.prems(2) obtain q d where s: "pc_ReceiveLoop_pass a (p, c) = Inr (q, d)"
    "pc_ReceiveLoop as (q, d) = Inr (p', c')"
    by (auto simp: bind_run_Inr_iff)
  from Cons.IH [OF pc_pass_quiet [OF Cons.prems(1) s(1)] s(2)] show ?case .
qed simp

text \<open>\<open>PerformAuth\<close> only waits: it never gets to the part that encodes and sends.\<close>

lemma PerformAuth_only_waits:
  "PerformAuth as config (p, c) =
     bind_run (pc_ReceiveLoop as (p, c\<lparr>pc_connectedEvent := False\<rparr>)) (\<lambda>(p, c). Inr (False, p, c))"
proof (cases "pc_ReceiveLoop as (p, c\<lparr>pc_connectedEvent := False\<rparr>)")
  case (Inr st)
  obtain q d where st: "st = (q, d)" by (cases st)
  have "pc_quiet (pc_socket c) (pc_wire c) d"
    by (rule pc_ReceiveLoop_quiet [OF _ Inr [unfolded st]]) (simp add: pc_quiet_def)
  with Inr st show ?thesis by (simp add: PerformAuth_def pc_quiet_def)
qed (simp add: PerformAuth_def)

lemma PerformAuth_fails:
  assumes "PerformAuth as config (p, c) = Inr (r, p', c')"
  shows "\<not> r \<and> pc_wire c' = pc_wire c"
proof -
  have w: "pc_ReceiveLoop as (p, c\<lparr>pc_connectedEvent := False\<rparr>) = Inr (p', c')" "\<not> r"
    using assms by (auto simp: PerformAuth_only_waits bind_run_Inr_iff)
  have "pc_quiet (pc_socket c) (pc_wire c) c'"
    by (rule pc_ReceiveLoop_quiet [OF _ w(1)]) (simp add: pc_quiet_def)
  with w(2) show ?thesis by (simp add: pc_quiet_def)
qed

text \<open>A connection attempt that fails leaves no descriptor open.\<close>

lemma pc_Connect_fails_closed: "pc_Connect a c = (False, d) \<Longrightarrow> pc_open d = pc_open c"
  by (auto simp: pc_Connect_def pc_abandon_def Let_def split: if_splits)

lemma pc_Connect_sends_nothing: "pc_wire (snd (pc_Connect a c)) = pc_wire c"
  by (simp add: pc_Connect_def pc_abandon_def Let_def)

section \<open>What becomes of an invitation\<close>

definition demo_invitation :: "bool \<Rightarrow> Invitation" where
  "demo_invitation left =
     \<lparr>inv_junk = \<lparr>pcf_proxyIp = 0, pcf_proxySubnetMask = 0\<rparr>, inv_sends = [],
      inv_connect = \<lparr>ca_socket = 5, ca_address = True, ca_connect = True, ca_stack = True, ca_thread = True\<rparr>,
      inv_passes = [Interrupted], inv_left = left\<rparr>"

definition demo_host :: ExternalProxyConfig where
  "demo_host = \<lparr>epc_proxyIp = replicate 16 0, epc_addressFamily = 2, epc_proxyPort = 39990,
                epc_token = replicate 16 7\<rparr>"

text \<open>
  C23: a guest never keeps a direct connection to the host. \<open>PerformAuth\<close> clears the event that
  \<open>Connect\<close> has set and then waits for it; the receive thread never sets it again, whatever the host
  sends. So on every client \<open>PerformAuth\<close> does nothing but let the time pass and report failure: it never
  encodes or sends the authentication. An invitation that is handled to the end leaves no connected
  proxy, and not a byte was sent to the host.
\<close>

theorem invitation_never_joins:
  assumes "join_host v config pool = Inr (proxy, sent, pool')"
  shows "proxy = None \<and> sent = []
    \<and> (\<forall>as p c. PerformAuth as config (p, c) =
         bind_run (pc_ReceiveLoop as (p, c\<lparr>pc_connectedEvent := False\<rparr>)) (\<lambda>(p, c). Inr (False, p, c)))"
proof -
  define c0 where "c0 = P2pProxyClient_new (inv_junk v) (inv_sends v)
      (inet_ntop (get32 (drop 12 (epc_proxyIp config)))) (epc_proxyPort config)"
  obtain ok c where c: "pc_Connect (inv_connect v) c0 = (ok, c)" by force
  have w: "pc_wire c = []"
    using pc_Connect_sends_nothing [of "inv_connect v" c0] c by (simp add: c0_def P2pProxyClient_new_def)
  have "proxy = None \<and> sent = []"
  proof (cases ok)
    case True
    with assms c obtain r p d where a: "PerformAuth (inv_passes v) config (pool, c) = Inr (r, p, d)"
      by (auto simp: join_host_def c0_def Let_def bind_run_Inr_iff)
    with PerformAuth_fails [OF a] True c w assms show ?thesis
      by (auto simp: join_host_def c0_def Let_def bind_run_Inr_iff)
  qed (use assms c w in \<open>auto simp: join_host_def c0_def Let_def bind_run_Inr_iff\<close>)
  then show ?thesis using PerformAuth_only_waits by blast
qed

lemma join_host_demo:
  "join_host (demo_invitation left) demo_host pool = (if left then Inr (None, [], pool) else Inl UseAfterFree)"
  by (simp add: join_host_def demo_invitation_def demo_host_def pc_Connect_def P2pProxyClient_new_def
      PerformAuth_def pc_ReceiveLoop_pass_def P2pProxyClient_destroy_def pc_Disconnect_def pc_abandon_def
      pc_leave_def RyuLdnProtocol_destroy_def RyuLdnProtocol_new_def Let_def)

theorem invitation_never_joins_witness:
  "case join_host (demo_invitation True) demo_host zero_pool of
     Inr (proxy, sent, pool) \<Rightarrow> proxy = None \<and> sent = [] | Inl _ \<Rightarrow> False"
proof -
  obtain proxy sent pool where r: "join_host (demo_invitation True) demo_host zero_pool = Inr (proxy, sent, pool)"
    using join_host_demo [of True zero_pool] by simp
  from invitation_never_joins [OF r] r show ?thesis by simp
qed

text \<open>
  \<open>Disconnect\<close> does not wait for the receive thread: when the memory of the client is freed before the
  thread has left its function, the thread runs on freed memory.
\<close>

theorem guest_thread_outlives_client:
  assumes "pc_thread c = Receiving" and "pc_connected c \<or> pc_running c"
  shows "P2pProxyClient_destroy False (pool, c) = Inl UseAfterFree"
  using assms by (auto simp: P2pProxyClient_destroy_def pc_Disconnect_def pc_abandon_def Let_def)

end
