(* ===== verification/P2p_Server.thy ===== *)
theory P2p_Server
  imports P2p_Common "HOL-Library.AList"
begin

text \<open>
  \<open>ryuldn/session_pool.hpp\<close>, \<open>session_pool.cpp\<close> and \<open>ryuldn/proxy/p2p_proxy_session.cpp\<close>,
  \<open>p2p_proxy_server.cpp\<close>: the host's end of the direct connections. The three classes call each other, so
  their states live in one record: \<open>P2pProxyServer\<close> holds the session pool, the players, and the heap
  of session objects, each known by a number. With it go the buffer pool and the master client.

  Threads. A session's thread is \<open>Receiving\<close> while it waits in \<open>recv\<close>; a pass of \<open>ReceiveLoop\<close> runs from
  one \<open>recv\<close> to the next. When another thread stops a session it shuts the socket down and waits; the
  session's thread then leaves its loop and runs \<open>DisconnectProxyClient\<close> while the waiting thread keeps
  its locks. \<open>ses_Stop\<close> therefore takes, as its first argument, what \<open>DisconnectProxyClient\<close> does under the
  locks of the caller: it is the fault \<open>Deadlock\<close> where it needs a mutex the caller holds. A thread that
  stops its own session (\<open>self\<close>) waits for its own end: it is \<open>WaitsForItself\<close> from then on, with the flags that
  \<open>Stop\<close> has set, and its callbacks do nothing any more, while the other threads go on.

  The table of players is a hash map; the order of the association list is the order of its iteration.
\<close>

section \<open>State\<close>

type_synonym sid = nat

record P2pProxySession =
  ses_socket :: int
  ses_virtualIpAddress :: u32
  ses_masterClosed :: bool
  ses_running :: bool
  ses_protocol :: RyuLdnProtocol
  ses_thread :: thread

type_synonym PooledSession = "sid option slot"

record SessionPool =
  sp_sessions :: "PooledSession list"
  sp_freeList :: "nat option"
  sp_activeCount :: nat

definition MaxPooledSessions :: nat where "MaxPooledSessions = 4"

definition SessionPool_new :: SessionPool where
  "SessionPool_new =
     \<lparr>sp_sessions = fresh_slots MaxPooledSessions (\<lambda>_. None), sp_freeList = Some 0, sp_activeCount = 0\<rparr>"

text \<open>
  \<open>srv_heap\<close> are the session objects, \<open>srv_fresh\<close> the next unused number. Of the operating system:
  \<open>srv_open\<close> are the open descriptors, \<open>srv_wire\<close> what was sent on which, \<open>srv_sends\<close> the answers
  \<open>send\<close> will give, \<open>srv_peer\<close> what \<open>getpeername\<close> says (family and address), \<open>srv_frequency\<close> the
  ticks in a second, \<open>srv_waits\<close> the rounds of the wait for a token (ticks elapsed, and the tokens that
  arrive when the lock is let go), \<open>srv_stack\<close> the bytes a local variable finds on the stack. \<open>srv_handlers\<close>
  says whether the handlers are in the table of the master's protocol object, \<open>srv_stranded\<close> counts the
  \<open>WaitsForItself\<close> threads whose session has been deleted.
\<close>

record P2pProxyServer =
  srv_privatePort :: u16
  srv_publicPort :: u16
  srv_listenSocket :: int
  srv_running :: bool
  srv_disposed :: bool
  srv_broadcastAddress :: u32
  srv_upnpClient :: UpnpClient
  srv_portMapping :: PortMapping
  srv_hasPortMapping :: bool
  srv_handlers :: bool
  srv_waitingTokens :: "ExternalProxyToken list"
  srv_tokenEvent :: bool
  srv_leaseThread :: thread
  srv_leaseThreadRunning :: bool
  srv_acceptThread :: thread
  srv_sessionPool :: SessionPool
  srv_players :: "(u32 \<times> sid) list"
  srv_heap :: "sid \<rightharpoonup> P2pProxySession"
  srv_fresh :: sid
  srv_open :: "int list"
  srv_wire :: "(int \<times> bytes) list"
  srv_sends :: "send_result list"
  srv_peer :: "int \<Rightarrow> (u8 \<times> u32) option"
  srv_frequency :: u64
  srv_waits :: "(u64 \<times> ExternalProxyToken list) list"
  srv_stack :: bytes
  srv_stranded :: nat

definition PublicPortBase :: u16 where "PublicPortBase = 39990"
definition PublicPortRange :: nat where "PublicPortRange = 10"
definition PortLeaseLength :: u32 where "PortLeaseLength = 60"
definition AuthWaitSeconds :: u64 where "AuthWaitSeconds = 1"

text \<open>The constructor; the last five arguments are the world the server is born into.\<close>

definition P2pProxyServer_new ::
    "u16 \<Rightarrow> send_result list \<Rightarrow> (int \<Rightarrow> (u8 \<times> u32) option) \<Rightarrow> u64
       \<Rightarrow> (u64 \<times> ExternalProxyToken list) list \<Rightarrow> bytes \<Rightarrow> P2pProxyServer" where
  "P2pProxyServer_new port sends peer frequency waits stack =
     \<lparr>srv_privatePort = port, srv_publicPort = 0, srv_listenSocket = -1, srv_running = False,
      srv_disposed = False, srv_broadcastAddress = 0, srv_upnpClient = UpnpClient_new,
      srv_portMapping = PortMapping_default, srv_hasPortMapping = False, srv_handlers = True,
      srv_waitingTokens = [], srv_tokenEvent = False, srv_leaseThread = NoThread,
      srv_leaseThreadRunning = False, srv_acceptThread = NoThread, srv_sessionPool = SessionPool_new,
      srv_players = [], srv_heap = Map.empty, srv_fresh = 0, srv_open = [], srv_wire = [],
      srv_sends = sends, srv_peer = peer, srv_frequency = frequency, srv_waits = waits,
      srv_stack = stack, srv_stranded = 0\<rparr>"

type_synonym sst = "P2pProxyServer mcs"

section \<open>Session objects\<close>

definition P2pProxySession_new :: "int \<Rightarrow> P2pProxySession" where
  "P2pProxySession_new clientSocket =
     \<lparr>ses_socket = clientSocket, ses_virtualIpAddress = 0, ses_masterClosed = False,
      ses_running = False, ses_protocol = RyuLdnProtocol_new, ses_thread = NoThread\<rparr>"

text \<open>Access through the pointer, and assignment to the object.\<close>

definition session :: "sid \<Rightarrow> P2pProxyServer \<Rightarrow> P2pProxySession run" where
  "session i s = (case srv_heap s i of None \<Rightarrow> Inl UseAfterFree | Some x \<Rightarrow> Inr x)"

definition set_session :: "sid \<Rightarrow> P2pProxySession \<Rightarrow> P2pProxyServer \<Rightarrow> P2pProxyServer" where
  "set_session i x s = s\<lparr>srv_heap := (srv_heap s)(i \<mapsto> x)\<rparr>"

definition self_waiting :: "sid \<Rightarrow> P2pProxyServer \<Rightarrow> bool" where
  "self_waiting i s = (case srv_heap s i of None \<Rightarrow> False | Some x \<Rightarrow> ses_thread x = WaitsForItself)"

text \<open>
  Starting a session whose thread is still \<open>WaitsForItself\<close> frees the stack of that thread and makes another
  thread of the same thread object: the fault \<open>UseAfterFree\<close>.
\<close>

definition ses_Start :: "bool \<Rightarrow> bool \<Rightarrow> sid \<Rightarrow> P2pProxyServer \<Rightarrow> (bool \<times> P2pProxyServer) run" where
  "ses_Start stack_ok thread_ok i s =
     bind_run (session i s) (\<lambda>x.
       if ses_running x then Inr (False, s)
       else if ses_thread x = WaitsForItself then Inl UseAfterFree
       else if \<not> stack_ok then Inr (False, s)
       else if \<not> thread_ok then Inr (False, set_session i (x\<lparr>ses_thread := NoThread\<rparr>) s)
       else Inr (True, set_session i (x\<lparr>ses_running := True, ses_thread := Receiving\<rparr>) s))"

definition ses_SendAsync :: "sid \<Rightarrow> bytes \<Rightarrow> P2pProxyServer \<Rightarrow> (bool \<times> P2pProxyServer) run" where
  "ses_SendAsync i data s =
     bind_run (session i s) (\<lambda>x.
       if ses_socket x < 0 then Inr (False, s)
       else
         let (sent, out, rs) = send_once (srv_sends s) data in
         Inr (sent = int (length data),
              s\<lparr>srv_wire := srv_wire s @ [(ses_socket x, out)], srv_sends := rs\<rparr>))"

text \<open>The packet is built in a buffer of the pool; without one nothing is sent.\<close>

definition send_session :: "(bytes \<Rightarrow> (nat \<times> bytes) run) \<Rightarrow> sid \<Rightarrow> sst \<Rightarrow> sst run" where
  "send_session encode i st =
     bind_run
       (encode_scoped encode (\<lambda>bs (c, s). bind_run (ses_SendAsync i bs s) (\<lambda>(r, s). Inr (r, c, s))) st)
       (\<lambda>(_, st). Inr st)"

section \<open>Disconnection\<close>

definition lost_state :: "u32 \<Rightarrow> bytes \<Rightarrow> ExternalProxyConnectionState" where
  "lost_state virtualIp stack =
     \<lparr>eps_ipAddress = virtualIp, eps_connected = 0, eps_padding = stack\<rparr>"

text \<open>\<open>release\<close> stands for \<open>_sessionPool.Release\<close> under the locks that are held at the time.\<close>

definition DisconnectProxyClient_with :: "(sid \<Rightarrow> sst \<Rightarrow> sst run) \<Rightarrow> sid \<Rightarrow> sst \<Rightarrow> sst run" where
  "DisconnectProxyClient_with release i = (\<lambda>(pool, c, s).
     bind_run (session i s) (\<lambda>x.
       let virtualIp = ses_virtualIpAddress x in
       if map_of (srv_players s) virtualIp = Some i then
         bind_run (release i (pool, c, s\<lparr>srv_players := AList.delete virtualIp (srv_players s)\<rparr>))
           (\<lambda>(pool, c, s).
              bind_run
                (encode_scoped
                   (Encode_struct PacketId_ExternalProxyState
                      (put_ExternalProxyConnectionState (lost_state virtualIp (srv_stack s))))
                   (\<lambda>bs (c, s). let (r, c) = SendRawPacket bs c in Inr (r, c, s)) (pool, c, s))
                (\<lambda>(_, st). Inr st))
       else Inr (pool, c, s)))"

definition disconnect_pool_held :: "sid \<Rightarrow> sst \<Rightarrow> sst run" where
  "disconnect_pool_held = DisconnectProxyClient_with (\<lambda>_ _. Inl Deadlock)"

definition disconnect_players_held :: "sid \<Rightarrow> sst \<Rightarrow> sst run" where
  "disconnect_players_held = (\<lambda>_ _. Inl Deadlock)"

text \<open>The end of \<open>ReceiveLoop\<close>.\<close>

definition ReceiveLoop_exit :: "(sid \<Rightarrow> sst \<Rightarrow> sst run) \<Rightarrow> sid \<Rightarrow> sst \<Rightarrow> sst run" where
  "ReceiveLoop_exit disconnect i = (\<lambda>(pool, c, s).
     bind_run (session i s) (\<lambda>x.
     bind_run (if \<not> ses_masterClosed x then disconnect i (pool, c, s) else Inr (pool, c, s))
       (\<lambda>(pool, c, s). bind_run (session i s) (\<lambda>x.
          Inr (pool, c, set_session i (x\<lparr>ses_thread := Ended\<rparr>) s)))))"

definition ses_Stop :: "(sid \<Rightarrow> sst \<Rightarrow> sst run) \<Rightarrow> bool \<Rightarrow> sid \<Rightarrow> sst \<Rightarrow> sst run" where
  "ses_Stop disconnect self i = (\<lambda>(pool, c, s).
     bind_run (session i s) (\<lambda>x.
       if \<not> ses_running x then Inr (pool, c, s)
       else
         let s = set_session i (x\<lparr>ses_running := False\<rparr>) s in
         if self then Inr (pool, c, set_session i (x\<lparr>ses_running := False, ses_thread := WaitsForItself\<rparr>) s)
         else
           bind_run
             (case ses_thread x of
                NoThread \<Rightarrow> Inl InvalidThread
              | Receiving \<Rightarrow> ReceiveLoop_exit disconnect i (pool, c, s)
              | WaitsForItself \<Rightarrow> Inl Deadlock
              | Ended \<Rightarrow> Inr (pool, c, s))
             (\<lambda>(pool, c, s). bind_run (session i s) (\<lambda>x.
                Inr (pool, c, set_session i (x\<lparr>ses_thread := NoThread\<rparr>) s)))))"

definition DisconnectAndStop :: "(sid \<Rightarrow> sst \<Rightarrow> sst run) \<Rightarrow> bool \<Rightarrow> sid \<Rightarrow> sst \<Rightarrow> sst run" where
  "DisconnectAndStop disconnect self i = (\<lambda>(pool, c, s).
     bind_run (session i s) (\<lambda>x.
       ses_Stop disconnect self i (pool, c, set_session i (x\<lparr>ses_masterClosed := True\<rparr>) s)))"

text \<open>
  \<open>delete session\<close>, which only happens with the mutex of the pool held. A thread that waits for itself is
  not waited for: it stays behind, without the stack and the thread object that are freed here; as it
  never runs again it does not touch them.
\<close>

definition delete_session :: "sid \<Rightarrow> sst \<Rightarrow> sst run" where
  "delete_session i st =
     bind_run (ses_Stop disconnect_pool_held False i st) (\<lambda>(pool, c, s).
     bind_run (session i s) (\<lambda>x.
       let s = (if 0 \<le> ses_socket x then s\<lparr>srv_open := remove1 (ses_socket x) (srv_open s)\<rparr> else s) in
       Inr (RyuLdnProtocol_destroy (ses_protocol x) pool, c,
            s\<lparr>srv_heap := (srv_heap s)(i := None),
              srv_stranded := srv_stranded s + (if ses_thread x = WaitsForItself then 1 else 0)\<rparr>)))"

text \<open>The socket of the last connection is overwritten.\<close>

definition ses_Reset :: "int \<Rightarrow> sid \<Rightarrow> sst \<Rightarrow> sst run" where
  "ses_Reset clientSocket i st =
     bind_run (ses_Stop disconnect_pool_held False i st) (\<lambda>(pool, c, s).
     bind_run (session i s) (\<lambda>x.
       let (prot, pool) = Reset (ses_protocol x) pool in
       Inr (pool, c,
            set_session i (x\<lparr>ses_socket := clientSocket, ses_virtualIpAddress := 0,
                             ses_masterClosed := False, ses_running := False,
                             ses_protocol := prot\<rparr>) s)))"

section \<open>The session pool\<close>

definition on_pool :: "(SessionPool \<Rightarrow> SessionPool) \<Rightarrow> P2pProxyServer \<Rightarrow> P2pProxyServer" where
  "on_pool f s = s\<lparr>srv_sessionPool := f (srv_sessionPool s)\<rparr>"

text \<open>Unlinking the head of the free list for the session \<open>i\<close>.\<close>

definition take_slot :: "nat \<Rightarrow> sid \<Rightarrow> SessionPool \<Rightarrow> SessionPool" where
  "take_slot k i p =
     p\<lparr>sp_freeList := sl_next (sp_sessions p ! k),
       sp_sessions := (sp_sessions p)
         [k := \<lparr>sl_val = Some i, sl_inUse = True, sl_next = None\<rparr>],
       sp_activeCount := sp_activeCount p + 1\<rparr>"

definition Acquire :: "bool \<Rightarrow> int \<Rightarrow> sst \<Rightarrow> (sid option \<times> sst) run" where
  "Acquire alloc clientSocket = (\<lambda>(pool, c, s).
     case sp_freeList (srv_sessionPool s) of
       None \<Rightarrow> Inr (None, pool, c, s)
     | Some k \<Rightarrow>
         (case sl_val (sp_sessions (srv_sessionPool s) ! k) of
            Some i \<Rightarrow>
              bind_run (ses_Reset clientSocket i (pool, c, s)) (\<lambda>(pool, c, s).
                Inr (Some i, pool, c, on_pool (take_slot k i) s))
          | None \<Rightarrow>
              if \<not> alloc then Inr (None, pool, c, s)
              else
                let i = srv_fresh s;
                    s = set_session i (P2pProxySession_new clientSocket) (s\<lparr>srv_fresh := i + 1\<rparr>) in
                Inr (Some i, pool, c, on_pool (take_slot k i) s)))"

definition slot_of :: "sid \<Rightarrow> SessionPool \<Rightarrow> nat option" where
  "slot_of i p =
     find (\<lambda>k. sl_val (sp_sessions p ! k) = Some i) [0..<length (sp_sessions p)]"

definition free_slot :: "nat \<Rightarrow> SessionPool \<Rightarrow> SessionPool" where
  "free_slot k p =
     p\<lparr>sp_sessions := (sp_sessions p)
         [k := (sp_sessions p ! k)\<lparr>sl_inUse := False, sl_next := sp_freeList p\<rparr>],
       sp_freeList := Some k, sp_activeCount := sp_activeCount p - 1\<rparr>"

definition Release :: "sid \<Rightarrow> sst \<Rightarrow> sst run" where
  "Release i = (\<lambda>(pool, c, s).
     case slot_of i (srv_sessionPool s) of
       None \<Rightarrow> delete_session i (pool, c, s)
     | Some k \<Rightarrow>
         if \<not> sl_inUse (sp_sessions (srv_sessionPool s) ! k) then Inr (pool, c, s)
         else Inr (pool, c, on_pool (free_slot k) s))"

definition GetActiveCount :: "SessionPool \<Rightarrow> nat" where
  "GetActiveCount p = sp_activeCount p"

fun Clear_sessions :: "PooledSession list \<Rightarrow> sst \<Rightarrow> sst run" where
  "Clear_sessions [] st = Inr st"
| "Clear_sessions (slot # slots) st =
     bind_run (case sl_val slot of None \<Rightarrow> Inr st | Some i \<Rightarrow> delete_session i st) (Clear_sessions slots)"

definition Clear :: "sst \<Rightarrow> sst run" where
  "Clear = (\<lambda>(pool, c, s).
     bind_run (Clear_sessions (sp_sessions (srv_sessionPool s)) (pool, c, s)) (\<lambda>(pool, c, s).
       Inr (pool, c, s\<lparr>srv_sessionPool := SessionPool_new\<rparr>)))"

definition DisconnectProxyClient :: "sid \<Rightarrow> sst \<Rightarrow> sst run" where
  "DisconnectProxyClient = DisconnectProxyClient_with Release"

section \<open>Routing\<close>

fun for_players :: "(sid \<Rightarrow> sst \<Rightarrow> sst run) \<Rightarrow> (u32 \<times> sid) list \<Rightarrow> sst \<Rightarrow> sst run" where
  "for_players action [] st = Inr st"
| "for_players action ((ip, i) # ps) st = bind_run (action i st) (for_players action ps)"

definition hardcoded_broadcast :: u32 where "hardcoded_broadcast = 0xc0a800ff"

definition RouteMessage ::
    "sid \<Rightarrow> ProxyInfo \<Rightarrow> (ProxyInfo \<Rightarrow> sid \<Rightarrow> sst \<Rightarrow> sst run) \<Rightarrow> sst \<Rightarrow> sst run" where
  "RouteMessage sender info action = (\<lambda>(pool, c, s).
     bind_run (session sender s) (\<lambda>x.
       if pin_sourceIpV4 info \<noteq> 0 \<and> pin_sourceIpV4 info \<noteq> ses_virtualIpAddress x
       then Inr (pool, c, s)
       else
         let info = (if pin_sourceIpV4 info = 0
                     then info\<lparr>pin_sourceIpV4 := ses_virtualIpAddress x\<rparr> else info);
             destIp = (if pin_destIpV4 info = hardcoded_broadcast
                       then srv_broadcastAddress s else pin_destIpV4 info) in
         if destIp = srv_broadcastAddress s
         then for_players (action info) (srv_players s) (pool, c, s)
         else case map_of (srv_players s) destIp of
                None \<Rightarrow> Inr (pool, c, s)
              | Some target \<Rightarrow> action info target (pool, c, s)))"

definition srv_HandleProxyDisconnect :: "sid \<Rightarrow> ProxyDisconnectMessageFull \<Rightarrow> sst \<Rightarrow> sst run" where
  "srv_HandleProxyDisconnect sender message =
     RouteMessage sender (pdm_info message) (\<lambda>info target.
       send_session (Encode_struct PacketId_ProxyDisconnect
         (put_ProxyDisconnectMessageFull (message\<lparr>pdm_info := info\<rparr>))) target)"

definition srv_HandleProxyData :: "sid \<Rightarrow> ProxyDataHeaderFull \<Rightarrow> span \<Rightarrow> sst \<Rightarrow> sst run" where
  "srv_HandleProxyData sender message = (\<lambda>(data, dataSize).
     RouteMessage sender (pdh_info message) (\<lambda>info target.
       send_session
         (\<lambda>buffer.
            if length data < unat dataSize then Inl BufferOverrun
            else Encode_extra PacketId_ProxyData (put_ProxyDataHeaderFull (message\<lparr>pdh_info := info\<rparr>))
                   (take (unat dataSize) data) buffer) target))"

definition srv_HandleProxyConnectReply :: "sid \<Rightarrow> ProxyConnectResponseFull \<Rightarrow> sst \<Rightarrow> sst run" where
  "srv_HandleProxyConnectReply sender message =
     RouteMessage sender (pcp_info message) (\<lambda>info target.
       send_session (Encode_struct PacketId_ProxyConnectReply
         (put_ProxyConnectResponseFull (message\<lparr>pcp_info := info\<rparr>))) target)"

definition srv_HandleProxyConnect :: "sid \<Rightarrow> ProxyConnectRequestFull \<Rightarrow> sst \<Rightarrow> sst run" where
  "srv_HandleProxyConnect sender message =
     RouteMessage sender (pcr_info message) (\<lambda>info target.
       send_session (Encode_struct PacketId_ProxyConnect
         (put_ProxyConnectRequestFull (message\<lparr>pcr_info := info\<rparr>))) target)"

section \<open>Tokens and registration\<close>

definition HandleToken :: "ExternalProxyToken \<Rightarrow> P2pProxyServer \<Rightarrow> P2pProxyServer" where
  "HandleToken token s = s\<lparr>srv_waitingTokens := srv_waitingTokens s @ [token], srv_tokenEvent := True\<rparr>"

definition HandleStateChange :: "ExternalProxyConnectionState \<Rightarrow> sst \<Rightarrow> sst run" where
  "HandleStateChange state = (\<lambda>(pool, c, s).
     if eps_connected state \<noteq> 0 then Inr (pool, c, s)
     else
       let ip = eps_ipAddress state;
           s = s\<lparr>srv_waitingTokens := filter (\<lambda>t. ept_virtualIp t \<noteq> ip) (srv_waitingTokens s)\<rparr> in
       case map_of (srv_players s) ip of
         None \<Rightarrow> Inr (pool, c, s)
       | Some i \<Rightarrow>
           bind_run (DisconnectAndStop disconnect_players_held False i (pool, c, s)) (\<lambda>st.
           bind_run (Release i st) (\<lambda>(pool, c, s).
             Inr (pool, c, s\<lparr>srv_players := AList.delete ip (srv_players s)\<rparr>))))"

definition Configure :: "ProxyConfig \<Rightarrow> P2pProxyServer \<Rightarrow> P2pProxyServer" where
  "Configure config s =
     s\<lparr>srv_broadcastAddress := pcf_proxyIp config OR NOT (pcf_proxySubnetMask config)\<rparr>"

definition addressBytes :: "u8 \<times> u32 \<Rightarrow> bytes" where
  "addressBytes = (\<lambda>(family, s_addr).
     if family = of_nat AF_INET then replicate 12 0 @ put32 s_addr else replicate 16 0)"

definition token_matches :: "u8 \<times> u32 \<Rightarrow> ExternalProxyConfig \<Rightarrow> ExternalProxyToken \<Rightarrow> bool" where
  "token_matches addr config waitToken =
     (let isPrivate = (\<forall>b \<in> set (take 16 (ept_physicalIp waitToken)). b = 0);
          ipEqual = (isPrivate \<or>
             (ept_addressFamily waitToken = ucast (fst addr)
              \<and> take 16 (ept_physicalIp waitToken) = addressBytes addr));
          tokenEqual = (take 16 (ept_token waitToken) = take 16 (epc_token config)) in
      ipEqual \<and> tokenEqual)"

text \<open>
  \<open>waitToken\<close> is a reference to the element at position \<open>k\<close>. \<open>erase\<close> moves the later elements down, so
  the reference then reads the next token; behind the last one the memory keeps the erased token.
\<close>

definition erased_reference :: "nat \<Rightarrow> ExternalProxyToken list \<Rightarrow> ExternalProxyToken" where
  "erased_reference k tokens =
     (if Suc k < length tokens then tokens ! Suc k else tokens ! k)"

definition remove_nth :: "nat \<Rightarrow> 'a list \<Rightarrow> 'a list" where
  "remove_nth k xs = take k xs @ drop (Suc k) xs"

definition register_user :: "nat \<Rightarrow> sid \<Rightarrow> sst \<Rightarrow> sst run" where
  "register_user k i = (\<lambda>(pool, c, s).
     let waitToken = erased_reference k (srv_waitingTokens s);
         s = s\<lparr>srv_waitingTokens := remove_nth k (srv_waitingTokens s)\<rparr> in
     bind_run (session i s) (\<lambda>x.
       let s = set_session i (x\<lparr>ses_virtualIpAddress := ept_virtualIp waitToken\<rparr>) s;
           pconfig = \<lparr>pcf_proxyIp = ept_virtualIp waitToken, pcf_proxySubnetMask = 0xFFFF0000\<rparr>;
           s = (if srv_players s = [] then Configure pconfig s else s);
           s = s\<lparr>srv_players := AList.update (ept_virtualIp waitToken) i (srv_players s)\<rparr> in
       send_session (Encode_struct PacketId_ProxyConfig (put_ProxyConfig pconfig)) i (pool, c, s)))"

text \<open>
  The loop holds \<open>_tokensLock\<close> while it waits, so tokens arrive only between two rounds. An empty
  list of rounds is the timeout.
\<close>

fun TryRegisterUser_loop ::
    "(u64 \<times> ExternalProxyToken list) list \<Rightarrow> u8 \<times> u32 \<Rightarrow> ExternalProxyConfig \<Rightarrow> sid \<Rightarrow> sst
       \<Rightarrow> (bool \<times> sst) run" where
  "TryRegisterUser_loop rounds addr config i (pool, c, s) =
     (case find (\<lambda>k. token_matches addr config (srv_waitingTokens s ! k))
             [0..<length (srv_waitingTokens s)] of
        Some k \<Rightarrow>
          bind_run (register_user k i (pool, c, s\<lparr>srv_waits := rounds\<rparr>)) (\<lambda>st. Inr (True, st))
      | None \<Rightarrow>
          (case rounds of
             [] \<Rightarrow> Inr (False, pool, c, s\<lparr>srv_waits := []\<rparr>)
           | (elapsed, pushed) # rounds' \<Rightarrow>
               if elapsed \<ge> srv_frequency s * AuthWaitSeconds
               then Inr (False, pool, c, s\<lparr>srv_waits := rounds'\<rparr>)
               else
                 TryRegisterUser_loop rounds' addr config i
                   (pool, c, fold HandleToken pushed (s\<lparr>srv_tokenEvent := False\<rparr>))))"

definition TryRegisterUser :: "sid \<Rightarrow> ExternalProxyConfig \<Rightarrow> sst \<Rightarrow> (bool \<times> sst) run" where
  "TryRegisterUser i config = (\<lambda>(pool, c, s).
     bind_run (session i s) (\<lambda>x.
       case srv_peer s (ses_socket x) of
         None \<Rightarrow> Inr (False, pool, c, s)
       | Some addr \<Rightarrow> TryRegisterUser_loop (srv_waits s) addr config i (pool, c, s)))"

section \<open>The thread of a session\<close>

definition HandleAuthentication :: "sid \<Rightarrow> ExternalProxyConfig \<Rightarrow> sst \<Rightarrow> sst run" where
  "HandleAuthentication i token st =
     bind_run (TryRegisterUser i token st) (\<lambda>(ok, st).
       if \<not> ok then DisconnectAndStop DisconnectProxyClient True i st else Inr st)"

definition ses_registers :: "PacketId \<Rightarrow> bool" where
  "ses_registers t \<longleftrightarrow>
     t \<in> {PacketId_ExternalProxy, PacketId_ProxyDisconnect, PacketId_ProxyData,
          PacketId_ProxyConnectReply, PacketId_ProxyConnect}"

text \<open>
  The handlers of a session. Once its thread waits for itself it never returns to \<open>Read\<close>: whatever
  follows in the bytes of the same \<open>recv\<close> is not handled.
\<close>

definition ses_callbacks :: "sid \<Rightarrow> P2pProxyServer mcw callbacks" where
  "ses_callbacks i ev st =
     (if self_waiting i (snd (snd st)) then Inr st
      else case ev of
        onExternalProxy h token \<Rightarrow> HandleAuthentication i token st
      | onProxyDisconnect h message \<Rightarrow> srv_HandleProxyDisconnect i message st
      | onProxyData h hdr sp \<Rightarrow> srv_HandleProxyData i hdr sp st
      | onProxyConnectReply h response \<Rightarrow> srv_HandleProxyConnectReply i response st
      | onProxyConnect h message \<Rightarrow> srv_HandleProxyConnect i message st
      | _ \<Rightarrow> Inr st)"

definition ses_ReceiveLoop_pass :: "sid \<Rightarrow> recv_answer \<Rightarrow> sst \<Rightarrow> sst run" where
  "ses_ReceiveLoop_pass i answer = (\<lambda>(pool, c, s).
     bind_run (session i s) (\<lambda>x.
       if ses_thread x \<noteq> Receiving then Inr (pool, c, s)
       else if \<not> ses_running x then ReceiveLoop_exit DisconnectProxyClient i (pool, c, s)
       else
         case answer of
           Got bs \<Rightarrow>
             let buffer = take 8192 bs in
             if buffer = [] then ReceiveLoop_exit DisconnectProxyClient i (pool, c, s)
             else
               bind_run
                 (Read ses_registers (ses_callbacks i) buffer 0 (int (length buffer))
                    (ses_protocol x, pool, c, s))
                 (\<lambda>(prot, pool, c, s). bind_run (session i s) (\<lambda>x.
                    Inr (pool, c, set_session i (x\<lparr>ses_protocol := prot\<rparr>) s)))
         | Interrupted \<Rightarrow> Inr (pool, c, s)
         | Failed \<Rightarrow> ReceiveLoop_exit DisconnectProxyClient i (pool, c, s)))"

end
