(* ===== verification/P2p_Host.thy ===== *)
theory P2p_Host
  imports P2p_Server
begin

text \<open>
  The life of \<open>P2pProxyServer\<close>: listening, accepting, the port mapping and its lease, and the
  shutdown. The gateway and its state go through \<open>CreatePortMapping\<close> and \<open>DeletePortMapping\<close>.
\<close>

section \<open>Starting\<close>

text \<open>The answers to \<open>socket\<close>, \<open>bind\<close>, \<open>listen\<close>, and the allocation and creation of the thread.\<close>

record ListenAnswer =
  li_socket :: int
  li_bind :: bool
  li_listen :: bool
  li_stack :: bool
  li_thread :: bool

definition close_listen :: "P2pProxyServer \<Rightarrow> P2pProxyServer" where
  "close_listen s = s\<lparr>srv_open := remove1 (srv_listenSocket s) (srv_open s), srv_listenSocket := -1\<rparr>"

definition srv_Start :: "ListenAnswer \<Rightarrow> P2pProxyServer \<Rightarrow> bool \<times> P2pProxyServer" where
  "srv_Start a s =
     (if srv_running s then (False, s)
      else
        let s = s\<lparr>srv_listenSocket := li_socket a\<rparr> in
        if srv_listenSocket s < 0 then (False, s)
        else
          let s = s\<lparr>srv_open := srv_listenSocket s # srv_open s\<rparr> in
          if \<not> li_bind a then (False, close_listen s)
          else if \<not> li_listen a then (False, close_listen s)
          else if \<not> li_stack a then (False, close_listen s)
          else if \<not> li_thread a then (False, close_listen (s\<lparr>srv_acceptThread := NoThread\<rparr>))
          else (True, s\<lparr>srv_running := True, srv_acceptThread := Receiving\<rparr>))"

section \<open>Accepting\<close>

text \<open>
  The descriptor \<open>accept\<close> returns, whether a new session object can be allocated, and whether its
  thread gets a stack and is created.
\<close>

record AcceptAnswer =
  ac_socket :: int
  ac_alloc :: bool
  ac_stack :: bool
  ac_thread :: bool

definition AcceptLoop_pass :: "AcceptAnswer \<Rightarrow> sst \<Rightarrow> sst run" where
  "AcceptLoop_pass a = (\<lambda>(pool, c, s).
     if srv_acceptThread s \<noteq> Receiving then Inr (pool, c, s)
     else if \<not> srv_running s then Inr (pool, c, s\<lparr>srv_acceptThread := Ended\<rparr>)
     else if ac_socket a < 0 then Inr (pool, c, s\<lparr>srv_acceptThread := Ended\<rparr>)
     else
       bind_run (Acquire (ac_alloc a) (ac_socket a) (pool, c, s\<lparr>srv_open := ac_socket a # srv_open s\<rparr>))
         (\<lambda>(r, pool, c, s).
            case r of
              None \<Rightarrow> Inr (pool, c, s\<lparr>srv_open := remove1 (ac_socket a) (srv_open s)\<rparr>)
            | Some i \<Rightarrow>
                bind_run (ses_Start (ac_stack a) (ac_thread a) i s) (\<lambda>(ok, s).
                  if \<not> ok then Release i (pool, c, s) else Inr (pool, c, s))))"

section \<open>The port mapping\<close>

definition RefreshLease :: "'g IGD \<Rightarrow> LocalAnswer \<Rightarrow> P2pProxyServer \<times> 'g \<Rightarrow> bool \<times> P2pProxyServer \<times> 'g" where
  "RefreshLease igd a = (\<lambda>(s, g).
     if \<not> srv_hasPortMapping s then (False, s, g)
     else
       let (ok, u, g) = CreatePortMapping igd a (srv_portMapping s) (srv_upnpClient s, g) in
       (ok, s\<lparr>srv_upnpClient := u\<rparr>, g))"

text \<open>A pass of \<open>LeaseRenewalLoop\<close>: the tests around the sleep, and one refresh.\<close>

definition LeaseRenewalLoop_pass :: "'g IGD \<Rightarrow> LocalAnswer \<Rightarrow> P2pProxyServer \<times> 'g \<Rightarrow> P2pProxyServer \<times> 'g" where
  "LeaseRenewalLoop_pass igd a = (\<lambda>(s, g).
     if srv_leaseThread s \<noteq> Receiving then (s, g)
     else if \<not> srv_leaseThreadRunning s \<or> srv_disposed s then (s\<lparr>srv_leaseThread := Ended\<rparr>, g)
     else let (ok, s, g) = RefreshLease igd a (s, g) in (s, g))"

text \<open>
  The loop of \<open>NatPunch\<close> over the public ports; \<open>stack_ok\<close> and \<open>thread_ok\<close> say whether the lease thread
  comes up. The result is the value the method returns.
\<close>

fun NatPunch_loop ::
    "nat \<Rightarrow> 'g IGD \<Rightarrow> LocalAnswer \<Rightarrow> bool \<Rightarrow> bool \<Rightarrow> P2pProxyServer \<times> 'g \<Rightarrow> u16 \<times> P2pProxyServer \<times> 'g" where
  "NatPunch_loop 0 igd a stack_ok thread_ok (s, g) = (0, s\<lparr>srv_publicPort := 0\<rparr>, g)"
| "NatPunch_loop (Suc n) igd a stack_ok thread_ok (s, g) =
     (let m = PortMapping_new UpnpTCP (srv_privatePort s) (srv_publicPort s) PortLeaseLength
                ''RyuLDN Local Multiplayer'';
          (ok, u, g) = CreatePortMapping igd a m (srv_upnpClient s, g);
          s = s\<lparr>srv_portMapping := m, srv_upnpClient := u\<rparr> in
      if ok then
        let s = s\<lparr>srv_hasPortMapping := True\<rparr>;
            s = (if stack_ok \<and> thread_ok
                 then s\<lparr>srv_leaseThreadRunning := True, srv_leaseThread := Receiving\<rparr> else s) in
        (srv_publicPort s, s, g)
      else if GetLastHttpStatus (srv_upnpClient s) = 404 then (0, s\<lparr>srv_publicPort := 0\<rparr>, g)
      else NatPunch_loop n igd a stack_ok thread_ok (s\<lparr>srv_publicPort := srv_publicPort s + 1\<rparr>, g))"

definition NatPunch ::
    "IgdAnswer option \<Rightarrow> 'g IGD \<Rightarrow> LocalAnswer \<Rightarrow> bool \<Rightarrow> bool \<Rightarrow> P2pProxyServer \<times> 'g
       \<Rightarrow> u16 \<times> P2pProxyServer \<times> 'g" where
  "NatPunch devlist igd a stack_ok thread_ok = (\<lambda>(s, g).
     let (found, u) = DiscoverDevice devlist (srv_upnpClient s);
         s = s\<lparr>srv_upnpClient := u\<rparr> in
     if \<not> found then (0, s, g)
     else NatPunch_loop PublicPortRange igd a stack_ok thread_ok
            (s\<lparr>srv_publicPort := PublicPortBase\<rparr>, g))"

section \<open>Stopping\<close>

text \<open>Closing the listening socket makes \<open>accept\<close> fail, so the accept thread ends.\<close>

definition srv_Stop :: "sst \<Rightarrow> sst run" where
  "srv_Stop = (\<lambda>(pool, c, s).
     if \<not> srv_running s then Inr (pool, c, s)
     else
       let s = s\<lparr>srv_running := False\<rparr>;
           s = (if 0 \<le> srv_listenSocket s then close_listen s else s) in
       if srv_acceptThread s = NoThread then Inl InvalidThread
       else
         bind_run (Clear (pool, c, s\<lparr>srv_acceptThread := NoThread\<rparr>)) (\<lambda>(pool, c, s).
           let s = s\<lparr>srv_players := []\<rparr> in
           if srv_leaseThreadRunning s then
             if srv_leaseThread s = NoThread then Inl InvalidThread
             else Inr (pool, c, s\<lparr>srv_leaseThreadRunning := False, srv_leaseThread := NoThread\<rparr>)
           else Inr (pool, c, s)))"

definition srv_Dispose :: "'g IGD \<Rightarrow> sst \<times> 'g \<Rightarrow> (sst \<times> 'g) run" where
  "srv_Dispose igd = (\<lambda>((pool, c, s), g).
     if srv_disposed s then Inr ((pool, c, s), g)
     else
       bind_run (srv_Stop (pool, c, s\<lparr>srv_disposed := True\<rparr>)) (\<lambda>(pool, c, s).
         let (s, g) =
               (if srv_hasPortMapping s then
                  let (ok, u, g) = DeletePortMapping igd (srv_portMapping s) (srv_upnpClient s, g) in
                  (s\<lparr>srv_upnpClient := u, srv_hasPortMapping := False\<rparr>, g)
                else (s, g)) in
         Inr ((pool, c, s\<lparr>srv_handlers := False\<rparr>), g)))"

text \<open>The destructor: \<open>Dispose\<close>, then the destructor of the pool, then the one of the UPnP client.\<close>

definition P2pProxyServer_destroy :: "'g IGD \<Rightarrow> sst \<times> 'g \<Rightarrow> (sst \<times> 'g) run" where
  "P2pProxyServer_destroy igd stg =
     bind_run (srv_Dispose igd stg) (\<lambda>(st, g).
     bind_run (Clear st) (\<lambda>(pool, c, s).
       Inr ((pool, c, s\<lparr>srv_upnpClient := UpnpClient_destroy (srv_upnpClient s)\<rparr>), g)))"

end
