(* ===== verification/P2p_Pool.thy ===== *)
theory P2p_Pool
  imports P2p_Host
begin

text \<open>
  The session pool as a lending pool of slots, and what stopping, resetting, acquiring and releasing a
  session does to the server.
\<close>

section \<open>Slots\<close>

definition ids :: "SessionPool \<Rightarrow> sid set" where
  "ids p = {i. \<exists>k < length (sp_sessions p). sl_val (sp_sessions p ! k) = Some i}"

definition sp_inv :: "SessionPool \<Rightarrow> sid \<Rightarrow> bool" where
  "sp_inv p n \<longleftrightarrow>
     length (sp_sessions p) = MaxPooledSessions \<and> slots_ok (sp_sessions p) (sp_freeList p)
     \<and> sp_activeCount p = card (busy_slots (sp_sessions p))
     \<and> (\<forall>k \<in> busy_slots (sp_sessions p). sl_val (sp_sessions p ! k) \<noteq> None)
     \<and> (\<forall>k l i. k < length (sp_sessions p) \<longrightarrow> l < length (sp_sessions p) \<longrightarrow>
          sl_val (sp_sessions p ! k) = Some i \<longrightarrow> sl_val (sp_sessions p ! l) = Some i \<longrightarrow> k = l)
     \<and> (\<forall>i \<in> ids p. i < n)"

lemma is_chain_cong:
  assumes "map sl_next ss = map sl_next tt"
  shows "is_chain ss f js = is_chain tt f js"
proof -
  have n: "sl_next (ss ! i) = sl_next (tt ! i)" if "i < length ss" for i
    using assms that map_eq_imp_length_eq [OF assms] by (metis nth_map)
  have l: "length ss = length tt" using assms by (rule map_eq_imp_length_eq)
  show ?thesis by (induction js arbitrary: f) (use n l in auto)
qed

lemma slots_ok_cong:
  assumes "map sl_next ss = map sl_next tt" and "map sl_inUse ss = map sl_inUse tt"
  shows "slots_ok ss f = slots_ok tt f"
proof -
  have "length ss = length tt" using assms(1) by (rule map_eq_imp_length_eq)
  moreover have "sl_inUse (ss ! i) = sl_inUse (tt ! i)" if "i < length ss" for i
    using assms(2) that calculation by (metis nth_map)
  ultimately have "free_slots ss = free_slots tt" by (auto simp: free_slots_def)
  then show ?thesis by (simp add: slots_ok_def is_chain_cong [OF assms(1)])
qed

lemma slots_ok_take:
  assumes "slots_ok ss (Some k)"
  shows "slots_ok (ss[k := \<lparr>sl_val = v, sl_inUse = True, sl_next = None\<rparr>]) (sl_next (ss ! k))"
proof -
  have "slots_ok (ss[k := \<lparr>sl_val = v, sl_inUse = True, sl_next = None\<rparr>]) (sl_next (ss ! k)) =
        slots_ok (ss[k := (ss ! k)\<lparr>sl_inUse := True, sl_next := None\<rparr>]) (sl_next (ss ! k))"
    by (rule slots_ok_cong) (simp_all add: map_update)
  then show ?thesis using slots_ok_pop [OF assms] by simp
qed

text \<open>The part of \<open>Acquire\<close> and of \<open>Release\<close> that changes the slots.\<close>

definition slot_session :: "nat \<Rightarrow> SessionPool \<Rightarrow> sid \<Rightarrow> sid" where
  "slot_session k p n = (case sl_val (sp_sessions p ! k) of Some i \<Rightarrow> i | None \<Rightarrow> n)"

definition acquire_slot :: "SessionPool \<times> sid \<Rightarrow> nat option \<times> SessionPool \<times> sid" where
  "acquire_slot = (\<lambda>(p, n).
     case sp_freeList p of
       None \<Rightarrow> (None, p, n)
     | Some k \<Rightarrow> (Some k, take_slot k (slot_session k p n) p, max n (Suc (slot_session k p n))))"

definition release_slot :: "nat \<Rightarrow> SessionPool \<times> sid \<Rightarrow> SessionPool \<times> sid" where
  "release_slot k = (\<lambda>(p, n). (if k \<in> busy_slots (sp_sessions p) then free_slot k p else p, n))"

lemma sp_inv_new: "sp_inv SessionPool_new 0"
proof -
  have "busy_slots (fresh_slots MaxPooledSessions (\<lambda>_. None :: sid option)) = {}"
    by (auto simp: busy_slots_def fresh_slots_def)
  then show ?thesis
    by (simp add: sp_inv_def SessionPool_new_def ids_def slots_ok_fresh MaxPooledSessions_def)
      (auto simp: fresh_slots_def less_Suc_eq)
qed

lemma free_slot_val [simp]: "sl_val (sp_sessions (free_slot k p) ! j) = sl_val (sp_sessions p ! j)"
proof (cases "k < length (sp_sessions p)")
  case True
  then show ?thesis by (cases "j = k") (simp_all add: free_slot_def nth_list_update)
qed (simp add: free_slot_def list_update_beyond)

lemma length_free_slot [simp]: "length (sp_sessions (free_slot k p)) = length (sp_sessions p)"
  by (simp add: free_slot_def)

lemma length_take_slot [simp]: "length (sp_sessions (take_slot k i p)) = length (sp_sessions p)"
  by (simp add: take_slot_def)

lemma ids_free [simp]: "ids (free_slot k p) = ids p"
  by (simp add: ids_def)

lemma idsI: "l < length (sp_sessions p) \<Longrightarrow> sl_val (sp_sessions p ! l) = Some i \<Longrightarrow> i \<in> ids p"
  by (auto simp: ids_def)

lemma ids_lt: "sp_inv p n \<Longrightarrow> l < length (sp_sessions p) \<Longrightarrow> sl_val (sp_sessions p ! l) = Some i \<Longrightarrow> i < n"
  using idsI by (auto simp: sp_inv_def)

lemma sp_inv_inj:
  assumes "sp_inv p n" and "k < length (sp_sessions p)" and "l < length (sp_sessions p)"
    and "sl_val (sp_sessions p ! k) = Some i" and "sl_val (sp_sessions p ! l) = Some i"
  shows "k = l"
  using assms unfolding sp_inv_def by blast

lemma take_slot_val:
  "k < length (sp_sessions p) \<Longrightarrow>
   sl_val (sp_sessions (take_slot k i p) ! l) = (if l = k then Some i else sl_val (sp_sessions p ! l))"
  by (simp add: take_slot_def)

lemma sp_inv_head:
  assumes "sp_inv p n" and "sp_freeList p = Some k"
  shows "k < length (sp_sessions p)" "k \<notin> busy_slots (sp_sessions p)"
  using slots_ok_SomeD [of "sp_sessions p" k] assms
  by (auto simp: sp_inv_def free_slots_def busy_slots_def)

lemma busy_take:
  "k < length (sp_sessions p) \<Longrightarrow>
   busy_slots (sp_sessions (take_slot k i p)) = insert k (busy_slots (sp_sessions p))"
  by (simp add: take_slot_def busy_slots_update)

lemma busy_free:
  "k \<in> busy_slots (sp_sessions p) \<Longrightarrow>
   busy_slots (sp_sessions (free_slot k p)) = busy_slots (sp_sessions p) - {k}"
  by (auto simp: free_slot_def busy_slots_update busy_slots_def nth_list_update split: if_splits)

lemma sp_inv_full: "sp_inv p n \<Longrightarrow> sp_freeList p = None \<Longrightarrow> card (busy_slots (sp_sessions p)) = MaxPooledSessions"
  using card_busy [of "sp_sessions p"] by (simp add: sp_inv_def slots_ok_None)

lemma sp_inv_cap: "sp_inv p n \<Longrightarrow> card (busy_slots (sp_sessions p)) \<le> MaxPooledSessions"
  using card_busy [of "sp_sessions p"] by (simp add: sp_inv_def)

lemma sp_inv_take:
  assumes inv: "sp_inv p n" and f: "sp_freeList p = Some k"
  shows "sp_inv (take_slot k (slot_session k p n) p) (max n (Suc (slot_session k p n)))"
proof -
  let ?i = "slot_session k p n"
  note k = sp_inv_head [OF inv f] and lt = ids_lt [OF inv]
  have uniq: "l = k" if "l < length (sp_sessions p)" "sl_val (sp_sessions p ! l) = Some ?i" for l
  proof (cases "sl_val (sp_sessions p ! k)")
    case None
    with lt [OF that] show ?thesis by (simp add: slot_session_def)
  next
    case (Some i)
    with inv k(1) that show ?thesis by (auto simp: sp_inv_def slot_session_def)
  qed
  have s: "slots_ok (sp_sessions (take_slot k ?i p)) (sp_freeList (take_slot k ?i p))"
    using slots_ok_take [of "sp_sessions p" k] inv f by (simp add: sp_inv_def take_slot_def)
  note b = busy_take [OF k(1), of ?i]
  have inj: "l = m" if "l < length (sp_sessions p)" "m < length (sp_sessions p)"
    "sl_val (sp_sessions (take_slot k ?i p) ! l) = Some i" "sl_val (sp_sessions (take_slot k ?i p) ! m) = Some i"
    for l m i
  proof (cases "l = k \<or> m = k")
    case True
    then show ?thesis
      using that uniq [of l] uniq [of m] by (auto simp: take_slot_val [OF k(1)] split: if_splits)
  next
    case False
    then show ?thesis
      using that(3,4) sp_inv_inj [OF inv that(1,2)] by (simp add: take_slot_val [OF k(1)])
  qed
  have bound: "i < max n (Suc ?i)" if "i \<in> ids (take_slot k ?i p)" for i
  proof -
    obtain l where l: "l < length (sp_sessions p)" "sl_val (sp_sessions (take_slot k ?i p) ! l) = Some i"
      using \<open>i \<in> ids (take_slot k ?i p)\<close> by (auto simp: ids_def)
    then show ?thesis
      using lt [OF l(1)] by (cases "l = k") (auto simp: take_slot_val [OF k(1)] less_max_iff_disj)
  qed
  have val: "\<forall>l \<in> busy_slots (sp_sessions (take_slot k ?i p)). sl_val (sp_sessions (take_slot k ?i p) ! l) \<noteq> None"
    using inv by (auto simp: b take_slot_val [OF k(1)] sp_inv_def)
  have c: "sp_activeCount (take_slot k ?i p) = card (busy_slots (sp_sessions (take_slot k ?i p)))"
    using inv k(2) by (simp add: b) (simp add: take_slot_def sp_inv_def)
  have "length (sp_sessions p) = MaxPooledSessions" using inv by (simp add: sp_inv_def)
  with s c val inj bound show ?thesis unfolding sp_inv_def [of "take_slot k ?i p"] by (intro conjI) auto
qed

lemma sp_inv_free:
  assumes inv: "sp_inv p n" and k: "k \<in> busy_slots (sp_sessions p)"
  shows "sp_inv (free_slot k p) n"
proof -
  have "slots_ok (sp_sessions (free_slot k p)) (sp_freeList (free_slot k p))"
    using slots_ok_push [of "sp_sessions p" "sp_freeList p" k] inv k by (simp add: sp_inv_def free_slot_def)
  moreover have "sp_activeCount (free_slot k p) = card (busy_slots (sp_sessions p) - {k})"
    using inv k by (simp add: sp_inv_def free_slot_def)
  ultimately show ?thesis
    using inv busy_free [OF k] by (simp add: sp_inv_def)
qed

interpretation slots: lending_pool "\<lambda>(p, n). sp_inv p n" "\<lambda>(p, n). busy_slots (sp_sessions p)"
    acquire_slot release_slot MaxPooledSessions
proof unfold_locales
  show "(\<lambda>(p, n). busy_slots (sp_sessions p)) (release_slot k s) = (\<lambda>(p, n). busy_slots (sp_sessions p)) s - {k}"
    if "(\<lambda>(p, n). sp_inv p n) s" for k s
    using that by (cases s) (simp add: release_slot_def busy_free)
qed (auto simp: acquire_slot_def release_slot_def sp_inv_take sp_inv_free sp_inv_full sp_inv_cap
      busy_take sp_inv_head(1) dest: sp_inv_head(2) split: option.splits)

end
