(* ===== verification/P2p_Machine.thy ===== *)
theory P2p_Machine
  imports P2p_Pool "HOL-Library.Multiset"
begin

text \<open>
  The invariant of the host and its preservation by every step: connections accepted, packets received
  from the guests, tokens and state changes from the master server, the threads of the port mapping,
  and the shutdown.
\<close>

section \<open>The invariant\<close>

text \<open>The sessions in slots that are free.\<close>

definition parked :: "SessionPool \<Rightarrow> sid set" where
  "parked p = {i. \<exists>k \<in> free_slots (sp_sessions p). sl_val (sp_sessions p ! k) = Some i}"

definition ses_ok :: "P2pProxySession \<Rightarrow> bool" where
  "ses_ok x \<longleftrightarrow> (ses_running x \<longleftrightarrow> ses_thread x \<in> {Receiving, Ended})"

text \<open>Every address at most once, and only sessions that exist.\<close>

definition players_ok :: "sid set \<Rightarrow> (u32 \<times> sid) list \<Rightarrow> bool" where
  "players_ok D ps \<longleftrightarrow> distinct (map fst ps) \<and> snd ` set ps \<subseteq> D"

definition srv_inv :: "P2pProxyServer \<Rightarrow> bool" where
  "srv_inv s \<longleftrightarrow>
     sp_inv (srv_sessionPool s) (srv_fresh s) \<and> dom (srv_heap s) = ids (srv_sessionPool s)
     \<and> (\<forall>i x. srv_heap s i = Some x \<longrightarrow>
          ses_ok x \<and> (i \<in> parked (srv_sessionPool s) \<longrightarrow> ses_thread x \<noteq> Receiving))
     \<and> players_ok (ids (srv_sessionPool s)) (srv_players s)"

lemma srv_inv_fields [simp]:
  "srv_inv (s\<lparr>srv_wire := a\<rparr>) = srv_inv s" "srv_inv (s\<lparr>srv_sends := b\<rparr>) = srv_inv s"
  "srv_inv (s\<lparr>srv_open := d\<rparr>) = srv_inv s" "srv_inv (s\<lparr>srv_waitingTokens := e\<rparr>) = srv_inv s"
  "srv_inv (s\<lparr>srv_tokenEvent := f\<rparr>) = srv_inv s" "srv_inv (s\<lparr>srv_waits := g\<rparr>) = srv_inv s"
  "srv_inv (s\<lparr>srv_broadcastAddress := h\<rparr>) = srv_inv s" "srv_inv (s\<lparr>srv_acceptThread := k\<rparr>) = srv_inv s"
  "srv_inv (s\<lparr>srv_running := l\<rparr>) = srv_inv s" "srv_inv (s\<lparr>srv_listenSocket := m\<rparr>) = srv_inv s"
  "srv_inv (s\<lparr>srv_leaseThread := k\<rparr>) = srv_inv s" "srv_inv (s\<lparr>srv_leaseThreadRunning := l\<rparr>) = srv_inv s"
  "srv_inv (s\<lparr>srv_upnpClient := u\<rparr>) = srv_inv s" "srv_inv (s\<lparr>srv_portMapping := v\<rparr>) = srv_inv s"
  "srv_inv (s\<lparr>srv_hasPortMapping := l\<rparr>) = srv_inv s" "srv_inv (s\<lparr>srv_publicPort := q\<rparr>) = srv_inv s"
  "srv_inv (s\<lparr>srv_peer := r\<rparr>) = srv_inv s" "srv_inv (s\<lparr>srv_stack := t\<rparr>) = srv_inv s"
  "srv_inv (s\<lparr>srv_stranded := n\<rparr>) = srv_inv s" "srv_inv (s\<lparr>srv_disposed := l\<rparr>) = srv_inv s"
  "srv_inv (s\<lparr>srv_handlers := l\<rparr>) = srv_inv s"
  by (simp_all add: srv_inv_def)

text \<open>The threads of the server itself, and the flags that go with them.\<close>

definition threads :: "P2pProxyServer \<Rightarrow> bool \<times> thread \<times> bool \<times> thread" where
  "threads s = (srv_running s, srv_acceptThread s, srv_leaseThreadRunning s, srv_leaseThread s)"

text \<open>A flag that is set comes with its thread.\<close>

definition threads_ok :: "P2pProxyServer \<Rightarrow> bool" where
  "threads_ok s \<longleftrightarrow>
     (srv_running s \<longrightarrow> srv_acceptThread s \<noteq> NoThread)
     \<and> (srv_leaseThreadRunning s \<longrightarrow> srv_leaseThread s \<noteq> NoThread)"

lemma threads_ok_cong: "threads t = threads s \<Longrightarrow> threads_ok t = threads_ok s"
  by (simp add: threads_def threads_ok_def)

lemma threads_fields [simp]:
  "threads (s\<lparr>srv_wire := a\<rparr>) = threads s" "threads (s\<lparr>srv_sends := b\<rparr>) = threads s"
  "threads (s\<lparr>srv_open := d\<rparr>) = threads s" "threads (s\<lparr>srv_waitingTokens := e\<rparr>) = threads s"
  "threads (s\<lparr>srv_tokenEvent := f\<rparr>) = threads s" "threads (s\<lparr>srv_waits := g\<rparr>) = threads s"
  "threads (s\<lparr>srv_broadcastAddress := h\<rparr>) = threads s" "threads (s\<lparr>srv_players := k\<rparr>) = threads s"
  "threads (set_session i x s) = threads s" "threads (on_pool q s) = threads s"
  "threads (s\<lparr>srv_fresh := n\<rparr>) = threads s"
  by (simp_all add: threads_def set_session_def on_pool_def)

lemma session_Inr [simp]: "session i s = Inr x \<longleftrightarrow> srv_heap s i = Some x"
  by (simp add: session_def split: option.split)

lemma session_Some: "srv_heap s i = Some x \<Longrightarrow> session i s = Inr x"
  by simp

lemma heap_set_session [simp]: "srv_heap (set_session i x s) = (srv_heap s)(i \<mapsto> x)"
  by (simp add: set_session_def)

lemma set_session_fields [simp]:
  "srv_players (set_session i x s) = srv_players s"
  "srv_sessionPool (set_session i x s) = srv_sessionPool s"
  "srv_fresh (set_session i x s) = srv_fresh s"
  by (simp_all add: set_session_def)

lemma set_session_same: "srv_heap s i = Some x \<Longrightarrow> set_session i x s = s"
  by (simp add: set_session_def fun_upd_idem)

lemma srv_inv_set_session:
  assumes "srv_inv s" and "srv_heap s i = Some x" and "ses_ok y"
    and "i \<in> parked (srv_sessionPool s) \<Longrightarrow> ses_thread y \<noteq> Receiving"
  shows "srv_inv (set_session i y s)"
  using assms by (auto simp: srv_inv_def)

lemma srv_invD:
  assumes "srv_inv s" and "srv_heap s i = Some x"
  shows "ses_ok x" and "i \<in> parked (srv_sessionPool s) \<Longrightarrow> ses_thread x \<noteq> Receiving"
    and "i \<in> ids (srv_sessionPool s)"
  using assms by (auto simp: srv_inv_def)

lemma srv_inv_live:
  assumes "srv_inv s" and "i \<in> ids (srv_sessionPool s)"
  obtains x where "srv_heap s i = Some x"
proof -
  from assms have "i \<in> dom (srv_heap s)" by (simp add: srv_inv_def)
  with that show thesis by blast
qed

lemma srv_inv_player:
  assumes "srv_inv s" and "map_of (srv_players s) ip = Some i"
  obtains x where "srv_heap s i = Some x"
proof -
  from assms have "i \<in> ids (srv_sessionPool s)"
    by (auto simp: srv_inv_def players_ok_def dest!: map_of_SomeD)
  with srv_inv_live [OF assms(1)] that show thesis by blast
qed

lemma srv_inv_same_thread:
  "srv_inv s \<Longrightarrow> srv_heap s i = Some x \<Longrightarrow> ses_running y = ses_running x \<Longrightarrow> ses_thread y = ses_thread x
   \<Longrightarrow> srv_inv (set_session i y s)"
  by (rule srv_inv_set_session) (auto simp: ses_ok_def dest: srv_invD)

lemma snd_update: "snd ` set (AList.update k v ps) \<subseteq> insert v (snd ` set ps)"
  by (induction ps) auto

lemma players_ok_update: "players_ok D ps \<Longrightarrow> i \<in> D \<Longrightarrow> players_ok D (AList.update ip i ps)"
  using snd_update [of ip i ps] by (auto simp: players_ok_def distinct_update)

lemma players_ok_delete: "players_ok D ps \<Longrightarrow> players_ok D (AList.delete ip ps)"
  by (auto simp: players_ok_def distinct_delete AList.delete_eq dest: subsetD) (auto simp: distinct_map_filter)

lemma srv_inv_add_player:
  "srv_inv s \<Longrightarrow> srv_heap s i = Some x \<Longrightarrow>
   srv_inv (s\<lparr>srv_players := AList.update ip i (srv_players s)\<rparr>)"
  using srv_invD(3) [of s i x] by (simp add: srv_inv_def players_ok_update)

lemma srv_inv_del_player:
  "srv_inv s \<Longrightarrow> srv_inv (s\<lparr>srv_players := AList.delete ip (srv_players s)\<rparr>)"
  by (simp add: srv_inv_def players_ok_delete)

section \<open>Packets from a guest\<close>

text \<open>Sending changes only what the network has seen.\<close>

definition only_sent :: "P2pProxyServer \<Rightarrow> P2pProxyServer \<Rightarrow> bool" where
  "only_sent s t \<longleftrightarrow> (\<exists>w r. t = s\<lparr>srv_wire := w, srv_sends := r\<rparr>)"

lemma only_sent_refl [simp]: "only_sent s s"
  unfolding only_sent_def by (intro exI [of _ "srv_wire s"] exI [of _ "srv_sends s"]) simp

lemma only_sentI: "only_sent s (s\<lparr>srv_wire := w, srv_sends := r\<rparr>)"
  unfolding only_sent_def by blast

lemma only_sent_keeps: "only_sent s t \<Longrightarrow> srv_inv t = srv_inv s \<and> srv_heap t = srv_heap s \<and> threads t = threads s"
  by (auto simp: only_sent_def)

lemma ses_SendAsync_sent: "ses_SendAsync i bs s = Inr (r, t) \<Longrightarrow> only_sent s t"
proof -
  assume a: "ses_SendAsync i bs s = Inr (r, t)"
  then obtain x where x: "srv_heap s i = Some x" by (auto simp: ses_SendAsync_def bind_run_Inr_iff)
  obtain n out rs where n: "send_once (srv_sends s) bs = (n, out, rs)" by (cases "send_once (srv_sends s) bs")
  from a x n show ?thesis
    by (cases "ses_socket x < 0") (auto simp: ses_SendAsync_def session_Some [OF x] only_sentI)
qed

lemma send_session_Inr:
  assumes "send_session encode i (p, c, s) = Inr (p', c', t)"
  shows "c' = c \<and> only_sent s t"
proof -
  obtain r where "encode_scoped encode (\<lambda>bs (c, s). bind_run (ses_SendAsync i bs s) (\<lambda>(r, s). Inr (r, c, s)))
      (p, c, s) = Inr (r, p', c', t)"
    using assms by (auto simp: send_session_def bind_run_Inr_iff)
  from encode_scoped_Inr [OF this] show ?thesis
    by (auto simp: bind_run_Inr_iff dest: ses_SendAsync_sent)
qed

text \<open>What holds while the thread of session \<open>i\<close> handles a packet.\<close>

definition serving :: "sid \<Rightarrow> bool \<times> thread \<times> bool \<times> thread \<Rightarrow> P2pProxyServer \<Rightarrow> bool" where
  "serving i T s \<longleftrightarrow> srv_inv s \<and> srv_heap s i \<noteq> None \<and> threads s = T"

lemma serving_sent: "only_sent s t \<Longrightarrow> serving i T s \<Longrightarrow> serving i T t"
  by (auto simp: serving_def only_sent_keeps)

lemma for_players_serving:
  assumes "\<And>j p c s p' c' s'. serving i T s \<Longrightarrow> action j (p, c, s) = Inr (p', c', s') \<Longrightarrow> serving i T s'"
  shows "serving i T s \<Longrightarrow> for_players action ps (p, c, s) = Inr (p', c', s') \<Longrightarrow> serving i T s'"
proof (induction ps arbitrary: p c s)
  case (Cons a ps)
  obtain ip j where a: "a = (ip, j)" by force
  from Cons.prems(2) a obtain q d t where "action j (p, c, s) = Inr (q, d, t)"
    "for_players action ps (q, d, t) = Inr (p', c', s')"
    by (auto simp: bind_run_Inr_iff)
  with Cons.IH assms [OF Cons.prems(1)] show ?case by blast
qed simp

text \<open>What \<open>RouteMessage\<close> does in one line: who may send as whom, and who gets the message.\<close>

definition may_send :: "P2pProxySession \<Rightarrow> ProxyInfo \<Rightarrow> bool" where
  "may_send x info \<longleftrightarrow> pin_sourceIpV4 info = 0 \<or> pin_sourceIpV4 info = ses_virtualIpAddress x"

definition sent_as :: "P2pProxySession \<Rightarrow> ProxyInfo \<Rightarrow> ProxyInfo" where
  "sent_as x info = info\<lparr>pin_sourceIpV4 := ses_virtualIpAddress x\<rparr>"

definition targets :: "ProxyInfo \<Rightarrow> P2pProxyServer \<Rightarrow> (u32 \<times> sid) list" where
  "targets info s =
     (if pin_destIpV4 info \<in> {hardcoded_broadcast, srv_broadcastAddress s} then srv_players s
      else case map_of (srv_players s) (pin_destIpV4 info) of
             None \<Rightarrow> [] | Some j \<Rightarrow> [(pin_destIpV4 info, j)])"

lemma RouteMessage_targets:
  assumes "srv_heap s i = Some x"
  shows "RouteMessage i info action (p, c, s) =
     (if may_send x info then for_players (action (sent_as x info)) (targets info s) (p, c, s)
      else Inr (p, c, s))"
proof -
  have b: "bind_run m (for_players a []) = m" for m a by (cases m) simp_all
  have e: "(if pin_sourceIpV4 info = 0 then info\<lparr>pin_sourceIpV4 := ses_virtualIpAddress x\<rparr> else info) = sent_as x info"
    if "may_send x info"
    using that by (auto simp: may_send_def sent_as_def)
  show ?thesis
  proof (cases "may_send x info")
    case True
    then show ?thesis
      by (simp add: RouteMessage_def session_Some [OF assms] e Let_def)
        (auto simp: may_send_def sent_as_def targets_def b split: option.split)
  next
    case False
    then show ?thesis by (simp add: RouteMessage_def session_Some [OF assms] may_send_def)
  qed
qed

lemma RouteMessage_serving:
  assumes "\<And>info j p c s p' c' s'. serving i T s \<Longrightarrow> action info j (p, c, s) = Inr (p', c', s') \<Longrightarrow> serving i T s'"
    and "serving i T s" and "RouteMessage i info action (p, c, s) = Inr (p', c', s')"
  shows "serving i T s'"
proof -
  obtain x where x: "srv_heap s i = Some x" using assms(2) by (auto simp: serving_def)
  show ?thesis
  proof (cases "may_send x info")
    case True
    with assms(3) x have "for_players (action (sent_as x info)) (targets info s) (p, c, s) = Inr (p', c', s')"
      by (simp add: RouteMessage_targets)
    with assms(2) show ?thesis by (rule for_players_serving [OF assms(1), rotated -2])
  qed (use assms(2,3) x in \<open>simp add: RouteMessage_targets\<close>)
qed

lemma send_session_serving:
  "serving i T s \<Longrightarrow> send_session encode j (p, c, s) = Inr (p', c', s') \<Longrightarrow> serving i T s'"
  using send_session_Inr serving_sent by blast

lemma RouteMessage_send_serving:
  assumes "serving i T s" and "RouteMessage i info (\<lambda>info j. send_session (encode info) j) (p, c, s) = Inr (p', c', s')"
  shows "serving i T s'"
  by (rule RouteMessage_serving [OF _ assms]) (rule send_session_serving)

lemma routed_serving:
  "serving i T s \<Longrightarrow> srv_HandleProxyDisconnect i m1 (p, c, s) = Inr (p', c', s') \<Longrightarrow> serving i T s'"
  "serving i T s \<Longrightarrow> srv_HandleProxyData i m2 sp (p, c, s) = Inr (p', c', s') \<Longrightarrow> serving i T s'"
  "serving i T s \<Longrightarrow> srv_HandleProxyConnectReply i m3 (p, c, s) = Inr (p', c', s') \<Longrightarrow> serving i T s'"
  "serving i T s \<Longrightarrow> srv_HandleProxyConnect i m4 (p, c, s) = Inr (p', c', s') \<Longrightarrow> serving i T s'"
  unfolding srv_HandleProxyDisconnect_def srv_HandleProxyData_def srv_HandleProxyConnectReply_def
    srv_HandleProxyConnect_def split_beta
  by (erule (1) RouteMessage_send_serving)+

lemma fold_HandleToken_serving: "serving i T s \<Longrightarrow> serving i T (fold HandleToken ts s)"
  by (induction ts arbitrary: s) (auto simp: HandleToken_def serving_def)

lemma register_user_serving:
  assumes "serving i T s" and "register_user k i (p, c, s) = Inr (p', c', s')"
  shows "serving i T s'"
proof -
  let ?w = "erased_reference k (srv_waitingTokens s)"
  obtain x where x: "srv_heap s i = Some x" using assms(1) by (auto simp: serving_def)
  define y where "y = x\<lparr>ses_virtualIpAddress := ept_virtualIp ?w\<rparr>"
  define t where "t = set_session i y (s\<lparr>srv_waitingTokens := remove_nth k (srv_waitingTokens s)\<rparr>)"
  define pc where "pc = \<lparr>pcf_proxyIp = ept_virtualIp ?w, pcf_proxySubnetMask = 0xFFFF0000\<rparr>"
  define u where "u = (if srv_players t = [] then Configure pc t else t)"
  have "srv_inv t"
    unfolding t_def by (rule srv_inv_same_thread) (use assms(1) x in \<open>auto simp: serving_def y_def\<close>)
  then have u: "srv_inv u" "srv_heap u i = Some y" by (auto simp: u_def Configure_def) (simp_all add: t_def)
  have "send_session (Encode_struct PacketId_ProxyConfig (put_ProxyConfig pc)) i
      (p, c, u\<lparr>srv_players := AList.update (ept_virtualIp ?w) i (srv_players u)\<rparr>) = Inr (p', c', s')"
    using assms(2) x
    by (cases "srv_players s = []") (simp_all add: register_user_def Let_def u_def t_def y_def pc_def session_Some)
  moreover have "serving i T (u\<lparr>srv_players := AList.update (ept_virtualIp ?w) i (srv_players u)\<rparr>)"
    using srv_inv_add_player [OF u] u(2) assms(1)
    by (simp add: serving_def u_def Configure_def t_def)
  ultimately show ?thesis by (rule send_session_serving [rotated])
qed

lemma TryRegisterUser_loop_serving:
  "serving i T s \<Longrightarrow> TryRegisterUser_loop rounds addr config i (p, c, s) = Inr (r, p', c', s') \<Longrightarrow> serving i T s'"
proof (induction rounds arbitrary: s)
  case Nil
  then show ?case
    by (auto simp: bind_run_Inr_iff serving_def dest: register_user_serving [rotated] split: option.splits)
next
  case (Cons a rounds)
  obtain e ts where a: "a = (e, ts)" by force
  let ?f = "find (\<lambda>k. token_matches addr config (srv_waitingTokens s ! k)) [0..<length (srv_waitingTokens s)]"
  show ?case
  proof (cases ?f)
    case (Some k)
    have "serving i T (s\<lparr>srv_waits := a # rounds\<rparr>)" using Cons.prems(1) by (simp add: serving_def)
    with Cons.prems(2) Some show ?thesis by (auto simp: bind_run_Inr_iff dest: register_user_serving)
  next
    case None
    have "serving i T (fold HandleToken ts (s\<lparr>srv_tokenEvent := False\<rparr>))"
      by (rule fold_HandleToken_serving) (use Cons.prems(1) in \<open>simp add: serving_def\<close>)
    note ih = Cons.IH [OF this]
    show ?thesis
      using Cons.prems None ih by (auto simp: a serving_def split: if_splits)
  qed
qed

lemma TryRegisterUser_serving:
  "serving i T s \<Longrightarrow> TryRegisterUser i config (p, c, s) = Inr (r, p', c', s') \<Longrightarrow> serving i T s'"
  by (auto simp: TryRegisterUser_def bind_run_Inr_iff simp del: TryRegisterUser_loop.simps
      split: option.splits dest: TryRegisterUser_loop_serving)

text \<open>A refused guest: the session's own thread waits for itself, unless the session was stopped before.\<close>

definition refused :: "P2pProxySession \<Rightarrow> P2pProxySession" where
  "refused x = (if ses_running x then x\<lparr>ses_masterClosed := True, ses_running := False, ses_thread := WaitsForItself\<rparr>
     else x\<lparr>ses_masterClosed := True\<rparr>)"

lemma refused_ok: "ses_ok x \<Longrightarrow> ses_ok (refused x) \<and> ses_thread (refused x) \<noteq> Receiving"
  by (simp add: ses_ok_def refused_def)

lemma DisconnectAndStop_self:
  assumes "srv_heap s i = Some x"
  shows "DisconnectAndStop d True i (p, c, s) = Inr (p, c, set_session i (refused x) s)"
  using assms
  by (simp add: DisconnectAndStop_def ses_Stop_def session_Some refused_def set_session_def Let_def)

lemma HandleAuthentication_serving:
  assumes "serving i T s" and "HandleAuthentication i config (p, c, s) = Inr (p', c', s')"
  shows "serving i T s'"
proof -
  obtain r q d t where t: "TryRegisterUser i config (p, c, s) = Inr (r, q, d, t)"
    and r: "(if \<not> r then DisconnectAndStop DisconnectProxyClient True i (q, d, t) else Inr (q, d, t)) = Inr (p', c', s')"
    using assms(2) by (auto simp: HandleAuthentication_def bind_run_Inr_iff)
  have st: "serving i T t" by (rule TryRegisterUser_serving [OF assms(1) t])
  then obtain x where x: "srv_heap t i = Some x" by (auto simp: serving_def)
  show ?thesis
  proof (cases r)
    case False
    with r x have s': "s' = set_session i (refused x) t" by (simp add: DisconnectAndStop_self)
    have "srv_inv t" using st by (simp add: serving_def)
    then have "srv_inv s'"
      unfolding s' using srv_invD(1) [of t i x] refused_ok [of x] x by (intro srv_inv_set_session) auto
    with st s' show ?thesis by (simp add: serving_def)
  qed (use r st in simp)
qed

lemma ses_callbacks_serving: "preserves (\<lambda>(c, s). serving i T s) (ses_callbacks i)"
proof -
  have "serving i T s'" if "serving i T s" "ses_callbacks i ev (p, c, s) = Inr (p', c', s')" for ev p c s p' c' s'
    using that
    by (cases "self_waiting i s"; cases ev)
      (auto simp: ses_callbacks_def dest: HandleAuthentication_serving routed_serving)
  then show ?thesis by (auto simp: preserves_def)
qed

section \<open>Leaving\<close>

lemma slot_of_ids:
  assumes "sp_inv p n" and "i \<in> ids p"
  obtains k where "slot_of i p = Some k" "k < length (sp_sessions p)" "sl_val (sp_sessions p ! k) = Some i"
proof -
  from assms(2) obtain k where k: "k < length (sp_sessions p)" "sl_val (sp_sessions p ! k) = Some i"
    by (auto simp: ids_def)
  obtain l where l: "slot_of i p = Some l"
    using k by (cases "slot_of i p") (auto simp: slot_of_def find_None_iff)
  then have "l < length (sp_sessions p)" "sl_val (sp_sessions p ! l) = Some i"
    by (auto simp: slot_of_def find_Some_iff)
  with l that show thesis by blast
qed

lemma parked_free:
  assumes "sp_inv p n" and "k \<in> busy_slots (sp_sessions p)" and "sl_val (sp_sessions p ! k) = Some i"
  shows "parked (free_slot k p) = insert i (parked p)"
proof -
  have "free_slots (sp_sessions (free_slot k p)) = insert k (free_slots (sp_sessions p))"
    using assms(2) by (simp add: free_slot_def free_slots_update busy_slots_def)
  with assms(3) show ?thesis by (auto simp: parked_def)
qed

lemma parked_take:
  assumes "sp_inv p n" and "sp_freeList p = Some k"
  shows "parked (take_slot k i p) \<subseteq> parked p" and "slot_session k p n \<notin> parked (take_slot k (slot_session k p n) p)"
proof -
  note k = sp_inv_head [OF assms]
  have f: "free_slots (sp_sessions (take_slot k j p)) = free_slots (sp_sessions p) - {k}" for j
    using k(1) by (simp add: take_slot_def free_slots_update)
  show "parked (take_slot k i p) \<subseteq> parked p"
    by (auto simp: parked_def f take_slot_val [OF k(1)])
  have "j = k" if "j < length (sp_sessions p)" "sl_val (sp_sessions p ! j) = Some (slot_session k p n)" for j
    using that sp_inv_inj [OF assms(1) that(1) k(1)] ids_lt [OF assms(1) that]
    by (cases "sl_val (sp_sessions p ! k)") (auto simp: slot_session_def)
  then show "slot_session k p n \<notin> parked (take_slot k (slot_session k p n) p)"
    by (auto simp: parked_def f take_slot_val [OF k(1)]) (auto simp: free_slots_def)
qed

text \<open>Releasing a session that does not receive.\<close>

lemma Release_cases:
  assumes "srv_inv s" and "srv_heap s i = Some x"
  obtains "Release i (p, c, s) = Inr (p, c, s)"
  | k where "Release i (p, c, s) = Inr (p, c, on_pool (free_slot k) s)"
      "k \<in> busy_slots (sp_sessions (srv_sessionPool s))" "sl_val (sp_sessions (srv_sessionPool s) ! k) = Some i"
proof -
  have "sp_inv (srv_sessionPool s) (srv_fresh s)" using assms(1) by (simp add: srv_inv_def)
  from slot_of_ids [OF this srv_invD(3) [OF assms]] obtain k where
    k: "slot_of i (srv_sessionPool s) = Some k" "k < length (sp_sessions (srv_sessionPool s))"
      "sl_val (sp_sessions (srv_sessionPool s) ! k) = Some i" .
  with that show thesis
    by (cases "sl_inUse (sp_sessions (srv_sessionPool s) ! k)") (auto simp: Release_def busy_slots_def)
qed

lemma srv_inv_release:
  assumes "srv_inv s" and "srv_heap s i = Some x" and "k \<in> busy_slots (sp_sessions (srv_sessionPool s))"
    and "sl_val (sp_sessions (srv_sessionPool s) ! k) = Some i" and "ses_ok y" and "ses_thread y \<noteq> Receiving"
  shows "srv_inv (set_session i y (on_pool (free_slot k) s))"
proof -
  have p: "sp_inv (srv_sessionPool s) (srv_fresh s)" using assms(1) by (simp add: srv_inv_def)
  show ?thesis
    using assms sp_inv_free [OF p assms(3)] parked_free [OF p assms(3,4)]
    by (auto simp: srv_inv_def on_pool_def)
qed

lemma Release_idle:
  assumes "srv_inv s" and "srv_heap s i = Some x" and "ses_thread x \<noteq> Receiving"
  shows "\<exists>s'. Release i (p, c, s) = Inr (p, c, s') \<and> srv_inv s' \<and> srv_players s' = srv_players s
    \<and> threads s' = threads s"
proof (cases rule: Release_cases [OF assms(1,2), of p c])
  case (2 k)
  have "srv_inv (set_session i x (on_pool (free_slot k) s))"
    by (rule srv_inv_release [OF assms(1,2) 2(2,3) srv_invD(1) [OF assms(1,2)] assms(3)])
  moreover have "set_session i x (on_pool (free_slot k) s) = on_pool (free_slot k) s"
    using assms(2) by (intro set_session_same) (simp add: on_pool_def)
  ultimately show ?thesis using 2(1) by (auto simp: on_pool_def threads_def)
qed (use assms(1) in simp)

lemma DisconnectProxyClient_Inr:
  assumes "srv_inv s" and "srv_heap s i = Some x" and "DisconnectProxyClient i (p, c, s) = Inr (p', c', s')"
  shows "s' = s \<or>
     (\<exists>q. s' = s\<lparr>srv_players := q\<rparr> \<and> srv_inv s') \<or>
     (\<exists>q k. s' = on_pool (free_slot k) (s\<lparr>srv_players := q\<rparr>) \<and> srv_inv (s\<lparr>srv_players := q\<rparr>)
        \<and> k \<in> busy_slots (sp_sessions (srv_sessionPool s)) \<and> sl_val (sp_sessions (srv_sessionPool s) ! k) = Some i)"
proof (cases "map_of (srv_players s) (ses_virtualIpAddress x) = Some i")
  case False
  with assms(2,3) show ?thesis by (simp add: DisconnectProxyClient_def DisconnectProxyClient_with_def session_Some)
next
  case True
  let ?q = "AList.delete (ses_virtualIpAddress x) (srv_players s)"
  let ?t = "s\<lparr>srv_players := ?q\<rparr>"
  have t: "srv_inv ?t" using assms(1) by (rule srv_inv_del_player)
  obtain a d u where u: "Release i (p, c, ?t) = Inr (a, d, u)" and s': "s' = u"
    using assms(2,3) True
    by (auto simp: DisconnectProxyClient_def DisconnectProxyClient_with_def session_Some Let_def
        bind_run_Inr_iff split_beta dest!: encode_scoped_Inr)
  have h: "srv_heap ?t i = Some x" using assms(2) by simp
  show ?thesis
  proof (cases rule: Release_cases [OF t h, of p c])
    case 1
    with u s' t show ?thesis by (intro disjI2 disjI1 exI [of _ ?q]) simp
  next
    case (2 k)
    with u s' t show ?thesis by (intro disjI2 exI [of _ ?q] exI [of _ k]) simp
  qed
qed

text \<open>The end of a session's own thread.\<close>

lemma ReceiveLoop_exit_inv:
  assumes "srv_inv s" and "srv_heap s i = Some x" and "ses_thread x = Receiving"
    and "ReceiveLoop_exit DisconnectProxyClient i (p, c, s) = Inr (p', c', s')"
  shows "srv_inv s' \<and> threads s' = threads s"
proof -
  let ?y = "x\<lparr>ses_thread := Ended\<rparr>"
  have ok: "ses_ok ?y" using srv_invD(1) [OF assms(1,2)] assms(3) by (simp add: ses_ok_def)
  have direct: "srv_inv (set_session i ?y t)" if "srv_inv t" "srv_heap t i = Some x" for t
    by (rule srv_inv_set_session [OF that ok]) simp
  show ?thesis
  proof (cases "ses_masterClosed x")
    case True
    with assms(2,4) direct [OF assms(1,2)] show ?thesis
      by (auto simp: ReceiveLoop_exit_def session_Some)
  next
    case False
    with assms(2,4) obtain q d t where d: "DisconnectProxyClient i (p, c, s) = Inr (q, d, t)"
      by (auto simp: ReceiveLoop_exit_def session_Some bind_run_Inr_iff)
    note cs = DisconnectProxyClient_Inr [OF assms(1,2) d]
    then have h: "srv_heap t i = Some x" using assms(2) by (auto simp: on_pool_def)
    then have s': "s' = set_session i ?y t"
      using assms(2,4) d False by (auto simp: ReceiveLoop_exit_def session_Some)
    from cs show ?thesis
    proof (elim disjE exE conjE)
      fix q k
      assume "t = on_pool (free_slot k) (s\<lparr>srv_players := q\<rparr>)" "srv_inv (s\<lparr>srv_players := q\<rparr>)"
        "k \<in> busy_slots (sp_sessions (srv_sessionPool s))" "sl_val (sp_sessions (srv_sessionPool s) ! k) = Some i"
      then show ?thesis
        using srv_inv_release [of "s\<lparr>srv_players := q\<rparr>" i x k ?y] assms(2) ok s' by simp
    qed (use s' direct assms(1) h in \<open>auto simp del: srv_inv_fields\<close>)
  qed
qed

lemma ses_ReceiveLoop_pass_inv:
  assumes "srv_inv s" and "ses_ReceiveLoop_pass i a (p, c, s) = Inr (p', c', s')"
  shows "srv_inv s' \<and> threads s' = threads s"
proof -
  obtain x where x: "srv_heap s i = Some x"
    using assms(2) by (auto simp: ses_ReceiveLoop_pass_def bind_run_Inr_iff)
  note ex = ReceiveLoop_exit_inv [OF assms(1) x]
  show ?thesis
  proof (cases "ses_thread x = Receiving \<and> ses_running x \<and> (\<exists>bs. a = Got bs \<and> take 8192 bs \<noteq> [])")
    case True
    then obtain bs where bs: "a = Got bs" "take 8192 bs \<noteq> []" by blast
    from True assms(2) x bs obtain prot q d t y where
      r: "Read ses_registers (ses_callbacks i) (take 8192 bs) 0 (int (length (take 8192 bs)))
            (ses_protocol x, p, c, s) = Inr (prot, q, d, t)"
      and y: "srv_heap t i = Some y" "s' = set_session i (y\<lparr>ses_protocol := prot\<rparr>) t"
      by (auto simp: ses_ReceiveLoop_pass_def session_Some bind_run_Inr_iff Let_def)
    have "serving i (threads s) t"
      using Read_preserves [OF ses_callbacks_serving [of i "threads s"], of "(c, s)", OF _ r] assms(1) x by (simp add: serving_def)
    with y show ?thesis by (simp add: serving_def srv_inv_same_thread)
  next
    case False
    with assms x show ?thesis
      by (auto simp: ses_ReceiveLoop_pass_def session_Some Let_def dest: ex split: if_splits recv_answer.splits)
  qed
qed

section \<open>Accepting a connection\<close>

text \<open>A thread that waits for itself is not stopped by anybody.\<close>

definition stopped :: "P2pProxySession \<Rightarrow> P2pProxySession" where
  "stopped x = x\<lparr>ses_running := False, ses_thread := (if ses_thread x = WaitsForItself then WaitsForItself else NoThread)\<rparr>"

lemma stopped_ok [simp]: "ses_ok (stopped x)" "ses_thread (stopped x) \<noteq> Receiving"
  by (simp_all add: ses_ok_def stopped_def)

text \<open>
  Stopping from another thread: it returns at once when the session's thread has ended, when the
  thread has been told not to report, and when it waits for itself.
\<close>

lemma ses_Stop_ended:
  assumes "srv_heap s i = Some x" and "ses_ok x" and "ses_thread x \<noteq> Receiving \<or> ses_masterClosed x"
  shows "ses_Stop d False i (p, c, s) = Inr (p, c, set_session i (stopped x) s)"
proof (cases "ses_running x")
  case False
  then have "stopped x = x" using assms(2) by (cases "ses_thread x") (simp_all add: stopped_def ses_ok_def)
  with False assms(1) show ?thesis by (simp add: ses_Stop_def session_Some set_session_same)
next
  case True
  with assms show ?thesis
    by (cases "ses_thread x")
      (auto simp: ses_Stop_def ReceiveLoop_exit_def session_Some ses_ok_def stopped_def set_session_def Let_def)
qed

lemma srv_inv_take:
  assumes inv: "srv_inv s" and f: "sp_freeList (srv_sessionPool s) = Some k"
    and i: "i = slot_session k (srv_sessionPool s) (srv_fresh s)" and y: "ses_ok y"
    and n: "n = max (srv_fresh s) (Suc i)"
  shows "srv_inv (on_pool (take_slot k i) (set_session i y (s\<lparr>srv_fresh := n\<rparr>)))"
proof -
  let ?p = "srv_sessionPool s"
  have p: "sp_inv ?p (srv_fresh s)" using inv by (simp add: srv_inv_def)
  note k = sp_inv_head [OF p f]
  have ids: "ids (take_slot k i ?p) = insert i (ids ?p)"
  proof -
    have "sl_val (sp_sessions ?p ! k) \<in> {None, Some i}"
      by (simp add: i slot_session_def split: option.split)
    then show ?thesis using k(1)
      by (auto simp: ids_def take_slot_val [OF k(1)]) (metis option.distinct(1) option.inject)+
  qed
  have h: "ses_ok x \<and> (j \<in> parked (take_slot k i ?p) \<longrightarrow> ses_thread x \<noteq> Receiving)"
    if "((srv_heap s)(i \<mapsto> y)) j = Some x" for j x
    using that y inv parked_take(1) [OF p f, of i] parked_take(2) [OF p f]
    by (auto simp: srv_inv_def i split: if_splits)
  have "players_ok (insert i (ids ?p)) (srv_players s)"
    using inv by (auto simp: srv_inv_def players_ok_def)
  moreover have "sp_inv (take_slot k i ?p) n" using sp_inv_take [OF p f] by (simp add: i n)
  ultimately show ?thesis
    using inv h by (simp add: srv_inv_def on_pool_def ids)
qed

text \<open>The session a connection gets: a new object, or the one that waits in the free slot.\<close>

definition recycled :: "int \<Rightarrow> P2pProxySession \<Rightarrow> P2pProxySession" where
  "recycled fd x =
     (stopped x)\<lparr>ses_socket := fd, ses_virtualIpAddress := 0, ses_masterClosed := False,
                 ses_protocol := (ses_protocol x)\<lparr>rp_headerBytesReceived := 0, rp_currentBuffer := None,
                                  rp_bufferEnd := 0, rp_inPacket := False\<rparr>\<rparr>"

lemma fst_Reset:
  "fst (Reset prot pool) = prot\<lparr>rp_headerBytesReceived := 0, rp_currentBuffer := None,
      rp_bufferEnd := 0, rp_inPacket := False\<rparr>"
  by (simp add: Reset_def split: option.split)

lemma ses_Reset_parked:
  assumes "srv_heap s i = Some x" and "ses_ok x" and "ses_thread x \<noteq> Receiving"
  shows "ses_Reset fd i (p, c, s) = Inr (snd (Reset (ses_protocol x) p), c, set_session i (recycled fd x) s)"
  using fst_Reset [of "ses_protocol x" p]
  by (simp add: ses_Reset_def ses_Stop_ended [OF assms(1,2)] assms(3) session_Some recycled_def split_beta Let_def)
    (cases x; simp add: stopped_def set_session_def)

lemma recycled_simps [simp]:
  "ses_ok (recycled fd x)" "\<not> ses_running (recycled fd x)"
  "ses_thread (recycled fd x) = (if ses_thread x = WaitsForItself then WaitsForItself else NoThread)"
  "ses_socket (recycled fd x) = fd" "ses_virtualIpAddress (recycled fd x) = 0"
  by (simp_all add: recycled_def stopped_def ses_ok_def)

text \<open>The session that the next connection gets is one whose thread waits for itself.\<close>

definition next_waits :: "P2pProxyServer \<Rightarrow> bool" where
  "next_waits s \<longleftrightarrow>
     (case sp_freeList (srv_sessionPool s) of
        None \<Rightarrow> False
      | Some k \<Rightarrow> (case sl_val (sp_sessions (srv_sessionPool s) ! k) of None \<Rightarrow> False | Some i \<Rightarrow> self_waiting i s))"

lemma Acquire_cases:
  assumes inv: "srv_inv s"
  obtains (refused) "Acquire alloc fd (p, c, s) = Inr (None, p, c, s)"
      "sp_freeList (srv_sessionPool s) = None \<or> \<not> alloc" "\<not> next_waits s"
  | (granted) k i q y n where "Acquire alloc fd (p, c, s) = Inr (Some i, q, c, on_pool (take_slot k i) (set_session i y (s\<lparr>srv_fresh := n\<rparr>)))"
      "sp_freeList (srv_sessionPool s) = Some k" "i = slot_session k (srv_sessionPool s) (srv_fresh s)"
      "n = max (srv_fresh s) (Suc i)" "ses_ok y" "ses_thread y = (if next_waits s then WaitsForItself else NoThread)" "ses_socket y = fd" "ses_virtualIpAddress y = 0"
proof (cases "sp_freeList (srv_sessionPool s)")
  case None
  then show thesis by (intro refused) (simp_all add: Acquire_def next_waits_def)
next
  case (Some k)
  have p: "sp_inv (srv_sessionPool s) (srv_fresh s)" using inv by (simp add: srv_inv_def)
  note k = sp_inv_head [OF p Some]
  show thesis
  proof (cases "sl_val (sp_sessions (srv_sessionPool s) ! k)")
    case None
    show thesis
    proof (cases alloc)
      case True
      then show thesis
        by (intro granted [of "srv_fresh s" p k "P2pProxySession_new fd" "Suc (srv_fresh s)"])
          (simp_all add: Acquire_def Some None slot_session_def P2pProxySession_new_def ses_ok_def next_waits_def Let_def)
    next
      case False
      then show thesis by (intro refused) (simp_all add: Acquire_def next_waits_def Some None)
    qed
  next
    case (Some i)
    have i: "i \<in> ids (srv_sessionPool s)" "i < srv_fresh s"
      using idsI [OF k(1) Some] ids_lt [OF p k(1) Some] by auto
    obtain x where x: "srv_heap s i = Some x" by (rule srv_inv_live [OF inv i(1)])
    have "i \<in> parked (srv_sessionPool s)"
      using k Some by (auto simp: parked_def free_slots_def busy_slots_def)
    note r = ses_Reset_parked [OF x srv_invD(1) [OF inv x] srv_invD(2) [OF inv x this], of fd p c]
    show thesis
      by (rule granted [of i "snd (Reset (ses_protocol x) p)" k "recycled fd x" "srv_fresh s"])
        (use i \<open>sp_freeList (srv_sessionPool s) = Some k\<close> in \<open>simp_all add: Acquire_def Some r slot_session_def next_waits_def self_waiting_def x\<close>)
  qed
qed

lemma AcceptLoop_pass_inv:
  assumes inv: "srv_inv s"
  shows "if srv_acceptThread s = Receiving \<and> srv_running s \<and> 0 \<le> ac_socket a \<and> next_waits s
     then AcceptLoop_pass a (p, c, s) = Inl UseAfterFree
     else \<exists>p' s'. AcceptLoop_pass a (p, c, s) = Inr (p', c, s') \<and> srv_inv s' \<and> (threads_ok s \<longrightarrow> threads_ok s')"
proof (cases "srv_acceptThread s = Receiving \<and> srv_running s \<and> 0 \<le> ac_socket a")
  case False
  with inv show ?thesis by (auto simp: AcceptLoop_pass_def threads_ok_def)
next
  case True
  have tk: "threads_ok s \<longrightarrow> threads_ok s'" if "threads s' = threads s" for s'
    using threads_ok_cong [OF that] by simp
  define t where "t = s\<lparr>srv_open := ac_socket a # srv_open s\<rparr>"
  have t: "srv_inv t" using inv by (simp add: t_def)
  have nw: "next_waits t = next_waits s" by (simp add: t_def next_waits_def self_waiting_def cong: option.case_cong)
  have e: "AcceptLoop_pass a (p, c, s) =
      bind_run (Acquire (ac_alloc a) (ac_socket a) (p, c, t))
         (\<lambda>(r, pool, c, s).
            case r of
              None \<Rightarrow> Inr (pool, c, s\<lparr>srv_open := remove1 (ac_socket a) (srv_open s)\<rparr>)
            | Some i \<Rightarrow>
                bind_run (ses_Start (ac_stack a) (ac_thread a) i s) (\<lambda>(ok, s).
                  if \<not> ok then Release i (pool, c, s) else Inr (pool, c, s)))"
    using True by (simp add: AcceptLoop_pass_def t_def)
  from t show ?thesis
  proof (cases rule: Acquire_cases [where alloc = "ac_alloc a" and fd = "ac_socket a" and p = p and c = c])
    case refused
    then have "\<not> next_waits s" using nw by simp
    moreover have "AcceptLoop_pass a (p, c, s) = Inr (p, c, t\<lparr>srv_open := remove1 (ac_socket a) (srv_open t)\<rparr>)"
      by (simp add: e refused(1))
    moreover have "srv_inv (t\<lparr>srv_open := remove1 (ac_socket a) (srv_open t)\<rparr>)" using t by simp
    moreover have "threads_ok s \<longrightarrow> threads_ok (t\<lparr>srv_open := remove1 (ac_socket a) (srv_open t)\<rparr>)"
      by (rule tk) (simp add: t_def)
    ultimately show ?thesis by auto
  next
    case (granted k i q y n)
    define u where "u = on_pool (take_slot k i) (set_session i y (t\<lparr>srv_fresh := n\<rparr>))"
    have u: "srv_inv u" unfolding u_def by (rule srv_inv_take [OF t granted(2,3,5,4)])
    have tu: "threads u = threads s" by (simp add: u_def t_def)
    have y: "srv_heap u i = Some y" by (simp add: u_def on_pool_def)
    have run: "\<not> ses_running y" using granted(5,6) by (simp add: ses_ok_def split: if_splits)
    have th: "ses_thread y = (if next_waits s then WaitsForItself else NoThread)" using granted(6) nw by simp
    note e = e [unfolded granted(1), simplified, folded u_def]
    consider (waits) "next_waits s" | (starts) "\<not> next_waits s" "ac_stack a \<and> ac_thread a"
      | (fails) "\<not> next_waits s" "\<not> (ac_stack a \<and> ac_thread a)" by blast
    then show ?thesis
    proof cases
      case waits
      with th y run True show ?thesis by (simp add: e ses_Start_def session_Some)
    next
      case starts
      let ?z = "y\<lparr>ses_running := True, ses_thread := Receiving\<rparr>"
      have "i \<notin> parked (srv_sessionPool u)"
        using parked_take(2) [of "srv_sessionPool t" "srv_fresh t" k] t granted(2,3)
        by (simp add: u_def on_pool_def srv_inv_def)
      then have "srv_inv (set_session i ?z u)"
        by (intro srv_inv_set_session [OF u y]) (simp_all add: ses_ok_def)
      then show ?thesis
        using starts th run y tk [of "set_session i ?z u"] tu by (simp add: e ses_Start_def session_Some)
    next
      case fails
      with th have same: "set_session i (y\<lparr>ses_thread := NoThread\<rparr>) u = u"
        using y by (simp add: set_session_same)
      have "\<exists>s'. Release i (q, c, u) = Inr (q, c, s') \<and> srv_inv s' \<and> (threads_ok s \<longrightarrow> threads_ok s')"
        using Release_idle [OF u y, of q c] fails(1) th tu tk by auto
      with fails th run y same show ?thesis by (auto simp: e ses_Start_def session_Some)
    qed
  qed
qed

section \<open>Messages from the master server\<close>

lemma HandleStateChange_inv:
  assumes inv: "srv_inv s"
  shows "\<exists>s'. HandleStateChange state (p, c, s) = Inr (p, c, s') \<and> srv_inv s' \<and> threads s' = threads s"
proof -
  let ?ip = "eps_ipAddress state"
  define t where "t = s\<lparr>srv_waitingTokens := filter (\<lambda>t. ept_virtualIp t \<noteq> ?ip) (srv_waitingTokens s)\<rparr>"
  have t: "srv_inv t" and pl: "srv_players t = srv_players s" and th: "threads t = threads s"
    using inv by (simp_all add: t_def)
  show ?thesis
  proof (cases "eps_connected state \<noteq> 0 \<or> map_of (srv_players s) ?ip = None")
    case True
    with inv t pl th show ?thesis by (auto simp: HandleStateChange_def t_def [symmetric] Let_def)
  next
    case False
    then obtain i where i: "map_of (srv_players s) ?ip = Some i" by auto
    obtain x where x: "srv_heap t i = Some x" using srv_inv_player [OF t] i pl by metis
    let ?y = "x\<lparr>ses_masterClosed := True\<rparr>"
    let ?u = "set_session i (stopped ?y) t"
    have okx: "ses_ok ?y" using srv_invD(1) [OF t x] by (simp add: ses_ok_def)
    have d: "DisconnectAndStop disconnect_players_held False i (p, c, t) = Inr (p, c, ?u)"
      using ses_Stop_ended [of "set_session i ?y t" i ?y disconnect_players_held p c] okx x
      by (simp add: DisconnectAndStop_def session_Some set_session_def)
    have u: "srv_inv ?u" by (rule srv_inv_set_session [OF t x]) simp_all
    have hu: "srv_heap ?u i = Some (stopped ?y)" by simp
    have "\<exists>s'. Release i (p, c, ?u) = Inr (p, c, s') \<and> srv_inv s' \<and> threads s' = threads s"
      using Release_idle [OF u hu, of p c] th by auto
    with False i d pl show ?thesis
      by (auto simp: HandleStateChange_def t_def [symmetric] Let_def intro: srv_inv_del_player)
  qed
qed

section \<open>Shutdown\<close>

text \<open>A registered guest whose connection is open: at the end its thread reports to the server.\<close>

definition reporting :: "P2pProxyServer \<Rightarrow> sid \<Rightarrow> bool" where
  "reporting s i \<longleftrightarrow>
     (case srv_heap s i of
        None \<Rightarrow> False
      | Some x \<Rightarrow> ses_thread x = Receiving \<and> \<not> ses_masterClosed x
                  \<and> map_of (srv_players s) (ses_virtualIpAddress x) = Some i)"

lemma ses_Stop_pool:
  assumes "srv_heap s i = Some x" and "ses_ok x"
  shows "ses_Stop disconnect_pool_held False i (p, c, s) =
     (if reporting s i then Inl Deadlock else Inr (p, c, set_session i (stopped x) s))"
proof (cases "ses_thread x \<noteq> Receiving \<or> ses_masterClosed x")
  case True
  then show ?thesis using ses_Stop_ended [OF assms True] assms(1) by (auto simp: reporting_def)
next
  case False
  with assms have r: "ses_running x" "ses_thread x = Receiving" "\<not> ses_masterClosed x" by (auto simp: ses_ok_def)
  show ?thesis
    using assms(1) r
    by (simp add: ses_Stop_def ReceiveLoop_exit_def disconnect_pool_held_def DisconnectProxyClient_with_def
        session_Some reporting_def stopped_def set_session_def Let_def)
qed

lemma delete_session_eq:
  assumes "srv_heap s i = Some x" and "ses_ok x"
  shows "delete_session i (p, c, s) =
     (if reporting s i then Inl Deadlock
      else Inr (RyuLdnProtocol_destroy (ses_protocol x) p, c,
             s\<lparr>srv_open := (if 0 \<le> ses_socket x then remove1 (ses_socket x) (srv_open s) else srv_open s),
               srv_heap := (srv_heap s)(i := None),
               srv_stranded := srv_stranded s + (if self_waiting i s then 1 else 0)\<rparr>))"
  using assms(1)
  by (simp add: delete_session_def ses_Stop_pool [OF assms] session_Some stopped_def set_session_def
      self_waiting_def Let_def)

definition slot_ids :: "PooledSession list \<Rightarrow> sid list" where
  "slot_ids slots = List.map_filter sl_val slots"

lemma slot_ids_simps [simp]:
  "slot_ids [] = []"
  "slot_ids (slot # slots) = (case sl_val slot of None \<Rightarrow> slot_ids slots | Some i \<Rightarrow> i # slot_ids slots)"
  by (simp_all add: slot_ids_def map_filter_simps split: option.split)

lemma set_slot_ids: "set (slot_ids ss) = {i. \<exists>k < length ss. sl_val (ss ! k) = Some i}"
proof (induction ss)
  case (Cons a ss)
  have "{i. \<exists>k < length (a # ss). sl_val ((a # ss) ! k) = Some i} =
      {i. sl_val a = Some i} \<union> {i. \<exists>k < length ss. sl_val (ss ! k) = Some i}"
    by (auto simp: less_Suc_eq_0_disj)
  with Cons show ?case by (auto split: option.split)
qed simp

lemma distinct_slot_ids:
  "(\<And>k l i. k < length ss \<Longrightarrow> l < length ss \<Longrightarrow> sl_val (ss ! k) = Some i \<Longrightarrow> sl_val (ss ! l) = Some i \<Longrightarrow> k = l)
   \<Longrightarrow> distinct (slot_ids ss)"
proof (induction ss)
  case (Cons a ss)
  have "distinct (slot_ids ss)"
    by (rule Cons.IH) (use Cons.prems [of "Suc _" "Suc _"] in auto)
  moreover have "i \<notin> set (slot_ids ss)" if "sl_val a = Some i" for i
    using Cons.prems [of 0 "Suc _"] that by (fastforce simp: set_slot_ids)
  ultimately show ?case by (simp split: option.split)
qed simp

text \<open>The descriptor that a session holds.\<close>

definition session_socket :: "P2pProxyServer \<Rightarrow> sid \<Rightarrow> int multiset" where
  "session_socket s i =
     (case srv_heap s i of None \<Rightarrow> {#} | Some x \<Rightarrow> if 0 \<le> ses_socket x then {#ses_socket x#} else {#})"

lemma deleted_session [simp]:
  defines "t i a n s \<equiv> s\<lparr>srv_open := a, srv_heap := (srv_heap s)(i := None), srv_stranded := n\<rparr>"
  shows "i \<noteq> j \<Longrightarrow> reporting (t i a n s) j = reporting s j"
    and "i \<noteq> j \<Longrightarrow> self_waiting j (t i a n s) = self_waiting j s"
    and "i \<noteq> j \<Longrightarrow> session_socket (t i a n s) j = session_socket s j"
  by (simp_all add: t_def reporting_def self_waiting_def session_socket_def split: option.split)

text \<open>The server without the sessions of \<open>D\<close>.\<close>

definition cleared :: "P2pProxyServer \<Rightarrow> int list \<Rightarrow> nat \<Rightarrow> sid set \<Rightarrow> P2pProxyServer" where
  "cleared s a n D = s\<lparr>srv_open := a, srv_heap := (srv_heap s) |` (- D), srv_stranded := n\<rparr>"

lemma cleared_empty: "cleared s (srv_open s) (srv_stranded s) {} = s"
  by (simp add: cleared_def restrict_map_def)

lemma cleared_insert:
  "cleared (s\<lparr>srv_open := b, srv_heap := (srv_heap s)(i := None), srv_stranded := m\<rparr>) a n D = cleared s a n (insert i D)"
proof -
  have "((srv_heap s)(i := None)) |` (- D) = (srv_heap s) |` (- insert i D)" by (auto simp: restrict_map_def)
  then show ?thesis by (simp add: cleared_def)
qed

text \<open>What is closed and what stays behind when the sessions of \<open>D\<close> are deleted.\<close>

definition given_up :: "P2pProxyServer \<Rightarrow> int list \<Rightarrow> nat \<Rightarrow> sid set \<Rightarrow> bool" where
  "given_up s a n D \<longleftrightarrow>
     mset a = mset (srv_open s) - (\<Sum>i \<in> D. session_socket s i)
     \<and> n = srv_stranded s + card {i \<in> D. self_waiting i s}"

lemma given_up_insert:
  assumes "finite D" and "i \<notin> D" and "srv_heap s i = Some x"
    and "b = (if 0 \<le> ses_socket x then remove1 (ses_socket x) (srv_open s) else srv_open s)"
    and "m = srv_stranded s + (if self_waiting i s then 1 else 0)"
    and "given_up (s\<lparr>srv_open := b, srv_heap := (srv_heap s)(i := None), srv_stranded := m\<rparr>) a n D"
  shows "given_up s a n (insert i D)"
proof -
  let ?t = "s\<lparr>srv_open := b, srv_heap := (srv_heap s)(i := None), srv_stranded := m\<rparr>"
  have "(\<Sum>j \<in> D. session_socket ?t j) = (\<Sum>j \<in> D. session_socket s j)"
    by (rule sum.cong [OF refl], rule deleted_session(3)) (use assms(2) in auto)
  moreover have "self_waiting j ?t = self_waiting j s" if "j \<in> D" for j
    by (rule deleted_session(2)) (use that assms(2) in auto)
  then have "{j \<in> D. self_waiting j ?t} = {j \<in> D. self_waiting j s}" by blast
  moreover have "{j \<in> insert i D. self_waiting j s} =
      (if self_waiting i s then insert i {j \<in> D. self_waiting j s} else {j \<in> D. self_waiting j s})" by auto
  moreover have "mset b = mset (srv_open s) - session_socket s i"
    using assms(3,4) by (simp add: session_socket_def)
  ultimately show ?thesis using assms(1,2,5,6) by (simp add: given_up_def)
qed

lemma Clear_sessions_eq:
  assumes "distinct (slot_ids ss)" and "set (slot_ids ss) \<subseteq> dom (srv_heap s)"
    and "\<forall>i x. srv_heap s i = Some x \<longrightarrow> ses_ok x"
  shows "\<exists>p' a n. Clear_sessions ss (p, c, s) =
     (if \<exists>i \<in> set (slot_ids ss). reporting s i then Inl Deadlock
      else Inr (p', c, cleared s a n (set (slot_ids ss)))) \<and> given_up s a n (set (slot_ids ss))"
  using assms
proof (induction ss arbitrary: p s)
  case Nil
  show ?case
    by (intro exI [of _ p] exI [of _ "srv_open s"] exI [of _ "srv_stranded s"]) (simp add: cleared_empty given_up_def)
next
  case (Cons slot ss)
  show ?case
  proof (cases "sl_val slot")
    case None
    then have "slot_ids (slot # ss) = slot_ids ss" "Clear_sessions (slot # ss) = Clear_sessions ss" by auto
    with Cons.IH [of s p] Cons.prems show ?thesis by metis
  next
    case (Some i)
    then obtain x where x: "srv_heap s i = Some x" using Cons.prems(2) by auto
    define b where "b = (if 0 \<le> ses_socket x then remove1 (ses_socket x) (srv_open s) else srv_open s)"
    define m where "m = srv_stranded s + (if self_waiting i s then 1 else 0)"
    define t where "t = s\<lparr>srv_open := b, srv_heap := (srv_heap s)(i := None), srv_stranded := m\<rparr>"
    let ?q = "RyuLdnProtocol_destroy (ses_protocol x) p" and ?D = "set (slot_ids ss)"
    have "ses_ok x" using Cons.prems(3) x by blast
    note del = delete_session_eq [OF x this, of p c, folded b_def, folded m_def, folded t_def]
    have i: "i \<notin> ?D" using Cons.prems(1) Some by simp
    have rep: "(\<exists>j \<in> ?D. reporting t j) \<longleftrightarrow> (\<exists>j \<in> ?D. reporting s j)"
      unfolding t_def using i by (intro bex_cong refl deleted_session) auto
    have "distinct (slot_ids ss)" "?D \<subseteq> dom (srv_heap t)" "\<forall>j x. srv_heap t j = Some x \<longrightarrow> ses_ok x"
      using Cons.prems i Some by (auto simp: t_def)
    from Cons.IH [OF this, of ?q] obtain p' a n where cl: "Clear_sessions ss (?q, c, t) =
        (if \<exists>j \<in> ?D. reporting t j then Inl Deadlock else Inr (p', c, cleared t a n ?D))"
      and g: "given_up t a n ?D" by blast
    have "cleared t a n ?D = cleared s a n (insert i ?D)" unfolding t_def by (rule cleared_insert)
    moreover have "given_up s a n (insert i ?D)"
      using g unfolding t_def by (intro given_up_insert [OF _ i x b_def m_def]) simp_all
    ultimately show ?thesis
      using rep cl by (intro exI [of _ p'] exI [of _ a] exI [of _ n]) (simp add: Some del)
  qed
qed

lemma Clear_eq:
  assumes "srv_inv s"
  shows "\<exists>p' a n. Clear (p, c, s) =
     (if \<exists>i. reporting s i then Inl Deadlock
      else Inr (p', c, s\<lparr>srv_open := a, srv_heap := Map.empty, srv_stranded := n, srv_sessionPool := SessionPool_new\<rparr>))
     \<and> given_up s a n (dom (srv_heap s))"
proof -
  let ?ss = "sp_sessions (srv_sessionPool s)"
  have p: "sp_inv (srv_sessionPool s) (srv_fresh s)" and dom: "dom (srv_heap s) = ids (srv_sessionPool s)"
    and ok: "\<forall>i x. srv_heap s i = Some x \<longrightarrow> ses_ok x"
    using assms by (auto simp: srv_inv_def)
  have ids: "set (slot_ids ?ss) = dom (srv_heap s)" using dom by (simp add: set_slot_ids ids_def)
  have "distinct (slot_ids ?ss)" by (rule distinct_slot_ids) (rule sp_inv_inj [OF p])
  then obtain p' a n where c: "Clear_sessions ?ss (p, c, s) =
     (if \<exists>i \<in> dom (srv_heap s). reporting s i then Inl Deadlock else Inr (p', c, cleared s a n (dom (srv_heap s))))"
    and g: "given_up s a n (dom (srv_heap s))"
    using Clear_sessions_eq [of ?ss s p c] ok unfolding ids by blast
  have "i \<in> dom (srv_heap s)" if "reporting s i" for i
    using that by (cases "srv_heap s i") (simp_all add: reporting_def domIff)
  then have "(\<exists>i \<in> dom (srv_heap s). reporting s i) \<longleftrightarrow> (\<exists>i. reporting s i)" by blast
  moreover have "(srv_heap s) |` (- dom (srv_heap s)) = Map.empty"
    by (auto simp: restrict_map_def domIff)
  ultimately show ?thesis
    using c g by (intro exI [of _ p'] exI [of _ a] exI [of _ n]) (simp add: Clear_def cleared_def)
qed

lemma srv_inv_new: "srv_inv (P2pProxyServer_new port sends peer frequency waits stack)"
  using sp_inv_new by (auto simp: srv_inv_def P2pProxyServer_new_def players_ok_def sp_inv_def)

lemma sp_inv_mono: "sp_inv p m \<Longrightarrow> m \<le> n \<Longrightarrow> sp_inv p n"
  by (auto simp: sp_inv_def)

definition listening :: "P2pProxyServer \<Rightarrow> int multiset" where
  "listening s = (if 0 \<le> srv_listenSocket s then {#srv_listenSocket s#} else {#})"

lemma srv_Stop_eq:
  assumes inv: "srv_inv s" and "srv_running s" and "srv_acceptThread s \<noteq> NoThread"
    and lease: "srv_leaseThreadRunning s \<Longrightarrow> srv_leaseThread s \<noteq> NoThread"
  shows "if \<exists>i. reporting s i then srv_Stop (p, c, s) = Inl Deadlock
     else \<exists>p' s'. srv_Stop (p, c, s) = Inr (p', c, s') \<and> srv_inv s' \<and> \<not> srv_running s'
            \<and> srv_heap s' = Map.empty \<and> srv_players s' = [] \<and> srv_listenSocket s' < 0
            \<and> srv_acceptThread s' = NoThread \<and> \<not> srv_leaseThreadRunning s'
            \<and> mset (srv_open s') = mset (srv_open s) - listening s - (\<Sum>i \<in> dom (srv_heap s). session_socket s i)
            \<and> srv_stranded s' = srv_stranded s + card {i. self_waiting i s}"
proof -
  define t where "t = (let s = s\<lparr>srv_running := False\<rparr>;
      s = (if 0 \<le> srv_listenSocket s then close_listen s else s) in s\<lparr>srv_acceptThread := NoThread\<rparr>)"
  have t: "srv_inv t" "srv_heap t = srv_heap s" "srv_players t = srv_players s" "srv_listenSocket t < 0"
    "srv_acceptThread t = NoThread" "\<not> srv_running t" "srv_leaseThreadRunning t = srv_leaseThreadRunning s"
    "srv_leaseThread t = srv_leaseThread s" "srv_fresh t = srv_fresh s" "srv_stranded t = srv_stranded s"
    "mset (srv_open t) = mset (srv_open s) - listening s"
    using inv by (auto simp: t_def close_listen_def listening_def Let_def)
  have sw: "self_waiting i t = self_waiting i s" "session_socket t i = session_socket s i" for i
    by (simp_all add: self_waiting_def session_socket_def t)
  have r: "reporting t = reporting s" by (simp add: reporting_def t fun_eq_iff split: option.split)
  obtain p' a n where cl: "Clear (p, c, t) =
     (if \<exists>i. reporting s i then Inl Deadlock
      else Inr (p', c, t\<lparr>srv_open := a, srv_heap := Map.empty, srv_stranded := n, srv_sessionPool := SessionPool_new\<rparr>))"
    and g: "given_up t a n (dom (srv_heap s))"
    using Clear_eq [OF t(1), of p c] unfolding r t(2) by blast
  have "{i \<in> dom (srv_heap s). self_waiting i s} = {i. self_waiting i s}"
    by (auto simp: self_waiting_def split: option.splits)
  with g have g: "mset a = mset (srv_open s) - listening s - (\<Sum>i \<in> dom (srv_heap s). session_socket s i)"
    "n = srv_stranded s + card {i. self_waiting i s}"
    by (simp_all add: given_up_def sw t(10,11))
  have st: "srv_Stop (p, c, s) = bind_run (Clear (p, c, t)) (\<lambda>(pool, c, s).
         let s = s\<lparr>srv_players := []\<rparr> in
         if srv_leaseThreadRunning s then
           if srv_leaseThread s = NoThread then Inl InvalidThread
           else Inr (pool, c, s\<lparr>srv_leaseThreadRunning := False, srv_leaseThread := NoThread\<rparr>)
         else Inr (pool, c, s))"
    using assms(2,3) by (simp add: srv_Stop_def t_def Let_def close_listen_def)
  define u where "u = t\<lparr>srv_open := a, srv_heap := Map.empty, srv_stranded := n,
    srv_sessionPool := SessionPool_new, srv_players := []\<rparr>"
  have "ids SessionPool_new = {}" by (simp add: ids_def SessionPool_new_def fresh_slots_def)
  then have "srv_inv u"
    using sp_inv_mono [OF sp_inv_new] by (simp add: u_def srv_inv_def players_ok_def)
  with cl st t g lease show ?thesis by (auto simp: u_def Let_def)
qed

section \<open>Reachable states\<close>

text \<open>
  One step of the host. The other threads of the process may change the buffer pool and the master
  client at any time, and the system what it will answer. The thread of a refused guest waits for itself
  and makes no step any more, while all the others go on; what \<open>Read\<close> held when it came to rest, its
  protocol object and a buffer of the pool, stays with it (\<open>Held\<close>).
\<close>

inductive p2p_step :: "'g IGD \<Rightarrow> sst \<times> 'g \<Rightarrow> sst \<times> 'g \<Rightarrow> bool" for igd where
  Start: "p2p_step igd ((p, c, s), g) ((p, c, snd (srv_Start a s)), g)"
| Accept: "AcceptLoop_pass a st = Inr st' \<Longrightarrow> p2p_step igd (st, g) (st', g)"
| Receive: "ses_ReceiveLoop_pass i a st = Inr st' \<Longrightarrow> p2p_step igd (st, g) (st', g)"
| Token: "p2p_step igd ((p, c, s), g) ((p, c, HandleToken t s), g)"
| State: "HandleStateChange e st = Inr st' \<Longrightarrow> p2p_step igd (st, g) (st', g)"
| Punch: "NatPunch d igd l a b (s, g) = (port, s', g') \<Longrightarrow> p2p_step igd ((p, c, s), g) ((p, c, s'), g')"
| Lease: "LeaseRenewalLoop_pass igd l (s, g) = (s', g') \<Longrightarrow> p2p_step igd ((p, c, s), g) ((p, c, s'), g')"
| Stop: "srv_Stop st = Inr st' \<Longrightarrow> p2p_step igd (st, g) (st', g)"
| Dispose: "srv_Dispose igd (st, g) = Inr (st', g') \<Longrightarrow> p2p_step igd (st, g) (st', g')"
| Held: "srv_heap s i = Some x \<Longrightarrow> ses_thread x = WaitsForItself \<Longrightarrow>
     p2p_step igd ((p, c, s), g) ((p', c, set_session i (x\<lparr>ses_protocol := q\<rparr>) s), g)"
| Others: "p2p_step igd ((p, c, s), g) ((p', c', s), g')"
| System: "p2p_step igd ((p, c, s), g)
     ((p, c, s\<lparr>srv_sends := a, srv_waits := w, srv_peer := f, srv_stack := b\<rparr>), g)"

inductive p2p_reachable :: "'g IGD \<Rightarrow> sst \<times> 'g \<Rightarrow> bool" for igd where
  New: "p2p_reachable igd ((p, c, P2pProxyServer_new port sends peer frequency waits stack), g)"
| Step: "p2p_reachable igd st \<Longrightarrow> p2p_step igd st st' \<Longrightarrow> p2p_reachable igd st'"

definition p2p_inv :: "sst \<times> 'g \<Rightarrow> bool" where
  "p2p_inv = (\<lambda>((p, c, s), g). srv_inv s \<and> threads_ok s)"

lemma NatPunch_loop_inv:
  "NatPunch_loop n igd l a b (s, g) = (port, s', g') \<Longrightarrow> srv_inv s \<and> threads_ok s \<Longrightarrow> srv_inv s' \<and> threads_ok s'"
proof (induction n arbitrary: s g)
  case (Suc n)
  obtain ok u h where m: "CreatePortMapping igd l (PortMapping_new UpnpTCP (srv_privatePort s) (srv_publicPort s)
      PortLeaseLength ''RyuLDN Local Multiplayer'') (srv_upnpClient s, g) = (ok, u, h)" by (metis prod_cases3)
  define t where "t = s\<lparr>srv_portMapping := PortMapping_new UpnpTCP (srv_privatePort s) (srv_publicPort s)
      PortLeaseLength ''RyuLDN Local Multiplayer'', srv_upnpClient := u\<rparr>"
  have t: "srv_inv t \<and> threads_ok t" using Suc.prems(2) by (simp add: t_def threads_ok_def)
  have "srv_inv (t\<lparr>srv_publicPort := q\<rparr>) \<and> threads_ok (t\<lparr>srv_publicPort := q\<rparr>)" for q
    using t by (simp add: threads_ok_def)
  note ih = Suc.IH [OF _ this] and pub = this
  have "NatPunch_loop (Suc n) igd l a b (s, g) = (if ok then
        let s = t\<lparr>srv_hasPortMapping := True\<rparr>;
            s = (if a \<and> b then s\<lparr>srv_leaseThreadRunning := True, srv_leaseThread := Receiving\<rparr> else s) in
        (srv_publicPort s, s, h)
      else if GetLastHttpStatus (srv_upnpClient t) = 404 then (0, t\<lparr>srv_publicPort := 0\<rparr>, h)
      else NatPunch_loop n igd l a b (t\<lparr>srv_publicPort := srv_publicPort t + 1\<rparr>, h))"
    by (simp add: m t_def Let_def)
  with Suc.prems(1) show ?case using t ih pub by (auto simp: Let_def threads_ok_def split: if_splits)
qed (auto simp: threads_ok_def)

lemma srv_Stop_keeps:
  assumes "srv_Stop (p, c, s) = Inr (p', c', s')" and "srv_inv s \<and> threads_ok s"
  shows "srv_inv s' \<and> threads_ok s' \<and> \<not> srv_running s'"
proof (cases "srv_running s")
  case False
  with assms show ?thesis by (auto simp: srv_Stop_def)
next
  case True
  with assms srv_Stop_eq [of s p c] show ?thesis by (auto simp: threads_ok_def split: if_splits)
qed

lemma srv_Dispose_Inr:
  assumes "srv_Dispose igd ((p, c, s), g) = Inr ((p', c', s'), g')"
  shows "s' = s \<or> (\<exists>s1 u m. srv_Stop (p, c, s\<lparr>srv_disposed := True\<rparr>) = Inr (p', c', s1)
     \<and> s' = s1\<lparr>srv_upnpClient := u, srv_hasPortMapping := m, srv_handlers := False\<rparr>)"
proof (cases "srv_disposed s")
  case True
  with assms show ?thesis by (simp add: srv_Dispose_def)
next
  case False
  with assms obtain p1 c1 s1 where s1: "srv_Stop (p, c, s\<lparr>srv_disposed := True\<rparr>) = Inr (p1, c1, s1)"
    by (auto simp: srv_Dispose_def bind_run_Inr_iff)
  obtain ok u h where d: "DeletePortMapping igd (srv_portMapping s1) (srv_upnpClient s1, g) = (ok, u, h)"
    by (metis prod_cases3)
  let ?m = "srv_hasPortMapping s1"
  have "p1 = p' \<and> c1 = c' \<and> s' = s1\<lparr>srv_upnpClient := (if ?m then u else srv_upnpClient s1),
      srv_hasPortMapping := False, srv_handlers := False\<rparr>"
    using assms False s1 d by (cases ?m; cases s1) (auto simp: srv_Dispose_def)
  with s1 show ?thesis by blast
qed

lemma p2p_step_inv: "p2p_step igd stg stg' \<Longrightarrow> p2p_inv stg \<Longrightarrow> p2p_inv stg'"
proof (induction rule: p2p_step.induct)
  case (Start p c s g a)
  then show ?case
    by (auto simp: p2p_inv_def srv_Start_def threads_ok_def close_listen_def Let_def)
next
  case (Accept a st st' g)
  obtain p c s where st: "st = (p, c, s)" by (cases st)
  from Accept AcceptLoop_pass_inv [of s a p c] show ?case by (auto simp: st p2p_inv_def split: if_splits)
next
  case (Receive i a st st' g)
  obtain p c s p' c' s' where st: "st = (p, c, s)" "st' = (p', c', s')" by (cases st; cases st')
  from Receive have "srv_inv s' \<and> threads s' = threads s"
    using ses_ReceiveLoop_pass_inv [of s i a p c p' c' s'] by (simp add: st p2p_inv_def)
  then show ?case using Receive.prems threads_ok_cong [of s' s] by (simp add: st p2p_inv_def)
next
  case (State e st st' g)
  obtain p c s p' c' s' where st: "st = (p, c, s)" "st' = (p', c', s')" by (cases st; cases st')
  from State HandleStateChange_inv [of s e p c] have "srv_inv s' \<and> threads s' = threads s"
    by (auto simp: st p2p_inv_def)
  then show ?case using State.prems threads_ok_cong [of s' s] by (simp add: st p2p_inv_def)
next
  case (Punch d l a b s g port s' g' p c)
  obtain found u where d: "DiscoverDevice d (srv_upnpClient s) = (found, u)" by force
  have t: "srv_inv (s\<lparr>srv_upnpClient := u\<rparr>) \<and> threads_ok (s\<lparr>srv_upnpClient := u\<rparr>)"
    "srv_inv (s\<lparr>srv_upnpClient := u, srv_publicPort := PublicPortBase\<rparr>)
       \<and> threads_ok (s\<lparr>srv_upnpClient := u, srv_publicPort := PublicPortBase\<rparr>)"
    using Punch.prems by (simp_all add: p2p_inv_def threads_ok_def)
  from Punch.hyps have "(if \<not> found then (0, s\<lparr>srv_upnpClient := u\<rparr>, g)
      else NatPunch_loop PublicPortRange igd l a b (s\<lparr>srv_upnpClient := u, srv_publicPort := PublicPortBase\<rparr>, g)) = (port, s', g')"
    by (simp add: NatPunch_def d Let_def split: if_splits)
  then have "srv_inv s' \<and> threads_ok s'"
    using t(1) NatPunch_loop_inv [OF _ t(2), of PublicPortRange igd l a b g port s' g'] by (auto split: if_splits)
  then show ?case by (simp add: p2p_inv_def)
next
  case (Lease l s g s' g' p c)
  then show ?case
    by (auto simp: p2p_inv_def LeaseRenewalLoop_pass_def RefreshLease_def threads_ok_def Let_def
        split: if_splits prod.splits)
next
  case (Stop st st' g)
  then show ?case by (cases st; cases st') (auto simp: p2p_inv_def dest: srv_Stop_keeps)
next
  case (Dispose st g st' g')
  obtain p c s p' c' s' where st: "st = (p, c, s)" "st' = (p', c', s')" by (cases st; cases st')
  have d: "srv_inv (s\<lparr>srv_disposed := True\<rparr>) \<and> threads_ok (s\<lparr>srv_disposed := True\<rparr>)"
    using Dispose.prems by (simp add: st p2p_inv_def threads_ok_def)
  from srv_Dispose_Inr [OF Dispose.hyps [unfolded st]] show ?case
  proof (elim disjE exE conjE)
    fix s1 u m
    assume "srv_Stop (p, c, s\<lparr>srv_disposed := True\<rparr>) = Inr (p', c', s1)"
      and "s' = s1\<lparr>srv_upnpClient := u, srv_hasPortMapping := m, srv_handlers := False\<rparr>"
    with srv_Stop_keeps [OF this(1) d] show ?thesis by (simp add: st p2p_inv_def threads_ok_def)
  qed (use Dispose.prems in \<open>simp add: st p2p_inv_def\<close>)
next
  case (Held s i x p c g p' q)
  then have "srv_inv s" "threads_ok s" by (simp_all add: p2p_inv_def)
  with srv_inv_same_thread [OF this(1) Held.hyps(1), of "x\<lparr>ses_protocol := q\<rparr>"]
    threads_ok_cong [of "set_session i (x\<lparr>ses_protocol := q\<rparr>) s" s]
  show ?case by (simp add: p2p_inv_def)
qed (auto simp: p2p_inv_def threads_ok_def HandleToken_def)

lemma p2p_reachable_inv: "p2p_reachable igd stg \<Longrightarrow> p2p_inv stg"
proof (induction rule: p2p_reachable.induct)
  case New
  then show ?case by (simp add: p2p_inv_def srv_inv_new) (simp add: threads_ok_def P2pProxyServer_new_def)
next
  case (Step st st')
  then show ?case by (blast intro: p2p_step_inv)
qed

end
