(* ===== verification/P2p_Properties.thy ===== *)
theory P2p_Properties
  imports P2p_Machine
begin

text \<open>
  What the peer-to-peer host guarantees, and where it fails: the relay between the guests, the
  registration of a guest, the life of the session pool, the shutdown, and the port mapping.
\<close>

section \<open>Sending through a pool with a free buffer\<close>

lemma encode_scoped_ok:
  assumes "pool_ready pool" and "HeaderSize + length payload \<le> BufferSize"
    and "\<And>buf. encode buf = encoded type payload buf"
    and "use (packet type payload) s = Inr (r, s')"
  shows "\<exists>pool'. encode_scoped encode use (pool, s) = Inr (Some r, pool', s') \<and> pool_kept pool pool'"
proof -
  obtain b p where b: "BorrowBuffer_try pool = (Some b, p)" "b < MaxBuffers"
      "b \<notin> borrowed pool" "pool_inv p" "borrowed p = insert b (borrowed pool)"
      "bp_storage p = bp_storage pool" "length (bp_storage pool ! b) = BufferSize"
    by (rule scoped_ready [OF assms(1)])
  let ?buf = "packet type payload @ drop (HeaderSize + length payload) (bp_storage p ! b)"
  have e: "encode (bp_storage p ! b) = Inr (HeaderSize + length payload, ?buf)"
    using assms(2,3) b(6,7) by (simp add: encoded_def)
  have buf: "length ?buf = BufferSize" using assms(2) b(6,7) by simp
  have "same_lent (borrowed pool) pool (write_buffer b ?buf p)"
    using b(3,6) same_lent_write [of b "borrowed pool" p ?buf] by (simp add: same_lent_def)
  then have "pool_kept pool (ReturnBuffer (Some b) (write_buffer b ?buf p))"
    using return_kept [of pool b "write_buffer b ?buf p"] b(3-5) buf assms(1)
    by (simp add: pool_inv_write pool_ready_def)
  then show ?thesis
    using b(1) e assms(4) by (simp add: encode_scoped_def scoped_def)
qed

text \<open>What a session's peer gets when the network accepts everything.\<close>

definition delivery :: "P2pProxyServer \<Rightarrow> bytes \<Rightarrow> u32 \<times> sid \<Rightarrow> (int \<times> bytes) list" where
  "delivery s bs = (\<lambda>(ip, j).
     case srv_heap s j of
       None \<Rightarrow> []
     | Some y \<Rightarrow> if ses_socket y < 0 then [] else [(ses_socket y, bs)])"

lemma ses_SendAsync_open:
  assumes "srv_heap s j = Some y" and "srv_sends s = []"
  shows "\<exists>r. ses_SendAsync j bs s = Inr (r, s\<lparr>srv_wire := srv_wire s @ delivery s bs (ip, j)\<rparr>)"
  using assms by (auto simp: ses_SendAsync_def session_Some delivery_def)

lemma send_session_open:
  assumes "pool_ready pool" and "HeaderSize + length payload \<le> BufferSize"
    and "\<And>buf. encode buf = encoded type payload buf"
    and "srv_heap s j = Some y" and "srv_sends s = []"
  shows "\<exists>pool'. send_session encode j (pool, c, s) =
       Inr (pool', c, s\<lparr>srv_wire := srv_wire s @ delivery s (packet type payload) (ip, j)\<rparr>)
     \<and> pool_kept pool pool'"
proof -
  obtain r where r: "ses_SendAsync j (packet type payload) s =
      Inr (r, s\<lparr>srv_wire := srv_wire s @ delivery s (packet type payload) (ip, j)\<rparr>)"
    using ses_SendAsync_open [OF assms(4,5), where ip = ip] by blast
  show ?thesis
    using encode_scoped_ok [OF assms(1-3), of
        "\<lambda>bs (c, s). bind_run (ses_SendAsync j bs s) (\<lambda>(r, s). Inr (r, c, s))" "(c, s)" r
        "(c, s\<lparr>srv_wire := srv_wire s @ delivery s (packet type payload) (ip, j)\<rparr>)"] r
    by (auto simp: send_session_def)
qed

lemma for_players_open:
  assumes "HeaderSize + length payload \<le> BufferSize" and "\<And>buf. encode buf = encoded type payload buf"
  shows "pool_ready pool \<Longrightarrow> srv_sends s = [] \<Longrightarrow> snd ` set ps \<subseteq> dom (srv_heap s) \<Longrightarrow>
     \<exists>pool'. for_players (send_session encode) ps (pool, c, s) =
         Inr (pool', c, s\<lparr>srv_wire := srv_wire s @ concat (map (delivery s (packet type payload)) ps)\<rparr>)
       \<and> pool_kept pool pool'"
proof (induction ps arbitrary: pool s)
  case Nil
  then show ?case by (simp add: pool_kept_refl)
next
  case (Cons a ps)
  obtain ip j where a: "a = (ip, j)" by force
  then obtain y where y: "srv_heap s j = Some y" using Cons.prems(3) by auto
  let ?t = "s\<lparr>srv_wire := srv_wire s @ delivery s (packet type payload) (ip, j)\<rparr>"
  obtain q where q: "send_session encode j (pool, c, s) = Inr (q, c, ?t)" "pool_kept pool q"
    using send_session_open [OF Cons.prems(1) assms y Cons.prems(2)] by blast
  have "delivery ?t = delivery s" by (simp add: delivery_def fun_eq_iff)
  moreover have "pool_ready q" using pool_kept_ready [OF Cons.prems(1) q(2)] .
  moreover have "srv_sends ?t = []" "snd ` set ps \<subseteq> dom (srv_heap ?t)" using Cons.prems(2,3) by simp_all
  ultimately obtain q' where q': "for_players (send_session encode) ps (q, c, ?t) =
      Inr (q', c, ?t\<lparr>srv_wire := srv_wire ?t @ concat (map (delivery s (packet type payload)) ps)\<rparr>)"
      "pool_kept q q'"
    using Cons.IH [of q ?t] by auto
  show ?case
    using q q' pool_kept_trans [OF q(2) q'(2)] by (simp add: a)
qed

lemma targets_live:
  assumes "srv_inv s"
  shows "snd ` set (targets info s) \<subseteq> dom (srv_heap s)"
proof (cases "map_of (srv_players s) (pin_destIpV4 info)")
  case None
  then show ?thesis using assms by (auto simp: targets_def srv_inv_def players_ok_def)
next
  case (Some j)
  obtain y where "srv_heap s j = Some y" by (rule srv_inv_player [OF assms Some])
  then show ?thesis using assms Some by (auto simp: targets_def srv_inv_def players_ok_def)
qed

section \<open>A host with two guests\<close>

definition demo_guest :: "int \<Rightarrow> u32 \<Rightarrow> P2pProxySession" where
  "demo_guest fd ip =
     (P2pProxySession_new fd)\<lparr>ses_virtualIpAddress := ip, ses_running := True, ses_thread := Receiving\<rparr>"

definition demo_seat :: "nat \<Rightarrow> int \<Rightarrow> u32 \<Rightarrow> P2pProxyServer \<Rightarrow> P2pProxyServer" where
  "demo_seat k fd ip s =
     (let t = on_pool (take_slot k k) (set_session k (demo_guest fd ip) (s\<lparr>srv_fresh := Suc k\<rparr>)) in
      t\<lparr>srv_players := AList.update ip k (srv_players t)\<rparr>)"

definition demo_new :: P2pProxyServer where
  "demo_new = P2pProxyServer_new 39990 [] (\<lambda>fd. Some (2, 0x0100007F)) 19200000 [] [0, 0, 0]"

definition demo_server :: P2pProxyServer where
  "demo_server = (demo_seat 1 6 11 (demo_seat 0 5 10 demo_new))\<lparr>srv_broadcastAddress := 255,
     srv_running := True, srv_acceptThread := Receiving\<rparr>"

lemma ses_ok_demo: "ses_ok (demo_guest fd ip)"
  by (simp add: ses_ok_def demo_guest_def)

lemma demo_seat_inv:
  assumes "srv_inv s" and "sp_freeList (srv_sessionPool s) = Some k"
    and "sl_val (sp_sessions (srv_sessionPool s) ! k) = None" and "srv_fresh s = k"
  shows "srv_inv (demo_seat k fd ip s)"
proof -
  have "srv_inv (on_pool (take_slot k k) (set_session k (demo_guest fd ip) (s\<lparr>srv_fresh := Suc k\<rparr>)))"
    by (rule srv_inv_take [OF assms(1,2)]) (simp_all add: slot_session_def assms(3,4) ses_ok_demo)
  from srv_inv_add_player [OF this, of k "demo_guest fd ip" ip] show ?thesis
    by (simp add: demo_seat_def Let_def on_pool_def)
qed

lemma demo_server_inv: "srv_inv demo_server"
proof -
  have "srv_inv demo_new" by (simp add: demo_new_def srv_inv_new)
  then have "srv_inv (demo_seat 0 5 10 demo_new)"
    by (rule demo_seat_inv)
      (simp_all add: demo_new_def P2pProxyServer_new_def SessionPool_new_def fresh_slots_def MaxPooledSessions_def)
  then have "srv_inv (demo_seat 1 6 11 (demo_seat 0 5 10 demo_new))"
    by (rule demo_seat_inv)
      (simp_all add: demo_seat_def demo_new_def P2pProxyServer_new_def SessionPool_new_def fresh_slots_def
        MaxPooledSessions_def Let_def on_pool_def take_slot_def set_session_def upt_rec)
  then show ?thesis by (simp add: demo_server_def)
qed

lemma demo_server_fields:
  "srv_heap demo_server = [0 \<mapsto> demo_guest 5 10, 1 \<mapsto> demo_guest 6 11]"
  "srv_players demo_server = [(10, 0), (11, 1)]" "srv_sends demo_server = []" "srv_wire demo_server = []"
  "srv_broadcastAddress demo_server = 255" "srv_waitingTokens demo_server = []"
  "srv_running demo_server" "threads_ok demo_server"
  by (simp_all add: demo_server_def demo_seat_def demo_new_def P2pProxyServer_new_def Let_def on_pool_def
      set_session_def threads_ok_def)

section \<open>The relay\<close>

text \<open>
  C10: the relay between the guests. When a guest sends data, the packet goes once to every guest it is
  addressed to (all of them for a broadcast) and to nobody else, with the address of the sender as its
  source and the data unchanged; a guest that claims the address of somebody else is not heard. The
  buffer pool is left as it was.
\<close>

theorem relay_delivers:
  assumes "srv_inv s" and "srv_heap s i = Some x" and "pool_ready pool" and "srv_sends s = []"
    and "length data = unat n" and "HeaderSize + 20 + length data \<le> BufferSize"
  shows "\<exists>pool'. srv_HandleProxyData i message (data, n) (pool, c, s) =
       Inr (pool', c, s\<lparr>srv_wire := srv_wire s @
         (if may_send x (pdh_info message)
          then concat (map (delivery s (packet PacketId_ProxyData
                 (put_ProxyDataHeaderFull (message\<lparr>pdh_info := sent_as x (pdh_info message)\<rparr>) @ data)))
               (targets (pdh_info message) s))
          else [])\<rparr>) \<and> pool_kept pool pool'"
proof (cases "may_send x (pdh_info message)")
  case True
  let ?pk = "put_ProxyDataHeaderFull (message\<lparr>pdh_info := sent_as x (pdh_info message)\<rparr>) @ data"
  have fits: "HeaderSize + length ?pk \<le> BufferSize" using assms(6) by (simp add: put_ProxyDataHeaderFull_length)
  show ?thesis
    using for_players_open [OF fits _ assms(3,4) targets_live [OF assms(1), of "pdh_info message"],
        of "\<lambda>buffer. if length data < unat n then Inl BufferOverrun
            else Encode_extra PacketId_ProxyData
              (put_ProxyDataHeaderFull (message\<lparr>pdh_info := sent_as x (pdh_info message)\<rparr>)) (take (unat n) data) buffer"
          PacketId_ProxyData c] True assms(2,5)
    by (simp add: srv_HandleProxyData_def RouteMessage_targets Encode_extra_packet)
next
  case False
  with assms(2,3) show ?thesis
    by (simp add: srv_HandleProxyData_def RouteMessage_targets pool_kept_refl)
qed

definition demo_data :: ProxyDataHeaderFull where
  "demo_data = \<lparr>pdh_info = \<lparr>pin_sourceIpV4 = 0, pin_sourcePort = 1, pin_destIpV4 = 11, pin_destPort = 2,
     pin_protocol = 17\<rparr>, pdh_dataLength = 2\<rparr>"

theorem relay_delivers_witness:
  "\<exists>pool'. srv_HandleProxyData 0 demo_data ([7, 8], 2) (zero_pool, demo_client, demo_server) =
     Inr (pool', demo_client, demo_server\<lparr>srv_wire :=
       [(6, packet PacketId_ProxyData
              (put_ProxyDataHeaderFull (demo_data\<lparr>pdh_info := (pdh_info demo_data)\<lparr>pin_sourceIpV4 := 10\<rparr>\<rparr>) @ [7, 8]))]\<rparr>)
     \<and> pool_kept zero_pool pool'"
  using relay_delivers [of demo_server 0 "demo_guest 5 10" zero_pool "[7, 8]" 2 demo_data demo_client]
    demo_server_inv zero_pool_ready
  by (simp add: demo_server_fields demo_data_def may_send_def sent_as_def targets_def delivery_def
      demo_guest_def P2pProxySession_new_def hardcoded_broadcast_def HeaderSize_def BufferSize_def MaxPacketSize_def)

section \<open>Registration\<close>

lemma length_put_guest_config: "length (put_ProxyConfig m) = 8"
  by (rule ProxyConfig_wire.length_put_wf) (simp add: wf_ProxyConfig_def)

definition guest_config :: "u32 \<Rightarrow> ProxyConfig" where
  "guest_config ip = \<lparr>pcf_proxyIp = ip, pcf_proxySubnetMask = 0xFFFF0000\<rparr>"

text \<open>The host with the guest in its seat, and the configuration sent to it.\<close>

definition seated :: "nat \<Rightarrow> sid \<Rightarrow> P2pProxySession \<Rightarrow> P2pProxyServer \<Rightarrow> P2pProxyServer" where
  "seated k i x s =
     (let ip = ept_virtualIp (erased_reference k (srv_waitingTokens s));
          t = set_session i (x\<lparr>ses_virtualIpAddress := ip\<rparr>) (s\<lparr>srv_waitingTokens := remove_nth k (srv_waitingTokens s)\<rparr>);
          u = (if srv_players s = [] then Configure (guest_config ip) t else t) in
      u\<lparr>srv_players := AList.update ip i (srv_players s),
        srv_wire := srv_wire s @ [(ses_socket x, packet PacketId_ProxyConfig (put_ProxyConfig (guest_config ip)))]\<rparr>)"

lemma register_user_seated:
  assumes "srv_heap s i = Some x" and "pool_ready pool" and "srv_sends s = []" and "0 \<le> ses_socket x"
  shows "\<exists>pool'. register_user k i (pool, c, s) = Inr (pool', c, seated k i x s) \<and> pool_kept pool pool'"
proof -
  define ip where "ip = ept_virtualIp (erased_reference k (srv_waitingTokens s))"
  define t where "t = set_session i (x\<lparr>ses_virtualIpAddress := ip\<rparr>)
      (s\<lparr>srv_waitingTokens := remove_nth k (srv_waitingTokens s)\<rparr>)"
  define u where "u = (if srv_players t = [] then Configure (guest_config ip) t else t)"
  define v where "v = u\<lparr>srv_players := AList.update ip i (srv_players u)\<rparr>"
  have u: "srv_players u = srv_players s" "srv_wire u = srv_wire s" "srv_sends u = []"
      "srv_heap u i = Some (x\<lparr>ses_virtualIpAddress := ip\<rparr>)"
    using assms(3) by (auto simp: u_def t_def Configure_def set_session_def)
  then have v: "srv_heap v i = Some (x\<lparr>ses_virtualIpAddress := ip\<rparr>)" "srv_sends v = []" by (simp_all add: v_def)
  have fits: "HeaderSize + length (put_ProxyConfig (guest_config ip)) \<le> BufferSize"
    by (simp add: length_put_guest_config HeaderSize_def BufferSize_def MaxPacketSize_def)
  have r: "register_user k i (pool, c, s) =
      send_session (Encode_struct PacketId_ProxyConfig (put_ProxyConfig (guest_config ip))) i (pool, c, v)"
    using assms(1)
    by (cases "srv_players s = []")
      (simp_all add: register_user_def Let_def session_Some v_def u_def t_def guest_config_def ip_def)
  have d: "delivery v b (ip, i) = [(ses_socket x, b)]" for b
    using v(1) assms(4) by (simp add: delivery_def)
  have e: "seated k i x s =
      v\<lparr>srv_wire := srv_wire v @ [(ses_socket x, packet PacketId_ProxyConfig (put_ProxyConfig (guest_config ip)))]\<rparr>"
    by (simp add: seated_def Let_def v_def u) (simp add: u_def t_def ip_def)
  show ?thesis
    unfolding r e using send_session_open [OF assms(2) fits Encode_struct_packet v, where c = c and ip = ip, of PacketId_ProxyConfig] d
    by simp
qed

lemma seated_fields:
  defines "ip k s \<equiv> ept_virtualIp (erased_reference k (srv_waitingTokens s))"
  shows "srv_heap (seated k i x s) = (srv_heap s)(i \<mapsto> x\<lparr>ses_virtualIpAddress := ip k s\<rparr>)"
    and "map_of (srv_players (seated k i x s)) = (map_of (srv_players s))(ip k s \<mapsto> i)"
    and "srv_waitingTokens (seated k i x s) = remove_nth k (srv_waitingTokens s)"
    and "srv_sends (seated k i x s) = srv_sends s"
    and "srv_wire (seated k i x s) =
      srv_wire s @ [(ses_socket x, packet PacketId_ProxyConfig (put_ProxyConfig (guest_config (ip k s))))]"
  by (simp_all add: seated_def Let_def Configure_def set_session_def update_conv' ip_def)

lemma register_user_open:
  assumes "srv_heap s i = Some x" and "pool_ready pool" and "srv_sends s = []" and "0 \<le> ses_socket x"
    and "ip = ept_virtualIp (erased_reference k (srv_waitingTokens s))"
  shows "\<exists>pool' s'. register_user k i (pool, c, s) = Inr (pool', c, s')
     \<and> srv_heap s' = (srv_heap s)(i \<mapsto> x\<lparr>ses_virtualIpAddress := ip\<rparr>)
     \<and> map_of (srv_players s') = (map_of (srv_players s))(ip \<mapsto> i)
     \<and> srv_waitingTokens s' = remove_nth k (srv_waitingTokens s)
     \<and> srv_wire s' = srv_wire s @ [(ses_socket x, packet PacketId_ProxyConfig (put_ProxyConfig (guest_config ip)))]"
proof -
  obtain pool' where "register_user k i (pool, c, s) = Inr (pool', c, seated k i x s)"
    using register_user_seated [OF assms(1-4)] by blast
  then show ?thesis by (intro exI conjI) (assumption | simp add: seated_fields assms(5))+
qed

text \<open>
  C20: registering a guest. When a waiting token matches, the guest is registered, told its address and
  the token is used up; but the address is the one of the token that follows the matching one, if there
  is any: \<open>waitToken\<close> is a reference into the vector, read after \<open>erase\<close> has moved the elements.
\<close>

theorem registration_takes_next_address:
  assumes "srv_heap s i = Some x" and "srv_peer s (ses_socket x) = Some addr" and "0 \<le> ses_socket x"
    and "pool_ready pool" and "srv_sends s = []"
    and "find (\<lambda>k. token_matches addr config (srv_waitingTokens s ! k)) [0..<length (srv_waitingTokens s)] = Some k"
    and "ip = ept_virtualIp (srv_waitingTokens s ! (if Suc k < length (srv_waitingTokens s) then Suc k else k))"
  shows "\<exists>pool' s'. TryRegisterUser i config (pool, c, s) = Inr (True, pool', c, s')
     \<and> srv_heap s' = (srv_heap s)(i \<mapsto> x\<lparr>ses_virtualIpAddress := ip\<rparr>)
     \<and> map_of (srv_players s') = (map_of (srv_players s))(ip \<mapsto> i)
     \<and> srv_waitingTokens s' = remove_nth k (srv_waitingTokens s)
     \<and> srv_wire s' = srv_wire s @ [(ses_socket x, packet PacketId_ProxyConfig (put_ProxyConfig (guest_config ip)))]"
proof -
  have s: "s\<lparr>srv_waits := srv_waits s\<rparr> = s" by simp
  have "ip = ept_virtualIp (erased_reference k (srv_waitingTokens s))"
    using assms(7) by (simp add: erased_reference_def)
  from register_user_open [OF assms(1,4,5,3) this, of c] show ?thesis
    using assms(1,2,6) by (auto simp: TryRegisterUser_def session_Some s)
qed

definition demo_token :: "u32 \<Rightarrow> u8 \<Rightarrow> ExternalProxyToken" where
  "demo_token ip b = \<lparr>ept_virtualIp = ip, ept_token = replicate 16 b, ept_physicalIp = replicate 16 0,
     ept_addressFamily = 2\<rparr>"

definition demo_auth :: ExternalProxyConfig where
  "demo_auth = \<lparr>epc_proxyIp = replicate 16 0, epc_addressFamily = 2, epc_proxyPort = 39990,
     epc_token = replicate 16 1\<rparr>"

theorem registration_takes_next_address_witness:
  "\<exists>pool' s'. TryRegisterUser 0 demo_auth
       (zero_pool, demo_client, demo_server\<lparr>srv_waitingTokens := [demo_token 20 1, demo_token 21 2]\<rparr>) =
         Inr (True, pool', demo_client, s')
     \<and> map_of (srv_players s') 21 = Some 0 \<and> map_of (srv_players s') 20 = None"
proof -
  let ?s = "demo_server\<lparr>srv_waitingTokens := [demo_token 20 1, demo_token 21 2]\<rparr>"
  have peer: "srv_peer ?s 5 = Some (2, 0x0100007F)"
    by (simp add: demo_server_def demo_seat_def demo_new_def P2pProxyServer_new_def Let_def on_pool_def set_session_def)
  have f: "find (\<lambda>k. token_matches (2, 0x0100007F) demo_auth (srv_waitingTokens ?s ! k))
      [0..<length (srv_waitingTokens ?s)] = Some 0"
    by (simp add: upt_rec token_matches_def demo_token_def demo_auth_def Let_def)
  show ?thesis
    using registration_takes_next_address [of ?s 0 "demo_guest 5 10" "(2, 0x0100007F)" zero_pool demo_auth 0 21 demo_client]
      zero_pool_ready peer f
    by (auto simp: demo_server_fields demo_guest_def P2pProxySession_new_def demo_token_def)
qed

text \<open>
  A guest that is refused: the thread of its session waits for its own end. From then on no pass of that
  thread changes anything, and the session is neither stopped nor started again by anybody.
\<close>

theorem refused_guest_deadlocks:
  assumes "TryRegisterUser i config (pool, c, s) = Inr (False, pool', c', s')"
    and "srv_heap s' i = Some x" and "ses_running x"
  shows "\<exists>t. HandleAuthentication i config (pool, c, s) = Inr (pool', c', t) \<and> self_waiting i t
    \<and> (\<forall>a q d. ses_ReceiveLoop_pass i a (q, d, t) = Inr (q, d, t))
    \<and> (\<forall>disconnect q d. ses_Stop disconnect False i (q, d, t) = Inr (q, d, t))
    \<and> (\<forall>a b. ses_Start a b i t = Inl UseAfterFree)"
proof -
  let ?t = "set_session i (refused x) s'"
  have "HandleAuthentication i config (pool, c, s) = Inr (pool', c', ?t)"
    using assms by (simp add: HandleAuthentication_def DisconnectAndStop_self)
  moreover have "srv_heap ?t i = Some (refused x)" by simp
  ultimately show ?thesis
    using assms(3)
    by (intro exI [of _ ?t])
      (simp add: self_waiting_def refused_def ses_ReceiveLoop_pass_def ses_Stop_def ses_Start_def session_Some)
qed

text \<open>
  A registered guest that authenticates again and is refused: when the master server then reports that it
  has left, its session goes back to the pool, and the next connection frees the stack of its thread.
\<close>

theorem refused_player_faults_accept:
  assumes "TryRegisterUser i config (pool, c, s0) = Inr (False, p, d, s)"
    and inv: "srv_inv s" and x: "srv_heap s i = Some x" "ses_running x"
    and e: "map_of (srv_players s) (eps_ipAddress e) = Some i" "eps_connected e = 0"
    and k: "k \<in> busy_slots (sp_sessions (srv_sessionPool s))" "sl_val (sp_sessions (srv_sessionPool s) ! k) = Some i"
    and run: "srv_running s" "srv_acceptThread s = Receiving" "0 \<le> ac_socket a"
  shows "\<exists>t u. HandleAuthentication i config (pool, c, s0) = Inr (p, d, t)
     \<and> HandleStateChange e (p, d, t) = Inr (p, d, u) \<and> AcceptLoop_pass a (p, d, u) = Inl UseAfterFree"
proof -
  define y where "y = refused x"
  have y: "ses_ok y" "ses_thread y = WaitsForItself" "\<not> ses_running y" "y\<lparr>ses_masterClosed := True\<rparr> = y"
    using refused_ok [of x] srv_invD(1) [OF inv x(1)] x(2) by (simp_all add: y_def refused_def)
  define t where "t = set_session i y s"
  have auth: "HandleAuthentication i config (pool, c, s0) = Inr (p, d, t)"
    using assms(1) x by (simp add: HandleAuthentication_def DisconnectAndStop_self t_def y_def)
  have t: "srv_inv t" unfolding t_def using y(1,2) by (intro srv_inv_set_session [OF inv x(1)]) auto
  define t1 where "t1 = t\<lparr>srv_waitingTokens := filter (\<lambda>w. ept_virtualIp w \<noteq> eps_ipAddress e) (srv_waitingTokens t)\<rparr>"
  have t1: "srv_inv t1" "srv_heap t1 i = Some y" "srv_players t1 = srv_players s" "srv_sessionPool t1 = srv_sessionPool s"
    using t by (simp_all add: t1_def) (simp_all add: t_def)
  have pl: "srv_players t = srv_players s" by (simp add: t_def)
  have stop: "DisconnectAndStop disconnect_players_held False i (p, d, t1) = Inr (p, d, t1)"
    using y t1(2) by (simp add: DisconnectAndStop_def ses_Stop_def session_Some set_session_same)
  have sp: "sp_inv (srv_sessionPool s) (srv_fresh s)" using inv by (simp add: srv_inv_def)
  have kl: "k < length (sp_sessions (srv_sessionPool s))" using k(1) by (simp add: busy_slots_def)
  obtain k' where "slot_of i (srv_sessionPool s) = Some k'" "k' < length (sp_sessions (srv_sessionPool s))"
      "sl_val (sp_sessions (srv_sessionPool s) ! k') = Some i"
    using slot_of_ids [OF sp idsI [OF kl k(2)]] .
  then have "slot_of i (srv_sessionPool s) = Some k" using sp_inv_inj [OF sp _ kl _ k(2)] by simp
  then have rel: "Release i (p, d, t1) = Inr (p, d, on_pool (free_slot k) t1)"
    using k(1) t1(4) by (simp add: Release_def busy_slots_def)
  define u where "u = (on_pool (free_slot k) t1)\<lparr>srv_players := AList.delete (eps_ipAddress e) (srv_players t1)\<rparr>"
  have state: "HandleStateChange e (p, d, t) = Inr (p, d, u)"
    using e stop rel t1(3) pl by (simp add: HandleStateChange_def t1_def [symmetric] u_def on_pool_def Let_def)
  then have "srv_inv u" using HandleStateChange_inv [OF t, of e p d] by simp
  moreover have "next_waits u"
    using y(2) t1(2,4) k(2) by (simp add: next_waits_def self_waiting_def u_def on_pool_def)
      (simp add: free_slot_def kl self_waiting_def)
  moreover have "srv_running u" "srv_acceptThread u = Receiving"
    using run by (simp_all add: u_def on_pool_def t1_def t_def set_session_def)
  ultimately have "AcceptLoop_pass a (p, d, u) = Inl UseAfterFree"
    using AcceptLoop_pass_inv [of u a p d] run(3) by simp
  with auth state show ?thesis by blast
qed

section \<open>The session pool\<close>



definition demo_listen :: ListenAnswer where
  "demo_listen = \<lparr>li_socket = 3, li_bind = True, li_listen = True, li_stack = True, li_thread = True\<rparr>"

definition demo_accept :: "int \<Rightarrow> AcceptAnswer" where
  "demo_accept fd = \<lparr>ac_socket = fd, ac_alloc = True, ac_stack = True, ac_thread = True\<rparr>"

text \<open>A gateway that grants the second public port.\<close>

definition demo_igd :: "unit IGD" where
  "demo_igd = \<lparr>igd_add = (\<lambda>url st ext inner ip desc proto lease g. (if ext = to_string 39991 then 0 else 718, g)),
     igd_delete = (\<lambda>url st ext proto g. (0, g)), igd_external = (\<lambda>url st g. ((0, []), g))\<rparr>"

lemma demo_started: "p2p_reachable demo_igd ((zero_pool, demo_client, snd (srv_Start demo_listen demo_new)), ())"
  unfolding demo_new_def by (rule p2p_reachable.Step [OF p2p_reachable.New p2p_step.Start])


text \<open>
  All sessions are taken by guests that have gone without ever being registered, or that were refused:
  \<open>DisconnectProxyClient\<close> releases a session only when it finds it among the players, and the thread of a
  refused guest never gets there.
\<close>

definition exhausted :: "P2pProxyServer \<Rightarrow> bool" where
  "exhausted s \<longleftrightarrow>
     srv_inv s \<and> sp_freeList (srv_sessionPool s) = None \<and> srv_players s = []
     \<and> (\<forall>i x. srv_heap s i = Some x \<longrightarrow> ses_thread x \<in> {Ended, WaitsForItself})"

lemma exhausted_fields [simp]:
  "exhausted (s\<lparr>srv_open := d\<rparr>) = exhausted s" "exhausted (s\<lparr>srv_waitingTokens := e\<rparr>) = exhausted s"
  "exhausted (s\<lparr>srv_tokenEvent := f\<rparr>) = exhausted s" "exhausted (s\<lparr>srv_waits := g\<rparr>) = exhausted s"
  "exhausted (s\<lparr>srv_sends := b\<rparr>) = exhausted s" "exhausted (s\<lparr>srv_peer := p\<rparr>) = exhausted s"
  "exhausted (s\<lparr>srv_stack := q\<rparr>) = exhausted s" "exhausted (s\<lparr>srv_acceptThread := k\<rparr>) = exhausted s"
  "exhausted (s\<lparr>srv_leaseThread := k\<rparr>) = exhausted s" "exhausted (s\<lparr>srv_leaseThreadRunning := l\<rparr>) = exhausted s"
  "exhausted (s\<lparr>srv_upnpClient := u\<rparr>) = exhausted s" "exhausted (s\<lparr>srv_portMapping := v\<rparr>) = exhausted s"
  "exhausted (s\<lparr>srv_hasPortMapping := l\<rparr>) = exhausted s" "exhausted (s\<lparr>srv_publicPort := w\<rparr>) = exhausted s"
  by (simp_all add: exhausted_def)

lemma NatPunch_loop_exhausted:
  "NatPunch_loop n igd l a b (s, g) = (port, s', g') \<Longrightarrow> exhausted s \<Longrightarrow> exhausted s'"
proof (induction n arbitrary: s g)
  case (Suc n)
  then show ?case by (auto simp: Let_def split: prod.splits if_splits)
qed auto

lemma exhausted_Receive:
  assumes "exhausted s" and "ses_ReceiveLoop_pass i a (pool, c, s) = Inr (pool', c', s')"
  shows "s' = s"
proof -
  obtain x where x: "srv_heap s i = Some x"
    using assms(2) by (auto simp: ses_ReceiveLoop_pass_def bind_run_Inr_iff)
  then have "ses_thread x = Ended \<or> ses_thread x = WaitsForItself" using assms(1) by (simp add: exhausted_def)
  then have "ses_thread x \<noteq> Receiving" by auto
  with x assms(2) show ?thesis by (simp add: ses_ReceiveLoop_pass_def session_Some)
qed

lemma srv_Stop_stops:
  assumes "srv_inv s" and "srv_Stop (pool, c, s) = Inr (pool', c', s')"
  shows "\<not> srv_running s'"
proof (cases "srv_running s")
  case True
  define t where "t = (if 0 \<le> srv_listenSocket s then close_listen (s\<lparr>srv_running := False\<rparr>)
      else s\<lparr>srv_running := False\<rparr>)\<lparr>srv_acceptThread := NoThread\<rparr>"
  have t: "srv_inv t" "\<not> srv_running t" using assms(1) by (auto simp: t_def close_listen_def)
  obtain q d u where "Clear (pool, c, t) = Inr (q, d, u)" "srv_running s' = srv_running u"
    using assms(2) True
    by (auto simp: srv_Stop_def t_def Let_def bind_run_Inr_iff split: if_splits)
  moreover have "srv_running u = srv_running t"
    using Clear_eq [OF t(1), of pool c] calculation(1) by (auto split: if_splits)
  ultimately show ?thesis using t(2) by simp
qed (use assms(2) in \<open>simp add: srv_Stop_def\<close>)

text \<open>
  C31: four guests that connect and leave without authenticating, or are refused, shut the host for
  everybody. Once every session is held by such a guest, no step of the running host frees one: every later connection is closed
  at once, until the host itself is stopped.
\<close>

theorem unregistered_guests_exhaust_pool:
  assumes "exhausted s" and "srv_running s" and "p2p_step igd ((pool, c, s), g) ((pool', c', s'), g')"
  shows "exhausted s' \<or> \<not> srv_running s'"
  using assms(3)
proof cases
  case (Start a)
  with assms(1,2) show ?thesis by (simp add: srv_Start_def)
next
  case (Accept a)
  have "Acquire (ac_alloc a) (ac_socket a) (pool, c, s\<lparr>srv_open := ac_socket a # srv_open s\<rparr>) =
      Inr (None, pool, c, s\<lparr>srv_open := ac_socket a # srv_open s\<rparr>)"
    using assms(1) by (simp add: Acquire_def exhausted_def)
  with Accept assms(1) show ?thesis by (auto simp: AcceptLoop_pass_def split: if_splits)
next
  case (Receive i a)
  then have "s' = s" by (intro exhausted_Receive [OF assms(1)])
  with assms(1) show ?thesis by simp
next
  case (State e)
  have "srv_players s = []" using assms(1) by (simp add: exhausted_def)
  with State assms(1) show ?thesis by (auto simp: HandleStateChange_def Let_def split: if_splits)
next
  case (Punch d l a b port)
  then show ?thesis
    using assms(1) NatPunch_loop_exhausted [of PublicPortRange igd l a b]
    by (auto simp: NatPunch_def Let_def split: prod.splits if_splits)
next
  case (Lease l)
  then show ?thesis
    using assms(1) by (auto simp: LeaseRenewalLoop_pass_def RefreshLease_def Let_def split: prod.splits if_splits)
next
  case Stop
  with srv_Stop_stops [of s] assms(1) show ?thesis by (auto simp: exhausted_def)
next
  case Dispose
  from srv_Dispose_Inr [OF this] show ?thesis
  proof (elim disjE exE conjE)
    fix s1 u m
    assume "srv_Stop (pool, c, s\<lparr>srv_disposed := True\<rparr>) = Inr (pool', c', s1)"
      and "s' = s1\<lparr>srv_upnpClient := u, srv_hasPortMapping := m, srv_handlers := False\<rparr>"
    then show ?thesis using srv_Stop_stops [of "s\<lparr>srv_disposed := True\<rparr>"] assms(1) by (auto simp: exhausted_def)
  qed (use assms(1) in simp)
next
  case (Held i x q)
  then show ?thesis
    using assms(1) srv_inv_same_thread [of s i x "x\<lparr>ses_protocol := q\<rparr>"] by (auto simp: exhausted_def)
qed (use assms(1) in \<open>simp_all add: HandleToken_def\<close>)

text \<open>A guest connects, and closes the connection.\<close>

definition arrive :: "nat \<Rightarrow> int \<Rightarrow> P2pProxyServer \<Rightarrow> P2pProxyServer" where
  "arrive k fd s =
     on_pool (take_slot k k) (set_session k (demo_guest fd 0) (s\<lparr>srv_open := fd # srv_open s, srv_fresh := Suc k\<rparr>))"

definition depart :: "nat \<Rightarrow> int \<Rightarrow> P2pProxyServer \<Rightarrow> P2pProxyServer" where
  "depart k fd s = set_session k ((demo_guest fd 0)\<lparr>ses_thread := Ended\<rparr>) s"

lemma arrive_step:
  assumes "srv_running s" "srv_acceptThread s = Receiving" "sp_freeList (srv_sessionPool s) = Some k"
    and "sl_val (sp_sessions (srv_sessionPool s) ! k) = None" "srv_fresh s = k" "0 \<le> fd"
  shows "AcceptLoop_pass (demo_accept fd) (p, c, s) = Inr (p, c, arrive k fd s)"
  using assms
  by (simp add: AcceptLoop_pass_def demo_accept_def Acquire_def arrive_def ses_Start_def session_Some on_pool_def
      set_session_def demo_guest_def P2pProxySession_new_def Let_def)

lemma depart_step:
  assumes "srv_heap s k = Some (demo_guest fd 0)" "srv_players s = []"
  shows "ses_ReceiveLoop_pass k (Got []) (p, c, s) = Inr (p, c, depart k fd s)"
  using assms
  by (simp add: ses_ReceiveLoop_pass_def session_Some demo_guest_def P2pProxySession_new_def Let_def
      ReceiveLoop_exit_def DisconnectProxyClient_def DisconnectProxyClient_with_def depart_def)

definition visit :: "nat \<Rightarrow> int \<Rightarrow> P2pProxyServer \<Rightarrow> P2pProxyServer" where
  "visit k fd s = depart k fd (arrive k fd s)"

lemma visit_reachable:
  assumes "p2p_reachable igd ((p, c, s), g)" "srv_running s" "srv_acceptThread s = Receiving"
    "sp_freeList (srv_sessionPool s) = Some k" "sl_val (sp_sessions (srv_sessionPool s) ! k) = None"
    "srv_fresh s = k" "0 \<le> fd" "srv_players s = []"
  shows "p2p_reachable igd ((p, c, visit k fd s), g)"
proof -
  have "p2p_reachable igd ((p, c, arrive k fd s), g)"
    by (rule p2p_reachable.Step [OF assms(1) p2p_step.Accept [OF arrive_step [OF assms(2-7)]]])
  moreover have "srv_heap (arrive k fd s) k = Some (demo_guest fd 0)" "srv_players (arrive k fd s) = []"
    using assms(8) by (simp_all add: arrive_def on_pool_def)
  ultimately show ?thesis
    unfolding visit_def by (intro p2p_reachable.Step [OF _ p2p_step.Receive [OF depart_step]])
qed

lemma visit_fields [simp]:
  "srv_running (visit k fd s) = srv_running s" "srv_acceptThread (visit k fd s) = srv_acceptThread s"
  "srv_players (visit k fd s) = srv_players s" "srv_fresh (visit k fd s) = Suc k"
  "srv_sessionPool (visit k fd s) = take_slot k k (srv_sessionPool s)"
  "srv_heap (visit k fd s) = (srv_heap s)(k \<mapsto> (demo_guest fd 0)\<lparr>ses_thread := Ended\<rparr>)"
  by (simp_all add: visit_def arrive_def depart_def on_pool_def set_session_def)

definition demo_full :: P2pProxyServer where
  "demo_full = visit 3 8 (visit 2 7 (visit 1 6 (visit 0 5 (snd (srv_Start demo_listen demo_new)))))"

definition lent_slot :: "sid \<Rightarrow> sid option slot" where
  "lent_slot i = \<lparr>sl_val = Some i, sl_inUse = True, sl_next = None\<rparr>"

definition idle_slot :: "nat option \<Rightarrow> sid option slot" where
  "idle_slot n = \<lparr>sl_val = None, sl_inUse = False, sl_next = n\<rparr>"

lemma SessionPool_new_eq:
  "SessionPool_new = \<lparr>sp_sessions = [idle_slot (Some 1), idle_slot (Some 2), idle_slot (Some 3), idle_slot None],
     sp_freeList = Some 0, sp_activeCount = 0\<rparr>"
  by (simp add: SessionPool_new_def fresh_slots_def MaxPooledSessions_def upt_rec idle_slot_def)

definition demo_pool :: "sid list \<Rightarrow> SessionPool" where
  "demo_pool is = \<lparr>sp_sessions = map lent_slot is @ drop (length is)
       [idle_slot (Some 1), idle_slot (Some 2), idle_slot (Some 3), idle_slot None],
     sp_freeList = (if length is < 4 then Some (length is) else None), sp_activeCount = length is\<rparr>"

lemma demo_pools:
  "SessionPool_new = demo_pool []" "take_slot 0 0 (demo_pool []) = demo_pool [0]"
  "take_slot 1 1 (demo_pool [0]) = demo_pool [0, 1]" "take_slot 2 2 (demo_pool [0, 1]) = demo_pool [0, 1, 2]"
  "take_slot 3 3 (demo_pool [0, 1, 2]) = demo_pool [0, 1, 2, 3]"
  by (simp_all add: SessionPool_new_eq demo_pool_def take_slot_def idle_slot_def lent_slot_def)

lemma demo_pool_fields:
  "sp_freeList (demo_pool []) = Some 0" "sp_freeList (demo_pool [0]) = Some 1" "sp_freeList (demo_pool [0, 1]) = Some 2"
  "sp_freeList (demo_pool [0, 1, 2]) = Some 3" "sp_freeList (demo_pool [0, 1, 2, 3]) = None"
  "sl_val (sp_sessions (demo_pool []) ! 0) = None" "sl_val (sp_sessions (demo_pool [0]) ! 1) = None"
  "sl_val (sp_sessions (demo_pool [0, 1]) ! 2) = None" "sl_val (sp_sessions (demo_pool [0, 1, 2]) ! 3) = None"
  by (simp_all add: demo_pool_def idle_slot_def)

lemma demo_start_fields:
  "srv_running (snd (srv_Start demo_listen demo_new))"
  "srv_acceptThread (snd (srv_Start demo_listen demo_new)) = Receiving"
  "srv_players (snd (srv_Start demo_listen demo_new)) = []" "srv_fresh (snd (srv_Start demo_listen demo_new)) = 0"
  "srv_heap (snd (srv_Start demo_listen demo_new)) = Map.empty"
  "srv_sessionPool (snd (srv_Start demo_listen demo_new)) = SessionPool_new"
  by (simp_all add: srv_Start_def demo_listen_def demo_new_def P2pProxyServer_new_def)

lemma demo_full_reachable: "p2p_reachable demo_igd ((zero_pool, demo_client, demo_full), ())"
proof -
  note f = demo_start_fields demo_pools [unfolded One_nat_def] demo_pool_fields [unfolded One_nat_def]
  have "p2p_reachable demo_igd ((zero_pool, demo_client, visit 0 5 (snd (srv_Start demo_listen demo_new))), ())"
    by (rule visit_reachable [OF demo_started]) (simp_all add: f)
  then have "p2p_reachable demo_igd ((zero_pool, demo_client, visit 1 6 (visit 0 5 (snd (srv_Start demo_listen demo_new)))), ())"
    by (rule visit_reachable) (simp_all add: f)
  then have "p2p_reachable demo_igd ((zero_pool, demo_client, visit 2 7 (visit 1 6 (visit 0 5 (snd (srv_Start demo_listen demo_new))))), ())"
    by (rule visit_reachable) (simp_all add: f)
  then show ?thesis
    unfolding demo_full_def by (rule visit_reachable) (simp_all add: f)
qed

lemma demo_full_exhausted: "exhausted demo_full" "srv_running demo_full"
proof -
  have "srv_inv demo_full" using p2p_reachable_inv [OF demo_full_reachable] by (simp add: p2p_inv_def)
  moreover have "srv_heap demo_full i = Some x \<Longrightarrow> ses_thread x = Ended" for i x
    by (auto simp: demo_full_def demo_start_fields split: if_splits)
  moreover have "sp_freeList (srv_sessionPool demo_full) = None"
    by (simp add: demo_full_def demo_start_fields demo_pools [unfolded One_nat_def] demo_pool_fields [unfolded One_nat_def])
  ultimately show "exhausted demo_full" "srv_running demo_full"
    by (simp_all add: exhausted_def demo_full_def demo_start_fields)
qed

lemma exhausted_Accept:
  assumes "exhausted s" and "srv_running s" and "srv_acceptThread s = Receiving" and "0 \<le> fd"
  shows "AcceptLoop_pass (demo_accept fd) (p, c, s) = Inr (p, c, s)"
  using assms by (simp add: AcceptLoop_pass_def demo_accept_def Acquire_def exhausted_def)

theorem unregistered_guests_exhaust_pool_witness:
  "p2p_step demo_igd ((zero_pool, demo_client, demo_full), ()) ((zero_pool, demo_client, demo_full), ())
   \<and> srv_running demo_full \<and> exhausted demo_full"
proof -
  have "srv_acceptThread demo_full = Receiving" by (simp add: demo_full_def demo_start_fields)
  from p2p_step.Accept [OF exhausted_Accept [OF demo_full_exhausted this, of 9 zero_pool demo_client]]
  have step: "p2p_step demo_igd ((zero_pool, demo_client, demo_full), ()) ((zero_pool, demo_client, demo_full), ())"
    by simp
  from unregistered_guests_exhaust_pool [OF demo_full_exhausted step] step demo_full_exhausted(2)
  show ?thesis by simp
qed

section \<open>Shutdown\<close>

text \<open>
  C12: stopping the host. With a registered guest still connected, \<open>Stop\<close> never returns: it holds the mutex
  of the session pool and waits for the guest's thread, which waits for that mutex to release the session.
  With no such guest it returns: no session and no player is left, the accept and the lease thread are
  gone, and of the descriptors exactly the listening one and the one of each session are closed (those a
  reused session held before are not). The threads of refused guests stay behind, one for each.
\<close>

theorem Stop_returns_iff_no_guest:
  assumes "p2p_reachable igd ((pool, c, s), g)" and "srv_running s"
  shows "if \<exists>i. reporting s i then srv_Stop (pool, c, s) = Inl Deadlock
     else \<exists>pool' s'. srv_Stop (pool, c, s) = Inr (pool', c, s') \<and> \<not> srv_running s'
            \<and> srv_heap s' = Map.empty \<and> srv_players s' = [] \<and> srv_listenSocket s' < 0
            \<and> srv_acceptThread s' = NoThread \<and> \<not> srv_leaseThreadRunning s'
            \<and> mset (srv_open s') = mset (srv_open s) - listening s - (\<Sum>i \<in> dom (srv_heap s). session_socket s i)
            \<and> srv_stranded s' = srv_stranded s + card {i. self_waiting i s}"
proof -
  have "srv_inv s" "threads_ok s" using p2p_reachable_inv [OF assms(1)] by (simp_all add: p2p_inv_def)
  from srv_Stop_eq [OF this(1) assms(2), of pool c] this(2) assms(2) show ?thesis
    by (auto simp: threads_ok_def split: if_splits)
qed

theorem Stop_returns_iff_no_guest_witness:
  "\<exists>pool' s'. srv_Stop (zero_pool, demo_client, demo_full) = Inr (pool', demo_client, s')
     \<and> srv_heap s' = Map.empty \<and> srv_acceptThread s' = NoThread"
proof -
  have "\<not> reporting demo_full i" for i
    using demo_full_exhausted(1) by (cases "srv_heap demo_full i") (simp_all add: reporting_def exhausted_def)
  with Stop_returns_iff_no_guest [OF demo_full_reachable demo_full_exhausted(2)] show ?thesis by auto
qed

section \<open>The port mapping\<close>

text \<open>The reference: ask for the ports in order, stop at the first the gateway grants.\<close>

fun first_granted :: "(nat \<Rightarrow> 'g \<Rightarrow> bool \<times> 'g) \<Rightarrow> nat list \<Rightarrow> 'g \<Rightarrow> nat \<times> 'g" where
  "first_granted ask [] g = (0, g)"
| "first_granted ask (p # ps) g = (case ask p g of (ok, g) \<Rightarrow> if ok then (p, g) else first_granted ask ps g)"

definition ask_gateway ::
    "'g IGD \<Rightarrow> string \<Rightarrow> string \<Rightarrow> string \<Rightarrow> u16 \<Rightarrow> nat \<Rightarrow> 'g \<Rightarrow> bool \<times> 'g" where
  "ask_gateway igd url service ip private port g =
     (case igd_add igd url service (to_string port) (to_string (unat private)) ip
        ''RyuLDN Local Multiplayer'' ''TCP'' (to_string 60) g of (r, g) \<Rightarrow> (r = 0, g))"

definition local_ip :: "LocalAnswer \<Rightarrow> UpnpClient \<Rightarrow> string" where
  "local_ip a u = (case GetLocalIPAddress a of None \<Rightarrow> up_lanaddr u | Some ip \<Rightarrow> ip)"

lemma CreatePortMapping_ask:
  assumes "up_discovered u" and "up_hasIgd u"
  shows "CreatePortMapping igd a (PortMapping_new UpnpTCP private public PortLeaseLength ''RyuLDN Local Multiplayer'') (u, g) =
     (case ask_gateway igd (up_controlURL u) (up_servicetype u) (local_ip a u) private (unat public) g of
        (ok, g) \<Rightarrow> (ok, u, g))"
proof -
  have "unat PortLeaseLength = 60" by (simp add: PortLeaseLength_def)
  then show ?thesis
    using assms snprintf_u_lease [of PortLeaseLength]
    by (simp add: CreatePortMapping_def ask_gateway_def local_ip_def PortMapping_new_def proto_name_def Let_def
        split: prod.splits)
qed

lemma NatPunch_loop_first:
  assumes "up_discovered u" and "up_hasIgd u" and "up_lastHttpStatus u = 0" and "0 < p" and "p + n < 65536"
    and "srv_upnpClient s = u" and "unat (srv_publicPort s) = p" and "\<not> srv_hasPortMapping s"
    and "NatPunch_loop n igd a stack_ok thread_ok (s, g) = (port, s', g')"
  shows "first_granted (ask_gateway igd (up_controlURL u) (up_servicetype u) (local_ip a u) (srv_privatePort s))
       [p..<p + n] g = (unat port, g')
     \<and> srv_publicPort s' = port \<and> (srv_hasPortMapping s' \<longleftrightarrow> port \<noteq> 0)"
  using assms
proof (induction n arbitrary: p s g)
  case (Suc n)
  obtain ok h where ask: "ask_gateway igd (up_controlURL u) (up_servicetype u) (local_ip a u) (srv_privatePort s) p g = (ok, h)"
    by force
  have upt: "[p..<p + Suc n] = p # [Suc p..<Suc p + n]" by (simp add: upt_rec)
  show ?case
  proof (cases ok)
    case True
    have "srv_publicPort s \<noteq> 0" using Suc.prems(4,7) by auto
    with Suc.prems ask True show ?thesis
      unfolding upt by (auto simp: CreatePortMapping_ask Let_def split: if_splits)
  next
    case False
    have "unat (srv_publicPort s + 1) = Suc p"
      using Suc.prems(5,7) unat_add_lem [of "srv_publicPort s" 1] by (simp add: unsigned_1)
    with Suc.prems ask False Suc.IH [of "Suc p" "s\<lparr>srv_portMapping :=
          PortMapping_new UpnpTCP (srv_privatePort s) (srv_publicPort s) PortLeaseLength ''RyuLDN Local Multiplayer'',
          srv_upnpClient := u, srv_publicPort := srv_publicPort s + 1\<rparr>" h]
    show ?thesis unfolding upt by (simp add: CreatePortMapping_ask Let_def GetLastHttpStatus_def)
  qed
qed auto

text \<open>
  C30: opening a public port. When a gateway is found, the host asks it for the ports 39990 to 39999 in
  order, each for its private port and for a minute, and takes the first one granted: that port is returned
  and kept as the public port, and the mapping is recorded. When none is granted the answer is 0 and no
  mapping is recorded. The gateway is arbitrary, and may remember what it was asked.
\<close>

theorem NatPunch_takes_first_granted:
  assumes "DiscoverDevice devlist (srv_upnpClient s) = (True, u)" and "up_lastHttpStatus (srv_upnpClient s) = 0"
    and "\<not> srv_hasPortMapping s" and "NatPunch devlist igd a stack_ok thread_ok (s, g) = (port, s', g')"
  shows "first_granted (ask_gateway igd (up_controlURL u) (up_servicetype u) (local_ip a u) (srv_privatePort s))
       [39990..<40000] g = (unat port, g')
     \<and> srv_publicPort s' = port \<and> (srv_hasPortMapping s' \<longleftrightarrow> port \<noteq> 0)"
proof -
  have u: "up_discovered u" "up_hasIgd u" "up_lastHttpStatus u = 0"
    using assms(1,2) by (auto simp: DiscoverDevice_def Let_def split: option.splits if_splits)
  show ?thesis
    using NatPunch_loop_first [OF u, of 39990 PublicPortRange "s\<lparr>srv_upnpClient := u, srv_publicPort := PublicPortBase\<rparr>"
        igd a stack_ok thread_ok g port s' g'] assms(1,3,4)
    by (simp add: NatPunch_def PublicPortRange_def PublicPortBase_def)
qed

theorem NatPunch_takes_first_granted_witness:
  "\<exists>s'. NatPunch (Some \<lparr>ia_igd = 1, ia_controlURL = ''u'', ia_servicetype = ''s'', ia_lanaddr = ''l''\<rparr>) demo_igd
      \<lparr>la_socket = -1, la_connect = False, la_sockname = None\<rparr> True True (demo_new, ()) = (39991, s', ())
    \<and> srv_publicPort s' = 39991 \<and> srv_hasPortMapping s'"
proof -
  let ?d = "Some \<lparr>ia_igd = 1, ia_controlURL = ''u'', ia_servicetype = ''s'', ia_lanaddr = ''l''\<rparr>"
  let ?a = "\<lparr>la_socket = -1, la_connect = False, la_sockname = None\<rparr>"
  obtain u where u: "DiscoverDevice ?d (srv_upnpClient demo_new) = (True, u)" by (simp add: DiscoverDevice_def Let_def)
  obtain port s' where n: "NatPunch ?d demo_igd ?a True True (demo_new, ()) = (port, s', ())"
    by (cases "NatPunch ?d demo_igd ?a True True (demo_new, ())") auto
  have new: "up_lastHttpStatus (srv_upnpClient demo_new) = 0" "\<not> srv_hasPortMapping demo_new"
    by (simp_all add: demo_new_def P2pProxyServer_new_def UpnpClient_new_def)
  have g: "ask_gateway demo_igd url sv ip pr p () = (to_string p = to_string 39991, ())" for url sv ip pr p
    by (simp add: ask_gateway_def demo_igd_def)
  have "to_string 39990 \<noteq> to_string 39991"
    using digits_value_to_string [of 39990] digits_value_to_string [of 39991] by auto
  with NatPunch_takes_first_granted [OF u new n] have "unat port = 39991" "srv_publicPort s' = port"
      "srv_hasPortMapping s' \<longleftrightarrow> port \<noteq> 0"
    by (simp_all add: g)
  moreover from this(1) have "port = 39991" using word_unat_eq_iff [of port 39991] by simp
  ultimately show ?thesis using n by simp
qed

end
