(* ===== verification/Receive_Thread.thy ===== *)
theory Receive_Thread
  imports P2p_Common
begin

text \<open>
  What the receive threads of the two ends of a direct connection share. \<open>guarded_handler\<close> extends the
  contract \<open>packet_handler\<close> to callbacks that may fail: they are only asked to handle what the condition
  \<open>acc\<close> admits. \<open>receive_thread\<close> adds the passes of a thread, each of which reads what one \<open>recv\<close> returned;
  \<open>passes_packets\<close> says that a sequence of packets is handled in order, whatever the pieces.
\<close>

section \<open>Callbacks with a condition\<close>

text \<open>
  The locale \<open>packet_handler\<close> asks that every event is handled. \<open>guarded\<close> makes such callbacks of ones that
  handle an event only when \<open>acc\<close> holds: the state \<open>None\<close> says that it did not.
\<close>

definition guarded :: "(RyuEvent \<Rightarrow> 'w \<Rightarrow> bool) \<Rightarrow> 'w callbacks \<Rightarrow> 'w option callbacks" where
  "guarded acc cb ev = (\<lambda>(pool, ow).
     case ow of
       None \<Rightarrow> Inr (pool, None)
     | Some w \<Rightarrow> if acc ev w then bind_run (cb ev (pool, w)) (\<lambda>(pool, w). Inr (pool, Some w)) else Inr (pool, None))"

definition guarded_eff :: "(RyuEvent \<Rightarrow> 'w \<Rightarrow> bool) \<Rightarrow> (RyuEvent \<Rightarrow> 'w \<Rightarrow> 'w) \<Rightarrow> RyuEvent \<Rightarrow> 'w option \<Rightarrow> 'w option" where
  "guarded_eff acc eff ev ow = (case ow of None \<Rightarrow> None | Some w \<Rightarrow> if acc ev w then Some (eff ev w) else None)"

lemma guarded_eff_simps [simp]:
  "guarded_eff acc eff ev None = None"
  "guarded_eff acc eff ev (Some w) = (if acc ev w then Some (eff ev w) else None)"
  by (simp_all add: guarded_eff_def)

lemma guarded_eff_None [simp]: "fold (guarded_eff acc eff) evs None = None"
  by (induction evs) simp_all

lemma guarded_None: "preserves (\<lambda>ow. ow = None) (guarded acc cb)"
  by (auto simp: preserves_def guarded_def)

definition with_some :: "'w read_state \<Rightarrow> 'w option read_state" where
  "with_some = (\<lambda>(i, s, p, w). (i, s, p, Some w))"

lemma with_some [simp]: "with_some (i, s, p, w) = (i, s, p, Some w)"
  by (simp add: with_some_def)

lemma call_guarded:
  "call reg (guarded acc cb) h d (p, Some w) = Inr (p', Some w') \<Longrightarrow> call reg cb h d (p, w) = Inr (p', w')"
  by (auto simp: call_def guarded_def bind_run_Inr_iff split: option.splits if_splits)

lemma Read_phase1_guarded:
  "Read_phase1 data offset sz (i, s, p, Some w) = Inr fl' \<Longrightarrow>
   \<exists>fl. Read_phase1 data offset sz (i, s, p, w) = Inr fl \<and> fl' = map_flow with_some fl"
  by (auto simp: Read_phase1_def Let_def bind_run_Inr_iff split: if_splits)

lemma Read_phase2_guarded:
  assumes "Read_phase2 reg (guarded acc cb) sz (i, s, p, Some w) = Inr fl'" and "flow_world fl' = Some w'"
  shows "\<exists>fl. Read_phase2 reg cb sz (i, s, p, w) = Inr fl \<and> fl' = map_flow with_some fl"
proof (cases "HeaderSize \<le> rp_headerBytesReceived s \<and> \<not> rp_inPacket s")
  case True
  note c = call_guarded [of reg acc cb]
  show ?thesis
    using assms True
    by (auto simp: Read_phase2_def Let_def split_beta bind_run_Inr_iff dest!: c split: if_splits option.splits)
qed (use assms in \<open>auto simp: Read_phase2_def\<close>)

lemma Read_phase3_guarded:
  assumes "Read_phase3 reg (guarded acc cb) data offset sz (i, s, p, Some w) = Inr fl'" and "flow_world fl' = Some w'"
  shows "\<exists>fl. Read_phase3 reg cb data offset sz (i, s, p, w) = Inr fl \<and> fl' = map_flow with_some fl"
proof (cases "rp_inPacket s \<and> rp_currentBuffer s \<noteq> None")
  case True
  then obtain b where b: "rp_inPacket s" "rp_currentBuffer s = Some b" by auto
  let ?n = "min (sz - i) (sint (hdr_dataSize (get_LdnHeader (rp_headerBuffer s))) - int (rp_bufferEnd s))"
  let ?s = "s\<lparr>rp_bufferEnd := rp_bufferEnd s + nat ?n\<rparr>"
  obtain src buf where m: "memcpy_from data (i + offset) ?n = Inr src"
      "memcpy_to (bp_storage p ! b) (rp_bufferEnd s) src = Inr buf"
    using assms(1) b by (auto simp: Read_phase3_def Let_def bind_run_Inr_iff)
  show ?thesis
  proof (cases "sint (hdr_dataSize (get_LdnHeader (rp_headerBuffer s))) \<le> int (rp_bufferEnd ?s)")
    case True
    then obtain p1 ow where c: "call reg (guarded acc cb) (get_LdnHeader (rp_headerBuffer s)) (Some buf)
        (write_buffer b buf p, Some w) = Inr (p1, ow)"
      using assms(1) b m by (auto simp: Read_phase3_def Let_def bind_run_Inr_iff)
    with assms True b m have "ow = Some w'" by (simp add: Read_phase3_def Let_def) auto
    with c call_guarded have "call reg cb (get_LdnHeader (rp_headerBuffer s)) (Some buf) (write_buffer b buf p, w) = Inr (p1, w')"
      by fastforce
    with c \<open>ow = Some w'\<close> assms(1) True b m show ?thesis by (auto simp: Read_phase3_def Let_def)
  next
    case False
    with assms(1) b m show ?thesis by (auto simp: Read_phase3_def Let_def)
  qed
next
  case False
  with assms show ?thesis
    by (cases "rp_inPacket s"; cases "rp_currentBuffer s") (auto simp: Read_phase3_def)
qed

lemma Read_loop_None:
  "Read_loop fuel reg (guarded acc cb) data offset sz (i, s, p, None) \<noteq> Inr (s', p', Some w')"
  using Read_loop_preserves [OF guarded_None refl] by blast

lemma Read_body_guarded:
  assumes "Read_body reg (guarded acc cb) data offset sz (i, s, p, Some w) = Inr fl'" and "flow_world fl' = Some w'"
  shows "\<exists>fl. Read_body reg cb data offset sz (i, s, p, w) = Inr fl \<and> fl' = map_flow with_some fl"
proof -
  obtain f1' f2' where f: "Read_phase1 data offset sz (i, s, p, Some w) = Inr f1'"
      "then_phase (Inr f1') (Read_phase2 reg (guarded acc cb) sz) = Inr f2'"
      "then_phase (Inr f2') (Read_phase3 reg (guarded acc cb) data offset sz) = Inr fl'"
    using assms(1) by (auto simp: Read_body_def then_phase_def bind_run_Inr_iff)
  obtain f1 where f1: "Read_phase1 data offset sz (i, s, p, w) = Inr f1" "f1' = map_flow with_some f1"
    using Read_phase1_guarded [OF f(1)] by blast
  have "\<exists>u. flow_world f2' = Some u"
  proof (rule ccontr)
    assume "\<not> (\<exists>u. flow_world f2' = Some u)"
    then have "flow_world f2' = None" by simp
    then have "flow_world fl' = None"
      using f(3) by (cases f2') (auto simp: then_phase_def dest: Read_phase3_preserves [OF guarded_None refl])
    with assms(2) show False by simp
  qed
  then obtain u where u: "flow_world f2' = Some u" by blast
  then obtain f2 where f2: "then_phase (Inr f1) (Read_phase2 reg cb sz) = Inr f2" "f2' = map_flow with_some f2"
    using f(2) f1(2) Read_phase2_guarded [of reg acc cb] by (cases f1) (fastforce simp: then_phase_def)+
  obtain fl where "then_phase (Inr f2) (Read_phase3 reg cb data offset sz) = Inr fl" "fl' = map_flow with_some fl"
    using f(3) f2(2) assms(2) Read_phase3_guarded [of reg acc cb] by (cases f2) (fastforce simp: then_phase_def)+
  with f1(1) f2(1) show ?thesis by (auto simp: Read_body_def then_phase_def)
qed

lemma Read_loop_guarded:
  "Read_loop fuel reg (guarded acc cb) data offset sz (i, s, p, Some w) = Inr (s', p', Some w') \<Longrightarrow>
   Read_loop fuel reg cb data offset sz (i, s, p, w) = Inr (s', p', w')"
proof (induction fuel arbitrary: i s p w)
  case 0
  then show ?case by (auto split: if_splits)
next
  case (Suc fuel)
  show ?case
  proof (cases "i < sz")
    case False
    with Suc.prems show ?thesis by simp
  next
    case True
    with Suc.prems obtain fl' where fl: "Read_body reg (guarded acc cb) data offset sz (i, s, p, Some w) = Inr fl'"
      and r: "(case fl' of Return (i, res) \<Rightarrow> Inr res | Continue st \<Rightarrow> Read_loop fuel reg (guarded acc cb) data offset sz st
              | Fall st \<Rightarrow> Read_loop fuel reg (guarded acc cb) data offset sz st) = Inr (s', p', Some w')"
      by (auto simp: bind_run_Inr_iff)
    have "flow_world fl' \<noteq> None"
    proof
      assume "flow_world fl' = None"
      with r Read_loop_None [of fuel reg acc cb data offset sz] show False by (cases fl') (auto simp del: Read_loop.simps)
    qed
    then obtain u where "flow_world fl' = Some u" by blast
    from Read_body_guarded [OF fl this] obtain f where
      f: "Read_body reg cb data offset sz (i, s, p, w) = Inr f" "fl' = map_flow with_some f" by blast
    have "Read_loop (Suc fuel) reg cb data offset sz (i, s, p, w) =
        (case f of Return (i, res) \<Rightarrow> Inr res | Continue st \<Rightarrow> Read_loop fuel reg cb data offset sz st
           | Fall st \<Rightarrow> Read_loop fuel reg cb data offset sz st)"
      using f(1) True by (subst Read_loop.simps) (simp del: Read_loop.simps)
    then show ?thesis using f(2) r Suc.IH by (cases f) (auto simp: with_some_def simp del: Read_loop.simps)
  qed
qed

lemma Read_guarded:
  "Read reg (guarded acc cb) data offset sz (s, p, Some w) = Inr (s', p', Some w') \<Longrightarrow>
   Read reg cb data offset sz (s, p, w) = Inr (s', p', w')"
  unfolding Read_def by (rule Read_loop_guarded)

text \<open>The contract of such callbacks, and what \<open>Read\<close> does with them.\<close>

locale guarded_handler =
  fixes cb :: "'w callbacks" and eff :: "RyuEvent \<Rightarrow> 'w \<Rightarrow> 'w" and winv :: "'w \<Rightarrow> bool" and acc :: "RyuEvent \<Rightarrow> 'w \<Rightarrow> bool"
  assumes handles:
      "pool_ready p \<Longrightarrow> winv w \<Longrightarrow> event_ok ev \<Longrightarrow> acc ev w \<Longrightarrow>
       \<exists>p'. cb ev (p, w) = Inr (p', eff ev w) \<and> pool_kept p p'"
    and winv_eff: "winv w \<Longrightarrow> event_ok ev \<Longrightarrow> acc ev w \<Longrightarrow> winv (eff ev w)"
begin

definition hears :: "RyuEvent list \<Rightarrow> 'w \<Rightarrow> 'w option" where
  "hears evs w = fold (guarded_eff acc eff) evs (Some w)"

end

sublocale guarded_handler \<subseteq> packet_handler "guarded acc cb" "guarded_eff acc eff" "\<lambda>ow. \<forall>w. ow = Some w \<longrightarrow> winv w"
proof unfold_locales
  fix p ow ev
  assume p: "pool_inv p" "card (borrowed p) < MaxBuffers" and w: "\<forall>w. ow = Some w \<longrightarrow> winv w" "event_ok ev"
  have "pool_ready p" using p by (simp add: pool_ready_def)
  with p w show "\<exists>p'. guarded acc cb ev (p, ow) = Inr (p', guarded_eff acc eff ev ow) \<and> pool_inv p' \<and> borrowed p' = borrowed p
      \<and> same_lent (borrowed p) p p'"
    using handles [of p _ ev] by (cases ow) (fastforce simp: guarded_def pool_kept_def)+
next
  fix ow ev
  assume w: "\<forall>w. ow = Some w \<longrightarrow> winv w" "event_ok ev"
  then show "\<forall>w. guarded_eff acc eff ev ow = Some w \<longrightarrow> winv w"
    by (cases ow) (auto dest: winv_eff)
qed

section \<open>A receive thread\<close>

fun run_passes :: "(recv_answer \<Rightarrow> 's \<Rightarrow> 's run) \<Rightarrow> recv_answer list \<Rightarrow> 's \<Rightarrow> 's run" where
  "run_passes pass [] st = Inr st"
| "run_passes pass (a # as) st = bind_run (pass a st) (run_passes pass as)"

text \<open>
  A thread whose passes read a piece with the protocol object kept in the state; \<open>getp\<close> and \<open>putp\<close> are the
  access to it, and handling a packet does not depend on it.
\<close>

locale receive_thread = guarded_handler cb eff winv acc
  for cb :: "'w callbacks" and eff winv acc +
  fixes reg :: "PacketId \<Rightarrow> bool" and pass :: "recv_answer \<Rightarrow> BufferPool \<times> 'w \<Rightarrow> (BufferPool \<times> 'w) run"
    and getp :: "'w \<Rightarrow> RyuLdnProtocol" and putp :: "RyuLdnProtocol \<Rightarrow> 'w \<Rightarrow> 'w"
  assumes pass_Read: "winv w \<Longrightarrow> bs \<noteq> [] \<Longrightarrow> length bs \<le> 8192 \<Longrightarrow>
        Read reg cb bs 0 (int (length bs)) (getp w, pool, w) = Inr (q, pool', w') \<Longrightarrow> winv w' \<Longrightarrow>
        pass (Got bs) (pool, w) = Inr (pool', putp q w')"
    and get_put: "winv w \<Longrightarrow> getp (putp q w) = q" and put_get: "winv w \<Longrightarrow> putp (getp w) w = w"
    and put_put: "putp q (putp r w) = putp q w"
    and winv_put: "winv (putp q w) = winv w"
    and eff_put: "eff ev (putp q w) = putp q (eff ev w)" and acc_put: "acc ev (putp q w) = acc ev w"
begin

lemma hears_put: "hears evs (putp q w) = map_option (putp q) (hears evs w)"
proof (induction evs arbitrary: w)
  case (Cons ev evs)
  then show ?case by (simp add: hears_def acc_put eff_put)
qed (simp add: hears_def)

lemma hears_append: "hears (evs @ evs') w = Option.bind (hears evs w) (hears evs')"
  by (cases "fold (guarded_eff acc eff) evs (Some w)") (simp_all add: hears_def [abs_def])

lemma pass_frames:
  assumes "prot_inv (getp w) pool" and "stream_ok reg (pending (getp w) pool @ piece)" and "free_for 2 (getp w) pool"
    and "winv w" and "frames (pending (getp w) pool @ piece) = (fs, rest)" and "hears (frame_events reg fs) w = Some w'"
    and "piece \<noteq> []" and "length piece \<le> 8192"
  shows "\<exists>q pool'. pass (Got piece) (pool, w) = Inr (pool', putp q w') \<and> prot_inv q pool' \<and> pending q pool' = rest
    \<and> kept (getp w) pool q pool' \<and> winv w'"
proof -
  have "\<forall>u. Some w = Some u \<longrightarrow> winv u" using assms(4) by simp
  from Read_frames [OF assms(1), of 0 "int (length piece)" piece reg "Some w" fs rest] this
    assms(2,3,5) obtain q pool' where
    "Read reg (guarded acc cb) piece 0 (int (length piece)) (getp w, pool, Some w) = Inr (q, pool', Some w')"
    and r: "prot_inv q pool'" "pending q pool' = rest" "kept (getp w) pool q pool'" "winv w'"
    using assms(6) by (auto simp: hears_def)
  from pass_Read [OF assms(4,7,8) Read_guarded [OF this(1)] r(4)] r show ?thesis by blast
qed

lemma passes_frames:
  "winv w \<Longrightarrow> prot_inv (getp w) pool \<Longrightarrow> stream_ok reg (pending (getp w) pool @ concat pieces) \<Longrightarrow>
   free_for 2 (getp w) pool \<Longrightarrow> \<forall>piece \<in> set pieces. piece \<noteq> [] \<and> length piece \<le> 8192 \<Longrightarrow>
   frames (pending (getp w) pool @ concat pieces) = (fs, rest) \<Longrightarrow> hears (frame_events reg fs) w = Some w' \<Longrightarrow>
   \<exists>q pool'. run_passes pass (map Got pieces) (pool, w) = Inr (pool', putp q w') \<and> prot_inv q pool'
     \<and> pending q pool' = rest \<and> kept (getp w) pool q pool' \<and> winv (putp q w')"
proof (induction pieces arbitrary: w w' pool fs)
  case Nil
  then show ?case
    by (intro exI [of _ "getp w"] exI [of _ pool]) (auto simp: frames_pending frame_events_def hears_def put_get kept_refl)
next
  case (Cons piece pieces)
  let ?x = "pending (getp w) pool"
  obtain fs1 r1 where f1: "frames (?x @ piece) = (fs1, r1)" by (cases "frames (?x @ piece)")
  have app: "fs = fs1 @ fst (frames (r1 @ concat pieces))" "rest = snd (frames (r1 @ concat pieces))"
    using frames_append [of "?x @ piece" "concat pieces"] f1 Cons.prems(6) by simp_all
  have ok: "stream_ok reg (?x @ piece)" "stream_ok reg (r1 @ concat pieces)"
    using stream_ok_append [of reg "?x @ piece" "concat pieces"] Cons.prems(3) f1 by simp_all
  have "frame_events reg fs = frame_events reg fs1 @ frame_events reg (fst (frames (r1 @ concat pieces)))"
    by (simp add: app(1) frame_events_def)
  then obtain w1 where w1: "hears (frame_events reg fs1) w = Some w1"
      "hears (frame_events reg (fst (frames (r1 @ concat pieces)))) w1 = Some w'"
    using Cons.prems(7) hears_append by (auto simp: bind_eq_Some_conv)
  obtain q1 pool1 where r: "pass (Got piece) (pool, w) = Inr (pool1, putp q1 w1)" "prot_inv q1 pool1" "pending q1 pool1 = r1"
      "kept (getp w) pool q1 pool1" "winv w1"
    using pass_frames [OF Cons.prems(2) ok(1) Cons.prems(4,1) f1 w1(1)] Cons.prems(5) by auto
  have "free_for 2 q1 pool1" using Cons.prems(4) r(4) by (simp add: free_for_def kept_def)
  then obtain q pool' where "run_passes pass (map Got pieces) (pool1, putp q1 w1) = Inr (pool', putp q (putp q1 w'))"
      "prot_inv q pool'" "pending q pool' = rest" "kept q1 pool1 q pool'" "winv (putp q (putp q1 w'))"
    using Cons.IH [of "putp q1 w1" pool1 "fst (frames (r1 @ concat pieces))" "putp q1 w'"] r(2,3,5) ok(2) Cons.prems(5) w1(2) app(2)
    by (auto simp: get_put winv_put hears_put)
  with r(1) kept_trans [OF r(4)] show ?case by (auto simp: put_put)
qed

end

definition frames_of :: "(PacketId \<times> bytes) list \<Rightarrow> frame list" where
  "frames_of ps = map (\<lambda>(t, p). (packet_header t (length p), p)) ps"

definition bytes_of :: "(PacketId \<times> bytes) list \<Rightarrow> bytes" where
  "bytes_of ps = concat (map (\<lambda>(t, p). packet t p) ps)"

text \<open>Packets a protocol object can take, and a cut of their bytes into pieces.\<close>

definition packets_ok :: "(PacketId \<Rightarrow> bool) \<Rightarrow> (PacketId \<times> bytes) list \<Rightarrow> bool" where
  "packets_ok reg ps \<longleftrightarrow> (\<forall>(t, p) \<in> set ps. length p < MaxPacketSize - HeaderSize
     \<and> \<not> isl (frame_event reg (packet_header t (length p), p)))"

definition pieces_of :: "bytes \<Rightarrow> bytes list \<Rightarrow> bool" where
  "pieces_of bs pieces \<longleftrightarrow> concat pieces = bs \<and> (\<forall>piece \<in> set pieces. piece \<noteq> [] \<and> length piece \<le> 8192)"

context receive_thread
begin

lemma passes_packets:
  assumes "winv w" and "getp w = RyuLdnProtocol_new" and "pool_inv pool" and "card (borrowed pool) + 2 \<le> MaxBuffers"
    and "packets_ok reg ps" and "pieces_of (bytes_of ps) pieces" and "hears (frame_events reg (frames_of ps)) w = Some w'"
  shows "\<exists>q pool'. run_passes pass (map Got pieces) (pool, w) = Inr (pool', putp q w')
    \<and> pool_inv pool' \<and> borrowed pool' = borrowed pool \<and> rp_currentBuffer q = None"
proof -
  have "\<forall>(t, p) \<in> set ps. length p < 4294967296"
    using assms(5) by (fastforce simp: packets_ok_def MaxPacketSize_def HeaderSize_def)
  then have fr: "frames (concat pieces) = (frames_of ps, [])"
    using assms(6) by (simp add: frames_packets frames_of_def pieces_of_def bytes_of_def)
  have ok: "stream_ok reg (concat pieces)"
    using stream_ok_packets [of ps reg] assms(5,6) by (simp add: packets_ok_def pieces_of_def bytes_of_def)
  have own: "own RyuLdnProtocol_new = {}" by (simp add: own_def RyuLdnProtocol_new_def)
  have "prot_inv (getp w) pool" using prot_inv_new [OF assms(3)] assms(2) by simp
  from passes_frames [OF assms(1) this, of pieces "frames_of ps" "[]" w'] fr ok own assms(2,4,6,7) obtain q pool' where
    r: "run_passes pass (map Got pieces) (pool, w) = Inr (pool', putp q w')" "prot_inv q pool'" "pending q pool' = []"
      "kept RyuLdnProtocol_new pool q pool'"
    by (auto simp: free_for_def pieces_of_def)
  have b: "rp_currentBuffer q = None"
    using r(2,3) by (auto simp: prot_inv_def pending_def HeaderSize_def split: option.splits)
  then have "own q = {}" by (simp add: own_def)
  with r b own show ?thesis by (auto simp: prot_inv_def kept_def)
qed

end

end
