(* ===== verification/P2p_Link.thy ===== *)
theory P2p_Link
  imports P2p_Client P2p_Properties Receive_Thread
begin

text \<open>
  The two ends of a direct connection together: what a guest sends travels, in whatever pieces, to its
  session at the host, and what the host sends travels to the guests. \<open>host_hears\<close> says what one packet
  makes of the host, \<open>guest_hears\<close> what it makes of a guest.
\<close>

section \<open>The guest\<close>

definition guest_hears :: "RyuEvent \<Rightarrow> P2pProxyClient \<Rightarrow> P2pProxyClient" where
  "guest_hears ev c = (case ev of onProxyConfig h config \<Rightarrow> pc_HandleProxyConfig config c | _ \<Rightarrow> c)"

definition guest_open :: "P2pProxyClient \<Rightarrow> bool" where
  "guest_open c \<longleftrightarrow> pc_thread c = Receiving \<and> pc_running c"

lemma pc_ReceiveLoop_passes: "pc_ReceiveLoop as st = run_passes pc_ReceiveLoop_pass as st"
proof (induction "as" arbitrary: st)
  case (Cons a "as")
  then show ?case by (cases "pc_ReceiveLoop_pass a st") simp_all
qed simp

interpretation guest: receive_thread pc_callbacks guest_hears guest_open "\<lambda>_ _. True" pc_registers pc_ReceiveLoop_pass
    pc_protocol "\<lambda>q c. c\<lparr>pc_protocol := q\<rparr>"
proof unfold_locales
  fix p c ev assume "pool_ready p"
  then show "\<exists>p'. pc_callbacks ev (p, c) = Inr (p', guest_hears ev c) \<and> pool_kept p p'"
    by (cases ev) (simp_all add: pc_callbacks_def guest_hears_def pool_kept_refl)
qed (auto simp: guest_hears_def guest_open_def pc_HandleProxyConfig_def pc_ReceiveLoop_pass_def pc_ReceiveBufferSize_def
    split: RyuEvent.split)

section \<open>The host\<close>

definition waiting_token :: "u8 \<times> u32 \<Rightarrow> ExternalProxyConfig \<Rightarrow> P2pProxyServer \<Rightarrow> nat option" where
  "waiting_token addr config s =
     find (\<lambda>k. token_matches addr config (srv_waitingTokens s ! k)) [0..<length (srv_waitingTokens s)]"

text \<open>A message to be relayed: its addresses, and the packet made of it once they are filled in.\<close>

fun message_of :: "RyuEvent \<Rightarrow> (ProxyInfo \<times> PacketId \<times> (ProxyInfo \<Rightarrow> bytes)) option" where
  "message_of (onProxyDisconnect h m) =
     Some (pdm_info m, PacketId_ProxyDisconnect, \<lambda>info. put_ProxyDisconnectMessageFull (m\<lparr>pdm_info := info\<rparr>))"
| "message_of (onProxyData h m (data, n)) =
     Some (pdh_info m, PacketId_ProxyData, \<lambda>info. put_ProxyDataHeaderFull (m\<lparr>pdh_info := info\<rparr>) @ take (unat n) data)"
| "message_of (onProxyConnectReply h m) =
     Some (pcp_info m, PacketId_ProxyConnectReply, \<lambda>info. put_ProxyConnectResponseFull (m\<lparr>pcp_info := info\<rparr>))"
| "message_of (onProxyConnect h m) =
     Some (pcr_info m, PacketId_ProxyConnect, \<lambda>info. put_ProxyConnectRequestFull (m\<lparr>pcr_info := info\<rparr>))"
| "message_of ev = None"

definition relayed :: "P2pProxySession \<Rightarrow> ProxyInfo \<Rightarrow> PacketId \<Rightarrow> (ProxyInfo \<Rightarrow> bytes) \<Rightarrow> P2pProxyServer \<Rightarrow> (int \<times> bytes) list" where
  "relayed x info t payload s =
     (if may_send x info then concat (map (delivery s (packet t (payload (sent_as x info)))) (targets info s)) else [])"

fun host_hears :: "sid \<Rightarrow> RyuEvent \<Rightarrow> LdnMasterProxyClient \<times> P2pProxyServer \<Rightarrow> LdnMasterProxyClient \<times> P2pProxyServer" where
  "host_hears i ev (c, s) =
     (case srv_heap s i of
        None \<Rightarrow> (c, s)
      | Some x \<Rightarrow>
          (case message_of ev of
             Some (info, t, payload) \<Rightarrow> (c, s\<lparr>srv_wire := srv_wire s @ relayed x info t payload s\<rparr>)
           | None \<Rightarrow>
               (case ev of
                  onExternalProxy h config \<Rightarrow>
                    (case Option.bind (srv_peer s (ses_socket x)) (\<lambda>addr. waiting_token addr config s) of
                       None \<Rightarrow> (c, s) | Some k \<Rightarrow> (c, seated k i x s))
                | _ \<Rightarrow> (c, s))))"

definition host_acc :: "sid \<Rightarrow> RyuEvent \<Rightarrow> LdnMasterProxyClient \<times> P2pProxyServer \<Rightarrow> bool" where
  "host_acc i ev = (\<lambda>(c, s).
     \<forall>h config. ev = onExternalProxy h config \<longrightarrow>
       (\<exists>x addr k. srv_heap s i = Some x \<and> 0 \<le> ses_socket x \<and> srv_peer s (ses_socket x) = Some addr
          \<and> waiting_token addr config s = Some k))"

definition host_open :: "sid \<Rightarrow> bool \<times> thread \<times> bool \<times> thread \<Rightarrow> LdnMasterProxyClient \<times> P2pProxyServer \<Rightarrow> bool" where
  "host_open i T = (\<lambda>(c, s).
     serving i T s \<and> srv_sends s = [] \<and> (\<exists>x. srv_heap s i = Some x \<and> ses_thread x = Receiving \<and> ses_running x))"

lemma relay_open:
  assumes "srv_inv s" and "srv_heap s i = Some x" and "pool_ready pool" and "srv_sends s = []"
    and "\<And>info buf. encode info buf = encoded t (payload info) buf" and "\<And>info. HeaderSize + length (payload info) \<le> BufferSize"
  shows "\<exists>pool'. RouteMessage i info (\<lambda>info. send_session (encode info)) (pool, c, s) =
       Inr (pool', c, s\<lparr>srv_wire := srv_wire s @ relayed x info t payload s\<rparr>) \<and> pool_kept pool pool'"
proof (cases "may_send x info")
  case True
  with for_players_open [OF assms(6,5,3,4) targets_live [OF assms(1)]] assms(2) show ?thesis
    by (simp add: RouteMessage_targets relayed_def)
next
  case False
  with assms(2,3) show ?thesis by (simp add: RouteMessage_targets relayed_def pool_kept_refl)
qed

lemma lengths_relayed:
  "length (put_ProxyDisconnectMessageFull m1) = 20" "length (put_ProxyDataHeaderFull m2) = 20"
  "length (put_ProxyConnectResponseFull m3) = 16" "length (put_ProxyConnectRequestFull m4) = 16"
  by (simp_all add: put_ProxyDataHeaderFull_length ProxyDisconnectMessageFull_wire.length_put_wf
      ProxyConnectResponseFull_wire.length_put_wf ProxyConnectRequestFull_wire.length_put_wf
      wf_ProxyDisconnectMessageFull_def wf_ProxyConnectResponseFull_def wf_ProxyConnectRequestFull_def wf_ProxyInfo_def)

lemma message_fits:
  "event_ok ev \<Longrightarrow> message_of ev = Some (info, t, payload) \<Longrightarrow> HeaderSize + length (payload info') < MaxPacketSize"
  by (cases ev rule: message_of.cases) (auto simp: lengths_relayed event_ok_def MaxPacketSize_def HeaderSize_def)

lemma ses_callbacks_relay:
  assumes "srv_inv s" and "srv_heap s i = Some x" and "\<not> self_waiting i s" and "pool_ready pool" and "srv_sends s = []" and "event_ok ev"
    and "message_of ev = Some (info, t, payload)"
  shows "\<exists>pool'. ses_callbacks i ev (pool, c, s) =
       Inr (pool', c, s\<lparr>srv_wire := srv_wire s @ relayed x info t payload s\<rparr>) \<and> pool_kept pool pool'"
proof -
  have f: "HeaderSize + length (payload info') \<le> BufferSize" for info'
    using message_fits [OF assms(6,7), of info'] by (simp add: BufferSize_def)
  note r = relay_open [OF assms(1,2,4,5) _ f, where c = c and info = info and t = t]
  note q = r [of "\<lambda>info. Encode_struct t (payload info)", OF Encode_struct_packet]
  show ?thesis
  proof (cases ev rule: message_of.cases)
    case (1 h m)
    with assms(3,7) q show ?thesis by (auto simp: ses_callbacks_def srv_HandleProxyDisconnect_def)
  next
    case (2 h m data n)
    have n: "length data = unat n" using 2 assms(6) by (simp add: event_ok_def)
    have m: "info = pdh_info m" "t = PacketId_ProxyData"
        "payload = (\<lambda>info. put_ProxyDataHeaderFull (m\<lparr>pdh_info := info\<rparr>) @ take (unat n) data)"
      using 2 assms(7) by auto
    have "(if length data < unat n then Inl BufferOverrun
        else Encode_extra PacketId_ProxyData (put_ProxyDataHeaderFull (m\<lparr>pdh_info := info\<rparr>)) (take (unat n) data) buf) =
        encoded t (payload info) buf" for info buf
      by (simp add: Encode_extra_packet n m)
    from r [OF this] assms(3) show ?thesis by (simp add: 2 ses_callbacks_def srv_HandleProxyData_def m)
  next
    case (3 h m)
    with assms(3,7) q show ?thesis by (auto simp: ses_callbacks_def srv_HandleProxyConnectReply_def)
  next
    case (4 h m)
    with assms(3,7) q show ?thesis by (auto simp: ses_callbacks_def srv_HandleProxyConnect_def)
  qed (use assms(7) in simp_all)
qed

lemma ses_callbacks_auth:
  assumes "host_acc i (onExternalProxy h config) (c, s)" and "pool_ready pool" and "srv_sends s = []"
    and "\<not> self_waiting i s"
  shows "\<exists>pool'. ses_callbacks i (onExternalProxy h config) (pool, c, s) =
       Inr (pool', host_hears i (onExternalProxy h config) (c, s)) \<and> pool_kept pool pool'"
proof -
  obtain x addr k where x: "srv_heap s i = Some x" "0 \<le> ses_socket x" "srv_peer s (ses_socket x) = Some addr"
      "waiting_token addr config s = Some k" using assms(1) by (auto simp: host_acc_def)
  obtain pool' where "register_user k i (pool, c, s) = Inr (pool', c, seated k i x s)" "pool_kept pool pool'"
    using register_user_seated [OF x(1) assms(2,3) x(2), of k c] by blast
  moreover have "s\<lparr>srv_waits := srv_waits s\<rparr> = s" by simp
  ultimately show ?thesis
    using x assms(4)
    by (auto simp: ses_callbacks_def HandleAuthentication_def TryRegisterUser_def session_Some waiting_token_def)
qed

lemma ses_callbacks_hears:
  assumes "pool_ready pool" and "host_open i T (c, s)" and "event_ok ev" and "host_acc i ev (c, s)"
  shows "\<exists>pool'. ses_callbacks i ev (pool, c, s) = Inr (pool', host_hears i ev (c, s)) \<and> pool_kept pool pool'"
proof -
  obtain x where x: "srv_inv s" "srv_sends s = []" "srv_heap s i = Some x" and "ses_thread x = Receiving"
    using assms(2) by (auto simp: host_open_def serving_def)
  then have w: "\<not> self_waiting i s" by (simp add: self_waiting_def)
  show ?thesis
  proof (cases "message_of ev")
    case (Some m)
    obtain info t payload where m: "message_of ev = Some (info, t, payload)" using Some by (cases m) auto
    from ses_callbacks_relay [OF x(1,3) w assms(1) x(2) assms(3) m] m x(3) show ?thesis by simp
  next
    case None
    then show ?thesis
      using ses_callbacks_auth [OF _ assms(1) x(2) w] assms(1,4) pool_kept_refl x(3) w
      by (cases ev rule: message_of.cases) (simp_all add: ses_callbacks_def del: host_hears.simps, simp_all)
  qed
qed

text \<open>Where a session keeps its protocol object.\<close>

definition host_put :: "sid \<Rightarrow> RyuLdnProtocol \<Rightarrow> P2pProxyServer \<Rightarrow> P2pProxyServer" where
  "host_put i q s = s\<lparr>srv_heap := (srv_heap s)(i := map_option (\<lambda>x. x\<lparr>ses_protocol := q\<rparr>) (srv_heap s i))\<rparr>"

lemma host_put_fields [simp]:
  "srv_players (host_put i q s) = srv_players s" "srv_wire (host_put i q s) = srv_wire s"
  "srv_sends (host_put i q s) = srv_sends s" "srv_peer (host_put i q s) = srv_peer s"
  "srv_waitingTokens (host_put i q s) = srv_waitingTokens s" "targets info (host_put i q s) = targets info s"
  "srv_broadcastAddress (host_put i q s) = srv_broadcastAddress s" "threads (host_put i q s) = threads s"
  "waiting_token addr config (host_put i q s) = waiting_token addr config s"
  by (simp_all add: host_put_def targets_def threads_def waiting_token_def)

lemma host_put_put [simp]: "host_put i q (host_put i r s) = host_put i q s"
  by (cases "srv_heap s i") (simp_all add: host_put_def)

lemma delivery_host_put [simp]: "delivery (host_put i q s) b = delivery s b"
  by (auto simp: delivery_def host_put_def fun_eq_iff split: option.split)

lemma relayed_host_put [simp]: "relayed (x\<lparr>ses_protocol := q\<rparr>) info t payload (host_put i q s) = relayed x info t payload s"
  by (simp add: relayed_def may_send_def sent_as_def)

lemma seated_host_put:
  assumes "srv_heap s i = Some x"
  shows "seated k i (x\<lparr>ses_protocol := q\<rparr>) (host_put i q s) = host_put i q (seated k i x s)"
  using assms by (cases s; cases x) (simp add: seated_def Let_def host_put_def set_session_def Configure_def)

lemma host_hears_put:
  "host_hears i ev (c, host_put i q s) = (fst (host_hears i ev (c, s)), host_put i q (snd (host_hears i ev (c, s))))"
proof (cases "srv_heap s i")
  case None
  then have "srv_heap (host_put i q s) i = None" by (simp add: host_put_def)
  with None show ?thesis by simp
next
  case (Some x)
  then have p: "srv_heap (host_put i q s) i = Some (x\<lparr>ses_protocol := q\<rparr>)" by (simp add: host_put_def)
  have w: "(host_put i q s)\<lparr>srv_wire := w\<rparr> = host_put i q (s\<lparr>srv_wire := w\<rparr>)" for w by (simp add: host_put_def)
  show ?thesis
    using Some p seated_host_put [OF Some]
    by (auto simp: w split: option.split RyuEvent.split)
qed

lemma srv_inv_host_put [simp]: "srv_inv (host_put i q s) = srv_inv s"
proof (cases "srv_heap s i")
  case None
  then have "host_put i q s = s" by (simp add: host_put_def fun_upd_idem)
  then show ?thesis by simp
next
  case (Some x)
  then have "dom (srv_heap (host_put i q s)) = dom (srv_heap s)" by (auto simp: host_put_def)
  with Some show ?thesis by (auto simp: srv_inv_def ses_ok_def host_put_def split: if_splits)
qed

lemma host_hears_session:
  assumes "srv_heap s i = Some x" and "host_hears i ev (c, s) = (c', s')"
  shows "c' = c \<and> srv_sends s' = srv_sends s
    \<and> (\<exists>ip. srv_heap s' = (srv_heap s)(i \<mapsto> x\<lparr>ses_virtualIpAddress := ip\<rparr>))"
proof -
  have "(srv_heap s)(i \<mapsto> x\<lparr>ses_virtualIpAddress := ses_virtualIpAddress x\<rparr>) = srv_heap s"
    using assms(1) by (simp add: fun_upd_idem)
  then have "\<exists>ip. srv_heap s = (srv_heap s)(i \<mapsto> x\<lparr>ses_virtualIpAddress := ip\<rparr>)" by metis
  moreover have "srv_sends (seated k i x s) = srv_sends s"
      "\<exists>ip. srv_heap (seated k i x s) = (srv_heap s)(i \<mapsto> x\<lparr>ses_virtualIpAddress := ip\<rparr>)" for k
    by (auto simp: seated_fields)
  ultimately show ?thesis
    using assms by (auto split: option.splits RyuEvent.splits)
qed

lemma host_hears_open:
  assumes "host_open i T (c, s)" and "event_ok ev" and "host_acc i ev (c, s)"
  shows "host_open i T (host_hears i ev (c, s))"
proof -
  obtain c' s' where h: "host_hears i ev (c, s) = (c', s')" by (cases "host_hears i ev (c, s)")
  obtain x where x: "serving i T s" "srv_sends s = []" "srv_heap s i = Some x" "ses_thread x = Receiving" "ses_running x"
    using assms(1) by (auto simp: host_open_def)
  from ses_callbacks_hears [OF zero_pool_ready assms] h obtain pool' where
    "ses_callbacks i ev (zero_pool, c, s) = Inr (pool', c', s')" by auto
  then have "serving i T s'" using ses_callbacks_serving [of i T] x(1) by (auto simp: preserves_def)
  with host_hears_session [OF x(3) h] x h show ?thesis by (auto simp: host_open_def)
qed

definition ses_protocol_of :: "sid \<Rightarrow> P2pProxyServer \<Rightarrow> RyuLdnProtocol" where
  "ses_protocol_of i s = (case srv_heap s i of None \<Rightarrow> RyuLdnProtocol_new | Some x \<Rightarrow> ses_protocol x)"

interpretation host: receive_thread "ses_callbacks i" "host_hears i" "host_open i T" "host_acc i" ses_registers
    "ses_ReceiveLoop_pass i" "\<lambda>(c, s). ses_protocol_of i s" "\<lambda>q (c, s). (c, host_put i q s)"
  for i T
proof unfold_locales
  fix p w ev assume "pool_ready p" "host_open i T w" "event_ok ev" "host_acc i ev w"
  then show "\<exists>p'. ses_callbacks i ev (p, w) = Inr (p', host_hears i ev w) \<and> pool_kept p p'"
    using ses_callbacks_hears by (cases w) blast
next
  fix w ev assume "host_open i T w" "event_ok ev" "host_acc i ev w"
  then show "host_open i T (host_hears i ev w)" using host_hears_open by (cases w) blast
next
  fix w bs pool q pool' w'
  assume w: "host_open i T w" "bs \<noteq> []" "length bs \<le> 8192" "host_open i T w'"
    and r: "Read ses_registers (ses_callbacks i) bs 0 (int (length bs)) (case w of (c, s) \<Rightarrow> ses_protocol_of i s, pool, w) = Inr (q, pool', w')"
  obtain c s c' s' where e: "w = (c, s)" "w' = (c', s')" by (cases w; cases w')
  obtain x where x: "srv_heap s i = Some x" "ses_thread x = Receiving" "ses_running x"
    using w(1) e by (auto simp: host_open_def)
  obtain x' where "srv_heap s' i = Some x'" using w(4) e by (auto simp: host_open_def)
  then show "ses_ReceiveLoop_pass i (Got bs) (pool, w) = Inr (pool', case w' of (c, s) \<Rightarrow> (c, host_put i q s))"
    using r x w(2,3) e
    by (simp add: ses_ReceiveLoop_pass_def session_Some ses_protocol_of_def Let_def) (simp add: host_put_def set_session_def)
next
  fix q w show "host_open i T (case w of (c, s) \<Rightarrow> (c, host_put i q s)) = host_open i T w"
    by (cases w) (auto simp: host_open_def serving_def host_put_def [of i q, THEN arg_cong [of _ _ srv_heap]])
next
  fix ev q w show "host_hears i ev (case w of (c, s) \<Rightarrow> (c, host_put i q s)) = (case host_hears i ev w of (c, s) \<Rightarrow> (c, host_put i q s))"
    by (cases w) (simp add: host_hears_put split_beta del: host_hears.simps)
next
  fix ev q w show "host_acc i ev (case w of (c, s) \<Rightarrow> (c, host_put i q s)) = host_acc i ev w"
    by (cases w) (auto simp: host_acc_def host_put_def [of i q, THEN arg_cong [of _ _ srv_heap]])
next
  fix q r w show "(case case w of (c, s) \<Rightarrow> (c, host_put i r s) of (c, s) \<Rightarrow> (c, host_put i q s)) = (case w of (c, s) \<Rightarrow> (c, host_put i q s))"
    by (cases w) simp
qed (auto simp: host_open_def ses_protocol_of_def host_put_def fun_upd_idem)

section \<open>What a stream of messages makes of the host\<close>

definition relay_type :: "PacketId \<Rightarrow> bool" where
  "relay_type t \<longleftrightarrow> t \<in> {PacketId_ProxyDisconnect, PacketId_ProxyData, PacketId_ProxyConnectReply, PacketId_ProxyConnect}"

text \<open>What is sent on one descriptor.\<close>

definition sent_on :: "int \<Rightarrow> (int \<times> bytes) list \<Rightarrow> bytes" where
  "sent_on fd w = concat (map snd (filter (\<lambda>(f, _). f = fd) w))"

lemma sent_on_simps [simp]:
  "sent_on fd [] = []" "sent_on fd ((f, b) # w) = (if f = fd then b @ sent_on fd w else sent_on fd w)"
  by (simp_all add: sent_on_def)

definition relay_wire :: "(int \<times> bytes) list \<Rightarrow> bool" where
  "relay_wire w \<longleftrightarrow> (\<forall>(fd, b) \<in> set w. \<exists>t p. b = packet t p \<and> relay_type t \<and> length p < MaxPacketSize - HeaderSize)"

lemma relay_wire_append [simp]: "relay_wire (w @ w') \<longleftrightarrow> relay_wire w \<and> relay_wire w'"
  by (simp add: relay_wire_def ball_Un)

lemma relay_wire_packets:
  "relay_wire w \<Longrightarrow> \<exists>ps. sent_on fd w = bytes_of ps \<and> (\<forall>(t, p) \<in> set ps. relay_type t \<and> length p < MaxPacketSize - HeaderSize)"
proof (induction w)
  case Nil
  then show ?case by (intro exI [of _ "[]"]) (simp add: bytes_of_def)
next
  case (Cons a w)
  obtain f t p where a: "a = (f, packet t p)" "relay_type t" "length p < MaxPacketSize - HeaderSize"
    using Cons.prems by (auto simp: relay_wire_def)
  have "relay_wire w" using Cons.prems by (auto simp: relay_wire_def)
  with Cons.IH obtain ps where ps: "sent_on fd w = bytes_of ps"
      "\<forall>(t, p) \<in> set ps. relay_type t \<and> length p < MaxPacketSize - HeaderSize" by blast
  show ?case
  proof (cases "f = fd")
    case True
    with a ps show ?thesis by (intro exI [of _ "(t, p) # ps"]) (auto simp: bytes_of_def)
  next
    case False
    with a ps show ?thesis by (intro exI [of _ ps]) auto
  qed
qed

lemma message_relay_type: "message_of ev = Some (info, t, payload) \<Longrightarrow> relay_type t"
  by (cases ev rule: message_of.cases) (auto simp: relay_type_def)

lemma relayed_wire:
  assumes "event_ok ev" and "message_of ev = Some (info, t, payload)"
  shows "relay_wire (relayed x info t payload s)"
  using message_fits [OF assms] message_relay_type [OF assms(2)]
  by (fastforce simp: relay_wire_def relayed_def delivery_def MaxPacketSize_def HeaderSize_def split: option.splits if_splits)

lemma hears_relays:
  "\<forall>ev \<in> set evs. event_ok ev \<and> message_of ev \<noteq> None \<Longrightarrow> srv_heap s i = Some x \<Longrightarrow>
   \<exists>w. host.hears i evs (c, s) = Some (c, s\<lparr>srv_wire := srv_wire s @ w\<rparr>) \<and> relay_wire w"
proof (induction evs arbitrary: s)
  case Nil
  then show ?case by (intro exI [of _ "[]"]) (simp add: host.hears_def relay_wire_def)
next
  case (Cons ev evs)
  obtain info t payload where m: "message_of ev = Some (info, t, payload)" using Cons.prems(1) by fastforce
  let ?w = "relayed x info t payload s" and ?s = "s\<lparr>srv_wire := srv_wire s @ relayed x info t payload s\<rparr>"
  have w: "relay_wire ?w" using relayed_wire [OF _ m] Cons.prems(1) by simp
  have "srv_heap ?s i = Some x" using Cons.prems(2) by simp
  with Cons.IH [of ?s] Cons.prems(1) obtain v where
    v: "host.hears i evs (c, ?s) = Some (c, ?s\<lparr>srv_wire := srv_wire ?s @ v\<rparr>)" "relay_wire v" by auto
  have "host_acc i ev (c, s)" using m by (auto simp: host_acc_def)
  with m v(1) Cons.prems(2) have "host.hears i (ev # evs) (c, s) = Some (c, ?s\<lparr>srv_wire := srv_wire ?s @ v\<rparr>)"
    by (simp add: host.hears_def)
  with w v(2) show ?case by (intro exI [of _ "?w @ v"]) simp
qed

text \<open>The events of packets.\<close>

lemma frame_events_of:
  "frame_events reg (frames_of ((t, p) # ps)) =
     (case frame_event reg (packet_header t (length p), p) of Inr (Some e) \<Rightarrow> [e] | _ \<Rightarrow> []) @ frame_events reg (frames_of ps)"
  by (simp add: frame_events_def frames_of_def)

lemma hdr_type_packet [simp]: "PacketId_of (hdr_type (packet_header t n)) = Some t"
  by (simp add: packet_header_def PacketId_of_code del: PacketId_code.simps)

lemma relay_event:
  assumes "relay_type t" and "length p < MaxPacketSize - HeaderSize"
    and "frame_event ses_registers (packet_header t (length p), p) = Inr (Some ev)"
  shows "event_ok ev \<and> message_of ev \<noteq> None"
proof -
  have h: "Handle t (packet_header t (length p)) (if p = [] then None else Some p) = Inr ev"
    using assms(3) by (auto simp: frame_event_def DecodeAndHandle_def bind_run_Inr_iff split: if_splits)
  have "length p < 4294967296" using assms(2) by (simp add: MaxPacketSize_def HeaderSize_def)
  then have "event_ok ev"
    by (intro Handle_event_ok [OF h]) (simp_all add: hdr_len_packet valid_packet_header assms(2))
  moreover have "message_of ev \<noteq> None"
    using h assms(1) by (auto simp: relay_type_def HandleStruct_def HandleExtra_def bind_run_Inr_iff Let_def span_at_def)
  ultimately show ?thesis by simp
qed

lemma relay_events:
  "packets_ok ses_registers ps \<Longrightarrow> \<forall>(t, p) \<in> set ps. relay_type t \<Longrightarrow>
   \<forall>ev \<in> set (frame_events ses_registers (frames_of ps)). event_ok ev \<and> message_of ev \<noteq> None"
proof (induction ps)
  case (Cons a ps)
  obtain t p where a: "a = (t, p)" by force
  have "packets_ok ses_registers ps" using Cons.prems(1) by (auto simp: packets_ok_def)
  with Cons have "\<forall>ev \<in> set (frame_events ses_registers (frames_of ps)). event_ok ev \<and> message_of ev \<noteq> None" by simp
  with relay_event [of t p] Cons.prems a show ?case
    by (auto simp: frame_events_of packets_ok_def split: sum.splits option.splits)
qed (simp add: frame_events_def frames_of_def)

lemma auth_event:
  assumes "wf_ExternalProxyConfig config"
  defines "p \<equiv> put_ExternalProxyConfig config"
  shows "length p = 38"
    and "frame_event ses_registers (packet_header PacketId_ExternalProxy (length p), p) =
      Inr (Some (onExternalProxy (packet_header PacketId_ExternalProxy (length p)) config))"
proof -
  show l: "length p = 38" unfolding p_def by (rule ExternalProxyConfig_wire.length_put_wf [OF assms(1)])
  then have "p \<noteq> []" by auto
  moreover have "get_ExternalProxyConfig p = config"
    unfolding p_def by (rule ExternalProxyConfig_wire.get_put_end_wf [OF assms(1)])
  ultimately show "frame_event ses_registers (packet_header PacketId_ExternalProxy (length p), p) =
      Inr (Some (onExternalProxy (packet_header PacketId_ExternalProxy (length p)) config))"
    using l by (simp add: frame_event_def DecodeAndHandle_def ses_registers_def HandleStruct_def ParseStruct_def)
qed

lemma config_event:
  "frame_event pc_registers (packet_header PacketId_ProxyConfig 8, put_ProxyConfig config) =
     Inr (Some (onProxyConfig (packet_header PacketId_ProxyConfig 8) config))"
proof -
  have "put_ProxyConfig config \<noteq> []" using length_put_guest_config [of config] by auto
  moreover have "get_ProxyConfig (put_ProxyConfig config) = config"
    by (rule ProxyConfig_wire.get_put_end_wf) (simp add: wf_ProxyConfig_def)
  ultimately show ?thesis
    by (simp add: frame_event_def DecodeAndHandle_def pc_registers_def HandleStruct_def ParseStruct_def length_put_guest_config)
qed

text \<open>A guest takes the configuration and lets everything that is relayed pass.\<close>

lemma guest_ignores:
  "\<forall>(t, p) \<in> set ps. relay_type t \<and> length p < MaxPacketSize - HeaderSize \<Longrightarrow>
   packets_ok pc_registers ps \<and> frame_events pc_registers (frames_of ps) = []"
proof (induction ps)
  case (Cons a ps)
  obtain t p where a: "a = (t, p)" by force
  have e: "frame_event pc_registers (packet_header t (length p), p) = Inr None"
    using Cons.prems a by (auto simp: frame_event_def DecodeAndHandle_def pc_registers_def relay_type_def)
  have "packets_ok pc_registers ps \<and> frame_events pc_registers (frames_of ps) = []"
    by (rule Cons.IH) (use Cons.prems in auto)
  with e a Cons.prems show ?case by (auto simp: frame_events_of packets_ok_def)
qed (simp add: packets_ok_def frame_events_def frames_of_def)

text \<open>Whatever the pieces the bytes arrive in, the guest ends as \<open>g'\<close>, but for its protocol object.\<close>

definition learns :: "BufferPool \<Rightarrow> P2pProxyClient \<Rightarrow> bytes \<Rightarrow> P2pProxyClient \<Rightarrow> bool" where
  "learns gpool g bs g' \<longleftrightarrow> (\<forall>down. pieces_of bs down \<longrightarrow>
     (\<exists>q gpool'. pc_ReceiveLoop (map Got down) (gpool, g) = Inr (gpool', g'\<lparr>pc_protocol := q\<rparr>)))"

lemma guest_learns:
  assumes "guest_open g" and "pc_protocol g = RyuLdnProtocol_new" and "pool_inv gpool" and "card (borrowed gpool) + 2 \<le> MaxBuffers"
    and "packets_ok pc_registers ps" and "guest.hears (frame_events pc_registers (frames_of ps)) g = Some g'"
  shows "learns gpool g (bytes_of ps) g'"
  unfolding learns_def pc_ReceiveLoop_passes
  using guest.passes_packets [OF assms(1-5) _ assms(6)] by blast

lemma relays_leave_guest:
  assumes "guest_open g" and "pc_protocol g = RyuLdnProtocol_new" and "pool_inv gpool" and "card (borrowed gpool) + 2 \<le> MaxBuffers"
    and "relay_wire w"
  shows "learns gpool g (sent_on fd w) g"
proof -
  obtain qs where qs: "sent_on fd w = bytes_of qs" "\<forall>(t, p) \<in> set qs. relay_type t \<and> length p < MaxPacketSize - HeaderSize"
    using relay_wire_packets [OF assms(5)] by blast
  have "guest.hears (frame_events pc_registers (frames_of qs)) g = Some g"
    using guest_ignores [OF qs(2)] by (simp add: guest.hears_def)
  with guest_learns [OF assms(1-4)] guest_ignores [OF qs(2)] qs(1) show ?thesis by simp
qed

lemma reply_reaches_guest:
  assumes "guest_open g" and "pc_protocol g = RyuLdnProtocol_new" and "pool_inv gpool" and "card (borrowed gpool) + 2 \<le> MaxBuffers"
    and "relay_wire w"
  shows "learns gpool g (packet PacketId_ProxyConfig (put_ProxyConfig config) @ sent_on fd w) (pc_HandleProxyConfig config g)"
proof -
  let ?c = "(PacketId_ProxyConfig, put_ProxyConfig config)"
  obtain qs where qs: "sent_on fd w = bytes_of qs" "\<forall>(t, p) \<in> set qs. relay_type t \<and> length p < MaxPacketSize - HeaderSize"
    using relay_wire_packets [OF assms(5)] by blast
  have ok: "packets_ok pc_registers (?c # qs)"
    using guest_ignores [OF qs(2)] config_event
    by (auto simp: packets_ok_def length_put_guest_config MaxPacketSize_def HeaderSize_def)
  have "guest.hears (frame_events pc_registers (frames_of (?c # qs))) g = Some (pc_HandleProxyConfig config g)"
    using guest_ignores [OF qs(2)] config_event
    by (simp add: frame_events_of length_put_guest_config guest.hears_def guest_hears_def)
  from guest_learns [OF assms(1-4) ok this] qs(1) show ?thesis by (simp add: bytes_of_def)
qed

definition ses_ReceiveLoop :: "sid \<Rightarrow> recv_answer list \<Rightarrow> sst \<Rightarrow> sst run" where
  "ses_ReceiveLoop i = run_passes (ses_ReceiveLoop_pass i)"

section \<open>The property\<close>

text \<open>
  C11: a direct connection from end to end. An authentication for which the host has a token arrives at a
  session, then any messages for other guests, in any pieces. The host registers the guest; what it sends
  back, in any pieces, makes the client of the guest ready with the address under which it is registered.
  Everything else the host sends, to this guest and to the others, leaves a client as it was: the messages
  relayed never reach a game. (This client does not send the authentication itself, which is
  \<open>invitation_never_joins\<close>; the bytes are those that \<open>PerformAuth\<close> encodes.)
\<close>

theorem direct_connection_end_to_end:
  assumes "srv_inv s" and "srv_heap s i = Some x" and "ses_thread x = Receiving" and "ses_running x"
    and "ses_protocol x = RyuLdnProtocol_new" and "0 \<le> ses_socket x" and "srv_sends s = []"
    and "srv_peer s (ses_socket x) = Some addr" and "waiting_token addr config s = Some k"
    and "wf_ExternalProxyConfig config" and "packets_ok ses_registers ps" and "\<forall>(t, p) \<in> set ps. relay_type t"
    and "pool_inv pool" and "card (borrowed pool) + 2 \<le> MaxBuffers"
    and "pieces_of (bytes_of ((PacketId_ExternalProxy, put_ExternalProxyConfig config) # ps)) up"
    and "guest_open g" and "pc_protocol g = RyuLdnProtocol_new" and "pool_inv gpool" and "card (borrowed gpool) + 2 \<le> MaxBuffers"
    and "ip = ept_virtualIp (erased_reference k (srv_waitingTokens s))"
  shows "\<exists>pool' s' w. ses_ReceiveLoop i (map Got up) (pool, c, s) = Inr (pool', c, s')
    \<and> map_of (srv_players s') ip = Some i \<and> srv_wire s' = srv_wire s @ w
    \<and> learns gpool g (sent_on (ses_socket x) w) (pc_HandleProxyConfig (guest_config ip) g)
    \<and> (\<forall>fd. fd \<noteq> ses_socket x \<longrightarrow> learns gpool g (sent_on fd w) g)"
proof -
  let ?p = "put_ExternalProxyConfig config" and ?t = "seated k i x s"
  let ?evs = "frame_events ses_registers (frames_of ps)" and ?h = "packet_header PacketId_ExternalProxy (length ?p)"
  have t: "srv_heap ?t i = Some (x\<lparr>ses_virtualIpAddress := ip\<rparr>)" "map_of (srv_players ?t) ip = Some i"
      "srv_wire ?t = srv_wire s @ [(ses_socket x, packet PacketId_ProxyConfig (put_ProxyConfig (guest_config ip)))]"
    by (simp_all add: seated_fields assms(20))
  obtain w where w: "host.hears i ?evs (c, ?t) = Some (c, ?t\<lparr>srv_wire := srv_wire ?t @ w\<rparr>)" "relay_wire w"
    using hears_relays [OF relay_events [OF assms(11,12)] t(1)] by blast
  let ?s = "?t\<lparr>srv_wire := srv_wire ?t @ w\<rparr>"
  have ev: "frame_events ses_registers (frames_of ((PacketId_ExternalProxy, ?p) # ps)) = onExternalProxy ?h config # ?evs"
    using auth_event(2) [OF assms(10)] by (simp add: frame_events_of)
  have acc: "host_acc i (onExternalProxy ?h config) (c, s)" using assms(2,6,8,9) by (cases addr) (auto simp: host_acc_def)
  have "host.hears i (onExternalProxy ?h config # ?evs) (c, s) = Some (c, ?s)"
    using acc w(1) assms(2,8,9) by (simp add: host.hears_def)
  then have h: "host.hears i (frame_events ses_registers (frames_of ((PacketId_ExternalProxy, ?p) # ps))) (c, s) = Some (c, ?s)"
    by (simp only: ev)
  have ok: "packets_ok ses_registers ((PacketId_ExternalProxy, ?p) # ps)"
    using assms(11) auth_event [OF assms(10)] by (auto simp: packets_ok_def MaxPacketSize_def HeaderSize_def)
  have o: "host_open i (threads s) (c, s)" using assms(1-4,7) by (auto simp: host_open_def serving_def)
  have new: "(case (c, s) of (c, s) \<Rightarrow> ses_protocol_of i s) = RyuLdnProtocol_new"
    using assms(2,5) by (simp add: ses_protocol_of_def)
  obtain q pool' where r: "ses_ReceiveLoop i (map Got up) (pool, c, s) = Inr (pool', c, host_put i q ?s)"
    using host.passes_packets [OF o new assms(13,14) ok assms(15) h] unfolding ses_ReceiveLoop_def by auto
  from r t(2,3) reply_reaches_guest [OF assms(16-19) w(2)] relays_leave_guest [OF assms(16-19) w(2)] show ?thesis
    by (intro exI [of _ pool'] exI [of _ "host_put i q ?s"]
        exI [of _ "(ses_socket x, packet PacketId_ProxyConfig (put_ProxyConfig (guest_config ip))) # w"]) simp
qed

definition demo_joining :: P2pProxyClient where
  "demo_joining = (P2pProxyClient_new \<lparr>pcf_proxyIp = 0, pcf_proxySubnetMask = 0\<rparr> [] ''10.0.0.1'' 39990)
     \<lparr>pc_socket := 4, pc_connected := True, pc_running := True, pc_thread := Receiving\<rparr>"

text \<open>A guest with two tokens waiting, and data for the other guest after the authentication.\<close>

theorem direct_connection_end_to_end_witness:
  "let s = demo_server\<lparr>srv_waitingTokens := [demo_token 20 1, demo_token 21 2]\<rparr>;
       ps = [(PacketId_ExternalProxy, put_ExternalProxyConfig demo_auth), (PacketId_ProxyData, put_ProxyDataHeaderFull demo_data @ [7, 8])];
       up = [take 7 (bytes_of ps), drop 7 (bytes_of ps)] in
   \<exists>pool' s' w. ses_ReceiveLoop 0 (map Got up) (zero_pool, demo_client, s) = Inr (pool', demo_client, s')
     \<and> map_of (srv_players s') 21 = Some 0 \<and> srv_wire s' = w
     \<and> learns zero_pool demo_joining (sent_on 5 w) (pc_HandleProxyConfig (guest_config 21) demo_joining)
     \<and> learns zero_pool demo_joining (sent_on 6 w) demo_joining"
proof -
  let ?s = "demo_server\<lparr>srv_waitingTokens := [demo_token 20 1, demo_token 21 2]\<rparr>"
  let ?d = "(PacketId_ProxyData, put_ProxyDataHeaderFull demo_data @ [7, 8])"
  let ?ps = "[(PacketId_ExternalProxy, put_ExternalProxyConfig demo_auth), ?d]"
  have s: "srv_inv ?s" "srv_heap ?s 0 = Some (demo_guest 5 10)" "srv_sends ?s = []" "srv_wire ?s = []"
    using demo_server_inv by (simp_all add: demo_server_fields)
  have x: "ses_thread (demo_guest 5 10) = Receiving" "ses_running (demo_guest 5 10)"
      "ses_protocol (demo_guest 5 10) = RyuLdnProtocol_new" "ses_socket (demo_guest 5 10) = 5"
    by (simp_all add: demo_guest_def P2pProxySession_new_def)
  have peer: "srv_peer ?s 5 = Some (2, 0x0100007F)"
    by (simp add: demo_server_def demo_seat_def demo_new_def P2pProxyServer_new_def Let_def on_pool_def set_session_def)
  have k: "waiting_token (2, 0x0100007F) demo_auth ?s = Some 0"
    by (simp add: waiting_token_def upt_rec token_matches_def demo_token_def demo_auth_def Let_def)
  have a: "wf_ExternalProxyConfig demo_auth" by (simp add: wf_ExternalProxyConfig_def demo_auth_def)
  have d: "packets_ok ses_registers [?d]" "\<forall>(t, p) \<in> set [?d]. relay_type t"
    by (simp_all add: packets_ok_def frame_event_def DecodeAndHandle_def ses_registers_def HandleExtra_def ParseStruct_def
        put_ProxyDataHeaderFull_length relay_type_def MaxPacketSize_def HeaderSize_def Let_def)
  have z: "pool_inv zero_pool" "card (borrowed zero_pool) + 2 \<le> MaxBuffers"
    using zero_pool_inv zero_pool_free by (simp_all add: MaxBuffers_def)
  have l: "length (bytes_of ?ps) = 80"
    using auth_event(1) [OF a] by (simp add: bytes_of_def HeaderSize_def put_ProxyDataHeaderFull_length)
  moreover from l have "bytes_of ?ps \<noteq> []" by (metis list.size(3) zero_neq_numeral)
  ultimately have u: "pieces_of (bytes_of ?ps) [take 7 (bytes_of ?ps), drop 7 (bytes_of ?ps)]"
    by (simp add: pieces_of_def)
  have g: "guest_open demo_joining" "pc_protocol demo_joining = RyuLdnProtocol_new"
    by (simp_all add: guest_open_def demo_joining_def P2pProxyClient_new_def)
  have ip: "21 = ept_virtualIp (erased_reference 0 (srv_waitingTokens ?s))"
    by (simp add: erased_reference_def demo_token_def)
  from direct_connection_end_to_end [where config = demo_auth and c = demo_client,
      OF s(1,2) x(1-3) _ s(3) _ k a d z u g z ip] x(4) peer s(4)
  show ?thesis unfolding Let_def by auto
qed

end
