(* ===== verification/Bsd_Mitm.thy ===== *)
theory Bsd_Mitm
  imports Ldn_Proxy
begin

text \<open>
  \<open>bsd_mitm_service.cpp\<close>: the service that stands between a game and the socket service of the
  system. It keeps a table of 128 descriptors, decides for every command whether it is for the virtual
  network, and forwards the rest.

  The socket service of the system is a parameter: each command takes the answer it would give to the
  one request the command may forward, and what was forwarded is recorded in \<open>bm_forwarded\<close>. A virtual
  socket is an object of the proxy that was registered when it was made; \<open>bm_proxy\<close> is the registered
  proxy with the number of its registration, \<open>bm_gone\<close> the sockets that proxies since destroyed left
  behind. Such a socket still points to its proxy: a call that goes through the proxy is the fault
  \<open>UseAfterFree\<close>. One instance of the service is modelled. Commands are atomic, a command that waits
  holds the mutex of the table.
\<close>

section \<open>State\<close>

datatype SocketType = SocketType_Real | SocketType_Virtual

type_synonym vsock = "nat \<times> nat"

record SocketEntry =
  se_type :: SocketType
  se_real_fd :: int
  se_virtual_socket :: "vsock option"
  se_address_family :: u32
  se_socket_type :: u32
  se_protocol_type :: u32

text \<open>\<open>struct pollfd\<close>.\<close>

record pollfd =
  pf_fd :: int
  pf_events :: u16
  pf_revents :: u16

text \<open>The requests to the socket service of the system.\<close>

datatype BsdRequest =
    Fw_Socket u32 u32 u32
  | Fw_Select int "bytes option" bytes bytes bytes
  | Fw_Poll "pollfd list" int
  | Fw_Recv int u32 nat
  | Fw_RecvFrom int u32 nat nat
  | Fw_Send int bytes u32
  | Fw_SendTo int bytes u32 bytes
  | Fw_Bind int bytes
  | Fw_Connect int bytes
  | Fw_Close int

text \<open>Its answers: the result of the call, \<open>ret\<close>, \<open>errno\<close>, a length, and what it stores in buffers.\<close>

record BsdAnswer =
  an_rc :: Result
  an_ret :: int
  an_errno :: u32
  an_len :: u32
  an_data :: bytes
  an_addr :: bytes
  an_sets :: "bytes \<times> bytes \<times> bytes"
  an_revents :: "u16 list"

record BsdMitmService =
  bm_socket_map :: "SocketEntry list"
  bm_proxy :: "(nat \<times> LdnProxy) option"
  bm_gone :: "nat \<Rightarrow> nat \<rightharpoonup> LdnProxySocket"
  bm_registrations :: nat
  bm_forwarded :: "BsdRequest list"

type_synonym bst = "BufferPool \<times> BsdMitmService"

text \<open>What a command returns: the result code alone when it failed, or \<open>ret\<close>, \<open>errno\<close> and the rest.\<close>

datatype 'x reply = IpcFailed Result | Reply int u32 'x

definition MaxSockets :: nat where "MaxSockets = 128"

definition zero_entry :: SocketEntry where
  "zero_entry =
     \<lparr>se_type = SocketType_Real, se_real_fd = 0, se_virtual_socket = None, se_address_family = 0,
      se_socket_type = 0, se_protocol_type = 0\<rparr>"

definition BsdMitmService_new :: BsdMitmService where
  "BsdMitmService_new =
     \<lparr>bm_socket_map = replicate MaxSockets zero_entry, bm_proxy = None, bm_gone = (\<lambda>_. Map.empty),
      bm_registrations = 0, bm_forwarded = []\<rparr>"

text \<open>The error numbers of the C library of the target.\<close>

definition EBADF :: u32 where "EBADF = 9"
definition EWOULDBLOCK :: u32 where "EWOULDBLOCK = 11"
definition EHOSTUNREACH :: u32 where "EHOSTUNREACH = 118"
definition ENOTCONN :: u32 where "ENOTCONN = 128"

primrec errno_code :: "errno \<Rightarrow> u32" where
  "errno_code E_OK = 0"
| "errno_code EINVAL = 22"
| "errno_code EFAULT = 14"
| "errno_code ENOPROTOOPT = 109"
| "errno_code EAGAIN = 11"

section \<open>Registration of the proxy\<close>

definition ShouldMitm :: "BsdMitmService \<Rightarrow> bool" where
  "ShouldMitm b \<longleftrightarrow> bm_proxy b \<noteq> None"

definition RegisterProxy :: "LdnProxy \<Rightarrow> BsdMitmService \<Rightarrow> BsdMitmService" where
  "RegisterProxy px b =
     b\<lparr>bm_proxy := Some (bm_registrations b, px), bm_registrations := bm_registrations b + 1\<rparr>"

text \<open>
  \<open>UnregisterProxy\<close> and the deletion of the proxy that follows it in \<open>ICommunicationService::Finalize\<close>;
  the sockets stay.
\<close>

definition UnregisterProxy :: "BsdMitmService \<Rightarrow> BsdMitmService" where
  "UnregisterProxy b =
     (case bm_proxy b of
        None \<Rightarrow> b
      | Some (g, px) \<Rightarrow> b\<lparr>bm_proxy := None, bm_gone := (bm_gone b)(g := px_heap px)\<rparr>)"

section \<open>The table\<close>

definition GetSocketEntry :: "int \<Rightarrow> nat option" where
  "GetSocketEntry fd = (if fd < 0 \<or> MaxSockets \<le> nat fd then None else Some (nat fd))"

definition update_entry :: "nat \<Rightarrow> (SocketEntry \<Rightarrow> SocketEntry) \<Rightarrow> BsdMitmService \<Rightarrow> BsdMitmService" where
  "update_entry k f b = b\<lparr>bm_socket_map := (bm_socket_map b)[k := f (bm_socket_map b ! k)]\<rparr>"

definition is_virtual :: "int \<Rightarrow> BsdMitmService \<Rightarrow> bool" where
  "is_virtual fd b \<longleftrightarrow>
     (case GetSocketEntry fd of
        None \<Rightarrow> False
      | Some k \<Rightarrow> se_type (bm_socket_map b ! k) = SocketType_Virtual)"

definition IsRyuLdnVirtualIP :: "u32 \<Rightarrow> BsdMitmService \<Rightarrow> bool" where
  "IsRyuLdnVirtualIP ip b = (case bm_proxy b of None \<Rightarrow> False | Some (_, px) \<Rightarrow> IsVirtualIP ip px)"

definition EnsureProxyAvailable :: "BsdMitmService \<Rightarrow> bool" where
  "EnsureProxyAvailable b \<longleftrightarrow> bm_proxy b \<noteq> None"

text \<open>The socket registers itself when it is made, and is registered once more here.\<close>

definition GetVirtualSocket :: "int \<Rightarrow> BsdMitmService \<Rightarrow> vsock option \<times> BsdMitmService" where
  "GetVirtualSocket fd b =
     (case GetSocketEntry fd of
        None \<Rightarrow> (None, b)
      | Some k \<Rightarrow>
          let entry = bm_socket_map b ! k in
          case se_virtual_socket entry of
            Some v \<Rightarrow> (Some v, b)
          | None \<Rightarrow>
              (case bm_proxy b of
                 None \<Rightarrow> (None, b)
               | Some (g, px) \<Rightarrow>
                   let (i, px) = socket_create (sint (se_address_family entry)) (sint (se_socket_type entry))
                                   (se_protocol_type entry) px;
                       b = b\<lparr>bm_proxy := Some (g, RegisterSocket i px)\<rparr> in
                   (Some (g, i), update_entry k (\<lambda>e. e\<lparr>se_virtual_socket := Some (g, i)\<rparr>) b)))"

section \<open>Calls on a virtual socket\<close>

definition vsock_get :: "vsock \<Rightarrow> BsdMitmService \<Rightarrow> LdnProxySocket run" where
  "vsock_get v b =
     (let found = (case bm_proxy b of
                     Some (g, px) \<Rightarrow> if g = fst v then px_heap px (snd v) else bm_gone b (fst v) (snd v)
                   | None \<Rightarrow> bm_gone b (fst v) (snd v)) in
      case found of Some s \<Rightarrow> Inr s | None \<Rightarrow> Inl UseAfterFree)"

definition vsock_put :: "vsock \<Rightarrow> LdnProxySocket \<Rightarrow> BsdMitmService \<Rightarrow> BsdMitmService" where
  "vsock_put v s b =
     (let left = b\<lparr>bm_gone := (bm_gone b)(fst v := (bm_gone b (fst v))(snd v \<mapsto> s))\<rparr> in
      case bm_proxy b of
        Some (g, px) \<Rightarrow> if g = fst v then b\<lparr>bm_proxy := Some (g, store (snd v) s px)\<rparr> else left
      | None \<Rightarrow> left)"

text \<open>A call that reads or changes the socket alone, and one that goes through its proxy.\<close>

definition call_socket ::
    "(LdnProxySocket \<Rightarrow> 'a \<times> LdnProxySocket) \<Rightarrow> vsock \<Rightarrow> BsdMitmService \<Rightarrow> ('a \<times> BsdMitmService) run" where
  "call_socket f v b = bind_run (vsock_get v b) (\<lambda>s. let (r, s) = f s in Inr (r, vsock_put v s b))"

definition call_proxy :: "(nat \<Rightarrow> pxs \<Rightarrow> ('a \<times> pxs) run) \<Rightarrow> vsock \<Rightarrow> bst \<Rightarrow> ('a \<times> bst) run" where
  "call_proxy f v = (\<lambda>(pool, b).
     case bm_proxy b of
       None \<Rightarrow> Inl UseAfterFree
     | Some (g, px) \<Rightarrow>
         if g \<noteq> fst v then Inl UseAfterFree
         else bind_run (f (snd v) (pool, px)) (\<lambda>(r, pool, px). Inr (r, pool, b\<lparr>bm_proxy := Some (g, px)\<rparr>)))"

section \<open>Addresses and forwarding\<close>

text \<open>
  \<open>struct sockaddr_in\<close> in a buffer of the client: a length byte, the family, port and address in network
  order, eight zero bytes.
\<close>

definition sockaddr_size :: nat where "sockaddr_size = 16"

definition sockaddr_at :: "bytes \<Rightarrow> sockaddr_in option" where
  "sockaddr_at addr =
     (if length addr < sockaddr_size then None
      else Some \<lparr>sin_family = unat (addr ! 1), sin_addr = get32 (drop 4 addr), sin_port = get16 (drop 2 addr)\<rparr>)"

definition put_sockaddr :: "sockaddr_in \<Rightarrow> bytes" where
  "put_sockaddr sa = [0, of_nat (sin_family sa)] @ put16 (sin_port sa) @ put32 (sin_addr sa) @ replicate 8 0"

definition forwarded :: "BsdRequest \<Rightarrow> BsdMitmService \<Rightarrow> BsdMitmService" where
  "forwarded request b = b\<lparr>bm_forwarded := bm_forwarded b @ [request]\<rparr>"

definition forward :: "BsdAnswer \<Rightarrow> BsdRequest \<Rightarrow> bst \<Rightarrow> unit reply \<times> bst" where
  "forward a request = (\<lambda>(pool, b).
     (if an_rc a \<noteq> ResultSuccess then IpcFailed (an_rc a) else Reply (an_ret a) (an_errno a) (),
      pool, forwarded request b))"

section \<open>Creating, binding, connecting\<close>

text \<open>\<open>Socket\<close>: the result code and \<open>out_fd\<close>.\<close>

definition bsd_Socket ::
    "BsdAnswer \<Rightarrow> u32 \<Rightarrow> u32 \<Rightarrow> u32 \<Rightarrow> BsdMitmService \<Rightarrow> (Result \<times> int) \<times> BsdMitmService" where
  "bsd_Socket a domain type protocol b =
     (let b = forwarded (Fw_Socket domain type protocol) b in
      if an_rc a \<noteq> ResultSuccess then ((an_rc a, -1), b)
      else
        let real_fd = an_ret a;
            b = (if 0 \<le> real_fd \<and> nat real_fd < MaxSockets
                 then update_entry (nat real_fd)
                        (\<lambda>_. \<lparr>se_type = SocketType_Real, se_real_fd = real_fd, se_virtual_socket = None,
                              se_address_family = domain, se_socket_type = type, se_protocol_type = protocol\<rparr>) b
                 else b) in
        ((ResultSuccess, real_fd), b))"

definition isVirtualBind :: "sockaddr_in \<Rightarrow> BsdMitmService \<Rightarrow> bool" where
  "isVirtualBind sa b \<longleftrightarrow>
     sin_addr sa \<noteq> 0 \<and> IsRyuLdnVirtualIP (ntohl (sin_addr sa)) b \<or> sin_addr sa = 0 \<and> bm_proxy b \<noteq> None"

definition proxy_local_ip :: "BsdMitmService \<Rightarrow> u32" where
  "proxy_local_ip b = (case bm_proxy b of None \<Rightarrow> 0 | Some (_, px) \<Rightarrow> px_localIp px)"

definition mark_virtual :: "nat \<Rightarrow> BsdMitmService \<Rightarrow> BsdMitmService" where
  "mark_virtual k = update_entry k (\<lambda>e. e\<lparr>se_type := SocketType_Virtual\<rparr>)"

definition bsd_Bind :: "BsdAnswer \<Rightarrow> int \<Rightarrow> bytes \<Rightarrow> bst \<Rightarrow> (unit reply \<times> bst) run" where
  "bsd_Bind a fd addr = (\<lambda>(pool, b).
     case sockaddr_at addr of
       Some sa \<Rightarrow>
         if sin_family sa = AF_INET \<and> isVirtualBind sa b then
           if \<not> EnsureProxyAvailable b then Inr (Reply (-1) EHOSTUNREACH (), pool, b)
           else
             (case GetSocketEntry fd of
                None \<Rightarrow> Inr (Reply (-1) EBADF (), pool, b)
              | Some k \<Rightarrow>
                  let (vsock, b) = GetVirtualSocket fd (mark_virtual k b) in
                  (case vsock of
                     None \<Rightarrow> Inr (Reply 0 0 (), pool, b)
                   | Some v \<Rightarrow>
                       let virtualAddr = (if sin_addr sa = 0 then sa\<lparr>sin_addr := htonl (proxy_local_ip b)\<rparr> else sa) in
                       bind_run
                         (call_proxy (\<lambda>i (pool, px). bind_run (Bind (Some virtualAddr) i px) (\<lambda>px. Inr ((), pool, px)))
                            v (pool, b))
                         (\<lambda>(_, st). Inr (Reply 0 0 (), st))))
         else Inr (forward a (Fw_Bind fd addr) (pool, b))
     | None \<Rightarrow> Inr (forward a (Fw_Bind fd addr) (pool, b)))"

text \<open>
  \<open>answer\<close> is the response to the connection request that arrives while the command waits; the result
  \<open>None\<close> means that it is still waiting.
\<close>

definition bsd_Connect ::
    "BsdAnswer \<Rightarrow> ProxyConnectResponseFull option \<Rightarrow> int \<Rightarrow> bytes \<Rightarrow> bst \<Rightarrow> (unit reply \<times> bst) option run" where
  "bsd_Connect a answer fd addr = (\<lambda>(pool, b).
     case sockaddr_at addr of
       Some sa \<Rightarrow>
         if sin_family sa = AF_INET \<and> IsRyuLdnVirtualIP (ntohl (sin_addr sa)) b then
           if \<not> EnsureProxyAvailable b then Inr (Some (Reply (-1) EHOSTUNREACH (), pool, b))
           else
             (case GetSocketEntry fd of
                None \<Rightarrow> Inr (Some (Reply (-1) EBADF (), pool, b))
              | Some k \<Rightarrow>
                  let (vsock, b) = GetVirtualSocket fd (mark_virtual k b) in
                  (case vsock of
                     None \<Rightarrow> Inr (Some (Reply 0 0 (), pool, b))
                   | Some v \<Rightarrow>
                       bind_run
                         (call_proxy (\<lambda>i (pool, px). bind_run (Connect answer (Some sa) i (pool, px)) (\<lambda>r.
                            case r of None \<Rightarrow> Inr (False, pool, px) | Some st \<Rightarrow> Inr (True, st))) v (pool, b))
                         (\<lambda>(returned, st). Inr (if returned then Some (Reply 0 0 (), st) else None))))
         else Inr (Some (forward a (Fw_Connect fd addr) (pool, b)))
     | None \<Rightarrow> Inr (Some (forward a (Fw_Connect fd addr) (pool, b))))"

section \<open>Sending and receiving\<close>

definition bsd_Send :: "BsdAnswer \<Rightarrow> int \<Rightarrow> bytes \<Rightarrow> u32 \<Rightarrow> bst \<Rightarrow> (unit reply \<times> bst) run" where
  "bsd_Send a fd data flags = (\<lambda>(pool, b).
     if is_virtual fd b then
       if \<not> EnsureProxyAvailable b then Inr (Reply (-1) EHOSTUNREACH (), pool, b)
       else
         (case GetVirtualSocket fd b of
            (None, b) \<Rightarrow> Inr (Reply (-1) ENOTCONN (), pool, b)
          | (Some v, b) \<Rightarrow>
              bind_run (call_proxy (Send data) v (pool, b)) (\<lambda>(sent, st).
                Inr (if 0 \<le> sent then Reply sent 0 () else Reply (-1) ENOTCONN (), st)))
     else Inr (forward a (Fw_Send fd data flags) (pool, b)))"

definition bsd_SendTo :: "BsdAnswer \<Rightarrow> int \<Rightarrow> bytes \<Rightarrow> u32 \<Rightarrow> bytes \<Rightarrow> bst \<Rightarrow> (unit reply \<times> bst) run" where
  "bsd_SendTo a fd data flags addr = (\<lambda>(pool, b).
     case sockaddr_at addr of
       Some dest \<Rightarrow>
         if sin_family dest = AF_INET \<and> IsRyuLdnVirtualIP (ntohl (sin_addr dest)) b then
           if \<not> EnsureProxyAvailable b then Inr (Reply (-1) EHOSTUNREACH (), pool, b)
           else
             (case GetVirtualSocket fd b of
                (None, b) \<Rightarrow> Inr (Reply (-1) EHOSTUNREACH (), pool, b)
              | (Some v, b) \<Rightarrow>
                  bind_run (call_proxy (socket_SendTo data (Some dest)) v (pool, b)) (\<lambda>(sent, st).
                    Inr (if 0 \<le> sent then Reply sent 0 () else Reply (-1) EHOSTUNREACH (), st)))
         else Inr (forward a (Fw_SendTo fd data flags addr) (pool, b))
     | None \<Rightarrow> Inr (forward a (Fw_SendTo fd data flags addr) (pool, b)))"

text \<open>
  \<open>wait\<close> is what the other threads do to the socket while the command waits. The reply carries the bytes
  stored in the buffer of the client.
\<close>

definition bsd_Recv ::
    "BsdAnswer \<Rightarrow> (LdnProxySocket \<Rightarrow> LdnProxySocket) \<Rightarrow> int \<Rightarrow> nat \<Rightarrow> u32 \<Rightarrow> bst \<Rightarrow> (bytes reply \<times> bst) run" where
  "bsd_Recv a wait fd bufsize flags = (\<lambda>(pool, b).
     if is_virtual fd b then
       if \<not> EnsureProxyAvailable b then Inr (Reply (-1) EHOSTUNREACH [], pool, b)
       else
         (case GetVirtualSocket fd b of
            (None, b) \<Rightarrow> Inr (Reply (-1) EWOULDBLOCK [], pool, b)
          | (Some v, b) \<Rightarrow>
              bind_run (call_socket (Receive wait bufsize flags) v b) (\<lambda>((received, stored), b).
                Inr (if 0 < received then Reply received 0 stored else Reply (-1) EWOULDBLOCK stored, pool, b)))
     else
       Inr (if an_rc a \<noteq> ResultSuccess then IpcFailed (an_rc a) else Reply (an_ret a) (an_errno a) (an_data a),
            pool, forwarded (Fw_Recv fd flags bufsize) b))"

text \<open>The reply carries the bytes, \<open>out_addrlen\<close>, and the address stored.\<close>

definition bsd_RecvFrom ::
    "BsdAnswer \<Rightarrow> (LdnProxySocket \<Rightarrow> LdnProxySocket) \<Rightarrow> int \<Rightarrow> nat \<Rightarrow> u32 \<Rightarrow> nat \<Rightarrow> bst
       \<Rightarrow> ((bytes \<times> u32 \<times> bytes) reply \<times> bst) run" where
  "bsd_RecvFrom a wait fd bufsize flags addrsize = (\<lambda>(pool, b).
     if is_virtual fd b then
       if \<not> EnsureProxyAvailable b then Inr (Reply (-1) EHOSTUNREACH ([], 0, []), pool, b)
       else
         (case GetVirtualSocket fd b of
            (None, b) \<Rightarrow> Inr (Reply (-1) EWOULDBLOCK ([], 0, []), pool, b)
          | (Some v, b) \<Rightarrow>
              bind_run (call_socket (ReceiveFrom wait bufsize flags) v b) (\<lambda>((received, stored, source), b).
                if source \<noteq> None \<and> addrsize < sockaddr_size then Inl NullDeref
                else
                  let src = (case source of None \<Rightarrow> [] | Some sa \<Rightarrow> put_sockaddr sa) in
                  Inr (if 0 < received then Reply received 0 (stored, of_nat sockaddr_size, src)
                       else Reply (-1) EWOULDBLOCK (stored, 0, src), pool, b)))
     else
       Inr (if an_rc a \<noteq> ResultSuccess then IpcFailed (an_rc a)
            else Reply (an_ret a) (an_errno a) (an_data a, an_len a, an_addr a),
            pool, forwarded (Fw_RecvFrom fd flags bufsize addrsize) b))"

section \<open>Closing\<close>

text \<open>
  \<open>delete vsock\<close>: the destructor closes the socket. \<open>CleanupSocket\<close> of the proxy, which \<open>Close\<close> calls
  first, only writes a log line.
\<close>

definition socket_delete :: "nat \<Rightarrow> pxs \<Rightarrow> (unit \<times> pxs) run" where
  "socket_delete i st =
     bind_run (Close i st) (\<lambda>(pool, px). Inr ((), pool, px\<lparr>px_heap := (px_heap px)(i := None)\<rparr>))"

definition forget_entry :: "SocketEntry \<Rightarrow> SocketEntry" where
  "forget_entry e =
     e\<lparr>se_type := SocketType_Real, se_virtual_socket := None, se_address_family := 0, se_socket_type := 0,
       se_protocol_type := 0\<rparr>"

definition unregister_vsock :: "vsock \<Rightarrow> BsdMitmService \<Rightarrow> BsdMitmService" where
  "unregister_vsock v b =
     (case bm_proxy b of
        None \<Rightarrow> b
      | Some (g, px) \<Rightarrow> if g = fst v then b\<lparr>bm_proxy := Some (g, UnregisterSocket (snd v) px)\<rparr> else b)"

definition bsd_Close :: "BsdAnswer \<Rightarrow> int \<Rightarrow> bst \<Rightarrow> (unit reply \<times> bst) run" where
  "bsd_Close a fd = (\<lambda>(pool, b).
     bind_run
       (case GetSocketEntry fd of
          None \<Rightarrow> Inr (pool, b)
        | Some k \<Rightarrow>
            let entry = bm_socket_map b ! k in
            if se_type entry \<noteq> SocketType_Virtual then Inr (pool, b)
            else
              bind_run
                (case se_virtual_socket entry of
                   None \<Rightarrow> Inr (pool, b)
                 | Some v \<Rightarrow>
                     bind_run (call_proxy socket_delete v (pool, unregister_vsock v b)) (\<lambda>(_, st). Inr st))
                (\<lambda>(pool, b). Inr (pool, update_entry k forget_entry b)))
       (\<lambda>st. Inr (forward a (Fw_Close fd) st)))"

section \<open>Commands that are answered for virtual sockets only\<close>

text \<open>
  \<open>Accept\<close> and the commands after it in the file refuse every descriptor that is not virtual, so the code
  that would forward them is not reached. They share this frame: \<open>act\<close> is the call on the virtual
  socket, \<open>none\<close> the rest of the reply of a refusal.
\<close>

definition virtual_only ::
    "int \<Rightarrow> 'x \<Rightarrow> (vsock \<Rightarrow> bst \<Rightarrow> ('x reply option \<times> bst) run) \<Rightarrow> bst \<Rightarrow> ('x reply option \<times> bst) run" where
  "virtual_only fd none act = (\<lambda>(pool, b).
     if \<not> is_virtual fd b then Inr (Some (Reply (-1) EBADF none), pool, b)
     else if \<not> EnsureProxyAvailable b then Inr (Some (Reply (-1) EHOSTUNREACH none), pool, b)
     else
       case GetVirtualSocket fd b of
         (None, b) \<Rightarrow> Inr (Some (Reply (-1) ENOTCONN none), pool, b)
       | (Some v, b) \<Rightarrow> act v (pool, b))"

text \<open>
  \<open>Accept\<close>: \<open>out_addrlen\<close> and the address stored. \<open>BsdAccept\<close> always returns the descriptor 1, whose
  entry becomes virtual; the accepted socket itself is not stored. \<open>None\<close>: still waiting.
\<close>

definition bsd_Accept ::
    "bool \<Rightarrow> ProxyConnectRequestFull list list \<Rightarrow> int \<Rightarrow> nat \<Rightarrow> bst \<Rightarrow> ((u32 \<times> bytes) reply option \<times> bst) run" where
  "bsd_Accept alloc_ok wakes fd addrsize =
     virtual_only fd (0, []) (\<lambda>v (pool, b).
       bind_run (call_proxy (BsdAccept alloc_ok wakes True) v (pool, b)) (\<lambda>(r, pool, b).
         case r of
           None \<Rightarrow> Inr (None, pool, b)
         | Some (new_fd, err, client_addr) \<Rightarrow>
             if new_fd < 0 then Inr (Some (Reply (-1) (errno_code err) (0, [])), pool, b)
             else
               let entry = bm_socket_map b ! nat fd;
                   addr = (case client_addr of None \<Rightarrow> [] | Some sa \<Rightarrow> put_sockaddr sa);
                   b = (case GetSocketEntry new_fd of
                          None \<Rightarrow> b
                        | Some k \<Rightarrow>
                            update_entry k (\<lambda>e. e\<lparr>se_type := SocketType_Virtual,
                              se_address_family := se_address_family entry, se_socket_type := se_socket_type entry,
                              se_protocol_type := se_protocol_type entry\<rparr>) b) in
               Inr (Some (Reply new_fd 0 (of_nat sockaddr_size, if sockaddr_size \<le> addrsize then addr else [])),
                    pool, b)))"

text \<open>A wrapper that returns \<open>-1\<close> or a value, and \<open>errno\<close>.\<close>

definition bsd_reply :: "int \<times> errno \<Rightarrow> unit reply" where
  "bsd_reply = (\<lambda>(result, err). if result < 0 then Reply (-1) (errno_code err) () else Reply result 0 ())"

definition virtual_call ::
    "int \<Rightarrow> (LdnProxySocket \<Rightarrow> (int \<times> errno) \<times> LdnProxySocket) \<Rightarrow> bst \<Rightarrow> (unit reply option \<times> bst) run" where
  "virtual_call fd f =
     virtual_only fd () (\<lambda>v (pool, b).
       bind_run (call_socket f v b) (\<lambda>(r, b). Inr (Some (bsd_reply r), pool, b)))"

text \<open>The reply carries \<open>out_optlen\<close> and the value stored.\<close>

definition bsd_GetSockOpt ::
    "int \<Rightarrow> int \<Rightarrow> nat \<Rightarrow> bst \<Rightarrow> ((u32 \<times> bytes) reply option \<times> bst) run" where
  "bsd_GetSockOpt fd optname optsize =
     virtual_only fd (0, []) (\<lambda>v (pool, b).
       bind_run (call_socket (\<lambda>s. (BsdGetSocketOption optname (0 < optsize) (Some optsize) s, s)) v b)
         (\<lambda>((result, err, stored), b).
            Inr (Some (if result < 0 then Reply (-1) (errno_code err) (0, [])
                       else case stored of
                              None \<Rightarrow> Reply 0 0 (of_nat optsize, [])
                            | Some (value, len) \<Rightarrow> Reply 0 0 (of_nat len, put32 (word_of_int value))), pool, b)))"

definition bsd_Listen :: "int \<Rightarrow> int \<Rightarrow> bst \<Rightarrow> (unit reply option \<times> bst) run" where
  "bsd_Listen fd backlog = virtual_call fd (BsdListen backlog)"

definition bsd_Fcntl :: "int \<Rightarrow> int \<Rightarrow> u32 \<Rightarrow> bst \<Rightarrow> (unit reply option \<times> bst) run" where
  "bsd_Fcntl fd cmd flags = virtual_call fd (BsdFcntl cmd flags)"

definition bsd_SetSockOpt :: "int \<Rightarrow> int \<Rightarrow> bytes \<Rightarrow> bst \<Rightarrow> (unit reply option \<times> bst) run" where
  "bsd_SetSockOpt fd optname optval =
     virtual_call fd
       (BsdSetSocketOption optname (if optval = [] then None else Some (sint (get32 optval))) (length optval))"

definition bsd_Shutdown :: "int \<Rightarrow> int \<Rightarrow> bst \<Rightarrow> (unit reply option \<times> bst) run" where
  "bsd_Shutdown fd how = virtual_call fd (BsdShutdown how)"

section \<open>Poll\<close>

definition POLLIN :: u16 where "POLLIN = 0x0001"
definition POLLOUT :: u16 where "POLLOUT = 0x0004"
definition POLLERR :: u16 where "POLLERR = 0x0008"
definition POLLRDNORM :: u16 where "POLLRDNORM = 0x0040"
definition POLLWRNORM :: u16 where "POLLWRNORM = 0x0004"
definition POLLRDBAND :: u16 where "POLLRDBAND = 0x0080"
definition POLLWRBAND :: u16 where "POLLWRBAND = 0x0100"

definition virtual_revents :: "u16 \<Rightarrow> LdnProxySocket \<Rightarrow> u16" where
  "virtual_revents events s =
     (let revents = (if events AND (POLLIN OR POLLRDNORM OR POLLRDBAND) \<noteq> 0 \<and> IsReadable s
                     then POLLIN OR POLLRDNORM else 0);
          revents = (if events AND (POLLOUT OR POLLWRNORM OR POLLWRBAND) \<noteq> 0 \<and> IsWritable s
                     then revents OR POLLOUT OR POLLWRNORM else revents) in
      if HasError s then revents OR POLLERR else revents)"

text \<open>
  The loop over the descriptors. It returns them with the events of the virtual ones filled in, which of
  them are to be forwarded, and the number of ready ones; \<open>None\<close>: a virtual one, and no proxy.
\<close>

fun Poll_scan ::
    "pollfd list \<Rightarrow> BsdMitmService \<Rightarrow> ((pollfd list \<times> bool list \<times> nat) option \<times> BsdMitmService) run" where
  "Poll_scan [] b = Inr (Some ([], [], 0), b)"
| "Poll_scan (p # ps) b =
     (if is_virtual (pf_fd p) b then
        if \<not> EnsureProxyAvailable b then Inr (None, b)
        else
          (case GetVirtualSocket (pf_fd p) b of
             (None, b) \<Rightarrow>
               bind_run (Poll_scan ps b) (\<lambda>(r, b). Inr (map_option (\<lambda>(qs, real, n). (p # qs, False # real, n)) r, b))
           | (Some v, b) \<Rightarrow>
               bind_run (vsock_get v b) (\<lambda>s.
                 let revents = virtual_revents (pf_events p) s in
                 bind_run (Poll_scan ps b) (\<lambda>(r, b).
                   Inr (map_option (\<lambda>(qs, real, n).
                     (p\<lparr>pf_revents := revents\<rparr> # qs, False # real, if revents \<noteq> 0 then Suc n else n)) r, b))))
      else
        bind_run (Poll_scan ps b) (\<lambda>(r, b). Inr (map_option (\<lambda>(qs, real, n). (p # qs, True # real, n)) r, b)))"

text \<open>The answers of the system merged back; what it leaves out keeps the value it was sent with.\<close>

fun Poll_merge :: "pollfd list \<Rightarrow> bool list \<Rightarrow> u16 list \<Rightarrow> pollfd list \<times> nat" where
  "Poll_merge (p # ps) (True # fs) rs =
     (let p = (case rs of [] \<Rightarrow> p | r # _ \<Rightarrow> p\<lparr>pf_revents := r\<rparr>);
          (qs, n) = Poll_merge ps fs (tl rs) in
      (p # qs, if pf_revents p \<noteq> 0 then Suc n else n))"
| "Poll_merge (p # ps) (False # fs) rs = (let (qs, n) = Poll_merge ps fs rs in (p # qs, n))"
| "Poll_merge ps fs rs = (ps, 0)"

definition to_forward :: "pollfd list \<Rightarrow> bool list \<Rightarrow> pollfd list" where
  "to_forward ps real = map fst (filter snd (zip ps real))"

text \<open>\<open>pollfds\<close> are the structures in the buffer of the client, the reply carries their new values.\<close>

definition bsd_Poll ::
    "BsdAnswer \<Rightarrow> pollfd list \<Rightarrow> u32 \<Rightarrow> int \<Rightarrow> bst \<Rightarrow> (pollfd list reply \<times> bst) run" where
  "bsd_Poll a pollfds nfds timeout_ms = (\<lambda>(pool, b).
     if nfds = 0 then Inr (Reply 0 0 pollfds, pool, b)
     else if length pollfds < unat nfds then Inr (Reply (-1) (errno_code EINVAL) pollfds, pool, b)
     else
       let ps = take (unat nfds) pollfds; rest = drop (unat nfds) pollfds in
       bind_run (Poll_scan ps b) (\<lambda>(r, b).
         case r of
           None \<Rightarrow> Inr (Reply (-1) EHOSTUNREACH pollfds, pool, b)
         | Some (qs, real, n) \<Rightarrow>
             if True \<notin> set real then Inr (Reply (int n) 0 (qs @ rest), pool, b)
             else
               let b = forwarded (Fw_Poll (to_forward ps real) timeout_ms) b in
               if an_rc a \<noteq> ResultSuccess then Inr (IpcFailed (an_rc a), pool, b)
               else if an_ret a < 0 then Inr (Reply (an_ret a) (an_errno a) (qs @ rest), pool, b)
               else
                 let (qs, m) = Poll_merge qs real (an_revents a) in
                 Inr (Reply (int (n + m)) 0 (qs @ rest), pool, b)))"

section \<open>Select\<close>

text \<open>
  An \<open>fd_set\<close> is a bit array; its size in bytes, \<open>fdbytes\<close>, is a parameter. A set of the client is a null
  pointer when its buffer is empty. A bit outside the memory of a set is the fault \<open>BufferOverrun\<close>.
\<close>

definition TestFd :: "bytes option \<Rightarrow> nat \<Rightarrow> bool run" where
  "TestFd fds fd =
     (case fds of
        None \<Rightarrow> Inr False
      | Some s \<Rightarrow> if length s \<le> fd div 8 then Inl BufferOverrun else Inr (bit (s ! (fd div 8)) (fd mod 8)))"

definition SetFd :: "nat \<Rightarrow> bytes \<Rightarrow> bytes run" where
  "SetFd fd s =
     (if length s \<le> fd div 8 then Inl BufferOverrun
      else Inr (s[fd div 8 := Bit_Operations.set_bit (fd mod 8) (s ! (fd div 8))]))"

definition ClearFd :: "nat \<Rightarrow> bytes \<Rightarrow> bytes run" where
  "ClearFd fd s =
     (if length s \<le> fd div 8 then Inl BufferOverrun
      else Inr (s[fd div 8 := unset_bit (fd mod 8) (s ! (fd div 8))]))"

record fd_sets =
  fs_read :: bytes
  fs_write :: bytes
  fs_except :: bytes

record SelectState =
  sx_out :: fd_sets
  sx_fwd :: fd_sets
  sx_ready :: "bool list"
  sx_real :: bool
  sx_mitm :: BsdMitmService

type_synonym client_sets = "bytes option \<times> bytes option \<times> bytes option"

definition TestAny :: "client_sets \<Rightarrow> nat \<Rightarrow> bool run" where
  "TestAny = (\<lambda>(r, w, e) fd.
     bind_run (TestFd r fd) (\<lambda>x. if x then Inr True
       else bind_run (TestFd w fd) (\<lambda>x. if x then Inr True else TestFd e fd)))"

text \<open>\<open>if (TestFd(in, fd) && cond) { SetFd(&out, fd); ready[fd] = true; }\<close>\<close>

definition raise_fd :: "bytes option \<Rightarrow> bool \<Rightarrow> nat \<Rightarrow> bytes \<times> bool list \<Rightarrow> (bytes \<times> bool list) run" where
  "raise_fd ins cond fd = (\<lambda>(out, ready).
     bind_run (TestFd ins fd) (\<lambda>x.
       if x \<and> cond then bind_run (SetFd fd out) (\<lambda>out. Inr (out, ready[fd := True])) else Inr (out, ready)))"

definition ClearAll :: "nat \<Rightarrow> fd_sets \<Rightarrow> fd_sets run" where
  "ClearAll fd f =
     bind_run (ClearFd fd (fs_read f)) (\<lambda>r.
     bind_run (ClearFd fd (fs_write f)) (\<lambda>w.
     bind_run (ClearFd fd (fs_except f)) (\<lambda>e.
       Inr \<lparr>fs_read = r, fs_write = w, fs_except = e\<rparr>)))"

definition Select_fd :: "client_sets \<Rightarrow> nat \<Rightarrow> SelectState \<Rightarrow> SelectState run" where
  "Select_fd ins fd x =
     (if \<not> is_virtual (int fd) (sx_mitm x) then
        bind_run (TestAny ins fd) (\<lambda>t. Inr (if t then x\<lparr>sx_real := True\<rparr> else x))
      else
        case GetVirtualSocket (int fd) (sx_mitm x) of
          (None, b) \<Rightarrow> Inr (x\<lparr>sx_mitm := b\<rparr>)
        | (Some v, b) \<Rightarrow>
            bind_run (vsock_get v b) (\<lambda>s.
              let (r, w, e) = ins; out = sx_out x in
              bind_run (raise_fd r (IsReadable s) fd (fs_read out, sx_ready x)) (\<lambda>(out_r, ready).
              bind_run (raise_fd w (IsWritable s) fd (fs_write out, ready)) (\<lambda>(out_w, ready).
              bind_run (raise_fd e (HasError s) fd (fs_except out, ready)) (\<lambda>(out_e, ready).
              bind_run (ClearAll fd (sx_fwd x)) (\<lambda>fwd.
                Inr (x\<lparr>sx_out := \<lparr>fs_read = out_r, fs_write = out_w, fs_except = out_e\<rparr>,
                       sx_fwd := fwd, sx_ready := ready, sx_mitm := b\<rparr>)))))))"

fun Select_scan :: "client_sets \<Rightarrow> nat list \<Rightarrow> SelectState \<Rightarrow> SelectState run" where
  "Select_scan ins [] x = Inr x"
| "Select_scan ins (fd # fds) x = bind_run (Select_fd ins fd x) (Select_scan ins fds)"

text \<open>The answer of the system merged in; the counter goes up with the first set that has the descriptor.\<close>

definition merge_fd :: "bytes \<Rightarrow> nat \<Rightarrow> bytes \<times> bool list \<times> nat \<Rightarrow> (bytes \<times> bool list \<times> nat) run" where
  "merge_fd fwd fd = (\<lambda>(out, ready, n).
     bind_run (TestFd (Some fwd) fd) (\<lambda>x.
       if x then bind_run (SetFd fd out) (\<lambda>out.
         Inr (if ready ! fd then (out, ready, n) else (out, ready[fd := True], Suc n)))
       else Inr (out, ready, n)))"

definition Select_merge_fd :: "fd_sets \<Rightarrow> nat \<Rightarrow> fd_sets \<times> bool list \<times> nat \<Rightarrow> (fd_sets \<times> bool list \<times> nat) run" where
  "Select_merge_fd fwd fd = (\<lambda>(out, ready, n).
     bind_run (merge_fd (fs_read fwd) fd (fs_read out, ready, n)) (\<lambda>(r, ready, n).
     bind_run (merge_fd (fs_write fwd) fd (fs_write out, ready, n)) (\<lambda>(w, ready, n).
     bind_run (merge_fd (fs_except fwd) fd (fs_except out, ready, n)) (\<lambda>(e, ready, n).
       Inr (\<lparr>fs_read = r, fs_write = w, fs_except = e\<rparr>, ready, n)))))"

fun Select_merge :: "fd_sets \<Rightarrow> nat list \<Rightarrow> fd_sets \<times> bool list \<times> nat \<Rightarrow> (fd_sets \<times> bool list \<times> nat) run" where
  "Select_merge fwd [] st = Inr st"
| "Select_merge fwd (fd # fds) st = bind_run (Select_merge_fd fwd fd st) (Select_merge fwd fds)"

text \<open>What an output buffer holds after the call: the bytes that were stored, then the old ones.\<close>

definition stored_in :: "bytes \<Rightarrow> bytes \<Rightarrow> bytes" where
  "stored_in old new = take (length old) new @ drop (length new) old"

definition fd_copy :: "nat \<Rightarrow> bytes \<Rightarrow> bytes" where
  "fd_copy fdbytes buffer = stored_in (replicate fdbytes 0) buffer"

definition fd_null :: "bytes \<Rightarrow> bytes option" where
  "fd_null buffer = (if buffer = [] then None else Some buffer)"

text \<open>A set is copied back only into a buffer that has room for it.\<close>

definition fd_result :: "nat \<Rightarrow> bytes \<Rightarrow> bytes \<Rightarrow> bytes" where
  "fd_result fdbytes buffer out =
     (if buffer \<noteq> [] \<and> fdbytes \<le> length buffer then out @ drop fdbytes buffer else buffer)"

definition timeval_size :: nat where "timeval_size = 16"

text \<open>The reply carries what the three buffers of the client hold afterwards.\<close>

definition bsd_Select ::
    "nat \<Rightarrow> BsdAnswer \<Rightarrow> int \<Rightarrow> bytes \<Rightarrow> bytes \<Rightarrow> bytes \<Rightarrow> bytes \<Rightarrow> bst
       \<Rightarrow> ((bytes \<times> bytes \<times> bytes) reply \<times> bst) run" where
  "bsd_Select fdbytes a nfds readfds writefds exceptfds timeout = (\<lambda>(pool, b).
     if nfds < 0 then Inr (Reply (-1) (errno_code EINVAL) (readfds, writefds, exceptfds), pool, b)
     else
       let n = nat nfds;
           ins = (fd_null readfds, fd_null writefds, fd_null exceptfds);
           zero = \<lparr>fs_read = replicate fdbytes 0, fs_write = replicate fdbytes 0, fs_except = replicate fdbytes 0\<rparr>;
           fwd = \<lparr>fs_read = fd_copy fdbytes readfds, fs_write = fd_copy fdbytes writefds,
                  fs_except = fd_copy fdbytes exceptfds\<rparr> in
       bind_run (Select_scan ins [0..<n]
         \<lparr>sx_out = zero, sx_fwd = fwd, sx_ready = replicate n False, sx_real = False, sx_mitm = b\<rparr>) (\<lambda>x.
       let count = length (filter id (sx_ready x));
           finish = (\<lambda>out count b. Inr (Reply (int count) 0
             (fd_result fdbytes readfds (fs_read out), fd_result fdbytes writefds (fs_write out),
              fd_result fdbytes exceptfds (fs_except out)), pool, b)) in
       if \<not> sx_real x then finish (sx_out x) count (sx_mitm x)
       else
         let tv = (if timeval_size \<le> length timeout then Some (take timeval_size timeout) else None);
             f = sx_fwd x;
             b = forwarded (Fw_Select nfds tv (fs_read f) (fs_write f) (fs_except f)) (sx_mitm x) in
         if an_rc a \<noteq> ResultSuccess then Inr (IpcFailed (an_rc a), pool, b)
         else if an_ret a < 0 then Inr (Reply (an_ret a) (an_errno a) (readfds, writefds, exceptfds), pool, b)
         else
           let (r, w, e) = an_sets a;
               f = \<lparr>fs_read = stored_in (fs_read f) r, fs_write = stored_in (fs_write f) w,
                    fs_except = stored_in (fs_except f) e\<rparr> in
           bind_run (Select_merge f [0..<n] (sx_out x, sx_ready x, count)) (\<lambda>(out, ready, count).
             finish out count b)))"

end
