(* ===== verification/Bsd_Machine.thy ===== *)
theory Bsd_Machine
  imports Bsd_Mitm Proxy_Traffic
begin

text \<open>
  The socket service as a state machine: the invariant of the descriptor table and of the virtual sockets
  it points to, the step relation whose steps are the commands, the packets of the virtual network and the
  registration of a proxy, and the proof that every step keeps the invariant.
\<close>

section \<open>The invariant\<close>

definition vsock_of :: "nat \<Rightarrow> BsdMitmService \<Rightarrow> vsock option" where
  "vsock_of k b = se_virtual_socket (bm_socket_map b ! k)"

text \<open>The sockets of the registration \<open>g\<close> that the table points to.\<close>

definition held :: "nat \<Rightarrow> BsdMitmService \<Rightarrow> nat set" where
  "held g b = {i. \<exists>k < MaxSockets. vsock_of k b = Some (g, i)}"

definition table_ok :: "BsdMitmService \<Rightarrow> bool" where
  "table_ok b \<longleftrightarrow>
     length (bm_socket_map b) = MaxSockets
     \<and> (\<forall>k k' v. k < MaxSockets \<longrightarrow> k' < MaxSockets \<longrightarrow> vsock_of k b = Some v \<longrightarrow> vsock_of k' b = Some v \<longrightarrow> k = k')
     \<and> (\<forall>k v. k < MaxSockets \<longrightarrow> vsock_of k b = Some v \<longrightarrow> fst v < bm_registrations b)"

definition sockets_ok :: "BsdMitmService \<Rightarrow> bool" where
  "sockets_ok b \<longleftrightarrow>
     (\<forall>g px. bm_proxy b = Some (g, px) \<longrightarrow> g < bm_registrations b \<and> px_shape (held g b) px)
     \<and> (\<forall>g. map_option fst (bm_proxy b) \<noteq> Some g \<longrightarrow> held g b \<subseteq> dom (bm_gone b g))"

definition bsd_inv :: "bst \<Rightarrow> bool" where
  "bsd_inv st \<longleftrightarrow> pool_ready (fst st) \<and> table_ok (snd st) \<and> sockets_ok (snd st)"

lemma bsd_inv_new: "pool_ready pool \<Longrightarrow> bsd_inv (pool, BsdMitmService_new)"
  by (auto simp: bsd_inv_def table_ok_def sockets_ok_def held_def vsock_of_def BsdMitmService_new_def zero_entry_def)

lemma held_fields [simp]:
  "vsock_of k (b\<lparr>bm_proxy := p\<rparr>) = vsock_of k b" "vsock_of k (b\<lparr>bm_gone := q\<rparr>) = vsock_of k b"
  "vsock_of k (b\<lparr>bm_forwarded := r\<rparr>) = vsock_of k b" "vsock_of k (b\<lparr>bm_registrations := n\<rparr>) = vsock_of k b"
  "held g (b\<lparr>bm_proxy := p\<rparr>) = held g b" "held g (b\<lparr>bm_gone := q\<rparr>) = held g b"
  "held g (b\<lparr>bm_forwarded := r\<rparr>) = held g b" "held g (b\<lparr>bm_registrations := n\<rparr>) = held g b"
  by (simp_all add: held_def vsock_of_def)

lemma bsd_inv_forwarded [simp]: "bsd_inv (pool, forwarded r b) = bsd_inv (pool, b)"
  by (simp add: bsd_inv_def table_ok_def sockets_ok_def forwarded_def)

lemma bsd_inv_pool: "bsd_inv (pool, b) \<Longrightarrow> pool_ready pool' \<Longrightarrow> bsd_inv (pool', b)"
  by (simp add: bsd_inv_def)

section \<open>The table\<close>

lemma GetSocketEntry_lt: "GetSocketEntry fd = Some k \<Longrightarrow> k < MaxSockets"
  by (auto simp: GetSocketEntry_def split: if_splits)

lemma update_entry_fields [simp]:
  "bm_proxy (update_entry k f b) = bm_proxy b" "bm_gone (update_entry k f b) = bm_gone b"
  "bm_registrations (update_entry k f b) = bm_registrations b"
  "bm_forwarded (update_entry k f b) = bm_forwarded b"
  "length (bm_socket_map (update_entry k f b)) = length (bm_socket_map b)"
  by (simp_all add: update_entry_def)

lemma vsock_of_update:
  "k < length (bm_socket_map b) \<Longrightarrow> vsock_of j (update_entry k f b) =
     (if j = k then se_virtual_socket (f (bm_socket_map b ! k)) else vsock_of j b)"
  by (simp add: vsock_of_def update_entry_def nth_list_update)

text \<open>A change of an entry that keeps its socket, or drops it.\<close>

lemma bsd_inv_entry:
  assumes "bsd_inv (pool, b)" and "k < MaxSockets"
    and "se_virtual_socket (f (bm_socket_map b ! k)) = vsock_of k b"
  shows "bsd_inv (pool, update_entry k f b)"
proof -
  have "length (bm_socket_map b) = MaxSockets" using assms(1) by (simp add: bsd_inv_def table_ok_def)
  then have v: "vsock_of j (update_entry k f b) = vsock_of j b" for j
    using assms(2,3) by (simp add: vsock_of_update)
  then have "held g (update_entry k f b) = held g b" for g by (simp add: held_def)
  with v assms(1) show ?thesis by (simp add: bsd_inv_def table_ok_def sockets_ok_def)
qed

lemma px_shape_mono: "px_shape R px \<Longrightarrow> R' \<subseteq> R \<Longrightarrow> px_shape R' px"
  unfolding px_shape_def by simp blast

lemma bsd_inv_drop:
  assumes "bsd_inv (pool, b)" and "k < MaxSockets" and "se_virtual_socket (f (bm_socket_map b ! k)) = None"
  shows "bsd_inv (pool, update_entry k f b)"
proof -
  have "length (bm_socket_map b) = MaxSockets" using assms(1) by (simp add: bsd_inv_def table_ok_def)
  then have v: "vsock_of j (update_entry k f b) = (if j = k then None else vsock_of j b)" for j
    using assms(2,3) by (simp add: vsock_of_update)
  then have h: "held g (update_entry k f b) \<subseteq> held g b" for g by (auto simp: held_def split: if_splits)
  have "sockets_ok (update_entry k f b)"
    using assms(1) px_shape_mono [OF _ h] h by (fastforce simp: bsd_inv_def sockets_ok_def)
  moreover have "table_ok (update_entry k f b)"
    using assms(1) by (auto simp: bsd_inv_def table_ok_def v split: if_splits)
  ultimately show ?thesis using assms(1) by (simp add: bsd_inv_def)
qed

section \<open>Virtual sockets\<close>

text \<open>The socket that \<open>GetVirtualSocket\<close> makes belongs to nobody.\<close>

lemma px_shape_own:
  assumes "px_shape R px" and "socket_create d t p px = (i, px')"
  shows "px_shape (insert i R) (RegisterSocket i px')" and "i \<notin> R"
proof -
  have new: "px_shape R px'" using px_inv_create [OF assms(1), of d t p] assms(2) by simp
  have px': "i = px_next px" "px_heap px' = (px_heap px)(i \<mapsto> LdnProxySocket_new d t p)"
    using assms(2) by (auto simp: socket_create_def RegisterSocket_def Let_def)
  have lt: "\<forall>j \<in> dom (px_heap px). j < i" using assms(1) px'(1) by (simp add: px_shape_def)
  show "i \<notin> R" using assms(1) lt by (auto simp: px_shape_def)
  have "i \<notin> set (ps_listenSockets s)" if "px_heap px' j = Some s" for j s
  proof (cases "j = i")
    case True
    with that px' show ?thesis by (auto simp: new_socket)
  next
    case False
    with that px'(2) have "px_heap px j = Some s" by simp
    with px_invD(3) [OF assms(1)] lt show ?thesis by (fastforce simp: children_ok_def)
  qed
  with new px' show "px_shape (insert i R) (RegisterSocket i px')"
    by (auto simp: px_shape_def RegisterSocket_def live_def children_ok_def new_socket)
qed

lemma GetVirtualSocket_inv:
  assumes "bsd_inv (pool, b)" and "GetVirtualSocket fd b = (r, b')"
  shows "bsd_inv (pool, b')"
    and "r = Some v \<Longrightarrow> \<exists>k. GetSocketEntry fd = Some k \<and> vsock_of k b' = Some v"
    and "map_option fst (bm_proxy b') = map_option fst (bm_proxy b)" and "bm_forwarded b' = bm_forwarded b"
proof -
  have "bsd_inv (pool, b') \<and> (r = Some v \<longrightarrow> (\<exists>k. GetSocketEntry fd = Some k \<and> vsock_of k b' = Some v))
      \<and> map_option fst (bm_proxy b') = map_option fst (bm_proxy b) \<and> bm_forwarded b' = bm_forwarded b"
  proof (cases "\<exists>k g px. GetSocketEntry fd = Some k \<and> vsock_of k b = None \<and> bm_proxy b = Some (g, px)")
    case False
    with assms show ?thesis by (auto simp: GetVirtualSocket_def vsock_of_def Let_def split: option.splits)
  next
    case True
    then obtain k g px where k: "GetSocketEntry fd = Some k" "vsock_of k b = None" "bm_proxy b = Some (g, px)" by blast
    let ?e = "bm_socket_map b ! k"
    obtain i px' where c: "socket_create (sint (se_address_family ?e)) (sint (se_socket_type ?e)) (se_protocol_type ?e) px = (i, px')"
      by force
    have lt: "k < MaxSockets" using GetSocketEntry_lt [OF k(1)] .
    have len: "length (bm_socket_map b) = MaxSockets" using assms(1) by (simp add: bsd_inv_def table_ok_def)
    have b': "b' = update_entry k (\<lambda>e. e\<lparr>se_virtual_socket := Some (g, i)\<rparr>) (b\<lparr>bm_proxy := Some (g, RegisterSocket i px')\<rparr>)"
      and r: "r = Some (g, i)"
      using assms(2) k c by (auto simp: GetVirtualSocket_def vsock_of_def Let_def)
    have v: "vsock_of j b' = (if j = k then Some (g, i) else vsock_of j b)" for j
      using lt len by (simp add: b' vsock_of_update)
    have shape: "px_shape (held g b) px" "g < bm_registrations b"
      using assms(1) k(3) by (auto simp: bsd_inv_def sockets_ok_def)
    note own = px_shape_own [OF shape(1) c]
    have v1: "vsock_of j b' = Some (g', x) \<longleftrightarrow> vsock_of j b = Some (g', x) \<or> j = k \<and> g' = g \<and> x = i" for j g' x
      using k(2) by (auto simp: v)
    have h1: "held g b' = insert i (held g b)" using lt by (auto simp: held_def v1)
    have h2: "held g' b' = held g' b" if "g' \<noteq> g" for g' using that by (auto simp: held_def v1)
    have fresh: "vsock_of j b \<noteq> Some (g, i)" if "j < MaxSockets" for j
      using own(2) that by (auto simp: held_def)
    have f: "length (bm_socket_map b') = MaxSockets" "bm_registrations b' = bm_registrations b"
      "bm_gone b' = bm_gone b" "bm_proxy b' = Some (g, RegisterSocket i px')" "bm_forwarded b' = bm_forwarded b"
      by (simp_all add: b' len)
    have "table_ok b'"
      using assms(1) shape(2) fresh unfolding bsd_inv_def table_ok_def f v by (auto split: if_splits)
    moreover have "sockets_ok b'"
      using assms(1) k(3) own(1) h1 h2 shape(2) by (auto simp: bsd_inv_def sockets_ok_def f)
    ultimately show ?thesis
      using assms(1) k(1,3) r v by (simp add: bsd_inv_def f)
  qed
  then show "bsd_inv (pool, b')" "r = Some v \<Longrightarrow> \<exists>k. GetSocketEntry fd = Some k \<and> vsock_of k b' = Some v"
    "map_option fst (bm_proxy b') = map_option fst (bm_proxy b)" "bm_forwarded b' = bm_forwarded b" by blast+
qed

section \<open>Calls\<close>

lemma vsock_get_ok:
  assumes "bsd_inv (pool, b)" and "k < MaxSockets" and "vsock_of k b = Some v"
  shows "\<exists>s. vsock_get v b = Inr s"
proof -
  obtain g i where v: "v = (g, i)" by force
  have i: "i \<in> held g b" using assms(2,3) v by (auto simp: held_def)
  show ?thesis
  proof (cases "\<exists>px. bm_proxy b = Some (g, px)")
    case True
    then obtain px where px: "bm_proxy b = Some (g, px)" by blast
    then have "i \<in> dom (px_heap px)"
      using assms(1) i by (auto simp: bsd_inv_def sockets_ok_def px_shape_def)
    with px v show ?thesis by (auto simp: vsock_get_def)
  next
    case False
    then have "i \<in> dom (bm_gone b g)" using assms(1) i by (fastforce simp: bsd_inv_def sockets_ok_def)
    with False v show ?thesis by (auto simp: vsock_get_def split: option.splits)
  qed
qed

lemma vsock_put_inv:
  assumes "bsd_inv (pool, b)" and "vsock_get v b = Inr s"
    and "ps_closed s' = ps_closed s" and "ps_listenSockets s' = ps_listenSockets s"
  shows "bsd_inv (pool, vsock_put v s' b)"
    and "bm_socket_map (vsock_put v s' b) = bm_socket_map b" and "bm_forwarded (vsock_put v s' b) = bm_forwarded b"
    and "map_option fst (bm_proxy (vsock_put v s' b)) = map_option fst (bm_proxy b)"
proof -
  show f: "bm_socket_map (vsock_put v s' b) = bm_socket_map b" "bm_forwarded (vsock_put v s' b) = bm_forwarded b"
    "map_option fst (bm_proxy (vsock_put v s' b)) = map_option fst (bm_proxy b)"
    by (auto simp: vsock_put_def Let_def split: option.splits)
  have h: "held g (vsock_put v s' b) = held g b" "vsock_of k (vsock_put v s' b) = vsock_of k b" for g k
    by (simp_all add: held_def vsock_of_def f)
  have r: "bm_registrations (vsock_put v s' b) = bm_registrations b"
    by (auto simp: vsock_put_def Let_def split: option.splits)
  have "sockets_ok (vsock_put v s' b)"
  proof (cases "\<exists>px. bm_proxy b = Some (fst v, px)")
    case True
    then obtain px where px: "bm_proxy b = Some (fst v, px)" by blast
    then have "px_heap px (snd v) = Some s" using assms(2) by (auto simp: vsock_get_def split: option.splits)
    then have "px_shape (held (fst v) b) px \<Longrightarrow> px_shape (held (fst v) b) (store (snd v) s' px)"
      using px_inv_update [OF _ _ assms(3,4)] by blast
    with px assms(1) show ?thesis
      unfolding sockets_ok_def h r by (auto simp: vsock_put_def bsd_inv_def sockets_ok_def)
  next
    case False
    have "bm_gone b g \<subseteq>\<^sub>m bm_gone b g \<Longrightarrow> dom (bm_gone b g) \<subseteq> dom (bm_gone (vsock_put v s' b) g)" for g
      by (auto simp: vsock_put_def Let_def split: option.splits)
    then have "dom (bm_gone b g) \<subseteq> dom (bm_gone (vsock_put v s' b) g)" for g by simp
    moreover have "bm_proxy (vsock_put v s' b) = bm_proxy b"
      using False by (auto simp: vsock_put_def Let_def split: option.splits)
    ultimately show ?thesis
      using assms(1) unfolding bsd_inv_def sockets_ok_def h r by (metis order_trans snd_conv)
  qed
  then show "bsd_inv (pool, vsock_put v s' b)"
    using assms(1) unfolding bsd_inv_def table_ok_def by (simp add: h r f)
qed

lemma call_socket_inv:
  assumes "bsd_inv (pool, b)" and "call_socket f v b = Inr (r, b')"
    and "\<And>s. ps_closed (snd (f s)) = ps_closed s" and "\<And>s. ps_listenSockets (snd (f s)) = ps_listenSockets s"
  shows "bsd_inv (pool, b')" and "bm_forwarded b' = bm_forwarded b"
proof -
  obtain s where s: "vsock_get v b = Inr s" "b' = vsock_put v (snd (f s)) b"
    using assms(2) by (fastforce simp: call_socket_def bind_run_Inr_iff split_beta Let_def)
  with vsock_put_inv [OF assms(1) s(1) assms(3,4)] show "bsd_inv (pool, b')" "bm_forwarded b' = bm_forwarded b"
    by simp_all
qed

text \<open>A call through the proxy, for an operation that keeps the shape of the proxy.\<close>

lemma call_proxy_inv:
  assumes "bsd_inv (pool, b)" and "call_proxy f v (pool, b) = Inr (r, pool', b')"
    and "\<And>R pool px r st. st_shape R (pool, px) \<Longrightarrow> f (snd v) (pool, px) = Inr (r, st) \<Longrightarrow> st_shape R st"
  shows "bsd_inv (pool', b')" and "bm_socket_map b' = bm_socket_map b" and "bm_forwarded b' = bm_forwarded b"
    and "map_option fst (bm_proxy b') = map_option fst (bm_proxy b)"
proof -
  obtain px px' where c: "bm_proxy b = Some (fst v, px)" "f (snd v) (pool, px) = Inr (r, pool', px')"
      "b' = b\<lparr>bm_proxy := Some (fst v, px')\<rparr>"
    using assms(2) by (auto simp: call_proxy_def bind_run_Inr_iff split: option.splits if_splits)
  have "st_shape (held (fst v) b) (pool, px)"
    using assms(1) c(1) by (auto simp: bsd_inv_def sockets_ok_def st_shape_def)
  from assms(3) [OF this c(2)] show "bsd_inv (pool', b')"
    using assms(1) c(1) by (auto simp: c(3) bsd_inv_def st_shape_def table_ok_def sockets_ok_def)
  show "bm_socket_map b' = bm_socket_map b" "bm_forwarded b' = bm_forwarded b"
    "map_option fst (bm_proxy b') = map_option fst (bm_proxy b)" by (simp_all add: c)
qed

section \<open>The commands keep the invariant\<close>

lemma forward_inv: "bsd_inv st \<Longrightarrow> bsd_inv (snd (forward a req st))"
  by (cases st) (simp add: forward_def)

lemma mark_virtual_inv: "bsd_inv (pool, b) \<Longrightarrow> k < MaxSockets \<Longrightarrow> bsd_inv (pool, mark_virtual k b)"
  unfolding mark_virtual_def by (rule bsd_inv_entry) (simp_all add: vsock_of_def)

lemma Socket_inv: "bsd_inv (pool, b) \<Longrightarrow> bsd_inv (pool, snd (bsd_Socket a d t p b))"
  by (auto simp: bsd_Socket_def Let_def intro!: bsd_inv_drop)

lemma bsd_Bind_inv:
  assumes "bsd_inv st" and "bsd_Bind a fd addr st = Inr (r, st')"
  shows "bsd_inv st'"
proof -
  obtain pool b where st: "st = (pool, b)" by force
  show ?thesis
  proof (cases "\<exists>sa k. sockaddr_at addr = Some sa \<and> sin_family sa = AF_INET \<and> isVirtualBind sa b
      \<and> EnsureProxyAvailable b \<and> GetSocketEntry fd = Some k")
    case False
    with assms st forward_inv [OF assms(1), of a "Fw_Bind fd addr"] show ?thesis
      by (auto simp: bsd_Bind_def split: option.splits if_splits)
  next
    case True
    then obtain sa k where k: "sockaddr_at addr = Some sa" "sin_family sa = AF_INET" "isVirtualBind sa b"
        "EnsureProxyAvailable b" "GetSocketEntry fd = Some k" by blast
    obtain vs b1 where g: "GetVirtualSocket fd (mark_virtual k b) = (vs, b1)" by force
    have i1: "bsd_inv (pool, b1)"
      using GetVirtualSocket_inv(1) [OF mark_virtual_inv g] assms(1) st GetSocketEntry_lt [OF k(5)] by simp
    show ?thesis
    proof (cases vs)
      case None
      with assms(2) st k g i1 show ?thesis by (auto simp: bsd_Bind_def)
    next
      case (Some v)
      define sa' where "sa' = (if sin_addr sa = 0 then sa\<lparr>sin_addr := htonl (proxy_local_ip b1)\<rparr> else sa)"
      have "call_proxy (\<lambda>i (pool, px). bind_run (Bind (Some sa') i px) (\<lambda>px. Inr ((), pool, px))) v (pool, b1)
          = Inr ((), st')"
        using assms(2) st k g Some by (auto simp: bsd_Bind_def Let_def bind_run_Inr_iff sa'_def)
      then show ?thesis
        by (cases st') (auto elim!: call_proxy_inv(1) [OF i1] simp: bind_run_Inr_iff st_shape_def intro: Bind_inv)
    qed
  qed
qed

lemma bsd_Connect_inv:
  assumes "bsd_inv st" and "bsd_Connect a answer fd addr st = Inr (Some (r, st'))"
  shows "bsd_inv st'"
proof -
  obtain pool b where st: "st = (pool, b)" by force
  show ?thesis
  proof (cases "\<exists>sa k. sockaddr_at addr = Some sa \<and> sin_family sa = AF_INET \<and> IsRyuLdnVirtualIP (ntohl (sin_addr sa)) b
      \<and> EnsureProxyAvailable b \<and> GetSocketEntry fd = Some k")
    case False
    with assms st forward_inv [OF assms(1), of a "Fw_Connect fd addr"] show ?thesis
      by (auto simp: bsd_Connect_def split: option.splits if_splits)
  next
    case True
    then obtain sa k where k: "sockaddr_at addr = Some sa" "sin_family sa = AF_INET"
        "IsRyuLdnVirtualIP (ntohl (sin_addr sa)) b" "EnsureProxyAvailable b" "GetSocketEntry fd = Some k" by blast
    obtain vs b1 where g: "GetVirtualSocket fd (mark_virtual k b) = (vs, b1)" by force
    have i1: "bsd_inv (pool, b1)"
      using GetVirtualSocket_inv(1) [OF mark_virtual_inv g] assms(1) st GetSocketEntry_lt [OF k(5)] by simp
    show ?thesis
    proof (cases vs)
      case None
      with assms(2) st k g i1 show ?thesis by (auto simp: bsd_Connect_def)
    next
      case (Some v)
      let ?f = "\<lambda>i (pool, px). bind_run (Connect answer (Some sa) i (pool, px)) (\<lambda>r.
                  case r of None \<Rightarrow> Inr (False, pool, px) | Some st \<Rightarrow> Inr (True, st))"
      have "call_proxy ?f v (pool, b1) = Inr (True, st')"
        using assms(2) st k g Some by (auto simp: bsd_Connect_def Let_def bind_run_Inr_iff split: if_splits)
      moreover have "st_shape R st" if "st_shape R (pool, px)" "?f i (pool, px) = Inr (r, st)" for R pool px i r st
        using that(2) Connect_inv [OF that(1)] that(1) by (auto simp: bind_run_Inr_iff split: option.splits)
      ultimately show ?thesis by (cases st') (auto elim!: call_proxy_inv(1) [OF i1])
    qed
  qed
qed

lemma Receive_keeps:
  assumes "\<And>s. ps_closed (wait s) = ps_closed s" and "\<And>s. ps_listenSockets (wait s) = ps_listenSockets s"
  shows "ps_closed (snd (Receive wait n flags s)) = ps_closed s"
    and "ps_listenSockets (snd (Receive wait n flags s)) = ps_listenSockets s"
  using ReceiveFrom_keeps [of wait s n flags, OF assms]
  by (auto simp: Receive_def split: prod.splits)

lemma bsd_Send_inv:
  assumes "bsd_inv st" and "bsd_Send a fd data flags st = Inr (r, st')"
  shows "bsd_inv st'"
proof -
  obtain pool b vs b1 where st: "st = (pool, b)" "GetVirtualSocket fd b = (vs, b1)" by force
  have i1: "bsd_inv (pool, b1)" using GetVirtualSocket_inv(1) [OF _ st(2)] assms(1) st(1) by simp
  show ?thesis
    using assms st(2) i1 forward_inv [OF assms(1), of a "Fw_Send fd data flags"] unfolding st(1)
    by (auto simp: bsd_Send_def bind_run_Inr_iff split: if_splits option.splits
        elim!: call_proxy_inv(1) [OF i1] intro: Send_inv)
qed

lemma bsd_SendTo_inv:
  assumes "bsd_inv st" and "bsd_SendTo a fd data flags addr st = Inr (r, st')"
  shows "bsd_inv st'"
proof -
  obtain pool b vs b1 where st: "st = (pool, b)" "GetVirtualSocket fd b = (vs, b1)" by force
  have i1: "bsd_inv (pool, b1)" using GetVirtualSocket_inv(1) [OF _ st(2)] assms(1) st(1) by simp
  show ?thesis
    using assms st(2) i1 forward_inv [OF assms(1), of a "Fw_SendTo fd data flags addr"] unfolding st(1)
    by (auto simp: bsd_SendTo_def bind_run_Inr_iff split: if_splits option.splits
        elim!: call_proxy_inv(1) [OF i1] intro: SendTo_inv)
qed

lemma bsd_Recv_inv:
  assumes "bsd_inv st" and "bsd_Recv a wait fd n flags st = Inr (r, st')"
    and "\<And>s. ps_closed (wait s) = ps_closed s" and "\<And>s. ps_listenSockets (wait s) = ps_listenSockets s"
  shows "bsd_inv st'"
proof -
  obtain pool b vs b1 where st: "st = (pool, b)" "GetVirtualSocket fd b = (vs, b1)" by force
  have i1: "bsd_inv (pool, b1)" using GetVirtualSocket_inv(1) [OF _ st(2)] assms(1) st(1) by simp
  show ?thesis
    using assms(1,2) st(2) i1 call_socket_inv(1) [OF i1 _ Receive_keeps [OF assms(3,4)]] unfolding st(1)
    by (auto simp: bsd_Recv_def bind_run_Inr_iff split: if_splits option.splits)
qed

lemma bsd_RecvFrom_inv:
  assumes "bsd_inv st" and "bsd_RecvFrom a wait fd n flags m st = Inr (r, st')"
    and "\<And>s. ps_closed (wait s) = ps_closed s" and "\<And>s. ps_listenSockets (wait s) = ps_listenSockets s"
  shows "bsd_inv st'"
proof -
  obtain pool b vs b1 where st: "st = (pool, b)" "GetVirtualSocket fd b = (vs, b1)" by force
  have i1: "bsd_inv (pool, b1)" using GetVirtualSocket_inv(1) [OF _ st(2)] assms(1) st(1) by simp
  show ?thesis
    using assms(1,2) st(2) i1 call_socket_inv(1) [OF i1 _ ReceiveFrom_keeps [of wait, OF assms(3,4)]] unfolding st(1)
    by (auto simp: bsd_RecvFrom_def bind_run_Inr_iff Let_def split: if_splits option.splits)
qed

lemma virtual_only_inv:
  assumes "bsd_inv st" and "virtual_only fd none act st = Inr (r, st')"
    and "\<And>v pool b r st'. bsd_inv (pool, b) \<Longrightarrow> act v (pool, b) = Inr (r, st') \<Longrightarrow> bsd_inv st'"
  shows "bsd_inv st'"
proof -
  obtain pool b vs b1 where st: "st = (pool, b)" "GetVirtualSocket fd b = (vs, b1)" by force
  have i1: "bsd_inv (pool, b1)" using GetVirtualSocket_inv(1) [OF _ st(2)] assms(1) st(1) by simp
  show ?thesis
    using assms(1,2) st(2) i1 assms(3) [OF i1] unfolding st(1)
    by (auto simp: virtual_only_def split: if_splits option.splits)
qed

lemma BsdAccept_inv:
  assumes "st_shape R (pool, px)" and "BsdAccept ok wakes addr_set i (pool, px) = Inr (r, st)"
  shows "st_shape R st"
proof -
  obtain s where s: "deref i px = Inr s" using assms(2) by (auto simp: BsdAccept_def bind_run_Inr_iff)
  show ?thesis
  proof (cases "ps_isListening s")
    case True
    then obtain q pool1 px1 where a: "Accept ok wakes i (pool, px) = Inr (q, pool1, px1)"
      using assms(2) s by (auto simp: BsdAccept_def bind_run_Inr_iff)
    have "st = (pool1, px1)"
      using assms(2) s True a by (cases q) (auto simp: BsdAccept_def bind_run_Inr_iff)
    with Accept_inv [OF assms(1) a] show ?thesis by simp
  qed (use assms s in \<open>auto simp: BsdAccept_def\<close>)
qed

lemma bsd_Accept_inv:
  assumes "bsd_inv st" and "bsd_Accept ok wakes fd n st = Inr (r, st')"
  shows "bsd_inv st'"
proof -
  have act_ok: "bsd_inv st'" if i: "bsd_inv (pool, b)" and act: "bind_run (call_proxy (BsdAccept ok wakes True) v (pool, b)) (\<lambda>(r, pool, b).
         case r of
           None \<Rightarrow> Inr (None, pool, b)
         | Some (new_fd, err, client_addr) \<Rightarrow>
             if new_fd < 0 then Inr (Some (Reply (-1) (errno_code err) (0, [])), pool, b)
             else
               let entry = bm_socket_map b ! nat fd;
                   addr = (case client_addr of None \<Rightarrow> [] | Some sa \<Rightarrow> put_sockaddr sa);
                   b = (case GetSocketEntry new_fd of
                          None \<Rightarrow> b
                        | Some k \<Rightarrow>
                            update_entry k (\<lambda>e. e\<lparr>se_type := SocketType_Virtual,
                              se_address_family := se_address_family entry, se_socket_type := se_socket_type entry,
                              se_protocol_type := se_protocol_type entry\<rparr>) b) in
               Inr (Some (Reply new_fd 0 (of_nat sockaddr_size, if sockaddr_size \<le> n then addr else [])),
                    pool, b)) = Inr (r, st')" for v pool b r st'
  proof -
    obtain q pool1 b1 where c: "call_proxy (BsdAccept ok wakes True) v (pool, b) = Inr (q, pool1, b1)"
      using act by (auto simp: bind_run_Inr_iff)
    have i1: "bsd_inv (pool1, b1)" using call_proxy_inv(1) [OF i c] BsdAccept_inv by blast
    moreover have "bsd_inv (pool1, update_entry k f b1)"
      if "GetSocketEntry fd' = Some k" "se_virtual_socket (f (bm_socket_map b1 ! k)) = vsock_of k b1" for fd' k f
      using bsd_inv_entry [where f = f and k = k, OF i1 GetSocketEntry_lt [OF that(1)] that(2)] .
    ultimately show "bsd_inv st'"
      using act c by (auto simp: Let_def vsock_of_def split: option.splits if_splits)
  qed
  show ?thesis
    by (rule virtual_only_inv [OF assms(1) assms(2) [unfolded bsd_Accept_def]]) (simp only: prod.case, rule act_ok)
qed

lemma virtual_call_inv:
  assumes "bsd_inv st" and "virtual_call fd f st = Inr (r, st')"
    and "\<And>s. ps_closed (snd (f s)) = ps_closed s" and "\<And>s. ps_listenSockets (snd (f s)) = ps_listenSockets s"
  shows "bsd_inv st'"
  using assms(2) unfolding virtual_call_def
  by (rule virtual_only_inv [OF assms(1)])
    (auto simp: bind_run_Inr_iff dest: call_socket_inv(1) [OF _ _ assms(3,4)])

lemma bsd_GetSockOpt_inv:
  assumes "bsd_inv st" and "bsd_GetSockOpt fd opt n st = Inr (r, st')"
  shows "bsd_inv st'"
proof -
  let ?f = "\<lambda>s. (BsdGetSocketOption opt (0 < n) (Some n) s, s)"
  have act_ok: "bsd_inv st'" if i: "bsd_inv (pool, b)" and act: "bind_run (call_socket ?f v b) (\<lambda>((result, err, stored), b).
      Inr (Some (if result < 0 then Reply (-1) (errno_code err) (0, [])
                       else case stored of
                              None \<Rightarrow> Reply 0 0 (of_nat n, [])
                            | Some (value, len) \<Rightarrow> Reply 0 0 (of_nat len, put32 (word_of_int value))), pool, b)) = Inr (r, st')"
    for v pool b r st'
  proof -
    obtain q b1 where "call_socket ?f v b = Inr (q, b1)" "st' = (pool, b1)" using act by (auto simp: bind_run_Inr_iff)
    with call_socket_inv(1) [OF i this(1)] show ?thesis by simp
  qed
  show ?thesis
    by (rule virtual_only_inv [OF assms(1) assms(2) [unfolded bsd_GetSockOpt_def]]) (simp only: prod.case, rule act_ok)
qed

lemma bsd_option_calls_inv:
  assumes "bsd_inv st"
  shows "bsd_Listen fd backlog st = Inr (r, st') \<Longrightarrow> bsd_inv st'"
    and "bsd_Fcntl fd cmd flags st = Inr (r, st') \<Longrightarrow> bsd_inv st'"
    and "bsd_SetSockOpt fd opt val st = Inr (r, st') \<Longrightarrow> bsd_inv st'"
    and "bsd_Shutdown fd how st = Inr (r, st') \<Longrightarrow> bsd_inv st'"
  unfolding bsd_Listen_def bsd_Fcntl_def bsd_SetSockOpt_def bsd_Shutdown_def
  by (erule virtual_call_inv [OF assms];
      simp add: BsdListen_def BsdShutdown_def socket_ops_keep BsdSetSocketOption_keeps)+

lemma Poll_scan_inv:
  "bsd_inv (pool, b) \<Longrightarrow> Poll_scan ps b = Inr (r, b') \<Longrightarrow> bsd_inv (pool, b')"
proof (induction ps arbitrary: b r)
  case (Cons p ps)
  obtain vs b1 where g: "GetVirtualSocket (pf_fd p) b = (vs, b1)" by force
  note i1 = GetVirtualSocket_inv(1) [OF Cons.prems(1) g]
  have "\<exists>b0 r0. bsd_inv (pool, b0) \<and> (Poll_scan ps b0 = Inr (r0, b') \<or> b0 = b')"
    using Cons.prems g i1 by (auto simp: bind_run_Inr_iff Let_def split: if_splits option.splits)
  with Cons.IH show ?case by blast
qed simp

lemma bsd_Poll_inv:
  assumes "bsd_inv st" and "bsd_Poll a ps n timeout st = Inr (r, st')"
  shows "bsd_inv st'"
proof (cases "n = 0 \<or> length ps < unat n")
  case True
  with assms show ?thesis by (cases st) (auto simp: bsd_Poll_def split: if_splits)
next
  case False
  obtain pool b where st: "st = (pool, b)" by force
  obtain q b1 where q: "Poll_scan (take (unat n) ps) b = Inr (q, b1)"
    using assms(2) False unfolding st by (auto simp: bsd_Poll_def bind_run_Inr_iff Let_def)
  have i1: "bsd_inv (pool, b1)" using Poll_scan_inv [OF _ q] assms(1) st by simp
  show ?thesis
  proof (cases q)
    case None
    with assms(2) False q i1 show ?thesis unfolding st by (auto simp: bsd_Poll_def)
  next
    case (Some x)
    obtain qs real m where x: "x = (qs, real, m)" by (cases x)
    have "st' = (pool, b1) \<or> st' = (pool, forwarded (Fw_Poll (to_forward (take (unat n) ps) real) timeout) b1)"
      using assms(2) False q Some x unfolding st by (auto simp: bsd_Poll_def Let_def split_beta split: if_splits)
    with i1 show ?thesis by auto
  qed
qed

lemma Select_fd_inv:
  assumes "bsd_inv (pool, sx_mitm x)" and "Select_fd ins fd x = Inr x'"
  shows "bsd_inv (pool, sx_mitm x')"
proof -
  obtain vs b1 where g: "GetVirtualSocket (int fd) (sx_mitm x) = (vs, b1)" by force
  note i1 = GetVirtualSocket_inv(1) [OF assms(1) g]
  obtain rd wr ex where "ins = (rd, wr, ex)" by (cases ins)
  then show ?thesis
    using assms g i1 by (auto simp: Select_fd_def bind_run_Inr_iff Let_def split: if_splits option.splits)
qed

lemma Select_scan_inv:
  "bsd_inv (pool, sx_mitm x) \<Longrightarrow> Select_scan ins fds x = Inr x' \<Longrightarrow> bsd_inv (pool, sx_mitm x')"
proof (induction fds arbitrary: x)
  case (Cons fd fds)
  then obtain x1 where "Select_fd ins fd x = Inr x1" "Select_scan ins fds x1 = Inr x'"
    by (auto simp: bind_run_Inr_iff)
  with Cons.IH Select_fd_inv [OF Cons.prems(1)] show ?case by blast
qed simp

lemma bsd_Select_inv:
  assumes "bsd_inv st" and "bsd_Select fdbytes a nfds rd wr ex timeout st = Inr (r, st')"
  shows "bsd_inv st'"
proof (cases "nfds < 0")
  case True
  with assms show ?thesis by (cases st) (simp add: bsd_Select_def)
next
  case False
  obtain pool b where st: "st = (pool, b)" by force
  define x0 where "x0 = \<lparr>sx_out = \<lparr>fs_read = replicate fdbytes 0, fs_write = replicate fdbytes 0, fs_except = replicate fdbytes 0\<rparr>,
      sx_fwd = \<lparr>fs_read = fd_copy fdbytes rd, fs_write = fd_copy fdbytes wr, fs_except = fd_copy fdbytes ex\<rparr>,
      sx_ready = replicate (nat nfds) False, sx_real = False, sx_mitm = b\<rparr>"
  obtain x where x: "Select_scan (fd_null rd, fd_null wr, fd_null ex) [0..<nat nfds] x0 = Inr x"
    using assms(2) False unfolding st by (auto simp: bsd_Select_def Let_def bind_run_Inr_iff x0_def)
  have "bsd_inv (pool, sx_mitm x)"
    by (rule Select_scan_inv [OF _ x]) (use assms(1) st in \<open>simp add: x0_def\<close>)
  moreover have "\<exists>q. st' = (pool, sx_mitm x) \<or> st' = (pool, forwarded q (sx_mitm x))"
    using assms(2) False x unfolding st
    by (auto simp: bsd_Select_def Let_def x0_def bind_run_Inr_iff split: if_splits prod.splits)
  ultimately show ?thesis by auto
qed

section \<open>Closing\<close>

text \<open>A held socket can be deleted: it returns, and what is left is well formed without it.\<close>

lemma socket_delete_returns:
  assumes "st_shape R (pool, px)" and "i \<in> R"
  shows "\<exists>pool' px'. socket_delete i (pool, px) = Inr ((), pool', px') \<and> st_shape (R - {i}) (pool', px')
     \<and> px_heap px' i = None \<and> i \<notin> set (px_sockets px')"
proof -
  have px: "px_shape R px" "pool_ready pool" using assms(1) by (simp_all add: st_shape_def)
  have "i \<in> dom (px_heap px)" using px(1) assms(2) by (auto simp: px_shape_def)
  then obtain pool1 px1 s where c: "Close i (pool, px) = Inr (pool1, px1)" "px_shape R px1"
      "pool_kept pool pool1" "px_heap px1 i = Some s" "ps_closed s"
    using Close_returns [OF px] by blast
  have out: "i \<notin> set (px_sockets px1)" by (rule px_invD(2) [OF c(2,4,5)])
  let ?px = "px1\<lparr>px_heap := (px_heap px1)(i := None)\<rparr>"
  have "i \<notin> set (ps_listenSockets t)" if "px_heap px1 j = Some t" for j t
    using px_invD(4) [OF c(2) that] assms(2) by auto
  then have "px_shape (R - {i}) ?px"
    using c(2) out unfolding px_shape_def children_ok_def live_def by (auto 0 3)
  moreover have "pool_ready pool1" using pool_kept_ready [OF px(2) c(3)] .
  ultimately show ?thesis using c(1) out by (simp add: socket_delete_def st_shape_def)
qed

lemma bsd_Close_vsock:
  assumes "bsd_inv (pool, b)" and "GetSocketEntry fd = Some k"
    and "is_virtual fd b" and "vsock_of k b = Some (g, i)" and "bm_proxy b = Some (g, px)"
  shows "\<exists>pool' b' px'. bsd_Close a fd (pool, b) = Inr (forward a (Fw_Close fd) (pool', b'))
     \<and> bsd_inv (pool', b') \<and> bm_socket_map b' = (bm_socket_map b)[k := forget_entry (bm_socket_map b ! k)]
     \<and> bm_proxy b' = Some (g, px') \<and> px_heap px' i = None \<and> i \<notin> set (px_sockets px')
     \<and> bm_forwarded b' = bm_forwarded b"
proof -
  have lt: "k < MaxSockets" using GetSocketEntry_lt [OF assms(2)] .
  have len: "length (bm_socket_map b) = MaxSockets" using assms(1) by (simp add: bsd_inv_def table_ok_def)
  have "i \<in> held g b" using lt assms(4) by (auto simp: held_def)
  moreover have "st_shape (held g b) (pool, UnregisterSocket i px)"
    using assms(1,5) by (auto simp: bsd_inv_def sockets_ok_def st_shape_def px_shape_unregister)
  ultimately obtain pool' px' where d: "socket_delete i (pool, UnregisterSocket i px) = Inr ((), pool', px')"
      "st_shape (held g b - {i}) (pool', px')" "px_heap px' i = None" "i \<notin> set (px_sockets px')"
    using socket_delete_returns by blast
  let ?b = "update_entry k forget_entry (b\<lparr>bm_proxy := Some (g, px')\<rparr>)"
  have v: "vsock_of j ?b = (if j = k then None else vsock_of j b)" for j
    using lt len by (simp add: vsock_of_update forget_entry_def)
  have one: "j = k" if "j < MaxSockets" "vsock_of j b = Some (g, i)" for j
    using assms(1,4) lt that unfolding bsd_inv_def table_ok_def by auto
  have v1: "vsock_of j ?b = Some (g', x) \<longleftrightarrow> vsock_of j b = Some (g', x) \<and> (g', x) \<noteq> (g, i)"
    if "j < MaxSockets" for j g' x
  proof (cases "j = k")
    case True
    then show ?thesis by (auto simp: v assms(4))
  next
    case False
    then have "vsock_of j b \<noteq> Some (g, i)" using one [OF that] by blast
    with False show ?thesis by (auto simp: v)
  qed
  have h: "held g ?b = held g b - {i}" by (auto simp: held_def v1)
  have h': "held g' ?b = held g' b" if "g' \<noteq> g" for g' using that by (auto simp: held_def v1)
  have "sockets_ok ?b"
    using assms(1,5) d(2) h h' by (auto simp: bsd_inv_def sockets_ok_def st_shape_def)
  moreover have "table_ok ?b"
    using assms(1) unfolding bsd_inv_def table_ok_def v by (auto split: if_splits)
  ultimately have "bsd_inv (pool', ?b)" using d(2) by (simp add: bsd_inv_def st_shape_def)
  moreover have "bsd_Close a fd (pool, b) = Inr (forward a (Fw_Close fd) (pool', ?b))"
    using assms(2-5) d(1)
    by (simp add: bsd_Close_def is_virtual_def vsock_of_def unregister_vsock_def call_proxy_def Let_def)
  moreover have "bm_socket_map ?b = (bm_socket_map b)[k := forget_entry (bm_socket_map b ! k)]"
    by (simp add: update_entry_def)
  moreover have "bm_proxy ?b = Some (g, px')" "bm_forwarded ?b = bm_forwarded b" by simp_all
  ultimately show ?thesis using d(3,4) by blast
qed

lemma bsd_Close_inv:
  assumes "bsd_inv st" and "bsd_Close a fd st = Inr (r, st')"
  shows "bsd_inv st'"
proof -
  obtain pool b where st: "st = (pool, b)" by force
  show ?thesis
  proof (cases "\<exists>k v. GetSocketEntry fd = Some k \<and> is_virtual fd b \<and> vsock_of k b = Some v")
    case True
    then obtain k g i where k: "GetSocketEntry fd = Some k" "is_virtual fd b" "vsock_of k b = Some (g, i)" by auto
    obtain px where px: "bm_proxy b = Some (g, px)"
      using assms(2) k unfolding st
      by (auto simp: bsd_Close_def is_virtual_def vsock_of_def unregister_vsock_def call_proxy_def Let_def
          bind_run_Inr_iff split: option.splits if_splits)
    from bsd_Close_vsock [OF assms(1) [unfolded st] k px, of a] assms(2) forward_inv show ?thesis
      unfolding st by (metis Inr_inject snd_conv)
  next
    case False
    have "\<exists>b1. bsd_Close a fd st = Inr (forward a (Fw_Close fd) (pool, b1)) \<and> bsd_inv (pool, b1)"
    proof (cases "is_virtual fd b")
      case True
      then obtain k where k: "GetSocketEntry fd = Some k" "se_type (bm_socket_map b ! k) = SocketType_Virtual"
        by (auto simp: is_virtual_def split: option.splits)
      have "bsd_inv (pool, update_entry k forget_entry b)"
        using assms(1) st GetSocketEntry_lt [OF k(1)] by (intro bsd_inv_drop) (simp_all add: forget_entry_def)
      moreover have "se_virtual_socket (bm_socket_map b ! k) = None"
        using k False True by (cases "se_virtual_socket (bm_socket_map b ! k)") (auto simp: vsock_of_def)
      ultimately show ?thesis using k st by (auto simp: bsd_Close_def Let_def)
    next
      case False
      with assms(1) st show ?thesis
        by (auto simp: bsd_Close_def Let_def is_virtual_def split: option.splits)
    qed
    with assms(2) forward_inv show ?thesis by (metis Inr_inject snd_conv)
  qed
qed

section \<open>The step relation\<close>

text \<open>
  The commands with arbitrary arguments, answers of the system and actions of other threads (a datagram
  that arrives while a receive waits), the packets of the virtual network, and the proxies that come and
  go. A proxy is registered only after the one before it has gone.
\<close>

definition arrivals :: "bool \<Rightarrow> ProxyDataPacket list \<Rightarrow> LdnProxySocket \<Rightarrow> LdnProxySocket" where
  "arrivals broadcast packets = fold (IncomingData broadcast) packets"

inductive bsd_step :: "bst \<Rightarrow> bst \<Rightarrow> bool" where
  Register: "bm_proxy b = None \<Longrightarrow> bsd_step (pool, b) (pool, RegisterProxy (LdnProxy_new config) b)"
| Unregister: "bsd_step (pool, b) (pool, UnregisterProxy b)"
| Packet: "bm_proxy b = Some (g, px) \<Longrightarrow> event_ok ev \<Longrightarrow> LdnProxy_callbacks ev (pool, px) = Inr (pool', px') \<Longrightarrow>
    bsd_step (pool, b) (pool', b\<lparr>bm_proxy := Some (g, px')\<rparr>)"
| Socket: "bsd_step (pool, b) (pool, snd (bsd_Socket a domain typ proto b))"
| Bind: "bsd_Bind a fd addr st = Inr (r, st') \<Longrightarrow> bsd_step st st'"
| Connect: "bsd_Connect a answer fd addr st = Inr (Some (r, st')) \<Longrightarrow> bsd_step st st'"
| Send: "bsd_Send a fd data flags st = Inr (r, st') \<Longrightarrow> bsd_step st st'"
| SendTo: "bsd_SendTo a fd data flags addr st = Inr (r, st') \<Longrightarrow> bsd_step st st'"
| Recv: "bsd_Recv a (arrivals bc ps) fd n flags st = Inr (rb, st') \<Longrightarrow> bsd_step st st'"
| RecvFrom: "bsd_RecvFrom a (arrivals bc ps) fd n flags m st = Inr (rf, st') \<Longrightarrow> bsd_step st st'"
| Close: "bsd_Close a fd st = Inr (r, st') \<Longrightarrow> bsd_step st st'"
| Accept: "bsd_Accept ok wakes fd n st = Inr (ra, st') \<Longrightarrow> bsd_step st st'"
| GetSockOpt: "bsd_GetSockOpt fd opt n st = Inr (ra, st') \<Longrightarrow> bsd_step st st'"
| Listen: "bsd_Listen fd backlog st = Inr (ro, st') \<Longrightarrow> bsd_step st st'"
| Fcntl: "bsd_Fcntl fd cmd flags st = Inr (ro, st') \<Longrightarrow> bsd_step st st'"
| SetSockOpt: "bsd_SetSockOpt fd opt val st = Inr (ro, st') \<Longrightarrow> bsd_step st st'"
| Shutdown: "bsd_Shutdown fd how st = Inr (ro, st') \<Longrightarrow> bsd_step st st'"
| Poll: "bsd_Poll a pfds nfds timeout st = Inr (rp, st') \<Longrightarrow> bsd_step st st'"
| Select: "bsd_Select fdbytes a nfds' rd wr ex tv st = Inr (rs, st') \<Longrightarrow> bsd_step st st'"

inductive bsd_reachable :: "bst \<Rightarrow> bool" where
  New: "pool_ready pool \<Longrightarrow> bsd_reachable (pool, BsdMitmService_new)"
| Step: "bsd_reachable st \<Longrightarrow> bsd_step st st' \<Longrightarrow> bsd_reachable st'"

lemma vsock_registered: "bsd_inv (pool, b) \<Longrightarrow> k < MaxSockets \<Longrightarrow> vsock_of k b = Some v \<Longrightarrow> fst v < bm_registrations b"
  by (simp add: bsd_inv_def table_ok_def del: split_paired_All)

lemma RegisterProxy_inv:
  assumes "bsd_inv (pool, b)" and "bm_proxy b = None"
  shows "bsd_inv (pool, RegisterProxy (LdnProxy_new config) b)"
proof -
  let ?n = "bm_registrations b"
  have "held ?n b = {}"
    using vsock_registered [OF assms(1)] by (fastforce simp: held_def)
  then have "px_shape (held ?n b) (LdnProxy_new config)" by (simp add: px_inv_new)
  moreover have "held g b \<subseteq> dom (bm_gone b g)" for g
    using assms by (simp add: bsd_inv_def sockets_ok_def)
  ultimately have "sockets_ok (RegisterProxy (LdnProxy_new config) b)"
    by (simp add: sockets_ok_def RegisterProxy_def)
  moreover have "table_ok (RegisterProxy (LdnProxy_new config) b)"
    using assms(1) unfolding bsd_inv_def table_ok_def RegisterProxy_def by (simp add: less_SucI)
  ultimately show ?thesis using assms(1) by (simp add: bsd_inv_def)
qed

lemma UnregisterProxy_inv:
  assumes "bsd_inv (pool, b)"
  shows "bsd_inv (pool, UnregisterProxy b)"
proof (cases "bm_proxy b")
  case None
  with assms show ?thesis by (simp add: UnregisterProxy_def)
next
  case (Some p)
  obtain g px where p: "bm_proxy b = Some (g, px)" using Some by (cases p) simp
  then have "px_shape (held g b) px" using assms by (simp add: bsd_inv_def sockets_ok_def)
  then have "held g b \<subseteq> dom (px_heap px)" by (simp add: px_shape_def)
  with p assms show ?thesis
    by (auto simp: bsd_inv_def table_ok_def sockets_ok_def UnregisterProxy_def)
qed

lemma packet_inv:
  assumes "bsd_inv (pool, b)" and "bm_proxy b = Some (g, px)" and "event_ok ev"
    and "LdnProxy_callbacks ev (pool, px) = Inr (pool', px')"
  shows "bsd_inv (pool', b\<lparr>bm_proxy := Some (g, px')\<rparr>)"
proof -
  have "st_shape (held g b) (pool, px)"
    using assms(1,2) by (simp add: bsd_inv_def sockets_ok_def st_shape_def)
  then have "st_shape (held g b) (pool', px')"
    by (rule callbacks_keep [OF assms(3,4)])
  with assms(1,2) show ?thesis
    by (auto simp: bsd_inv_def table_ok_def sockets_ok_def st_shape_def)
qed

lemma arrivals_keep:
  "ps_closed (arrivals bc ps s) = ps_closed s" "ps_listenSockets (arrivals bc ps s) = ps_listenSockets s"
  by (simp_all add: arrivals_def fold_IncomingData_keeps)

lemma bsd_step_inv: "bsd_step st st' \<Longrightarrow> bsd_inv st \<Longrightarrow> bsd_inv st'"
proof (induction rule: bsd_step.induct)
  case Register
  show ?case by (rule RegisterProxy_inv [OF Register.prems Register.hyps])
next
  case Unregister
  show ?case by (rule UnregisterProxy_inv [OF Unregister.prems])
next
  case Packet
  show ?case by (rule packet_inv [OF Packet.prems Packet.hyps])
next
  case Socket
  show ?case by (rule Socket_inv [OF Socket.prems])
next
  case Recv
  show ?case by (rule bsd_Recv_inv [OF Recv.prems Recv.hyps arrivals_keep])
next
  case RecvFrom
  show ?case by (rule bsd_RecvFrom_inv [OF RecvFrom.prems RecvFrom.hyps arrivals_keep])
next
  case Bind
  show ?case by (rule bsd_Bind_inv [OF Bind.prems Bind.hyps])
next
  case Connect
  show ?case by (rule bsd_Connect_inv [OF Connect.prems Connect.hyps])
next
  case Send
  show ?case by (rule bsd_Send_inv [OF Send.prems Send.hyps])
next
  case SendTo
  show ?case by (rule bsd_SendTo_inv [OF SendTo.prems SendTo.hyps])
next
  case Close
  show ?case by (rule bsd_Close_inv [OF Close.prems Close.hyps])
next
  case Accept
  show ?case by (rule bsd_Accept_inv [OF Accept.prems Accept.hyps])
next
  case GetSockOpt
  show ?case by (rule bsd_GetSockOpt_inv [OF GetSockOpt.prems GetSockOpt.hyps])
next
  case Listen
  show ?case by (rule bsd_option_calls_inv(1) [OF Listen.prems Listen.hyps])
next
  case Fcntl
  show ?case by (rule bsd_option_calls_inv(2) [OF Fcntl.prems Fcntl.hyps])
next
  case SetSockOpt
  show ?case by (rule bsd_option_calls_inv(3) [OF SetSockOpt.prems SetSockOpt.hyps])
next
  case Shutdown
  show ?case by (rule bsd_option_calls_inv(4) [OF Shutdown.prems Shutdown.hyps])
next
  case Poll
  show ?case by (rule bsd_Poll_inv [OF Poll.prems Poll.hyps])
next
  case Select
  show ?case by (rule bsd_Select_inv [OF Select.prems Select.hyps])
qed

lemma bsd_reachable_inv: "bsd_reachable st \<Longrightarrow> bsd_inv st"
  by (induction rule: bsd_reachable.induct) (simp_all add: bsd_inv_new bsd_step_inv)

end
