(* ===== verification/Bsd_Select.thy ===== *)
theory Bsd_Select
  imports Bsd_Machine
begin

unbundle bit_operations_syntax

text \<open>
  \<open>Select\<close> against sets of descriptors: the bit arrays of the code are read as finite sets, each loop is
  shown to compute a set, and the whole command is then a formula over the sets of the client, the state of
  the virtual sockets and the answer of the system.
\<close>

section \<open>A bit array is a set\<close>

definition fds_of :: "bytes \<Rightarrow> nat set" where
  "fds_of s = {fd. fd < 8 * length s \<and> bit (s ! (fd div 8)) (fd mod 8)}"

lemma fds_of_lt: "fd \<in> fds_of s \<Longrightarrow> fd < 8 * length s"
  by (simp add: fds_of_def)

lemma fds_of_zero [simp]: "fds_of (replicate n 0) = {}"
  by (auto simp: fds_of_def)

lemma same_bit: "fd div 8 = fd' div 8 \<Longrightarrow> fd mod 8 = fd' mod 8 \<Longrightarrow> fd = (fd' :: nat)"
  by (metis div_mult_mod_eq)

lemma TestFd_set: "fd < 8 * length s \<Longrightarrow> TestFd (Some s) fd = Inr (fd \<in> fds_of s)"
  by (simp add: TestFd_def fds_of_def not_le less_mult_imp_div_less mult.commute)

lemma SetFd_set:
  assumes "fd < 8 * length s"
  shows "\<exists>s'. SetFd fd s = Inr s' \<and> length s' = length s \<and> fds_of s' = insert fd (fds_of s)"
proof -
  have lt: "fd div 8 < length s" using assms by linarith
  let ?s = "s[fd div 8 := Bit_Operations.set_bit (fd mod 8) (s ! (fd div 8))]"
  have "bit (?s ! (i div 8)) (i mod 8) \<longleftrightarrow> i = fd \<or> bit (s ! (i div 8)) (i mod 8)" if "i < 8 * length s" for i
  proof (cases "i div 8 = fd div 8")
    case True
    then have "i = fd \<longleftrightarrow> i mod 8 = fd mod 8" by (metis same_bit)
    moreover have "i mod 8 < 8" by simp
    ultimately show ?thesis using True lt by (auto simp: bit_set_bit_iff)
  qed auto
  with lt assms show ?thesis by (auto simp: SetFd_def fds_of_def)
qed

lemma ClearFd_set:
  assumes "fd < 8 * length s"
  shows "\<exists>s'. ClearFd fd s = Inr s' \<and> length s' = length s \<and> fds_of s' = fds_of s - {fd}"
proof -
  have lt: "fd div 8 < length s" using assms by linarith
  let ?s = "s[fd div 8 := unset_bit (fd mod 8) (s ! (fd div 8))]"
  have "bit (?s ! (i div 8)) (i mod 8) \<longleftrightarrow> i \<noteq> fd \<and> bit (s ! (i div 8)) (i mod 8)" if "i < 8 * length s" for i
  proof (cases "i div 8 = fd div 8")
    case True
    then have "i = fd \<longleftrightarrow> i mod 8 = fd mod 8" by (metis same_bit)
    then show ?thesis using True lt by (auto simp: bit_unset_bit_iff)
  qed auto
  with lt assms show ?thesis by (auto simp: ClearFd_def fds_of_def)
qed

text \<open>The set a client hands over; a null pointer is the empty set.\<close>

definition client_set :: "bytes option \<Rightarrow> nat set" where
  "client_set s = (case s of None \<Rightarrow> {} | Some s \<Rightarrow> fds_of s)"

definition covers :: "nat \<Rightarrow> bytes option \<Rightarrow> bool" where
  "covers n s \<longleftrightarrow> (case s of None \<Rightarrow> True | Some s \<Rightarrow> n \<le> 8 * length s)"

lemma TestFd_client: "covers n s \<Longrightarrow> fd < n \<Longrightarrow> TestFd s fd = Inr (fd \<in> client_set s)"
  by (cases s) (simp_all add: covers_def client_set_def TestFd_set, simp add: TestFd_def)

lemma TestAny_client:
  "covers n r \<Longrightarrow> covers n w \<Longrightarrow> covers n e \<Longrightarrow> fd < n \<Longrightarrow>
   TestAny (r, w, e) fd = Inr (fd \<in> client_set r \<union> client_set w \<union> client_set e)"
  by (simp add: TestAny_def TestFd_client)

lemma raise_fd_set:
  assumes "covers n ins" and "fd < n" and "n \<le> 8 * length out" and "length ready = n"
  shows "\<exists>out' ready'. raise_fd ins c fd (out, ready) = Inr (out', ready') \<and> length out' = length out
    \<and> fds_of out' = fds_of out \<union> (if fd \<in> client_set ins \<and> c then {fd} else {})
    \<and> ready' = (if fd \<in> client_set ins \<and> c then ready[fd := True] else ready)"
  using SetFd_set [of fd out] assms TestFd_client [OF assms(1,2)] by (auto simp: raise_fd_def)

lemma ClearAll_set:
  assumes "fd < 8 * length (fs_read f)" "fd < 8 * length (fs_write f)" "fd < 8 * length (fs_except f)"
  shows "\<exists>f'. ClearAll fd f = Inr f'
    \<and> length (fs_read f') = length (fs_read f) \<and> length (fs_write f') = length (fs_write f)
    \<and> length (fs_except f') = length (fs_except f)
    \<and> fds_of (fs_read f') = fds_of (fs_read f) - {fd} \<and> fds_of (fs_write f') = fds_of (fs_write f) - {fd}
    \<and> fds_of (fs_except f') = fds_of (fs_except f) - {fd}"
  using ClearFd_set [OF assms(1)] ClearFd_set [OF assms(2)] ClearFd_set [OF assms(3)] by (auto simp: ClearAll_def)

section \<open>The scan of the table\<close>

text \<open>A descriptor below the size of the table whose virtual socket is in a given state.\<close>

definition vready :: "(LdnProxySocket \<Rightarrow> bool) \<Rightarrow> BsdMitmService \<Rightarrow> nat \<Rightarrow> bool" where
  "vready p b fd \<longleftrightarrow>
     is_virtual (int fd) b
     \<and> (case vsock_of fd b of None \<Rightarrow> False | Some v \<Rightarrow> (case vsock_get v b of Inl _ \<Rightarrow> False | Inr s \<Rightarrow> p s))"

definition any_set :: "client_sets \<Rightarrow> nat set" where
  "any_set = (\<lambda>(r, w, e). client_set r \<union> client_set w \<union> client_set e)"

text \<open>What the descriptors \<open>F\<close> change in the state of the loop.\<close>

definition same_sizes :: "fd_sets \<Rightarrow> fd_sets \<Rightarrow> bool" where
  "same_sizes f g \<longleftrightarrow> length (fs_read g) = length (fs_read f) \<and> length (fs_write g) = length (fs_write f)
     \<and> length (fs_except g) = length (fs_except f)"

definition sets_are :: "fd_sets \<Rightarrow> nat set \<Rightarrow> nat set \<Rightarrow> nat set \<Rightarrow> bool" where
  "sets_are f r w e \<longleftrightarrow> fds_of (fs_read f) = r \<and> fds_of (fs_write f) = w \<and> fds_of (fs_except f) = e"

definition found :: "bytes option \<Rightarrow> (LdnProxySocket \<Rightarrow> bool) \<Rightarrow> BsdMitmService \<Rightarrow> nat set \<Rightarrow> nat set" where
  "found ins p b F = {fd \<in> F. fd \<in> client_set ins \<and> vready p b fd}"

definition any_found :: "client_sets \<Rightarrow> BsdMitmService \<Rightarrow> nat set \<Rightarrow> nat set" where
  "any_found = (\<lambda>(r, w, e) b F. found r IsReadable b F \<union> found w IsWritable b F \<union> found e HasError b F)"

definition virtuals :: "BsdMitmService \<Rightarrow> nat set" where
  "virtuals b = {fd. is_virtual (int fd) b}"

definition scanned :: "client_sets \<Rightarrow> nat set \<Rightarrow> SelectState \<Rightarrow> SelectState \<Rightarrow> bool" where
  "scanned = (\<lambda>(r, w, e) F x x'.
     (let b = sx_mitm x; o0 = sx_out x; f0 = sx_fwd x; V = F \<inter> virtuals b in
      sx_mitm x' = b \<and> same_sizes o0 (sx_out x') \<and> same_sizes f0 (sx_fwd x')
      \<and> length (sx_ready x') = length (sx_ready x)
      \<and> sets_are (sx_out x') (fds_of (fs_read o0) \<union> found r IsReadable b F)
          (fds_of (fs_write o0) \<union> found w IsWritable b F) (fds_of (fs_except o0) \<union> found e HasError b F)
      \<and> sets_are (sx_fwd x') (fds_of (fs_read f0) - V) (fds_of (fs_write f0) - V) (fds_of (fs_except f0) - V)
      \<and> (\<forall>i. sx_ready x' ! i \<longleftrightarrow> sx_ready x ! i \<or> i \<in> any_found (r, w, e) b F)
      \<and> (sx_real x' \<longleftrightarrow> sx_real x \<or> F \<inter> any_set (r, w, e) - virtuals b \<noteq> {})))"

lemma scanned_empty: "scanned ins {} x x"
  by (cases ins) (simp add: scanned_def same_sizes_def sets_are_def found_def any_found_def)

lemma found_Un: "found i p b (F \<union> G) = found i p b F \<union> found i p b G"
  by (auto simp: found_def)

lemma scanned_trans:
  assumes "scanned ins F x y" and "scanned ins G y z"
  shows "scanned ins (F \<union> G) x z"
proof -
  obtain r w e where i: "ins = (r, w, e)" by (cases ins)
  show ?thesis
    using assms unfolding i scanned_def Let_def prod.case
    by (auto simp: same_sizes_def sets_are_def found_Un any_found_def)
qed

definition room :: "nat \<Rightarrow> SelectState \<Rightarrow> bool" where
  "room n x \<longleftrightarrow> (\<forall>f \<in> {sx_out x, sx_fwd x}.
     n \<le> 8 * length (fs_read f) \<and> n \<le> 8 * length (fs_write f) \<and> n \<le> 8 * length (fs_except f))
     \<and> length (sx_ready x) = n"

lemma scanned_room: "scanned ins F x x' \<Longrightarrow> room n x \<Longrightarrow> room n x'"
  by (cases ins) (simp add: scanned_def room_def same_sizes_def Let_def)

lemma Select_fd_scanned:
  assumes "covers n r" and "covers n w" and "covers n e" and "fd < n" and "room n x"
    and "is_virtual (int fd) (sx_mitm x) \<longrightarrow> (\<exists>v s. vsock_of fd (sx_mitm x) = Some v \<and> vsock_get v (sx_mitm x) = Inr s)"
  shows "\<exists>x'. Select_fd (r, w, e) fd x = Inr x' \<and> scanned (r, w, e) {fd} x x'"
proof (cases "is_virtual (int fd) (sx_mitm x)")
  case False
  then have "Select_fd (r, w, e) fd x = Inr (if fd \<in> any_set (r, w, e) then x\<lparr>sx_real := True\<rparr> else x)"
    by (simp add: Select_fd_def TestAny_client [OF assms(1-4)] any_set_def)
  moreover have fnd: "found i p (sx_mitm x) {fd} = {}" for i p using False by (auto simp: found_def vready_def)
  have "{fd} \<inter> virtuals (sx_mitm x) = {}" using False by (simp add: virtuals_def)
  then have "scanned (r, w, e) {fd} x (if fd \<in> any_set (r, w, e) then x\<lparr>sx_real := True\<rparr> else x)"
    by (auto simp: scanned_def Let_def same_sizes_def sets_are_def fnd any_found_def)
  ultimately show ?thesis by blast
next
  case True
  let ?b = "sx_mitm x"
  obtain v s where v: "vsock_of fd ?b = Some v" and s: "vsock_get v ?b = Inr s" using assms(6) True by blast
  have g: "GetVirtualSocket (int fd) ?b = (Some v, ?b)"
    using True v by (auto simp: is_virtual_def GetVirtualSocket_def vsock_of_def GetSocketEntry_def split: if_splits)
  have vr: "vready p ?b fd = p s" for p using True v s by (simp add: vready_def)
  have rm: "n \<le> 8 * length (fs_read (sx_out x))" "n \<le> 8 * length (fs_write (sx_out x))"
    "n \<le> 8 * length (fs_except (sx_out x))" "length (sx_ready x) = n"
    "fd < 8 * length (fs_read (sx_fwd x))" "fd < 8 * length (fs_write (sx_fwd x))" "fd < 8 * length (fs_except (sx_fwd x))"
    using assms(4,5) by (simp_all add: room_def)
  obtain o1 d1 where 1: "raise_fd r (IsReadable s) fd (fs_read (sx_out x), sx_ready x) = Inr (o1, d1)"
      "length o1 = length (fs_read (sx_out x))"
      "fds_of o1 = fds_of (fs_read (sx_out x)) \<union> (if fd \<in> client_set r \<and> IsReadable s then {fd} else {})"
      "d1 = (if fd \<in> client_set r \<and> IsReadable s then (sx_ready x)[fd := True] else sx_ready x)"
    using raise_fd_set [OF assms(1,4) rm(1,4)] by blast
  have d1: "length d1 = n" using 1(4) rm(4) by simp
  obtain o2 d2 where 2: "raise_fd w (IsWritable s) fd (fs_write (sx_out x), d1) = Inr (o2, d2)"
      "length o2 = length (fs_write (sx_out x))"
      "fds_of o2 = fds_of (fs_write (sx_out x)) \<union> (if fd \<in> client_set w \<and> IsWritable s then {fd} else {})"
      "d2 = (if fd \<in> client_set w \<and> IsWritable s then d1[fd := True] else d1)"
    using raise_fd_set [OF assms(2,4) rm(2) d1] by blast
  have d2: "length d2 = n" using 2(4) d1 by simp
  obtain o3 d3 where 3: "raise_fd e (HasError s) fd (fs_except (sx_out x), d2) = Inr (o3, d3)"
      "length o3 = length (fs_except (sx_out x))"
      "fds_of o3 = fds_of (fs_except (sx_out x)) \<union> (if fd \<in> client_set e \<and> HasError s then {fd} else {})"
      "d3 = (if fd \<in> client_set e \<and> HasError s then d2[fd := True] else d2)"
    using raise_fd_set [OF assms(3,4) rm(3) d2] by blast
  obtain f where f: "ClearAll fd (sx_fwd x) = Inr f" "same_sizes (sx_fwd x) f"
      "sets_are f (fds_of (fs_read (sx_fwd x)) - {fd}) (fds_of (fs_write (sx_fwd x)) - {fd}) (fds_of (fs_except (sx_fwd x)) - {fd})"
    using ClearAll_set [OF rm(5-7)] by (auto simp: same_sizes_def sets_are_def)
  let ?x = "x\<lparr>sx_out := \<lparr>fs_read = o1, fs_write = o2, fs_except = o3\<rparr>, sx_fwd := f, sx_ready := d3, sx_mitm := ?b\<rparr>"
  have sel: "Select_fd (r, w, e) fd x = Inr ?x"
    using True g s 1(1) 2(1) 3(1) f(1) by (simp add: Select_fd_def)
  have fnd: "found i p ?b {fd} = (if fd \<in> client_set i \<and> p s then {fd} else {})" for i p
    by (auto simp: found_def vr)
  have "d3 ! i \<longleftrightarrow> sx_ready x ! i \<or> i \<in> any_found (r, w, e) ?b {fd}" for i
    using 1(4) 2(4) 3(4) assms(4) rm(4) by (auto simp: any_found_def fnd nth_list_update)
  moreover have "{fd} \<inter> virtuals ?b = {fd}" "{fd} \<inter> S - virtuals ?b = {}" for S
    using True by (auto simp: virtuals_def)
  moreover have "length d3 = n" using 3(4) d2 by simp
  ultimately have "scanned (r, w, e) {fd} x ?x"
    using 1(2,3) 2(2,3) 3(2,3) rm(4) f(2,3)
    by (simp add: scanned_def Let_def same_sizes_def sets_are_def fnd)
  with sel show ?thesis by blast
qed

definition sockets_exist :: "nat \<Rightarrow> BsdMitmService \<Rightarrow> bool" where
  "sockets_exist n b \<longleftrightarrow>
     (\<forall>fd < n. is_virtual (int fd) b \<longrightarrow> (\<exists>v s. vsock_of fd b = Some v \<and> vsock_get v b = Inr s))"

lemma Select_scan_scanned:
  "covers n r \<Longrightarrow> covers n w \<Longrightarrow> covers n e \<Longrightarrow> set fds \<subseteq> {..<n} \<Longrightarrow> room n x \<Longrightarrow> sockets_exist n (sx_mitm x) \<Longrightarrow>
   \<exists>x'. Select_scan (r, w, e) fds x = Inr x' \<and> scanned (r, w, e) (set fds) x x'"
proof (induction fds arbitrary: x)
  case Nil
  then show ?case by (simp add: scanned_empty)
next
  case (Cons fd fds)
  from Select_fd_scanned [OF Cons.prems(1-3) _ Cons.prems(5), of fd] Cons.prems(4,6) obtain y where
    y: "Select_fd (r, w, e) fd x = Inr y" "scanned (r, w, e) {fd} x y"
    by (auto simp: sockets_exist_def)
  have "sx_mitm y = sx_mitm x" using y(2) by (simp add: scanned_def Let_def)
  with Cons.IH [OF Cons.prems(1-3) _ scanned_room [OF y(2) Cons.prems(5)]] Cons.prems(4,6) obtain z where
    z: "Select_scan (r, w, e) fds y = Inr z" "scanned (r, w, e) (set fds) y z" by auto
  from scanned_trans [OF y(2) z(2)] y(1) z(1) show ?case by auto
qed

section \<open>The answer of the system\<close>

definition merged :: "fd_sets \<Rightarrow> nat set \<Rightarrow> fd_sets \<times> bool list \<times> nat \<Rightarrow> fd_sets \<times> bool list \<times> nat \<Rightarrow> bool" where
  "merged fwd F = (\<lambda>(f, d, n) (f', d', n').
     same_sizes f f' \<and> length d' = length d
     \<and> sets_are f' (fds_of (fs_read f) \<union> F \<inter> fds_of (fs_read fwd)) (fds_of (fs_write f) \<union> F \<inter> fds_of (fs_write fwd))
         (fds_of (fs_except f) \<union> F \<inter> fds_of (fs_except fwd))
     \<and> (\<forall>i. d' ! i \<longleftrightarrow> d ! i \<or> i \<in> F \<inter> (fds_of (fs_read fwd) \<union> fds_of (fs_write fwd) \<union> fds_of (fs_except fwd)))
     \<and> (n = length (filter id d) \<longrightarrow> n' = length (filter id d')))"

lemma merged_trans: "merged fwd F x y \<Longrightarrow> merged fwd G y z \<Longrightarrow> merged fwd (F \<union> G) x z"
  by (cases x; cases y; cases z) (auto simp: merged_def same_sizes_def sets_are_def)

lemma count_raise:
  assumes "fd < length d" and "\<not> d ! fd"
  shows "length (filter id (d[fd := True])) = Suc (length (filter id d))"
proof -
  have "{i. i < length d \<and> d[fd := True] ! i} = insert fd {i. i < length d \<and> d ! i}"
    using assms(1) by (auto simp: nth_list_update split: if_splits)
  then show ?thesis using assms by (simp add: length_filter_conv_card)
qed

definition fd_merged :: "bytes \<Rightarrow> nat \<Rightarrow> bytes \<times> bool list \<times> nat \<Rightarrow> bytes \<times> bool list \<times> nat \<Rightarrow> bool" where
  "fd_merged fwd fd = (\<lambda>(out, d, n) (out', d', n').
     length out' = length out \<and> length d' = length d \<and> fds_of out' = fds_of out \<union> {fd} \<inter> fds_of fwd
     \<and> (\<forall>i. d' ! i \<longleftrightarrow> d ! i \<or> i \<in> {fd} \<inter> fds_of fwd)
     \<and> (n = length (filter id d) \<longrightarrow> n' = length (filter id d')))"

lemma merge_fd_set:
  assumes "fd < 8 * length fwd" and "fd < 8 * length out" and "fd < length d"
  shows "\<exists>out' d' n'. merge_fd fwd fd (out, d, n) = Inr (out', d', n') \<and> fd_merged fwd fd (out, d, n) (out', d', n')"
proof (cases "fd \<in> fds_of fwd")
  case True
  obtain out' where o: "SetFd fd out = Inr out'" "length out' = length out" "fds_of out' = insert fd (fds_of out)"
    using SetFd_set [OF assms(2)] by blast
  show ?thesis
    using True o assms(3) TestFd_set [OF assms(1)] count_raise [OF assms(3)]
    by (cases "d ! fd") (auto simp: merge_fd_def fd_merged_def nth_list_update)
next
  case False
  then show ?thesis using TestFd_set [OF assms(1)] by (simp add: merge_fd_def fd_merged_def)
qed

definition big :: "nat \<Rightarrow> fd_sets \<Rightarrow> bool" where
  "big n f \<longleftrightarrow> n \<le> 8 * length (fs_read f) \<and> n \<le> 8 * length (fs_write f) \<and> n \<le> 8 * length (fs_except f)"

lemma Select_merge_fd_merged:
  assumes "fd < n" and "big n fwd" and "big n f" and "length d = n"
  shows "\<exists>y. Select_merge_fd fwd fd (f, d, c) = Inr y \<and> merged fwd {fd} (f, d, c) y"
proof -
  have b: "fd < 8 * length (fs_read fwd)" "fd < 8 * length (fs_write fwd)" "fd < 8 * length (fs_except fwd)"
    "fd < 8 * length (fs_read f)" "fd < 8 * length (fs_write f)" "fd < 8 * length (fs_except f)" "fd < length d"
    using assms by (simp_all add: big_def)
  obtain o1 d1 c1 where 1: "merge_fd (fs_read fwd) fd (fs_read f, d, c) = Inr (o1, d1, c1)"
      "fd_merged (fs_read fwd) fd (fs_read f, d, c) (o1, d1, c1)"
    using merge_fd_set [OF b(1,4,7)] by blast
  have l1: "fd < length d1" using 1(2) b(7) by (simp add: fd_merged_def)
  obtain o2 d2 c2 where 2: "merge_fd (fs_write fwd) fd (fs_write f, d1, c1) = Inr (o2, d2, c2)"
      "fd_merged (fs_write fwd) fd (fs_write f, d1, c1) (o2, d2, c2)"
    using merge_fd_set [OF b(2,5) l1] by blast
  have l2: "fd < length d2" using 2(2) l1 by (simp add: fd_merged_def)
  obtain o3 d3 c3 where 3: "merge_fd (fs_except fwd) fd (fs_except f, d2, c2) = Inr (o3, d3, c3)"
      "fd_merged (fs_except fwd) fd (fs_except f, d2, c2) (o3, d3, c3)"
    using merge_fd_set [OF b(3,6) l2] by blast
  have "Select_merge_fd fwd fd (f, d, c) = Inr (\<lparr>fs_read = o1, fs_write = o2, fs_except = o3\<rparr>, d3, c3)"
    using 1(1) 2(1) 3(1) by (simp add: Select_merge_fd_def)
  moreover have "merged fwd {fd} (f, d, c) (\<lparr>fs_read = o1, fs_write = o2, fs_except = o3\<rparr>, d3, c3)"
    using 1(2) 2(2) 3(2) by (auto simp: fd_merged_def merged_def same_sizes_def sets_are_def)
  ultimately show ?thesis by blast
qed

lemma Select_merge_merged:
  "set fds \<subseteq> {..<n} \<Longrightarrow> big n fwd \<Longrightarrow> big n f \<Longrightarrow> length d = n \<Longrightarrow>
   \<exists>y. Select_merge fwd fds (f, d, c) = Inr y \<and> merged fwd (set fds) (f, d, c) y"
proof (induction fds arbitrary: f d c)
  case Nil
  then show ?case by (simp add: merged_def same_sizes_def sets_are_def)
next
  case (Cons fd fds)
  from Select_merge_fd_merged [OF _ Cons.prems(2-4)] Cons.prems(1) obtain f' d' c' where
    y: "Select_merge_fd fwd fd (f, d, c) = Inr (f', d', c')" "merged fwd {fd} (f, d, c) (f', d', c')" by fastforce
  have "big n f'" "length d' = n"
    using y(2) Cons.prems(3,4) by (simp_all add: merged_def same_sizes_def big_def)
  with Cons.IH [OF _ Cons.prems(2)] Cons.prems(1) obtain z where
    z: "Select_merge fwd fds (f', d', c') = Inr z" "merged fwd (set fds) (f', d', c') z" by fastforce
  from merged_trans [OF y(2) z(2)] y(1) z(1) show ?case by auto
qed

section \<open>The command\<close>

definition full_set :: "nat \<Rightarrow> bytes \<Rightarrow> bool" where
  "full_set fdbytes s \<longleftrightarrow> s = [] \<or> fdbytes \<le> length s"

lemma fd_copy_full: "full_set fdbytes s \<Longrightarrow> length (fd_copy fdbytes s) = fdbytes
   \<and> fds_of (fd_copy fdbytes s) = fds_of (take fdbytes s)"
  by (auto simp: full_set_def fd_copy_def stored_in_def fds_of_def)

lemma covers_null: "full_set fdbytes s \<Longrightarrow> n \<le> 8 * fdbytes \<Longrightarrow> covers n (fd_null s)"
  by (auto simp: full_set_def covers_def fd_null_def)

lemma fd_result_full:
  "full_set fdbytes s \<Longrightarrow> length out = fdbytes \<Longrightarrow>
   (s = [] \<longrightarrow> fd_result fdbytes s out = []) \<and> (s \<noteq> [] \<longrightarrow> take fdbytes (fd_result fdbytes s out) = out)"
  by (auto simp: full_set_def fd_result_def)

lemma count_set: "\<forall>i < length d. d ! i \<longleftrightarrow> i \<in> S \<Longrightarrow> S \<subseteq> {..<length d} \<Longrightarrow> length (filter id d) = card S"
  unfolding length_filter_conv_card by (rule arg_cong [where f = card]) auto

text \<open>The sets of the client that need the system, and the sets a successful command returns.\<close>

definition needs_system :: "client_sets \<Rightarrow> nat \<Rightarrow> BsdMitmService \<Rightarrow> bool" where
  "needs_system ins n b \<longleftrightarrow> {..<n} \<inter> any_set ins - virtuals b \<noteq> {}"

definition select_spec ::
    "bytes option \<Rightarrow> (LdnProxySocket \<Rightarrow> bool) \<Rightarrow> nat \<Rightarrow> bool \<Rightarrow> bytes \<Rightarrow> BsdMitmService \<Rightarrow> nat set" where
  "select_spec ins p n real answer b = found ins p b {..<n} \<union> (if real then {..<n} \<inter> fds_of answer else {})"

lemma Select_sets:
  assumes nfds: "0 \<le> nfds" "nat nfds \<le> 8 * fdbytes" and ex: "sockets_exist (nat nfds) b"
    and full: "full_set fdbytes readfds" "full_set fdbytes writefds" "full_set fdbytes exceptfds"
    and a: "an_rc a = ResultSuccess" "0 \<le> an_ret a" "an_sets a = (ar, aw, ae)"
    and al: "length ar = fdbytes" "length aw = fdbytes" "length ae = fdbytes"
    and ins: "ins = (fd_null readfds, fd_null writefds, fd_null exceptfds)" and real: "real = needs_system ins (nat nfds) b"
    and R: "R = select_spec (fd_null readfds) IsReadable (nat nfds) real ar b"
    and W: "W = select_spec (fd_null writefds) IsWritable (nat nfds) real aw b"
    and E: "E = select_spec (fd_null exceptfds) HasError (nat nfds) real ae b"
  shows "\<exists>out f tv. bsd_Select fdbytes a nfds readfds writefds exceptfds timeout (pool, b) =
      Inr (Reply (int (card (R \<union> W \<union> E))) 0 (fd_result fdbytes readfds (fs_read out),
          fd_result fdbytes writefds (fs_write out), fd_result fdbytes exceptfds (fs_except out)), pool,
        if real then forwarded (Fw_Select nfds tv (fs_read f) (fs_write f) (fs_except f)) b else b)
    \<and> sets_are out R W E \<and> length (fs_read out) = fdbytes \<and> length (fs_write out) = fdbytes \<and> length (fs_except out) = fdbytes
    \<and> sets_are f (fds_of (take fdbytes readfds) - {..<nat nfds} \<inter> virtuals b)
        (fds_of (take fdbytes writefds) - {..<nat nfds} \<inter> virtuals b)
        (fds_of (take fdbytes exceptfds) - {..<nat nfds} \<inter> virtuals b)"
proof -
  let ?n = "nat nfds"
  let ?zero = "\<lparr>fs_read = replicate fdbytes 0, fs_write = replicate fdbytes 0, fs_except = replicate fdbytes 0\<rparr> :: fd_sets"
  let ?fwd = "\<lparr>fs_read = fd_copy fdbytes readfds, fs_write = fd_copy fdbytes writefds, fs_except = fd_copy fdbytes exceptfds\<rparr>"
  let ?x = "\<lparr>sx_out = ?zero, sx_fwd = ?fwd, sx_ready = replicate ?n False, sx_real = False, sx_mitm = b\<rparr>"
  note cp = fd_copy_full [OF full(1)] fd_copy_full [OF full(2)] fd_copy_full [OF full(3)]
  have "room ?n ?x" using cp nfds(2) by (simp add: room_def)
  with Select_scan_scanned [OF covers_null [OF full(1) nfds(2)] covers_null [OF full(2) nfds(2)]
      covers_null [OF full(3) nfds(2)], of "[0..<?n]" ?x] ex
  obtain x where x: "Select_scan ins [0..<?n] ?x = Inr x" "scanned ins {..<?n} ?x x"
    by (auto simp: atLeast0LessThan ins)
  let ?o = "sx_out x" and ?V = "{..<?n} \<inter> virtuals b"
  have b': "sx_mitm x = b" and rl: "sx_real x = real" and dl: "length (sx_ready x) = ?n"
    and ol: "length (fs_read ?o) = fdbytes" "length (fs_write ?o) = fdbytes" "length (fs_except ?o) = fdbytes"
    and fl: "length (fs_read (sx_fwd x)) = fdbytes" "length (fs_write (sx_fwd x)) = fdbytes" "length (fs_except (sx_fwd x)) = fdbytes"
    and out: "sets_are ?o (found (fd_null readfds) IsReadable b {..<?n}) (found (fd_null writefds) IsWritable b {..<?n})
      (found (fd_null exceptfds) HasError b {..<?n})"
    and fw: "sets_are (sx_fwd x) (fds_of (take fdbytes readfds) - ?V) (fds_of (take fdbytes writefds) - ?V)
      (fds_of (take fdbytes exceptfds) - ?V)"
    and d: "\<forall>i < ?n. sx_ready x ! i \<longleftrightarrow> i \<in> any_found ins b {..<?n}"
    using x(2) cp by (simp_all add: ins scanned_def Let_def same_sizes_def real needs_system_def)
  have sub: "any_found ins b {..<?n} \<subseteq> {..<?n}" by (auto simp: any_found_def found_def ins)
  have cnt: "length (filter id (sx_ready x)) = card (any_found ins b {..<?n})"
    using count_set [of "sx_ready x"] d sub dl by simp
  show ?thesis
  proof (cases real)
    case False
    have "R \<union> W \<union> E = any_found ins b {..<?n}" using False by (simp add: R W E select_spec_def any_found_def ins)
    with x(1) b' rl False nfds(1) cnt out ol fw show ?thesis
      by (intro exI [of _ ?o] exI [of _ "sx_fwd x"]) (simp add: bsd_Select_def Let_def ins R W E select_spec_def)
  next
    case True
    let ?f = "\<lparr>fs_read = ar, fs_write = aw, fs_except = ae\<rparr>"
    have st: "stored_in (fs_read (sx_fwd x)) ar = ar" "stored_in (fs_write (sx_fwd x)) aw = aw"
      "stored_in (fs_except (sx_fwd x)) ae = ae" using al fl by (simp_all add: stored_in_def)
    have "big ?n ?f" "big ?n ?o" using al ol nfds(2) by (simp_all add: big_def)
    with Select_merge_merged [of "[0..<?n]" ?n ?f ?o "sx_ready x" "length (filter id (sx_ready x))"] dl obtain o2 d2 c2 where
      m: "Select_merge ?f [0..<?n] (?o, sx_ready x, length (filter id (sx_ready x))) = Inr (o2, d2, c2)"
        "merged ?f {..<?n} (?o, sx_ready x, length (filter id (sx_ready x))) (o2, d2, c2)"
      by (auto simp: atLeast0LessThan)
    have o2: "length (fs_read o2) = fdbytes" "length (fs_write o2) = fdbytes" "length (fs_except o2) = fdbytes" "sets_are o2 R W E"
      and d2: "length d2 = ?n" "c2 = length (filter id d2)"
      using m(2) ol out True dl by (simp_all add: merged_def same_sizes_def sets_are_def R W E select_spec_def)
    have "\<forall>i < ?n. d2 ! i \<longleftrightarrow> i \<in> R \<union> W \<union> E"
      using m(2) d True by (auto simp: merged_def R W E select_spec_def any_found_def ins)
    moreover have "R \<union> W \<union> E \<subseteq> {..<?n}" by (auto simp: R W E select_spec_def found_def)
    ultimately have "c2 = card (R \<union> W \<union> E)" using count_set [of d2] d2 by simp
    with x(1) b' rl True nfds(1) m(1) st a o2 fw show ?thesis
      by (intro exI [of _ o2] exI [of _ "sx_fwd x"]
          exI [of _ "if timeval_size \<le> length timeout then Some (take timeval_size timeout) else None"])
        (simp add: bsd_Select_def Let_def ins)
  qed
qed

end
