(* ===== verification/Bsd_Properties.thy ===== *)
theory Bsd_Properties
  imports Bsd_Select
begin

text \<open>
  What a game sees through the socket service: the table and its virtual sockets, the traffic of a bound
  socket, the replies to an unbound one, the ordinary sockets, and what happens when the network goes.
\<close>

section \<open>A datagram for a bound socket\<close>

text \<open>The entry that \<open>Socket\<close> leaves, and the virtual socket made from it.\<close>

definition fresh_entry :: "u32 \<Rightarrow> u32 \<Rightarrow> int \<Rightarrow> SocketEntry" where
  "fresh_entry type protocol fd =
     \<lparr>se_type = SocketType_Real, se_real_fd = fd, se_virtual_socket = None, se_address_family = 2,
      se_socket_type = type, se_protocol_type = protocol\<rparr>"

abbreviation fresh_udp :: "int \<Rightarrow> SocketEntry" where
  "fresh_udp \<equiv> fresh_entry 2 IPPROTO_UDP"

definition fresh_socket :: "u32 \<Rightarrow> u32 \<Rightarrow> LdnProxySocket" where
  "fresh_socket type protocol = LdnProxySocket_new 2 (sint type) protocol"

abbreviation udp_socket :: LdnProxySocket where
  "udp_socket \<equiv> fresh_socket 2 IPPROTO_UDP"

lemma GetVirtualSocket_fresh:
  assumes "GetSocketEntry fd = Some k" and "k < length (bm_socket_map b)"
    and "bm_socket_map b ! k = (fresh_entry tp pr fd)\<lparr>se_type := t\<rparr>" and "bm_proxy b = Some (g, px)"
  shows "GetVirtualSocket fd b = (Some (g, px_next px), b\<lparr>
     bm_socket_map := (bm_socket_map b)[k := (fresh_entry tp pr fd)\<lparr>se_type := t, se_virtual_socket := Some (g, px_next px)\<rparr>],
     bm_proxy := Some (g, px\<lparr>px_heap := (px_heap px)(px_next px \<mapsto> fresh_socket tp pr), px_next := Suc (px_next px),
       px_sockets := px_sockets px @ [px_next px, px_next px]\<rparr>)\<rparr>)"
  using assms
  by (simp add: GetVirtualSocket_def fresh_entry_def Let_def socket_create_def RegisterSocket_def update_entry_def
      fresh_socket_def)

lemma px_shape_fresh:
  assumes "px_shape R px"
  shows "px_heap px (px_next px) = None" and "px_next px \<notin> set (px_sockets px)"
  using assms by (auto simp: px_shape_def live_def subset_iff)

text \<open>The address a bind ends up with.\<close>

definition bound_address :: "sockaddr_in \<Rightarrow> LdnProxy \<Rightarrow> sockaddr_in" where
  "bound_address sa px = (if sin_addr sa = 0 then sa\<lparr>sin_addr := htonl (px_localIp px)\<rparr> else sa)"

lemma bsd_Bind_fresh:
  assumes "GetSocketEntry fd = Some k" and "k < length (bm_socket_map b)"
    and "bm_socket_map b ! k = fresh_entry tp pr fd" and "bm_proxy b = Some (g, px)"
    and "sockaddr_at addr = Some sa" and "sin_family sa = AF_INET" and "isVirtualBind sa b" and "sin_port sa \<noteq> 0"
  shows "bsd_Bind a fd addr (pool, b) = Inr (Reply 0 0 (), pool, b\<lparr>
     bm_socket_map := (bm_socket_map b)[k := (fresh_entry tp pr fd)\<lparr>se_type := SocketType_Virtual,
       se_virtual_socket := Some (g, px_next px)\<rparr>],
     bm_proxy := Some (g, px\<lparr>px_heap := (px_heap px)(px_next px \<mapsto>
         (fresh_socket tp pr)\<lparr>ps_localEndPoint := bound_address sa px, ps_isBound := True\<rparr>),
       px_next := Suc (px_next px), px_sockets := px_sockets px @ [px_next px, px_next px]\<rparr>)\<rparr>)"
proof -
  have m: "bm_socket_map (mark_virtual k b) = (bm_socket_map b)[k := (fresh_entry tp pr fd)\<lparr>se_type := SocketType_Virtual\<rparr>]"
    "bm_proxy (mark_virtual k b) = Some (g, px)"
    using assms(3,4) by (simp_all add: mark_virtual_def update_entry_def)
  note g = GetVirtualSocket_fresh [OF assms(1), where b = "mark_virtual k b" and t = SocketType_Virtual and tp = tp and pr = pr]
  show ?thesis
    using assms m g
    by (simp add: bsd_Bind_def EnsureProxyAvailable_def call_proxy_def Bind_def deref_def store_def Let_def
        proxy_local_ip_def bound_address_def fresh_socket_def LdnProxySocket_new_def mark_virtual_def update_entry_def)
qed

lemma vsock_current: "bm_proxy b = Some (g, px) \<Longrightarrow> px_heap px i = Some s \<Longrightarrow> vsock_get (g, i) b = Inr s"
  by (simp add: vsock_get_def)

text \<open>A receive on a datagram socket with a queue takes the packet at its head.\<close>

lemma bsd_Recv_queued:
  assumes "GetSocketEntry fd = Some k" and "is_virtual fd b" and "vsock_of k b = Some (g, i)"
    and "bm_proxy b = Some (g, px)" and "px_heap px i = Some s" and "ps_protocolType s = IPPROTO_UDP"
    and "ps_receiveQueue s = p # ps" and "pkt_data p \<noteq> []" and "length (pkt_data p) \<le> n" and "flags AND MSG_PEEK = 0"
  shows "bsd_Recv a wait fd n flags (pool, b) = Inr (Reply (int (length (pkt_data p))) 0 (pkt_data p), pool,
     b\<lparr>bm_proxy := Some (g, store i (s\<lparr>ps_receiveQueue := ps\<rparr>) px)\<rparr>)"
proof -
  have v: "GetVirtualSocket fd b = (Some (g, i), b)"
    using assms(1,3) by (simp add: GetVirtualSocket_def vsock_of_def)
  have r: "ReceiveFrom wait n flags s =
      ((int (length (pkt_data p)), pkt_data p, Some (source_of p)), s\<lparr>ps_receiveQueue := ps\<rparr>)"
    using assms(6,7,9,10) by (simp add: ReceiveFrom_def ReceiveFrom_queued_def Let_def ipproto_defs)
  show ?thesis
    using assms(2,4,5,8) v r
    by (simp add: bsd_Recv_def EnsureProxyAvailable_def call_socket_def vsock_get_def vsock_put_def Receive_def)
qed

text \<open>
  C18: a datagram for a bound socket is received twice. \<open>Bind\<close> on a descriptor that \<open>Socket\<close> has left
  for datagrams succeeds on the virtual network; when a datagram for its port then arrives, two receives in
  a row both return it. The socket registers with the proxy when it is made, and the service registers it
  again, so the proxy hands it everything twice.
\<close>

theorem datagram_received_twice:
  assumes "bsd_reachable (pool, b)" and "GetSocketEntry fd = Some k"
    and "bm_socket_map b ! k = fresh_udp fd" and "bm_proxy b = Some (g, px)"
    and "sockaddr_at addr = Some sa" and "sin_family sa = AF_INET" and "isVirtualBind sa b" and "sin_port sa \<noteq> 0"
    and "event_ok (onProxyData h pd (data, len))" and "pin_protocol (pdh_info pd) = IPPROTO_UDP"
    and "pin_destPort (pdh_info pd) = ntohs (sin_port sa)" and "\<not> IsBroadcast (pin_destIpV4 (pdh_info pd)) px"
    and "data \<noteq> []" and "length data \<le> n"
  shows "\<exists>b1 px1 pool2 px2 st3 st4.
     bsd_Bind a fd addr (pool, b) = Inr (Reply 0 0 (), pool, b1) \<and> bm_proxy b1 = Some (g, px1)
     \<and> LdnProxy_callbacks (onProxyData h pd (data, len)) (pool, px1) = Inr (pool2, px2)
     \<and> bsd_Recv a1 wait1 fd n 0 (pool2, b1\<lparr>bm_proxy := Some (g, px2)\<rparr>) = Inr (Reply (int (length data)) 0 data, st3)
     \<and> bsd_Recv a2 wait2 fd n 0 st3 = Inr (Reply (int (length data)) 0 data, st4)"
proof -
  have inv: "bsd_inv (pool, b)" by (rule bsd_reachable_inv [OF assms(1)])
  have lt: "k < length (bm_socket_map b)"
    using inv GetSocketEntry_lt [OF assms(2)] by (simp add: bsd_inv_def table_ok_def)
  have shape: "px_shape (held g b) px" "pool_ready pool"
    using inv assms(4) by (simp_all add: bsd_inv_def sockets_ok_def)
  note new = px_shape_fresh [OF shape(1)]
  let ?i = "px_next px"
  define s where "s = udp_socket\<lparr>ps_localEndPoint := bound_address sa px, ps_isBound := True\<rparr>"
  define px1 where "px1 = px\<lparr>px_heap := (px_heap px)(?i \<mapsto> s), px_next := Suc ?i, px_sockets := px_sockets px @ [?i, ?i]\<rparr>"
  define e where "e = (fresh_udp fd)\<lparr>se_type := SocketType_Virtual, se_virtual_socket := Some (g, ?i)\<rparr>"
  define b1 where "b1 = b\<lparr>bm_socket_map := (bm_socket_map b)[k := e], bm_proxy := Some (g, px1)\<rparr>"
  have bind: "bsd_Bind a fd addr (pool, b) = Inr (Reply 0 0 (), pool, b1)"
    using bsd_Bind_fresh [OF assms(2) lt assms(3-8)] by (simp add: b1_def e_def px1_def s_def)
  have e: "bm_socket_map b1 ! k = e" "bm_proxy b1 = Some (g, px1)" using lt by (simp_all add: b1_def)
  have "live px" using shape(1) by (simp add: px_shape_def)
  then have "live px1" by (auto simp: live_def px1_def)
  from LdnProxy_callbacks_effect [OF shape(2) this assms(9)] obtain pool2 where
    cb: "LdnProxy_callbacks (onProxyData h pd (data, len)) (pool, px1) = Inr (pool2, LdnProxy_effect (onProxyData h pd (data, len)) px1)"
    by blast
  define px2 where "px2 = LdnProxy_effect (onProxyData h pd (data, len)) px1"
  let ?p = "\<lparr>pkt_header = pd, pkt_data = data\<rparr>"
  have nb: "\<not> IsBroadcast (pin_destIpV4 (pdh_info pd)) px1" using assms(12) by (simp add: IsBroadcast_def px1_def)
  have "routed (pdh_info pd) s"
    using assms(10,11) by (simp add: routed_def s_def fresh_socket_def LdnProxySocket_new_def bound_address_def)
  moreover have "count_list (px_sockets px1) ?i = 2" using new(2) by (simp add: px1_def)
  moreover have "px_heap px1 ?i = Some s" by (simp add: px1_def)
  ultimately have "px_heap px2 ?i = Some ((IncomingData False ?p ^^ 2) s)"
    by (simp add: px2_def LdnProxy_effect_def route_def fold_update_count routed_IncomingData nb del: One_nat_def)
  moreover have "(IncomingData False ?p ^^ 2) s = s\<lparr>ps_receiveEvent := True, ps_receiveQueue := [?p, ?p]\<rparr>"
    by (simp add: numeral_2_eq_2 IncomingData_def s_def fresh_socket_def LdnProxySocket_new_def)
  ultimately have h2: "px_heap px2 ?i = Some (s\<lparr>ps_receiveEvent := True, ps_receiveQueue := [?p, ?p]\<rparr>)" by simp
  let ?b2 = "b1\<lparr>bm_proxy := Some (g, px2)\<rparr>"
  have v: "is_virtual fd (b1\<lparr>bm_proxy := q\<rparr>)" "vsock_of k (b1\<lparr>bm_proxy := q\<rparr>) = Some (g, ?i)" for q
    using assms(2) e(1) by (simp_all add: is_virtual_def vsock_of_def e_def)
  have udp: "ps_protocolType s = IPPROTO_UDP" by (simp add: s_def fresh_socket_def LdnProxySocket_new_def)
  let ?px3 = "store ?i (s\<lparr>ps_receiveEvent := True, ps_receiveQueue := [?p]\<rparr>) px2"
  have r1: "bsd_Recv a1 wait1 fd n 0 (pool2, ?b2) = Inr (Reply (int (length data)) 0 data, pool2, b1\<lparr>bm_proxy := Some (g, ?px3)\<rparr>)"
    using bsd_Recv_queued [where p = ?p and ps = "[?p]" and n = n and flags = 0 and a = a1 and wait = wait1 and pool = pool2,
        OF assms(2) v(1) v(2) _ h2] udp assms(13,14) by simp
  have r2: "\<exists>st4. bsd_Recv a2 wait2 fd n 0 (pool2, b1\<lparr>bm_proxy := Some (g, ?px3)\<rparr>) = Inr (Reply (int (length data)) 0 data, st4)"
    using bsd_Recv_queued [where p = ?p and ps = "[]" and n = n and flags = 0 and a = a2 and wait = wait2 and pool = pool2 and px = ?px3,
        OF assms(2) v(1) v(2)] udp assms(13,14)
    by (simp add: store_def)
  show ?thesis using bind e(2) cb [folded px2_def] r1 r2 by blast
qed

text \<open>A state to try the properties on: a proxy is registered, and the descriptor 3 is a datagram socket.\<close>

definition demo_answer :: BsdAnswer where
  "demo_answer = \<lparr>an_rc = ResultSuccess, an_ret = 3, an_errno = 0, an_len = 0, an_data = [], an_addr = [],
     an_sets = ([], [], []), an_revents = []\<rparr>"

definition demo_bsd :: BsdMitmService where
  "demo_bsd = snd (bsd_Socket demo_answer 2 2 IPPROTO_UDP (RegisterProxy (LdnProxy_new demo_config) BsdMitmService_new))"

lemma sockaddr_at_put: "sin_family sa < 256 \<Longrightarrow> sockaddr_at (put_sockaddr sa) = Some sa"
  by (simp add: sockaddr_at_def put_sockaddr_def sockaddr_size_def unat_of_nat)

lemma demo_bsd_reachable: "bsd_reachable (zero_pool, demo_bsd)"
proof -
  have "bsd_reachable (zero_pool, RegisterProxy (LdnProxy_new demo_config) BsdMitmService_new)"
    by (rule bsd_reachable.Step [OF bsd_reachable.New [OF zero_pool_ready] bsd_step.Register])
      (simp add: BsdMitmService_new_def)
  then show ?thesis unfolding demo_bsd_def by (rule bsd_reachable.Step) (rule bsd_step.Socket)
qed

lemma demo_bsd_fields:
  "GetSocketEntry 3 = Some 3" "bm_socket_map demo_bsd = (replicate 128 zero_entry)[3 := fresh_udp 3]"
  "bm_proxy demo_bsd = Some (0, LdnProxy_new demo_config)"
  by (simp_all add: demo_bsd_def bsd_Socket_def demo_answer_def RegisterProxy_def BsdMitmService_new_def forwarded_def
      update_entry_def GetSocketEntry_def MaxSockets_def fresh_entry_def Let_def)

definition demo_datagram :: ProxyDataHeaderFull where
  "demo_datagram = \<lparr>pdh_info = \<lparr>pin_sourceIpV4 = 0x0A720002, pin_sourcePort = 7, pin_destIpV4 = 0x0A720001,
     pin_destPort = 5000, pin_protocol = IPPROTO_UDP\<rparr>, pdh_dataLength = 2\<rparr>"

definition any_address :: sockaddr_in where
  "any_address = \<lparr>sin_family = AF_INET, sin_addr = 0, sin_port = htons 5000\<rparr>"

theorem datagram_received_twice_witness:
  "\<exists>b1 px1 pool2 px2 st3 st4.
     bsd_Bind demo_answer 3 (put_sockaddr any_address) (zero_pool, demo_bsd) = Inr (Reply 0 0 (), zero_pool, b1)
     \<and> LdnProxy_callbacks (onProxyData (packet_header PacketId_ProxyData 22) demo_datagram ([7, 8], 2)) (zero_pool, px1) = Inr (pool2, px2)
     \<and> bsd_Recv demo_answer id 3 100 0 (pool2, b1\<lparr>bm_proxy := Some (0, px2)\<rparr>) = Inr (Reply 2 0 [7, 8], st3)
     \<and> bsd_Recv demo_answer id 3 100 0 st3 = Inr (Reply 2 0 [7, 8], st4)"
proof -
  have "sockaddr_at (put_sockaddr any_address) = Some any_address"
    by (rule sockaddr_at_put) (simp add: any_address_def AF_INET_def)
  moreover have "event_ok (onProxyData (packet_header PacketId_ProxyData 22) demo_datagram ([7, 8], 2))"
    by (simp add: event_ok_def HeaderSize_def MaxPacketSize_def)
  moreover have "isVirtualBind any_address demo_bsd" "sin_port any_address \<noteq> 0" "sin_family any_address = AF_INET"
    by (simp_all add: isVirtualBind_def any_address_def demo_bsd_fields)
  moreover have "pin_destPort (pdh_info demo_datagram) = ntohs (sin_port any_address)"
    "pin_protocol (pdh_info demo_datagram) = IPPROTO_UDP"
    "\<not> IsBroadcast (pin_destIpV4 (pdh_info demo_datagram)) (LdnProxy_new demo_config)"
    by (simp_all add: demo_datagram_def any_address_def IsBroadcast_def LdnProxy_new_def demo_config_def)
  moreover have "bm_socket_map demo_bsd ! 3 = fresh_udp 3" by (simp add: demo_bsd_fields)
  ultimately show ?thesis
    using datagram_received_twice [OF demo_bsd_reachable demo_bsd_fields(1) _ demo_bsd_fields(3),
        of "put_sockaddr any_address" any_address "(packet_header PacketId_ProxyData 22)" demo_datagram "[7, 8]" 2 100 demo_answer demo_answer id demo_answer id]
    by fastforce
qed

section \<open>A reply to an unbound socket\<close>

text \<open>
  C29: the replies to a datagram socket that sends without binding are lost. \<open>SendTo\<close> to an address of the
  virtual network sends from a new virtual socket and reports success, but does not mark the descriptor as
  virtual: whatever then arrives for that socket, every receive on the descriptor goes to the system.
\<close>

theorem unbound_sendto_misses_replies:
  assumes "bsd_reachable (pool, b)" and "GetSocketEntry fd = Some k"
    and "bm_socket_map b ! k = fresh_udp fd" and "bm_proxy b = Some (g, px)"
    and "sockaddr_at addr = Some sa" and "sin_family sa = AF_INET" and "IsVirtualIP (ntohl (sin_addr sa)) px"
    and "length data \<le> MaxPacketSize - 30" and "an_rc a2 = ResultSuccess"
  shows "\<exists>pool1 b1 px1 s.
     bsd_SendTo a fd data flags addr (pool, b) = Inr (Reply (int (length data)) 0 (), pool1, b1)
     \<and> bm_proxy b1 = Some (g, px1) \<and> vsock_of k b1 = Some (g, px_next px) \<and> px_heap px1 (px_next px) = Some s
     \<and> px_sent px1 = px_sent px @ [data_packet data (ps_localEndPoint s) sa IPPROTO_UDP]
     \<and> (\<forall>pool2 px2 wait n fl. bsd_Recv a2 wait fd n fl (pool2, b1\<lparr>bm_proxy := Some (g, px2)\<rparr>) =
          Inr (Reply (an_ret a2) (an_errno a2) (an_data a2), pool2,
               forwarded (Fw_Recv fd fl n) (b1\<lparr>bm_proxy := Some (g, px2)\<rparr>)))"
proof -
  have inv: "bsd_inv (pool, b)" by (rule bsd_reachable_inv [OF assms(1)])
  have lt: "k < length (bm_socket_map b)"
    using inv GetSocketEntry_lt [OF assms(2)] by (simp add: bsd_inv_def table_ok_def)
  have rdy: "pool_ready pool" using inv by (simp add: bsd_inv_def)
  have k: "bm_socket_map b ! k = (fresh_udp fd)\<lparr>se_type := SocketType_Real\<rparr>"
    using assms(3) by (simp add: fresh_entry_def)
  let ?i = "px_next px"
  define px0 where "px0 = px\<lparr>px_heap := (px_heap px)(?i \<mapsto> udp_socket), px_next := Suc ?i,
      px_sockets := px_sockets px @ [?i, ?i]\<rparr>"
  define b0 where "b0 = b\<lparr>bm_socket_map := (bm_socket_map b)[k := (fresh_udp fd)\<lparr>se_type := SocketType_Real,
      se_virtual_socket := Some (g, ?i)\<rparr>], bm_proxy := Some (g, px0)\<rparr>"
  have g: "GetVirtualSocket fd b = (Some (g, ?i), b0)"
    using GetVirtualSocket_fresh [OF assms(2) lt k assms(4)] by (simp add: b0_def px0_def)
  obtain port q where p: "GetEphemeralPort IPPROTO_UDP px0 = (port, q)" by force
  have q: "px_heap q = px_heap px0" "px_sent q = px_sent px0"
    using p by (auto simp: GetEphemeralPort_def Let_def split: option.splits prod.splits)
  define l where "l = \<lparr>sin_family = AF_INET, sin_addr = htonl (px_localIp q), sin_port = htons port\<rparr>"
  define s where "s = udp_socket\<lparr>ps_localEndPoint := l\<rparr>"
  have u: "\<not> ps_connected udp_socket" "ps_protocolType udp_socket = IPPROTO_UDP" "\<not> ps_isBound udp_socket"
    by (simp_all add: fresh_socket_def LdnProxySocket_new_def)
  have h0: "px_heap px0 ?i = Some udp_socket" by (simp add: px0_def)
  have ens: "EnsureLocalEndpoint False ?i px0 = Inr (l, store ?i s q)"
    using h0 p u by (simp add: EnsureLocalEndpoint_def deref_def Let_def l_def s_def)
  obtain pool1 where st: "SendTo data l sa IPPROTO_UDP (pool, store ?i s q) = Inr (int (length data), pool1,
      (store ?i s q)\<lparr>px_sent := px_sent (store ?i s q) @ [data_packet data l sa IPPROTO_UDP]\<rparr>)"
    using SendTo_sends [OF rdy assms(8)] by blast
  define px1 where "px1 = (store ?i s q)\<lparr>px_sent := px_sent (store ?i s q) @ [data_packet data l sa IPPROTO_UDP]\<rparr>"
  have "socket_SendTo data (Some sa) ?i (pool, px0) = Inr (int (length data), pool1, px1)"
    using h0 u ens st by (simp add: socket_SendTo_def deref_def px1_def ipproto_defs)
  then have send: "bsd_SendTo a fd data flags addr (pool, b) =
      Inr (Reply (int (length data)) 0 (), pool1, b0\<lparr>bm_proxy := Some (g, px1)\<rparr>)"
    using assms(4-7) g
    by (simp add: bsd_SendTo_def IsRyuLdnVirtualIP_def EnsureProxyAvailable_def call_proxy_def b0_def)
  have nv: "\<not> is_virtual fd (b0\<lparr>bm_proxy := r\<rparr>)" and v: "vsock_of k (b0\<lparr>bm_proxy := r\<rparr>) = Some (g, ?i)" for r
    using assms(2) lt by (simp_all add: is_virtual_def vsock_of_def b0_def)
  have "px_heap px1 ?i = Some s" "px_sent px1 = px_sent px @ [data_packet data (ps_localEndPoint s) sa IPPROTO_UDP]"
    by (simp_all add: px1_def store_def q px0_def s_def)
  moreover have "bsd_Recv a2 wait fd n fl (pool2, b0\<lparr>bm_proxy := Some (g, px2)\<rparr>) =
      Inr (Reply (an_ret a2) (an_errno a2) (an_data a2), pool2, forwarded (Fw_Recv fd fl n) (b0\<lparr>bm_proxy := Some (g, px2)\<rparr>))"
    for wait n fl pool2 px2
    using nv [of "Some (g, px2)"] assms(9) by (simp add: bsd_Recv_def)
  ultimately show ?thesis
    using send v [of "Some (g, px1)"]
    by (intro exI [of _ pool1] exI [of _ "b0\<lparr>bm_proxy := Some (g, px1)\<rparr>"] exI [of _ px1] exI [of _ s]) simp
qed

theorem unbound_sendto_misses_replies_witness:
  "\<exists>pool1 b1. bsd_SendTo demo_answer 3 [7, 8] 0 (put_sockaddr (GetEndpoint 0x0A720002 7)) (zero_pool, demo_bsd) =
       Inr (Reply 2 0 (), pool1, b1)
     \<and> (\<forall>pool2 px2 wait n fl. bsd_Recv demo_answer wait 3 n fl (pool2, b1\<lparr>bm_proxy := Some (0, px2)\<rparr>) =
          Inr (Reply 3 0 [], pool2, forwarded (Fw_Recv 3 fl n) (b1\<lparr>bm_proxy := Some (0, px2)\<rparr>)))"
proof -
  let ?sa = "GetEndpoint 0x0A720002 7"
  have "sockaddr_at (put_sockaddr ?sa) = Some ?sa"
    by (rule sockaddr_at_put) (simp add: GetEndpoint_def AF_INET_def)
  moreover have "sin_family ?sa = AF_INET" "IsVirtualIP (ntohl (sin_addr ?sa)) (LdnProxy_new demo_config)"
    by (simp_all add: GetEndpoint_def IsVirtualIP_def LdnProxy_new_def demo_config_def)
  moreover have "bm_socket_map demo_bsd ! 3 = fresh_udp 3" by (simp add: demo_bsd_fields)
  ultimately obtain pool1 b1 where
    "bsd_SendTo demo_answer 3 [7, 8] 0 (put_sockaddr ?sa) (zero_pool, demo_bsd) = Inr (Reply (int (length [7 :: u8, 8])) 0 (), pool1, b1)"
    "\<forall>pool2 px2 wait n fl. bsd_Recv demo_answer wait 3 n fl (pool2, b1\<lparr>bm_proxy := Some (0, px2)\<rparr>) =
          Inr (Reply (an_ret demo_answer) (an_errno demo_answer) (an_data demo_answer), pool2,
            forwarded (Fw_Recv 3 fl n) (b1\<lparr>bm_proxy := Some (0, px2)\<rparr>))"
    using unbound_sendto_misses_replies [OF demo_bsd_reachable demo_bsd_fields(1) _ demo_bsd_fields(3),
        of "put_sockaddr ?sa" ?sa "[7, 8]" demo_answer demo_answer 0]
    by (auto simp: MaxPacketSize_def demo_answer_def)
  then show ?thesis by (auto simp: demo_answer_def)
qed

section \<open>The table\<close>

lemma Poll_scan_returns:
  "bsd_inv (pool, b) \<Longrightarrow> \<exists>r b'. Poll_scan ps b = Inr (r, b')"
proof (induction ps arbitrary: b)
  case (Cons p ps)
  obtain vs b1 where g: "GetVirtualSocket (pf_fd p) b = (vs, b1)" by force
  note i1 = GetVirtualSocket_inv(1) [OF Cons.prems g]
  show ?case
  proof (cases vs)
    case None
    with Cons.IH [OF Cons.prems] Cons.IH [OF i1] g show ?thesis by auto
  next
    case (Some v)
    obtain k where k: "GetSocketEntry (pf_fd p) = Some k" "vsock_of k b1 = Some v"
      using GetVirtualSocket_inv(2) [OF Cons.prems g Some] by blast
    obtain s where "vsock_get v b1 = Inr s" using vsock_get_ok [OF i1 GetSocketEntry_lt [OF k(1)] k(2)] by blast
    with Cons.IH [OF Cons.prems] Cons.IH [OF i1] g Some show ?thesis by (auto simp: Let_def)
  qed
qed simp

lemma bsd_Poll_returns: "bsd_inv (pool, b) \<Longrightarrow> \<exists>x. bsd_Poll a ps n timeout (pool, b) = Inr x"
  using Poll_scan_returns [of pool b "take (unat n) ps"]
  by (auto simp: bsd_Poll_def Let_def split_beta split: option.split)

text \<open>
  C9: in every state the service can reach, whatever games, network and system do: the table has its 128
  entries; no two descriptors share a virtual socket, and every virtual socket of the table exists; closing
  a descriptor whose proxy is registered returns, deletes the socket, takes it off the proxy's list, and
  leaves an ordinary descriptor; and polling any descriptors returns without a fault.
\<close>

theorem bsd_reachable_safe:
  assumes "bsd_reachable (pool, b)"
  shows "length (bm_socket_map b) = 128
    \<and> inj_on (\<lambda>k. vsock_of k b) {k. k < 128 \<and> vsock_of k b \<noteq> None}
    \<and> (\<forall>k < 128. \<forall>v. vsock_of k b = Some v \<longrightarrow> (\<exists>s. vsock_get v b = Inr s))
    \<and> (\<forall>a fd k g i px. GetSocketEntry fd = Some k \<longrightarrow> is_virtual fd b \<longrightarrow> vsock_of k b = Some (g, i) \<longrightarrow>
         bm_proxy b = Some (g, px) \<longrightarrow>
         (\<exists>pool' b' px'. bsd_Close a fd (pool, b) = Inr (forward a (Fw_Close fd) (pool', b'))
            \<and> \<not> is_virtual fd b' \<and> vsock_of k b' = None \<and> bm_proxy b' = Some (g, px')
            \<and> px_heap px' i = None \<and> i \<notin> set (px_sockets px')))
    \<and> (\<forall>a ps n timeout. \<not> isl (bsd_Poll a ps n timeout (pool, b)))"
proof (intro conjI)
  have inv: "bsd_inv (pool, b)" by (rule bsd_reachable_inv [OF assms])
  then have tab: "table_ok b" by (simp add: bsd_inv_def)
  show len: "length (bm_socket_map b) = 128" using tab by (simp add: table_ok_def MaxSockets_def)
  show "inj_on (\<lambda>k. vsock_of k b) {k. k < 128 \<and> vsock_of k b \<noteq> None}"
    using tab by (fastforce simp: inj_on_def table_ok_def MaxSockets_def simp del: split_paired_All)
  show "\<forall>k < 128. \<forall>v. vsock_of k b = Some v \<longrightarrow> (\<exists>s. vsock_get v b = Inr s)"
    using vsock_get_ok [OF inv] by (auto simp: MaxSockets_def)
  show "\<forall>a fd k g i px. GetSocketEntry fd = Some k \<longrightarrow> is_virtual fd b \<longrightarrow> vsock_of k b = Some (g, i) \<longrightarrow>
         bm_proxy b = Some (g, px) \<longrightarrow>
         (\<exists>pool' b' px'. bsd_Close a fd (pool, b) = Inr (forward a (Fw_Close fd) (pool', b'))
            \<and> \<not> is_virtual fd b' \<and> vsock_of k b' = None \<and> bm_proxy b' = Some (g, px')
            \<and> px_heap px' i = None \<and> i \<notin> set (px_sockets px'))"
  proof (intro allI impI)
    fix a fd k g i px
    assume k: "GetSocketEntry fd = Some k" "is_virtual fd b" "vsock_of k b = Some (g, i)" "bm_proxy b = Some (g, px)"
    from bsd_Close_vsock [OF inv this, of a] obtain pool' b' px' where
      c: "bsd_Close a fd (pool, b) = Inr (forward a (Fw_Close fd) (pool', b'))"
        "bm_socket_map b' = (bm_socket_map b)[k := forget_entry (bm_socket_map b ! k)]"
        "bm_proxy b' = Some (g, px')" "px_heap px' i = None" "i \<notin> set (px_sockets px')" by blast
    have "k < length (bm_socket_map b)" using len GetSocketEntry_lt [OF k(1)] by (simp add: MaxSockets_def)
    then have "\<not> is_virtual fd b'" "vsock_of k b' = None"
      using k(1) c(2) by (simp_all add: is_virtual_def vsock_of_def forget_entry_def)
    with c show "\<exists>pool' b' px'. bsd_Close a fd (pool, b) = Inr (forward a (Fw_Close fd) (pool', b'))
            \<and> \<not> is_virtual fd b' \<and> vsock_of k b' = None \<and> bm_proxy b' = Some (g, px')
            \<and> px_heap px' i = None \<and> i \<notin> set (px_sockets px')" by blast
  qed
  show "\<forall>a ps n timeout. \<not> isl (bsd_Poll a ps n timeout (pool, b))"
    using bsd_Poll_returns [OF inv] by (metis sum.disc(2))
qed

text \<open>The state after the bind of the example above.\<close>

definition demo_bound :: BsdMitmService where
  "demo_bound = demo_bsd\<lparr>
     bm_socket_map := (bm_socket_map demo_bsd)[3 := (fresh_udp 3)\<lparr>se_type := SocketType_Virtual,
       se_virtual_socket := Some (0, 0)\<rparr>],
     bm_proxy := Some (0, (LdnProxy_new demo_config)\<lparr>px_heap := [0 \<mapsto>
         udp_socket\<lparr>ps_localEndPoint := bound_address any_address (LdnProxy_new demo_config), ps_isBound := True\<rparr>],
       px_next := 1, px_sockets := [0, 0]\<rparr>)\<rparr>"

lemma demo_bound_reachable: "bsd_reachable (zero_pool, demo_bound)"
proof -
  have a: "sockaddr_at (put_sockaddr any_address) = Some any_address"
    by (rule sockaddr_at_put) (simp add: any_address_def AF_INET_def)
  have n: "px_next (LdnProxy_new demo_config) = 0" "px_heap (LdnProxy_new demo_config) = Map.empty"
    "px_sockets (LdnProxy_new demo_config) = []" by (simp_all add: LdnProxy_new_def)
  have "bsd_Bind demo_answer 3 (put_sockaddr any_address) (zero_pool, demo_bsd) = Inr (Reply 0 0 (), zero_pool, demo_bound)"
    using bsd_Bind_fresh [OF demo_bsd_fields(1) _ _ demo_bsd_fields(3) a, where a = demo_answer and pool = zero_pool]
    by (simp add: demo_bound_def n demo_bsd_fields(2,3) any_address_def isVirtualBind_def)
  from bsd_reachable.Step [OF demo_bsd_reachable bsd_step.Bind [OF this]] show ?thesis .
qed

lemma demo_bound_fields:
  "is_virtual 3 demo_bound" "vsock_of 3 demo_bound = Some (0, 0)" "\<exists>px. bm_proxy demo_bound = Some (0, px)"
  by (simp_all add: demo_bound_def demo_bsd_fields is_virtual_def vsock_of_def)

theorem bsd_reachable_safe_witness:
  "\<exists>pool' b'. bsd_Close demo_answer 3 (zero_pool, demo_bound) = Inr (forward demo_answer (Fw_Close 3) (pool', b'))
     \<and> \<not> is_virtual 3 b'"
  using bsd_reachable_safe [OF demo_bound_reachable] demo_bsd_fields(1) demo_bound_fields by metis

text \<open>
  Closing a socket after the network has gone. The virtual sockets of the table outlive the proxy, which
  \<open>Finalize\<close> of the communication service unregisters and deletes. Closing a virtual descriptor then runs
  the destructor of its socket, which reads the deleted proxy.
\<close>

theorem close_after_network_faults:
  assumes "bsd_reachable (pool, b)" and "GetSocketEntry fd = Some k" and "is_virtual fd b"
    and "vsock_of k b = Some v"
  shows "bsd_reachable (pool, UnregisterProxy b)
    \<and> bsd_Close a fd (pool, UnregisterProxy b) = Inl UseAfterFree"
proof -
  have f: "bm_proxy (UnregisterProxy b) = None" "bm_socket_map (UnregisterProxy b) = bm_socket_map b"
    by (simp_all add: UnregisterProxy_def split: option.split)
  have "bsd_reachable (pool, UnregisterProxy b)"
    using assms(1) bsd_step.Unregister by (rule bsd_reachable.Step)
  moreover have "bsd_Close a fd (pool, UnregisterProxy b) = Inl UseAfterFree"
    using assms(2-4) f
    by (simp add: bsd_Close_def is_virtual_def vsock_of_def unregister_vsock_def call_proxy_def Let_def)
  ultimately show ?thesis by blast
qed

theorem close_after_network_faults_witness:
  "bsd_Close demo_answer 3 (zero_pool, UnregisterProxy demo_bound) = Inl UseAfterFree"
  using close_after_network_faults [OF demo_bound_reachable demo_bsd_fields(1) demo_bound_fields(1,2)] by blast

section \<open>Accepting\<close>

lemma BsdAccept_result:
  assumes "BsdAccept ok wakes set_addr i st = Inr (r, st')"
  shows "r = None \<or> (\<exists>e sa. r = Some (-1, e, sa) \<and> e \<noteq> E_OK) \<or> (\<exists>sa. r = Some (1, E_OK, sa))"
proof -
  obtain pool px s where s: "st = (pool, px)" "deref i px = Inr s"
    using assms by (cases st) (auto simp: BsdAccept_def bind_run_Inr_iff)
  show ?thesis
  proof (cases "ps_isListening s")
    case True
    then obtain q pool1 px1 where "Accept ok wakes i (pool, px) = Inr (q, pool1, px1)"
      using assms s by (auto simp: BsdAccept_def bind_run_Inr_iff)
    with True assms s show ?thesis by (cases q) (auto simp: BsdAccept_def bind_run_Inr_iff)
  qed (use assms s in \<open>auto simp: BsdAccept_def\<close>)
qed

text \<open>
  Accepting a connection through the service. \<open>Accept\<close> can only return the descriptor 1: it turns
  whatever the entry 1 was into a virtual one, while no entry of the table receives the accepted socket, so
  nothing the game can do reaches the connection.
\<close>

theorem accept_returns_descriptor_one:
  assumes "bsd_reachable (pool, b)" and "vsock_of (nat fd) b = Some v"
    and "bsd_Accept ok wakes fd n (pool, b) = Inr (Some (Reply new_fd 0 x), pool', b')"
  shows "new_fd = 1 \<and> is_virtual 1 b' \<and> (\<forall>k. vsock_of k b' = vsock_of k b)"
proof -
  have inv: "bsd_inv (pool, b)" by (rule bsd_reachable_inv [OF assms(1)])
  have len: "length (bm_socket_map b) = MaxSockets" using inv by (simp add: bsd_inv_def table_ok_def)
  have virt: "is_virtual fd b" "EnsureProxyAvailable b"
    using assms(3) by (auto simp: bsd_Accept_def virtual_only_def EBADF_def EHOSTUNREACH_def split: if_splits)
  then have g: "GetVirtualSocket fd b = (Some v, b)"
    using assms(2) by (auto simp: is_virtual_def GetVirtualSocket_def vsock_of_def GetSocketEntry_def split: if_splits)
  obtain r pool1 b1 where c: "call_proxy (BsdAccept ok wakes True) v (pool, b) = Inr (r, pool1, b1)"
    using assms(3) virt g by (auto simp: bsd_Accept_def virtual_only_def bind_run_Inr_iff)
  have m: "bm_socket_map b1 = bm_socket_map b"
    using c by (auto simp: call_proxy_def bind_run_Inr_iff split: option.splits if_splits)
  have r: "r = None \<or> (\<exists>e sa. r = Some (-1, e, sa) \<and> e \<noteq> E_OK) \<or> (\<exists>sa. r = Some (1, E_OK, sa))"
    using c BsdAccept_result by (fastforce simp: call_proxy_def bind_run_Inr_iff split: option.splits if_splits)
  have "errno_code e \<noteq> 0" if "e \<noteq> E_OK" for e using that by (cases e) simp_all
  with r assms(3) virt g c have
    "new_fd = 1 \<and> b' = update_entry 1 (\<lambda>e. e\<lparr>se_type := SocketType_Virtual,
        se_address_family := se_address_family (bm_socket_map b1 ! nat fd),
        se_socket_type := se_socket_type (bm_socket_map b1 ! nat fd),
        se_protocol_type := se_protocol_type (bm_socket_map b1 ! nat fd)\<rparr>) b1"
    by (auto simp: bsd_Accept_def virtual_only_def Let_def GetSocketEntry_def MaxSockets_def split: if_splits)
  then show ?thesis
    using len m by (auto simp: is_virtual_def GetSocketEntry_def vsock_of_def update_entry_def MaxSockets_def nth_list_update)
qed

text \<open>A listening socket that gets a request for its address accepts it.\<close>

lemma SignalConnected_ok:
  assumes "pool_ready pool"
  shows "\<exists>pool' m. SignalConnected l r t (pool, px) = Inr (pool', px\<lparr>px_sent := m\<rparr>)"
proof -
  let ?m = "put_ProxyConnectResponseFull \<lparr>pcp_info = MakeInfo l r t\<rparr>"
  have "length ?m = 16"
    by (rule ProxyConnectResponseFull_wire.length_put_wf)
       (simp add: wf_ProxyConnectResponseFull_def wf_ProxyInfo_def)
  then have "HeaderSize + length ?m \<le> BufferSize"
    by (simp add: BufferSize_def MaxPacketSize_def HeaderSize_def)
  from send_encoded_ok [OF assms this Encode_struct_packet, of PacketId_ProxyConnectReply px]
  show ?thesis by (auto simp: SignalConnected_def)
qed

lemma deref_store: "deref i (store i s px) = Inr s"
  by (simp add: deref_def store_def)

lemma AsAccepted_new:
  assumes "pool_ready pool" and "px_heap px j = Some s"
  shows "\<exists>pool' px' s'. AsAccepted r j (pool, px) = Inr (pool', px')
    \<and> px_heap px' = (px_heap px)(j \<mapsto> s') \<and> ps_remoteEndPoint s' = r"
proof -
  let ?s = "s\<lparr>ps_connected := True, ps_remoteEndPoint := r\<rparr>"
  have "\<exists>l q. EnsureLocalEndpoint True j (store j ?s px) = Inr (l, q)"
    by (simp add: EnsureLocalEndpoint_def deref_def store_def Let_def split_beta)
  then obtain l q where e: "EnsureLocalEndpoint True j (store j ?s px) = Inr (l, q)" by blast
  define t where "t = (if ps_isBound s \<and> sin_port (ps_localEndPoint s) \<noteq> 0
    then ReturnEphemeralPort (ps_protocolType s) (ntohs (sin_port (ps_localEndPoint s))) (store j ?s px) else store j ?s px)"
  obtain port u where u: "GetEphemeralPort (ps_protocolType s) t = (port, u)" by force
  have "px_heap u = px_heap t"
    using u by (auto simp: GetEphemeralPort_def Let_def split: option.splits prod.splits)
  moreover have "px_heap t = (px_heap px)(j \<mapsto> ?s)" by (simp add: t_def ReturnEphemeralPort_def store_def split: option.split)
  moreover have "q = store j (?s\<lparr>ps_localEndPoint := l\<rparr>) u"
    using e u by (auto simp: EnsureLocalEndpoint_def deref_store Let_def t_def split: if_splits)
  ultimately have h: "px_heap q = (px_heap px)(j \<mapsto> ?s\<lparr>ps_localEndPoint := l\<rparr>)" by (simp add: store_def)
  obtain pool' m where "SignalConnected l r (ps_protocolType s) (pool, q) = Inr (pool', q\<lparr>px_sent := m\<rparr>)"
    using SignalConnected_ok [OF assms(1)] by blast
  with e have "AsAccepted r j (pool, px) = Inr (pool', q\<lparr>px_sent := m\<rparr>)"
    using assms(2) by (simp add: AsAccepted_def deref_def)
  moreover have "px_heap (q\<lparr>px_sent := m\<rparr>) = (px_heap px)(j \<mapsto> ?s\<lparr>ps_localEndPoint := l\<rparr>)" using h by simp
  moreover have "ps_remoteEndPoint (?s\<lparr>ps_localEndPoint := l\<rparr>) = r" by simp
  ultimately show ?thesis by blast
qed

lemma BsdAccept_request:
  assumes "pool_ready pool" and "px_heap px i = Some s" and "i < px_next px" and "ps_isListening s" and "ps_blocking s"
    and "ps_connectRequests s = []"
    and "GetEndpoint (pin_destIpV4 (pcr_info request)) (pin_destPort (pcr_info request)) = ps_localEndPoint s"
  shows "\<exists>pool' px'. BsdAccept True [[request]] True i (pool, px) =
    Inr (Some (1, E_OK, Some (GetEndpoint (pin_sourceIpV4 (pcr_info request)) (pin_sourcePort (pcr_info request)))), pool', px')"
proof -
  let ?r = "GetEndpoint (pin_sourceIpV4 (pcr_info request)) (pin_sourcePort (pcr_info request))"
  define s1 where "s1 = s\<lparr>ps_acceptEvent := False, ps_connectRequests := []\<rparr>"
  define n where "n = LdnProxySocket_new (ps_addressFamily s) (ps_socketType s) (ps_protocolType s)"
  define px1 where "px1 = snd (socket_create (ps_addressFamily s) (ps_socketType s) (ps_protocolType s) (store i s1 (store i
      (s\<lparr>ps_connectRequests := [request], ps_acceptEvent := False\<rparr>) px)))"
  let ?j = "px_next px"
  have h1: "px_heap px1 = (px_heap px)(i \<mapsto> s1, ?j \<mapsto> n)"
    by (simp add: px1_def socket_create_def Let_def store_def RegisterSocket_def n_def)
  from AsAccepted_new [OF assms(1), of px1 ?j n ?r] h1 obtain pool' px' s' where
    a: "AsAccepted ?r ?j (pool, px1) = Inr (pool', px')" "px_heap px' = (px_heap px)(i \<mapsto> s1, ?j \<mapsto> s')"
      "ps_remoteEndPoint s' = ?r"
    by auto
  have c: "socket_create (ps_addressFamily s) (ps_socketType s) (ps_protocolType s) (store i s1 (store i
      (s\<lparr>ps_connectRequests := [request], ps_acceptEvent := False\<rparr>) px)) = (?j, px1)"
    by (simp add: px1_def socket_create_def Let_def store_def)
  have "Accept True [[request]] i (pool, px) = Inr (Accepted ?j, pool',
      store i (s1\<lparr>ps_listenSockets := ps_listenSockets s1 @ [?j]\<rparr>) px')"
    using assms(2-7) a c
    by (simp add: Accept_def deref_store deref_Some [THEN iffD2] IncomingConnectionRequest_def Let_def s1_def)
  with assms(2,3,4) a show ?thesis
    by (simp add: BsdAccept_def deref_def store_def)
qed

text \<open>A stream socket that listens at the port 5000, and a request for it.\<close>

definition demo_stream :: BsdMitmService where
  "demo_stream = snd (bsd_Socket demo_answer 2 1 IPPROTO_TCP (RegisterProxy (LdnProxy_new demo_config) BsdMitmService_new))"

definition demo_listener :: "bool \<Rightarrow> BsdMitmService" where
  "demo_listener l = demo_stream\<lparr>
     bm_socket_map := (bm_socket_map demo_stream)[3 := (fresh_entry 1 IPPROTO_TCP 3)\<lparr>se_type := SocketType_Virtual,
       se_virtual_socket := Some (0, 0)\<rparr>],
     bm_proxy := Some (0, (LdnProxy_new demo_config)\<lparr>px_heap := [0 \<mapsto>
         (fresh_socket 1 IPPROTO_TCP)\<lparr>ps_localEndPoint := bound_address any_address (LdnProxy_new demo_config),
           ps_isBound := True, ps_isListening := l\<rparr>],
       px_next := 1, px_sockets := [0, 0]\<rparr>)\<rparr>"

definition demo_request :: ProxyConnectRequestFull where
  "demo_request = \<lparr>pcr_info = \<lparr>pin_sourceIpV4 = 0x0A720002, pin_sourcePort = 7, pin_destIpV4 = px_localIp (LdnProxy_new demo_config),
     pin_destPort = 5000, pin_protocol = IPPROTO_TCP\<rparr>\<rparr>"

lemma demo_stream_reachable: "bsd_reachable (zero_pool, demo_stream)"
proof -
  have "bsd_reachable (zero_pool, RegisterProxy (LdnProxy_new demo_config) BsdMitmService_new)"
    by (rule bsd_reachable.Step [OF bsd_reachable.New [OF zero_pool_ready] bsd_step.Register])
      (simp add: BsdMitmService_new_def)
  then show ?thesis unfolding demo_stream_def by (rule bsd_reachable.Step) (rule bsd_step.Socket)
qed

lemma demo_stream_fields:
  "bm_socket_map demo_stream = (replicate 128 zero_entry)[3 := fresh_entry 1 IPPROTO_TCP 3]"
  "bm_proxy demo_stream = Some (0, LdnProxy_new demo_config)"
  by (simp_all add: demo_stream_def bsd_Socket_def demo_answer_def RegisterProxy_def BsdMitmService_new_def forwarded_def
      update_entry_def GetSocketEntry_def MaxSockets_def fresh_entry_def Let_def)

lemma demo_listener_facts:
  "is_virtual 3 (demo_listener l)" "EnsureProxyAvailable (demo_listener l)"
  "GetVirtualSocket 3 (demo_listener l) = (Some (0, 0), demo_listener l)" "vsock_of 3 (demo_listener l) = Some (0, 0)"
  using demo_bsd_fields(1)
  by (simp_all add: demo_listener_def demo_stream_fields is_virtual_def EnsureProxyAvailable_def GetVirtualSocket_def
      vsock_of_def)

lemma demo_listener_reachable: "bsd_reachable (zero_pool, demo_listener True)"
proof -
  have a: "sockaddr_at (put_sockaddr any_address) = Some any_address"
    by (rule sockaddr_at_put) (simp add: any_address_def AF_INET_def)
  have n: "px_next (LdnProxy_new demo_config) = 0" "px_heap (LdnProxy_new demo_config) = Map.empty"
    "px_sockets (LdnProxy_new demo_config) = []" by (simp_all add: LdnProxy_new_def)
  have "bsd_Bind demo_answer 3 (put_sockaddr any_address) (zero_pool, demo_stream) =
      Inr (Reply 0 0 (), zero_pool, demo_listener False)"
    using bsd_Bind_fresh [OF demo_bsd_fields(1) _ _ demo_stream_fields(2) a, where a = demo_answer and pool = zero_pool]
    by (simp add: demo_listener_def n demo_stream_fields any_address_def isVirtualBind_def fresh_socket_def LdnProxySocket_new_def)
  from bsd_reachable.Step [OF demo_stream_reachable bsd_step.Bind [OF this]]
  have r: "bsd_reachable (zero_pool, demo_listener False)" .
  have "bsd_Listen 3 1 (zero_pool, demo_listener False) = Inr (Some (Reply 0 0 ()), zero_pool, demo_listener True)"
    by (simp add: bsd_Listen_def virtual_call_def virtual_only_def demo_listener_facts)
      (simp add: demo_listener_def call_socket_def vsock_get_def vsock_put_def BsdListen_def Listen_def bsd_reply_def store_def)
  from bsd_reachable.Step [OF r bsd_step.Listen [OF this]] show ?thesis .
qed

theorem accept_returns_descriptor_one_witness:
  "\<exists>x pool' b'. bsd_Accept True [[demo_request]] 3 16 (zero_pool, demo_listener True) = Inr (Some (Reply 1 0 x), pool', b')
     \<and> is_virtual 1 b'"
proof -
  let ?l = "demo_listener True"
  obtain px where px: "bm_proxy ?l = Some (0, px)" by (simp add: demo_listener_def)
  obtain s where s: "px_heap px 0 = Some s" "ps_isListening s" "ps_blocking s" "ps_connectRequests s = []" "0 < px_next px"
      "ps_localEndPoint s = bound_address any_address (LdnProxy_new demo_config)"
    by (rule that [where s = "(fresh_socket 1 IPPROTO_TCP)\<lparr>ps_localEndPoint := bound_address any_address
        (LdnProxy_new demo_config), ps_isBound := True, ps_isListening := True\<rparr>"])
      (use px in \<open>auto simp: demo_listener_def fresh_socket_def LdnProxySocket_new_def\<close>)
  have "GetEndpoint (pin_destIpV4 (pcr_info demo_request)) (pin_destPort (pcr_info demo_request)) = ps_localEndPoint s"
    by (simp add: s GetEndpoint_def demo_request_def bound_address_def any_address_def)
  from BsdAccept_request [OF zero_pool_ready s(1,5,2-4) this] obtain sa pool' px' where
    "BsdAccept True [[demo_request]] True 0 (zero_pool, px) = Inr (Some (1, E_OK, Some sa), pool', px')" by blast
  then obtain x b' where r: "bsd_Accept True [[demo_request]] 3 16 (zero_pool, ?l) = Inr (Some (Reply 1 0 x), pool', b')"
    using px by (simp add: bsd_Accept_def virtual_only_def demo_listener_facts call_proxy_def Let_def)
  with accept_returns_descriptor_one [OF demo_listener_reachable _ r, of "(0, 0)"] demo_listener_facts(4)
  show ?thesis by auto
qed

section \<open>Selecting\<close>

text \<open>
  C8: \<open>Select\<close> computes what the sets of the client, the virtual sockets and the system call for. For every
  reachable service and every number of descriptors that the arrays have room for: the result for reading
  holds exactly the asked virtual descriptors that are readable and the descriptors the system reports, the
  same for writing and for errors; the count is the number of distinct descriptors in the three; the system
  is asked if and only if an ordinary descriptor is wanted, with the client's sets less every virtual one.
\<close>

theorem select_computes_sets:
  assumes "bsd_reachable (pool, b)" and "0 \<le> nfds" and "nat nfds \<le> 8 * fdbytes"
    and "\<forall>fd < nat nfds. is_virtual (int fd) b \<longrightarrow> vsock_of fd b \<noteq> None"
    and "full_set fdbytes readfds" and "full_set fdbytes writefds" and "full_set fdbytes exceptfds"
    and "an_rc a = ResultSuccess" and "0 \<le> an_ret a" and "an_sets a = (ar, aw, ae)"
    and "length ar = fdbytes" and "length aw = fdbytes" and "length ae = fdbytes"
  shows "let n = nat nfds; ins = (fd_null readfds, fd_null writefds, fd_null exceptfds);
      real = needs_system ins n b; V = {..<n} \<inter> virtuals b;
      R = select_spec (fd_null readfds) IsReadable n real ar b;
      W = select_spec (fd_null writefds) IsWritable n real aw b;
      E = select_spec (fd_null exceptfds) HasError n real ae b in
    \<exists>r w e f tv. bsd_Select fdbytes a nfds readfds writefds exceptfds timeout (pool, b) =
        Inr (Reply (int (card (R \<union> W \<union> E))) 0 (r, w, e), pool,
          if real then forwarded (Fw_Select nfds tv (fs_read f) (fs_write f) (fs_except f)) b else b)
      \<and> (readfds \<noteq> [] \<longrightarrow> fds_of (take fdbytes r) = R) \<and> (writefds \<noteq> [] \<longrightarrow> fds_of (take fdbytes w) = W)
      \<and> (exceptfds \<noteq> [] \<longrightarrow> fds_of (take fdbytes e) = E)
      \<and> sets_are f (fds_of (take fdbytes readfds) - V) (fds_of (take fdbytes writefds) - V) (fds_of (take fdbytes exceptfds) - V)"
proof -
  have inv: "bsd_inv (pool, b)" by (rule bsd_reachable_inv [OF assms(1)])
  have "sockets_exist (nat nfds) b"
    unfolding sockets_exist_def
  proof (intro allI impI)
    fix fd assume fd: "fd < nat nfds" "is_virtual (int fd) b"
    then have "fd < MaxSockets" by (auto simp: is_virtual_def GetSocketEntry_def split: if_splits)
    moreover obtain v where "vsock_of fd b = Some v" using assms(4) fd by blast
    ultimately show "\<exists>v s. vsock_of fd b = Some v \<and> vsock_get v b = Inr s" using vsock_get_ok [OF inv] by blast
  qed
  from Select_sets [OF assms(2,3) this assms(5-13) refl refl refl refl refl, of timeout pool]
    fd_result_full [OF assms(5)] fd_result_full [OF assms(6)] fd_result_full [OF assms(7)]
  show ?thesis unfolding Let_def by (elim exE conjE) (auto simp: sets_are_def)
qed

lemma demo_mask: "fd < 8 \<Longrightarrow> fd \<in> fds_of (8 # replicate 15 0) \<longleftrightarrow> fd = 3"
proof -
  assume lt: "fd < 8"
  have "(8 :: u8) = 2 ^ 3" by simp
  then have "bit (8 :: u8) fd \<longleftrightarrow> fd = 3" by (simp only: bit_exp_iff) auto
  with lt show ?thesis by (simp add: fds_of_def)
qed

theorem select_computes_sets_witness:
  "\<exists>r w e. bsd_Select 16 (demo_answer\<lparr>an_sets := (replicate 16 0, replicate 16 0, replicate 16 0)\<rparr>) 8 []
      (8 # replicate 15 0) [] [] (zero_pool, demo_bound) = Inr (Reply 1 0 (r, w, e), zero_pool, demo_bound)
    \<and> fds_of (take 16 w) = {3}"
proof -
  let ?m = "8 # replicate 15 0 :: bytes" and ?z = "replicate 16 0 :: bytes"
  have v: "is_virtual (int fd) demo_bound \<longleftrightarrow> fd = 3" if "fd < 8" for fd
    using that by (auto simp: demo_bound_def demo_bsd_fields(2) is_virtual_def GetSocketEntry_def MaxSockets_def
        zero_entry_def nth_list_update)
  have "vready IsWritable demo_bound 3"
    using v [of 3] by (simp add: vready_def demo_bound_fields)
      (simp add: demo_bound_def vsock_get_def IsWritable_def fresh_socket_def LdnProxySocket_new_def)
  then have W: "select_spec (fd_null ?m) IsWritable 8 False ?z demo_bound = {3}"
    using demo_mask by (auto simp: select_spec_def found_def fd_null_def client_set_def)
  have N: "select_spec (fd_null []) p 8 False ?z demo_bound = {}" for p
    by (simp add: select_spec_def found_def fd_null_def client_set_def)
  have real: "needs_system (fd_null [], fd_null ?m, fd_null []) 8 demo_bound = False"
    using demo_mask v by (auto simp: needs_system_def any_set_def fd_null_def client_set_def virtuals_def)
  have n8: "nat 8 = 8" by simp
  show ?thesis
    using select_computes_sets [OF demo_bound_reachable, of 8 16 "[]" ?m "[]" "demo_answer\<lparr>an_sets := (?z, ?z, ?z)\<rparr>" ?z ?z ?z "[]"]
      v demo_bound_fields(2)
    unfolding Let_def n8 real N W by (auto simp: full_set_def demo_answer_def)
qed

end
