(* ===== verification/Overlay_Keyboard.thy ===== *)
theory Overlay_Keyboard
  imports Ldn_Prelude
begin

text \<open>
  \<open>src/overlay/source/custom_keyboard.hpp\<close>: the two on-screen keyboards of the settings menu. A state is a
  record of the members, an input is the set of buttons that went down in a frame. Drawing is left out.
  What a frame does to the outside is a \<open>KeyResult\<close>: whether the input was used, and whether the keyboard
  closes (\<open>tsl::goBack\<close>), with the text its callback was called with before.
\<close>

section \<open>Input\<close>

datatype Button =
    HidNpadButton_A | HidNpadButton_B | HidNpadButton_X | HidNpadButton_Y | HidNpadButton_Plus
  | HidNpadButton_Left | HidNpadButton_Right | HidNpadButton_Up | HidNpadButton_Down

datatype KeyResult = Unused | Used | GoBack "string option"

definition strlen :: "string \<Rightarrow> int" where
  "strlen s = int (length s)"

text \<open>\<open>rows[y]\<close> and \<open>rows[y][x]\<close>; the character after the last one of a row is its terminating zero.\<close>

definition row_at :: "string list \<Rightarrow> int \<Rightarrow> string run" where
  "row_at rows y = (if 0 \<le> y \<and> nat y < length rows then Inr (rows ! nat y) else Inl BufferOverrun)"

definition char_at :: "string \<Rightarrow> int \<Rightarrow> char run" where
  "char_at row x =
     (if 0 \<le> x \<and> nat x \<le> length row then Inr ((row @ [CHR 0x00]) ! nat x) else Inl BufferOverrun)"

section \<open>The keyboard for addresses and ports\<close>

record CustomKeyboardGui =
  ck_text :: string
  ck_maxLen :: nat
  ck_cursorX :: int
  ck_cursorY :: int

definition CK_ROWS :: "string list" where
  "CK_ROWS = [''123'', ''456'', ''789'', ''0.'']"

definition CustomKeyboardGui_new :: "string \<Rightarrow> nat \<Rightarrow> CustomKeyboardGui" where
  "CustomKeyboardGui_new initial maxLen =
     \<lparr>ck_text = initial, ck_maxLen = maxLen, ck_cursorX = 0, ck_cursorY = 0\<rparr>"

text \<open>After the row has changed: \<open>m_cursorX\<close> is cut back to the end of the new one.\<close>

definition ck_adjust :: "CustomKeyboardGui \<Rightarrow> CustomKeyboardGui run" where
  "ck_adjust g =
     bind_run (row_at CK_ROWS (ck_cursorY g)) (\<lambda>row.
       let maxX = strlen row - 1 in
       Inr (if maxX < ck_cursorX g then g\<lparr>ck_cursorX := maxX\<rparr> else g))"

definition ck_handleInput :: "Button set \<Rightarrow> CustomKeyboardGui \<Rightarrow> (KeyResult \<times> CustomKeyboardGui) run" where
  "ck_handleInput keysDown g =
     (if HidNpadButton_Left \<in> keysDown then
        Inr (Used, if 0 < ck_cursorX g then g\<lparr>ck_cursorX := ck_cursorX g - 1\<rparr> else g)
      else if HidNpadButton_Right \<in> keysDown then
        bind_run (row_at CK_ROWS (ck_cursorY g)) (\<lambda>row.
          let maxX = strlen row - 1 in
          Inr (Used, if ck_cursorX g < maxX then g\<lparr>ck_cursorX := ck_cursorX g + 1\<rparr> else g))
      else if HidNpadButton_Up \<in> keysDown then
        if 0 < ck_cursorY g
        then bind_run (ck_adjust (g\<lparr>ck_cursorY := ck_cursorY g - 1\<rparr>)) (\<lambda>g. Inr (Used, g))
        else Inr (Used, g)
      else if HidNpadButton_Down \<in> keysDown then
        if ck_cursorY g < int (length CK_ROWS) - 1
        then bind_run (ck_adjust (g\<lparr>ck_cursorY := ck_cursorY g + 1\<rparr>)) (\<lambda>g. Inr (Used, g))
        else Inr (Used, g)
      else if HidNpadButton_A \<in> keysDown then
        if length (ck_text g) < ck_maxLen g then
          bind_run (row_at CK_ROWS (ck_cursorY g)) (\<lambda>row.
          bind_run (char_at row (ck_cursorX g)) (\<lambda>ch.
            Inr (Used, g\<lparr>ck_text := ck_text g @ [ch]\<rparr>)))
        else Inr (Used, g)
      else if HidNpadButton_X \<in> keysDown then
        Inr (Used, if ck_text g \<noteq> [] then g\<lparr>ck_text := butlast (ck_text g)\<rparr> else g)
      else if HidNpadButton_Plus \<in> keysDown then Inr (GoBack (Some (ck_text g)), g)
      else if HidNpadButton_B \<in> keysDown then Inr (GoBack None, g)
      else Inr (Unused, g))"

section \<open>The keyboard for the passphrase\<close>

record PassphraseKeyboardGui =
  pk_text :: string
  pk_maxLen :: nat
  pk_cursorX :: int
  pk_cursorY :: int
  pk_selectedAction :: int

definition PK_ROWS :: "string list" where
  "PK_ROWS = [''0123'', ''4567'', ''89ab'', ''cdef'']"

definition PassphraseKeyboardGui_new :: "string \<Rightarrow> nat \<Rightarrow> PassphraseKeyboardGui" where
  "PassphraseKeyboardGui_new initial maxLen =
     \<lparr>pk_text = initial, pk_maxLen = maxLen, pk_cursorX = 0, pk_cursorY = 0, pk_selectedAction = -1\<rparr>"

definition hex :: string where "hex = ''0123456789abcdef''"

text \<open>\<open>dis i\<close> is the \<open>i\<close>-th draw of the uniform distribution on 0 to 15.\<close>

definition random_digits :: "(nat \<Rightarrow> nat) \<Rightarrow> string" where
  "random_digits dis = map (\<lambda>i. hex ! dis i) [0..<8]"

definition pk_adjust :: "PassphraseKeyboardGui \<Rightarrow> PassphraseKeyboardGui run" where
  "pk_adjust g =
     bind_run (row_at PK_ROWS (pk_cursorY g)) (\<lambda>row.
       Inr (if strlen row \<le> pk_cursorX g then g\<lparr>pk_cursorX := strlen row - 1\<rparr> else g))"

text \<open>A cursor moved within a row: the sum is one of \<open>size_t\<close>.\<close>

definition cursor_in_row :: "int \<Rightarrow> string \<Rightarrow> int" where
  "cursor_in_row x row = int (unat (word_of_int x :: u64) mod length row)"

definition pk_backspace_or_cancel :: "Button set \<Rightarrow> PassphraseKeyboardGui \<Rightarrow> (KeyResult \<times> PassphraseKeyboardGui) run" where
  "pk_backspace_or_cancel keysDown g =
     (if HidNpadButton_X \<in> keysDown then
        Inr (Used, if pk_text g \<noteq> [] then g\<lparr>pk_text := butlast (pk_text g)\<rparr> else g)
      else if HidNpadButton_B \<in> keysDown then Inr (GoBack None, g)
      else Inr (Unused, g))"

definition pk_add_character :: "PassphraseKeyboardGui \<Rightarrow> (KeyResult \<times> PassphraseKeyboardGui) run" where
  "pk_add_character g =
     (if length (pk_text g) < pk_maxLen g then
        bind_run (row_at PK_ROWS (pk_cursorY g)) (\<lambda>row.
        bind_run (char_at row (pk_cursorX g)) (\<lambda>ch.
          let g = g\<lparr>pk_text := pk_text g @ [ch]\<rparr> in
          Inr (if length (pk_text g) = 8 then GoBack (Some (''Ryujinx-'' @ pk_text g)) else Used, g)))
      else Inr (Used, g))"

definition pk_action :: "(nat \<Rightarrow> nat) \<Rightarrow> PassphraseKeyboardGui \<Rightarrow> KeyResult \<times> PassphraseKeyboardGui" where
  "pk_action dis g =
     (if pk_selectedAction g = 0 then
        let g = g\<lparr>pk_text := random_digits dis\<rparr> in (GoBack (Some (''Ryujinx-'' @ pk_text g)), g)
      else if pk_selectedAction g = 1 then (GoBack (Some []), g)
      else if pk_selectedAction g = 2 then (GoBack None, g)
      else (Used, g))"

definition pk_handleInput ::
    "(nat \<Rightarrow> nat) \<Rightarrow> Button set \<Rightarrow> PassphraseKeyboardGui \<Rightarrow> (KeyResult \<times> PassphraseKeyboardGui) run" where
  "pk_handleInput dis keysDown g =
     (if HidNpadButton_Y \<in> keysDown then
        Inr (Used, if pk_selectedAction g = -1 then g\<lparr>pk_selectedAction := 0\<rparr>
                   else g\<lparr>pk_selectedAction := -1, pk_cursorX := 0, pk_cursorY := 0\<rparr>)
      else if pk_selectedAction g = -1 then
        if HidNpadButton_Down \<in> keysDown then
          bind_run (pk_adjust (g\<lparr>pk_cursorY := (pk_cursorY g + 1) mod int (length PK_ROWS)\<rparr>)) (\<lambda>g. Inr (Used, g))
        else if HidNpadButton_Up \<in> keysDown then
          bind_run (pk_adjust (g\<lparr>pk_cursorY := (pk_cursorY g - 1 + int (length PK_ROWS)) mod int (length PK_ROWS)\<rparr>))
            (\<lambda>g. Inr (Used, g))
        else if HidNpadButton_Right \<in> keysDown then
          bind_run (row_at PK_ROWS (pk_cursorY g)) (\<lambda>row.
            Inr (Used, g\<lparr>pk_cursorX := cursor_in_row (pk_cursorX g + 1) row\<rparr>))
        else if HidNpadButton_Left \<in> keysDown then
          bind_run (row_at PK_ROWS (pk_cursorY g)) (\<lambda>row.
            Inr (Used, g\<lparr>pk_cursorX := cursor_in_row (pk_cursorX g - 1 + strlen row) row\<rparr>))
        else if HidNpadButton_A \<in> keysDown then pk_add_character g
        else pk_backspace_or_cancel keysDown g
      else if HidNpadButton_Right \<in> keysDown then
        Inr (Used, g\<lparr>pk_selectedAction := (pk_selectedAction g + 1) mod 3\<rparr>)
      else if HidNpadButton_Left \<in> keysDown then
        Inr (Used, g\<lparr>pk_selectedAction := (pk_selectedAction g - 1 + 3) mod 3\<rparr>)
      else if HidNpadButton_A \<in> keysDown then Inr (pk_action dis g)
      else pk_backspace_or_cancel keysDown g)"

section \<open>A visit\<close>

text \<open>
  A keyboard gets the input of every frame until it closes. \<open>None\<close>: it is still open when the inputs end.
\<close>

fun visit :: "('k \<Rightarrow> 'g \<Rightarrow> (KeyResult \<times> 'g) run) \<Rightarrow> 'k list \<Rightarrow> 'g \<Rightarrow> (string option option \<times> 'g) run" where
  "visit handle [] g = Inr (None, g)"
| "visit handle (k # ks) g =
     bind_run (handle k g) (\<lambda>(r, g). case r of GoBack entered \<Rightarrow> Inr (Some entered, g) | _ \<Rightarrow> visit handle ks g)"

text \<open>What every frame keeps, every visit keeps.\<close>

lemma visit_inv:
  assumes step: "\<And>k g. k \<in> K \<Longrightarrow> I g \<Longrightarrow> \<exists>r g'. handle k g = Inr (r, g') \<and> I g' \<and> (\<forall>s. r = GoBack (Some s) \<longrightarrow> Q s)"
  shows "set ks \<subseteq> K \<Longrightarrow> I g \<Longrightarrow>
    \<exists>r g'. visit handle ks g = Inr (r, g') \<and> I g' \<and> (\<forall>s. r = Some (Some s) \<longrightarrow> Q s)"
proof (induction ks arbitrary: g)
  case (Cons k ks)
  from step [of k g] Cons.prems obtain r g' where
    h: "handle k g = Inr (r, g')" "I g'" "\<forall>s. r = GoBack (Some s) \<longrightarrow> Q s" by auto
  show ?case
  proof (cases r)
    case (GoBack e)
    with h show ?thesis by auto
  qed (use h Cons.IH [of g'] Cons.prems in auto)
qed simp

lemma visit_append:
  "visit handle ks g = Inr (None, g') \<Longrightarrow> visit handle (ks @ ls) g = visit handle ls g'"
proof (induction ks arbitrary: g)
  case (Cons k ks)
  then obtain r g1 where h: "handle k g = Inr (r, g1)" by (auto simp: bind_run_Inr_iff)
  show ?case
  proof (cases r)
    case (GoBack e)
    with h Cons.prems show ?thesis by simp
  qed (use h Cons in auto)
qed simp

section \<open>The cursor stays on the keys\<close>

definition ck_ok :: "CustomKeyboardGui \<Rightarrow> bool" where
  "ck_ok g \<longleftrightarrow>
     0 \<le> ck_cursorY g \<and> ck_cursorY g < 4 \<and> 0 \<le> ck_cursorX g
     \<and> ck_cursorX g < strlen (CK_ROWS ! nat (ck_cursorY g)) \<and> length (ck_text g) \<le> ck_maxLen g"

lemma four_rows: "(0 :: int) \<le> y \<Longrightarrow> y < 4 \<Longrightarrow> y = 0 \<or> y = 1 \<or> y = 2 \<or> y = 3"
  by auto

lemma ck_ok_new: "length s \<le> n \<Longrightarrow> ck_ok (CustomKeyboardGui_new s n)"
  by (simp add: ck_ok_def CustomKeyboardGui_new_def CK_ROWS_def strlen_def)

lemma ck_row:
  assumes "0 \<le> y" and "y < 4"
  shows "row_at CK_ROWS y = Inr (CK_ROWS ! nat y)" and "2 \<le> strlen (CK_ROWS ! nat y)"
  using four_rows [OF assms] by (auto simp: row_at_def CK_ROWS_def strlen_def)

lemma char_at_in: "0 \<le> x \<Longrightarrow> x < strlen row \<Longrightarrow> char_at row x = Inr (row ! nat x)"
  by (simp add: char_at_def strlen_def nth_append nat_less_iff)

lemma ck_adjust_ok:
  assumes "0 \<le> ck_cursorY g" and "ck_cursorY g < 4" and "0 \<le> ck_cursorX g" and "length (ck_text g) \<le> ck_maxLen g"
  shows "\<exists>g'. ck_adjust g = Inr g' \<and> ck_ok g' \<and> ck_maxLen g' = ck_maxLen g \<and> ck_text g' = ck_text g"
  using assms ck_row [OF assms(1,2)] by (auto simp: ck_adjust_def ck_ok_def Let_def)

text \<open>What a frame may do: it keeps the cursor on the keys, and reports the text as it is.\<close>

definition ck_good :: "CustomKeyboardGui \<Rightarrow> (KeyResult \<times> CustomKeyboardGui) run \<Rightarrow> bool" where
  "ck_good g x \<longleftrightarrow> (\<exists>r g'. x = Inr (r, g') \<and> ck_ok g' \<and> ck_maxLen g' = ck_maxLen g
     \<and> (\<forall>s. r = GoBack (Some s) \<longrightarrow> s = ck_text g'))"

lemma ck_good_Inr:
  "ck_good g (Inr (r, g')) \<longleftrightarrow>
     ck_ok g' \<and> ck_maxLen g' = ck_maxLen g \<and> (\<forall>s. r = GoBack (Some s) \<longrightarrow> s = ck_text g')"
  by (auto simp: ck_good_def)

lemma ck_handleInput_ok:
  assumes "ck_ok g"
  shows "ck_good g (ck_handleInput ks g)"
proof -
  have g: "0 \<le> ck_cursorY g" "ck_cursorY g < 4" "0 \<le> ck_cursorX g" "ck_cursorX g < strlen (CK_ROWS ! nat (ck_cursorY g))"
    "length (ck_text g) \<le> ck_maxLen g" using assms by (simp_all add: ck_ok_def)
  note row = ck_row [OF g(1,2)] and ch = char_at_in [OF g(3,4)]
  have move: "ck_good g (bind_run (ck_adjust (g\<lparr>ck_cursorY := y\<rparr>)) (\<lambda>g. Inr (Used, g)))"
    if "0 \<le> y" "y < 4" for y using that g ck_adjust_ok [of "g\<lparr>ck_cursorY := y\<rparr>"] by (auto simp: ck_good_Inr)
  have r4: "int (length CK_ROWS) = 4" by (simp add: CK_ROWS_def)
  have ok: "ck_good g (Inr (r, g))" if "\<forall>s. r = GoBack (Some s) \<longrightarrow> s = ck_text g" for r
    using that assms by (simp add: ck_good_Inr)
  have x: "ck_good g (Inr (Used, g\<lparr>ck_cursorX := x\<rparr>))" if "0 \<le> x" "x < strlen (CK_ROWS ! nat (ck_cursorY g))" for x
    using that g by (simp add: ck_good_Inr ck_ok_def)
  have t: "ck_good g (Inr (Used, g\<lparr>ck_text := t\<rparr>))" if "length t \<le> ck_maxLen g" for t
    using that g by (simp add: ck_good_Inr ck_ok_def)
  show ?thesis
    using g unfolding ck_handleInput_def r4 Let_def row(1) bind_run_simps ch
    by (simp add: move ok x t if_distrib [of "\<lambda>z. Inr (Used, z)"])
qed

definition is_hex :: "char \<Rightarrow> bool" where
  "is_hex c \<longleftrightarrow> c \<in> set hex"

definition pk_ok :: "PassphraseKeyboardGui \<Rightarrow> bool" where
  "pk_ok g \<longleftrightarrow>
     0 \<le> pk_cursorY g \<and> pk_cursorY g < 4 \<and> 0 \<le> pk_cursorX g \<and> pk_cursorX g < 4
     \<and> -1 \<le> pk_selectedAction g \<and> pk_selectedAction g < 3 \<and> pk_maxLen g = 8
     \<and> length (pk_text g) \<le> 8 \<and> (\<forall>c \<in> set (pk_text g). is_hex c)"

lemma pk_row:
  assumes "0 \<le> y" and "y < 4"
  shows "row_at PK_ROWS y = Inr (PK_ROWS ! nat y)" and "strlen (PK_ROWS ! nat y) = 4"
    and "set (PK_ROWS ! nat y) \<subseteq> set hex"
  using four_rows [OF assms] by (auto simp: row_at_def PK_ROWS_def strlen_def hex_def)

lemma cursor_in_row_lt: "strlen row = 4 \<Longrightarrow> 0 \<le> cursor_in_row x row \<and> cursor_in_row x row < 4"
  by (simp add: cursor_in_row_def strlen_def)

text \<open>A passphrase: empty, or the prefix and eight hexadecimal digits.\<close>

definition passphrase_of :: "string \<Rightarrow> bool" where
  "passphrase_of s \<longleftrightarrow> s = [] \<or> (\<exists>t. s = ''Ryujinx-'' @ t \<and> length t = 8 \<and> (\<forall>c \<in> set t. is_hex c))"

definition pk_good :: "(KeyResult \<times> PassphraseKeyboardGui) run \<Rightarrow> bool" where
  "pk_good x \<longleftrightarrow>
     (\<exists>r g'. x = Inr (r, g') \<and> pk_ok g' \<and> (\<forall>s. r = GoBack (Some s) \<longrightarrow> passphrase_of s))"

lemma pk_good_Inr: "pk_good (Inr (r, g')) \<longleftrightarrow> pk_ok g' \<and> (\<forall>s. r = GoBack (Some s) \<longrightarrow> passphrase_of s)"
  by (auto simp: pk_good_def)

lemma random_digits_hex: "(\<forall>i. dis i < 16) \<Longrightarrow> length (random_digits dis) = 8 \<and> (\<forall>c \<in> set (random_digits dis). is_hex c)"
proof -
  assume dis: "\<forall>i. dis i < 16"
  have "length hex = 16" by (simp add: hex_def)
  with dis show ?thesis by (auto simp: random_digits_def is_hex_def intro!: nth_mem)
qed

lemma pk_handleInput_ok:
  assumes "pk_ok g" and dis: "\<forall>i. dis i < 16"
  shows "pk_good (pk_handleInput dis ks g)"
proof -
  have g: "0 \<le> pk_cursorY g" "pk_cursorY g < 4" "0 \<le> pk_cursorX g" "pk_cursorX g < 4"
    "-1 \<le> pk_selectedAction g" "pk_selectedAction g < 3" "pk_maxLen g = 8" "length (pk_text g) \<le> 8"
    "\<forall>c \<in> set (pk_text g). is_hex c" using assms(1) by (simp_all add: pk_ok_def)
  note row = pk_row [OF g(1,2)]
  let ?row = "PK_ROWS ! nat (pk_cursorY g)"
  have ch: "char_at ?row (pk_cursorX g) = Inr (?row ! nat (pk_cursorX g))"
    using char_at_in [OF g(3)] g(4) row(2) by simp
  have "?row ! nat (pk_cursorX g) \<in> set ?row" using g(3,4) row(2) by (intro nth_mem) (simp add: strlen_def)
  then have h: "is_hex (?row ! nat (pk_cursorX g))" using row(3) by (auto simp: is_hex_def)
  have adj: "pk_good (bind_run (pk_adjust (g\<lparr>pk_cursorY := y\<rparr>)) (\<lambda>g. Inr (Used, g)))" if "0 \<le> y" "y < 4" for y
    using that g pk_row [OF that] by (simp add: pk_adjust_def pk_good_Inr pk_ok_def)
  have r4: "int (length PK_ROWS) = 4" by (simp add: PK_ROWS_def)
  have x: "pk_good (Inr (Used, g\<lparr>pk_cursorX := cursor_in_row x ?row\<rparr>))" for x
    using g cursor_in_row_lt [OF row(2)] by (simp add: pk_good_Inr pk_ok_def)
  have a: "pk_good (Inr (Used, g\<lparr>pk_selectedAction := z\<rparr>))" if "-1 \<le> z" "z < 3" for z
    using that g by (simp add: pk_good_Inr pk_ok_def)
  have y: "pk_good (Inr (Used, g\<lparr>pk_selectedAction := -1, pk_cursorX := 0, pk_cursorY := 0\<rparr>))"
    using g by (simp add: pk_good_Inr pk_ok_def)
  have b: "pk_good (pk_backspace_or_cancel ks g)"
    using g by (auto simp: pk_backspace_or_cancel_def pk_good_Inr pk_ok_def dest: in_set_butlastD)
  have add: "pk_good (pk_add_character g)"
    using g h row ch by (auto simp: pk_add_character_def pk_good_Inr pk_ok_def passphrase_of_def Let_def)
  have act: "pk_good (Inr (pk_action dis g))"
    using g random_digits_hex [OF dis] by (auto simp: pk_action_def pk_good_Inr pk_ok_def passphrase_of_def Let_def)
  show ?thesis
    unfolding pk_handleInput_def r4 row(1) bind_run_simps
    by (simp add: adj x a y b add act if_distrib [of "\<lambda>z. Inr (Used, z)"])
qed

text \<open>A visit with the passphrase keyboard ends with a passphrase, or changes nothing.\<close>

lemma passphrase_visit:
  fixes dis :: "nat \<Rightarrow> nat \<Rightarrow> nat"
  assumes "pk_ok g" and "\<forall>i j. dis i j < 16"
  shows "\<exists>r g'. visit (\<lambda>(i, ks). pk_handleInput (dis i) ks) keys g = Inr (r, g') \<and> pk_ok g'
    \<and> (\<forall>s. r = Some (Some s) \<longrightarrow> passphrase_of s)"
proof (rule visit_inv [where K = UNIV])
  fix k :: "nat \<times> Button set" and g
  assume "pk_ok g"
  then have "pk_good (pk_handleInput (dis (fst k)) (snd k) g)" using assms(2) pk_handleInput_ok by blast
  then show "\<exists>r g'. (\<lambda>(i, ks). pk_handleInput (dis i) ks) k g = Inr (r, g') \<and> pk_ok g' \<and>
      (\<forall>s. r = GoBack (Some s) \<longrightarrow> passphrase_of s)"
    by (simp add: pk_good_def split_beta)
qed (use assms(1) in simp_all)

lemma address_visit:
  assumes "ck_ok g"
  shows "\<exists>r g'. visit ck_handleInput keys g = Inr (r, g') \<and> (ck_ok g' \<and> ck_maxLen g' = ck_maxLen g)
    \<and> (\<forall>s. r = Some (Some s) \<longrightarrow> length s \<le> ck_maxLen g)"
proof (rule visit_inv [where K = UNIV])
  fix k h
  assume "ck_ok h \<and> ck_maxLen h = ck_maxLen g"
  with ck_handleInput_ok [of h k] show "\<exists>r g'. ck_handleInput k h = Inr (r, g') \<and>
      (ck_ok g' \<and> ck_maxLen g' = ck_maxLen g) \<and> (\<forall>s. r = GoBack (Some s) \<longrightarrow> length s \<le> ck_maxLen g)"
    by (auto simp: ck_good_def ck_ok_def)
qed (use assms in simp_all)

section \<open>Every address can be typed\<close>

definition ck_reaches :: "CustomKeyboardGui \<Rightarrow> CustomKeyboardGui \<Rightarrow> bool" where
  "ck_reaches g g' \<longleftrightarrow> (\<exists>keys. visit ck_handleInput keys g = Inr (None, g'))"

lemma ck_reaches_refl: "ck_reaches g g"
  unfolding ck_reaches_def by (rule exI [of _ "[]"]) simp

lemma ck_reaches_trans: "ck_reaches g h \<Longrightarrow> ck_reaches h k \<Longrightarrow> ck_reaches g k"
  unfolding ck_reaches_def using visit_append by metis

lemma ck_press: "ck_handleInput {b} g = Inr (Used, g') \<Longrightarrow> ck_reaches g g'"
  unfolding ck_reaches_def by (rule exI [of _ "[{b}]"]) simp

lemma ck_same: "ck_cursorX g = x \<Longrightarrow> g\<lparr>ck_cursorX := x\<rparr> = g" "ck_cursorY g = y \<Longrightarrow> g\<lparr>ck_cursorY := y\<rparr> = g"
  by auto

lemma ck_left: "0 \<le> ck_cursorX g \<Longrightarrow> ck_reaches g (g\<lparr>ck_cursorX := 0\<rparr>)"
proof (induction "nat (ck_cursorX g)" arbitrary: g)
  case 0
  then show ?case using ck_reaches_refl [of g] by (simp add: ck_same)
next
  case (Suc n)
  have "ck_reaches g (g\<lparr>ck_cursorX := ck_cursorX g - 1\<rparr>)"
    by (rule ck_press [of HidNpadButton_Left]) (use Suc in \<open>simp add: ck_handleInput_def\<close>)
  moreover have "ck_reaches (g\<lparr>ck_cursorX := ck_cursorX g - 1\<rparr>) (g\<lparr>ck_cursorX := 0\<rparr>)"
    using Suc(1) [of "g\<lparr>ck_cursorX := ck_cursorX g - 1\<rparr>"] Suc(2,3) by simp
  ultimately show ?case by (rule ck_reaches_trans)
qed

lemma ck_adjust_zero:
  "0 \<le> ck_cursorY g \<Longrightarrow> ck_cursorY g < 4 \<Longrightarrow> ck_cursorX g = 0 \<Longrightarrow> ck_adjust g = Inr g"
  using ck_row [of "ck_cursorY g"] by (simp add: ck_adjust_def)

lemma ck_up: "0 \<le> ck_cursorY g \<Longrightarrow> ck_cursorY g < 4 \<Longrightarrow> ck_cursorX g = 0 \<Longrightarrow> ck_reaches g (g\<lparr>ck_cursorY := 0\<rparr>)"
proof (induction "nat (ck_cursorY g)" arbitrary: g)
  case 0
  then show ?case using ck_reaches_refl [of g] by (simp add: ck_same)
next
  case (Suc n)
  have "ck_reaches g (g\<lparr>ck_cursorY := ck_cursorY g - 1\<rparr>)"
    by (rule ck_press [of HidNpadButton_Up])
       (use Suc ck_adjust_zero [of "g\<lparr>ck_cursorY := ck_cursorY g - 1\<rparr>"] in \<open>simp add: ck_handleInput_def\<close>)
  moreover have "ck_reaches (g\<lparr>ck_cursorY := ck_cursorY g - 1\<rparr>) (g\<lparr>ck_cursorY := 0\<rparr>)"
    using Suc(1) [of "g\<lparr>ck_cursorY := ck_cursorY g - 1\<rparr>"] Suc(2-5) by simp
  ultimately show ?case by (rule ck_reaches_trans)
qed

lemma ck_down:
  "ck_cursorY g = 0 \<Longrightarrow> ck_cursorX g = 0 \<Longrightarrow> y < 4 \<Longrightarrow> ck_reaches g (g\<lparr>ck_cursorY := int y\<rparr>)"
proof (induction y)
  case 0
  then show ?case using ck_reaches_refl [of g] by (simp add: ck_same)
next
  case (Suc y)
  have "int (length CK_ROWS) = 4" by (simp add: CK_ROWS_def)
  then have "ck_reaches (g\<lparr>ck_cursorY := int y\<rparr>) (g\<lparr>ck_cursorY := int (Suc y)\<rparr>)"
    by (intro ck_press [of HidNpadButton_Down])
       (use Suc ck_adjust_zero [of "g\<lparr>ck_cursorY := int y + 1\<rparr>"] in \<open>simp add: ck_handleInput_def add.commute\<close>)
  then show ?case by (rule ck_reaches_trans [rotated]) (use Suc in simp)
qed

lemma ck_right:
  "0 \<le> ck_cursorY g \<Longrightarrow> ck_cursorY g < 4 \<Longrightarrow> ck_cursorX g = 0 \<Longrightarrow> int x < strlen (CK_ROWS ! nat (ck_cursorY g)) \<Longrightarrow>
   ck_reaches g (g\<lparr>ck_cursorX := int x\<rparr>)"
proof (induction x)
  case 0
  then show ?case using ck_reaches_refl [of g] by (simp add: ck_same)
next
  case (Suc x)
  have "ck_reaches (g\<lparr>ck_cursorX := int x\<rparr>) (g\<lparr>ck_cursorX := int (Suc x)\<rparr>)"
    by (intro ck_press [of HidNpadButton_Right])
       (use Suc ck_row [of "ck_cursorY g"] in \<open>simp add: ck_handleInput_def add.commute\<close>)
  then show ?case by (rule ck_reaches_trans [rotated]) (use Suc in simp)
qed

lemma key_position:
  assumes "c \<in> set ''0123456789.''"
  shows "\<exists>y x. y < 4 \<and> int x < strlen (CK_ROWS ! y) \<and> CK_ROWS ! y ! x = c"
proof -
  have "c \<in> set (concat CK_ROWS)" using assms by (auto simp: CK_ROWS_def)
  then obtain row where "row \<in> set CK_ROWS" "c \<in> set row" by auto
  moreover have "length CK_ROWS = 4" by (simp add: CK_ROWS_def)
  ultimately show ?thesis unfolding strlen_def in_set_conv_nth by (metis of_nat_less_iff)
qed

lemma ck_types_char:
  assumes "ck_ok g" and "c \<in> set ''0123456789.''" and "length (ck_text g) < ck_maxLen g"
  shows "\<exists>g'. ck_reaches g g' \<and> ck_ok g' \<and> ck_maxLen g' = ck_maxLen g \<and> ck_text g' = ck_text g @ [c]"
proof -
  obtain y x where p: "y < 4" "int x < strlen (CK_ROWS ! y)" "CK_ROWS ! y ! x = c" using key_position [OF assms(2)] by blast
  have g: "0 \<le> ck_cursorY g" "ck_cursorY g < 4" "0 \<le> ck_cursorX g" using assms(1) by (simp_all add: ck_ok_def)
  let ?g = "g\<lparr>ck_cursorY := int y, ck_cursorX := int x\<rparr>"
  have "ck_reaches g (g\<lparr>ck_cursorX := 0\<rparr>)" by (rule ck_left [OF g(3)])
  moreover have "ck_reaches (g\<lparr>ck_cursorX := 0\<rparr>) (g\<lparr>ck_cursorX := 0, ck_cursorY := 0\<rparr>)"
    using ck_up [of "g\<lparr>ck_cursorX := 0\<rparr>"] g by simp
  moreover have "ck_reaches (g\<lparr>ck_cursorX := 0, ck_cursorY := 0\<rparr>) (g\<lparr>ck_cursorX := 0, ck_cursorY := int y\<rparr>)"
    using ck_down [of "g\<lparr>ck_cursorX := 0, ck_cursorY := 0\<rparr>" y] p by simp
  moreover have "ck_reaches (g\<lparr>ck_cursorX := 0, ck_cursorY := int y\<rparr>) ?g"
    using ck_right [of "g\<lparr>ck_cursorX := 0, ck_cursorY := int y\<rparr>" x] p by simp
  moreover have "ck_reaches ?g (?g\<lparr>ck_text := ck_text g @ [c]\<rparr>)"
    by (rule ck_press [of HidNpadButton_A])
       (use p assms(3) ck_row [of "int y"] char_at_in [of "int x" "CK_ROWS ! y"] in \<open>simp add: ck_handleInput_def\<close>)
  ultimately have "ck_reaches g (?g\<lparr>ck_text := ck_text g @ [c]\<rparr>)" by (meson ck_reaches_trans)
  moreover have "ck_ok (?g\<lparr>ck_text := ck_text g @ [c]\<rparr>)" using p assms(3) by (simp add: ck_ok_def)
  ultimately show ?thesis by fastforce
qed

text \<open>Every text over the keys, up to the length the keyboard was opened with, can be entered.\<close>

lemma ck_types:
  "ck_ok g \<Longrightarrow> set s \<subseteq> set ''0123456789.'' \<Longrightarrow> length (ck_text g) + length s \<le> ck_maxLen g \<Longrightarrow>
   \<exists>g'. ck_reaches g g' \<and> ck_text g' = ck_text g @ s"
proof (induction s arbitrary: g)
  case Nil
  then show ?case using ck_reaches_refl by fastforce
next
  case (Cons c s)
  from ck_types_char [OF Cons.prems(1), of c] Cons.prems obtain h where
    h: "ck_reaches g h" "ck_ok h" "ck_maxLen h = ck_maxLen g" "ck_text h = ck_text g @ [c]" by auto
  with Cons.IH [of h] Cons.prems obtain g' where "ck_reaches h g'" "ck_text g' = ck_text h @ s" by auto
  with h ck_reaches_trans show ?case by fastforce
qed

lemma ck_enters:
  assumes "ck_ok g" and "ck_text g = []" and "set s \<subseteq> set ''0123456789.''" and "length s \<le> ck_maxLen g"
  shows "\<exists>keys g'. visit ck_handleInput keys g = Inr (Some (Some s), g')"
proof -
  from ck_types [OF assms(1,3)] assms(2,4) obtain keys g' where
    "visit ck_handleInput keys g = Inr (None, g')" "ck_text g' = s" by (auto simp: ck_reaches_def)
  then have "visit ck_handleInput (keys @ [{HidNpadButton_Plus}]) g = Inr (Some (Some s), g')"
    by (simp add: visit_append ck_handleInput_def)
  then show ?thesis by blast
qed

end
