(* ===== verification/Overlay.thy ===== *)
theory Overlay
  imports Overlay_Keyboard Ldn_Config
begin

text \<open>
  The settings menu of \<open>src/overlay/source\<close>: \<open>ryuldn_ipc.cpp\<close>, its side of the configuration service, and
  the items and pages of \<open>main.cpp\<close>. The widget library and the transport of a command are parameters:
  \<open>ok\<close> is whether a call succeeds, \<open>raw\<close> and \<open>junk\<close> are what uninitialised memory holds. The other
  end of a call is the configuration service of \<open>Ldn_Config\<close>, whose state is passed along.
\<close>

section \<open>The commands, as the menu calls them\<close>

definition ryuldnGetVersion :: "bool \<Rightarrow> string \<Rightarrow> string \<Rightarrow> string run" where
  "ryuldnGetVersion ok raw version =
     (if ok then bind_run (GetVersion raw) (\<lambda>version_buf. strcpy version version_buf) else Inr version)"

text \<open>
  \<open>GetStatus\<close> has the number of \<open>GetLogging\<close>: the four bytes of its answer, and \<open>rest\<close>, what follows
  them in the message buffer, become the 96 bytes of the status.
\<close>

definition ryuldnGetStatus :: "bool \<Rightarrow> bytes \<Rightarrow> bytes \<Rightarrow> LdnConfig \<Rightarrow> bytes" where
  "ryuldnGetStatus ok rest status c = (if ok then put32 (GetLogging c) @ rest else status)"

definition ryuldnGetLogging :: "bool \<Rightarrow> u32 \<Rightarrow> LdnConfig \<Rightarrow> u32" where
  "ryuldnGetLogging ok enabled c = (if ok then GetLogging c else enabled)"

definition ryuldnSetLogging :: "bool \<Rightarrow> FsAnswers \<Rightarrow> u32 \<Rightarrow> LdnConfig \<Rightarrow> LdnConfig" where
  "ryuldnSetLogging ok fs enabled c = (if ok then SetLogging fs enabled c else c)"

definition ryuldnGetEnabled :: "bool \<Rightarrow> u32 \<Rightarrow> LdnConfig \<Rightarrow> u32" where
  "ryuldnGetEnabled ok enabled c = (if ok then GetEnabled c else enabled)"

definition ryuldnSetEnabled :: "bool \<Rightarrow> u32 \<Rightarrow> LdnConfig \<Rightarrow> LdnConfig" where
  "ryuldnSetEnabled ok enabled c = (if ok then SetEnabled enabled c else c)"

definition ryuldnGetPassphrase :: "bool \<Rightarrow> string \<Rightarrow> string \<Rightarrow> LdnConfig \<Rightarrow> string run" where
  "ryuldnGetPassphrase ok raw passphrase c =
     (if ok then bind_run (cfg_GetPassphrase raw c) (\<lambda>pass_buf. strcpy passphrase pass_buf) else Inr passphrase)"

text \<open>A setter gets the C string of a \<open>std::string\<close>: its characters and a zero.\<close>

definition ryuldnSetPassphrase :: "bool \<Rightarrow> string \<Rightarrow> string \<Rightarrow> LdnConfig \<Rightarrow> LdnConfig run" where
  "ryuldnSetPassphrase ok junk passphrase c =
     bind_run (strcpy junk (passphrase @ [NUL])) (\<lambda>pass_buf. if ok then cfg_SetPassphrase pass_buf c else Inr c)"

definition ryuldnGetServerIP :: "bool \<Rightarrow> string \<Rightarrow> string \<Rightarrow> LdnConfig \<Rightarrow> string run" where
  "ryuldnGetServerIP ok raw server_ip c =
     (if ok then bind_run (cfg_GetServerIP raw c) (\<lambda>ip_buf. strcpy server_ip ip_buf) else Inr server_ip)"

definition ryuldnSetServerIP :: "bool \<Rightarrow> string \<Rightarrow> FsAnswers \<Rightarrow> string \<Rightarrow> LdnConfig \<Rightarrow> LdnConfig run" where
  "ryuldnSetServerIP ok junk fs server_ip c =
     bind_run (strcpy junk (server_ip @ [NUL])) (\<lambda>ip_buf. if ok then SetServerIP fs ip_buf c else Inr c)"

definition ryuldnGetServerPort :: "bool \<Rightarrow> u16 \<Rightarrow> LdnConfig \<Rightarrow> u16" where
  "ryuldnGetServerPort ok port c = (if ok then cfg_GetServerPort c else port)"

definition ryuldnSetServerPort :: "bool \<Rightarrow> FsAnswers \<Rightarrow> u16 \<Rightarrow> LdnConfig \<Rightarrow> LdnConfig" where
  "ryuldnSetServerPort ok fs port c = (if ok then SetServerPort fs port c else c)"

definition ryuldnGetLoggingLevel :: "bool \<Rightarrow> u32 \<Rightarrow> LdnConfig \<Rightarrow> u32" where
  "ryuldnGetLoggingLevel ok level c = (if ok then GetLoggingLevel c else level)"

definition ryuldnSetLoggingLevel :: "bool \<Rightarrow> FsAnswers \<Rightarrow> u32 \<Rightarrow> LdnConfig \<Rightarrow> LdnConfig" where
  "ryuldnSetLoggingLevel ok fs level c = (if ok then SetLoggingLevel fs level c else c)"

section \<open>Passphrases\<close>

definition GenerateValidPassphrase :: "(nat \<Rightarrow> nat) \<Rightarrow> string" where
  "GenerateValidPassphrase dis = ''Ryujinx-'' @ map (\<lambda>i. ''0123456789abcdef'' ! dis i) [0..<8]"

definition IsValidPassphrase :: "string \<Rightarrow> bool" where
  "IsValidPassphrase pass =
     (if pass = [] then True
      else if length pass \<noteq> 16 then False
      else if take 8 pass \<noteq> ''Ryujinx-'' then False
      else \<forall>i \<in> {8..<16}. let c = of_char (pass ! i) :: nat in 48 \<le> c \<and> c \<le> 57 \<or> 97 \<le> c \<and> c \<le> 102)"

section \<open>State\<close>

datatype State = State_Uninit | State_Error | State_Loaded

record Overlay =
  g_state :: State
  g_version :: string

definition Overlay_initial :: Overlay where
  "Overlay_initial = \<lparr>g_state = State_Uninit, g_version = replicate 32 NUL\<rparr>"

definition set_error :: "bool \<Rightarrow> Overlay \<Rightarrow> Overlay" where
  "set_error ok o' = (if ok then o' else o'\<lparr>g_state := State_Error\<rparr>)"

text \<open>The answers: \<open>smGetService\<close>, the configuration object, the version.\<close>

definition initServices :: "bool \<Rightarrow> bool \<Rightarrow> bool \<Rightarrow> string \<Rightarrow> Overlay \<Rightarrow> Overlay run" where
  "initServices got_service got_config ok raw o' =
     (let o' = o'\<lparr>g_state := State_Uninit\<rparr> in
      if \<not> got_service then Inr (o'\<lparr>g_state := State_Error\<rparr>)
      else if \<not> got_config then Inr (o'\<lparr>g_state := State_Error\<rparr>)
      else
        bind_run (ryuldnGetVersion ok raw (g_version o')) (\<lambda>v.
          let o' = o'\<lparr>g_version := v\<rparr> in
          Inr (if \<not> ok then o'\<lparr>g_state := State_Error\<rparr> else o'\<lparr>g_state := State_Loaded\<rparr>)))"

section \<open>Toggles\<close>

text \<open>An item when it is made: what it shows. \<open>EnabledToggleListItem\<close>, and its listener.\<close>

definition EnabledToggleListItem :: "bool \<Rightarrow> u32 \<Rightarrow> LdnConfig \<Rightarrow> Overlay \<Rightarrow> bool \<times> Overlay" where
  "EnabledToggleListItem ok enabled c o' = (ryuldnGetEnabled ok enabled c \<noteq> 0, set_error ok o')"

definition enabled_changed :: "bool \<Rightarrow> bool \<Rightarrow> Overlay \<times> LdnConfig \<Rightarrow> Overlay \<times> LdnConfig" where
  "enabled_changed ok enabled = (\<lambda>(o', c).
     (set_error ok o', ryuldnSetEnabled ok (if enabled then 1 else 0) c))"

text \<open>The switch for a server of one's own reads and writes the same flag.\<close>

definition CustomServerToggleListItem :: "bool \<Rightarrow> u32 \<Rightarrow> LdnConfig \<Rightarrow> Overlay \<Rightarrow> bool \<times> Overlay" where
  "CustomServerToggleListItem ok enabled c o' = (ryuldnGetEnabled ok enabled c \<noteq> 0, set_error ok o')"

definition custom_server_changed :: "bool \<Rightarrow> bool \<Rightarrow> Overlay \<times> LdnConfig \<Rightarrow> Overlay \<times> LdnConfig" where
  "custom_server_changed ok enabled = (\<lambda>(o', c).
     (set_error ok o', ryuldnSetEnabled ok (if enabled then 1 else 0) c))"

definition LoggingToggleListItem :: "bool \<Rightarrow> u32 \<Rightarrow> LdnConfig \<Rightarrow> Overlay \<Rightarrow> bool \<times> Overlay" where
  "LoggingToggleListItem ok enabled c o' = (ryuldnGetLogging ok enabled c \<noteq> 0, set_error ok o')"

definition logging_changed :: "bool \<Rightarrow> FsAnswers \<Rightarrow> bool \<Rightarrow> Overlay \<times> LdnConfig \<Rightarrow> Overlay \<times> LdnConfig" where
  "logging_changed ok fs enabled = (\<lambda>(o', c).
     (set_error ok o', ryuldnSetLogging ok fs (if enabled then 1 else 0) c))"

section \<open>The server\<close>

definition ServerIP_updateValue :: "bool \<Rightarrow> string \<Rightarrow> LdnConfig \<Rightarrow> string run" where
  "ServerIP_updateValue ok raw c =
     bind_run (ryuldnGetServerIP ok raw (replicate 256 NUL) c) (\<lambda>server_ip.
       Inr (if 0 < length (c_str server_ip) then c_str server_ip else ''[none]''))"

text \<open>The listener of the item opens a keyboard on the name in use.\<close>

definition ServerIP_clicked :: "bool \<Rightarrow> string \<Rightarrow> LdnConfig \<Rightarrow> CustomKeyboardGui run" where
  "ServerIP_clicked ok raw c =
     bind_run (ryuldnGetServerIP ok raw (replicate 256 NUL) c) (\<lambda>server_ip.
       Inr (CustomKeyboardGui_new (c_str server_ip) 255))"

definition ServerIP_entered :: "bool \<Rightarrow> string \<Rightarrow> FsAnswers \<Rightarrow> bool \<Rightarrow> string \<Rightarrow> string \<Rightarrow> LdnConfig \<Rightarrow> LdnConfig run" where
  "ServerIP_entered ok junk fs ok' raw new_ip c =
     bind_run (ryuldnSetServerIP ok junk fs new_ip c) (\<lambda>c.
     bind_run (ServerIP_updateValue ok' raw c) (\<lambda>_. Inr c))"

definition ServerPort_updateValue :: "bool \<Rightarrow> LdnConfig \<Rightarrow> string" where
  "ServerPort_updateValue ok c = to_string (unat (ryuldnGetServerPort ok 11452 c))"

definition ServerPort_clicked :: "bool \<Rightarrow> LdnConfig \<Rightarrow> CustomKeyboardGui" where
  "ServerPort_clicked ok c = CustomKeyboardGui_new (to_string (unat (ryuldnGetServerPort ok 11452 c))) 5"

text \<open>The loop over the text; \<open>None\<close>: not valid.\<close>

fun parse_port :: "string \<Rightarrow> nat \<Rightarrow> nat option" where
  "parse_port [] port_val = Some port_val"
| "parse_port (c # cs) port_val =
     (if \<not> is_digit c then None
      else
        let port_val = port_val * 10 + (of_char c - 48) in
        if 65535 < port_val then None else parse_port cs port_val)"

definition ServerPort_entered :: "bool \<Rightarrow> FsAnswers \<Rightarrow> string \<Rightarrow> LdnConfig \<Rightarrow> LdnConfig" where
  "ServerPort_entered ok fs new_port_str c =
     (if new_port_str = [] then c
      else
        case parse_port new_port_str 0 of
          None \<Rightarrow> c
        | Some port_val \<Rightarrow>
            if 0 < port_val \<and> port_val \<le> 65535 then ryuldnSetServerPort ok fs (of_nat port_val) c else c)"

section \<open>The passphrase\<close>

definition Passphrase_value :: "bool \<Rightarrow> string \<Rightarrow> string \<Rightarrow> LdnConfig \<Rightarrow> string run" where
  "Passphrase_value ok raw none_text c =
     bind_run (ryuldnGetPassphrase ok raw (replicate 17 NUL) c) (\<lambda>passphrase.
       Inr (if 0 < length (c_str passphrase) then c_str passphrase else none_text))"

definition Passphrase_clicked :: "bool \<Rightarrow> string \<Rightarrow> LdnConfig \<Rightarrow> PassphraseKeyboardGui run" where
  "Passphrase_clicked ok raw c =
     bind_run (ryuldnGetPassphrase ok raw (replicate 17 NUL) c) (\<lambda>current.
       let s = c_str current;
           hex_part = (if length s = 16 \<and> take 8 s = ''Ryujinx-'' then drop 8 s else []) in
       Inr (PassphraseKeyboardGui_new hex_part 8))"

definition Passphrase_entered :: "bool \<Rightarrow> string \<Rightarrow> string \<Rightarrow> LdnConfig \<Rightarrow> LdnConfig run" where
  "Passphrase_entered ok junk new_passphrase c =
     (if IsValidPassphrase new_passphrase then ryuldnSetPassphrase ok junk new_passphrase c else Inr c)"

section \<open>Pages\<close>

definition LOG_LEVEL_NAMES :: "string list" where
  "LOG_LEVEL_NAMES = [[], ''Error [1]'', ''Warning [2]'', ''Info [3]'', ''Debug [4]'', ''Trace [5]'']"

definition level_name :: "u32 \<Rightarrow> string run" where
  "level_name level =
     (if unat level < length LOG_LEVEL_NAMES then Inr (LOG_LEVEL_NAMES ! unat level) else Inl BufferOverrun)"

text \<open>The page \<open>Debug Mode\<close> when it is made: what its five items show.\<close>

definition DebugModeGui_createUI ::
    "bool \<Rightarrow> u32 \<Rightarrow> bool \<Rightarrow> string \<Rightarrow> bool \<Rightarrow> bool \<Rightarrow> u32 \<Rightarrow> bool \<Rightarrow> Overlay \<Rightarrow> LdnConfig
       \<Rightarrow> ((bool \<times> string \<times> string \<times> bool \<times> string) \<times> Overlay) run" where
  "DebugModeGui_createUI ok_custom junk ok_ip raw ok_port ok_log junk' ok_level o' c =
     (let (custom, o') = CustomServerToggleListItem ok_custom junk c o' in
      bind_run (ServerIP_updateValue ok_ip raw c) (\<lambda>ip.
        let port = ServerPort_updateValue ok_port c;
            (logging, o') = LoggingToggleListItem ok_log junk' c o' in
        bind_run (level_name (ryuldnGetLoggingLevel ok_level 1 c)) (\<lambda>level.
          Inr ((custom, ip, port, logging, level), o'))))"

text \<open>A frame of the page: the values of three of its items are read again.\<close>

definition DebugModeGui_update :: "bool \<Rightarrow> string \<Rightarrow> bool \<Rightarrow> bool \<Rightarrow> LdnConfig \<Rightarrow> (string \<times> string \<times> string) run" where
  "DebugModeGui_update ok_ip raw ok_port ok_level c =
     bind_run (ServerIP_updateValue ok_ip raw c) (\<lambda>ip.
     bind_run (level_name (ryuldnGetLoggingLevel ok_level 1 c)) (\<lambda>level.
       Inr (ip, ServerPort_updateValue ok_port c, level)))"

text \<open>The page of the logging levels: its labels, and its keys.\<close>

definition LoggingLevelGui_createUI :: "string list" where
  "LoggingLevelGui_createUI = map (\<lambda>i. LOG_LEVEL_NAMES ! i) [1..<6]"

definition LoggingLevelGui_handleInput :: "Button set \<Rightarrow> KeyResult" where
  "LoggingLevelGui_handleInput keysDown = (if HidNpadButton_B \<in> keysDown then GoBack None else Unused)"

text \<open>The listener of the item for level \<open>i\<close>, from 1 to 5: whether it goes back to the page before.\<close>

definition LoggingLevel_clicked :: "bool \<Rightarrow> FsAnswers \<Rightarrow> nat \<Rightarrow> LdnConfig \<Rightarrow> bool \<times> LdnConfig" where
  "LoggingLevel_clicked ok fs i c = (ok, ryuldnSetLoggingLevel ok fs (of_nat i) c)"

text \<open>The title line of the main page; \<open>server_connected\<close> and \<open>node_id\<close> are the bytes 5 and 64.\<close>

definition subtitle :: "bytes \<Rightarrow> string \<Rightarrow> string" where
  "subtitle status version =
     take 127 (if status ! 5 \<noteq> 0
       then version @ '' | Server: Connected | Node: '' @ to_string (unat (status ! 64))
       else version @ '' | Server: Disconnected'')"

text \<open>The main page: its title line, and the labels of its items.\<close>

definition MainGui_createUI ::
    "bool \<Rightarrow> bytes \<Rightarrow> bool \<Rightarrow> u32 \<Rightarrow> bool \<Rightarrow> string \<Rightarrow> Overlay \<Rightarrow> LdnConfig
       \<Rightarrow> ((string \<times> string list) \<times> Overlay) run" where
  "MainGui_createUI ok rest ok_enabled junk ok_pass raw o' c =
     (let title = subtitle (ryuldnGetStatus ok rest (replicate 96 0) c) (c_str (g_version o')) in
      case g_state o' of
        State_Error \<Rightarrow> Inr ((title, [''RyuLDN is not loaded.'']), o')
      | State_Uninit \<Rightarrow> Inr ((title, [''wrong state'']), o')
      | State_Loaded \<Rightarrow>
          let (_, o') = EnabledToggleListItem ok_enabled junk c o' in
          bind_run (Passphrase_value ok_pass raw ''[empty]'' c) (\<lambda>_.
            Inr ((title, [''Enabled'', ''Passphrase'', ''Debug Mode >'']), o')))"

definition MainGui_update :: "bool \<Rightarrow> string \<Rightarrow> LdnConfig \<Rightarrow> string run" where
  "MainGui_update ok raw c = Passphrase_value ok raw ''[none]'' c"

section \<open>Visits to a keyboard\<close>

text \<open>The user opens a keyboard from its item and uses it until it closes; the callback runs on what was entered.\<close>

definition edit_server_ip ::
    "bool \<Rightarrow> string \<Rightarrow> Button set list \<Rightarrow> bool \<Rightarrow> string \<Rightarrow> FsAnswers \<Rightarrow> bool \<Rightarrow> string \<Rightarrow> LdnConfig \<Rightarrow> LdnConfig run" where
  "edit_server_ip ok raw keys ok' junk fs ok'' raw' c =
     bind_run (ServerIP_clicked ok raw c) (\<lambda>g.
     bind_run (visit ck_handleInput keys g) (\<lambda>(entered, _).
       case entered of Some (Some new_ip) \<Rightarrow> ServerIP_entered ok' junk fs ok'' raw' new_ip c | _ \<Rightarrow> Inr c))"

definition edit_server_port :: "bool \<Rightarrow> Button set list \<Rightarrow> bool \<Rightarrow> FsAnswers \<Rightarrow> LdnConfig \<Rightarrow> LdnConfig run" where
  "edit_server_port ok keys ok' fs c =
     bind_run (visit ck_handleInput keys (ServerPort_clicked ok c)) (\<lambda>(entered, _).
       Inr (case entered of Some (Some new_port) \<Rightarrow> ServerPort_entered ok' fs new_port c | _ \<Rightarrow> c))"

definition edit_passphrase ::
    "bool \<Rightarrow> string \<Rightarrow> (nat \<Rightarrow> nat \<Rightarrow> nat) \<Rightarrow> (nat \<times> Button set) list \<Rightarrow> bool \<Rightarrow> string \<Rightarrow> LdnConfig \<Rightarrow> LdnConfig run" where
  "edit_passphrase ok raw dis keys ok' junk c =
     bind_run (Passphrase_clicked ok raw c) (\<lambda>g.
     bind_run (visit (\<lambda>(i, ks). pk_handleInput (dis i) ks) keys g) (\<lambda>(entered, _).
       case entered of Some (Some new_passphrase) \<Rightarrow> Passphrase_entered ok' junk new_passphrase c | _ \<Rightarrow> Inr c))"

end
