(* ===== verification/Overlay_Properties.thy ===== *)
theory Overlay_Properties
  imports Overlay
begin

text \<open>
  The settings menu and the configuration service together: what a user can enter reaches the settings, the
  settings stay well formed, and the one entry that breaks the menu, an address of sixteen characters.
\<close>

section \<open>C strings in arrays\<close>

text \<open>An array that holds a C string.\<close>

definition holds :: "nat \<Rightarrow> string \<Rightarrow> bool" where
  "holds n a \<longleftrightarrow> length a = n \<and> NUL \<in> set a"

lemma c_str_no_NUL: "NUL \<notin> set (c_str a)"
  by (auto simp: c_str_def dest: set_takeWhileD)

lemma c_str_shorter: "NUL \<in> set a \<Longrightarrow> length (c_str a) < length a"
  unfolding c_str_def by (induction a) auto

lemma holds_c_str: "holds n a \<Longrightarrow> length (c_str a) < n"
  using c_str_shorter by (auto simp: holds_def)

lemma strcpy_ok:
  assumes "NUL \<in> set src" and "length (c_str src) < length dst"
  shows "\<exists>a. strcpy dst src = Inr a \<and> holds (length dst) a \<and> c_str a = c_str src"
proof -
  let ?a = "c_str src @ [NUL] @ drop (Suc (length (c_str src))) dst"
  have "c_str ?a = c_str src" using c_str_append_NUL [OF c_str_no_NUL] by simp
  moreover have "strcpy dst src = Inr ?a" using assms by (simp add: strcpy_def)
  moreover have "holds (length dst) ?a" using assms(2) by (simp add: holds_def)
  ultimately show ?thesis by blast
qed

lemma c_str_terminated: "NUL \<notin> set s \<Longrightarrow> c_str (s @ [NUL]) = s"
  using c_str_append_NUL [of s "[]"] by simp

section \<open>The settings stay well formed\<close>

definition cfg_ok :: "LdnConfig \<Rightarrow> bool" where
  "cfg_ok c \<longleftrightarrow> holds 16 (cfg_server_ip c) \<and> holds 17 (cfg_passphrase c) \<and> passphrase_of (c_str (cfg_passphrase c))
     \<and> 1 \<le> cfg_logging_level c \<and> cfg_logging_level c \<le> 5"

lemma cfg_ok_fields [simp]:
  "cfg_ok (c\<lparr>cfg_enabled := e\<rparr>) = cfg_ok c" "cfg_ok (c\<lparr>cfg_logging_enabled := l\<rparr>) = cfg_ok c"
  "cfg_ok (c\<lparr>cfg_server_port := p\<rparr>) = cfg_ok c" "cfg_ok (c\<lparr>cfg_file := f\<rparr>) = cfg_ok c"
  "cfg_ok (c\<lparr>cfg_gLogLevel := g\<rparr>) = cfg_ok c" "cfg_ok (c\<lparr>cfg_updates := u\<rparr>) = cfg_ok c"
  by (simp_all add: cfg_ok_def)

lemma cfg_ok_save [simp]: "cfg_ok (SaveConfigToIni fs c) = cfg_ok c"
  by (simp add: SaveConfigToIni_def Let_def)

lemma holds_strncpy: "dst \<noteq> [] \<Longrightarrow> holds (length dst) (strncpy_last dst src)"
  by (cases dst) (simp_all add: strncpy_last_def holds_def Let_def)

lemma ini_assign_level:
  "1 \<le> ini_log_level v \<and> ini_log_level v \<le> 5 \<Longrightarrow> 1 \<le> ini_log_level (ini_assign k x v) \<and> ini_log_level (ini_assign k x v) \<le> 5"
  by (simp add: ini_assign_def Let_def)

lemma parse_ini_level: "1 \<le> ini_log_level (parse_ini s) \<and> ini_log_level (parse_ini s) \<le> 5"
proof -
  have "1 \<le> ini_log_level (fold ini_entry ls v) \<and> ini_log_level (fold ini_entry ls v) \<le> 5"
    if "1 \<le> ini_log_level v \<and> ini_log_level v \<le> 5" for ls v
    using that by (induction ls arbitrary: v) (simp_all add: ini_entry_def Let_def ini_assign_level)
  then show ?thesis by (simp add: parse_ini_def ini_defaults_def)
qed

lemma level_word: "1 \<le> (l :: int) \<Longrightarrow> l \<le> 5 \<Longrightarrow> (1 :: u32) \<le> word_of_int l \<and> (word_of_int l :: u32) \<le> 5"
  by (simp add: word_le_def take_bit_int_eq_self unsigned_of_int)

lemma cfg_ok_initial: "cfg_ok (LdnConfig_initial g f)"
  by (simp add: cfg_ok_def LdnConfig_initial_def holds_def passphrase_of_def c_str_def)

lemma cfg_ok_load: "cfg_ok c \<Longrightarrow> cfg_ok (LoadConfigFromIni r c)"
proof (cases "cfg_file c")
  case (Some f)
  assume ok: "cfg_ok c"
  define v where "v = parse_ini (if r then f else replicate (length f) NUL)"
  have l: "(1 :: u32) \<le> word_of_int (ini_log_level v) \<and> (word_of_int (ini_log_level v) :: u32) \<le> 5"
    unfolding v_def using parse_ini_level by (intro level_word) blast+
  have "cfg_server_ip c \<noteq> []" using ok by (auto simp: cfg_ok_def holds_def)
  with holds_strncpy [OF this] ok l Some show ?thesis
    by (auto simp: LoadConfigFromIni_def Let_def v_def [symmetric] cfg_ok_def holds_def)
qed (simp add: LoadConfigFromIni_def)

text \<open>What the menu reads.\<close>

lemma GetServerIP_ok:
  assumes "cfg_ok c" and "length raw = 16"
  shows "\<exists>a. ryuldnGetServerIP ok raw (replicate 256 NUL) c = Inr a \<and> NUL \<in> set a \<and> length a = 256
    \<and> c_str a = (if ok then c_str (cfg_server_ip c) else [])"
proof (cases ok)
  case True
  have h: "holds 16 (cfg_server_ip c)" using assms(1) by (simp add: cfg_ok_def)
  note l = holds_c_str [OF h]
  obtain b where b: "strcpy raw (cfg_server_ip c) = Inr b" "holds 16 b" "c_str b = c_str (cfg_server_ip c)"
    using strcpy_ok [of "cfg_server_ip c" raw] h l assms(2) by (auto simp: holds_def)
  obtain a where "strcpy (replicate 256 NUL) b = Inr a" "holds 256 a" "c_str a = c_str b"
    using strcpy_ok [of b "replicate 256 NUL"] b l by (auto simp: holds_def)
  with True b show ?thesis by (auto simp: ryuldnGetServerIP_def cfg_GetServerIP_def holds_def)
next
  case False
  then show ?thesis by (simp add: ryuldnGetServerIP_def c_str_def)
qed

lemma GetPassphrase_ok:
  assumes "cfg_ok c" and "length raw = 17"
  shows "\<exists>a. ryuldnGetPassphrase ok raw (replicate 17 NUL) c = Inr a
    \<and> c_str a = (if ok then c_str (cfg_passphrase c) else [])"
proof (cases ok)
  case True
  have h: "holds 17 (cfg_passphrase c)" using assms(1) by (simp add: cfg_ok_def)
  note l = holds_c_str [OF h]
  obtain b where b: "strcpy raw (cfg_passphrase c) = Inr b" "holds 17 b" "c_str b = c_str (cfg_passphrase c)"
    using strcpy_ok [of "cfg_passphrase c" raw] h l assms(2) by (auto simp: holds_def)
  obtain a where "strcpy (replicate 17 NUL) b = Inr a" "c_str a = c_str b"
    using strcpy_ok [of b "replicate 17 NUL"] b l by (auto simp: holds_def)
  with True b show ?thesis by (auto simp: ryuldnGetPassphrase_def cfg_GetPassphrase_def)
next
  case False
  then show ?thesis by (simp add: ryuldnGetPassphrase_def c_str_def)
qed

section \<open>Passphrases\<close>

lemma is_hex_code:
  "is_hex c \<longleftrightarrow> (let n = of_char c :: nat in 48 \<le> n \<and> n \<le> 57 \<or> 97 \<le> n \<and> n \<le> 102)"
proof -
  have "c \<in> set hex \<longleftrightarrow> (of_char c :: nat) \<in> of_char ` set hex"
    using inj_of_char [where 'a = nat] by (simp add: inj_image_mem_iff)
  also have "(of_char ` set hex :: nat set) = set ([48..<58] @ [97..<103])"
    by (simp add: hex_def upt_rec_numeral)
  also have "(of_char c :: nat) \<in> \<dots> \<longleftrightarrow> (let n = of_char c :: nat in 48 \<le> n \<and> n \<le> 57 \<or> 97 \<le> n \<and> n \<le> 102)"
    unfolding set_append set_upt Let_def by auto
  finally show ?thesis by (simp only: is_hex_def)
qed

text \<open>The test of the menu accepts exactly the passphrases.\<close>

lemma IsValidPassphrase_iff: "IsValidPassphrase s \<longleftrightarrow> passphrase_of s"
proof (cases "s = []")
  case False
  have "(\<forall>i \<in> {8..<16}. is_hex (s ! i)) \<longleftrightarrow> (\<forall>c \<in> set (drop 8 s). is_hex c)" if l: "length s = 16"
  proof -
    have "{8..<16} = (\<lambda>j. 8 + j) ` {..<8 :: nat}" by (simp add: image_add_atLeastLessThan lessThan_atLeast0)
    then have "(\<forall>i \<in> {8..<16}. is_hex (s ! i)) \<longleftrightarrow> (\<forall>j < 8. is_hex (s ! (8 + j)))" by auto
    with l show ?thesis by (simp add: all_set_conv_all_nth)
  qed
  then have "IsValidPassphrase s \<longleftrightarrow> length s = 16 \<and> take 8 s = ''Ryujinx-'' \<and> (\<forall>c \<in> set (drop 8 s). is_hex c)"
    using False unfolding IsValidPassphrase_def is_hex_code by auto
  also have "\<dots> \<longleftrightarrow> passphrase_of s"
  proof
    assume "length s = 16 \<and> take 8 s = ''Ryujinx-'' \<and> (\<forall>c \<in> set (drop 8 s). is_hex c)"
    then show "passphrase_of s"
      unfolding passphrase_of_def by (intro disjI2 exI [of _ "drop 8 s"]) (metis add_diff_cancel_left' append_take_drop_id length_drop numeral_Bit0)
  next
    assume "passphrase_of s"
    then obtain t where "s = ''Ryujinx-'' @ t" "length t = 8" "\<forall>c \<in> set t. is_hex c"
      using False by (auto simp: passphrase_of_def)
    then show "length s = 16 \<and> take 8 s = ''Ryujinx-'' \<and> (\<forall>c \<in> set (drop 8 s). is_hex c)" by simp
  qed
  finally show ?thesis .
qed (simp add: IsValidPassphrase_def passphrase_of_def)

lemma passphrase_no_NUL:
  assumes "passphrase_of s"
  shows "NUL \<notin> set s" and "length s \<le> 16"
proof -
  have "\<not> is_hex NUL" by (simp add: is_hex_code NUL_def Let_def)
  moreover have "NUL \<notin> set ''Ryujinx-''" by (simp add: NUL_def)
  ultimately show "NUL \<notin> set s" "length s \<le> 16" using assms by (auto simp: passphrase_of_def)
qed

lemma Passphrase_entered_ok:
  assumes "cfg_ok c" and "length junk = 17" and "passphrase_of s"
  shows "\<exists>c'. Passphrase_entered ok junk s c = Inr c' \<and> cfg_ok c' \<and> cfg_server_ip c' = cfg_server_ip c
    \<and> (ok \<longrightarrow> c_str (cfg_passphrase c') = s)"
proof -
  note s = passphrase_no_NUL [OF assms(3)]
  obtain b where b: "strcpy junk (s @ [NUL]) = Inr b" "holds 17 b" "c_str b = s"
    using strcpy_ok [of "s @ [NUL]" junk] s assms(2) by (auto simp: c_str_terminated)
  obtain p where p: "strcpy (cfg_passphrase c) b = Inr p" "holds 17 p" "c_str p = s"
    using strcpy_ok [of b "cfg_passphrase c"] b s assms(1) by (auto simp: cfg_ok_def holds_def)
  show ?thesis
    using b p assms IsValidPassphrase_iff [of s]
    by (auto simp: Passphrase_entered_def ryuldnSetPassphrase_def cfg_SetPassphrase_def Let_def cfg_ok_def)
qed

section \<open>The machine\<close>

lemma ServerIP_updateValue_ok:
  assumes "cfg_ok c" and "length raw = 16"
  shows "\<exists>v. ServerIP_updateValue ok raw c = Inr v"
proof -
  from GetServerIP_ok [OF assms, of ok] obtain a where "ryuldnGetServerIP ok raw (replicate 256 NUL) c = Inr a" by blast
  then show ?thesis by (simp add: ServerIP_updateValue_def)
qed

text \<open>An address that was entered is stored when it has less than sixteen characters, and overruns otherwise.\<close>

lemma ServerIP_entered_fits:
  assumes "cfg_ok c" and "length junk = 16" and "length raw = 16" and "length (c_str (s @ [NUL])) < 16"
  shows "\<exists>c'. ServerIP_entered ok junk fs ok' raw s c = Inr c' \<and> cfg_ok c' \<and> cfg_passphrase c' = cfg_passphrase c
    \<and> (ok \<longrightarrow> c_str (cfg_server_ip c') = c_str (s @ [NUL]))"
proof -
  obtain b where b: "strcpy junk (s @ [NUL]) = Inr b" "holds 16 b" "c_str b = c_str (s @ [NUL])"
    using strcpy_ok [of "s @ [NUL]" junk] assms(2,4) by auto
  obtain p where p: "strcpy (cfg_server_ip c) b = Inr p" "holds 16 p" "c_str p = c_str (s @ [NUL])"
    using strcpy_ok [of b "cfg_server_ip c"] b assms(1,4) by (auto simp: cfg_ok_def holds_def)
  define c' where "c' = (if ok then SaveConfigToIni fs (c\<lparr>cfg_server_ip := p\<rparr>) else c)"
  have r: "ryuldnSetServerIP ok junk fs s c = Inr c'"
    using b p by (simp add: ryuldnSetServerIP_def SetServerIP_def c'_def)
  have "cfg_ok (c\<lparr>cfg_server_ip := p\<rparr>)" using assms(1) p(2) by (simp add: cfg_ok_def)
  then have ok: "cfg_ok c'" using assms(1) by (simp add: c'_def)
  obtain v where v: "ServerIP_updateValue ok' raw c' = Inr v" using ServerIP_updateValue_ok [OF ok assms(3)] by blast
  have "cfg_passphrase c' = cfg_passphrase c" "ok \<longrightarrow> c_str (cfg_server_ip c') = c_str (s @ [NUL])"
    using p(3) by (simp_all add: c'_def SaveConfigToIni_def Let_def)
  with r v ok show ?thesis by (simp add: ServerIP_entered_def)
qed

lemma ServerIP_entered_overruns:
  "length junk = 16 \<Longrightarrow> 16 \<le> length (c_str (s @ [NUL])) \<Longrightarrow> ServerIP_entered ok junk fs ok' raw s c = Inl BufferOverrun"
  by (simp add: ServerIP_entered_def ryuldnSetServerIP_def strcpy_def)

lemma Passphrase_clicked_ok:
  assumes "cfg_ok c" and "length raw = 17"
  shows "\<exists>g. Passphrase_clicked ok raw c = Inr g \<and> pk_ok g"
proof -
  from GetPassphrase_ok [OF assms, of ok] obtain a where
    a: "ryuldnGetPassphrase ok raw (replicate 17 NUL) c = Inr a" "c_str a = (if ok then c_str (cfg_passphrase c) else [])"
    by blast
  have "passphrase_of (c_str a)" using a(2) assms(1) by (auto simp: cfg_ok_def passphrase_of_def)
  then have "pk_ok (PassphraseKeyboardGui_new
      (if length (c_str a) = 16 \<and> take 8 (c_str a) = ''Ryujinx-'' then drop 8 (c_str a) else []) 8)"
    by (auto simp: passphrase_of_def pk_ok_def PassphraseKeyboardGui_new_def)
  with a(1) show ?thesis by (simp add: Passphrase_clicked_def Let_def)
qed

lemma edit_passphrase_ok:
  fixes dis :: "nat \<Rightarrow> nat \<Rightarrow> nat"
  assumes "cfg_ok c" and "length raw = 17" and "length junk = 17" and "\<forall>i j. dis i j < 16"
  shows "\<exists>c'. edit_passphrase ok raw dis keys ok' junk c = Inr c' \<and> cfg_ok c' \<and> cfg_server_ip c' = cfg_server_ip c"
proof -
  obtain g where g: "Passphrase_clicked ok raw c = Inr g" "pk_ok g" using Passphrase_clicked_ok [OF assms(1,2)] by blast
  obtain r g' where v: "visit (\<lambda>(i, ks). pk_handleInput (dis i) ks) keys g = Inr (r, g')"
      "\<forall>s. r = Some (Some s) \<longrightarrow> passphrase_of s"
    using passphrase_visit [OF g(2) assms(4)] by blast
  have e: "edit_passphrase ok raw dis keys ok' junk c =
      (case r of Some (Some s) \<Rightarrow> Passphrase_entered ok' junk s c | _ \<Rightarrow> Inr c)"
    using g(1) v(1) by (simp add: edit_passphrase_def)
  show ?thesis
  proof (cases r)
    case (Some q)
    then show ?thesis using e assms(1) Passphrase_entered_ok [OF assms(1,3)] v(2) by (cases q) auto
  qed (use e assms(1) in simp)
qed

lemma port_text_fits: "length (to_string (unat (p :: u16))) \<le> 5"
  using to_string_length [of 5 "unat p"] unat_bound [of p] by simp

lemma edit_server_port_ok:
  assumes "cfg_ok c"
  shows "\<exists>c'. edit_server_port ok keys ok' fs c = Inr c' \<and> cfg_ok c'"
proof -
  have "ck_ok (ServerPort_clicked ok c)"
    unfolding ServerPort_clicked_def by (rule ck_ok_new) (rule port_text_fits)
  from address_visit [OF this, of keys] obtain r g' where
    v: "visit ck_handleInput keys (ServerPort_clicked ok c) = Inr (r, g')" by blast
  have "cfg_ok (ServerPort_entered ok' fs s c)" for s
    using assms by (auto simp: ServerPort_entered_def ryuldnSetServerPort_def SetServerPort_def split: option.split)
  with v assms show ?thesis by (auto simp: edit_server_port_def split: option.split)
qed

text \<open>What a user of the menu can do, with every answer of the transport and of the file system.\<close>

inductive ov_step :: "Overlay \<times> LdnConfig \<Rightarrow> Overlay \<times> LdnConfig \<Rightarrow> bool" where
  Start: "initServices a b ok raw o1 = Inr o2 \<Longrightarrow> ov_step (o1, c) (o2, c)"
| Enabled: "ov_step st (enabled_changed ok e st)"
| Custom_server: "ov_step st (custom_server_changed ok e st)"
| Logging: "ov_step st (logging_changed ok fs e st)"
| Level: "1 \<le> i \<Longrightarrow> i \<le> 5 \<Longrightarrow> ov_step (o1, c) (o1, snd (LoggingLevel_clicked ok fs i c))"
| Page: "MainGui_createUI ok rest ok1 n ok2 raw o1 c = Inr (ui, o2) \<Longrightarrow> ov_step (o1, c) (o2, c)"
| Debug_page: "DebugModeGui_createUI ok n ok1 raw ok2 ok3 n' ok4 o1 c = Inr (ui', o2) \<Longrightarrow> ov_step (o1, c) (o2, c)"
| Address: "length raw = 16 \<Longrightarrow> length junk = 16 \<Longrightarrow> length raw' = 16 \<Longrightarrow>
    edit_server_ip ok raw keys ok1 junk fs ok2 raw' c = Inr c' \<Longrightarrow> ov_step (o1, c) (o1, c')"
| Port: "edit_server_port ok keys ok1 fs c = Inr c' \<Longrightarrow> ov_step (o1, c) (o1, c')"
| Passphrase: "length raw = 17 \<Longrightarrow> length junk = 17 \<Longrightarrow> \<forall>i j. dis i j < 16 \<Longrightarrow>
    edit_passphrase ok raw dis pkeys ok1 junk c = Inr c' \<Longrightarrow> ov_step (o1, c) (o1, c')"

inductive ov_reachable :: "Overlay \<times> LdnConfig \<Rightarrow> bool" where
  New: "ov_reachable (Overlay_initial, LdnConfig_Initialize r (LdnConfig_initial g f))"
| Step: "ov_reachable st \<Longrightarrow> ov_step st st' \<Longrightarrow> ov_reachable st'"

lemma edit_server_ip_keeps:
  assumes "cfg_ok c" and "length junk = 16" and "length raw' = 16"
    and "edit_server_ip ok raw keys ok1 junk fs ok2 raw' c = Inr c'"
  shows "cfg_ok c'"
proof -
  from assms(4) obtain r where
    r: "(case r of Some (Some s) \<Rightarrow> ServerIP_entered ok1 junk fs ok2 raw' s c | _ \<Rightarrow> Inr c) = Inr c'"
    by (auto simp: edit_server_ip_def bind_run_Inr_iff)
  show ?thesis
  proof (cases "\<exists>s. r = Some (Some s)")
    case True
    then obtain s where s: "ServerIP_entered ok1 junk fs ok2 raw' s c = Inr c'" using r by auto
    then have "length (c_str (s @ [NUL])) < 16"
      using ServerIP_entered_overruns [OF assms(2)] by (metis not_le sum.distinct(1))
    from ServerIP_entered_fits [OF assms(1-3) this, of ok1 fs ok2] s show ?thesis by auto
  next
    case False
    then have "c' = c" using r by (auto split: option.splits)
    then show ?thesis using assms(1) by simp
  qed
qed

lemma ov_step_keeps: "ov_step st st' \<Longrightarrow> cfg_ok (snd st) \<Longrightarrow> cfg_ok (snd st')"
proof (induction rule: ov_step.induct)
  case (Address raw junk raw' ok keys ok1 fs ok2 c c' o1)
  then show ?case using edit_server_ip_keeps by auto
next
  case (Port ok keys ok1 fs c c' o1)
  then show ?case using edit_server_port_ok [of c ok keys ok1 fs] by auto
next
  case (Passphrase raw junk dis ok pkeys ok1 c c' o1)
  then show ?case using edit_passphrase_ok [of c raw junk dis ok pkeys ok1] by auto
next
  case (Level i o1 c ok fs)
  have "(1 :: u32) \<le> of_nat i \<and> (of_nat i :: u32) \<le> 5" using level_word [of "int i"] Level(1,2) by simp
  with Level show ?case
    by (simp add: LoggingLevel_clicked_def ryuldnSetLoggingLevel_def SetLoggingLevel_def) (simp add: cfg_ok_def)
qed (auto simp: enabled_changed_def custom_server_changed_def logging_changed_def ryuldnSetEnabled_def SetEnabled_def
    ryuldnSetLogging_def SetLogging_def split: prod.splits)

lemma ov_reachable_ok: "ov_reachable st \<Longrightarrow> cfg_ok (snd st)"
  by (induction rule: ov_reachable.induct)
    (simp_all add: LdnConfig_Initialize_def cfg_ok_load cfg_ok_initial ov_step_keeps)

section \<open>Properties\<close>

text \<open>
  C14: the settings menu keeps the settings well formed, whatever the user presses, the transport answers and
  the file holds at the start: the server name and the passphrase are terminated, the passphrase is empty or
  has the form the menu asks for, the logging level is between 1 and 5. In such a state every page is drawn
  without a fault, a visit to the passphrase keyboard always returns, and what is entered there is a
  passphrase and becomes the one in use.
\<close>

theorem menu_keeps_settings:
  fixes dis :: "nat \<Rightarrow> nat \<Rightarrow> nat"
  assumes "ov_reachable (o1, c)" and "length raw = 16" and "length raw' = 17" and "length junk = 17" and "\<forall>i j. dis i j < 16"
  shows "length (cfg_server_ip c) = 16 \<and> NUL \<in> set (cfg_server_ip c)
    \<and> length (cfg_passphrase c) = 17 \<and> NUL \<in> set (cfg_passphrase c) \<and> IsValidPassphrase (c_str (cfg_passphrase c))
    \<and> 1 \<le> cfg_logging_level c \<and> cfg_logging_level c \<le> 5
    \<and> (\<exists>x. DebugModeGui_createUI ok' n ok1 raw ok2 ok n' ok3 o1 c = Inr x)
    \<and> (\<exists>x. DebugModeGui_update ok1 raw ok2 ok3 c = Inr x)
    \<and> (\<exists>x. MainGui_createUI ok1 rest ok2 n ok3 raw' o1 c = Inr x)
    \<and> (\<exists>c'. edit_passphrase ok raw' dis keys ok' junk c = Inr c')
    \<and> (\<forall>s g. Passphrase_clicked ok raw' c = Inr g \<longrightarrow>
          (\<exists>g'. visit (\<lambda>(i, ks). pk_handleInput (dis i) ks) keys g = Inr (Some (Some s), g')) \<longrightarrow>
          (\<exists>c'. edit_passphrase ok raw' dis keys True junk c = Inr c' \<and> c_str (cfg_passphrase c') = s \<and> IsValidPassphrase s))"
proof -
  have c: "cfg_ok c" using ov_reachable_ok [OF assms(1)] by simp
  obtain v where v: "ServerIP_updateValue ok1 raw c = Inr v" using ServerIP_updateValue_ok [OF c assms(2)] by blast
  have "unat (ryuldnGetLoggingLevel ok3 1 c) \<le> 5"
    using c by (simp add: ryuldnGetLoggingLevel_def GetLoggingLevel_def cfg_ok_def word_le_nat_alt)
  then have l: "level_name (ryuldnGetLoggingLevel ok3 1 c) = Inr (LOG_LEVEL_NAMES ! unat (ryuldnGetLoggingLevel ok3 1 c))"
    by (simp add: level_name_def LOG_LEVEL_NAMES_def)
  then have "\<exists>x. DebugModeGui_createUI ok' n ok1 raw ok2 ok n' ok3 o1 c = Inr x"
    using v by (simp add: DebugModeGui_createUI_def CustomServerToggleListItem_def LoggingToggleListItem_def Let_def)
  moreover have "\<exists>x. DebugModeGui_update ok1 raw ok2 ok3 c = Inr x" using v l by (simp add: DebugModeGui_update_def)
  moreover obtain a where "ryuldnGetPassphrase ok3 raw' (replicate 17 NUL) c = Inr a"
    using GetPassphrase_ok [OF c assms(3)] by blast
  then have "\<exists>x. MainGui_createUI ok1 rest ok2 n ok3 raw' o1 c = Inr x"
    by (simp add: MainGui_createUI_def EnabledToggleListItem_def Passphrase_value_def Let_def split: State.split)
  moreover have "\<exists>c'. edit_passphrase ok raw' dis keys ok' junk c = Inr c'"
    using edit_passphrase_ok [OF c assms(3-5)] by blast
  moreover have "\<exists>c'. edit_passphrase ok raw' dis keys True junk c = Inr c' \<and> c_str (cfg_passphrase c') = s \<and> IsValidPassphrase s"
    if g: "Passphrase_clicked ok raw' c = Inr g" "visit (\<lambda>(i, ks). pk_handleInput (dis i) ks) keys g = Inr (Some (Some s), g')"
    for s g g'
  proof -
    have "pk_ok g" using Passphrase_clicked_ok [OF c assms(3), of ok] g(1) by simp
    then have p: "passphrase_of s" using passphrase_visit [OF _ assms(5), of g keys] g(2) by auto
    with Passphrase_entered_ok [OF c assms(4) p, of True] g show ?thesis
      by (auto simp: edit_passphrase_def IsValidPassphrase_iff)
  qed
  ultimately show ?thesis using c by (auto simp: cfg_ok_def holds_def IsValidPassphrase_iff)
qed

lemma demo_overlay: "ov_reachable (Overlay_initial, LdnConfig_Initialize True (LdnConfig_initial 3 None))"
  by (rule ov_reachable.New)

theorem menu_keeps_settings_witness:
  "\<exists>c'. edit_passphrase True (replicate 17 NUL) (\<lambda>_ _. 10) [(0, {HidNpadButton_Y}), (0, {HidNpadButton_A})] True
      (replicate 17 NUL) (LdnConfig_Initialize True (LdnConfig_initial 3 None)) = Inr c'
    \<and> c_str (cfg_passphrase c') = ''Ryujinx-aaaaaaaa''"
proof -
  let ?c = "LdnConfig_Initialize True (LdnConfig_initial 3 None)"
  have c: "?c = LdnConfig_initial 3 None" by (simp add: LdnConfig_Initialize_def LoadConfigFromIni_def LdnConfig_initial_def)
  obtain g where g: "Passphrase_clicked True (replicate 17 NUL) ?c = Inr g" "pk_selectedAction g = -1"
    using GetPassphrase_ok [OF ov_reachable_ok [OF demo_overlay, simplified], of "replicate 17 NUL" True]
    by (auto simp: Passphrase_clicked_def Let_def PassphraseKeyboardGui_new_def)
  have "random_digits (\<lambda>_. 10) = ''aaaaaaaa''" by code_simp
  then have "\<exists>g'. visit (\<lambda>(i, ks). pk_handleInput ((\<lambda>_ _. 10) i) ks) [(0, {HidNpadButton_Y}), (0, {HidNpadButton_A})] g
      = Inr (Some (Some ''Ryujinx-aaaaaaaa''), g')"
    using g(2) by (simp add: pk_handleInput_def pk_action_def Let_def)
  with menu_keeps_settings [OF demo_overlay, where dis = "\<lambda>_ _. 10" and raw = "replicate 16 NUL" and raw' = "replicate 17 NUL"
      and junk = "replicate 17 NUL" and keys = "[(0, {HidNpadButton_Y}), (0, {HidNpadButton_A})]" and ok = True] g(1)
  show ?thesis by fastforce
qed

text \<open>
  C28: entering a server address. When none is configured, a user of the menu can type every address of
  digits and dots of up to 255 characters. One of at most fifteen becomes the address in use; a longer one
  is copied into an array of sixteen bytes and overruns it.
\<close>

theorem address_entry_limits:
  assumes "ov_reachable (o1, c)" and "c_str (cfg_server_ip c) = []" and "s \<noteq> []" and "set s \<subseteq> set ''0123456789.''"
    and "length s \<le> 255" and "length raw = 16" and "length junk = 16" and "length raw' = 16"
  shows "\<exists>keys. if length s \<le> 15
    then \<exists>c'. edit_server_ip True raw keys True junk fs True raw' c = Inr c' \<and> GetServerAddress c' = s
    else edit_server_ip True raw keys True junk fs True raw' c = Inl BufferOverrun"
proof -
  have c: "cfg_ok c" using ov_reachable_ok [OF assms(1)] by simp
  obtain a where "ryuldnGetServerIP True raw (replicate 256 NUL) c = Inr a" "c_str a = []"
    using GetServerIP_ok [OF c assms(6), of True] assms(2) by auto
  then have g: "ServerIP_clicked True raw c = Inr (CustomKeyboardGui_new [] 255)" by (simp add: ServerIP_clicked_def)
  obtain keys g' where k: "visit ck_handleInput keys (CustomKeyboardGui_new [] 255) = Inr (Some (Some s), g')"
    using ck_enters [OF ck_ok_new _ assms(4), of "[]" 255] assms(5) by (auto simp: CustomKeyboardGui_new_def)
  have e: "edit_server_ip True raw keys True junk fs True raw' c = ServerIP_entered True junk fs True raw' s c"
    using g k by (simp add: edit_server_ip_def)
  have "NUL \<notin> set ''0123456789.''" by (simp add: NUL_def)
  then have "NUL \<notin> set s" using assms(4) by blast
  then have s: "c_str (s @ [NUL]) = s" by (rule c_str_terminated)
  show ?thesis
  proof (cases "length s \<le> 15")
    case True
    with ServerIP_entered_fits [OF c assms(7,8), of s True fs True] s obtain c' where
      "ServerIP_entered True junk fs True raw' s c = Inr c'" "c_str (cfg_server_ip c') = s" by auto
    with True e assms(3) show ?thesis by (intro exI [of _ keys]) (simp add: GetServerAddress_def)
  next
    case False
    with e s ServerIP_entered_overruns [OF assms(7), of s] show ?thesis by (intro exI [of _ keys]) simp
  qed
qed

theorem address_entry_limits_witness:
  "\<exists>keys. edit_server_ip True (replicate 16 NUL) keys True (replicate 16 NUL) fs_ok True (replicate 16 NUL)
     (LdnConfig_Initialize True (LdnConfig_initial 3 None)) = Inl BufferOverrun"
proof -
  have "c_str (cfg_server_ip (LdnConfig_Initialize True (LdnConfig_initial 3 None))) = []"
    by (simp add: LdnConfig_Initialize_def LoadConfigFromIni_def LdnConfig_initial_def c_str_def)
  from address_entry_limits [OF demo_overlay this, of "''255.255.255.2555''" "replicate 16 NUL" "replicate 16 NUL" "replicate 16 NUL" fs_ok]
  show ?thesis by simp
qed

text \<open>The loop over the digits agrees with the value of the number written.\<close>

lemma digits_mono: "(v :: nat) \<le> foldl (\<lambda>n d. 10 * n + (of_char d - 48)) v s"
proof (induction s arbitrary: v)
  case (Cons d s)
  have "v \<le> 10 * v + (of_char d - 48)" by simp
  also have "\<dots> \<le> foldl (\<lambda>n d. 10 * n + (of_char d - 48)) (10 * v + (of_char d - 48)) s" by (rule Cons)
  finally show ?case by simp
qed simp

lemma parse_port_value:
  "v \<le> 65535 \<Longrightarrow> parse_port s v =
     (let n = foldl (\<lambda>n d. 10 * n + (of_char d - 48)) v s in
      if (\<forall>d \<in> set s. is_digit d) \<and> n \<le> 65535 then Some n else None)"
proof (induction s arbitrary: v)
  case (Cons d s)
  let ?v = "10 * v + (of_char d - 48)"
  show ?case
  proof (cases "is_digit d \<and> ?v \<le> 65535")
    case True
    then show ?thesis using Cons.IH [of ?v] by (simp add: mult.commute)
  next
    case False
    then show ?thesis using digits_mono [of ?v s] by (auto simp: Let_def mult.commute)
  qed
qed simp

text \<open>
  C24: entering a port. The text entered on the keyboard is taken as a decimal number: one from 1 to 65535,
  written in digits only, becomes the port in use and is what the menu shows next; any other text changes
  nothing.
\<close>

theorem port_entry_is_decimal:
  assumes "visit ck_handleInput keys (ServerPort_clicked ok c) = Inr (Some (Some s), g)"
  shows "if s \<noteq> [] \<and> (\<forall>d \<in> set s. is_digit d) \<and> 1 \<le> digits_value s \<and> digits_value s \<le> 65535
    then \<exists>c'. edit_server_port ok keys True fs c = Inr c' \<and> GetServerPort c' = int (digits_value s)
      \<and> ServerPort_updateValue True c' = to_string (digits_value s) \<and> cfg_server_ip c' = cfg_server_ip c
    else edit_server_port ok keys True fs c = Inr c"
proof -
  have p: "parse_port s 0 = (if (\<forall>d \<in> set s. is_digit d) \<and> digits_value s \<le> 65535 then Some (digits_value s) else None)"
    using parse_port_value [of 0 s] by (simp add: digits_value_def Let_def)
  have e: "edit_server_port ok keys True fs c = Inr (ServerPort_entered True fs s c)"
    using assms by (simp add: edit_server_port_def)
  show ?thesis
  proof (cases "s \<noteq> [] \<and> (\<forall>d \<in> set s. is_digit d) \<and> 1 \<le> digits_value s \<and> digits_value s \<le> 65535")
    case True
    let ?n = "digits_value s"
    have u: "unat (of_nat ?n :: u16) = ?n" using True by (simp add: unat_of_nat)
    then have "0 < (of_nat ?n :: u16)" using True by (simp add: word_less_nat_alt)
    moreover have "uint (of_nat ?n :: u16) = int ?n" using u by (metis uint_nat)
    ultimately show ?thesis
      using True e p u
      by (auto simp: ServerPort_entered_def ryuldnSetServerPort_def SetServerPort_def SaveConfigToIni_def Let_def GetServerPort_def
          ServerPort_updateValue_def ryuldnGetServerPort_def cfg_GetServerPort_def)
  next
    case False
    have "ServerPort_entered True fs s c = c"
      using False p by (auto simp: ServerPort_entered_def split: if_splits)
    with e False show ?thesis by (simp only: if_False simp_thms)
  qed
qed

theorem port_entry_is_decimal_witness:
  "\<exists>c'. edit_server_port False [{HidNpadButton_X}, {HidNpadButton_Plus}] True fs_ok (LdnConfig_initial 3 None) = Inr c'
    \<and> GetServerPort c' = 1145"
proof -
  have t: "to_string 11452 = ''11452''" by (simp add: to_string.simps) code_simp
  have "visit ck_handleInput [{HidNpadButton_X}, {HidNpadButton_Plus}] (ServerPort_clicked False (LdnConfig_initial 3 None)) =
      Inr (Some (Some ''1145''), \<lparr>ck_text = ''1145'', ck_maxLen = 5, ck_cursorX = 0, ck_cursorY = 0\<rparr>)"
    by (simp add: ServerPort_clicked_def ryuldnGetServerPort_def t CustomKeyboardGui_new_def ck_handleInput_def)
  from port_entry_is_decimal [OF this, of fs_ok] show ?thesis
    by (auto simp: is_digit_def digits_value_def split: if_splits)
qed

end
