(* ===== verification/Overlay_Classes.thy ===== *)
theory Overlay_Classes
  imports Overlay_Properties
begin

text \<open>
  The other classes of the menu: the input modals of \<open>ui/modals.cpp\<close>, the items of \<open>ui/components.cpp\<close>, the
  overlay of \<open>overlay/overlay.cpp\<close> and the connection to the service of \<open>core/service.cpp\<close>. A callback is an
  optional function on a state \<open>'s\<close> of whoever registered it; calling an empty \<open>std::function\<close> throws, which
  is the result \<open>None\<close>. Names that \<open>main.cpp\<close> uses as well have the prefix \<open>ui_\<close>.
\<close>

section \<open>The modal for the passphrase\<close>

record 's PassphraseInputModal =
  pm_currentInput :: string
  pm_originalInput :: string
  pm_isOpen :: bool
  pm_onConfirm :: "(string \<Rightarrow> 's \<Rightarrow> 's) option"

definition PassphraseInputModal_new :: "(string \<Rightarrow> 's \<Rightarrow> 's) option \<Rightarrow> 's PassphraseInputModal" where
  "PassphraseInputModal_new callback =
     \<lparr>pm_currentInput = [], pm_originalInput = [], pm_isOpen = False, pm_onConfirm = callback\<rparr>"

definition pm_open :: "string \<Rightarrow> 's PassphraseInputModal \<Rightarrow> 's PassphraseInputModal" where
  "pm_open initialValue m = m\<lparr>pm_originalInput := initialValue, pm_currentInput := initialValue, pm_isOpen := True\<rparr>"

definition pm_appendChar :: "char \<Rightarrow> 's PassphraseInputModal \<Rightarrow> 's PassphraseInputModal" where
  "pm_appendChar c m =
     (if length (pm_currentInput m) < 64 then m\<lparr>pm_currentInput := pm_currentInput m @ [c]\<rparr> else m)"

definition pm_backspace :: "'s PassphraseInputModal \<Rightarrow> 's PassphraseInputModal" where
  "pm_backspace m = (if pm_currentInput m \<noteq> [] then m\<lparr>pm_currentInput := butlast (pm_currentInput m)\<rparr> else m)"

definition pm_clear :: "'s PassphraseInputModal \<Rightarrow> 's PassphraseInputModal" where
  "pm_clear m = m\<lparr>pm_currentInput := []\<rparr>"

definition pm_confirm :: "'s PassphraseInputModal \<Rightarrow> 's \<Rightarrow> 's PassphraseInputModal \<times> 's" where
  "pm_confirm m s =
     (m\<lparr>pm_isOpen := False\<rparr>, case pm_onConfirm m of None \<Rightarrow> s | Some f \<Rightarrow> f (pm_currentInput m) s)"

definition pm_cancel :: "'s PassphraseInputModal \<Rightarrow> 's PassphraseInputModal" where
  "pm_cancel m = m\<lparr>pm_currentInput := pm_originalInput m, pm_isOpen := False\<rparr>"

definition pm_getDisplay :: "'s PassphraseInputModal \<Rightarrow> string" where
  "pm_getDisplay m = replicate (length (pm_currentInput m)) (CHR ''*'')"

section \<open>The modal for the server\<close>

record 's ServerAddressInputModal =
  sm_address :: string
  sm_originalAddress :: string
  sm_port :: u32
  sm_originalPort :: u32
  sm_isOpen :: bool
  sm_isEditingPort :: bool
  sm_onConfirm :: "(string \<Rightarrow> u32 \<Rightarrow> 's \<Rightarrow> 's) option"

definition ServerAddressInputModal_new :: "(string \<Rightarrow> u32 \<Rightarrow> 's \<Rightarrow> 's) option \<Rightarrow> 's ServerAddressInputModal" where
  "ServerAddressInputModal_new callback =
     \<lparr>sm_address = [], sm_originalAddress = [], sm_port = 0, sm_originalPort = 0, sm_isOpen = False,
      sm_isEditingPort = False, sm_onConfirm = callback\<rparr>"

definition sm_open :: "string \<Rightarrow> u32 \<Rightarrow> 's ServerAddressInputModal \<Rightarrow> 's ServerAddressInputModal" where
  "sm_open addr p m =
     m\<lparr>sm_originalAddress := addr, sm_address := addr, sm_originalPort := p, sm_port := p, sm_isOpen := True,
       sm_isEditingPort := False\<rparr>"

definition sm_appendAddressChar :: "char \<Rightarrow> 's ServerAddressInputModal \<Rightarrow> 's ServerAddressInputModal" where
  "sm_appendAddressChar c m =
     (if \<not> sm_isEditingPort m \<and> length (sm_address m) < 255 then m\<lparr>sm_address := sm_address m @ [c]\<rparr> else m)"

definition sm_backspaceAddress :: "'s ServerAddressInputModal \<Rightarrow> 's ServerAddressInputModal" where
  "sm_backspaceAddress m =
     (if \<not> sm_isEditingPort m \<and> sm_address m \<noteq> [] then m\<lparr>sm_address := butlast (sm_address m)\<rparr> else m)"

text \<open>\<open>std::stoul\<close> of a text that begins with a digit.\<close>

definition stoul :: "string \<Rightarrow> nat" where
  "stoul t = digits_value (takeWhile is_digit t)"

definition sm_appendPortDigit :: "char \<Rightarrow> 's ServerAddressInputModal \<Rightarrow> 's ServerAddressInputModal" where
  "sm_appendPortDigit digit m =
     (if sm_isEditingPort m then
        let portStr = to_string (unat (sm_port m)) in
        if length portStr < 5 then
          let m = m\<lparr>sm_port := of_nat (stoul (portStr @ [digit]))\<rparr> in
          if 65535 < sm_port m then m\<lparr>sm_port := 65535\<rparr> else m
        else m
      else m)"

definition sm_backspacePort :: "'s ServerAddressInputModal \<Rightarrow> 's ServerAddressInputModal" where
  "sm_backspacePort m =
     (if sm_isEditingPort m \<and> 0 < sm_port m then m\<lparr>sm_port := sm_port m div 10\<rparr> else m)"

definition sm_toggleField :: "'s ServerAddressInputModal \<Rightarrow> 's ServerAddressInputModal" where
  "sm_toggleField m = m\<lparr>sm_isEditingPort := \<not> sm_isEditingPort m\<rparr>"

definition sm_confirm :: "'s ServerAddressInputModal \<Rightarrow> 's \<Rightarrow> 's ServerAddressInputModal \<times> 's" where
  "sm_confirm m s =
     (m\<lparr>sm_isOpen := False\<rparr>, case sm_onConfirm m of None \<Rightarrow> s | Some f \<Rightarrow> f (sm_address m) (sm_port m) s)"

definition sm_cancel :: "'s ServerAddressInputModal \<Rightarrow> 's ServerAddressInputModal" where
  "sm_cancel m = m\<lparr>sm_address := sm_originalAddress m, sm_port := sm_originalPort m, sm_isOpen := False\<rparr>"

definition sm_getFieldDisplay :: "'s ServerAddressInputModal \<Rightarrow> string" where
  "sm_getFieldDisplay m = (if sm_isEditingPort m then to_string (unat (sm_port m)) else sm_address m)"

section \<open>Items\<close>

record 's ui_Toggle =
  ui_label :: string
  ui_state :: bool
  ui_onStateChanged :: "(bool \<Rightarrow> 's \<Rightarrow> 's) option"

definition ui_EnabledToggleListItem :: "'s ui_Toggle" where
  "ui_EnabledToggleListItem = \<lparr>ui_label = ''Enabled'', ui_state = False, ui_onStateChanged = None\<rparr>"

definition ui_LoggingToggleListItem :: "'s ui_Toggle" where
  "ui_LoggingToggleListItem = \<lparr>ui_label = ''Logging'', ui_state = False, ui_onStateChanged = None\<rparr>"

definition ui_PassphraseToggleListItem :: "'s ui_Toggle" where
  "ui_PassphraseToggleListItem = \<lparr>ui_label = ''Passphrase Included'', ui_state = False, ui_onStateChanged = None\<rparr>"

definition ui_DevModeToggleListItem :: "'s ui_Toggle" where
  "ui_DevModeToggleListItem = \<lparr>ui_label = ''Dev Mode'', ui_state = False, ui_onStateChanged = None\<rparr>"

record ui_LoggingLevelListItem =
  ul_label :: string
  ul_level :: u32

definition ui_LoggingLevelListItem_new :: ui_LoggingLevelListItem where
  "ui_LoggingLevelListItem_new = \<lparr>ul_label = ''Logging Level'', ul_level = 1\<rparr>"

definition ui_getLevelString :: "u32 \<Rightarrow> string" where
  "ui_getLevelString l =
     (if l = 0 then ''Off'' else if l = 1 then ''Error'' else if l = 2 then ''Warning'' else if l = 3 then ''Info''
      else if l = 4 then ''Debug'' else ''Unknown'')"

definition ul_getValue :: "ui_LoggingLevelListItem \<Rightarrow> string" where
  "ul_getValue i = ui_getLevelString (ul_level i)"

record ui_PassphraseListItem =
  up_label :: string
  up_passphrase :: string
  up_passphraseSize :: u32

definition ui_PassphraseListItem_new :: ui_PassphraseListItem where
  "ui_PassphraseListItem_new = \<lparr>up_label = ''Passphrase'', up_passphrase = replicate 65 NUL, up_passphraseSize = 0\<rparr>"

text \<open>\<open>std::string(array, n)\<close> reads \<open>n\<close> characters.\<close>

definition string_of :: "string \<Rightarrow> u32 \<Rightarrow> string run" where
  "string_of array n = (if unat n \<le> length array then Inr (take (unat n) array) else Inl BufferOverrun)"

definition up_getValue :: "ui_PassphraseListItem \<Rightarrow> string run" where
  "up_getValue i = (if up_passphraseSize i = 0 then Inr [] else string_of (up_passphrase i) (up_passphraseSize i))"

definition up_getDisplay :: "ui_PassphraseListItem \<Rightarrow> string" where
  "up_getDisplay i =
     (if up_passphraseSize i = 0 then ''(empty)'' else replicate (unat (up_passphraseSize i)) (CHR ''*''))"

record ui_ServerAddressListItem =
  ua_label :: string
  ua_address :: string
  ua_addressSize :: u32
  ua_port :: u32
  ua_devModeEnabled :: bool

definition ui_ServerAddressListItem_new :: ui_ServerAddressListItem where
  "ui_ServerAddressListItem_new =
     \<lparr>ua_label = ''Server Address'', ua_address = replicate 256 NUL, ua_addressSize = 0, ua_port = 30456,
      ua_devModeEnabled = False\<rparr>"

definition ua_getDisplay :: "ui_ServerAddressListItem \<Rightarrow> string run" where
  "ua_getDisplay i =
     (if ua_addressSize i = 0 then Inr ''(default)'' else string_of (ua_address i) (ua_addressSize i))"

record ui_ServerPortListItem =
  uo_label :: string
  uo_port :: u32
  uo_devModeEnabled :: bool

definition ui_ServerPortListItem_new :: ui_ServerPortListItem where
  "ui_ServerPortListItem_new = \<lparr>uo_label = ''Server Port'', uo_port = 30456, uo_devModeEnabled = False\<rparr>"

definition uo_getDisplay :: "ui_ServerPortListItem \<Rightarrow> string" where
  "uo_getDisplay i = take 31 (to_string (unat (uo_port i)))"

section \<open>The overlay\<close>

record 's RyuLDNOverlay =
  ro_initialized :: bool
  ro_enabledItem :: "'s ui_Toggle option"
  ro_loggingItem :: "'s ui_Toggle option"
  ro_loggingLevelItem :: "ui_LoggingLevelListItem option"
  ro_passphraseToggleItem :: "'s ui_Toggle option"
  ro_passphraseItem :: "ui_PassphraseListItem option"
  ro_serverAddressItem :: "ui_ServerAddressListItem option"
  ro_serverPortItem :: "ui_ServerPortListItem option"
  ro_devModeItem :: "'s ui_Toggle option"
  ro_selectedIndex :: int

definition RyuLDNOverlay_new :: "'s RyuLDNOverlay" where
  "RyuLDNOverlay_new =
     \<lparr>ro_initialized = False, ro_enabledItem = None, ro_loggingItem = None, ro_loggingLevelItem = None,
      ro_passphraseToggleItem = None, ro_passphraseItem = None, ro_serverAddressItem = None,
      ro_serverPortItem = None, ro_devModeItem = None, ro_selectedIndex = 0\<rparr>"

definition ro_ensureInitialized :: "State \<Rightarrow> 's RyuLDNOverlay \<Rightarrow> 's RyuLDNOverlay" where
  "ro_ensureInitialized st r =
     (if ro_initialized r \<or> st \<noteq> State_Loaded then r
      else r\<lparr>ro_initialized := True, ro_enabledItem := Some ui_EnabledToggleListItem,
             ro_loggingItem := Some ui_LoggingToggleListItem, ro_loggingLevelItem := Some ui_LoggingLevelListItem_new,
             ro_passphraseToggleItem := Some ui_PassphraseToggleListItem,
             ro_passphraseItem := Some ui_PassphraseListItem_new,
             ro_serverAddressItem := Some ui_ServerAddressListItem_new,
             ro_serverPortItem := Some ui_ServerPortListItem_new, ro_devModeItem := Some ui_DevModeToggleListItem\<rparr>)"

definition ro_update :: "State \<Rightarrow> 's RyuLDNOverlay \<Rightarrow> 's RyuLDNOverlay" where
  "ro_update st r = ro_ensureInitialized st r"

text \<open>\<open>item->onStateChanged(!item->state)\<close>, when there is an item.\<close>

definition ui_toggle :: "'s ui_Toggle option \<Rightarrow> 's \<Rightarrow> 's option" where
  "ui_toggle item s =
     (case item of
        None \<Rightarrow> Some s
      | Some i \<Rightarrow> (case ui_onStateChanged i of None \<Rightarrow> None | Some f \<Rightarrow> Some (f (\<not> ui_state i) s)))"

definition ro_handleSelection :: "'s RyuLDNOverlay \<Rightarrow> 's \<Rightarrow> 's option" where
  "ro_handleSelection r s =
     (if \<not> ro_initialized r then Some s
      else if ro_selectedIndex r = 0 then ui_toggle (ro_enabledItem r) s
      else if ro_selectedIndex r = 1 then ui_toggle (ro_loggingItem r) s
      else if ro_selectedIndex r = 4 then ui_toggle (ro_devModeItem r) s
      else Some s)"

definition ro_move :: "Button set \<Rightarrow> 's RyuLDNOverlay \<Rightarrow> 's RyuLDNOverlay" where
  "ro_move keysDown r =
     (let r = (if HidNpadButton_Up \<in> keysDown \<and> 0 < ro_selectedIndex r
               then r\<lparr>ro_selectedIndex := ro_selectedIndex r - 1\<rparr> else r) in
      if HidNpadButton_Down \<in> keysDown \<and> ro_selectedIndex r < 10
      then r\<lparr>ro_selectedIndex := ro_selectedIndex r + 1\<rparr> else r)"

definition ro_handleInput :: "State \<Rightarrow> Button set \<Rightarrow> 's RyuLDNOverlay \<Rightarrow> 's \<Rightarrow> ('s RyuLDNOverlay \<times> 's) option" where
  "ro_handleInput st keysDown r s =
     (let r = ro_ensureInitialized st r in
      if st \<noteq> State_Loaded then Some (r, s)
      else
        let r = ro_move keysDown r in
        if HidNpadButton_A \<in> keysDown then map_option (Pair r) (ro_handleSelection r s) else Some (r, s))"

section \<open>The connection\<close>

record RyuLdnConfig =
  rc_enabled :: u32
  rc_server_ip :: string
  rc_server_port :: u16
  rc_passphrase :: string

record Core =
  co_state :: State
  co_config :: RyuLdnConfig
  co_version :: string
  co_error :: string
  co_ldnSrv :: bool
  co_configSrv :: bool

definition Core_initial :: Core where
  "Core_initial =
     \<lparr>co_state = State_Uninit,
      co_config = \<lparr>rc_enabled = 0, rc_server_ip = replicate 16 NUL, rc_server_port = 0, rc_passphrase = replicate 17 NUL\<rparr>,
      co_version = replicate 64 NUL, co_error = [], co_ldnSrv = False, co_configSrv = False\<rparr>"

text \<open>\<open>%X\<close>\<close>

fun hex_upper :: "nat \<Rightarrow> string" where
  "hex_upper n = (if n < 16 then [''0123456789ABCDEF'' ! n] else hex_upper (n div 16) @ [''0123456789ABCDEF'' ! (n mod 16)])"

declare hex_upper.simps [simp del]

definition core_failed :: "string \<Rightarrow> u32 \<Rightarrow> Core \<Rightarrow> Core" where
  "core_failed what rc k = k\<lparr>co_state := State_Error, co_error := take 63 (what @ '' (0x'' @ hex_upper (unat rc) @ '')'')\<rparr>"

text \<open>
  The result codes of the three calls that can fail the start, and of the four whose failure is ignored;
  \<open>raw\<close> are the uninitialised arrays of the calls.
\<close>

definition serviceInitialize ::
    "u32 \<Rightarrow> u32 \<Rightarrow> u32 \<Rightarrow> (bool \<times> bool \<times> bool \<times> bool) \<Rightarrow> (string \<times> string \<times> string) \<Rightarrow> LdnConfig \<Rightarrow> Core
       \<Rightarrow> (bool \<times> Core) run" where
  "serviceInitialize rc rc' ver_rc oks raws c k =
     (let (ok_enabled, ok_pass, ok_ip, ok_port) = oks; (raw_version, raw_pass, raw_ip) = raws;
          k = k\<lparr>co_state := State_Uninit\<rparr> in
      if rc \<noteq> 0 then Inr (False, core_failed ''Cannot connect to ldn:u'' rc k)
      else
        let k = k\<lparr>co_ldnSrv := True\<rparr> in
        if rc' \<noteq> 0 then Inr (False, (core_failed ''RyuLDN config unavailable'' rc' k)\<lparr>co_ldnSrv := False\<rparr>)
        else
          let k = k\<lparr>co_configSrv := True\<rparr> in
          bind_run (ryuldnGetVersion (ver_rc = 0) raw_version (co_version k)) (\<lambda>v.
            let k = k\<lparr>co_version := v\<rparr> in
            if ver_rc \<noteq> 0 then Inr (False, core_failed ''IPC communication failed'' ver_rc k)
            else
              let cfg = (co_config k)\<lparr>rc_enabled := ryuldnGetEnabled ok_enabled 1 c\<rparr> in
              bind_run (ryuldnGetPassphrase ok_pass raw_pass (replicate 128 NUL) c) (\<lambda>passphrase.
              bind_run (strcpy (rc_passphrase cfg) passphrase) (\<lambda>p.
              bind_run (ryuldnGetServerIP ok_ip raw_ip (replicate 256 NUL) c) (\<lambda>server_ip.
              bind_run (strcpy (rc_server_ip cfg) server_ip) (\<lambda>i.
                let cfg = cfg\<lparr>rc_passphrase := p, rc_server_ip := i,
                              rc_server_port := ryuldnGetServerPort ok_port 11452 c\<rparr> in
                Inr (True, k\<lparr>co_config := cfg, co_state := State_Loaded\<rparr>)))))))"

definition serviceShutdown :: "Core \<Rightarrow> Core" where
  "serviceShutdown k = k\<lparr>co_configSrv := False, co_ldnSrv := False\<rparr>"

section \<open>Entering a port in the modal\<close>

lemma to_string_short: "length (to_string n) < 5 \<longleftrightarrow> n < 10000"
  using to_string_length [of 4 n] by auto

lemma stoul_append:
  "stoul (to_string n @ [d]) = (if is_digit d then 10 * n + (of_char d - 48) else n)"
proof -
  have "takeWhile is_digit (to_string n @ [d]) = to_string n @ takeWhile is_digit [d]"
    using to_string_digits [of n] by (simp add: takeWhile_append2)
  then show ?thesis using digits_value_to_string [of n] by (simp add: stoul_def digits_value_def)
qed

lemma unat_small: "n < 4294967296 \<Longrightarrow> unat (of_nat n :: u32) = n"
  by (simp add: unat_of_nat)

lemma digit_bound: "is_digit d \<Longrightarrow> of_char d - 48 < (10 :: nat)"
  by (auto simp: is_digit_def)

lemma sm_appendPortDigit_eq:
  assumes "sm_isEditingPort m" and "is_digit d"
  shows "sm_appendPortDigit d m =
    m\<lparr>sm_port := (if unat (sm_port m) < 10000 then of_nat (min (10 * unat (sm_port m) + (of_char d - 48)) 65535) else sm_port m)\<rparr>"
proof (cases "unat (sm_port m) < 10000")
  case True
  let ?n = "10 * unat (sm_port m) + (of_char d - 48)"
  have "unat (of_nat ?n :: u32) = ?n" using True digit_bound [OF assms(2)] by (intro unat_small) simp
  then have "(65535 :: u32) < of_nat ?n \<longleftrightarrow> 65535 < ?n" by (simp add: word_less_nat_alt)
  with True assms show ?thesis
    by (simp add: sm_appendPortDigit_def to_string_short stoul_append Let_def min_def)
next
  case False
  with assms show ?thesis by (simp add: sm_appendPortDigit_def to_string_short)
qed

text \<open>Typing digits after a number of \<open>k\<close> digits.\<close>

lemma sm_type_digits:
  assumes "sm_isEditingPort m" and "v < 10 ^ k" and "k + length ds \<le> 5" and "sm_port m = of_nat (min v 65535)"
    and "\<forall>d \<in> set ds. is_digit d"
  shows "fold sm_appendPortDigit ds m = m\<lparr>sm_port := of_nat (min (foldl (\<lambda>n d. 10 * n + (of_char d - 48)) v ds) 65535)\<rparr>"
  using assms
proof (induction ds arbitrary: m v k)
  case (Cons d ds)
  have "(10 :: nat) ^ k \<le> 10 ^ 4" using Cons.prems(3) by (intro power_increasing) simp_all
  then have v: "v < 10000" using Cons.prems(2) by simp
  then have u: "unat (sm_port m) = v" using Cons.prems(4) by (simp add: unat_small)
  let ?v = "10 * v + (of_char d - 48)"
  let ?m = "m\<lparr>sm_port := of_nat (min ?v 65535)\<rparr>"
  have d: "is_digit d" using Cons.prems(5) by simp
  have m: "sm_appendPortDigit d m = ?m" using sm_appendPortDigit_eq [OF Cons.prems(1) d] u v by simp
  have "?v < 10 ^ Suc k" using Cons.prems(2) digit_bound [OF d] by simp
  from Cons.IH [OF _ this, of ?m] Cons.prems m show ?case by simp
qed simp

lemma sm_backspacePort_eq: "sm_isEditingPort m \<Longrightarrow> sm_backspacePort m = m\<lparr>sm_port := sm_port m div 10\<rparr>"
  by (auto simp: sm_backspacePort_def word_gt_0)

lemma sm_backspace_all:
  assumes "sm_isEditingPort m" and "sm_port m \<le> 65535"
  shows "(sm_backspacePort ^^ 5) m = m\<lparr>sm_port := 0\<rparr>"
proof -
  have "(sm_backspacePort ^^ n) m = m\<lparr>sm_port := of_nat (unat (sm_port m) div 10 ^ n)\<rparr>" for n
  proof (induction n)
    case (Suc n)
    let ?v = "unat (sm_port m) div 10 ^ n"
    have "?v < 4294967296" by (rule le_less_trans [OF div_le_dividend]) (use unat_bound [of "sm_port m"] in simp)
    then have "(of_nat ?v :: u32) div 10 = of_nat (?v div 10)"
      by (intro word_unat_eq_iff [THEN iffD2]) (simp add: unat_div unat_small)
    with Suc assms(1) show ?case by (simp add: sm_backspacePort_eq div_mult2_eq [symmetric] mult.commute)
  qed simp
  moreover have "unat (sm_port m) div 10 ^ 5 = 0" using assms(2) by (simp add: word_le_nat_alt)
  ultimately show ?thesis by simp
qed

text \<open>
  The modal for the server. In its port field five backspaces remove any port, and up to five digits
  typed then are the number they write, cut to 65535. Confirming hands over the address and that number and
  closes the modal; cancelling gives back the address and the port the modal was opened with.
\<close>

theorem modal_enters_port:
  fixes f :: "string \<Rightarrow> u32 \<Rightarrow> 's \<Rightarrow> 's"
  assumes "p \<le> 65535" and "length ds \<le> 5" and "\<forall>d \<in> set ds. is_digit d"
  shows "let m = fold sm_appendPortDigit ds
        ((sm_backspacePort ^^ 5) (sm_toggleField (sm_open addr p (ServerAddressInputModal_new (Some f)))))
    in sm_port m = of_nat (min (digits_value ds) 65535)
    \<and> sm_getFieldDisplay m = to_string (min (digits_value ds) 65535)
    \<and> snd (sm_confirm m s) = f addr (of_nat (min (digits_value ds) 65535)) s
    \<and> \<not> sm_isOpen (fst (sm_confirm m s))
    \<and> sm_address (sm_cancel m) = addr \<and> sm_port (sm_cancel m) = p \<and> \<not> sm_isOpen (sm_cancel m)"
proof -
  let ?m = "sm_toggleField (sm_open addr p (ServerAddressInputModal_new (Some f)))"
  have e: "sm_isEditingPort ?m" "sm_port ?m \<le> 65535"
    using assms(1) by (simp_all add: sm_toggleField_def sm_open_def)
  have b: "(sm_backspacePort ^^ 5) ?m = ?m\<lparr>sm_port := 0\<rparr>" by (rule sm_backspace_all [OF e])
  have "fold sm_appendPortDigit ds (?m\<lparr>sm_port := 0\<rparr>) =
      ?m\<lparr>sm_port := 0\<rparr>\<lparr>sm_port := of_nat (min (foldl (\<lambda>n d. 10 * n + (of_char d - 48)) 0 ds) 65535)\<rparr>"
    by (rule sm_type_digits [of _ 0 0]) (use assms(2,3) e in simp_all)
  then have m: "fold sm_appendPortDigit ds ((sm_backspacePort ^^ 5) ?m) = ?m\<lparr>sm_port := of_nat (min (digits_value ds) 65535)\<rparr>"
    unfolding b by (simp add: digits_value_def)
  have "unat (of_nat (min (digits_value ds) 65535) :: u32) = min (digits_value ds) 65535" by (intro unat_small) simp
  then show ?thesis
    unfolding m Let_def
    by (simp add: sm_getFieldDisplay_def sm_confirm_def sm_cancel_def sm_toggleField_def sm_open_def ServerAddressInputModal_new_def)
qed

theorem modal_enters_port_witness:
  "sm_port (fold sm_appendPortDigit ''99999''
     ((sm_backspacePort ^^ 5) (sm_toggleField (sm_open ''10.0.0.7'' 30456
        (ServerAddressInputModal_new (Some (\<lambda>a q (_ :: string \<times> u32). (a, q)))))))) = 65535"
  using modal_enters_port [of 30456 "''99999''" "''10.0.0.7''" "\<lambda>a q (_ :: string \<times> u32). (a, q)"]
  by (simp add: is_digit_def digits_value_def Let_def)

section \<open>Using the overlay\<close>

fun ro_run :: "(State \<times> Button set) list \<Rightarrow> 's RyuLDNOverlay \<Rightarrow> 's \<Rightarrow> ('s RyuLDNOverlay \<times> 's) option" where
  "ro_run [] r s = Some (r, s)"
| "ro_run ((st, keys) # ins) r s =
     (case ro_handleInput st keys r s of None \<Rightarrow> None | Some (r', s') \<Rightarrow> ro_run ins r' s')"

text \<open>Nothing registers a callback with an item.\<close>

definition ro_ok :: "'s RyuLDNOverlay \<Rightarrow> bool" where
  "ro_ok r \<longleftrightarrow> 0 \<le> ro_selectedIndex r \<and> ro_selectedIndex r \<le> 10
     \<and> (ro_initialized r \<longrightarrow> ro_enabledItem r = Some ui_EnabledToggleListItem
          \<and> ro_loggingItem r = Some ui_LoggingToggleListItem \<and> ro_devModeItem r = Some ui_DevModeToggleListItem)"

lemma ro_ok_ensure: "ro_ok r \<Longrightarrow> ro_ok (ro_ensureInitialized st r)"
  by (auto simp: ro_ok_def ro_ensureInitialized_def)

lemma ro_selection:
  assumes "ro_ok r" and "ro_initialized r"
  shows "ro_handleSelection r s = (if ro_selectedIndex r \<in> {0, 1, 4} then None else Some s)"
  using assms
  by (simp add: ro_ok_def ro_handleSelection_def ui_toggle_def ui_EnabledToggleListItem_def ui_LoggingToggleListItem_def
      ui_DevModeToggleListItem_def)

text \<open>Where the keys put the selection.\<close>

definition moved :: "Button set \<Rightarrow> int \<Rightarrow> int" where
  "moved keys i =
     (let i = (if HidNpadButton_Up \<in> keys \<and> 0 < i then i - 1 else i) in
      if HidNpadButton_Down \<in> keys \<and> i < 10 then i + 1 else i)"

lemma ro_move_eq: "ro_move keys r = r\<lparr>ro_selectedIndex := moved keys (ro_selectedIndex r)\<rparr>"
  by (cases r) (simp add: ro_move_def moved_def Let_def)

lemma ro_handleInput_eq:
  assumes "ro_ok r"
  shows "ro_handleInput st keys r s =
    (if st \<noteq> State_Loaded then Some (r, s)
     else if HidNpadButton_A \<in> keys \<and> moved keys (ro_selectedIndex r) \<in> {0, 1, 4} then None
     else Some ((ro_ensureInitialized st r)\<lparr>ro_selectedIndex := moved keys (ro_selectedIndex r)\<rparr>, s))"
proof (cases "st = State_Loaded")
  case True
  let ?r = "(ro_ensureInitialized st r)\<lparr>ro_selectedIndex := moved keys (ro_selectedIndex r)\<rparr>"
  have i: "ro_selectedIndex (ro_ensureInitialized st r) = ro_selectedIndex r" "ro_initialized (ro_ensureInitialized st r)"
    using True by (simp_all add: ro_ensureInitialized_def)
  have "ro_ok ?r" using ro_ok_ensure [OF assms, of st] i by (auto simp: ro_ok_def moved_def Let_def)
  from ro_selection [OF this, of s] i(2) have h: "ro_handleSelection ?r s =
      (if moved keys (ro_selectedIndex r) \<in> {0, 1, 4} then None else Some s)" by simp
  have "ro_handleInput st keys r s =
      (if HidNpadButton_A \<in> keys then map_option (Pair ?r) (ro_handleSelection ?r s) else Some (?r, s))"
    using True i(1) by (simp add: ro_handleInput_def ro_move_eq Let_def)
  with True h show ?thesis by simp
next
  case False
  then show ?thesis by (simp add: ro_handleInput_def ro_ensureInitialized_def)
qed

lemma ro_handleInput_keeps:
  assumes "ro_ok r" and "ro_handleInput st keys r s = Some (r', s')"
  shows "ro_ok r' \<and> s' = s"
proof -
  have "ro_ok ((ro_ensureInitialized st r)\<lparr>ro_selectedIndex := moved keys (ro_selectedIndex r)\<rparr>)"
    using ro_ok_ensure [OF assms(1), of st] assms(1) by (auto simp: ro_ok_def moved_def Let_def)
  with assms show ?thesis by (auto simp: ro_handleInput_eq split: if_splits)
qed

lemma ro_run_keeps: "ro_run ins r s = Some (r', s') \<Longrightarrow> ro_ok r \<Longrightarrow> ro_ok r' \<and> s' = s"
proof (induction ins r s rule: ro_run.induct)
  case (2 st keys ins r s)
  from 2(2) obtain r1 s1 where h: "ro_handleInput st keys r s = Some (r1, s1)" "ro_run ins r1 s1 = Some (r', s')"
    by (auto split: option.splits)
  from 2(1) [OF h(1)] h(2) ro_handleInput_keeps [OF 2(3) h(1)] show ?case by auto
qed simp

text \<open>
  The overlay class never changes a setting. Its selection stays between 0 and 10 and nothing it is
  given to act on is ever touched; choosing one of its three switches calls an empty function and throws.
\<close>

theorem overlay_switches_throw:
  assumes "ro_run ins RyuLDNOverlay_new s = Some (r, s')"
  shows "s' = s \<and> 0 \<le> ro_selectedIndex r \<and> ro_selectedIndex r \<le> 10
    \<and> (ro_handleInput State_Loaded keys r s' = None \<longleftrightarrow>
         HidNpadButton_A \<in> keys \<and> moved keys (ro_selectedIndex r) \<in> {0, 1, 4})
    \<and> ro_handleInput State_Error keys r s' = Some (r, s')"
proof -
  have "ro_ok (RyuLDNOverlay_new :: 'a RyuLDNOverlay)" by (simp add: ro_ok_def RyuLDNOverlay_new_def)
  from ro_run_keeps [OF assms this] show ?thesis by (simp add: ro_handleInput_eq) (simp add: ro_ok_def)
qed

theorem overlay_switches_throw_witness:
  "ro_handleInput State_Loaded {HidNpadButton_Down, HidNpadButton_A}
     (RyuLDNOverlay_new :: bool RyuLDNOverlay) True = None"
  using overlay_switches_throw [of "[]" True RyuLDNOverlay_new True "{HidNpadButton_Down, HidNpadButton_A}"]
  by (simp add: moved_def RyuLDNOverlay_new_def)

section \<open>The connection\<close>

text \<open>With settings the service keeps, the copies of the start fit, and the settings are what is cached.\<close>

lemma serviceInitialize_ok:
  assumes "cfg_ok c" and "length raw_pass = 17" and "length raw_ip = 16" and "length raw_version = 32"
    and "length (co_version k) = 64" and "length (rc_passphrase (co_config k)) = 17" and "length (rc_server_ip (co_config k)) = 16"
  shows "\<exists>k'. serviceInitialize 0 0 0 (True, True, True, True) (raw_version, raw_pass, raw_ip) c k = Inr (True, k')
    \<and> co_state k' = State_Loaded \<and> c_str (rc_passphrase (co_config k')) = c_str (cfg_passphrase c)
    \<and> c_str (rc_server_ip (co_config k')) = c_str (cfg_server_ip c) \<and> rc_server_port (co_config k') = cfg_server_port c"
proof -
  have h: "holds 17 (cfg_passphrase c)" "holds 16 (cfg_server_ip c)" using assms(1) by (simp_all add: cfg_ok_def)
  note l = holds_c_str [OF h(1)] holds_c_str [OF h(2)]
  obtain v' where v': "GetVersion raw_version = Inr v'" "length v' = 32" "NUL \<in> set v'"
    using strcpy_ok [of "VERSION_STRING @ [NUL]" raw_version] assms(4)
    by (auto simp: GetVersion_def holds_def VERSION_STRING_def c_str_def NUL_def)
  obtain v where v: "strcpy (co_version k) v' = Inr v"
    using strcpy_ok [of v' "co_version k"] c_str_shorter [OF v'(3)] v' assms(5) by auto
  obtain a where a: "strcpy raw_pass (cfg_passphrase c) = Inr a" "holds 17 a" "c_str a = c_str (cfg_passphrase c)"
    using strcpy_ok [of "cfg_passphrase c" raw_pass] h l assms(2) by (auto simp: holds_def)
  obtain b where b: "strcpy (replicate 128 NUL) a = Inr b" "NUL \<in> set b" "c_str b = c_str (cfg_passphrase c)"
    using strcpy_ok [of a "replicate 128 NUL"] a l by (auto simp: holds_def)
  obtain p where p: "strcpy (rc_passphrase (co_config k)) b = Inr p" "c_str p = c_str (cfg_passphrase c)"
    using strcpy_ok [of b "rc_passphrase (co_config k)"] b l assms(6) by auto
  obtain ia where ia: "ryuldnGetServerIP True raw_ip (replicate 256 NUL) c = Inr ia" "NUL \<in> set ia" "c_str ia = c_str (cfg_server_ip c)"
    using GetServerIP_ok [OF assms(1,3), of True] by auto
  obtain i where i: "strcpy (rc_server_ip (co_config k)) ia = Inr i" "c_str i = c_str (cfg_server_ip c)"
    using strcpy_ok [of ia "rc_server_ip (co_config k)"] ia l assms(7) by auto
  show ?thesis
    using v' v a b p ia i
    by (simp add: serviceInitialize_def ryuldnGetVersion_def ryuldnGetPassphrase_def cfg_GetPassphrase_def Let_def
        ryuldnGetServerPort_def cfg_GetServerPort_def)
qed

end
