(* ===== verification/Overlay_Drawing.thy ===== *)
theory Overlay_Drawing
  imports Overlay_Keyboard
begin

text \<open>
  What the two keyboards of \<open>custom_keyboard.hpp\<close> draw: a list of texts with their position, size and colour,
  in the order of the calls of the renderer, for a drawer at \<open>x\<close>, \<open>y\<close>.
\<close>

datatype Color = Packed nat | RGBA nat nat nat nat

record Text =
  tx_text :: string
  tx_x :: int
  tx_y :: int
  tx_size :: nat
  tx_color :: Color

definition drawString :: "string \<Rightarrow> int \<Rightarrow> int \<Rightarrow> nat \<Rightarrow> Color \<Rightarrow> Text" where
  "drawString s x y n c = \<lparr>tx_text = s, tx_x = x, tx_y = y, tx_size = n, tx_color = c\<rparr>"

definition ck_highlight :: Color where "ck_highlight = Packed 0xFF00"

text \<open>The loops over the rows and their keys; \<open>key row col ch\<close> draws one.\<close>

definition draw_keys :: "(int \<Rightarrow> int \<Rightarrow> char \<Rightarrow> Text) \<Rightarrow> string list \<Rightarrow> Text list" where
  "draw_keys key rows =
     concat (map (\<lambda>row. map (\<lambda>col. key (int row) (int col) (rows ! row ! col)) [0..<length (rows ! row)]) [0..<length rows])"

definition ck_key :: "CustomKeyboardGui \<Rightarrow> int \<Rightarrow> int \<Rightarrow> int \<Rightarrow> int \<Rightarrow> char \<Rightarrow> Text" where
  "ck_key g x startY row col ch =
     drawString [ch] (x + 40 + col * 35) (startY + row * 40) 24
       (if row = ck_cursorY g \<and> col = ck_cursorX g then ck_highlight else Packed 0xFFFF)"

definition ck_draw :: "int \<Rightarrow> int \<Rightarrow> CustomKeyboardGui \<Rightarrow> Text list" where
  "ck_draw x y g =
     [drawString (ck_text g) (x + 20) (y + 80) 20 (Packed 0xFFFF),
      drawString ''_'' (x + 20 + int (length (ck_text g)) * 12) (y + 80) 20 (Packed 0xFFFF)] @
     draw_keys (ck_key g x (y + 120)) CK_ROWS @
     [drawString ''A: Select  X: Backspace  +: Done  B: Cancel'' (x + 20) (y + 320) 15 (Packed 0xAAAA)]"

definition pk_highlight :: Color where "pk_highlight = RGBA 0xF 0xF 0x0 0xF"

definition pk_key :: "PassphraseKeyboardGui \<Rightarrow> int \<Rightarrow> int \<Rightarrow> int \<Rightarrow> int \<Rightarrow> char \<Rightarrow> Text" where
  "pk_key g x y row col ch =
     drawString [ch] (x + 50 + col * 70) (y + 130 + row * 50) 28
       (if row = pk_cursorY g \<and> col = pk_cursorX g then pk_highlight else RGBA 0xF 0xF 0xF 0xF)"

definition pk_buttons :: "string list" where
  "pk_buttons = [''[Randomize]'', ''[Clear]'', ''[Cancel]'']"

definition pk_draw :: "int \<Rightarrow> int \<Rightarrow> PassphraseKeyboardGui \<Rightarrow> Text list" where
  "pk_draw x y g =
     (let display = ''Ryujinx-'' @ pk_text g in
      [drawString display (x + 20) (y + 80) 20 (Packed 0xFFFF),
       drawString ''_'' (x + 20 + int (length display) * 12) (y + 80) 20 (Packed 0xFFFF)] @
      (if pk_selectedAction g = -1 then draw_keys (pk_key g x y) PK_ROWS else []) @
      map (\<lambda>i. drawString (pk_buttons ! i) (x + 30 + int i * 150) (y + 350) 18
             (if pk_selectedAction g = int i then pk_highlight else RGBA 0xA 0xA 0xA 0xF)) [0..<3] @
      [drawString ''D-Pad: Navigate  A: Select  X: Backspace  Y: Actions'' (x + 20) (y + 390) 14 (Packed 0x8888)])"

section \<open>The highlighted key\<close>

definition highlighted :: "Color \<Rightarrow> Text list \<Rightarrow> string list" where
  "highlighted c ts = map tx_text (filter (\<lambda>t. tx_color t = c) ts)"

lemma highlighted_simps [simp]:
  "highlighted c [] = []" "highlighted c (ts @ us) = highlighted c ts @ highlighted c us"
  "highlighted c (drawString s x y n c' # ts) = (if c' = c then s # highlighted c ts else highlighted c ts)"
  by (simp_all add: highlighted_def drawString_def)

lemma keys_simps:
  "draw_keys key CK_ROWS =
     [key 0 0 CHR ''1'', key 0 1 CHR ''2'', key 0 2 CHR ''3'', key 1 0 CHR ''4'', key 1 1 CHR ''5'', key 1 2 CHR ''6'',
      key 2 0 CHR ''7'', key 2 1 CHR ''8'', key 2 2 CHR ''9'', key 3 0 CHR ''0'', key 3 1 CHR ''.'']"
  "draw_keys key PK_ROWS =
     [key 0 0 CHR ''0'', key 0 1 CHR ''1'', key 0 2 CHR ''2'', key 0 3 CHR ''3'', key 1 0 CHR ''4'', key 1 1 CHR ''5'',
      key 1 2 CHR ''6'', key 1 3 CHR ''7'', key 2 0 CHR ''8'', key 2 1 CHR ''9'', key 2 2 CHR ''a'', key 2 3 CHR ''b'',
      key 3 0 CHR ''c'', key 3 1 CHR ''d'', key 3 2 CHR ''e'', key 3 3 CHR ''f'']"
  by (simp_all add: draw_keys_def CK_ROWS_def PK_ROWS_def upt_rec_numeral numeral_2_eq_2 numeral_3_eq_3)

lemma rows_simps:
  "CK_ROWS ! 0 = ''123''" "CK_ROWS ! Suc 0 = ''456''" "CK_ROWS ! 2 = ''789''" "CK_ROWS ! 3 = ''0.''"
  "PK_ROWS ! 0 = ''0123''" "PK_ROWS ! Suc 0 = ''4567''" "PK_ROWS ! 2 = ''89ab''" "PK_ROWS ! 3 = ''cdef''"
  by (simp_all add: CK_ROWS_def PK_ROWS_def)

text \<open>One key is highlighted, and it is the one that \<open>A\<close> enters.\<close>

lemma ck_highlights:
  assumes "ck_ok g"
  shows "highlighted ck_highlight (ck_draw x y g) = [[CK_ROWS ! nat (ck_cursorY g) ! nat (ck_cursorX g)]]"
proof -
  have y: "0 \<le> ck_cursorY g" "ck_cursorY g < 4" using assms by (simp_all add: ck_ok_def)
  have x: "0 \<le> ck_cursorX g" "ck_cursorX g < strlen (CK_ROWS ! nat (ck_cursorY g))" using assms by (simp_all add: ck_ok_def)
  have "strlen (CK_ROWS ! nat (ck_cursorY g)) = (if ck_cursorY g = 3 then 2 else 3)"
    using four_rows [OF y] by (auto simp: CK_ROWS_def strlen_def)
  with x have "(ck_cursorX g = 0 \<or> ck_cursorX g = 1 \<or> ck_cursorX g = 2) \<and> (ck_cursorY g = 3 \<longrightarrow> ck_cursorX g \<noteq> 2)"
    by (cases "ck_cursorY g = 3") auto
  with four_rows [OF y] show ?thesis
    by (auto simp: ck_draw_def keys_simps ck_key_def ck_highlight_def rows_simps)
qed

lemma pk_highlights:
  assumes "pk_ok g"
  shows "highlighted pk_highlight (pk_draw x y g) =
    [if pk_selectedAction g = -1 then [PK_ROWS ! nat (pk_cursorY g) ! nat (pk_cursorX g)]
     else pk_buttons ! nat (pk_selectedAction g)]"
proof -
  have y: "0 \<le> pk_cursorY g" "pk_cursorY g < 4" and x: "0 \<le> pk_cursorX g" "pk_cursorX g < 4"
    and a: "-1 \<le> pk_selectedAction g" "pk_selectedAction g < 3" using assms by (simp_all add: pk_ok_def)
  have b: "[0..<3 :: nat] = [0, 1, 2]" by (simp add: upt_rec numeral_eq_Suc)
  have "pk_selectedAction g = -1 \<or> pk_selectedAction g = 0 \<or> pk_selectedAction g = 1 \<or> pk_selectedAction g = 2"
    using a by auto
  then show ?thesis
  proof (cases "pk_selectedAction g = -1")
    case True
    with four_rows [OF y] four_rows [OF x] show ?thesis
      by (auto simp: pk_draw_def keys_simps pk_key_def pk_highlight_def rows_simps Let_def b)
  next
    case False
    with \<open>pk_selectedAction g = -1 \<or> _\<close> show ?thesis
      by (auto simp: pk_draw_def pk_highlight_def pk_buttons_def Let_def b)
  qed
qed

text \<open>
  On both keyboards exactly one thing is highlighted in every state, and it is what the button \<open>A\<close> acts
  on: the character it appends, or the action it runs.
\<close>

theorem keyboards_highlight_selection:
  fixes dis :: "nat \<Rightarrow> nat \<Rightarrow> nat"
  assumes "visit ck_handleInput keys (CustomKeyboardGui_new t n) = Inr (None, g)" and "length t \<le> n"
    and "visit (\<lambda>(i, ks). pk_handleInput (dis i) ks) keys' (PassphraseKeyboardGui_new u 8) = Inr (None, h)"
    and "length u \<le> 8" and "\<forall>c \<in> set u. is_hex c" and "\<forall>i j. dis i j < 16"
  shows "(\<exists>c. highlighted ck_highlight (ck_draw x y g) = [[c]]
      \<and> ck_handleInput {HidNpadButton_A} g =
          Inr (Used, if length (ck_text g) < n then g\<lparr>ck_text := ck_text g @ [c]\<rparr> else g))
    \<and> (\<exists>s. highlighted pk_highlight (pk_draw x y h) = [s]
      \<and> pk_handleInput d {HidNpadButton_A} h = Inr
          (if s = ''[Randomize]'' then (GoBack (Some (''Ryujinx-'' @ random_digits d)), h\<lparr>pk_text := random_digits d\<rparr>)
           else if s = ''[Clear]'' then (GoBack (Some []), h)
           else if s = ''[Cancel]'' then (GoBack None, h)
           else if length (pk_text h) < 8 then
             (if length (pk_text h @ s) = 8 then GoBack (Some (''Ryujinx-'' @ pk_text h @ s)) else Used, h\<lparr>pk_text := pk_text h @ s\<rparr>)
           else (Used, h)))"
proof (intro conjI)
  have g: "ck_ok g" "ck_maxLen g = n"
    using address_visit [OF ck_ok_new [OF assms(2)], of keys] assms(1) by (auto simp: CustomKeyboardGui_new_def)
  then have c: "0 \<le> ck_cursorY g" "ck_cursorY g < 4" "0 \<le> ck_cursorX g" "ck_cursorX g < strlen (CK_ROWS ! nat (ck_cursorY g))"
    by (simp_all add: ck_ok_def)
  show "\<exists>c. highlighted ck_highlight (ck_draw x y g) = [[c]]
      \<and> ck_handleInput {HidNpadButton_A} g =
          Inr (Used, if length (ck_text g) < n then g\<lparr>ck_text := ck_text g @ [c]\<rparr> else g)"
    using ck_highlights [OF g(1)] ck_row(1) [OF c(1,2)] char_at_in [OF c(3,4)] g(2) by (simp add: ck_handleInput_def)
next
  have "pk_ok (PassphraseKeyboardGui_new u 8)" using assms(4,5) by (simp add: pk_ok_def PassphraseKeyboardGui_new_def)
  from passphrase_visit [OF this assms(6), of keys'] assms(3) have h: "pk_ok h" by auto
  have k: "pk_selectedAction h \<in> {-1, 0, 1, 2}" "pk_maxLen h = 8" using h by (auto simp: pk_ok_def)
  show "\<exists>s. highlighted pk_highlight (pk_draw x y h) = [s]
      \<and> pk_handleInput d {HidNpadButton_A} h = Inr
          (if s = ''[Randomize]'' then (GoBack (Some (''Ryujinx-'' @ random_digits d)), h\<lparr>pk_text := random_digits d\<rparr>)
           else if s = ''[Clear]'' then (GoBack (Some []), h)
           else if s = ''[Cancel]'' then (GoBack None, h)
           else if length (pk_text h) < 8 then
             (if length (pk_text h @ s) = 8 then GoBack (Some (''Ryujinx-'' @ pk_text h @ s)) else Used, h\<lparr>pk_text := pk_text h @ s\<rparr>)
           else (Used, h))"
  proof (cases "pk_selectedAction h = -1")
    case True
    have c: "0 \<le> pk_cursorY h" "pk_cursorY h < 4" "0 \<le> pk_cursorX h" "pk_cursorX h < 4" using h by (simp_all add: pk_ok_def)
    have "char_at (PK_ROWS ! nat (pk_cursorY h)) (pk_cursorX h) = Inr (PK_ROWS ! nat (pk_cursorY h) ! nat (pk_cursorX h))"
      using char_at_in [OF c(3)] c(4) pk_row(2) [OF c(1,2)] by simp
    with True k(2) pk_highlights [OF h] pk_row(1) [OF c(1,2)] show ?thesis
      by (simp add: pk_handleInput_def pk_add_character_def Let_def)
  next
    case False
    with k pk_highlights [OF h] show ?thesis by (auto simp: pk_handleInput_def pk_action_def pk_buttons_def Let_def)
  qed
qed

theorem keyboards_highlight_selection_witness:
  "highlighted ck_highlight (ck_draw 0 0 (CustomKeyboardGui_new [] 5)) = [''1'']
    \<and> highlighted pk_highlight (pk_draw 0 0 (PassphraseKeyboardGui_new [] 8)) = [''0'']"
  using keyboards_highlight_selection [of "[]" "[]" 5 "CustomKeyboardGui_new [] 5" "\<lambda>_ _. 0" "[]" "[]" "PassphraseKeyboardGui_new [] 8"
    0 0 "\<lambda>_. 0"]
  by (simp add: ck_draw_def pk_draw_def keys_simps ck_key_def pk_key_def ck_highlight_def pk_highlight_def CustomKeyboardGui_new_def
      PassphraseKeyboardGui_new_def Let_def upt_rec_numeral)

end
