(* ===== verification/Icommunication.thy ===== *)
theory Icommunication
  imports Master_Machine Ldn_Config
begin

text \<open>
  \<open>ldn_icommunication.cpp\<close>: the service a game talks to. Its state is the record below together with
  the master client, when there is one, and the shared buffer pool. The state event is a flag.

  The commands run one after the other; between them, and while a command waits, the worker thread of
  the client makes its passes. \<open>service_env\<close> ties the client to the service: its callbacks, and the
  handlers that \<open>LdnProxy\<close> puts into the protocol object. \<open>base\<close> is what neither decides, that is
  whether P2P servers and clients come up.
\<close>

section \<open>State\<close>

record ICommunicationService =
  ic_stateEvent :: "bool option"
  ic_errorState :: u64
  ic_ryuldnProxy :: "LdnProxy option"
  ic_registered :: bool
  ic_currentState :: CommState
  ic_networkInfo :: NetworkInfo
  ic_disconnectReason :: DisconnectReason
  ic_disconnectIp :: u32
  ic_nodeLatestUpdates :: "NodeLatestUpdate list"

type_synonym ics = "BufferPool \<times> LdnMasterProxyClient option \<times> ICommunicationService"

definition ICommunicationService_new :: ICommunicationService where
  "ICommunicationService_new =
     \<lparr>ic_stateEvent = None, ic_errorState = 0, ic_ryuldnProxy = None, ic_registered = False,
      ic_currentState = CommState_None, ic_networkInfo = zero_info,
      ic_disconnectReason = DisconnectReason_None, ic_disconnectIp = 0,
      ic_nodeLatestUpdates = replicate NodeCountMax (get_NodeLatestUpdate (replicate 8 0))\<rparr>"

definition DisconnectReasonToString :: "u32 \<Rightarrow> string" where
  "DisconnectReasonToString reason =
     (if reason = 0 then ''None''
      else if reason = 1 then ''DisconnectedByUser''
      else if reason = 2 then ''DisconnectedBySystem''
      else if reason = 3 then ''DestroyedByUser''
      else if reason = 4 then ''DestroyedBySystem''
      else if reason = 5 then ''Rejected''
      else if reason = 6 then ''SignalLost''
      else ''Unknown'')"

definition onEventFired :: "ICommunicationService \<Rightarrow> ICommunicationService" where
  "onEventFired s = (case ic_stateEvent s of None \<Rightarrow> s | Some _ \<Rightarrow> s\<lparr>ic_stateEvent := Some True\<rparr>)"

definition setState :: "CommState \<Rightarrow> ICommunicationService \<Rightarrow> ICommunicationService" where
  "setState state s = onEventFired (s\<lparr>ic_currentState := state\<rparr>)"

text \<open>\<open>clientIp\<close> is \<open>ryuldn_client ? ryuldn_client->GetDisconnectIp() : 0\<close>.\<close>

definition onNetworkChange ::
    "u32 \<Rightarrow> NetworkInfo \<Rightarrow> bool \<Rightarrow> DisconnectReason \<Rightarrow> ICommunicationService \<Rightarrow> ICommunicationService" where
  "onNetworkChange clientIp info connected reason s =
     (if connected then
        let s = s\<lparr>ic_disconnectReason := DisconnectReason_None, ic_disconnectIp := 0,
                  ic_networkInfo := info\<rparr> in
        if ic_currentState s = AccessPoint then setState AccessPointCreated s
        else if ic_currentState s = Station then setState StationConnected s
        else s
      else
        let effective =
              (if reason = DisconnectReason_None then
                 if ic_currentState s = AccessPointCreated then DestroyedBySystem
                 else if ic_currentState s = StationConnected then DisconnectedByUser
                 else DisconnectedBySystem
               else reason);
            s = s\<lparr>ic_disconnectReason := effective, ic_disconnectIp := clientIp,
                  ic_networkInfo := info\<rparr> in
        if ic_currentState s = AccessPointCreated then setState AccessPoint s
        else if ic_currentState s = StationConnected then setState Station s
        else s)"

section \<open>The client's environment\<close>

text \<open>
  The callback for \<open>ProxyConfig\<close>: \<open>proxyNew\<close> says whether the allocation succeeds. \<open>LdnProxy\<close> is
  created from the first configuration only.
\<close>

definition onProxyConfig_service :: "bool \<Rightarrow> ProxyConfig \<Rightarrow> ICommunicationService \<Rightarrow> ICommunicationService" where
  "onProxyConfig_service proxyNew config s =
     (if ic_ryuldnProxy s = None \<and> pcf_proxyIp config \<noteq> 0 then
        if \<not> proxyNew then s
        else s\<lparr>ic_ryuldnProxy := Some (LdnProxy_new config), ic_registered := True\<rparr>
      else s)"

text \<open>The packets a proxy has handed to the client since \<open>px\<close>.\<close>

definition newly_sent :: "LdnProxy \<Rightarrow> LdnProxy \<Rightarrow> bytes list" where
  "newly_sent px px' = drop (length (px_sent px)) (px_sent px')"

text \<open>An operation of the proxy in the service: what it sends goes out through the client.\<close>

definition via_proxy ::
    "(pxs \<Rightarrow> pxs run) \<Rightarrow> LdnProxy \<Rightarrow> ICommunicationService mcs \<Rightarrow> ICommunicationService mcs run" where
  "via_proxy f px = (\<lambda>(pool, c, s).
     bind_run (f (pool, px)) (\<lambda>(pool, px').
       Inr (pool, send_all (newly_sent px px') c, s\<lparr>ic_ryuldnProxy := Some px'\<rparr>)))"

definition ldn_event :: "RyuEvent \<Rightarrow> bool" where
  "ldn_event ev =
     (case ev of
        onProxyConnect h m \<Rightarrow> True | onProxyConnectReply h m \<Rightarrow> True | onProxyData h m sp \<Rightarrow> True
      | onProxyDisconnect h m \<Rightarrow> True | _ \<Rightarrow> False)"

definition service_other ::
    "RyuEvent \<Rightarrow> ICommunicationService mcs \<Rightarrow> ICommunicationService mcs run option" where
  "service_other ev = (\<lambda>(pool, c, s).
     case ic_ryuldnProxy s of
       None \<Rightarrow> None
     | Some px \<Rightarrow> if ldn_event ev then Some (via_proxy (LdnProxy_callbacks ev) px (pool, c, s)) else None)"

definition service_env :: "bool \<Rightarrow> ICommunicationService Env \<Rightarrow> ICommunicationService Env" where
  "service_env proxyNew base =
     base\<lparr>env_networkChange := Some (\<lambda>c. onNetworkChange (mc_disconnectIp c)),
          env_proxyConfig := Some (\<lambda>h. onProxyConfig_service proxyNew),
          env_proxyData := None,
          env_other := service_other,
          env_otherRegisters := LdnProxy_registers\<rparr>"

text \<open>A call on the client, whose pointer is not null.\<close>

definition on_client ::
    "(ICommunicationService mcs \<Rightarrow> ('a \<times> ICommunicationService mcs) run) \<Rightarrow> LdnMasterProxyClient
       \<Rightarrow> ics \<Rightarrow> ('a \<times> ics) run" where
  "on_client f c = (\<lambda>(pool, _, s).
     bind_run (f (pool, c, s)) (\<lambda>(r, pool, c, s). Inr (r, pool, Some c, s)))"

definition on_state :: "(ICommunicationService \<Rightarrow> ICommunicationService) \<Rightarrow> ics \<Rightarrow> ics" where
  "on_state f = (\<lambda>(pool, oc, s). (pool, oc, f s))"

definition WrongState :: Result where "WrongState = MAKERESULT 0xCB 32"

section \<open>Life cycle\<close>

text \<open>
  What \<open>Initialize\<close> gets from outside: whether the allocations succeed, the values the constructor of
  the client leaves uninitialised, and the result of \<open>os::CreateThread\<close>.
\<close>

record Startup =
  su_event :: bool
  su_client :: bool
  su_failed :: bool
  su_config :: ProxyConfig
  su_info :: NetworkInfo
  su_thread :: Result

definition delete_client :: "ICommunicationService Env \<Rightarrow> LdnMasterProxyClient \<Rightarrow> ics \<Rightarrow> ics run" where
  "delete_client env c = (\<lambda>(pool, _, s).
     bind_run (LdnMasterProxyClient_destroy env (pool, c, s)) (\<lambda>(pool, s). Inr (pool, None, s)))"

definition passphrase_bytes :: "LdnConfig \<Rightarrow> bytes" where
  "passphrase_bytes cfg = cstr (c_str (cfg_passphrase cfg))"

definition ic_Initialize ::
    "ICommunicationService Env \<Rightarrow> Startup \<Rightarrow> LdnConfig \<Rightarrow> ics \<Rightarrow> (Result \<times> ics) run" where
  "ic_Initialize env su cfg = (\<lambda>(pool, oc, s).
     if ic_stateEvent s = None \<and> \<not> su_event su then Inr (MAKERESULT 0xFD 2, pool, oc, s)
     else
       let s = (if ic_stateEvent s = None then s\<lparr>ic_stateEvent := Some False\<rparr> else s) in
       case oc of
         Some c \<Rightarrow> Inr (ResultSuccess, pool, oc, setState Initialized s)
       | None \<Rightarrow>
           if \<not> su_client su then Inr (MAKERESULT 0xFD 2, pool, None, s)
           else
             let c = LdnMasterProxyClient_new (su_failed su) (su_config su) (su_info su)
                       (GetServerAddress cfg) (GetServerPort cfg) True in
             if \<not> IsConstructionSuccessful c then
               bind_run (delete_client env c (pool, Some c, s)) (\<lambda>st. Inr (MAKERESULT 0xFD 2, st))
             else
               let (rc, c) = mc_Initialize (su_thread su) c in
               if rc \<noteq> ResultSuccess then
                 bind_run (delete_client env c (pool, Some c, s)) (\<lambda>st. Inr (rc, st))
               else
                 bind_run
                   (if getPassphraseIncluded cfg \<and> 0 < getPassphraseSize cfg
                    then SetPassphrase (Some (passphrase_bytes cfg)) (pool, c, s) else Inr (pool, c, s))
                   (\<lambda>(pool, c, s). Inr (ResultSuccess, pool, Some c, setState Initialized s)))"

definition ic_InitializeSystem2 ::
    "ICommunicationService Env \<Rightarrow> Startup \<Rightarrow> LdnConfig \<Rightarrow> u64 \<Rightarrow> ics \<Rightarrow> (Result \<times> ics) run" where
  "ic_InitializeSystem2 env su cfg unk st =
     ic_Initialize env su cfg (on_state (\<lambda>s. s\<lparr>ic_errorState := unk\<rparr>) st)"

text \<open>The handler \<open>Initialize\<close> gives to \<open>LdnConfig::SetPassphraseUpdateHandler\<close>.\<close>

definition ic_passphraseUpdate :: "LdnConfig \<Rightarrow> ics \<Rightarrow> ics run" where
  "ic_passphraseUpdate cfg = (\<lambda>(pool, oc, s).
     case oc of
       Some c \<Rightarrow>
         if 0 < getPassphraseSize cfg \<and> getPassphraseIncluded cfg then
           bind_run (SetPassphrase (Some (passphrase_bytes cfg)) (pool, c, s))
             (\<lambda>(pool, c, s). Inr (pool, Some c, s))
         else Inr (pool, oc, s)
     | None \<Rightarrow> Inr (pool, oc, s))"

definition ic_Finalize :: "ICommunicationService Env \<Rightarrow> ics \<Rightarrow> (Result \<times> ics) run" where
  "ic_Finalize env = (\<lambda>(pool, oc, s).
     let s = (if ic_ryuldnProxy s \<noteq> None then s\<lparr>ic_registered := False, ic_ryuldnProxy := None\<rparr> else s);
         finish = (\<lambda>(pool, oc, s). (pool, oc, setState CommState_None (s\<lparr>ic_stateEvent := None\<rparr>))) in
     case oc of
       None \<Rightarrow> Inr (ResultSuccess, finish (pool, oc, s))
     | Some c \<Rightarrow>
         bind_run (mc_Finalize env (c, s)) (\<lambda>(rc, c, s).
         bind_run (delete_client env c (pool, Some c, s)) (\<lambda>st.
           if rc \<noteq> ResultSuccess then Inr (rc, st) else Inr (ResultSuccess, finish st))))"

section \<open>Hosting\<close>

definition ic_OpenAccessPoint :: "ics \<Rightarrow> Result \<times> ics" where
  "ic_OpenAccessPoint = (\<lambda>(pool, oc, s).
     if ic_currentState s \<noteq> Initialized then (WrongState, pool, oc, s)
     else (ResultSuccess, pool, oc, setState AccessPoint s))"

text \<open>\<open>if (ryuldn_client) (void)ryuldn_client->DisconnectNetwork();\<close>\<close>

definition leave_network :: "ICommunicationService Env \<Rightarrow> ics \<Rightarrow> ics run" where
  "leave_network env st =
     (case fst (snd st) of
        None \<Rightarrow> Inr st
      | Some c \<Rightarrow> bind_run (on_client (mc_DisconnectNetwork env) c st) (\<lambda>(_, st). Inr st))"

definition ic_CloseAccessPoint :: "ICommunicationService Env \<Rightarrow> ics \<Rightarrow> (Result \<times> ics) run" where
  "ic_CloseAccessPoint env st =
     bind_run (if ic_currentState (snd (snd st)) = AccessPointCreated then leave_network env st else Inr st)
       (\<lambda>st. if ic_currentState (snd (snd st)) \<in> {AccessPoint, AccessPointCreated}
             then Inr (ResultSuccess, on_state (setState Initialized) st) else Inr (WrongState, st))"

definition ic_DestroyNetwork :: "ICommunicationService Env \<Rightarrow> ics \<Rightarrow> (Result \<times> ics) run" where
  "ic_DestroyNetwork env st =
     (if ic_currentState (snd (snd st)) \<noteq> AccessPointCreated then Inr (WrongState, st)
      else bind_run (leave_network env st) (\<lambda>st. Inr (ResultSuccess, on_state (setState AccessPoint) st)))"

text \<open>
  A security configuration without its passphrase, and the two requests built from a configuration.
  \<open>NetworkInfo2SecurityParameter\<close> fills every field of its result.
\<close>

definition strip_passphrase :: "LdnConfig \<Rightarrow> SecurityConfig \<Rightarrow> SecurityConfig" where
  "strip_passphrase cfg sec =
     (if \<not> getPassphraseIncluded cfg
      then sec\<lparr>sec_passphraseSize := 0, sec_passphrase := replicate (length (sec_passphrase sec)) 0\<rparr> else sec)"

definition security_parameter :: "NetworkInfo \<Rightarrow> SecurityParameter" where
  "security_parameter i = NetworkInfo2SecurityParameter i (get_SecurityParameter (replicate 32 0))"

definition zero_ryu_config :: RyuNetworkConfig where
  "zero_ryu_config = get_RyuNetworkConfig (replicate 40 0)"

definition create_request :: "LdnConfig \<Rightarrow> CreateNetworkConfig \<Rightarrow> CreateAccessPointRequest" where
  "create_request cfg d =
     \<lparr>cap_securityConfig = strip_passphrase cfg (cnc_securityConfig d),
      cap_userConfig = cnc_userConfig d, cap_networkConfig = cnc_networkConfig d,
      cap_ryuNetworkConfig = zero_ryu_config\<rparr>"

definition create_private_request ::
    "NetworkInfo \<Rightarrow> CreateAccessPointRequest \<Rightarrow> CreateAccessPointPrivateRequest" where
  "create_private_request info r =
     \<lparr>cpp_securityConfig = cap_securityConfig r, cpp_securityParameter = security_parameter info,
      cpp_userConfig = cap_userConfig r, cpp_networkConfig = cap_networkConfig r,
      cpp_addressList = get_AddressList (replicate 96 0), cpp_ryuNetworkConfig = zero_ryu_config\<rparr>"

definition ic_CreateNetwork ::
    "ICommunicationService Env \<Rightarrow> Attempt \<Rightarrow> pass list \<Rightarrow> LdnConfig \<Rightarrow> CreateNetworkConfig \<Rightarrow> ics
       \<Rightarrow> (Result \<times> ics) run" where
  "ic_CreateNetwork env a ps cfg d = (\<lambda>(pool, oc, s).
     if ic_currentState s \<noteq> AccessPoint then Inr (WrongState, pool, oc, s)
     else
       case oc of
         None \<Rightarrow> Inr (MAKERESULT 0xFD 1, pool, None, s)
       | Some c \<Rightarrow>
           let request = create_request cfg d in
           if 0 < sec_passphraseSize (cap_securityConfig request) then
             bind_run
               (if getPassphraseIncluded cfg \<and> 0 < getPassphraseSize cfg
                then SetPassphrase (Some (passphrase_bytes cfg)) (pool, c, s) else Inr (pool, c, s))
               (\<lambda>(pool, c, s).
                  on_client (mc_CreateNetworkPrivate env a ps (create_private_request (ic_networkInfo s) request) [])
                    c (pool, Some c, s))
           else on_client (mc_CreateNetwork env a ps request []) c (pool, Some c, s))"

definition ic_SetAdvertiseData :: "bytes \<Rightarrow> ics \<Rightarrow> (Result \<times> ics) run" where
  "ic_SetAdvertiseData d = (\<lambda>(pool, oc, s).
     if ic_currentState s \<notin> {AccessPoint, AccessPointCreated} then Inr (WrongState, pool, oc, s)
     else
       case oc of
         None \<Rightarrow> Inr (MAKERESULT 0xFD 1, pool, None, s)
       | Some c \<Rightarrow>
           if AdvertiseDataSizeMax < length d then Inr (MAKERESULT 0xFD 10, pool, Some c, s)
           else on_client (mc_SetAdvertiseData d) c (pool, Some c, s))"

definition ic_SetStationAcceptPolicy :: "u8 \<Rightarrow> ics \<Rightarrow> (Result \<times> ics) run" where
  "ic_SetStationAcceptPolicy policy = (\<lambda>(pool, oc, s).
     if ic_currentState s \<notin> {AccessPoint, AccessPointCreated} then Inr (WrongState, pool, oc, s)
     else
       case oc of
         None \<Rightarrow> Inr (ResultSuccess, pool, None, s)
       | Some c \<Rightarrow> on_client (mc_SetStationAcceptPolicy policy) c (pool, Some c, s))"

section \<open>Joining\<close>

definition ic_OpenStation :: "ics \<Rightarrow> Result \<times> ics" where
  "ic_OpenStation = (\<lambda>(pool, oc, s).
     if ic_currentState s \<noteq> Initialized then (WrongState, pool, oc, s)
     else (ResultSuccess, pool, oc, setState Station s))"

definition ic_CloseStation :: "ICommunicationService Env \<Rightarrow> ics \<Rightarrow> (Result \<times> ics) run" where
  "ic_CloseStation env st =
     bind_run (if ic_currentState (snd (snd st)) = StationConnected then leave_network env st else Inr st)
       (\<lambda>st. if ic_currentState (snd (snd st)) \<in> {Station, StationConnected}
             then Inr (ResultSuccess, on_state (setState Initialized) st) else Inr (WrongState, st))"

definition ic_Disconnect :: "ICommunicationService Env \<Rightarrow> ics \<Rightarrow> (Result \<times> ics) run" where
  "ic_Disconnect env st =
     (if ic_currentState (snd (snd st)) \<noteq> StationConnected then Inr (WrongState, st)
      else bind_run (leave_network env st) (\<lambda>st. Inr (ResultSuccess, on_state (setState Station) st)))"

text \<open>\<open>u16 count = buffer.GetSize()\<close>: the size of the caller's array is cut to 16 bits.\<close>

definition ic_Scan ::
    "ICommunicationService Env \<Rightarrow> Attempt \<Rightarrow> pass list \<Rightarrow> nat \<Rightarrow> ScanFilter \<Rightarrow> ics
       \<Rightarrow> ((Result \<times> NetworkInfo list \<times> u32) \<times> ics) run" where
  "ic_Scan env a ps room f = (\<lambda>(pool, oc, s).
     if ic_currentState s = CommState_None then Inr ((WrongState, [], 0), pool, oc, s)
     else
       case oc of
         None \<Rightarrow> Inr ((ResultSuccess, [], 0), pool, None, s)
       | Some c \<Rightarrow>
           bind_run (on_client (mc_Scan env a ps (of_nat room) f) c (pool, Some c, s))
             (\<lambda>((rc, nets, count), st). Inr ((rc, nets, ucast count), st)))"

definition connect_request :: "ConnectNetworkData \<Rightarrow> NetworkInfo \<Rightarrow> ConnectRequest" where
  "connect_request param d =
     \<lparr>crq_securityConfig = cnd_securityConfig param, crq_userConfig = cnd_userConfig param,
      crq_localCommunicationVersion = cnd_localCommunicationVersion param,
      crq_optionUnknown = cnd_option param, crq_networkInfo = d\<rparr>"

text \<open>\<open>netConfig\<close> holds the uninitialised bytes of the local variable of that name.\<close>

definition connect_private_request ::
    "NetworkConfig \<Rightarrow> NetworkInfo \<Rightarrow> ConnectNetworkData \<Rightarrow> NetworkInfo \<Rightarrow> ConnectPrivateRequest" where
  "connect_private_request netConfig info param d =
     \<lparr>cpr_securityConfig = cnd_securityConfig param, cpr_securityParameter = security_parameter info,
      cpr_userConfig = cnd_userConfig param,
      cpr_localCommunicationVersion = cnd_localCommunicationVersion param,
      cpr_optionUnknown = cnd_option param,
      cpr_networkConfig = NetworkInfo2NetworkConfig d netConfig\<rparr>"

definition ic_Connect ::
    "ICommunicationService Env \<Rightarrow> Attempt \<Rightarrow> pass list \<Rightarrow> LdnConfig \<Rightarrow> NetworkConfig \<Rightarrow> ConnectNetworkData
       \<Rightarrow> NetworkInfo \<Rightarrow> ics \<Rightarrow> (Result \<times> ics) run" where
  "ic_Connect env a ps cfg netConfig param d = (\<lambda>(pool, oc, s).
     if ic_currentState s \<noteq> Station then Inr (WrongState, pool, oc, s)
     else
       case oc of
         None \<Rightarrow> Inr (MAKERESULT 0xFD 1, pool, None, s)
       | Some c \<Rightarrow>
           let param = param\<lparr>cnd_securityConfig := strip_passphrase cfg (cnd_securityConfig param)\<rparr> in
           if 0 < sec_passphraseSize (cnd_securityConfig param) then
             bind_run
               (if 0 < getPassphraseSize cfg
                then SetPassphrase (Some (passphrase_bytes cfg)) (pool, c, s) else Inr (pool, c, s))
               (\<lambda>(pool, c, s).
                  on_client (mc_ConnectPrivate env a ps
                      (connect_private_request netConfig (ic_networkInfo s) param d)) c (pool, Some c, s))
           else on_client (mc_Connect env a ps (connect_request param d)) c (pool, Some c, s))"

section \<open>Queries\<close>

definition ic_GetState :: "ics \<Rightarrow> Result \<times> u32" where
  "ic_GetState = (\<lambda>(pool, oc, s).
     (if ic_errorState s \<noteq> 0 \<and> ic_disconnectReason s \<noteq> DisconnectReason_None
      then MAKERESULT 0x10 (unat (ic_disconnectReason s)) else ResultSuccess,
      of_nat (CommState_code (ic_currentState s))))"

text \<open>\<open>nifm\<close> is the answer of \<open>nifmGetCurrentIpConfigInfo\<close>: its result, and what it stored.\<close>

definition ic_GetIpv4Address :: "Result \<times> u32 \<times> u32 \<Rightarrow> ics \<Rightarrow> Result \<times> (u32 \<times> u32) option" where
  "ic_GetIpv4Address nifm = (\<lambda>(pool, oc, s).
     if ic_currentState s \<noteq> AccessPointCreated \<and> ic_currentState s \<noteq> StationConnected
        \<and> CommState_code (ic_currentState s) \<noteq> 3 then (WrongState, None)
     else
       case oc of
         None \<Rightarrow> (MAKERESULT 0xFD 1, None)
       | Some c \<Rightarrow>
           if pcf_proxyIp (mc_config c) = 0 then
             let (rc, address, netmask) = nifm in
             (rc, Some (if rc = ResultSuccess then (ntohl address, ntohl netmask) else (address, netmask)))
           else (ResultSuccess, Some (pcf_proxyIp (mc_config c), pcf_proxySubnetMask (mc_config c))))"

definition ic_GetNetworkInfo :: "ics \<Rightarrow> Result \<times> NetworkInfo" where
  "ic_GetNetworkInfo = (\<lambda>(pool, oc, s). (ResultSuccess, ic_networkInfo s))"

definition ic_GetDisconnectReason :: "ics \<Rightarrow> Result \<times> u32" where
  "ic_GetDisconnectReason = (\<lambda>(pool, oc, s).
     case oc of
       Some c \<Rightarrow>
         if mc_disconnectReason c \<noteq> DisconnectReason_None then (ResultSuccess, mc_disconnectReason c)
         else (ResultSuccess, ic_disconnectReason s)
     | None \<Rightarrow> (ResultSuccess, ic_disconnectReason s))"

definition ic_GetDisconnectIp :: "ics \<Rightarrow> Result \<times> u32" where
  "ic_GetDisconnectIp = (\<lambda>(pool, oc, s).
     (ResultSuccess, case oc of Some c \<Rightarrow> mc_disconnectIp c | None \<Rightarrow> ic_disconnectIp s))"

definition ic_GetNetworkInfoLatestUpdate ::
    "nat \<Rightarrow> ics \<Rightarrow> (Result \<times> (NetworkInfo \<times> NodeLatestUpdate list) option) \<times> ics" where
  "ic_GetNetworkInfoLatestUpdate room = (\<lambda>(pool, oc, s).
     if ic_currentState s \<notin> {AccessPointCreated, StationConnected} then ((WrongState, None), pool, oc, s)
     else
       let count = min room NodeCountMax; updates = ic_nodeLatestUpdates s in
       ((ResultSuccess, Some (ic_networkInfo s, take count updates)), pool, oc,
        s\<lparr>ic_nodeLatestUpdates :=
            map (\<lambda>u. u\<lparr>nlu_stateChange := 0\<rparr>) (take count updates) @ drop count updates\<rparr>))"

definition ic_GetSecurityParameter :: "ics \<Rightarrow> Result \<times> SecurityParameter option" where
  "ic_GetSecurityParameter = (\<lambda>(pool, oc, s).
     if ic_currentState s \<notin> {AccessPointCreated, StationConnected} then (WrongState, None)
     else (ResultSuccess, Some ((get_SecurityParameter (replicate 32 0))
             \<lparr>spm_sessionId := nid_sessionId (net_networkId (ic_networkInfo s))\<rparr>)))"

text \<open>\<open>_unk1\<close> of the answer keeps the uninitialised byte of the local variable.\<close>

definition ic_GetNetworkConfig :: "NetworkConfig \<Rightarrow> ics \<Rightarrow> Result \<times> NetworkConfig option" where
  "ic_GetNetworkConfig config = (\<lambda>(pool, oc, s).
     if ic_currentState s \<notin> {AccessPointCreated, StationConnected} then (WrongState, None)
     else
       let i = ic_networkInfo s in
       (ResultSuccess, Some (config
          \<lparr>ncf_intentId := nid_intentId (net_networkId i), ncf_channel := cni_channel (net_common i),
           ncf_nodeCountMax := lni_nodeCountMax (net_ldn i),
           ncf_localCommunicationVersion := node_localCommunicationVersion (lni_nodes (net_ldn i) ! 0),
           ncf_unk2 := replicate (length (ncf_unk2 config)) 0\<rparr>)))"

definition ic_AttachStateChangeEvent :: "ics \<Rightarrow> Result run" where
  "ic_AttachStateChangeEvent = (\<lambda>(pool, oc, s).
     case ic_stateEvent s of None \<Rightarrow> Inl NullDeref | Some _ \<Rightarrow> Inr ResultSuccess)"

text \<open>The commands that are not implemented.\<close>

definition ic_SetWirelessControllerRestriction :: "ics \<Rightarrow> Result" where
  "ic_SetWirelessControllerRestriction st = ResultSuccess"
definition ic_ScanPrivate :: "ics \<Rightarrow> Result" where "ic_ScanPrivate st = ResultSuccess"
definition ic_CreateNetworkPrivate :: "ics \<Rightarrow> Result" where "ic_CreateNetworkPrivate st = ResultSuccess"
definition ic_Reject :: "ics \<Rightarrow> Result" where "ic_Reject st = ResultSuccess"
definition ic_AddAcceptFilterEntry :: "ics \<Rightarrow> Result" where "ic_AddAcceptFilterEntry st = ResultSuccess"
definition ic_ClearAcceptFilter :: "ics \<Rightarrow> Result" where "ic_ClearAcceptFilter st = ResultSuccess"
definition ic_ConnectPrivate :: "ics \<Rightarrow> Result" where "ic_ConnectPrivate st = ResultSuccess"

section \<open>The contracts\<close>

text \<open>The effect of a packet on the proxy, as the contract \<open>client_env\<close> wants it.\<close>

definition service_effect ::
    "RyuEvent \<Rightarrow> ICommunicationService \<Rightarrow> (bytes list \<times> ICommunicationService) option" where
  "service_effect ev s =
     (case ic_ryuldnProxy s of
        None \<Rightarrow> None
      | Some px \<Rightarrow>
          if ldn_event ev
          then Some (newly_sent px (LdnProxy_effect ev px), s\<lparr>ic_ryuldnProxy := Some (LdnProxy_effect ev px)\<rparr>)
          else None)"

definition proxy_ok :: "ICommunicationService \<Rightarrow> bool" where
  "proxy_ok s \<longleftrightarrow> (\<forall>px. ic_ryuldnProxy s = Some px \<longrightarrow> px_inv px)"

lemma setState_fields [simp]:
  "ic_ryuldnProxy (setState x s) = ic_ryuldnProxy s" "ic_currentState (setState x s) = x"
  "ic_registered (setState x s) = ic_registered s" "ic_networkInfo (setState x s) = ic_networkInfo s"
  "ic_disconnectReason (setState x s) = ic_disconnectReason s"
  "ic_disconnectIp (setState x s) = ic_disconnectIp s" "ic_errorState (setState x s) = ic_errorState s"
  "ic_nodeLatestUpdates (setState x s) = ic_nodeLatestUpdates s"
  "ic_stateEvent (setState x s) = map_option (\<lambda>_. True) (ic_stateEvent s)"
  by (simp_all add: setState_def onEventFired_def split: option.split)

lemma onNetworkChange_keeps [simp]:
  "ic_ryuldnProxy (onNetworkChange ip i b r s) = ic_ryuldnProxy s"
  "ic_registered (onNetworkChange ip i b r s) = ic_registered s"
  "ic_networkInfo (onNetworkChange ip i b r s) = i"
  "(ic_stateEvent (onNetworkChange ip i b r s) = None) = (ic_stateEvent s = None)"
  by (simp_all add: onNetworkChange_def Let_def)

lemma ldn_event_proxy: "ldn_event ev \<Longrightarrow> proxy_event ev"
  by (cases ev) (simp_all add: ldn_event_def proxy_event_def)

interpretation service: client_env "service_env n base" service_effect proxy_ok for n base
proof unfold_locales
  fix ev s pool c pks s'
  assume p: "pool_ready pool" and ok: "proxy_ok s" "event_ok ev" and e: "service_effect ev s = Some (pks, s')"
  obtain px where px: "ic_ryuldnProxy s = Some px" "ldn_event ev"
      "pks = newly_sent px (LdnProxy_effect ev px)" "s' = s\<lparr>ic_ryuldnProxy := Some (LdnProxy_effect ev px)\<rparr>"
    using e by (auto simp: service_effect_def split: option.splits if_splits)
  have inv: "px_inv px" using ok px(1) by (simp add: proxy_ok_def)
  obtain pool' where "LdnProxy_callbacks ev (pool, px) = Inr (pool', LdnProxy_effect ev px)" "pool_kept pool pool'"
    using LdnProxy_callbacks_effect [OF p px_inv_live [OF inv] ok(2)] by blast
  then have "env_other (service_env n base) ev (pool, c, s) = Some (Inr (pool', send_all pks c, s'))"
    using px by (simp add: service_env_def service_other_def via_proxy_def)
  moreover have "proxy_ok s'" using px(4) effect_inv [OF inv] by (simp add: proxy_ok_def)
  ultimately show "(\<exists>p'. env_other (service_env n base) ev (pool, c, s) = Some (Inr (p', send_all pks c, s'))
        \<and> pool_kept pool p') \<and> proxy_ok s'"
    using \<open>pool_kept pool pool'\<close> by blast
qed (auto simp: service_env_def service_effect_def service_other_def ldn_event_proxy proxy_ok_def
       onProxyConfig_service_def px_inv_new split: option.splits if_splits)

end
