(* ===== verification/Icom_Machine.thy ===== *)
theory Icom_Machine
  imports Icommunication
begin

text \<open>
  The service as a state machine. \<open>ic_step\<close> has a step for every command of the interface, for a pass of
  the client's worker with whatever bytes the server sends, for the socket operations of the game on
  the virtual network, and for a change of the passphrase. Every reachable state satisfies
  \<open>ic_inv\<close>, and seen through \<open>mode\<close> the service is the small machine \<open>mode_step\<close>.
\<close>

section \<open>The proxy's handlers on arbitrary packets\<close>

lemma for_sockets_inv:
  assumes "\<And>i s p px p' px'. px_inv px \<Longrightarrow> px_heap px i = Some s \<Longrightarrow> action i s (p, px) = Inr (p', px') \<Longrightarrow> px_inv px'"
  shows "px_inv px \<Longrightarrow> for_sockets is info action (p, px) = Inr (p', px') \<Longrightarrow> px_inv px'"
proof (induction "is" arbitrary: p px)
  case (Cons i "is")
  obtain s where s: "px_heap px i = Some s"
    using Cons.prems(2) by (auto simp: bind_run_Inr_iff deref_Some)
  show ?case
  proof (cases "routed info s")
    case False
    then show ?thesis using Cons s by (simp add: deref_def)
  next
    case True
    then obtain p1 px1 where a: "action i s (p, px) = Inr (p1, px1)"
      and r: "for_sockets is info action (p1, px1) = Inr (p', px')"
      using Cons.prems(2) s by (auto simp: deref_def bind_run_Inr_iff)
    show ?thesis by (rule Cons.IH [OF assms [OF Cons.prems(1) s a] r])
  qed
qed simp

lemma on_socket_inv:
  "(\<And>s. ps_closed (f s) = ps_closed s \<and> ps_listenSockets (f s) = ps_listenSockets s) \<Longrightarrow>
   px_inv px \<Longrightarrow> px_heap px i = Some s \<Longrightarrow> on_socket f i s (p, px) = Inr (p', px') \<Longrightarrow> px_inv px'"
  by (auto simp: on_socket_def intro: px_inv_update)

lemma callbacks_inv:
  assumes "px_inv px" and "LdnProxy_callbacks ev (p, px) = Inr (p', px')"
  shows "px_inv px'"
proof (cases ev)
  case (onProxyConnect h m)
  show ?thesis
    by (rule for_sockets_inv [OF on_socket_inv [of "IncomingConnectionRequest m"] assms(1)])
      (use assms(2) onProxyConnect in \<open>auto simp: LdnProxy_callbacks_def HandleConnectionRequest_def
        ForRoutedSockets_def IncomingConnectionRequest_def\<close>)
next
  case (onProxyConnectReply h m)
  show ?thesis
    by (rule for_sockets_inv [OF on_socket_inv [of "HandleConnectResponse m"] assms(1)])
      (use assms(2) onProxyConnectReply in \<open>auto simp: LdnProxy_callbacks_def HandleConnectionResponse_def
        ForRoutedSockets_def HandleConnectResponse_keeps\<close>)
next
  case (onProxyData h m sp)
  let ?f = "IncomingData (IsBroadcast (pin_destIpV4 (pdh_info m)) px)
      \<lparr>pkt_header = m, pkt_data = take (unat (snd sp)) (fst sp)\<rparr>"
  show ?thesis
    by (rule for_sockets_inv [OF on_socket_inv [of ?f] assms(1)])
      (use assms(2) onProxyData in \<open>auto simp: LdnProxy_callbacks_def HandleData_def split_beta Let_def
        ForRoutedSockets_def IncomingData_keeps split: if_splits\<close>)
next
  case (onProxyDisconnect h m)
  show ?thesis
    by (rule for_sockets_inv [of "\<lambda>i s. Disconnect i", OF Disconnect_inv(1) assms(1)])
      (use assms(2) onProxyDisconnect in \<open>auto simp: LdnProxy_callbacks_def HandleDisconnect_def ForRoutedSockets_def\<close>)
qed (use assms in \<open>simp_all add: LdnProxy_callbacks_def\<close>)

section \<open>Modes and the invariant\<close>

datatype mode = Idle | Ready | Hosting | Joining | Failed

primrec mode_of :: "CommState \<Rightarrow> mode" where
  "mode_of CommState_None = Idle"
| "mode_of Initialized = Ready"
| "mode_of AccessPoint = Hosting"
| "mode_of AccessPointCreated = Hosting"
| "mode_of Station = Joining"
| "mode_of StationConnected = Joining"
| "mode_of CommState_Error = Failed"

definition in_network :: "CommState \<Rightarrow> bool" where
  "in_network x \<longleftrightarrow> x \<in> {AccessPointCreated, StationConnected}"

text \<open>What holds of the service's own fields in the mode \<open>m\<close>.\<close>

definition ic_ok :: "mode \<Rightarrow> ICommunicationService \<Rightarrow> bool" where
  "ic_ok m s \<longleftrightarrow>
     mode_of (ic_currentState s) = m \<and> proxy_ok s
     \<and> (ic_registered s \<longleftrightarrow> ic_ryuldnProxy s \<noteq> None)
     \<and> (m \<noteq> Idle \<longrightarrow> ic_stateEvent s \<noteq> None)
     \<and> (in_network (ic_currentState s) \<longrightarrow> ic_disconnectReason s = DisconnectReason_None \<and> ic_disconnectIp s = 0)
     \<and> length (ic_nodeLatestUpdates s) = NodeCountMax"

lemma onNetworkChange_ok: "ic_ok m s \<Longrightarrow> ic_ok m (onNetworkChange ip i b r s)"
  by (cases "ic_currentState s")
    (auto simp: ic_ok_def onNetworkChange_def Let_def proxy_ok_def in_network_def)

lemma onProxyConfig_ok: "ic_ok m s \<Longrightarrow> ic_ok m (onProxyConfig_service n cfg s)"
  by (auto simp: ic_ok_def onProxyConfig_service_def proxy_ok_def px_inv_new)

lemma same_link_send_all: "same_link c (send_all ds c)"
  by (simp add: same_link_def)

lemma ic_ok_proxy: "ic_ok m s \<Longrightarrow> ic_ryuldnProxy s = Some px \<Longrightarrow> px_inv px' \<Longrightarrow> ic_ok m (s\<lparr>ic_ryuldnProxy := Some px'\<rparr>)"
  by (simp add: ic_ok_def proxy_ok_def)

lemma service_other_ok:
  assumes "service_other ev (p, c, s) = Some (Inr (p', c', s'))" and "ic_ok m s"
  shows "ic_ok m s' \<and> same_link c c'"
proof -
  obtain px px' where px: "ic_ryuldnProxy s = Some px" "LdnProxy_callbacks ev (p, px) = Inr (p', px')"
      "c' = send_all (newly_sent px px') c" "s' = s\<lparr>ic_ryuldnProxy := Some px'\<rparr>"
    using assms(1) by (auto simp: service_other_def via_proxy_def bind_run_Inr_iff split: option.splits if_splits)
  have "px_inv px" using assms(2) px(1) by (simp add: ic_ok_def proxy_ok_def)
  from callbacks_inv [OF this px(2)] show ?thesis
    using ic_ok_proxy [OF assms(2) px(1)] px(3,4) same_link_send_all by simp
qed

interpretation served: client_keeps "service_env n base" "ic_ok m" for n base m
proof unfold_locales
  fix ev p c s p' c' s'
  assume "env_other (service_env n base) ev (p, c, s) = Some (Inr (p', c', s'))" and "ic_ok m s"
  then show "ic_ok m s' \<and> same_link c c'" using service_other_ok by (simp add: service_env_def)
qed (auto simp: service_env_def intro: onNetworkChange_ok onProxyConfig_ok)

text \<open>The service, with the client and its connection: the client exists outside \<open>Idle\<close> and only there.\<close>

definition ic_inv :: "ics \<Rightarrow> bool" where
  "ic_inv = (\<lambda>(pool, oc, s).
     ic_ok (mode_of (ic_currentState s)) s
     \<and> (oc = None \<longleftrightarrow> ic_currentState s = CommState_None)
     \<and> (oc = None \<longrightarrow> ic_ryuldnProxy s = None)
     \<and> ic_currentState s \<noteq> CommState_Error
     \<and> (\<forall>c. oc = Some c \<longrightarrow> mc_inv c))"

definition mode :: "ics \<Rightarrow> mode" where
  "mode st = mode_of (ic_currentState (snd (snd st)))"

lemma mode_of_simps:
  "mode_of x = Idle \<longleftrightarrow> x = CommState_None" "mode_of x = Ready \<longleftrightarrow> x = Initialized"
  "mode_of x = Hosting \<longleftrightarrow> x \<in> {AccessPoint, AccessPointCreated}"
  "mode_of x = Joining \<longleftrightarrow> x \<in> {Station, StationConnected}" "mode_of x = Failed \<longleftrightarrow> x = CommState_Error"
  by (cases x; simp)+

text \<open>The bridge: what a call on the client keeps, seen from the service.\<close>

lemma ic_inv_keeps:
  "ic_inv (p, Some c, s) \<longleftrightarrow>
     served.keeps (mode_of (ic_currentState s)) (c, s) \<and> mode_of (ic_currentState s) \<notin> {Idle, Failed}"
  unfolding served.keeps_def ic_inv_def by (auto simp: mode_of_simps)

lemma on_client_inv:
  assumes "on_client f c (p, oc, s) = Inr (r, st')" and "ic_inv (p, Some c, s)"
    and "\<And>m r p' cw. served.keeps m (c, s) \<Longrightarrow> f (p, c, s) = Inr (r, p', cw) \<Longrightarrow> served.keeps m cw"
  shows "ic_inv st' \<and> mode st' = mode (p, Some c, s)"
proof -
  obtain p' c' s' where f: "f (p, c, s) = Inr (r, p', c', s')" and st: "st' = (p', Some c', s')"
    using assms(1) by (auto simp: on_client_def bind_run_Inr_iff)
  have "served.keeps (mode_of (ic_currentState s)) (c', s')"
    by (rule assms(3) [OF _ f]) (use assms(2) in \<open>simp add: ic_inv_keeps\<close>)
  moreover have "mode_of (ic_currentState s') = mode_of (ic_currentState s)"
    using calculation by (simp add: served.keeps_def ic_ok_def)
  ultimately show ?thesis using assms(2) st by (simp add: ic_inv_keeps mode_def)
qed


section \<open>The step relation\<close>

datatype command =
  cmd_Initialize | cmd_Finalize | cmd_OpenAccessPoint | cmd_CloseAccessPoint
| cmd_OpenStation | cmd_CloseStation | cmd_other

inductive ic_step :: "ICommunicationService Env \<Rightarrow> command \<Rightarrow> Result \<Rightarrow> ics \<Rightarrow> ics \<Rightarrow> bool" for base where
  Initialize: "ic_Initialize (service_env n base) su cfg st = Inr (r, st') \<Longrightarrow> ic_step base cmd_Initialize r st st'"
| InitializeSystem2:
    "ic_InitializeSystem2 (service_env n base) su cfg unk st = Inr (r, st') \<Longrightarrow> ic_step base cmd_Initialize r st st'"
| Finalize: "ic_Finalize (service_env n base) st = Inr (r, st') \<Longrightarrow> ic_step base cmd_Finalize r st st'"
| OpenAccessPoint: "ic_OpenAccessPoint st = (r, st') \<Longrightarrow> ic_step base cmd_OpenAccessPoint r st st'"
| CloseAccessPoint:
    "ic_CloseAccessPoint (service_env n base) st = Inr (r, st') \<Longrightarrow> ic_step base cmd_CloseAccessPoint r st st'"
| OpenStation: "ic_OpenStation st = (r, st') \<Longrightarrow> ic_step base cmd_OpenStation r st st'"
| CloseStation: "ic_CloseStation (service_env n base) st = Inr (r, st') \<Longrightarrow> ic_step base cmd_CloseStation r st st'"
| DestroyNetwork: "ic_DestroyNetwork (service_env n base) st = Inr (r, st') \<Longrightarrow> ic_step base cmd_other r st st'"
| Disconnect: "ic_Disconnect (service_env n base) st = Inr (r, st') \<Longrightarrow> ic_step base cmd_other r st st'"
| CreateNetwork:
    "ic_CreateNetwork (service_env n base) a ps cfg d st = Inr (r, st') \<Longrightarrow> ic_step base cmd_other r st st'"
| Connect:
    "ic_Connect (service_env n base) a ps cfg nc param d st = Inr (r, st') \<Longrightarrow> ic_step base cmd_other r st st'"
| Scan: "ic_Scan (service_env n base) a ps room f st = Inr ((r, out), st') \<Longrightarrow> ic_step base cmd_other r st st'"
| SetAdvertiseData: "ic_SetAdvertiseData d st = Inr (r, st') \<Longrightarrow> ic_step base cmd_other r st st'"
| SetStationAcceptPolicy: "ic_SetStationAcceptPolicy x st = Inr (r, st') \<Longrightarrow> ic_step base cmd_other r st st'"
| LatestUpdate: "ic_GetNetworkInfoLatestUpdate room st = ((r, out), st') \<Longrightarrow> ic_step base cmd_other r st st'"
| Passphrase: "ic_passphraseUpdate cfg st = Inr st' \<Longrightarrow> ic_step base cmd_other ResultSuccess st st'"
| Worker: "WorkerLoop_pass (service_env n base) ps (p, c, s) = Inr (p', c', s') \<Longrightarrow>
    ic_step base cmd_other ResultSuccess (p, Some c, s) (p', Some c', s')"
| Socket: "ic_ryuldnProxy s = Some px \<Longrightarrow> pool_ready p \<Longrightarrow> proxy_step (p, px) (p', px') \<Longrightarrow>
    ic_step base cmd_other ResultSuccess (p, Some c, s)
      (p', Some (send_all (newly_sent px px') c), s\<lparr>ic_ryuldnProxy := Some px'\<rparr>)"

text \<open>The machine the service implements, seen through its modes: \<open>None\<close> where a command is refused.\<close>

fun mode_step :: "command \<Rightarrow> mode \<Rightarrow> mode option" where
  "mode_step cmd_Initialize m = Some Ready"
| "mode_step cmd_Finalize m = Some Idle"
| "mode_step cmd_OpenAccessPoint m = (if m = Ready then Some Hosting else None)"
| "mode_step cmd_CloseAccessPoint m = (if m = Hosting then Some Ready else None)"
| "mode_step cmd_OpenStation m = (if m = Ready then Some Joining else None)"
| "mode_step cmd_CloseStation m = (if m = Joining then Some Ready else None)"
| "mode_step cmd_other m = Some m"

definition follows :: "command \<Rightarrow> Result \<Rightarrow> ics \<Rightarrow> ics \<Rightarrow> bool" where
  "follows cmd r st st' \<longleftrightarrow>
     ic_inv st'
     \<and> (mode_step cmd (mode st) = None \<longrightarrow> r = WrongState \<and> st' = st)
     \<and> (r = ResultSuccess \<longrightarrow> mode_step cmd (mode st) = Some (mode st'))
     \<and> (r \<noteq> ResultSuccess \<longrightarrow> mode st' = mode st)"

lemma follows_other: "ic_inv st' \<Longrightarrow> mode st' = mode st \<Longrightarrow> follows cmd_other r st st'"
  by (simp add: follows_def)

lemma WrongState_neq [simp]: "WrongState \<noteq> ResultSuccess" "ResultSuccess \<noteq> WrongState"
  by (simp_all add: WrongState_def)

section \<open>Every step keeps the invariant\<close>

lemma on_state_simps [simp]:
  "on_state f (p, oc, s) = (p, oc, f s)" "fst (on_state f st) = fst st" "fst (snd (on_state f st)) = fst (snd st)"
  "snd (snd (on_state f st)) = f (snd (snd st))"
  by (simp_all add: on_state_def split_beta)

text \<open>Setting a state outside the network.\<close>

lemma ic_inv_setState:
  assumes "ic_inv (p, Some c, s)" and "x \<in> {Initialized, AccessPoint, Station}"
  shows "ic_inv (p, Some c, setState x s)"
  using assms by (auto simp: ic_inv_def ic_ok_def proxy_ok_def in_network_def mode_of_simps)

lemma ic_inv_Some: "ic_inv (p, oc, s) \<Longrightarrow> ic_currentState s \<noteq> CommState_None \<Longrightarrow> \<exists>c. oc = Some c"
  by (auto simp: ic_inv_def)

lemma leave_network_inv:
  assumes "leave_network (service_env n base) st = Inr st'" and "ic_inv st"
  shows "ic_inv st' \<and> mode st' = mode st"
proof -
  obtain p oc s where st: "st = (p, oc, s)" by (cases st)
  show ?thesis
  proof (cases oc)
    case None
    then show ?thesis using assms st by (simp add: leave_network_def)
  next
    case (Some c)
    then obtain r where "on_client (mc_DisconnectNetwork (service_env n base)) c (p, oc, s) = Inr (r, st')"
      using assms(1) st by (auto simp: leave_network_def bind_run_Inr_iff)
    from on_client_inv [OF this] show ?thesis
      using assms(2) st Some served.keeps_DisconnectNetwork by blast
  qed
qed

lemma setState_after:
  assumes "ic_inv st" and "mode st \<noteq> Idle" and "x \<in> {Initialized, AccessPoint, Station}"
  shows "ic_inv (on_state (setState x) st) \<and> mode (on_state (setState x) st) = mode_of x"
proof -
  obtain p oc s where st: "st = (p, oc, s)" by (cases st)
  have "ic_currentState s \<noteq> CommState_None" using assms(2) st by (simp add: mode_def mode_of_simps)
  then obtain c where "oc = Some c" using assms(1) st ic_inv_Some by blast
  then show ?thesis using ic_inv_setState assms(1,3) st by (simp add: mode_def)
qed

lemma close_follows:
  assumes "bind_run (if ic_currentState (snd (snd st)) = x then leave_network (service_env n base) st else Inr st)
       (\<lambda>st. if ic_currentState (snd (snd st)) \<in> S
             then Inr (ResultSuccess, on_state (setState Initialized) st) else Inr (WrongState, st)) = Inr (r, st')"
    and "ic_inv st" and S: "\<And>y. y \<in> S \<longleftrightarrow> mode_of y = m" and "x \<in> S" and "m \<noteq> Idle"
    and step: "\<And>k. mode_step cmd k = (if k = m then Some Ready else None)"
  shows "follows cmd r st st'"
proof (cases "mode st = m")
  case False
  then have n: "ic_currentState (snd (snd st)) \<notin> S" using S by (simp add: mode_def)
  then have "r = WrongState" "st' = st"
    using assms(1) \<open>x \<in> S\<close> by (auto split: if_splits)
  then show ?thesis using False assms(2) step by (simp add: follows_def)
next
  case True
  obtain st1 where l: "(if ic_currentState (snd (snd st)) = x
        then leave_network (service_env n base) st else Inr st) = Inr st1"
    and r: "(if ic_currentState (snd (snd st1)) \<in> S
          then Inr (ResultSuccess, on_state (setState Initialized) st1) else Inr (WrongState, st1)) = (Inr (r, st') :: (Result \<times> ics) run)"
    using assms(1) by (auto simp: bind_run_Inr_iff)
  have i: "ic_inv st1 \<and> mode st1 = mode st"
    using l assms(2) leave_network_inv by (auto split: if_splits)
  then have "ic_currentState (snd (snd st1)) \<in> S"
    using True S by (simp add: mode_def)
  then have e: "r = ResultSuccess" "st' = on_state (setState Initialized) st1"
    using r by auto
  then show ?thesis using setState_after [of st1 Initialized] i True assms(5) step by (simp add: follows_def)
qed

lemma CloseAccessPoint_follows:
  "ic_CloseAccessPoint (service_env n base) st = Inr (r, st') \<Longrightarrow> ic_inv st \<Longrightarrow> follows cmd_CloseAccessPoint r st st'"
  unfolding ic_CloseAccessPoint_def by (erule close_follows [where m = Hosting]) (simp_all add: mode_of_simps)

lemma CloseStation_follows:
  "ic_CloseStation (service_env n base) st = Inr (r, st') \<Longrightarrow> ic_inv st \<Longrightarrow> follows cmd_CloseStation r st st'"
  unfolding ic_CloseStation_def by (erule close_follows [where m = Joining]) (simp_all add: mode_of_simps)

lemma leave_then_set:
  assumes "bind_run (leave_network (service_env n base) st) (\<lambda>st. Inr (ResultSuccess, on_state (setState x) st)) = Inr (r, st')"
    and "ic_inv st" and "mode_of x = mode st" and "x \<in> {AccessPoint, Station}"
  shows "follows cmd_other r st st'"
proof -
  obtain st1 where l: "leave_network (service_env n base) st = Inr st1" "st' = on_state (setState x) st1"
    using assms(1) by (auto simp: bind_run_Inr_iff)
  have "ic_inv st1 \<and> mode st1 = mode st" using leave_network_inv [OF l(1) assms(2)] .
  then show ?thesis using setState_after [of st1 x] assms(3,4) l(2) by (auto intro!: follows_other)
qed

lemma follows_refl: "ic_inv st \<Longrightarrow> follows cmd_other r st st"
  by (simp add: follows_other)

lemma DestroyNetwork_follows:
  "ic_DestroyNetwork (service_env n base) st = Inr (r, st') \<Longrightarrow> ic_inv st \<Longrightarrow> follows cmd_other r st st'"
  by (auto simp: ic_DestroyNetwork_def mode_def follows_refl split: if_splits intro: leave_then_set)

lemma Disconnect_follows:
  "ic_Disconnect (service_env n base) st = Inr (r, st') \<Longrightarrow> ic_inv st \<Longrightarrow> follows cmd_other r st st'"
  by (auto simp: ic_Disconnect_def mode_def follows_refl split: if_splits intro: leave_then_set)

lemma on_client_follows:
  assumes "on_client f c (p, oc, s) = Inr (r, st')" and "ic_inv (p, Some c, s)"
    and "\<And>m r p' cw. served.keeps m (c, s) \<Longrightarrow> f (p, c, s) = Inr (r, p', cw) \<Longrightarrow> served.keeps m cw"
  shows "follows cmd_other r' (p, Some c, s) st'"
  using on_client_inv [OF assms] by (simp add: follows_other)

lemma SetPassphrase_inv:
  assumes "SetPassphrase x (p, c, s) = Inr (p', c', s')" and "ic_inv (p, Some c, s)"
  shows "ic_inv (p', Some c', s') \<and> mode (p', Some c', s') = mode (p, Some c, s)"
proof -
  have k: "served.keeps (mode_of (ic_currentState s)) (c', s')"
    by (rule served.keeps_SetPassphrase [OF _ assms(1)]) (use assms(2) in \<open>simp add: ic_inv_keeps\<close>)
  then have "mode_of (ic_currentState s') = mode_of (ic_currentState s)"
    by (simp add: served.keeps_def ic_ok_def)
  then show ?thesis using k assms(2) by (simp add: ic_inv_keeps mode_def)
qed

lemma follows_trans_mode:
  "ic_inv st1 \<Longrightarrow> mode st1 = mode st \<Longrightarrow> follows cmd_other r st1 st' \<Longrightarrow> follows cmd_other r st st'"
  by (simp add: follows_def split: if_splits)

lemma Scan_follows:
  assumes "ic_Scan (service_env n base) a ps room f st = Inr ((r, out), st')" and "ic_inv st"
  shows "follows cmd_other r st st'"
proof -
  obtain p oc s where st: "st = (p, oc, s)" by (cases st)
  show ?thesis
  proof (cases "ic_currentState s = CommState_None \<or> oc = None")
    case True
    then show ?thesis using assms st by (auto simp: ic_Scan_def follows_refl split: if_splits)
  next
    case False
    then obtain c x where "oc = Some c" and o: "on_client (mc_Scan (service_env n base) a ps (of_nat room) f) c (p, Some c, s) = Inr (x, st')"
      using assms(1) st by (auto simp: ic_Scan_def bind_run_Inr_iff)
    then show ?thesis using on_client_follows [OF o] assms(2) st served.keeps_Scan by blast
  qed
qed

lemma guarded_call:
  assumes "(if \<not> g then Inr (WrongState, p, oc, s)
     else case oc of None \<Rightarrow> Inr (e, p, None, s) | Some c \<Rightarrow> body c) = Inr (r, st')"
    and "ic_inv (p, oc, s)"
    and "\<And>c. oc = Some c \<Longrightarrow> body c = Inr (r, st') \<Longrightarrow> follows cmd_other r (p, Some c, s) st'"
  shows "follows cmd_other r (p, oc, s) st'"
  using assms by (auto simp: follows_refl split: if_splits option.splits)

lemma after_passphrase:
  assumes "bind_run (if b then SetPassphrase x (p, c, s) else Inr (p, c, s))
       (\<lambda>(p, c, s). on_client (f s) c (p, Some c, s)) = Inr (r, st')"
    and "ic_inv (p, Some c, s)"
    and "\<And>p c s m r p' cw. served.keeps m (c, s) \<Longrightarrow> f s (p, c, s) = Inr (r, p', cw) \<Longrightarrow> served.keeps m cw"
  shows "follows cmd_other r (p, Some c, s) st'"
proof -
  obtain p1 c1 s1 where o: "(if b then SetPassphrase x (p, c, s) else Inr (p, c, s)) = Inr (p1, c1, s1)"
    and f: "on_client (f s1) c1 (p1, Some c1, s1) = Inr (r, st')"
    using assms(1) by (auto simp: bind_run_Inr_iff)
  have i: "ic_inv (p1, Some c1, s1) \<and> mode (p1, Some c1, s1) = mode (p, Some c, s)"
    using o assms(2) SetPassphrase_inv by (auto split: if_splits)
  then have "follows cmd_other r (p1, Some c1, s1) st'"
    using on_client_follows [OF f] assms(3) by blast
  then show ?thesis using i follows_trans_mode by blast
qed

lemma CreateNetwork_follows:
  assumes "ic_CreateNetwork (service_env n base) a ps cfg d st = Inr (r, st')" and "ic_inv st"
  shows "follows cmd_other r st st'"
proof -
  obtain p oc s where st: "st = (p, oc, s)" by (cases st)
  let ?r = "create_request cfg d"
  let ?call = "\<lambda>c. if 0 < sec_passphraseSize (cap_securityConfig ?r) then
             bind_run
               (if getPassphraseIncluded cfg \<and> 0 < getPassphraseSize cfg
                then SetPassphrase (Some (passphrase_bytes cfg)) (p, c, s) else Inr (p, c, s))
               (\<lambda>(pool, c, s).
                  on_client (mc_CreateNetworkPrivate (service_env n base) a ps (create_private_request (ic_networkInfo s) ?r) [])
                    c (pool, Some c, s))
           else on_client (mc_CreateNetwork (service_env n base) a ps ?r []) c (p, Some c, s)"
  have c: "follows cmd_other r (p, Some c, s) st'" if oc: "oc = Some c" and call: "?call c = Inr (r, st')" for c
  proof (cases "0 < sec_passphraseSize (cap_securityConfig ?r)")
    case True
    show ?thesis
      by (rule after_passphrase [where f = "\<lambda>s. mc_CreateNetworkPrivate (service_env n base) a ps
            (create_private_request (ic_networkInfo s) ?r) []"])
        (use True call oc assms(2) st served.keeps_CreateNetworkPrivate in auto)
  next
    case False
    then have o: "on_client (mc_CreateNetwork (service_env n base) a ps ?r []) c (p, Some c, s) = Inr (r, st')"
      using call by simp
    show ?thesis using on_client_follows [OF o] oc assms(2) st served.keeps_CreateNetwork by blast
  qed
  have eq: "ic_CreateNetwork (service_env n base) a ps cfg d (p, oc, s) =
      (if \<not> ic_currentState s = AccessPoint then Inr (WrongState, p, oc, s)
       else case oc of None \<Rightarrow> Inr (MAKERESULT 0xFD 1, p, None, s) | Some c \<Rightarrow> ?call c)"
    unfolding ic_CreateNetwork_def Let_def prod.case ..
  have "follows cmd_other r (p, oc, s) st'"
    by (rule guarded_call [OF assms(1) [unfolded st eq] assms(2) [unfolded st] c])
  then show ?thesis using st by simp
qed

lemma Connect_follows:
  assumes "ic_Connect (service_env n base) a ps cfg nc param d st = Inr (r, st')" and "ic_inv st"
  shows "follows cmd_other r st st'"
proof -
  obtain p oc s where st: "st = (p, oc, s)" by (cases st)
  let ?q = "param\<lparr>cnd_securityConfig := strip_passphrase cfg (cnd_securityConfig param)\<rparr>"
  let ?call = "\<lambda>c. if 0 < sec_passphraseSize (cnd_securityConfig ?q) then
             bind_run
               (if 0 < getPassphraseSize cfg
                then SetPassphrase (Some (passphrase_bytes cfg)) (p, c, s) else Inr (p, c, s))
               (\<lambda>(pool, c, s).
                  on_client (mc_ConnectPrivate (service_env n base) a ps
                      (connect_private_request nc (ic_networkInfo s) ?q d)) c (pool, Some c, s))
           else on_client (mc_Connect (service_env n base) a ps (connect_request ?q d)) c (p, Some c, s)"
  have c: "follows cmd_other r (p, Some c, s) st'" if oc: "oc = Some c" and call: "?call c = Inr (r, st')" for c
  proof (cases "0 < sec_passphraseSize (cnd_securityConfig ?q)")
    case True
    show ?thesis
      by (rule after_passphrase [where f = "\<lambda>s. mc_ConnectPrivate (service_env n base) a ps
            (connect_private_request nc (ic_networkInfo s) ?q d)"])
        (use True call oc assms(2) st served.keeps_ConnectPrivate in auto)
  next
    case False
    then have o: "on_client (mc_Connect (service_env n base) a ps (connect_request ?q d)) c (p, Some c, s) = Inr (r, st')"
      using call by simp
    show ?thesis using on_client_follows [OF o] oc assms(2) st served.keeps_Connect by blast
  qed
  have eq: "ic_Connect (service_env n base) a ps cfg nc param d (p, oc, s) =
      (if \<not> ic_currentState s = Station then Inr (WrongState, p, oc, s)
       else case oc of None \<Rightarrow> Inr (MAKERESULT 0xFD 1, p, None, s) | Some c \<Rightarrow> ?call c)"
    unfolding ic_Connect_def Let_def prod.case ..
  have "follows cmd_other r (p, oc, s) st'"
    by (rule guarded_call [OF assms(1) [unfolded st eq] assms(2) [unfolded st] c])
  then show ?thesis using st by simp
qed

lemma SetAdvertiseData_follows:
  assumes "ic_SetAdvertiseData d st = Inr (r, st')" and "ic_inv st"
  shows "follows cmd_other r st st'"
proof -
  obtain p oc s where st: "st = (p, oc, s)" by (cases st)
  let ?call = "\<lambda>c. if AdvertiseDataSizeMax < length d then Inr (MAKERESULT 0xFD 10, p, Some c, s)
           else on_client (mc_SetAdvertiseData d) c (p, Some c, s)"
  have c: "follows cmd_other r (p, Some c, s) st'" if oc: "oc = Some c" and call: "?call c = Inr (r, st')" for c
    using call oc assms(2) st on_client_follows [of "mc_SetAdvertiseData d" c p "Some c" s r st']
      served.keeps_SetAdvertiseData
    by (auto simp: follows_refl split: if_splits)
  have "follows cmd_other r (p, oc, s) st'"
    by (rule guarded_call [where g = "ic_currentState s \<in> {AccessPoint, AccessPointCreated}"
          and e = "MAKERESULT 0xFD 1" and body = ?call, OF _ _ c])
      (use assms st in \<open>simp_all add: ic_SetAdvertiseData_def\<close>)
  then show ?thesis using st by simp
qed

lemma SetStationAcceptPolicy_follows:
  assumes "ic_SetStationAcceptPolicy x st = Inr (r, st')" and "ic_inv st"
  shows "follows cmd_other r st st'"
proof -
  obtain p oc s where st: "st = (p, oc, s)" by (cases st)
  let ?call = "\<lambda>c. on_client (mc_SetStationAcceptPolicy x) c (p, Some c, s)"
  have c: "follows cmd_other r (p, Some c, s) st'" if oc: "oc = Some c" and call: "?call c = Inr (r, st')" for c
    using on_client_follows [OF call] oc assms(2) st served.keeps_SetStationAcceptPolicy by blast
  have "follows cmd_other r (p, oc, s) st'"
    by (rule guarded_call [where g = "ic_currentState s \<in> {AccessPoint, AccessPointCreated}"
          and e = ResultSuccess and body = ?call, OF _ _ c])
      (use assms st in \<open>simp_all add: ic_SetStationAcceptPolicy_def\<close>)
  then show ?thesis using st by simp
qed

section \<open>Starting and stopping\<close>

lemma DisconnectInternal_world:
  "DisconnectInternal env (c, w) = Inr (c', w') \<Longrightarrow>
   w' = w \<or> (\<exists>f c i b r. env_networkChange env = Some f \<and> w' = f c i b r w)"
  by (auto simp: DisconnectInternal_def Let_def notify_def bind_run_Inr_iff split: if_splits option.splits)

lemma mc_Finalize_world:
  "mc_Finalize env (c, w) = Inr (r, c', w') \<Longrightarrow>
   r = ResultSuccess \<and> (w' = w \<or> (\<exists>f c i b r. env_networkChange env = Some f \<and> w' = f c i b r w))"
  by (auto simp: mc_Finalize_def mc_Disconnect_def Let_def bind_run_Inr_iff
      split: if_splits dest!: DisconnectInternal_world) blast

lemma mc_Finalize_proxy:
  "mc_Finalize (service_env n base) (c, s) = Inr (r, c', s') \<Longrightarrow>
   r = ResultSuccess \<and> ic_ryuldnProxy s' = ic_ryuldnProxy s"
  using mc_Finalize_world [of "service_env n base" c s r c' s'] by (auto simp: service_env_def)

lemma new_client_undeletable:
  "\<not> mc_stop c \<Longrightarrow> mc_socket c < 0 \<Longrightarrow> \<not> mc_thread c \<Longrightarrow> \<forall>t. mc_timeout c = Some t \<longrightarrow> \<not> nt_locked t \<Longrightarrow>
   delete_client env c (p, oc, s) = Inl InvalidThread"
  by (auto simp: delete_client_def LdnMasterProxyClient_destroy_def mc_Finalize_def disable_def Let_def
      split: option.split)

lemma started_inv:
  assumes "ic_ok Idle s" and "ic_ryuldnProxy s = None" and "ic_stateEvent s \<noteq> None" and "mc_inv c"
  shows "ic_inv (p, Some c, setState Initialized s)"
  using assms by (auto simp: ic_inv_def ic_ok_def proxy_ok_def in_network_def)

lemma Initialize_follows:
  assumes "ic_Initialize (service_env n base) su cfg st = Inr (r, st')" and "ic_inv st"
  shows "follows cmd_Initialize r st st'"
proof -
  obtain p oc s where st: "st = (p, oc, s)" by (cases st)
  let ?s = "if ic_stateEvent s = None then s\<lparr>ic_stateEvent := Some False\<rparr> else s"
  have i: "ic_inv (p, oc, ?s)" and ev: "ic_stateEvent ?s \<noteq> None"
    using assms(2) st by (auto simp: ic_inv_def ic_ok_def proxy_ok_def)
  show ?thesis
  proof (cases "ic_stateEvent s = None \<and> \<not> su_event su")
    case True
    then show ?thesis using assms st by (auto simp: ic_Initialize_def follows_def)
  next
    case event: False
    show ?thesis
    proof (cases oc)
      case (Some c)
      then have e: "r = ResultSuccess" "st' = (p, Some c, setState Initialized ?s)"
        using assms(1) st event by (auto simp: ic_Initialize_def Let_def split: if_splits)
      then show ?thesis using ic_inv_setState [of p c ?s Initialized] i Some by (simp add: follows_def mode_def)
    next
      case None
      have ok: "ic_ok Idle ?s" "ic_ryuldnProxy ?s = None"
        using i None by (auto simp: ic_inv_def mode_of_simps)
      let ?fresh = "LdnMasterProxyClient_new (su_failed su) (su_config su) (su_info su)
                       (GetServerAddress cfg) (GetServerPort cfg) True"
      let ?c = "?fresh\<lparr>mc_timeout := Some (NetworkTimeout_new InactiveTimeout), mc_thread := True\<rparr>"
      have c0: "\<not> mc_stop ?fresh" "mc_socket ?fresh < 0" "\<not> mc_thread ?fresh" "mc_timeout ?fresh = None"
          "\<not> nt_locked (NetworkTimeout_new InactiveTimeout)" "\<not> mc_connected ?fresh"
        by (simp_all add: LdnMasterProxyClient_new_def NetworkTimeout_new_def)
      note und = new_client_undeletable [of ?fresh "service_env n base"]
        new_client_undeletable [of "?fresh\<lparr>mc_timeout := Some (NetworkTimeout_new InactiveTimeout)\<rparr>" "service_env n base"]
      show ?thesis
      proof (cases "su_client su")
        case False
        then have "r \<noteq> ResultSuccess" "st' = (p, None, ?s)"
          using assms(1) st event None by (auto simp: ic_Initialize_def Let_def split: if_splits)
        then show ?thesis using i None st by (auto simp: follows_def mode_def)
      next
        case True
        obtain p1 c1 s1 where o: "(if getPassphraseIncluded cfg \<and> 0 < getPassphraseSize cfg
                    then SetPassphrase (Some (passphrase_bytes cfg)) (p, ?c, ?s) else Inr (p, ?c, ?s)) = Inr (p1, c1, s1)"
          and e: "r = ResultSuccess" "st' = (p1, Some c1, setState Initialized s1)"
          using assms(1) st event None True und c0
          by (auto simp: ic_Initialize_def Let_def mc_Initialize_def bind_run_Inr_iff split: if_splits)
        have "served.keeps Idle (?c, ?s)" using ok c0 by (simp add: served.keeps_def mc_inv_def)
        then have "served.keeps Idle (c1, s1)" "s1 = ?s"
          using o c0 served.keeps_SetPassphrase
          by (auto simp: SetPassphrase_def UpdatePassphraseIfNeeded_def Let_def split: if_splits)
        then have "ic_inv st'" using started_inv [of s1 c1 p1] ok ev e by (simp add: served.keeps_def)
        then show ?thesis using e by (simp add: follows_def mode_def)
      qed
    qed
  qed
qed

lemma Finalize_follows:
  assumes "ic_Finalize (service_env n base) st = Inr (r, st')" and "ic_inv st"
  shows "follows cmd_Finalize r st st'"
proof -
  obtain p oc s where st: "st = (p, oc, s)" by (cases st)
  let ?s = "if ic_ryuldnProxy s \<noteq> None then s\<lparr>ic_registered := False, ic_ryuldnProxy := None\<rparr> else s"
  let ?m = "mode_of (ic_currentState s)"
  have ok: "ic_ok ?m ?s" "ic_ryuldnProxy ?s = None"
    using assms(2) st by (auto simp: ic_inv_def ic_ok_def proxy_ok_def)
  have fin: "follows cmd_Finalize ResultSuccess st (q, None, setState CommState_None (x\<lparr>ic_stateEvent := None\<rparr>))"
    if "ic_ok ?m x" "ic_ryuldnProxy x = None" for q x
    using that by (simp add: follows_def mode_def ic_inv_def ic_ok_def proxy_ok_def in_network_def)
  show ?thesis
  proof (cases oc)
    case None
    then have "r = ResultSuccess" "st' = (p, None, setState CommState_None (?s\<lparr>ic_stateEvent := None\<rparr>))"
      using assms(1) st by (auto simp: ic_Finalize_def Let_def)
    then show ?thesis using fin [OF ok] by simp
  next
    case (Some c)
    obtain rc c1 s1 st2 where f: "mc_Finalize (service_env n base) (c, ?s) = Inr (rc, c1, s1)"
      and d: "delete_client (service_env n base) c1 (p, Some c1, s1) = Inr st2"
      and e: "(if rc \<noteq> ResultSuccess then Inr (rc, st2)
           else Inr (ResultSuccess, (\<lambda>(pool, oc, s). (pool, oc, setState CommState_None (s\<lparr>ic_stateEvent := None\<rparr>))) st2))
          = (Inr (r, st') :: (Result \<times> ics) run)"
      using assms(1) st Some by (auto simp: ic_Finalize_def Let_def bind_run_Inr_iff)
    have k: "served.keeps ?m (c, ?s)" using assms(2) st Some ok by (simp add: ic_inv_def served.keeps_def)
    have k1: "served.keeps ?m (c1, s1)" by (rule served.keeps_Finalize [OF k f])
    obtain r2 c2 s2 q where f2: "mc_Finalize (service_env n base) (c1, s1) = Inr (r2, c2, s2)" and st2: "st2 = (q, None, s2)"
      using d by (auto simp: delete_client_def LdnMasterProxyClient_destroy_def bind_run_Inr_iff)
    have "served.keeps ?m (c2, s2)" by (rule served.keeps_Finalize [OF k1 f2])
    then have "ic_ok ?m s2" by (simp add: served.keeps_def)
    moreover have "rc = ResultSuccess" "ic_ryuldnProxy s2 = None"
      using mc_Finalize_proxy [OF f] mc_Finalize_proxy [OF f2] ok by simp_all
    ultimately show ?thesis using fin [of s2 q] e st2 by simp
  qed
qed

section \<open>Reachable states\<close>

lemma step_follows: "ic_step base cmd r st st' \<Longrightarrow> ic_inv st \<Longrightarrow> follows cmd r st st'"
proof (induction rule: ic_step.induct)
  case (InitializeSystem2 n su cfg unk st r st')
  have "ic_inv (on_state (\<lambda>s. s\<lparr>ic_errorState := unk\<rparr>) st)"
    using InitializeSystem2(2) by (cases st) (simp add: ic_inv_def ic_ok_def proxy_ok_def)
  from Initialize_follows [OF _ this] InitializeSystem2(1)
  have "follows cmd_Initialize r (on_state (\<lambda>s. s\<lparr>ic_errorState := unk\<rparr>) st) st'"
    by (simp add: ic_InitializeSystem2_def)
  then show ?case by (simp add: follows_def mode_def)
next
  case (OpenAccessPoint st r st')
  then show ?case using setState_after [of st AccessPoint]
    by (cases st) (auto simp: ic_OpenAccessPoint_def follows_def mode_def mode_of_simps split: if_splits)
next
  case (OpenStation st r st')
  then show ?case using setState_after [of st Station]
    by (cases st) (auto simp: ic_OpenStation_def follows_def mode_def mode_of_simps split: if_splits)
next
  case (LatestUpdate room st r out st')
  obtain p oc s where st: "st = (p, oc, s)" by (cases st)
  obtain us where us: "st' = (p, oc, s\<lparr>ic_nodeLatestUpdates := us\<rparr>)" "length us = length (ic_nodeLatestUpdates s)"
  proof (cases "ic_currentState s \<in> {AccessPointCreated, StationConnected}")
    case True
    let ?n = "min room NodeCountMax"
    let ?us = "map (\<lambda>u. u\<lparr>nlu_stateChange := 0\<rparr>) (take ?n (ic_nodeLatestUpdates s)) @ drop ?n (ic_nodeLatestUpdates s)"
    have "st' = (p, oc, s\<lparr>ic_nodeLatestUpdates := ?us\<rparr>)"
      using LatestUpdate(1) st True by (elim insertE) (simp_all add: ic_GetNetworkInfoLatestUpdate_def Let_def)
    then show ?thesis by (rule that) simp
  next
    case False
    then have "st' = (p, oc, s\<lparr>ic_nodeLatestUpdates := ic_nodeLatestUpdates s\<rparr>)"
      using LatestUpdate(1) st by (simp add: ic_GetNetworkInfoLatestUpdate_def)
    then show ?thesis by (rule that) simp
  qed
  have "ic_inv st' \<and> mode st' = mode st"
    using LatestUpdate(2) st us by (simp add: mode_def ic_inv_def ic_ok_def proxy_ok_def)
  then show ?case by (simp add: follows_other)
next
  case (Passphrase cfg st st')
  obtain p oc s where st: "st = (p, oc, s)" by (cases st)
  have "ic_inv st' \<and> mode st' = mode st"
  proof (cases oc)
    case (Some c)
    then show ?thesis using Passphrase st SetPassphrase_inv [of "Some (passphrase_bytes cfg)" p c s]
      by (auto simp: ic_passphraseUpdate_def bind_run_Inr_iff split: if_splits)
  qed (use Passphrase st in \<open>auto simp: ic_passphraseUpdate_def\<close>)
  then show ?case by (simp add: follows_other)
next
  case (Worker n ps p c s p' c' s')
  have k: "served.keeps (mode_of (ic_currentState s)) (c', s')"
    by (rule served.keeps_WorkerLoop_pass [OF _ Worker(1)]) (use Worker(2) in \<open>simp add: ic_inv_keeps\<close>)
  then have "mode_of (ic_currentState s') = mode_of (ic_currentState s)"
    by (simp add: served.keeps_def ic_ok_def)
  then show ?case using k Worker(2) by (intro follows_other) (simp_all add: ic_inv_keeps mode_def)
next
  case (Socket s px p p' px' c)
  have i: "ic_ok (mode_of (ic_currentState s)) s" "mc_inv c" using Socket(4) by (simp_all add: ic_inv_def)
  then have "px_inv px" using Socket(1) by (simp add: ic_ok_def proxy_ok_def)
  then have "px_inv px'" using step_inv [OF Socket(3)] Socket(2) by (simp add: st_shape_def)
  then have "ic_ok (mode_of (ic_currentState s)) (s\<lparr>ic_ryuldnProxy := Some px'\<rparr>)"
    using ic_ok_proxy [OF i(1) Socket(1)] by simp
  moreover have "mc_inv (send_all (newly_sent px px') c)" using i(2) by (simp add: mc_inv_def)
  ultimately have "ic_inv (p', Some (send_all (newly_sent px px') c), s\<lparr>ic_ryuldnProxy := Some px'\<rparr>)"
    using Socket(4) by (simp add: ic_inv_def)
  then show ?case by (simp add: follows_other mode_def)
qed (auto intro: Initialize_follows Finalize_follows CloseAccessPoint_follows CloseStation_follows
      DestroyNetwork_follows Disconnect_follows CreateNetwork_follows Connect_follows Scan_follows
      SetAdvertiseData_follows SetStationAcceptPolicy_follows)

inductive ic_reachable :: "ICommunicationService Env \<Rightarrow> BufferPool \<Rightarrow> ics \<Rightarrow> bool" for base pool where
  start: "ic_reachable base pool (pool, None, ICommunicationService_new)"
| step: "ic_reachable base pool st \<Longrightarrow> ic_step base cmd r st st' \<Longrightarrow> ic_reachable base pool st'"

lemma ic_reachable_inv: "ic_reachable base pool st \<Longrightarrow> ic_inv st"
proof (induction rule: ic_reachable.induct)
  case start
  then show ?case by (simp add: ic_inv_def ic_ok_def proxy_ok_def in_network_def ICommunicationService_new_def)
next
  case (step st cmd r st')
  then show ?case using step_follows by (auto simp: follows_def)
qed

end
