(* ===== verification/Icom_Properties.thy ===== *)
theory Icom_Properties
  imports Icom_Machine
begin

text \<open>
  Properties of the service: the invariant of its reachable states, its commands as a machine on modes,
  and what the packets of the master server make of its state. \<open>lan_step\<close> is the whole effect of a packet
  on the state a game sees.
\<close>

section \<open>Packets and the visible state\<close>

type_synonym lan = "CommState \<times> bool \<times> NetworkInfo"

definition enter :: "CommState \<Rightarrow> CommState" where
  "enter x = (if x = AccessPoint then AccessPointCreated else if x = Station then StationConnected else x)"

definition leave :: "CommState \<Rightarrow> CommState" where
  "leave x = (if x = AccessPointCreated then AccessPoint else if x = StationConnected then Station else x)"

text \<open>State, the client's \<open>_networkConnected\<close> and the network information, after one packet.\<close>

fun lan_step :: "RyuEvent \<Rightarrow> lan \<Rightarrow> lan" where
  "lan_step (onConnected h i) (x, b, info) = (enter x, True, i)"
| "lan_step (onSyncNetwork h i) (x, b, info) = (enter x, b, i)"
| "lan_step (onDisconnected h m) (x, b, info) = (if b then (leave x, False, zero_info) else (x, b, info))"
| "lan_step _ v = v"

definition lan_view :: "ICommunicationService mcw \<Rightarrow> lan" where
  "lan_view = (\<lambda>(c, s). (ic_currentState s, mc_networkConnected c, ic_networkInfo s))"

lemma onNetworkChange_state:
  "ic_currentState (onNetworkChange ip i b r s) = (if b then enter else leave) (ic_currentState s)"
  by (simp add: onNetworkChange_def Let_def enter_def leave_def)

lemma effect_view: "lan_view (client_effect (service_env n base) service_effect ev cw) = lan_step ev (lan_view cw)"
proof -
  obtain c s where cw: "cw = (c, s)" by force
  have d: "lan_view (disconnect_effect (service_env n base) (c', s)) = lan_step (onDisconnected h m) (lan_view (c', s))" for c' h m
    by (simp add: lan_view_def disconnect_effect_def Let_def notify_def service_env_def onNetworkChange_state)
  show ?thesis
    using d [of "c\<lparr>mc_disconnectIp := x\<rparr>" for x] unfolding cw
    by (cases ev)
      (auto simp: lan_view_def client_effect_def service_effect_def ldn_event_def mc_handler_defs notify_def
        service_env_def onProxyConfig_service_def onNetworkChange_state split: option.split)
qed

lemma fold_effect_view:
  "lan_view (fold (client_effect (service_env n base) service_effect) evs cw) = fold lan_step evs (lan_view cw)"
  by (induction evs arbitrary: cw) (simp_all add: effect_view)

lemma lan_view_core: "lan_view (core c, s) = lan_view (c, s)"
  by (simp add: lan_view_def)

lemma lan_view_mode:
  assumes "lan_view (c', s') = fold lan_step evs (lan_view (c, s))"
  shows "mode_of (ic_currentState s') = mode_of (ic_currentState s)"
proof -
  have "mode_of (fst (lan_step ev x)) = mode_of (fst x)" for ev x
    by (cases x; cases ev) (auto simp: enter_def leave_def)
  then have "mode_of (fst (fold lan_step evs x)) = mode_of (fst x)" for x
    by (induction evs arbitrary: x) simp_all
  from this [of "lan_view (c, s)", folded assms] show ?thesis by (simp add: lan_view_def)
qed

lemma packets_effect:
  assumes "linked proxy_ok t0 (pool, c, s)" and "arriving (service_env n base) t0 pool c arrivals evs"
  shows "\<exists>pool' c' s'. WorkerLoop (service_env n base) (map pass_of arrivals) (pool, c, s) = Inr (pool', c', s')
    \<and> (core c', s') = fold (client_effect (service_env n base) service_effect) evs (core c, s)
    \<and> linked proxy_ok t0 (pool', c', s')"
proof -
  obtain fs rest where f: "frames (pending (mc_protocol c) pool @ concat (map fst arrivals)) = (fs, rest)" by force
  have evs: "evs = frame_events (protocol_registers (service_env n base)) fs"
    using assms(2) f by (simp add: arriving_def Let_def)
  have a: "\<forall>(bs, now) \<in> set arrivals. length bs \<le> 4096 \<and> unat now < t0 + 6000"
      "sorted (map unat (mc_now c # map snd arrivals))"
      "stream_ok (protocol_registers (service_env n base)) (pending (mc_protocol c) pool @ concat (map fst arrivals))"
    using assms(2) by (simp_all add: arriving_def Let_def)
  show ?thesis
    using service.WorkerLoop_frames [where n = n and base = base, OF assms(1) a f] unfolding evs by blast
qed

lemma packets_run:
  assumes "linked proxy_ok t0 (pool, c, s)" and "arriving (service_env n base) t0 pool c arrivals evs"
  shows "\<exists>pool' c' s'. WorkerLoop (service_env n base) (map pass_of arrivals) (pool, c, s) = Inr (pool', c', s')
    \<and> lan_view (c', s') = fold lan_step evs (lan_view (c, s))
    \<and> mode_of (ic_currentState s') = mode_of (ic_currentState s) \<and> linked proxy_ok t0 (pool', c', s')"
proof -
  obtain pool' c' s' where w: "WorkerLoop (service_env n base) (map pass_of arrivals) (pool, c, s) = Inr (pool', c', s')"
      "(core c', s') = fold (client_effect (service_env n base) service_effect) evs (core c, s)"
      "linked proxy_ok t0 (pool', c', s')"
    using packets_effect [OF assms] by blast
  have v: "lan_view (c', s') = fold lan_step evs (lan_view (c, s))"
    using fold_effect_view [of n base evs "(core c, s)"] unfolding w(2) [symmetric] lan_view_core .
  then have "mode_of (ic_currentState s') = mode_of (ic_currentState s)" by (rule lan_view_mode)
  then show ?thesis using w(1,3) v by blast
qed

text \<open>
  C2: the packets of the master server drive the visible state. While the worker runs, whatever the
  pieces in which the packets arrive and however many polls time out, the state of the service, the
  connection flag and the network information are those of \<open>lan_step\<close> folded over the packets in order,
  and the service stays in its mode.
\<close>

theorem packets_drive_state:
  assumes "linked proxy_ok t0 (pool, c, s)" and "arriving (service_env n base) t0 pool c arrivals evs"
  shows "\<exists>pool' c' s'. WorkerLoop (service_env n base) (map pass_of arrivals) (pool, c, s) = Inr (pool', c', s')
    \<and> lan_view (c', s') = fold lan_step evs (lan_view (c, s))
    \<and> mode_of (ic_currentState s') = mode_of (ic_currentState s) \<and> linked proxy_ok t0 (pool', c', s')"
  using assms by (rule packets_run)

section \<open>Demonstration instances\<close>

definition demo_base :: "ICommunicationService Env" where
  "demo_base =
     \<lparr>env_networkChange = None, env_proxyConfig = None, env_proxyData = None, env_other = (\<lambda>_ _. None),
      env_otherRegisters = (\<lambda>_. False), env_serverNew = (\<lambda>_. True), env_serverStart = (\<lambda>_. True),
      env_serverNatPunch = (\<lambda>_. 0), env_clientNew = (\<lambda>_. True), env_clientConnect = (\<lambda>_. True),
      env_clientAuth = (\<lambda>_. True)\<rparr>"

abbreviation "demo_env \<equiv> service_env True demo_base"

definition demo_service :: "CommState \<Rightarrow> ICommunicationService" where
  "demo_service x = ICommunicationService_new\<lparr>ic_stateEvent := Some False, ic_currentState := x\<rparr>"

definition demo_net :: NetworkInfo where
  "demo_net = NetworkInfo_of_ldn (get_LdnNetworkInfo (replicate 1072 0))"

lemma demo_service_linked: "linked proxy_ok 0 (zero_pool, demo_linked, demo_service x)"
  using demo_linked_linked
  by (simp add: linked_def proxy_ok_def demo_service_def ICommunicationService_new_def)

lemma demo_service_fields [simp]:
  "ic_currentState (demo_service x) = x" "ic_networkInfo (demo_service x) = zero_info"
  "ic_ryuldnProxy (demo_service x) = None"
  by (simp_all add: demo_service_def ICommunicationService_new_def)

lemma demo_linked_fields [simp]:
  "mc_networkConnected demo_linked = False" "mc_now demo_linked = 0" "mc_protocol demo_linked = RyuLdnProtocol_new"
  by (simp_all add: demo_linked_def demo_client_fields)

lemma service_registers: "protocol_registers (service_env n base) t \<longleftrightarrow> mc_registers t \<or> LdnProxy_registers t"
  by (simp add: protocol_registers_def service_env_def)

lemma service_arriving:
  assumes "\<forall>(t, p) \<in> set ps. length p < 4087" and "map (\<lambda>(t, p). frame_event (protocol_registers (service_env n base))
       (packet_header t (length p), p)) ps = map (\<lambda>e. Inr (Some e)) evs"
    and "mc_now c = 0" and "pending (mc_protocol c) pool = []"
  shows "arriving (service_env n base) 0 pool c (map (\<lambda>(t, p). (packet t p, 0)) ps) evs"
proof -
  have f: "\<forall>(t, p) \<in> set ps. length p < 4087 \<and> \<not> isl (frame_event (protocol_registers (service_env n base)) (packet_header t (length p), p))"
  proof (intro ballI, clarify)
    fix t p assume tp: "(t, p) \<in> set ps"
    then have "frame_event (protocol_registers (service_env n base)) (packet_header t (length p), p)
        \<in> set (map (\<lambda>(t, p). frame_event (protocol_registers (service_env n base)) (packet_header t (length p), p)) ps)"
      by force
    then show "length p < 4087 \<and> \<not> isl (frame_event (protocol_registers (service_env n base)) (packet_header t (length p), p))"
      using assms(1) tp unfolding assms(2) by auto
  qed
  have "frame_events (protocol_registers (service_env n base)) (map (\<lambda>(t, p). (packet_header t (length p), p)) ps) = evs"
    using assms(2) unfolding frame_events_def
    by (induction ps arbitrary: evs) (auto split: prod.splits)
  then show ?thesis using arriving_packets [OF f assms(3,4)] by simp
qed

text \<open>One packet that carries the network information \<open>demo_net\<close>.\<close>

definition one_packet :: "PacketId \<Rightarrow> (bytes \<times> u64) list" where
  "one_packet t = [(packet t [0], 0)]"

lemma info_arrives:
  "arriving (service_env n base) 0 zero_pool demo_linked (one_packet PacketId_Connected)
     [onConnected (packet_header PacketId_Connected 1) demo_net]"
  "arriving (service_env n base) 0 zero_pool demo_linked (one_packet PacketId_SyncNetwork)
     [onSyncNetwork (packet_header PacketId_SyncNetwork 1) demo_net]"
  using service_arriving [of "[(PacketId_Connected, [0])]" n base "[onConnected (packet_header PacketId_Connected 1) demo_net]"
      demo_linked zero_pool]
    service_arriving [of "[(PacketId_SyncNetwork, [0])]" n base "[onSyncNetwork (packet_header PacketId_SyncNetwork 1) demo_net]"
      demo_linked zero_pool]
  by (simp_all add: pending_new one_packet_def frame_event_packet service_registers mc_registers_def HandleNetworkInfo_def
      ParseNetworkInfo_def demo_net_def)

theorem packets_drive_state_witness:
  "\<exists>pool c s. WorkerLoop demo_env (map pass_of (one_packet PacketId_Connected))
       (zero_pool, demo_linked, demo_service Station) = Inr (pool, c, s)
     \<and> lan_view (c, s) = (StationConnected, True, demo_net)"
  using packets_drive_state [OF demo_service_linked info_arrives(1), of True demo_base Station]
  by (auto simp: lan_view_def enter_def)

section \<open>Invariant and modes\<close>

text \<open>
  C4: every state the service can reach, whatever commands a game issues, whatever bytes the server sends
  and whatever the operating system answers, is consistent. The master client exists exactly outside
  the state \<open>None\<close>, the error state is never entered; outside \<open>None\<close> there is a state event to attach
  to; inside a network the disconnect reason and address are cleared; the virtual network proxy is
  registered with the socket service exactly while it exists, and its invariant holds; the client's
  timer is not locked and its socket is open while it is connected.
\<close>

theorem service_reachable_safe:
  assumes "ic_reachable base pool (pool', oc, s)"
  shows "(oc = None \<longleftrightarrow> ic_currentState s = CommState_None) \<and> ic_currentState s \<noteq> CommState_Error
    \<and> (ic_currentState s \<noteq> CommState_None \<longrightarrow> ic_AttachStateChangeEvent (pool', oc, s) = Inr ResultSuccess)
    \<and> (in_network (ic_currentState s) \<longrightarrow> ic_disconnectReason s = DisconnectReason_None \<and> ic_disconnectIp s = 0)
    \<and> (ic_registered s \<longleftrightarrow> ic_ryuldnProxy s \<noteq> None)
    \<and> (\<forall>px. ic_ryuldnProxy s = Some px \<longrightarrow> px_inv px)
    \<and> (\<forall>c. oc = Some c \<longrightarrow> mc_inv c)"
  using ic_reachable_inv [OF assms]
  by (auto simp: ic_inv_def ic_ok_def proxy_ok_def mode_of_simps ic_AttachStateChangeEvent_def)

definition demo_startup :: Startup where
  "demo_startup =
     \<lparr>su_event = True, su_client = True, su_failed = False, su_config = get_ProxyConfig (replicate 8 0),
      su_info = zero_info, su_thread = ResultSuccess\<rparr>"

definition demo_started :: LdnMasterProxyClient where
  "demo_started = (LdnMasterProxyClient_new False (get_ProxyConfig (replicate 8 0)) zero_info
      ''ldn.ryujinx.app'' 30456 True)\<lparr>mc_timeout := Some (NetworkTimeout_new InactiveTimeout), mc_thread := True\<rparr>"

lemma demo_Initialize:
  "ic_Initialize demo_env demo_startup (LdnConfig_initial 3 None) (zero_pool, None, ICommunicationService_new) =
     Inr (ResultSuccess, zero_pool, Some demo_started,
       ICommunicationService_new\<lparr>ic_stateEvent := Some True, ic_currentState := Initialized\<rparr>)"
  by (simp add: ic_Initialize_def demo_startup_def demo_started_def ICommunicationService_new_def IsConstructionSuccessful_def
      LdnMasterProxyClient_new_def mc_Initialize_def getPassphraseIncluded_def getPassphraseSize_def LdnConfig_initial_def
      c_str_def setState_def onEventFired_def GetServerAddress_def GetServerPort_def kDefaultHost_def)

lemma demo_reachable:
  "ic_reachable demo_base zero_pool (zero_pool, Some demo_started,
     ICommunicationService_new\<lparr>ic_stateEvent := Some True, ic_currentState := AccessPoint\<rparr>)"
proof -
  have "ic_reachable demo_base zero_pool (zero_pool, Some demo_started,
     ICommunicationService_new\<lparr>ic_stateEvent := Some True, ic_currentState := Initialized\<rparr>)"
    by (rule ic_reachable.step [OF ic_reachable.start ic_step.Initialize [OF demo_Initialize]])
  then show ?thesis
    by (rule ic_reachable.step [OF _ ic_step.OpenAccessPoint [of _ ResultSuccess]])
      (simp add: ic_OpenAccessPoint_def setState_def onEventFired_def)
qed

theorem service_reachable_safe_witness:
  "\<exists>st. ic_reachable demo_base zero_pool st \<and> mode st = Hosting \<and> ic_AttachStateChangeEvent st = Inr ResultSuccess"
  using service_reachable_safe [OF demo_reachable] demo_reachable
  by (intro exI conjI) (auto simp: mode_def)

text \<open>
  C1: seen through its modes the service is the small machine \<open>mode_step\<close>. In every reachable state a
  command that the machine refuses returns (0xCB, 32) and changes nothing; a command that succeeds takes
  the service to the mode the machine prescribes; one that fails leaves the mode alone. In particular
  no packet of the server and no socket operation moves the service between idle, initialised, hosting and joining.
\<close>

theorem service_refines_modes:
  assumes "ic_reachable base pool st" and "ic_step base cmd r st st'"
  shows "(mode_step cmd (mode st) = None \<longrightarrow> r = MAKERESULT 0xCB 32 \<and> st' = st)
    \<and> (r = ResultSuccess \<longrightarrow> mode_step cmd (mode st) = Some (mode st'))
    \<and> (r \<noteq> ResultSuccess \<longrightarrow> mode st' = mode st)"
  using step_follows [OF assms(2) ic_reachable_inv [OF assms(1)]] by (auto simp: follows_def WrongState_def)

theorem service_refines_modes_witness:
  "\<exists>st st'. ic_reachable demo_base zero_pool st \<and> ic_step demo_base cmd_CloseAccessPoint ResultSuccess st st'
     \<and> mode st = Hosting \<and> mode st' = Ready"
proof -
  let ?st = "(zero_pool, Some demo_started, ICommunicationService_new\<lparr>ic_stateEvent := Some True, ic_currentState := AccessPoint\<rparr>)"
  let ?st' = "(zero_pool, Some demo_started, ICommunicationService_new\<lparr>ic_stateEvent := Some True, ic_currentState := Initialized\<rparr>)"
  have s: "ic_step demo_base cmd_CloseAccessPoint ResultSuccess ?st ?st'"
    by (rule ic_step.CloseAccessPoint [of True]) (simp add: ic_CloseAccessPoint_def setState_def onEventFired_def)
  have m: "mode ?st = Hosting" by (simp add: mode_def)
  show ?thesis
    using service_refines_modes [OF demo_reachable s] s demo_reachable m by (intro exI conjI) auto
qed

section \<open>Joining and hosting, end to end\<close>

lemma lan_view_SendPacket [simp]: "lan_view (snd (SendPacket d c), s) = lan_view (c, s)"
  by (simp add: lan_view_def)

lemma service_request:
  assumes l: "linked proxy_ok t0 (pool, c, s)" and fr: "free_for 3 (mc_protocol c) pool"
    and ar: "arriving (service_env n base) t0 pool c arrivals evs"
    and fit: "HeaderSize + length payload \<le> BufferSize" and enc: "\<And>buf. encode buf = encoded type payload buf"
    and succ: "\<And>c w. same_link c (fst (success (c, w)))" "\<And>c w. proxy_ok w \<Longrightarrow> proxy_ok (snd (success (c, w)))"
  shows "\<exists>pool' c1 s1 cw'. request (service_env n base) (map pass_of arrivals) encode success (pool, c, s) =
      Inr (if \<exists>h i. onConnected h i \<in> set evs then ResultSuccess else MAKERESULT 0xFD 2, pool', cw')
    \<and> lan_view (c1, s1) = fold lan_step evs (lan_view (c, s))
    \<and> cw' = (if \<exists>h i. onConnected h i \<in> set evs
             then success (signal (ev_apConnected_update (\<lambda>_. False)) c1, s1) else (c1, s1))
    \<and> linked proxy_ok t0 (pool', cw')"
proof -
  let ?sent = "snd (SendPacket (packet type payload) (c\<lparr>mc_events := (mc_events c)\<lparr>ev_apConnected := False\<rparr>\<rparr>))"
  obtain pool' c1 s1 cw' where r: "request (service_env n base) (map pass_of arrivals) encode success (pool, c, s) =
      Inr (if \<exists>h i. onConnected h i \<in> set evs then ResultSuccess else MAKERESULT 0xFD 2, pool', cw')"
    "(core c1, s1) = fold (client_effect (service_env n base) service_effect) evs (core ?sent, s)"
    "cw' = (if \<exists>h i. onConnected h i \<in> set evs
             then success (signal (ev_apConnected_update (\<lambda>_. False)) c1, s1) else (c1, s1))"
    "linked proxy_ok t0 (pool', cw')"
    using service.request_arriving [OF l fr ar fit enc succ] by blast
  have "lan_view (c1, s1) = fold lan_step evs (lan_view (?sent, s))"
    using fold_effect_view [of n base evs "(core ?sent, s)"] unfolding r(2) [symmetric] lan_view_core .
  also have "lan_view (?sent, s) = lan_view (c, s)" by (simp add: lan_view_def)
  finally show ?thesis using r(1,3,4) by blast
qed

text \<open>
  C15: joining a network. On an open connection, in the state \<open>Station\<close> and without a passphrase, \<open>Connect\<close>
  returns success exactly when the server answers with \<open>Connected\<close>, and (0xFD, 2) otherwise; the state,
  the connection flag and the network information afterwards are what the packets make of them. In
  particular a single \<open>Connected\<close> packet takes the game into the network it describes.
\<close>

theorem Connect_joins:
  assumes "linked proxy_ok t0 (pool, c, s)" and "free_for 3 (mc_protocol c) pool"
    and "arriving (service_env n base) t0 pool c arrivals evs" and "ic_currentState s = Station"
    and "wf_ConnectNetworkData param" and "wf_NetworkInfo d" and "\<not> getPassphraseIncluded cfg"
  shows "\<exists>pool' c' s'. ic_Connect (service_env n base) a (map pass_of arrivals) cfg nc param d (pool, Some c, s) =
      Inr (if \<exists>h i. onConnected h i \<in> set evs then ResultSuccess else MAKERESULT 0xFD 2, pool', Some c', s')
    \<and> lan_view (c', s') = fold lan_step evs (lan_view (c, s))
    \<and> (\<forall>h i. evs = [onConnected h i] \<longrightarrow>
         ic_currentState s' = StationConnected \<and> mc_networkConnected c' \<and> ic_networkInfo s' = i)"
proof -
  let ?q = "param\<lparr>cnd_securityConfig := strip_passphrase cfg (cnd_securityConfig param)\<rparr>"
  let ?req = "connect_request ?q d" and ?e = "service_env n base"
  have wf: "wf_ConnectRequest ?req"
    using assms(5,6) by (simp add: wf_ConnectRequest_def wf_ConnectNetworkData_def connect_request_def
        strip_passphrase_def wf_SecurityConfig_def)
  have u: "\<forall>t. mc_timeout c = Some t \<longrightarrow> \<not> nt_locked t" using assms(1) by (simp add: linked_def mc_inv_def)
  have conn: "mc_connected c" using assms(1) by (simp add: linked_def)
  have ar: "arriving ?e t0 pool (disabled c) arrivals evs" by (rule arriving_cong [OF assms(3)]) simp_all
  have fr: "free_for 3 (mc_protocol (disabled c)) pool" using assms(2) by simp
  have id: "same_link x (fst (id (x, y)))" "proxy_ok y \<Longrightarrow> proxy_ok (snd (id (x, y)))" for x y
    by (simp_all add: same_link_def)
  let ?ok = "\<exists>h i. onConnected h i \<in> set evs"
  obtain pool' c1 s1 cw' where r: "request ?e (map pass_of arrivals)
        (Encode_struct PacketId_Connect (put_ConnectRequest ?req)) id (pool, disabled c, s) =
      Inr (if ?ok then ResultSuccess else MAKERESULT 0xFD 2, pool', cw')"
    "lan_view (c1, s1) = fold lan_step evs (lan_view (disabled c, s))"
    "cw' = (if ?ok then id (signal (ev_apConnected_update (\<lambda>_. False)) c1, s1) else (c1, s1))"
    using service_request [OF linked_disabled [OF assms(1)] fr ar length_put_ConnectRequest [OF wf]
        Encode_struct_packet id, of PacketId_Connect] by blast
  obtain c' s' where cw: "cw' = (c', s')" by force
  have v: "lan_view (c', s') = fold lan_step evs (lan_view (c, s))"
    using r(2,3) cw by (auto simp: lan_view_def signal_def split: if_splits)
  have "mc_Connect ?e a (map pass_of arrivals) ?req (pool, c, s) =
      Inr (if ?ok then ResultSuccess else MAKERESULT 0xFD 2, pool', c', s')"
    using r(1) cw by (simp add: mc_Connect_def disable_unlocked [OF u] EnsureConnected_def conn)
  then have "ic_Connect ?e a (map pass_of arrivals) cfg nc param d (pool, Some c, s) =
      Inr (if ?ok then ResultSuccess else MAKERESULT 0xFD 2, pool', Some c', s')"
    using assms(4,7) by (simp add: ic_Connect_def Let_def strip_passphrase_def on_client_def)
  moreover have "\<forall>h i. evs = [onConnected h i] \<longrightarrow>
         ic_currentState s' = StationConnected \<and> mc_networkConnected c' \<and> ic_networkInfo s' = i"
    using v assms(4) by (auto simp: lan_view_def enter_def)
  ultimately show ?thesis using v by blast
qed

definition demo_param :: ConnectNetworkData where
  "demo_param = get_ConnectNetworkData (replicate 124 0)"

lemma wf_demo_param: "wf_ConnectNetworkData demo_param"
  unfolding demo_param_def by (rule ConnectNetworkData_wire.wf_get) simp

lemma wf_zero_info: "wf_NetworkInfo zero_info"
  unfolding zero_info_def by (rule NetworkInfo_wire.wf_get) simp

lemma no_passphrase: "\<not> getPassphraseIncluded (LdnConfig_initial g f)"
  by (simp add: getPassphraseIncluded_def LdnConfig_initial_def c_str_def)

theorem Connect_joins_witness:
  "\<exists>pool c s. ic_Connect demo_env undefined (map pass_of (one_packet PacketId_Connected)) (LdnConfig_initial 3 None)
       undefined demo_param zero_info (zero_pool, Some demo_linked, demo_service Station) = Inr (ResultSuccess, pool, Some c, s)
     \<and> ic_currentState s = StationConnected \<and> ic_networkInfo s = demo_net"
  using Connect_joins [where n = True and base = demo_base and cfg = "LdnConfig_initial 3 None" and a = undefined
      and nc = undefined, OF demo_service_linked _ info_arrives(1) _ wf_demo_param wf_zero_info no_passphrase, of Station]
    free_for_zero_pool [of 3]
  by auto

lemma delete_hosted_eq: "\<exists>x y. delete_hosted c = c\<lparr>mc_hostedProxy := x, mc_servers := y\<rparr>"
proof (cases "mc_hostedProxy c")
  case None
  then have "delete_hosted c = c\<lparr>mc_hostedProxy := mc_hostedProxy c, mc_servers := mc_servers c\<rparr>"
    by (simp add: delete_hosted_def)
  then show ?thesis by blast
qed (auto simp: delete_hosted_def)

lemma ports_eq:
  "\<exists>x y. snd (ConfigureAccessPoint_ports e is cfg c) = c\<lparr>mc_hostedProxy := x, mc_servers := y\<rparr>"
proof (induction "is" arbitrary: c)
  case Nil
  show ?case by (intro exI [of _ "mc_hostedProxy c"] exI [of _ "mc_servers c"]) simp
next
  case (Cons i "is")
  let ?port = "PrivatePortBase + of_nat i"
  let ?up = "c\<lparr>mc_hostedProxy := Some ?port, mc_servers := ?port # mc_servers c\<rparr>"
  obtain x y where d: "delete_hosted ?up = ?up\<lparr>mc_hostedProxy := x, mc_servers := y\<rparr>" using delete_hosted_eq by blast
  obtain x1 y1 where i1: "snd (ConfigureAccessPoint_ports e is cfg (c\<lparr>mc_hostedProxy := None\<rparr>)) = c\<lparr>mc_hostedProxy := x1, mc_servers := y1\<rparr>"
    using Cons [of "c\<lparr>mc_hostedProxy := None\<rparr>"] by auto
  obtain x2 y2 where i2: "snd (ConfigureAccessPoint_ports e is cfg (delete_hosted ?up)) = c\<lparr>mc_hostedProxy := x2, mc_servers := y2\<rparr>"
    using Cons [of "delete_hosted ?up"] unfolding d by auto
  consider "\<not> env_serverNew e ?port" | "env_serverNew e ?port" "\<not> env_serverStart e ?port"
    | "env_serverNew e ?port" "env_serverStart e ?port" "env_serverNatPunch e ?port \<noteq> 0"
    | "env_serverNew e ?port" "env_serverStart e ?port" "env_serverNatPunch e ?port = 0"
    by blast
  then show ?case
  proof cases
    case 1
    then show ?thesis by (intro exI [of _ None] exI [of _ "mc_servers c"]) (simp add: Let_def)
  next
    case 2
    then show ?thesis using i1 by (intro exI [of _ x1] exI [of _ y1]) (simp add: Let_def)
  next
    case 3
    then show ?thesis by (intro exI [of _ "Some ?port"] exI [of _ "?port # mc_servers c"]) (simp add: Let_def)
  next
    case 4
    then show ?thesis using i2 by (intro exI [of _ x2] exI [of _ y2]) (simp add: Let_def)
  qed
qed

lemma ports_wf:
  "wf_RyuNetworkConfig cfg \<Longrightarrow> wf_RyuNetworkConfig (fst (ConfigureAccessPoint_ports e is cfg c))"
  by (induction e "is" cfg c rule: ConfigureAccessPoint_ports.induct) (auto simp: Let_def wf_RyuNetworkConfig_def)

lemma ports_link:
  "same_link c (snd (ConfigureAccessPoint_ports e is cfg c))
   \<and> mc_networkConnected (snd (ConfigureAccessPoint_ports e is cfg c)) = mc_networkConnected c"
  using ports_eq [of e "is" cfg c] by (auto simp: same_link_def)

lemma ConfigureAccessPoint_link:
  assumes "ConfigureAccessPoint e cfg c = (cfg', c')" and "wf_RyuNetworkConfig cfg"
  shows "same_link c c'" and "mc_networkConnected c' = mc_networkConnected c" and "wf_RyuNetworkConfig cfg'"
  using assms ports_link [of c e "[0..<PrivatePortRange]" cfg] ports_wf [of cfg e "[0..<PrivatePortRange]" c]
  by (auto simp: ConfigureAccessPoint_def same_link_def wf_RyuNetworkConfig_def split: if_splits)

text \<open>
  C16: hosting a network without a passphrase. In the state \<open>AccessPoint\<close>, on an open connection, when
  the client is in no network yet and no passphrase is configured, \<open>CreateNetwork\<close> succeeds exactly when
  the server answers with \<open>Connected\<close> while the command waits. The service is then in
  \<open>AccessPointCreated\<close>, and the network information is the one the client makes up from the request:
  what the server said in \<open>Connected\<close> or in a later \<open>SyncNetwork\<close>, the session identifier included, is
  overwritten, and so is the effect of a \<open>Disconnect\<close> that followed.
\<close>

theorem CreateNetwork_reports_dummy:
  assumes "linked proxy_ok t0 (pool, c, s)" and "free_for 3 (mc_protocol c) pool"
    and "arriving (service_env n base) t0 pool c arrivals evs" and "ic_currentState s = AccessPoint"
    and "\<not> mc_networkConnected c" and "length (mc_gameVersion c) = 16"
    and "wf_CreateNetworkConfig d" and "\<not> getPassphraseIncluded cfg"
  shows "\<exists>pool' c' s'. ic_CreateNetwork (service_env n base) a (map pass_of arrivals) cfg d (pool, Some c, s) =
      Inr (if \<exists>h i. onConnected h i \<in> set evs then ResultSuccess else MAKERESULT 0xFD 2, pool', Some c', s')
    \<and> ((\<exists>h i. onConnected h i \<in> set evs) \<longrightarrow>
         ic_currentState s' = AccessPointCreated \<and> ic_networkInfo s' = dummyInfo (cnc_networkConfig d) [])"
proof -
  let ?e = "service_env n base" and ?req = "create_request cfg d" and ?c = "disabled c"
  let ?ok = "\<exists>h i. onConnected h i \<in> set evs"
  let ?info = "dummyInfo (cnc_networkConfig d) []"
  let ?f = "\<lambda>(c, w). let info = ?info in notify ?e info True DisconnectReason_None (c\<lparr>mc_lastNetworkInfo := info\<rparr>, w)"
  obtain cfg1 c1 where cfg1: "ConfigureAccessPoint ?e ((cap_ryuNetworkConfig ?req)\<lparr>rnc_gameVersion := mc_gameVersion ?c\<rparr>) ?c = (cfg1, c1)"
    by force
  have gv: "mc_gameVersion ?c = mc_gameVersion c" by (simp add: disabled_def split: option.split)
  have "wf_RyuNetworkConfig zero_ryu_config"
    unfolding zero_ryu_config_def by (rule RyuNetworkConfig_wire.wf_get) simp
  then have "wf_RyuNetworkConfig ((cap_ryuNetworkConfig ?req)\<lparr>rnc_gameVersion := mc_gameVersion ?c\<rparr>)"
    using assms(6) gv by (simp add: wf_RyuNetworkConfig_def create_request_def)
  note cap = ConfigureAccessPoint_link [OF cfg1 this]
  let ?mod = "?req\<lparr>cap_ryuNetworkConfig := cfg1\<rparr>"
  have wf: "wf_CreateAccessPointRequest ?mod"
    using assms(7) cap(3) by (simp add: wf_CreateAccessPointRequest_def wf_CreateNetworkConfig_def create_request_def
        strip_passphrase_def wf_SecurityConfig_def)
  have fit: "HeaderSize + length (put_CreateAccessPointRequest ?mod @ []) \<le> BufferSize"
    using wf by (simp add: CreateAccessPointRequest_wire.length_put_wf BufferSize_def MaxPacketSize_def HeaderSize_def)
  have u: "\<forall>t. mc_timeout c = Some t \<longrightarrow> \<not> nt_locked t" using assms(1) by (simp add: linked_def mc_inv_def)
  have conn: "mc_connected c" using assms(1) by (simp add: linked_def)
  have l1: "linked proxy_ok t0 (pool, c1, s)" by (rule linked_link [OF linked_disabled [OF assms(1)] cap(1)])
  have p1: "mc_protocol c1 = mc_protocol c" "mc_now c1 = mc_now c" using cap(1) by (simp_all add: same_link_def)
  have ar: "arriving ?e t0 pool c1 arrivals evs" by (rule arriving_cong [OF assms(3)]) (simp_all add: p1)
  have f: "same_link x (fst (?f (x, y)))" "proxy_ok y \<Longrightarrow> proxy_ok (snd (?f (x, y)))" for x y
    by (simp_all add: same_link_def notify_def service_env_def proxy_ok_def Let_def)
  obtain pool' c2 s2 cw' where r: "request ?e (map pass_of arrivals)
        (Encode_extra PacketId_CreateAccessPoint (put_CreateAccessPointRequest ?mod) []) ?f (pool, c1, s) =
      Inr (if ?ok then ResultSuccess else MAKERESULT 0xFD 2, pool', cw')"
    "lan_view (c2, s2) = fold lan_step evs (lan_view (c1, s))"
    "cw' = (if ?ok then ?f (signal (ev_apConnected_update (\<lambda>_. False)) c2, s2) else (c2, s2))"
    using service_request [OF l1 _ ar fit Encode_extra_packet f, of PacketId_CreateAccessPoint] assms(2) p1 by auto
  obtain c' s' where cw: "cw' = (c', s')" by force
  have m: "mode_of (ic_currentState s2) = Hosting" using lan_view_mode [OF r(2)] assms(4) by simp
  have "mc_CreateNetwork ?e a (map pass_of arrivals) ?req [] (pool, c, s) =
      Inr (if ?ok then ResultSuccess else MAKERESULT 0xFD 2, pool', c', s')"
    using r(1) cw assms(5) cfg1
    by (simp add: mc_CreateNetwork_def disable_unlocked [OF u] EnsureConnected_def conn DisconnectInternal_def
        create_request_def)
  then have "ic_CreateNetwork ?e a (map pass_of arrivals) cfg d (pool, Some c, s) =
      Inr (if ?ok then ResultSuccess else MAKERESULT 0xFD 2, pool', Some c', s')"
    using assms(4,8) by (simp add: ic_CreateNetwork_def Let_def create_request_def strip_passphrase_def on_client_def)
  moreover have "ic_currentState s' = AccessPointCreated \<and> ic_networkInfo s' = ?info" if ?ok
    using that r(3) cw m
    by (auto simp: notify_def service_env_def Let_def onNetworkChange_state enter_def mode_of_simps)
  ultimately show ?thesis by blast
qed

definition demo_network :: CreateNetworkConfig where
  "demo_network = get_CreateNetworkConfig (replicate 152 0)"

lemma wf_demo_network: "wf_CreateNetworkConfig demo_network"
  unfolding demo_network_def by (rule CreateNetworkConfig_wire.wf_get) simp

theorem CreateNetwork_reports_dummy_witness:
  "\<exists>pool c s. ic_CreateNetwork demo_env undefined (map pass_of (one_packet PacketId_Connected)) (LdnConfig_initial 3 None)
       demo_network (zero_pool, Some demo_linked, demo_service AccessPoint) = Inr (ResultSuccess, pool, Some c, s)
     \<and> ic_currentState s = AccessPointCreated \<and> ic_networkInfo s = dummyInfo (cnc_networkConfig demo_network) []"
proof -
  have "length (mc_gameVersion demo_linked) = 16"
    by (simp add: demo_linked_def demo_client_def LdnMasterProxyClient_new_def)
  then show ?thesis
    using CreateNetwork_reports_dummy [where n = True and base = demo_base and cfg = "LdnConfig_initial 3 None"
        and a = undefined, OF demo_service_linked _ info_arrives(1) _ _ _ wf_demo_network no_passphrase, of AccessPoint]
      free_for_zero_pool [of 3] by auto
qed

section \<open>Where the state goes wrong\<close>

text \<open>
  A \<open>SyncNetwork\<close> packet that arrives after the game has left its network, or after the server has
  closed it, takes the service back into it. The service reports \<open>AccessPointCreated\<close> while the client is
  not connected to any network: advertise data is refused with (0xFD, 3), and destroying the network
  sends nothing to the server.
\<close>

theorem late_sync_enters_network:
  assumes "linked proxy_ok t0 (pool, c, s)" and "arriving (service_env n base) t0 pool c arrivals [onSyncNetwork h i]"
    and "ic_currentState s = AccessPoint" and "\<not> mc_networkConnected c" and "length d \<le> AdvertiseDataSizeMax"
  shows "\<exists>pool' c' s'. WorkerLoop (service_env n base) (map pass_of arrivals) (pool, c, s) = Inr (pool', c', s')
    \<and> ic_currentState s' = AccessPointCreated \<and> ic_networkInfo s' = i \<and> \<not> mc_networkConnected c'
    \<and> ic_SetAdvertiseData d (pool', Some c', s') = Inr (MAKERESULT 0xFD 3, pool', Some c', s')
    \<and> ic_DestroyNetwork (service_env n base) (pool', Some c', s') =
        Inr (ResultSuccess, pool', Some c', setState AccessPoint s')"
proof -
  obtain pool' c' s' where w: "WorkerLoop (service_env n base) (map pass_of arrivals) (pool, c, s) = Inr (pool', c', s')"
      "lan_view (c', s') = fold lan_step [onSyncNetwork h i] (lan_view (c, s))"
    using packets_run [OF assms(1,2)] by blast
  then have v: "ic_currentState s' = AccessPointCreated" "\<not> mc_networkConnected c'" "ic_networkInfo s' = i"
    using assms(3,4) by (simp_all add: lan_view_def enter_def)
  then show ?thesis
    using w(1) assms(5)
    by (simp add: ic_SetAdvertiseData_def on_client_def mc_SetAdvertiseData_def ic_DestroyNetwork_def
        leave_network_def mc_DisconnectNetwork_def)
qed

theorem late_sync_enters_network_witness:
  "\<exists>pool c s. WorkerLoop demo_env (map pass_of (one_packet PacketId_SyncNetwork))
       (zero_pool, demo_linked, demo_service AccessPoint) = Inr (pool, c, s)
     \<and> ic_currentState s = AccessPointCreated \<and> ic_SetAdvertiseData [] (pool, Some c, s) = Inr (MAKERESULT 0xFD 3, pool, Some c, s)"
  using late_sync_enters_network [where n = True and base = demo_base and d = "[]", OF demo_service_linked info_arrives(2),
      of AccessPoint]
  by auto

text \<open>
  A second \<open>ProxyConfig\<close> splits the service's address in two. The virtual network proxy keeps the
  address of the first configuration, while \<open>GetIpv4Address\<close> answers with the second: a game that binds
  to the address it was told does not own the address its packets are sent from.
\<close>

theorem second_config_splits_address:
  assumes "linked proxy_ok t0 (pool, c, s)" and "arriving (service_env n base) t0 pool c arrivals [onProxyConfig h config]"
    and "ic_ryuldnProxy s = Some px" and "in_network (ic_currentState s)" and "pcf_proxyIp config \<noteq> 0"
  shows "\<exists>pool' c' s'. WorkerLoop (service_env n base) (map pass_of arrivals) (pool, c, s) = Inr (pool', c', s')
    \<and> ic_GetIpv4Address nifm (pool', Some c', s') =
        (ResultSuccess, Some (pcf_proxyIp config, pcf_proxySubnetMask config))
    \<and> ic_ryuldnProxy s' = Some px"
proof -
  obtain pool' c' s' where w: "WorkerLoop (service_env n base) (map pass_of arrivals) (pool, c, s) = Inr (pool', c', s')"
      "(core c', s') = fold (client_effect (service_env n base) service_effect) [onProxyConfig h config] (core c, s)"
    using packets_effect [OF assms(1,2)] by blast
  then have e: "core c' = (core c)\<lparr>mc_config := config\<rparr>" "s' = s"
    using assms(3) by (simp_all add: client_effect_def service_effect_def ldn_event_def mc_handler_defs
        service_env_def onProxyConfig_service_def)
  then have "mc_config c' = config" using arg_cong [OF e(1) [unfolded core_def], of mc_config] by simp
  then show ?thesis
    using w(1) e(2) assms(3-5) by (auto simp: ic_GetIpv4Address_def in_network_def)
qed

definition demo_config2 :: ProxyConfig where
  "demo_config2 = \<lparr>pcf_proxyIp = 0x0A720002, pcf_proxySubnetMask = 0xFFFF0000\<rparr>"

lemma put_ProxyConfig_length: "length (put_ProxyConfig x) = 8"
  by (rule ProxyConfig_wire.length_put_wf) (simp add: wf_ProxyConfig_def)

lemma get_put_ProxyConfig: "get_ProxyConfig (put_ProxyConfig x) = x"
  by (rule ProxyConfig_wire.get_put_end_wf) (simp add: wf_ProxyConfig_def)

lemma config_arrives:
  "arriving (service_env n base) 0 zero_pool demo_linked [(packet PacketId_ProxyConfig (put_ProxyConfig x), 0)]
     [onProxyConfig (packet_header PacketId_ProxyConfig 8) x]"
proof -
  have "put_ProxyConfig x \<noteq> []" using put_ProxyConfig_length [of x] by auto
  then show ?thesis
    using service_arriving [of "[(PacketId_ProxyConfig, put_ProxyConfig x)]" n base
        "[onProxyConfig (packet_header PacketId_ProxyConfig 8) x]" demo_linked zero_pool]
    by (simp add: pending_new frame_event_packet service_registers mc_registers_def HandleStruct_def ParseStruct_def
        put_ProxyConfig_length get_put_ProxyConfig)
qed

theorem second_config_splits_address_witness:
  "\<exists>pool c s. WorkerLoop demo_env (map pass_of [(packet PacketId_ProxyConfig (put_ProxyConfig demo_config2), 0)])
       (zero_pool, demo_linked, (demo_service StationConnected)\<lparr>ic_ryuldnProxy := Some (LdnProxy_new demo_config)\<rparr>) = Inr (pool, c, s)
     \<and> ic_GetIpv4Address (ResultSuccess, 0, 0) (pool, Some c, s) =
         (ResultSuccess, Some (pcf_proxyIp demo_config2, pcf_proxySubnetMask demo_config2))
     \<and> ic_ryuldnProxy s = Some (LdnProxy_new demo_config)"
proof -
  let ?s = "(demo_service StationConnected)\<lparr>ic_ryuldnProxy := Some (LdnProxy_new demo_config)\<rparr>"
  have l: "linked proxy_ok 0 (zero_pool, demo_linked, ?s)"
    using demo_linked_linked by (simp add: linked_def proxy_ok_def px_inv_new)
  have "pcf_proxyIp demo_config2 \<noteq> 0"
    by (simp add: demo_config2_def)
  then show ?thesis
    using second_config_splits_address [where n = True and base = demo_base and nifm = "(ResultSuccess, 0, 0)", OF l config_arrives]
    by (simp add: in_network_def)
qed

text \<open>
  A start that fails takes the process down. When the thread of the master client cannot be created,
  or when the uninitialised flag \<open>_constructionFailed\<close> happens to be set, \<open>Initialize\<close> deletes the
  client, whose destructor waits for a thread that was never created.
\<close>

theorem failed_start_faults:
  assumes "su_client su" and "su_event su" and "su_failed su \<or> su_thread su \<noteq> ResultSuccess"
  shows "ic_Initialize env su cfg (pool, None, s) = Inl InvalidThread"
proof -
  let ?c = "LdnMasterProxyClient_new (su_failed su) (su_config su) (su_info su) (GetServerAddress cfg) (GetServerPort cfg) True"
  let ?t = "?c\<lparr>mc_timeout := Some (NetworkTimeout_new InactiveTimeout)\<rparr>"
  have c: "\<not> mc_stop ?c" "mc_socket ?c < 0" "\<not> mc_thread ?c" "mc_timeout ?c = None"
      "\<not> nt_locked (NetworkTimeout_new InactiveTimeout)" "mc_constructionFailed ?c = su_failed su"
    by (simp_all add: LdnMasterProxyClient_new_def NetworkTimeout_new_def)
  have "delete_client env ?c (pool, oc, x) = Inl InvalidThread" "delete_client env ?t (pool, oc, x) = Inl InvalidThread" for oc x
    using c by (simp_all add: new_client_undeletable)
  then show ?thesis
    using assms c(6) by (auto simp: ic_Initialize_def Let_def IsConstructionSuccessful_def mc_Initialize_def)
qed

theorem failed_start_faults_witness:
  "ic_Initialize demo_env (demo_startup\<lparr>su_thread := Module_Libnx OutOfMemory\<rparr>) (LdnConfig_initial 3 None)
     (zero_pool, None, ICommunicationService_new) = Inl InvalidThread"
  by (rule failed_start_faults) (simp_all add: demo_startup_def)

end
