(* ===== verification/Logging.thy ===== *)
theory Logging
  imports Ldn_Config
begin

text \<open>
  The log: \<open>debug.hpp\<close> and \<open>debug.cpp\<close>. A message is its text after formatting; the file system is a
  parameter of each operation, the console and the debug output of the kernel are recorded. The mutex of
  the log is held for one message; nothing inside takes it again.
\<close>

section \<open>The state of the log\<close>

definition LOG_BUFFER_SIZE :: nat where "LOG_BUFFER_SIZE = 1024"

record LogState =
  lg_buffer :: string
  lg_stdout :: string
  lg_debug :: "string list"
  lg_file :: "string option"

definition LogState_initial :: "string option \<Rightarrow> LogState" where
  "LogState_initial f = \<lparr>lg_buffer = replicate LOG_BUFFER_SIZE NUL, lg_stdout = [], lg_debug = [], lg_file = f\<rparr>"

text \<open>Answers of the file system: to opening the file, asking for its size, and writing.\<close>

record LogAnswers =
  la_open :: bool
  la_size :: bool
  la_write :: bool

definition la_ok :: LogAnswers where "la_ok = \<lparr>la_open = True, la_size = True, la_write = True\<rparr>"

text \<open>A write at an offset, into a file opened with leave to grow.\<close>

definition write_at :: "nat \<Rightarrow> string \<Rightarrow> string \<Rightarrow> string" where
  "write_at off data f = take off f @ replicate (off - length f) NUL @ data @ drop (off + length data) f"

text \<open>The file is opened, its size is the offset (0 when the size is refused), and the text is written there.\<close>

definition append_file :: "LogAnswers \<Rightarrow> string \<Rightarrow> LogState \<Rightarrow> LogState" where
  "append_file a data s =
     (case lg_file s of
        None \<Rightarrow> s
      | Some f \<Rightarrow>
          if la_open a \<and> la_write a
          then s\<lparr>lg_file := Some (write_at (if la_size a then length f else 0) data f)\<rparr>
          else s)"

section \<open>Messages\<close>

text \<open>\<open>vsnprintf\<close>: the text that fits and a zero; the length it returns is that of the whole text.\<close>

definition vsnprintf :: "string \<Rightarrow> string \<Rightarrow> string \<times> nat" where
  "vsnprintf buf t =
     (let k = min (length t) (length buf - 1) in (take k t @ [NUL] @ drop (Suc k) buf, length t))"

text \<open>Reading \<open>n\<close> bytes from an array.\<close>

definition read_array :: "string \<Rightarrow> nat \<Rightarrow> string run" where
  "read_array buf n = (if n \<le> length buf then Inr (take n buf) else Inl BufferOverrun)"

definition LogFormatImpl :: "LogAnswers \<Rightarrow> bool \<Rightarrow> string \<Rightarrow> LogState \<Rightarrow> LogState run" where
  "LogFormatImpl a enabled t s =
     (let (buf, len) = vsnprintf (lg_buffer s) t;
          s = s\<lparr>lg_buffer := buf\<rparr> in
      if 0 < len then
        let s = s\<lparr>lg_stdout := lg_stdout s @ c_str buf\<rparr> in
        bind_run (read_array buf len) (\<lambda>out.
          let s = s\<lparr>lg_debug := lg_debug s @ [out]\<rparr> in
          Inr (if enabled then append_file a out s else s))
      else Inr s)"

datatype ComponentId =
    COMP_MAIN | COMP_LDN_ICOM | COMP_RLDN_PROTOCOL | COMP_RLDN_PROXY | COMP_RLDN_PROXY_SOC | COMP_RLDN_P2P_SRV
  | COMP_RLDN_P2P_CLI | COMP_RLDN_P2P_SES | COMP_RLDN_UPNP | COMP_RLDN_MASTER | COMP_RLDN_CLI
  | COMP_RLDN_BUFPOOL | COMP_LDN_MONITOR | COMP_BSD_MITM_SVC

fun gCompPrefixes :: "ComponentId \<Rightarrow> string" where
  "gCompPrefixes COMP_MAIN = ''[MAIN] ''"
| "gCompPrefixes COMP_LDN_ICOM = ''[LDN-ICOMM] ''"
| "gCompPrefixes COMP_RLDN_PROTOCOL = ''[RLDN-PROTOCOL] ''"
| "gCompPrefixes COMP_RLDN_PROXY = ''[RLDN-PROXY] ''"
| "gCompPrefixes COMP_RLDN_PROXY_SOC = ''[RLDN-PROXY-SOC] ''"
| "gCompPrefixes COMP_RLDN_P2P_SRV = ''[RLDN-P2P-SRV] ''"
| "gCompPrefixes COMP_RLDN_P2P_CLI = ''[RLDN-P2P-CLI] ''"
| "gCompPrefixes COMP_RLDN_P2P_SES = ''[RLDN-P2P-SES] ''"
| "gCompPrefixes COMP_RLDN_UPNP = ''[RLDN-UPNP] ''"
| "gCompPrefixes COMP_RLDN_MASTER = ''[RLDN-MASTER] ''"
| "gCompPrefixes COMP_RLDN_CLI = ''[RLDN-CLI] ''"
| "gCompPrefixes COMP_RLDN_BUFPOOL = ''[RLDN-BUFPOOL] ''"
| "gCompPrefixes COMP_LDN_MONITOR = ''[LDN-MONITOR] ''"
| "gCompPrefixes COMP_BSD_MITM_SVC = ''[BSD-MITM-SVC] ''"

definition gLevelPrefixes :: "string list" where
  "gLevelPrefixes = [[], ''[ERR] '', ''[WARN] '', ''[INFO] '', ''[DBG] '', ''[TRC] '']"

text \<open>The macros: a message of level \<open>lvl\<close> is formatted when the level in force is at least that.\<close>

definition log_text :: "ComponentId \<Rightarrow> nat \<Rightarrow> string \<Rightarrow> string" where
  "log_text cid lvl t = gCompPrefixes cid @ gLevelPrefixes ! lvl @ t @ [newline]"

definition LOG_COMP :: "LogAnswers \<Rightarrow> bool \<Rightarrow> u32 \<Rightarrow> ComponentId \<Rightarrow> nat \<Rightarrow> string \<Rightarrow> LogState \<Rightarrow> LogState run" where
  "LOG_COMP a enabled el cid lvl t s =
     (if of_nat lvl \<le> el then LogFormatImpl a enabled (log_text cid lvl t) s else Inr s)"

definition LogHeapUsage :: "LogAnswers \<Rightarrow> bool \<Rightarrow> u32 \<Rightarrow> string \<Rightarrow> LogState \<Rightarrow> LogState run" where
  "LogHeapUsage a enabled el tag s =
     (if el < 3 then Inr s else LogFormatImpl a enabled (''['' @ tag @ ''] Heap usage check'' @ [newline]) s)"

section \<open>Hex dumps\<close>

definition hex_digit :: "nat \<Rightarrow> char" where "hex_digit n = ''0123456789abcdef'' ! n"

definition hex2 :: "u8 \<Rightarrow> string" where
  "hex2 b = [hex_digit (unat b div 16), hex_digit (unat b mod 16)]"

text \<open>\<open>%08x\<close>\<close>

definition hex8 :: "nat \<Rightarrow> string" where
  "hex8 n = map (\<lambda>k. hex_digit (n div 16 ^ k mod 16)) [7, 6, 5, 4, 3, 2, 1, 0]"

definition printable :: "u8 \<Rightarrow> char" where
  "printable c = (if 32 \<le> c \<and> c < 127 then char_of (unat c) else CHR ''.'')"

text \<open>The columns of a line from column \<open>16 - n\<close> on, with the bytes that are left.\<close>

fun hex_columns :: "nat \<Rightarrow> bytes \<Rightarrow> string" where
  "hex_columns 0 row = []"
| "hex_columns (Suc n) row =
     (case row of b # _ \<Rightarrow> hex2 b @ '' '' | [] \<Rightarrow> ''   '') @ (if n = 8 then '' '' else []) @ hex_columns n (tl row)"

definition hex_line :: "nat \<Rightarrow> bytes \<Rightarrow> string" where
  "hex_line i row = hex8 i @ '': '' @ hex_columns 16 row @ '' |'' @ map printable row @ ''|'' @ [newline]"

function hex_lines :: "nat \<Rightarrow> bytes \<Rightarrow> string" where
  "hex_lines i bytes =
     (if bytes = [] then [] else hex_line i (take 16 bytes) @ hex_lines (i + 16) (drop 16 bytes))"
  by pat_completeness auto
termination by (relation "measure (\<lambda>(_, bytes). length bytes)") (auto simp: length_greater_0_conv [symmetric] simp del: length_greater_0_conv)

declare hex_lines.simps [simp del]

definition LogHexImpl :: "bytes option \<Rightarrow> int \<Rightarrow> LogState \<Rightarrow> LogState run" where
  "LogHexImpl data size' s =
     (case data of
        None \<Rightarrow> Inr s
      | Some bytes \<Rightarrow>
          if size' \<le> 0 then Inr s
          else if nat size' \<le> length bytes
            then Inr (s\<lparr>lg_stdout := lg_stdout s @ hex_lines 0 (take (nat size') bytes)\<rparr>)
            else Inl BufferOverrun)"

definition LOG_HEX :: "LogAnswers \<Rightarrow> bool \<Rightarrow> u32 \<Rightarrow> ComponentId \<Rightarrow> bytes option \<Rightarrow> int \<Rightarrow> LogState \<Rightarrow> LogState run" where
  "LOG_HEX a enabled el cid data size' s =
     (if 4 \<le> el then
        bind_run (LogFormatImpl a enabled
          (gCompPrefixes cid @ ''Hex dump ('' @ (if size' < 0 then ''-'' else []) @ to_string (nat \<bar>size'\<bar>) @ '' bytes):'' @ [newline]) s) (\<lambda>s.
          LogHexImpl data size' s)
      else Inr s)"

section \<open>Sessions\<close>

text \<open>
  \<open>Initialize\<close> makes the file if there is none; \<open>has\<close> and \<open>made\<close> are the answers to the question whether
  there is one and to making it.
\<close>

definition log_header :: string where
  "log_header = [newline] @ ''=== RyuLDN Log Session Started ==='' @ [newline]"

definition log_footer :: string where
  "log_footer = ''=== RyuLDN Log Session Ended ==='' @ [newline, newline]"

definition log_Initialize :: "bool \<Rightarrow> bool \<Rightarrow> LogAnswers \<Rightarrow> LogState \<Rightarrow> LogState" where
  "log_Initialize has made a s =
     (let s = (if has \<and> lg_file s = None \<and> made then s\<lparr>lg_file := Some []\<rparr> else s) in
      append_file a log_header s)"

definition log_Finalize :: "LogAnswers \<Rightarrow> LogState \<Rightarrow> LogState" where
  "log_Finalize a s = append_file a log_footer s"

section \<open>What is written\<close>

lemma write_at_end [simp]: "write_at (length f) data f = f @ data"
  by (simp add: write_at_def)

lemma append_file_ok [simp]: "append_file la_ok data s = s\<lparr>lg_file := map_option (\<lambda>f. f @ data) (lg_file s)\<rparr>"
  by (simp add: append_file_def la_ok_def split: option.split)

lemma append_file_stdout [simp]: "lg_stdout (append_file a data s) = lg_stdout s"
  by (simp add: append_file_def split: option.split)

lemma vsnprintf_fits:
  assumes "length t < length buf" and "NUL \<notin> set t"
  shows "vsnprintf buf t = (t @ [NUL] @ drop (Suc (length t)) buf, length t)"
  using assms by (auto simp: vsnprintf_def min_def Let_def)

lemma LogFormatImpl_fits:
  assumes "length (lg_buffer s) = LOG_BUFFER_SIZE" and "length t < LOG_BUFFER_SIZE" and "NUL \<notin> set t" and "t \<noteq> []"
  shows "\<exists>b. length b = LOG_BUFFER_SIZE \<and> LogFormatImpl la_ok enabled t s =
    Inr (s\<lparr>lg_buffer := b, lg_stdout := lg_stdout s @ t, lg_debug := lg_debug s @ [t],
           lg_file := if enabled then map_option (\<lambda>f. f @ t) (lg_file s) else lg_file s\<rparr>)"
proof -
  let ?b = "t @ [NUL] @ drop (Suc (length t)) (lg_buffer s)"
  have "c_str ?b = t" using c_str_append_NUL [OF assms(3)] by simp
  moreover have "read_array ?b (length t) = Inr t" by (simp add: read_array_def)
  moreover have "vsnprintf (lg_buffer s) t = (?b, length t)" using assms(1-3) by (simp add: vsnprintf_fits)
  moreover have "length ?b = LOG_BUFFER_SIZE" using assms(1,2) by simp
  ultimately show ?thesis
    using assms(4) by (intro exI [of _ ?b] conjI) (simp_all add: LogFormatImpl_def Let_def)
qed

text \<open>A message of more than 1024 characters is cut in the buffer, and as many bytes as it had are read from there.\<close>

lemma LogFormatImpl_overruns:
  assumes "length (lg_buffer s) = LOG_BUFFER_SIZE" and "LOG_BUFFER_SIZE < length t"
  shows "LogFormatImpl a enabled t s = Inl BufferOverrun"
  using assms by (auto simp: LogFormatImpl_def vsnprintf_def Let_def read_array_def min_def LOG_BUFFER_SIZE_def)

text \<open>A run of messages.\<close>

fun log_all :: "bool \<Rightarrow> u32 \<Rightarrow> (ComponentId \<times> nat \<times> string) list \<Rightarrow> LogState \<Rightarrow> LogState run" where
  "log_all enabled el [] s = Inr s"
| "log_all enabled el ((cid, lvl, t) # ms) s =
     bind_run (LOG_COMP la_ok enabled el cid lvl t s) (log_all enabled el ms)"

definition log_lines :: "u32 \<Rightarrow> (ComponentId \<times> nat \<times> string) list \<Rightarrow> string" where
  "log_lines el ms = concat (map (\<lambda>(cid, lvl, t). log_text cid lvl t) (filter (\<lambda>(cid, lvl, t). of_nat lvl \<le> el) ms))"

definition fits :: "ComponentId \<times> nat \<times> string \<Rightarrow> bool" where
  "fits m \<longleftrightarrow> (case m of (cid, lvl, t) \<Rightarrow> length (log_text cid lvl t) < 1024 \<and> NUL \<notin> set (log_text cid lvl t))"

lemma log_all_file:
  assumes "length (lg_buffer s) = LOG_BUFFER_SIZE" and "\<forall>m \<in> set ms. fits m"
  shows "\<exists>s'. log_all enabled el ms s = Inr s' \<and> length (lg_buffer s') = LOG_BUFFER_SIZE
    \<and> lg_file s' = (if enabled then map_option (\<lambda>f. f @ log_lines el ms) (lg_file s) else lg_file s)
    \<and> lg_stdout s' = lg_stdout s @ log_lines el ms"
  using assms
proof (induction ms arbitrary: s)
  case (Cons m ms)
  obtain cid lvl t where m: "m = (cid, lvl, t)" by (cases m)
  let ?t = "log_text cid lvl t"
  have t: "length ?t < LOG_BUFFER_SIZE" "NUL \<notin> set ?t" "?t \<noteq> []"
    using Cons.prems(2) m by (simp_all add: fits_def LOG_BUFFER_SIZE_def) (simp add: log_text_def)
  have ms: "\<forall>m \<in> set ms. fits m" using Cons.prems(2) by simp
  show ?case
  proof (cases "of_nat lvl \<le> el")
    case True
    obtain b where b: "length b = LOG_BUFFER_SIZE" "LogFormatImpl la_ok enabled ?t s =
        Inr (s\<lparr>lg_buffer := b, lg_stdout := lg_stdout s @ ?t, lg_debug := lg_debug s @ [?t],
               lg_file := if enabled then map_option (\<lambda>f. f @ ?t) (lg_file s) else lg_file s\<rparr>)"
      using LogFormatImpl_fits [OF Cons.prems(1) t] by blast
    define s1 where "s1 = s\<lparr>lg_buffer := b, lg_stdout := lg_stdout s @ ?t, lg_debug := lg_debug s @ [?t],
               lg_file := if enabled then map_option (\<lambda>f. f @ ?t) (lg_file s) else lg_file s\<rparr>"
    have "log_all enabled el (m # ms) s = log_all enabled el ms s1" "log_lines el (m # ms) = ?t @ log_lines el ms"
      using b True m by (simp_all add: s1_def LOG_COMP_def log_lines_def)
    with Cons.IH [of s1, OF _ ms] b(1) show ?thesis
      by (cases enabled; cases "lg_file s") (simp_all add: s1_def)
  next
    case False
    then have "log_all enabled el (m # ms) s = log_all enabled el ms s" "log_lines el (m # ms) = log_lines el ms"
      using m by (simp_all add: LOG_COMP_def log_lines_def)
    then show ?thesis using Cons.IH [OF Cons.prems(1) ms] by (simp only:)
  qed
qed (simp add: log_lines_def option.map_ident)

section \<open>Reading a hex dump\<close>

fun unhex_digit :: "char \<Rightarrow> nat" where
  "unhex_digit c = length (takeWhile (\<lambda>d. d \<noteq> c) ''0123456789abcdef'')"

fun read_columns :: "nat \<Rightarrow> string \<Rightarrow> bytes" where
  "read_columns 0 s = []"
| "read_columns (Suc n) s =
     (if s ! 0 = CHR '' '' then []
      else of_nat (16 * unhex_digit (s ! 0) + unhex_digit (s ! 1)) # read_columns n (drop (if n = 8 then 4 else 3) s))"

text \<open>A line is ten characters of offset, sixteen columns, and the bytes as characters between two bars.\<close>

function undump :: "string \<Rightarrow> bytes" where
  "undump s =
     (if s = [] then []
      else let row = read_columns 16 (drop 10 s) in row @ undump (drop (63 + length row) s))"
  by pat_completeness auto
termination by (relation "measure length") (auto simp: length_greater_0_conv [symmetric] simp del: length_greater_0_conv)

declare undump.simps [simp del] hex_columns.simps(2) [simp del] read_columns.simps(2) [simp del] unhex_digit.simps [simp del]

lemma hex_digit_cases: "n < 16 \<Longrightarrow> unhex_digit (hex_digit n) = n \<and> hex_digit n \<noteq> CHR '' '' \<and> hex_digit n \<noteq> newline"
proof -
  assume "n < 16"
  then have "n \<in> set [0, 1, 2, 3, 4, 5, 6, 7, 8, 9, 10, 11, 12, 13, 14, 15]" by (simp; arith)
  moreover have "\<forall>n \<in> set [0, 1, 2, 3, 4, 5, 6, 7, 8, 9, 10, 11, 12, 13, 14, 15].
      unhex_digit (hex_digit n) = n \<and> hex_digit n \<noteq> CHR '' '' \<and> hex_digit n \<noteq> newline"
    by (simp add: hex_digit_def unhex_digit.simps newline_def)
  ultimately show ?thesis by blast
qed

lemma length_columns [simp]: "length (hex_columns n row) = 3 * n + (if 8 < n then 1 else 0)"
  by (induction n arbitrary: row) (auto simp: hex_columns.simps(2) hex2_def split: list.split)

lemma read_columns_hex: "length row \<le> n \<Longrightarrow> read_columns n (hex_columns n row @ rest) = row"
proof (induction n arbitrary: row)
  case (Suc n)
  show ?case
  proof (cases row)
    case Nil
    then show ?thesis by (simp add: hex_columns.simps(2) read_columns.simps(2))
  next
    case (Cons b bs)
    have l: "unat b < 256" using unat_bound [of b] by simp
    then have d: "unat b div 16 < 16" "unat b mod 16 < 16" by (simp_all add: less_mult_imp_div_less)
    have "(of_nat (16 * (unat b div 16) + unat b mod 16) :: u8) = b" by (simp only: mult_div_mod_eq of_nat_unat ucast_id)
    then show ?thesis
      using Cons Suc hex_digit_cases [OF d(1)] hex_digit_cases [OF d(2)]
      by (auto simp: hex_columns.simps(2) read_columns.simps(2) hex2_def)
  qed
qed simp

lemma undump_line:
  assumes "row \<noteq> []" and "length row \<le> 16"
  shows "undump (hex_line i row @ rest) = row @ undump rest"
proof -
  have "drop 10 (hex_line i row @ rest) = hex_columns 16 row @ '' |'' @ map printable row @ ''|'' @ [newline] @ rest"
    by (simp add: hex_line_def hex8_def)
  then have r: "read_columns 16 (drop 10 (hex_line i row @ rest)) = row" using read_columns_hex [OF assms(2)] by simp
  have l: "length (hex_line i row) = 63 + length row" by (simp add: hex_line_def hex8_def)
  then have d: "drop (63 + length row) (hex_line i row @ rest) = rest" by simp
  have "hex_line i row @ rest \<noteq> []" using l by (cases "hex_line i row") simp_all
  then show ?thesis by (subst undump.simps) (simp only: r d Let_def if_False)
qed

lemma undump_lines: "undump (hex_lines i bytes) = bytes"
proof (induction i bytes rule: hex_lines.induct)
  case (1 i bytes)
  show ?case
  proof (cases "bytes = []")
    case False
    then have "undump (hex_lines i bytes) = take 16 bytes @ undump (hex_lines (i + 16) (drop 16 bytes))"
      by (subst hex_lines.simps) (simp add: undump_line)
    with 1 [OF False] show ?thesis by simp
  qed (simp add: hex_lines.simps undump.simps)
qed

section \<open>Properties\<close>

text \<open>
  C26: the log of a session. With logging enabled the file holds, after what it held before, the header, every
  message whose level is at most the one in force with the prefixes of its component and level, in order,
  each exactly once, and the footer; with logging disabled the header and the footer only. The console gets
  the same messages either way.
\<close>

theorem log_file_collects:
  assumes "\<forall>m \<in> set ms. fits m"
  shows "\<exists>s. log_all enabled el ms (log_Initialize True True la_ok (LogState_initial f)) = Inr s
    \<and> lg_file (log_Finalize la_ok s) = Some ((case f of None \<Rightarrow> [] | Some old \<Rightarrow> old) @ log_header
         @ (if enabled then log_lines el ms else []) @ log_footer)
    \<and> lg_stdout s = log_lines el ms"
proof -
  let ?s = "log_Initialize True True la_ok (LogState_initial f)"
  let ?f = "(case f of None \<Rightarrow> [] | Some old \<Rightarrow> old) @ log_header"
  have i: "length (lg_buffer ?s) = LOG_BUFFER_SIZE" "lg_file ?s = Some ?f" "lg_stdout ?s = []"
    by (simp_all add: log_Initialize_def LogState_initial_def append_file_def la_ok_def write_at_def Let_def split: option.split)
  from log_all_file [OF i(1) assms, of enabled el] obtain s where
    s: "log_all enabled el ms ?s = Inr s" "lg_file s = Some (if enabled then ?f @ log_lines el ms else ?f)"
      "lg_stdout s = log_lines el ms" using i(2,3) by auto
  have "lg_file (log_Finalize la_ok s) = Some ((if enabled then ?f @ log_lines el ms else ?f) @ log_footer)"
    using s(2) by (simp add: log_Finalize_def)
  with s show ?thesis by (cases enabled) simp_all
qed

theorem log_file_collects_witness:
  "\<exists>s. log_all True 3 [(COMP_MAIN, 3, ''main''), (COMP_BSD_MITM_SVC, 4, ''Select'')]
      (log_Initialize True True la_ok (LogState_initial None)) = Inr s
    \<and> lg_file (log_Finalize la_ok s) = Some (log_header @ ''[MAIN] [INFO] main'' @ [newline] @ log_footer)"
proof -
  have "\<forall>m \<in> set [(COMP_MAIN, 3, ''main''), (COMP_BSD_MITM_SVC, 4, ''Select'')]. fits m"
    by (simp add: fits_def log_text_def gLevelPrefixes_def NUL_def newline_def)
  from log_file_collects [OF this, of True 3 None]
  show ?thesis by (auto simp: log_lines_def log_text_def gLevelPrefixes_def)
qed

text \<open>
  C27: the limit of a message. Formatting one of more than 1024 characters reads past the end of the buffer,
  whatever the file system answers; up to 1024 the message is always taken, and one of exactly 1024 loses its
  last character.
\<close>

theorem log_message_limit:
  assumes "length (lg_buffer s) = LOG_BUFFER_SIZE" and "lg_file s = Some f" and "NUL \<notin> set t"
  shows "if 1024 < length t then LogFormatImpl a enabled t s = Inl BufferOverrun
    else \<exists>s'. LogFormatImpl a enabled t s = Inr s' \<and> lg_stdout s' = lg_stdout s @ take 1023 t
      \<and> (a = la_ok \<and> enabled \<longrightarrow> lg_file s' = Some (f @ (if length t = 1024 then take 1023 t @ [NUL] else t)))"
proof (cases "1024 < length t")
  case True
  with LogFormatImpl_overruns [OF assms(1)] show ?thesis by (simp add: LOG_BUFFER_SIZE_def)
next
  case False
  define buf where "buf = take 1023 t @ [NUL] @ drop (Suc (min (length t) 1023)) (lg_buffer s)"
  have v: "vsnprintf (lg_buffer s) t = (buf, length t)"
    using assms(1) False by (auto simp: vsnprintf_def Let_def LOG_BUFFER_SIZE_def min_def buf_def)
  have l: "length buf = 1024" using assms(1) False by (simp add: LOG_BUFFER_SIZE_def buf_def)
  have "NUL \<notin> set (take 1023 t)" using assms(3) in_set_takeD by fastforce
  then have c: "c_str buf = take 1023 t" using c_str_append_NUL by (simp add: buf_def)
  have r: "read_array buf (length t) = Inr (take (length t) buf)" using l False by (simp add: read_array_def)
  have k: "take (length t) buf = (if length t = 1024 then take 1023 t @ [NUL] else t)"
    using False by (auto simp: min_def buf_def)
  show ?thesis
  proof (cases "t = []")
    case True
    with assms(2) v show ?thesis by (simp add: LogFormatImpl_def)
  next
    case nonempty: False
    with False assms(2) show ?thesis unfolding LogFormatImpl_def v Let_def split_conv c r k by simp
  qed
qed

theorem log_message_limit_witness:
  "LogFormatImpl la_ok False (replicate 1025 CHR ''x'') (LogState_initial (Some [])) = Inl BufferOverrun"
proof -
  have i: "length (lg_buffer (LogState_initial (Some []))) = LOG_BUFFER_SIZE" "lg_file (LogState_initial (Some [])) = Some []"
    by (simp_all add: LogState_initial_def)
  have t: "NUL \<notin> set (replicate 1025 CHR ''x'')" by (simp only: set_replicate_conv_if NUL_def) simp
  have "(1024 :: nat) < 1025" by simp
  with log_message_limit [OF i t, of la_ok False] show ?thesis by (simp only: length_replicate if_True)
qed

text \<open>
  A hex dump can be read back. What the dump of the first \<open>n\<close> bytes of a block prints, for every \<open>n\<close> up
  to its size, decodes to those bytes; asking for more than there are reads past the end, and a dump of
  nothing prints nothing.
\<close>

theorem hex_dump_reads_back:
  "LogHexImpl (Some data) (int n) s =
     (if n \<le> length data then Inr (s\<lparr>lg_stdout := lg_stdout s @ hex_lines 0 (take n data)\<rparr>) else Inl BufferOverrun)
   \<and> undump (hex_lines 0 (take n data)) = take n data \<and> LogHexImpl None (int n) s = Inr s"
  by (simp add: LogHexImpl_def undump_lines hex_lines.simps [of 0 "[]"])

end
