(* ===== verification/Ldn_Module.thy ===== *)
theory Ldn_Module
  imports Icommunication Logging
begin

text \<open>
  The start of the module and the objects it hands out: \<open>ryuldnnx_main.cpp\<close>, \<open>ryuldnnx_service.cpp\<close>,
  \<open>ldn_client_process_monitor.cpp\<close> and \<open>ipinfo.cpp\<close>. The heaps and services of the system are parameters; a
  failed \<open>R_ABORT_UNLESS\<close> is the value \<open>Aborted\<close>.
\<close>

section \<open>The heap\<close>

text \<open>
  \<open>create\<close> is what \<open>lmem::CreateExpHeap\<close> makes of the 512 KB of static memory, \<open>alloc\<close> and \<open>free\<close> are its
  operations. The handle is made by the first call.
\<close>

definition GetHeapHandle :: "'h \<Rightarrow> 'h option \<Rightarrow> 'h" where
  "GetHeapHandle create g_heap = (case g_heap of None \<Rightarrow> create | Some h \<Rightarrow> h)"

definition Allocate :: "'h \<Rightarrow> ('h \<Rightarrow> nat \<Rightarrow> nat option \<times> 'h) \<Rightarrow> nat \<Rightarrow> 'h option \<Rightarrow> nat option \<times> 'h option" where
  "Allocate create alloc size' g = (let (p, h) = alloc (GetHeapHandle create g) size' in (p, Some h))"

definition Deallocate :: "'h \<Rightarrow> ('h \<Rightarrow> nat option \<Rightarrow> 'h) \<Rightarrow> nat option \<Rightarrow> 'h option \<Rightarrow> 'h option" where
  "Deallocate create free p g = Some (free (GetHeapHandle create g) p)"

text \<open>Who asks for memory: the C library, and the operators of C++; the alignment is dropped.\<close>

datatype MemoryCall =
    libnx_alloc nat | libnx_aligned_alloc nat nat | libnx_free "nat option"
  | operator_new nat | operator_new_nothrow nat | operator_delete "nat option" | operator_delete_sized "nat option" nat
  | operator_new_array nat | operator_new_array_nothrow nat | operator_delete_array "nat option"
  | operator_delete_array_sized "nat option" nat

fun memory_call ::
    "'h \<Rightarrow> ('h \<Rightarrow> nat \<Rightarrow> nat option \<times> 'h) \<Rightarrow> ('h \<Rightarrow> nat option \<Rightarrow> 'h) \<Rightarrow> MemoryCall \<Rightarrow> 'h option \<Rightarrow> nat option \<times> 'h option" where
  "memory_call create alloc free (libnx_alloc n) g = Allocate create alloc n g"
| "memory_call create alloc free (libnx_aligned_alloc alignment n) g = Allocate create alloc n g"
| "memory_call create alloc free (libnx_free p) g = (None, Deallocate create free p g)"
| "memory_call create alloc free (operator_new n) g = Allocate create alloc n g"
| "memory_call create alloc free (operator_new_nothrow n) g = Allocate create alloc n g"
| "memory_call create alloc free (operator_delete p) g = (None, Deallocate create free p g)"
| "memory_call create alloc free (operator_delete_sized p n) g = (None, Deallocate create free p g)"
| "memory_call create alloc free (operator_new_array n) g = Allocate create alloc n g"
| "memory_call create alloc free (operator_new_array_nothrow n) g = Allocate create alloc n g"
| "memory_call create alloc free (operator_delete_array p) g = (None, Deallocate create free p g)"
| "memory_call create alloc free (operator_delete_array_sized p n) g = (None, Deallocate create free p g)"

section \<open>The memory of the socket library\<close>

record SocketInitConfig =
  tcp_tx_buf_size :: u32
  tcp_rx_buf_size :: u32
  tcp_tx_buf_max_size :: u32
  tcp_rx_buf_max_size :: u32
  udp_tx_buf_size :: u32
  udp_rx_buf_size :: u32
  sb_efficiency :: u32
  num_bsd_sessions :: u32

text \<open>\<open>align_up\<close> is \<open>util::AlignUp\<close>.\<close>

definition MemoryPageSize :: u32 where "MemoryPageSize = 0x1000"

definition GetLibnxBsdTransferMemorySize :: "(u32 \<Rightarrow> u32 \<Rightarrow> u32) \<Rightarrow> SocketInitConfig \<Rightarrow> u32" where
  "GetLibnxBsdTransferMemorySize align_up config =
     (let tx = (if tcp_tx_buf_max_size config \<noteq> 0 then tcp_tx_buf_max_size config else tcp_tx_buf_size config);
          rx = (if tcp_rx_buf_max_size config \<noteq> 0 then tcp_rx_buf_max_size config else tcp_rx_buf_size config);
          sum = tx + rx + udp_tx_buf_size config + udp_rx_buf_size config in
      sb_efficiency config * align_up sum MemoryPageSize)"

definition LibnxSocketInitConfig :: SocketInitConfig where
  "LibnxSocketInitConfig =
     \<lparr>tcp_tx_buf_size = 0x800, tcp_rx_buf_size = 0x1000, tcp_tx_buf_max_size = 0x2000, tcp_rx_buf_max_size = 0x2000,
      udp_tx_buf_size = 0x2000, udp_rx_buf_size = 0x2000, sb_efficiency = 4, num_bsd_sessions = 3\<rparr>"

record BsdInitConfig =
  bc_version :: u32
  bc_tmem_buffer_size :: u32
  bc_tcp_tx_buf_size :: u32
  bc_tcp_rx_buf_size :: u32
  bc_tcp_tx_buf_max_size :: u32
  bc_tcp_rx_buf_max_size :: u32
  bc_udp_tx_buf_size :: u32
  bc_udp_rx_buf_size :: u32
  bc_sb_efficiency :: u32

definition LibnxBsdInitConfig :: "(u32 \<Rightarrow> u32 \<Rightarrow> u32) \<Rightarrow> BsdInitConfig" where
  "LibnxBsdInitConfig align_up =
     (let s = LibnxSocketInitConfig in
      \<lparr>bc_version = 1, bc_tmem_buffer_size = GetLibnxBsdTransferMemorySize align_up s,
       bc_tcp_tx_buf_size = tcp_tx_buf_size s, bc_tcp_rx_buf_size = tcp_rx_buf_size s,
       bc_tcp_tx_buf_max_size = tcp_tx_buf_max_size s, bc_tcp_rx_buf_max_size = tcp_rx_buf_max_size s,
       bc_udp_tx_buf_size = udp_tx_buf_size s, bc_udp_rx_buf_size = udp_rx_buf_size s,
       bc_sb_efficiency = sb_efficiency s\<rparr>)"

section \<open>The start\<close>

record Module =
  md_log :: LogState
  md_config :: LdnConfig
  md_pool :: "BufferPool option"

definition Module_initial :: "string option \<Rightarrow> string option \<Rightarrow> Module" where
  "Module_initial log_file ini = \<lparr>md_log = LogState_initial log_file, md_config = LdnConfig_initial 3 ini, md_pool = None\<rparr>"

datatype 'a boot = Aborted | Running 'a

definition R_ABORT_UNLESS :: "bool \<Rightarrow> 'a boot run \<Rightarrow> 'a boot run" where
  "R_ABORT_UNLESS ok k = (if ok then k else Inr Aborted)"

text \<open>The answers of the system to the calls of the start.\<close>

record BootAnswers =
  ba_sm :: bool
  ba_mount :: bool
  ba_read :: bool
  ba_mem :: "bytes list option"
  ba_nifm :: bool
  ba_bsd :: bool
  ba_socket :: bool
  ba_has_file :: bool
  ba_made_file :: bool
  ba_register :: bool
  ba_thread :: bool
  ba_log :: LogAnswers

definition md_LOG :: "LogAnswers \<Rightarrow> ComponentId \<Rightarrow> nat \<Rightarrow> string \<Rightarrow> Module \<Rightarrow> Module run" where
  "md_LOG a cid lvl t m =
     bind_run (LOG_COMP a (IsLoggingEnabled (md_config m)) (cfg_gLogLevel (md_config m)) cid lvl t (md_log m)) (\<lambda>l.
       Inr (m\<lparr>md_log := l\<rparr>))"

definition boot_config_text :: "LdnConfig \<Rightarrow> string" where
  "boot_config_text c =
     ''Logging config: enabled='' @ to_string (if IsLoggingEnabled c then 1 else 0) @ '' level='' @
     to_string (unat (GetLoggingLevelValue c))"

definition InitializeSystemModule :: "BootAnswers \<Rightarrow> Module \<Rightarrow> Module boot run" where
  "InitializeSystemModule a m =
     R_ABORT_UNLESS (ba_sm a)
    (R_ABORT_UNLESS (ba_mount a)
    (let m = m\<lparr>md_config := LdnConfig_Initialize (ba_read a) (md_config m)\<rparr> in
     bind_run (md_LOG (ba_log a) COMP_MAIN 3 (boot_config_text (md_config m)) m) (\<lambda>m.
     let (r, pool) = InitializeBufferPool (ba_mem a) (md_pool m) in
     R_ABORT_UNLESS (r = ResultSuccess)
    (let m = m\<lparr>md_pool := pool\<rparr> in
     bind_run (md_LOG (ba_log a) COMP_RLDN_BUFPOOL 3 ''BufferPool initialized with 3 shared buffers'' m) (\<lambda>m.
     R_ABORT_UNLESS (ba_nifm a) (R_ABORT_UNLESS (ba_bsd a) (R_ABORT_UNLESS (ba_socket a) (Inr (Running m)))))))))"

definition Main_start :: "BootAnswers \<Rightarrow> Module \<Rightarrow> Module boot run" where
  "Main_start a m =
     (let m = m\<lparr>md_log := log_Initialize (ba_has_file a) (ba_made_file a) (ba_log a) (md_log m)\<rparr> in
      bind_run (md_LOG (ba_log a) COMP_MAIN 3 ''main'' m) (\<lambda>m.
      R_ABORT_UNLESS (ba_register a)
     (bind_run (md_LOG (ba_log a) COMP_MAIN 3 ''registered'' m) (\<lambda>m.
      R_ABORT_UNLESS (ba_thread a) (Inr (Running m))))))"

definition boot_module :: "BootAnswers \<Rightarrow> Module \<Rightarrow> Module boot run" where
  "boot_module a m =
     bind_run (InitializeSystemModule a m) (\<lambda>b.
       case b of Aborted \<Rightarrow> Inr Aborted | Running m \<Rightarrow> Main_start a m)"

section \<open>The threads of the server\<close>

datatype ThreadAction = CreateThread nat | StartThread nat | LoopProcess | WaitThread nat

definition NumExtraThreads :: nat where "NumExtraThreads = 1"

definition ProcessForServerOnAllThreads :: "(nat \<Rightarrow> bool) \<Rightarrow> ThreadAction list boot" where
  "ProcessForServerOnAllThreads created =
     (if \<forall>i \<in> set [0..<NumExtraThreads]. created i
      then Running (map CreateThread [0..<NumExtraThreads] @ map StartThread [0..<NumExtraThreads] @ [LoopProcess]
                    @ map WaitThread [0..<NumExtraThreads])
      else Aborted)"

section \<open>The service \<open>ldn:u\<close>\<close>

text \<open>What a command gives its client: an object of the module, or the answer of the system's own service.\<close>

datatype 'o answer = Created 'o | ShouldForwardToSession

definition RyuLdnNXService_new :: "LogAnswers \<Rightarrow> Module \<Rightarrow> Module run" where
  "RyuLdnNXService_new a m =
     bind_run (LogFormatImpl a (IsLoggingEnabled (md_config m)) (''RyuLdnNXService created'' @ [newline]) (md_log m)) (\<lambda>l.
       Inr (m\<lparr>md_log := l\<rparr>))"

definition CreateUserLocalCommunicationService ::
    "LogAnswers \<Rightarrow> Module \<Rightarrow> (ICommunicationService answer \<times> Module) run" where
  "CreateUserLocalCommunicationService a m =
     bind_run (LogFormatImpl a (IsLoggingEnabled (md_config m))
         (''CreateUserLocalCommunicationService: enabled '' @ to_string (if cfg_enabled (md_config m) then 1 else 0) @ [newline])
         (md_log m)) (\<lambda>l.
       let m = m\<lparr>md_log := l\<rparr> in
       Inr (if cfg_enabled (md_config m) then Created ICommunicationService_new else ShouldForwardToSession, m))"

datatype IClientProcessMonitor = ClientProcessMonitor

definition CreateClientProcessMonitor :: "LogAnswers \<Rightarrow> Module \<Rightarrow> (IClientProcessMonitor answer \<times> Module) run" where
  "CreateClientProcessMonitor a m =
     bind_run (LogFormatImpl a (IsLoggingEnabled (md_config m)) (''CreateClientProcessMonitor called'' @ [newline]) (md_log m)) (\<lambda>l.
       Inr (Created ClientProcessMonitor, m\<lparr>md_log := l\<rparr>))"

text \<open>The settings are static members: every object gives access to the same ones.\<close>

definition CreateRyuLdnNXConfigService :: "Module \<Rightarrow> LdnConfig answer" where
  "CreateRyuLdnNXConfigService m = Created (md_config m)"

definition RegisterClient :: "LogAnswers \<Rightarrow> Module \<Rightarrow> (Result \<times> Module) run" where
  "RegisterClient a m =
     bind_run (md_LOG a COMP_LDN_MONITOR 4 ''ClientProcessId registered (stub)'' m) (\<lambda>m. Inr (ResultSuccess, m))"

text \<open>The byte sent with command 11 of the network request.\<close>

definition nifmSetLocalNetworkMode :: "bool \<Rightarrow> u8" where
  "nifmSetLocalNetworkMode isLocalNetworkMode = (if isLocalNetworkMode then 2 else 4)"

section \<open>Properties\<close>

lemma GetHeapHandle_simps [simp]: "GetHeapHandle create None = create" "GetHeapHandle create (Some h) = h"
  by (simp_all add: GetHeapHandle_def)

text \<open>The heap is made once, whoever calls first: from then on the calls are those of one heap.\<close>

lemma memory_call_lazy: "memory_call create alloc free m None = memory_call create alloc free m (Some create)"
  by (cases m) (simp_all add: Allocate_def Deallocate_def)

lemma memory_call_handle: "\<exists>h. snd (memory_call create alloc free m g) = Some h"
  by (cases m) (simp_all add: Allocate_def Deallocate_def split_beta)

text \<open>The memory given to the socket library is four times its four largest buffers.\<close>

lemma tmem_size:
  "align_up 0x8000 0x1000 = 0x8000 \<Longrightarrow> bc_tmem_buffer_size (LibnxBsdInitConfig align_up) = 0x20000"
  by (simp add: LibnxBsdInitConfig_def GetLibnxBsdTransferMemorySize_def LibnxSocketInitConfig_def MemoryPageSize_def Let_def)

lemma md_LOG_fits:
  assumes "length (lg_buffer (md_log m)) = LOG_BUFFER_SIZE" and "fits (cid, lvl, t)"
  defines "on \<equiv> IsLoggingEnabled (md_config m)"
  shows "\<exists>l. md_LOG la_ok cid lvl t m = Inr (m\<lparr>md_log := l\<rparr>) \<and> length (lg_buffer l) = LOG_BUFFER_SIZE
    \<and> lg_file l = (if on then map_option (\<lambda>f. f @ log_lines (cfg_gLogLevel (md_config m)) [(cid, lvl, t)]) (lg_file (md_log m))
         else lg_file (md_log m))"
proof -
  let ?el = "cfg_gLogLevel (md_config m)"
  have "log_all on ?el [(cid, lvl, t)] (md_log m) = LOG_COMP la_ok on ?el cid lvl t (md_log m)"
    by (cases "LOG_COMP la_ok on ?el cid lvl t (md_log m)") simp_all
  moreover obtain l where "log_all on ?el [(cid, lvl, t)] (md_log m) = Inr l" "length (lg_buffer l) = LOG_BUFFER_SIZE"
      "lg_file l = (if on then map_option (\<lambda>f. f @ log_lines ?el [(cid, lvl, t)]) (lg_file (md_log m)) else lg_file (md_log m))"
    using log_all_file [OF assms(1), of "[(cid, lvl, t)]" on ?el] assms(2) by auto
  ultimately show ?thesis by (intro exI [of _ l]) (simp add: md_LOG_def on_def)
qed

lemma log_lines_pair: "log_lines el [m, m'] = log_lines el [m] @ log_lines el [m']"
  by (simp add: log_lines_def)

lemma NUL_not_digit: "is_digit d \<Longrightarrow> d \<noteq> NUL"
  by (auto simp: is_digit_def NUL_def)

lemma boot_config_fits: "fits (COMP_MAIN, 3, boot_config_text c)"
proof -
  have "length (to_string (unat (GetLoggingLevelValue c))) \<le> 10"
    using to_string_length [of 10] unat_bound [of "GetLoggingLevelValue c"] by simp
  moreover have "length (to_string (if IsLoggingEnabled c then 1 else 0)) \<le> 1" by (simp add: to_string.simps)
  moreover have "NUL \<notin> set (to_string n)" for n using to_string_digits [of n] NUL_not_digit by blast
  moreover have "NUL \<notin> set (''Logging config: enabled='' @ '' level='' @ ''[MAIN] [INFO] '' @ [newline])" by (simp add: NUL_def newline_def)
  ultimately show ?thesis by (simp add: fits_def boot_config_text_def log_text_def gLevelPrefixes_def)
qed

lemma boot_texts_fit:
  "fits (COMP_RLDN_BUFPOOL, 3, ''BufferPool initialized with 3 shared buffers'')"
  "fits (COMP_MAIN, 3, ''main'')" "fits (COMP_MAIN, 3, ''registered'')"
  by (simp_all add: fits_def log_text_def gLevelPrefixes_def NUL_def newline_def)

text \<open>The answers with which the start succeeds.\<close>

definition answers_ok :: "BootAnswers \<Rightarrow> bool" where
  "answers_ok a \<longleftrightarrow> ba_sm a \<and> ba_mount a \<and> ba_nifm a \<and> ba_bsd a \<and> ba_socket a \<and> ba_register a \<and> ba_thread a
     \<and> (\<exists>st. ba_mem a = Some st \<and> storage_ok st)"

text \<open>The two messages before the log is opened, and the two after.\<close>

definition early_lines :: "LdnConfig \<Rightarrow> string" where
  "early_lines c = (if IsLoggingEnabled c
     then log_lines (cfg_gLogLevel c) [(COMP_MAIN, 3, boot_config_text c),
       (COMP_RLDN_BUFPOOL, 3, ''BufferPool initialized with 3 shared buffers'')] else [])"

definition late_lines :: "LdnConfig \<Rightarrow> string" where
  "late_lines c = (if IsLoggingEnabled c
     then log_lines (cfg_gLogLevel c) [(COMP_MAIN, 3, ''main''), (COMP_MAIN, 3, ''registered'')] else [])"

lemma InitializeSystemModule_ok:
  assumes "ba_log a = la_ok" and "length (lg_buffer (md_log m)) = LOG_BUFFER_SIZE" and "md_pool m = None"
    and "ba_sm a" and "ba_mount a" and "ba_mem a = Some st"
  defines "c \<equiv> LdnConfig_Initialize (ba_read a) (md_config m)"
  shows "\<exists>l. InitializeSystemModule a m =
      Inr (if ba_nifm a \<and> ba_bsd a \<and> ba_socket a
           then Running (m\<lparr>md_config := c, md_log := l, md_pool := Some (BufferPool_new st)\<rparr>) else Aborted)
    \<and> length (lg_buffer l) = LOG_BUFFER_SIZE \<and> lg_file l = map_option (\<lambda>f. f @ early_lines c) (lg_file (md_log m))"
proof -
  let ?m = "m\<lparr>md_config := c\<rparr>"
  from md_LOG_fits [of ?m, OF _ boot_config_fits [of c]] assms(2) obtain l1 where
    l1: "md_LOG la_ok COMP_MAIN 3 (boot_config_text c) ?m = Inr (?m\<lparr>md_log := l1\<rparr>)" "length (lg_buffer l1) = LOG_BUFFER_SIZE"
      "lg_file l1 = (if IsLoggingEnabled c then map_option (\<lambda>f. f @ log_lines (cfg_gLogLevel c) [(COMP_MAIN, 3, boot_config_text c)])
         (lg_file (md_log m)) else lg_file (md_log m))" by auto
  let ?m2 = "m\<lparr>md_config := c, md_log := l1, md_pool := Some (BufferPool_new st)\<rparr>"
  from md_LOG_fits [of ?m2, OF _ boot_texts_fit(1)] l1(2) obtain l2 where
    l2: "md_LOG la_ok COMP_RLDN_BUFPOOL 3 ''BufferPool initialized with 3 shared buffers'' ?m2 = Inr (?m2\<lparr>md_log := l2\<rparr>)"
      "length (lg_buffer l2) = LOG_BUFFER_SIZE"
      "lg_file l2 = (if IsLoggingEnabled c then map_option (\<lambda>f. f @ log_lines (cfg_gLogLevel c)
          [(COMP_RLDN_BUFPOOL, 3, ''BufferPool initialized with 3 shared buffers'')]) (lg_file l1) else lg_file l1)" by auto
  have "lg_file l2 = map_option (\<lambda>f. f @ early_lines c) (lg_file (md_log m))"
    using l1(3) l2(3) log_lines_pair by (cases "lg_file (md_log m)") (simp_all add: early_lines_def)
  moreover have "InitializeSystemModule a m =
      Inr (if ba_nifm a \<and> ba_bsd a \<and> ba_socket a
           then Running (m\<lparr>md_config := c, md_log := l2, md_pool := Some (BufferPool_new st)\<rparr>) else Aborted)"
    using l1(1) l2(1) assms(3-6)
    by (simp add: InitializeSystemModule_def R_ABORT_UNLESS_def Let_def assms(1) c_def [symmetric] InitializeBufferPool_def)
  ultimately show ?thesis using l2(2) by blast
qed

lemma Main_start_ok:
  assumes "ba_log a = la_ok" and "length (lg_buffer (md_log m)) = LOG_BUFFER_SIZE" and "ba_has_file a" and "ba_made_file a"
  shows "\<exists>l. Main_start a m = Inr (if ba_register a \<and> ba_thread a then Running (m\<lparr>md_log := l\<rparr>) else Aborted)
    \<and> length (lg_buffer l) = LOG_BUFFER_SIZE \<and> lg_file l = Some ((case lg_file (md_log m) of None \<Rightarrow> [] | Some f \<Rightarrow> f) @ log_header
         @ late_lines (md_config m))"
proof -
  let ?l = "log_Initialize (ba_has_file a) (ba_made_file a) (ba_log a) (md_log m)"
  let ?m = "m\<lparr>md_log := ?l\<rparr>" and ?c = "md_config m"
  have l: "length (lg_buffer ?l) = LOG_BUFFER_SIZE"
      "lg_file ?l = Some ((case lg_file (md_log m) of None \<Rightarrow> [] | Some f \<Rightarrow> f) @ log_header)"
    using assms by (simp_all add: log_Initialize_def Let_def split: option.split)
  from md_LOG_fits [of ?m, OF _ boot_texts_fit(2)] l(1) obtain l1 where
    l1: "md_LOG la_ok COMP_MAIN 3 ''main'' ?m = Inr (?m\<lparr>md_log := l1\<rparr>)" "length (lg_buffer l1) = LOG_BUFFER_SIZE"
      "lg_file l1 = (if IsLoggingEnabled ?c then map_option (\<lambda>f. f @ log_lines (cfg_gLogLevel ?c) [(COMP_MAIN, 3, ''main'')])
         (lg_file ?l) else lg_file ?l)" by auto
  from md_LOG_fits [of "m\<lparr>md_log := l1\<rparr>", OF _ boot_texts_fit(3)] l1(2) obtain l2 where
    l2: "md_LOG la_ok COMP_MAIN 3 ''registered'' (m\<lparr>md_log := l1\<rparr>) = Inr (m\<lparr>md_log := l2\<rparr>)"
      "length (lg_buffer l2) = LOG_BUFFER_SIZE"
      "lg_file l2 = (if IsLoggingEnabled ?c then map_option (\<lambda>f. f @ log_lines (cfg_gLogLevel ?c)
          [(COMP_MAIN, 3, ''registered'')]) (lg_file l1) else lg_file l1)" by auto
  have "lg_file l2 = Some ((case lg_file (md_log m) of None \<Rightarrow> [] | Some f \<Rightarrow> f) @ log_header @ late_lines ?c)"
    using l(2) l1(3) l2(3) log_lines_pair by (simp add: late_lines_def)
  moreover have "Main_start a m = Inr (if ba_register a \<and> ba_thread a then Running (m\<lparr>md_log := l2\<rparr>) else Aborted)"
    using l1(1) l2(1) by (simp add: Main_start_def R_ABORT_UNLESS_def Let_def assms(1))
  ultimately show ?thesis using l2(2) by blast
qed

lemma boot_granted:
  assumes "ba_log a = la_ok" and "ba_has_file a" and "ba_made_file a" and "ba_sm a" and "ba_mount a"
    and "ba_mem a = Some st" and "storage_ok st"
  defines "c ini \<equiv> LdnConfig_Initialize (ba_read a) (LdnConfig_initial 3 ini)"
  shows "\<exists>l. boot_module a (Module_initial lf ini) =
      Inr (if answers_ok a then Running \<lparr>md_log = l, md_config = c ini, md_pool = Some (BufferPool_new st)\<rparr> else Aborted)
    \<and> lg_file l = Some ((case lf of None \<Rightarrow> [] | Some f \<Rightarrow> f @ early_lines (c ini)) @ log_header @ late_lines (c ini))"
proof -
  let ?m = "Module_initial lf ini"
  have i: "length (lg_buffer (md_log ?m)) = LOG_BUFFER_SIZE" "md_pool ?m = None" "md_config ?m = LdnConfig_initial 3 ini"
      "lg_file (md_log ?m) = lf" by (simp_all add: Module_initial_def LogState_initial_def)
  from InitializeSystemModule_ok [OF assms(1) i(1,2) assms(4-6)] obtain l where
    l: "InitializeSystemModule a ?m = Inr (if ba_nifm a \<and> ba_bsd a \<and> ba_socket a
           then Running (?m\<lparr>md_config := c ini, md_log := l, md_pool := Some (BufferPool_new st)\<rparr>) else Aborted)"
      "length (lg_buffer l) = LOG_BUFFER_SIZE" "lg_file l = map_option (\<lambda>f. f @ early_lines (c ini)) lf"
    unfolding i(3,4) c_def by blast
  let ?m1 = "?m\<lparr>md_config := c ini, md_log := l, md_pool := Some (BufferPool_new st)\<rparr>"
  from Main_start_ok [OF assms(1) _ assms(2,3), of ?m1] l(2) obtain l' where
    l': "Main_start a ?m1 = Inr (if ba_register a \<and> ba_thread a then Running (?m1\<lparr>md_log := l'\<rparr>) else Aborted)"
      "lg_file l' = Some ((case lg_file l of None \<Rightarrow> [] | Some f \<Rightarrow> f) @ log_header @ late_lines (c ini))" by auto
  have "lg_file l' = Some ((case lf of None \<Rightarrow> [] | Some f \<Rightarrow> f @ early_lines (c ini)) @ log_header @ late_lines (c ini))"
    using l'(2) l(3) by (cases lf) simp_all
  moreover have "boot_module a ?m =
      Inr (if answers_ok a then Running \<lparr>md_log = l', md_config = c ini, md_pool = Some (BufferPool_new st)\<rparr> else Aborted)"
    using l(1) l'(1) assms(4-7) by (simp add: boot_module_def answers_ok_def Module_initial_def)
  ultimately show ?thesis by blast
qed

lemma boot_refused:
  assumes "ba_log a = la_ok" and "\<not> (ba_sm a \<and> ba_mount a \<and> (\<exists>st. ba_mem a = Some st))"
  shows "boot_module a (Module_initial lf ini) = Inr Aborted"
proof -
  let ?m = "Module_initial lf ini" and ?c = "LdnConfig_Initialize (ba_read a) (LdnConfig_initial 3 ini)"
  have i: "length (lg_buffer (md_log (?m\<lparr>md_config := ?c\<rparr>))) = LOG_BUFFER_SIZE" by (simp add: Module_initial_def LogState_initial_def)
  from md_LOG_fits [OF i boot_config_fits [of ?c]] have "\<exists>l. md_LOG la_ok COMP_MAIN 3 (boot_config_text ?c)
      (?m\<lparr>md_config := ?c\<rparr>) = Inr (?m\<lparr>md_config := ?c, md_log := l\<rparr>)" by auto
  moreover have "md_config ?m = LdnConfig_initial 3 ini" "md_pool ?m = None" by (simp_all add: Module_initial_def)
  ultimately show ?thesis
    using assms(2) by (auto simp: boot_module_def InitializeSystemModule_def R_ABORT_UNLESS_def Let_def assms(1)
        InitializeBufferPool_def)
qed

text \<open>A module that runs has the settings of the INI file.\<close>

lemma boot_config:
  assumes "boot_module a (Module_initial lf ini) = Inr (Running m)" and "ba_log a = la_ok" and "ba_has_file a"
    and "ba_made_file a" and "\<forall>st. ba_mem a = Some st \<longrightarrow> storage_ok st"
  shows "md_config m = LdnConfig_Initialize (ba_read a) (LdnConfig_initial 3 ini)"
proof -
  obtain st where "ba_sm a" "ba_mount a" "ba_mem a = Some st"
    using boot_refused [OF assms(2)] assms(1) by fastforce
  with boot_granted [OF assms(2-4), of st lf ini] assms(1,5) show ?thesis by (auto split: if_splits)
qed

text \<open>
  C25: the start of the module. When a service of the system or the memory for the buffers is refused the
  process aborts. Otherwise it runs with the settings of the INI file and a pool of buffers of which none is
  lent; the log holds the header of a session and after it the last two messages of the start. The first two
  are written before the log is opened: they stand in front of the header, and on the first start, when there
  is no file yet, they are lost.
\<close>

theorem boot_brings_up_module:
  assumes "ba_log a = la_ok" and "ba_has_file a" and "ba_made_file a" and "\<forall>st. ba_mem a = Some st \<longrightarrow> storage_ok st"
  shows "if answers_ok a
    then \<exists>m st. boot_module a (Module_initial lf ini) = Inr (Running m)
      \<and> md_config m = LdnConfig_Initialize (ba_read a) (LdnConfig_initial 3 ini)
      \<and> ba_mem a = Some st \<and> md_pool m = Some (BufferPool_new st)
      \<and> pool_inv (BufferPool_new st) \<and> borrowed (BufferPool_new st) = {}
      \<and> lg_file (md_log m) = Some ((case lf of None \<Rightarrow> [] | Some f \<Rightarrow> f @ early_lines (md_config m))
           @ log_header @ late_lines (md_config m))
    else boot_module a (Module_initial lf ini) = Inr Aborted"
proof (cases "ba_sm a \<and> ba_mount a \<and> (\<exists>st. ba_mem a = Some st)")
  case True
  then obtain st where st: "ba_mem a = Some st" by blast
  with assms(4) have "storage_ok st" by simp
  with boot_granted [OF assms(1-3) _ _ st, of lf ini] pool_inv_new [of st] borrowed_new [of st] True st
  show ?thesis by (auto split: option.split)
next
  case False
  with boot_refused [OF assms(1) this] show ?thesis by (auto simp: answers_ok_def)
qed

definition demo_boot :: BootAnswers where
  "demo_boot =
     \<lparr>ba_sm = True, ba_mount = True, ba_read = True, ba_mem = Some (replicate MaxBuffers (replicate BufferSize 0)),
      ba_nifm = True, ba_bsd = True, ba_socket = True, ba_has_file = True, ba_made_file = True, ba_register = True,
      ba_thread = True, ba_log = la_ok\<rparr>"

theorem boot_brings_up_module_witness:
  "\<exists>m. boot_module demo_boot (Module_initial None None) = Inr (Running m) \<and> cfg_enabled (md_config m)
     \<and> lg_file (md_log m) = Some log_header"
proof -
  have a: "ba_log demo_boot = la_ok" "ba_has_file demo_boot" "ba_made_file demo_boot"
      "\<forall>st. ba_mem demo_boot = Some st \<longrightarrow> storage_ok st" "answers_ok demo_boot"
    by (auto simp: demo_boot_def answers_ok_def storage_ok_def)
  have c: "LdnConfig_Initialize b (LdnConfig_initial 3 None) = LdnConfig_initial 3 None" for b
    by (simp add: LdnConfig_Initialize_def LoadConfigFromIni_def LdnConfig_initial_def)
  have e: "cfg_enabled (LdnConfig_initial 3 None)" "\<not> IsLoggingEnabled (LdnConfig_initial 3 None)"
    by (simp_all add: LdnConfig_initial_def IsLoggingEnabled_def)
  from boot_brings_up_module [OF a(1-4), of None None] a(5) c e show ?thesis
    by (auto simp: late_lines_def early_lines_def)
qed

end
