(* ===== verification/Ldn_System.thy ===== *)
theory Ldn_System
  imports Icom_Properties Ldn_Module Overlay_Properties
begin

text \<open>
  The module and its settings menu together: a booted module, one game at a time with its object of
  \<open>ICommunicationService\<close>, and the menu that changes the settings of both. The settings are shared; a new
  passphrase goes to the service through the handler that \<open>Initialize\<close> registers, which holds a pointer to
  the object that registered it. \<open>sys_owner\<close> is that object, and nothing clears it.
\<close>

record System =
  sys_overlay :: Overlay
  sys_config :: LdnConfig
  sys_pool :: BufferPool
  sys_service :: "(nat \<times> LdnMasterProxyClient option \<times> ICommunicationService) option"
  sys_owner :: "nat option"
  sys_next :: nat

definition System_new :: "LdnConfig \<Rightarrow> BufferPool \<Rightarrow> System" where
  "System_new c p =
     \<lparr>sys_overlay = Overlay_initial, sys_config = c, sys_pool = p, sys_service = None, sys_owner = None, sys_next = 0\<rparr>"

text \<open>A game asks for the service; when it is not given one it uses the service of the system.\<close>

definition sys_create :: "System \<Rightarrow> System" where
  "sys_create y =
     (if cfg_enabled (sys_config y)
      then y\<lparr>sys_service := Some (sys_next y, None, ICommunicationService_new), sys_next := Suc (sys_next y)\<rparr> else y)"

definition sys_put :: "nat \<Rightarrow> ics \<Rightarrow> System \<Rightarrow> System" where
  "sys_put i st y = (case st of (pool, oc, s) \<Rightarrow> y\<lparr>sys_pool := pool, sys_service := Some (i, oc, s)\<rparr>)"

text \<open>The command \<open>Initialize\<close>: the handler is set when it made the client.\<close>

definition sys_initialize :: "ICommunicationService Env \<Rightarrow> Startup \<Rightarrow> System \<Rightarrow> (Result \<times> System) run" where
  "sys_initialize env su y =
     (case sys_service y of
        None \<Rightarrow> Inr (WrongState, y)
      | Some (i, oc, s) \<Rightarrow>
          bind_run (ic_Initialize env su (sys_config y) (sys_pool y, oc, s)) (\<lambda>(r, st).
            let y = sys_put i st y in
            Inr (r, if oc = None \<and> r = ResultSuccess
                    then y\<lparr>sys_config := SetPassphraseUpdateHandler (sys_config y), sys_owner := Some i\<rparr> else y)))"

text \<open>The game ends: the destructor runs \<open>Finalize\<close>.\<close>

definition sys_destroy :: "ICommunicationService Env \<Rightarrow> System \<Rightarrow> System run" where
  "sys_destroy env y =
     (case sys_service y of
        None \<Rightarrow> Inr y
      | Some (i, oc, s) \<Rightarrow>
          bind_run (ic_Finalize env (sys_pool y, oc, s)) (\<lambda>(_, pool, _, _).
            Inr (y\<lparr>sys_pool := pool, sys_service := None\<rparr>)))"

text \<open>The call of the handler, with the settings as they are now.\<close>

definition sys_handler :: "System \<Rightarrow> System run" where
  "sys_handler y =
     (case sys_owner y of
        None \<Rightarrow> Inr y
      | Some i \<Rightarrow>
          (case sys_service y of
             None \<Rightarrow> Inl UseAfterFree
           | Some (j, oc, s) \<Rightarrow>
               if i \<noteq> j then Inl UseAfterFree
               else bind_run (ic_passphraseUpdate (sys_config y) (sys_pool y, oc, s)) (\<lambda>st. Inr (sys_put j st y))))"

text \<open>The user visits the passphrase keyboard of the menu.\<close>

definition sys_passphrase ::
    "bool \<Rightarrow> string \<Rightarrow> (nat \<Rightarrow> nat \<Rightarrow> nat) \<Rightarrow> (nat \<times> Button set) list \<Rightarrow> bool \<Rightarrow> string \<Rightarrow> System \<Rightarrow> System run" where
  "sys_passphrase ok raw dis keys ok' junk y =
     bind_run (edit_passphrase ok raw dis keys ok' junk (sys_config y)) (\<lambda>c.
       let called = length (cfg_updates (sys_config y)) < length (cfg_updates c);
           y = y\<lparr>sys_config := c\<rparr> in
       if called then sys_handler y else Inr y)"

inductive sys_step :: "ICommunicationService Env \<Rightarrow> System \<Rightarrow> System \<Rightarrow> bool" for base where
  Create: "sys_service y = None \<Longrightarrow> sys_step base y (sys_create y)"
| Initialize: "sys_initialize (service_env n base) su y = Inr (r, y') \<Longrightarrow> sys_step base y y'"
| Command: "sys_service y = Some (i, oc, s) \<Longrightarrow> ic_step base cmd r (sys_pool y, oc, s) st \<Longrightarrow> cmd \<noteq> cmd_Initialize \<Longrightarrow>
    sys_step base y (sys_put i st y)"
| Destroy: "sys_destroy (service_env n base) y = Inr y' \<Longrightarrow> sys_step base y y'"
| Menu: "ov_step (sys_overlay y, sys_config y) (o', c') \<Longrightarrow> cfg_updates c' = cfg_updates (sys_config y) \<Longrightarrow>
    sys_step base y (y\<lparr>sys_overlay := o', sys_config := c'\<rparr>)"
| Passphrase: "length raw = 17 \<Longrightarrow> length junk = 17 \<Longrightarrow> \<forall>i j. dis i j < 16 \<Longrightarrow>
    sys_passphrase ok raw dis keys ok' junk y = Inr y' \<Longrightarrow> sys_step base y y'"

inductive sys_reachable :: "ICommunicationService Env \<Rightarrow> System \<Rightarrow> bool" for base where
  Boot: "boot_module a (Module_initial lf ini) = Inr (Running m) \<Longrightarrow> md_pool m = Some p \<Longrightarrow>
    ba_log a = la_ok \<Longrightarrow> ba_has_file a \<Longrightarrow> ba_made_file a \<Longrightarrow> \<forall>st. ba_mem a = Some st \<longrightarrow> storage_ok st \<Longrightarrow>
    sys_reachable base (System_new (md_config m) p)"
| Step: "sys_reachable base y \<Longrightarrow> sys_step base y y' \<Longrightarrow> sys_reachable base y'"

inductive_cases sys_stepE: "sys_step base y y'"

section \<open>The invariant\<close>

definition sys_inv :: "System \<Rightarrow> bool" where
  "sys_inv y \<longleftrightarrow> cfg_ok (sys_config y)
     \<and> (cfg_handler (sys_config y) \<longleftrightarrow> sys_owner y \<noteq> None)
     \<and> (\<forall>i. sys_owner y = Some i \<longrightarrow> i < sys_next y)
     \<and> (\<forall>i oc s. sys_service y = Some (i, oc, s) \<longrightarrow> i < sys_next y \<and> ic_inv (sys_pool y, oc, s))"

lemma handler_fields [simp]:
  "cfg_handler (SaveConfigToIni fs c) = cfg_handler c" "cfg_updates (SaveConfigToIni fs c) = cfg_updates c"
  "cfg_passphrase (SaveConfigToIni fs c) = cfg_passphrase c"
  by (simp_all add: SaveConfigToIni_def Let_def)

text \<open>A visit that ends with a text runs the callback on it; any other leaves the settings.\<close>

lemma entered_cases:
  "(case e of None \<Rightarrow> x | Some None \<Rightarrow> x | Some (Some s) \<Rightarrow> f s) = y \<Longrightarrow> (\<exists>s. e = Some (Some s) \<and> f s = y) \<or> x = y"
  by (simp split: option.splits)

lemma edit_passphrase_result:
  assumes "edit_passphrase ok raw dis keys ok' junk c = Inr c'"
  shows "c' = c \<or> (\<exists>s g g'. Passphrase_clicked ok raw c = Inr g
    \<and> visit (\<lambda>(i, ks). pk_handleInput (dis i) ks) keys g = Inr (Some (Some s), g') \<and> Passphrase_entered ok' junk s c = Inr c')"
proof -
  obtain g e g' where v: "Passphrase_clicked ok raw c = Inr g"
      "visit (\<lambda>(i, ks). pk_handleInput (dis i) ks) keys g = Inr (e, g')"
      "(case e of None \<Rightarrow> Inr c | Some None \<Rightarrow> Inr c | Some (Some s) \<Rightarrow> Passphrase_entered ok' junk s c) = Inr c'"
    using assms unfolding edit_passphrase_def bind_run_Inr_iff by (auto simp del: option.case)
  from entered_cases [OF v(3)] v(1,2) show ?thesis by auto
qed

lemma edit_server_ip_result:
  assumes "edit_server_ip ok raw keys ok1 junk fs ok2 raw' c = Inr c'"
  shows "c' = c \<or> (\<exists>s. ServerIP_entered ok1 junk fs ok2 raw' s c = Inr c')"
proof -
  obtain e where "(case e of None \<Rightarrow> Inr c | Some None \<Rightarrow> Inr c | Some (Some s) \<Rightarrow> ServerIP_entered ok1 junk fs ok2 raw' s c) = Inr c'"
    using assms unfolding edit_server_ip_def bind_run_Inr_iff by (auto simp del: option.case)
  from entered_cases [OF this] show ?thesis by auto
qed

lemma edit_server_port_result:
  assumes "edit_server_port ok keys ok1 fs c = Inr c'"
  shows "c' = c \<or> (\<exists>s. c' = ServerPort_entered ok1 fs s c)"
proof -
  obtain e where "(case e of None \<Rightarrow> c | Some None \<Rightarrow> c | Some (Some s) \<Rightarrow> ServerPort_entered ok1 fs s c) = c'"
    using assms unfolding edit_server_port_def bind_run_Inr_iff by (auto simp del: option.case)
  from entered_cases [OF this] show ?thesis by auto
qed

text \<open>What an entry leaves alone, and when the handler is called: when there is one and the transport works.\<close>

lemma cfg_SetPassphrase_handler:
  assumes "cfg_SetPassphrase raw c = Inr c'"
  shows "cfg_handler c' = cfg_handler c \<and> length (cfg_updates c') = length (cfg_updates c) + (if cfg_handler c then 1 else 0)"
proof (cases "strcpy (cfg_passphrase c) raw")
  case (Inr p)
  with assms show ?thesis by (cases "cfg_handler c") (auto simp: cfg_SetPassphrase_def Let_def)
qed (use assms in \<open>simp add: cfg_SetPassphrase_def\<close>)

lemma Passphrase_entered_handler:
  assumes "Passphrase_entered ok junk s c = Inr c'"
  shows "cfg_handler c' = cfg_handler c"
    and "length (cfg_updates c) < length (cfg_updates c') \<longleftrightarrow> ok \<and> cfg_handler c \<and> IsValidPassphrase s"
proof -
  have "cfg_handler c' = cfg_handler c \<and>
    (length (cfg_updates c) < length (cfg_updates c') \<longleftrightarrow> ok \<and> cfg_handler c \<and> IsValidPassphrase s)"
  proof (cases "ok \<and> IsValidPassphrase s")
    case True
    then obtain b where "cfg_SetPassphrase b c = Inr c'"
      using assms by (auto simp: Passphrase_entered_def ryuldnSetPassphrase_def bind_run_Inr_iff)
    with cfg_SetPassphrase_handler [OF this] True show ?thesis by simp
  next
    case False
    have "c' = c"
      using assms False by (cases "IsValidPassphrase s") (auto simp: Passphrase_entered_def ryuldnSetPassphrase_def bind_run_Inr_iff)
    with False show ?thesis by auto
  qed
  then show "cfg_handler c' = cfg_handler c"
    and "length (cfg_updates c) < length (cfg_updates c') \<longleftrightarrow> ok \<and> cfg_handler c \<and> IsValidPassphrase s" by simp_all
qed

lemma ov_step_handler: "ov_step st st' \<Longrightarrow> cfg_handler (snd st') = cfg_handler (snd st)"
proof (induction rule: ov_step.induct)
  case (Address raw junk raw' ok keys ok1 fs ok2 c c' o1)
  have "cfg_handler c' = cfg_handler c" if "ServerIP_entered ok1 junk fs ok2 raw' s c = Inr c'" for s
    using that by (auto simp: ServerIP_entered_def ryuldnSetServerIP_def SetServerIP_def bind_run_Inr_iff split: if_splits)
  with edit_server_ip_result [OF Address(4)] show ?case by auto
next
  case (Port ok keys ok1 fs c c' o1)
  have "cfg_handler (ServerPort_entered ok1 fs s c) = cfg_handler c" for s
    by (simp add: ServerPort_entered_def ryuldnSetServerPort_def SetServerPort_def split: option.split)
  with edit_server_port_result [OF Port] show ?case by auto
next
  case (Passphrase raw junk dis ok pkeys ok1 c c' o1)
  from edit_passphrase_result [OF Passphrase(4)] show ?case using Passphrase_entered_handler(1) by auto
qed (auto simp: enabled_changed_def custom_server_changed_def logging_changed_def ryuldnSetEnabled_def SetEnabled_def
    ryuldnSetLogging_def SetLogging_def LoggingLevel_clicked_def ryuldnSetLoggingLevel_def SetLoggingLevel_def
    split: prod.splits)

lemma ic_inv_new: "ic_inv (p, None, ICommunicationService_new)"
  by (rule ic_reachable_inv) (rule ic_reachable.start)

lemma step_keeps_ic_inv: "ic_step base cmd r st st' \<Longrightarrow> ic_inv st \<Longrightarrow> ic_inv st'"
  using step_follows by (auto simp: follows_def)

lemma sys_inv_put:
  "sys_inv y \<Longrightarrow> i < sys_next y \<Longrightarrow> ic_inv st \<Longrightarrow> sys_inv (sys_put i st y)"
  by (cases st) (simp add: sys_inv_def sys_put_def)

lemma sys_handler_inv:
  assumes "sys_inv y" and "sys_handler y = Inr y'"
  shows "sys_inv y'"
proof (cases "sys_owner y")
  case (Some i)
  then obtain oc s st where v: "sys_service y = Some (i, oc, s)" "ic_passphraseUpdate (sys_config y) (sys_pool y, oc, s) = Inr st"
      "y' = sys_put i st y"
    using assms(2) by (auto simp: sys_handler_def bind_run_Inr_iff split: option.splits if_splits)
  have "ic_inv (sys_pool y, oc, s)" "i < sys_next y" using assms(1) v(1) by (auto simp: sys_inv_def)
  with step_keeps_ic_inv [OF ic_step.Passphrase [OF v(2)]] sys_inv_put [OF assms(1)] v(3) show ?thesis by blast
qed (use assms in \<open>simp add: sys_handler_def\<close>)

lemma sys_inv_config:
  "sys_inv y \<Longrightarrow> cfg_ok c \<Longrightarrow> cfg_handler c = cfg_handler (sys_config y) \<Longrightarrow> sys_inv (y\<lparr>sys_config := c\<rparr>)"
  by (simp add: sys_inv_def)

lemma sys_passphrase_inv:
  assumes "sys_passphrase ok raw dis keys ok' junk y = Inr y'" and "sys_inv y"
    and "length raw = 17" and "length junk = 17" and "\<forall>i j. dis i j < (16 :: nat)"
  shows "sys_inv y'"
proof -
  have c: "cfg_ok (sys_config y)" using assms(2) by (simp add: sys_inv_def)
  from assms(1) obtain c' where e: "edit_passphrase ok raw dis keys ok' junk (sys_config y) = Inr c'"
    by (auto simp: sys_passphrase_def bind_run_Inr_iff)
  have "cfg_ok c'" using edit_passphrase_ok [OF c assms(3-5), of ok keys ok'] e by auto
  moreover have "cfg_handler c' = cfg_handler (sys_config y)"
    using edit_passphrase_result [OF e] Passphrase_entered_handler(1) by auto
  ultimately have i: "sys_inv (y\<lparr>sys_config := c'\<rparr>)" using sys_inv_config assms(2) by blast
  have "y' = y\<lparr>sys_config := c'\<rparr> \<or> sys_handler (y\<lparr>sys_config := c'\<rparr>) = Inr y'"
    using assms(1) e by (auto simp: sys_passphrase_def Let_def split: if_splits)
  with i sys_handler_inv show ?thesis by blast
qed

lemma sys_initialize_inv:
  assumes "sys_initialize (service_env n base) su y = Inr (r, y')" and "sys_inv y"
  shows "sys_inv y'"
proof (cases "sys_service y")
  case (Some v)
  obtain i oc s where v: "v = (i, oc, s)" by (cases v)
  obtain st where st: "ic_Initialize (service_env n base) su (sys_config y) (sys_pool y, oc, s) = Inr (r, st)"
      "y' = (let z = sys_put i st y in if oc = None \<and> r = ResultSuccess
               then z\<lparr>sys_config := SetPassphraseUpdateHandler (sys_config z), sys_owner := Some i\<rparr> else z)"
    using assms(1) Some v by (auto simp: sys_initialize_def bind_run_Inr_iff Let_def)
  have i: "ic_inv (sys_pool y, oc, s)" "i < sys_next y" using assms(2) Some v by (auto simp: sys_inv_def)
  have z: "sys_inv (sys_put i st y)"
    using sys_inv_put [OF assms(2) i(2) step_keeps_ic_inv [OF ic_step.Initialize [OF st(1)] i(1)]] .
  have "sys_next (sys_put i st y) = sys_next y" by (simp add: sys_put_def split: prod.split)
  with z i(2) have "sys_inv ((sys_put i st y)\<lparr>sys_config := SetPassphraseUpdateHandler (sys_config (sys_put i st y)), sys_owner := Some i\<rparr>)"
    by (auto simp: sys_inv_def SetPassphraseUpdateHandler_def cfg_ok_def)
  with z st(2) show ?thesis by (simp add: Let_def)
qed (use assms in \<open>simp add: sys_initialize_def\<close>)

lemma sys_step_inv: "sys_step base y y' \<Longrightarrow> sys_inv y \<Longrightarrow> sys_inv y'"
proof (induction rule: sys_step.induct)
  case (Create y)
  then show ?case by (auto simp: sys_inv_def sys_create_def ic_inv_new less_Suc_eq)
next
  case (Initialize n su y r y')
  then show ?case using sys_initialize_inv by blast
next
  case (Command y i oc s cmd r st)
  then have "ic_inv (sys_pool y, oc, s)" "i < sys_next y" by (auto simp: sys_inv_def)
  with Command show ?case using sys_inv_put step_keeps_ic_inv by blast
next
  case (Destroy n y y')
  then show ?case by (auto simp: sys_destroy_def bind_run_Inr_iff sys_inv_def split: option.splits)
next
  case (Menu y o' c')
  then have "cfg_ok c'" "cfg_handler c' = cfg_handler (sys_config y)"
    using ov_step_keeps [OF Menu(1)] ov_step_handler [OF Menu(1)] by (simp_all add: sys_inv_def)
  with Menu(3) show ?case by (simp add: sys_inv_def)
next
  case (Passphrase raw junk dis ok keys ok' y y')
  then show ?case using sys_passphrase_inv by blast
qed

lemma sys_inv_new: "cfg_ok c \<Longrightarrow> \<not> cfg_handler c \<Longrightarrow> sys_inv (System_new c p)"
  by (simp add: sys_inv_def System_new_def)

lemma config_handler: "\<not> cfg_handler (LdnConfig_Initialize r (LdnConfig_initial 3 ini))"
  by (simp add: LdnConfig_Initialize_def LoadConfigFromIni_def LdnConfig_initial_def Let_def split: option.split)

lemma sys_reachable_inv: "sys_reachable base y \<Longrightarrow> sys_inv y"
proof (induction rule: sys_reachable.induct)
  case (Boot a lf ini m p)
  from boot_config [OF Boot(1,3-6)] show ?case
    using sys_inv_new config_handler cfg_ok_load [OF cfg_ok_initial] by (simp add: LdnConfig_Initialize_def)
next
  case (Step y y')
  then show ?case using sys_step_inv by blast
qed

section \<open>Entering a passphrase\<close>

text \<open>The owner of the handler is an object that no longer exists.\<close>

definition dangling :: "System \<Rightarrow> bool" where
  "dangling y \<longleftrightarrow>
     (case sys_owner y of None \<Rightarrow> False
      | Some i \<Rightarrow> (case sys_service y of None \<Rightarrow> True | Some (j, oc, s) \<Rightarrow> i \<noteq> j))"

lemma passphrase_fits: "HeaderSize + length (put_PassphraseMessage (passphrase_message p)) \<le> BufferSize"
proof -
  have "wf_PassphraseMessage (passphrase_message p)" by (simp add: wf_PassphraseMessage_def passphrase_message_def min_def)
  then have "length (put_PassphraseMessage (passphrase_message p)) = 128" by (rule PassphraseMessage_wire.length_put_wf)
  then show ?thesis by (simp add: BufferSize_def MaxPacketSize_def HeaderSize_def)
qed

definition passphrase_packet :: "bytes \<Rightarrow> bytes" where
  "passphrase_packet p = packet PacketId_Passphrase (put_PassphraseMessage (passphrase_message p))"

text \<open>What the client does with a new passphrase.\<close>

definition told :: "bytes \<Rightarrow> LdnMasterProxyClient \<Rightarrow> LdnMasterProxyClient" where
  "told p c =
     (if mc_passphrase c = p then c
      else if mc_connected c then snd (SendPacket (passphrase_packet p) (c\<lparr>mc_passphrase := p\<rparr>))
      else c\<lparr>mc_passphrase := p\<rparr>)"

lemma SetPassphrase_told:
  assumes "pool_ready pool"
  shows "\<exists>pool'. SetPassphrase (Some p) (pool, c, w) = Inr (pool', told p c, w) \<and> pool_kept pool pool'"
proof (cases "mc_passphrase c = p \<or> \<not> mc_connected c")
  case True
  then show ?thesis
    using pool_kept_refl [OF assms] by (auto simp: SetPassphrase_def UpdatePassphraseIfNeeded_def told_def)
next
  case False
  from send_scoped_ok [OF assms passphrase_fits Encode_struct_packet, of PacketId_Passphrase p "c\<lparr>mc_passphrase := p\<rparr>" w] False
  show ?thesis by (auto simp: SetPassphrase_def UpdatePassphraseIfNeeded_def told_def passphrase_packet_def)
qed

text \<open>The handler of a live object, after an entry.\<close>

lemma passphraseUpdate_told:
  assumes "pool_ready pool" and "c_str (cfg_passphrase c) = s"
  shows "\<exists>pool'. ic_passphraseUpdate c (pool, oc, t) =
      Inr (pool', if s = [] then oc else map_option (told (cstr s)) oc, t) \<and> pool_kept pool pool'"
proof (cases oc)
  case (Some cl)
  obtain pool' where "SetPassphrase (Some (cstr s)) (pool, cl, t) = Inr (pool', told (cstr s) cl, t)" "pool_kept pool pool'"
    using SetPassphrase_told [OF assms(1), of "cstr s" cl t] by blast
  with Some pool_kept_refl [OF assms(1)] show ?thesis
    by (auto simp: ic_passphraseUpdate_def getPassphraseSize_def getPassphraseIncluded_def passphrase_bytes_def assms(2))
qed (use pool_kept_refl [OF assms(1)] in \<open>auto simp: ic_passphraseUpdate_def\<close>)

text \<open>An entry on the keyboard, with a transport that works.\<close>

lemma sys_passphrase_entered:
  assumes "sys_inv y" and "length raw = 17" and "length junk = 17" and "\<forall>i j. dis i j < (16 :: nat)"
    and "Passphrase_clicked ok raw (sys_config y) = Inr g"
    and "visit (\<lambda>(i, ks). pk_handleInput (dis i) ks) keys g = Inr (Some (Some s), g')"
  shows "\<exists>c. c_str (cfg_passphrase c) = s \<and> sys_passphrase ok raw dis keys True junk y =
    (if sys_owner y = None then Inr (y\<lparr>sys_config := c\<rparr>) else sys_handler (y\<lparr>sys_config := c\<rparr>))"
proof -
  have c: "cfg_ok (sys_config y)" "cfg_handler (sys_config y) \<longleftrightarrow> sys_owner y \<noteq> None" using assms(1) by (simp_all add: sys_inv_def)
  have "pk_ok g" using Passphrase_clicked_ok [OF c(1) assms(2), of ok] assms(5) by simp
  then have p: "passphrase_of s" using passphrase_visit [OF _ assms(4), of g keys] assms(6) by auto
  obtain c' where c': "Passphrase_entered True junk s (sys_config y) = Inr c'" "c_str (cfg_passphrase c') = s"
    using Passphrase_entered_ok [OF c(1) assms(3) p, of True] by auto
  have "edit_passphrase ok raw dis keys True junk (sys_config y) = Inr c'"
    using assms(5,6) c'(1) by (simp add: edit_passphrase_def)
  with c'(2) c(2) Passphrase_entered_handler(2) [OF c'(1)] p show ?thesis
    by (intro exI [of _ c']) (simp add: sys_passphrase_def IsValidPassphrase_iff Let_def)
qed

text \<open>
  C13: a passphrase entered after the game has gone. In every state the system can reach, with a menu whose
  calls arrive, confirming a passphrase on the keyboard, an empty one included, uses the deleted service
  object when the object that registered the handler no longer exists; otherwise it returns, and the
  settings hold the new passphrase. That object stops existing whenever the game that initialised it ends.
\<close>

theorem passphrase_faults_after_game:
  assumes "sys_reachable base y" and "pool_ready (sys_pool y)"
    and "length raw = 17" and "length junk = 17" and "\<forall>i j. dis i j < (16 :: nat)"
    and "Passphrase_clicked ok raw (sys_config y) = Inr g"
    and "visit (\<lambda>(i, ks). pk_handleInput (dis i) ks) keys g = Inr (Some (Some s), g')"
  shows "(if dangling y then sys_passphrase ok raw dis keys True junk y = Inl UseAfterFree
      else \<exists>y'. sys_passphrase ok raw dis keys True junk y = Inr y' \<and> c_str (cfg_passphrase (sys_config y')) = s)
    \<and> (\<forall>y' i oc t. sys_service y = Some (i, oc, t) \<longrightarrow> sys_owner y = Some i \<longrightarrow>
         sys_destroy (service_env n base) y = Inr y' \<longrightarrow> dangling y')"
proof
  obtain c where c: "c_str (cfg_passphrase c) = s" "sys_passphrase ok raw dis keys True junk y =
      (if sys_owner y = None then Inr (y\<lparr>sys_config := c\<rparr>) else sys_handler (y\<lparr>sys_config := c\<rparr>))"
    using sys_passphrase_entered [OF sys_reachable_inv [OF assms(1)] assms(3-7)] by blast
  show "if dangling y then sys_passphrase ok raw dis keys True junk y = Inl UseAfterFree
      else \<exists>y'. sys_passphrase ok raw dis keys True junk y = Inr y' \<and> c_str (cfg_passphrase (sys_config y')) = s"
  proof (cases "dangling y \<or> sys_owner y = None")
    case True
    with c show ?thesis by (auto simp: dangling_def sys_handler_def split: option.splits)
  next
    case False
    then obtain i oc t where v: "sys_owner y = Some i" "sys_service y = Some (i, oc, t)"
      by (auto simp: dangling_def split: option.splits)
    obtain p' oc' where "ic_passphraseUpdate c (sys_pool y, oc, t) = Inr (p', oc', t)"
      using passphraseUpdate_told [OF assms(2) c(1), of oc t] by blast
    with c v False show ?thesis by (simp add: sys_handler_def sys_put_def)
  qed
  show "\<forall>y' i oc t. sys_service y = Some (i, oc, t) \<longrightarrow> sys_owner y = Some i \<longrightarrow>
      sys_destroy (service_env n base) y = Inr y' \<longrightarrow> dangling y'"
    by (auto simp: sys_destroy_def bind_run_Inr_iff dangling_def)
qed

text \<open>
  C19: what the master server learns of a passphrase. While a game runs with the service initialised and
  connected, a passphrase confirmed on the keyboard becomes the one of its client and goes to the server in
  one packet, unless it is the one the client has. Clearing the passphrase changes the settings only: nothing
  is sent, and the client keeps the old passphrase.
\<close>

theorem passphrase_reaches_server:
  assumes "sys_inv y" and "pool_ready (sys_pool y)"
    and "length raw = 17" and "length junk = 17" and "\<forall>i j. dis i j < (16 :: nat)"
    and "Passphrase_clicked ok raw (sys_config y) = Inr g"
    and "visit (\<lambda>(i, ks). pk_handleInput (dis i) ks) keys g = Inr (Some (Some s), g')"
    and "sys_owner y = Some i" and "sys_service y = Some (i, Some cl, t)"
    and "mc_connected cl" and "0 \<le> mc_socket cl" and "mc_sends cl = []"
  shows "\<exists>y' cl'. sys_passphrase ok raw dis keys True junk y = Inr y' \<and> sys_service y' = Some (i, Some cl', t)
    \<and> c_str (cfg_passphrase (sys_config y')) = s
    \<and> (if s = [] then cl' = cl
       else mc_passphrase cl' = cstr s \<and> mc_wire cl' = mc_wire cl @
         (if mc_passphrase cl = cstr s then [] else [(mc_socket cl, passphrase_packet (cstr s))]))"
proof -
  obtain c where c: "c_str (cfg_passphrase c) = s" "sys_passphrase ok raw dis keys True junk y =
      (if sys_owner y = None then Inr (y\<lparr>sys_config := c\<rparr>) else sys_handler (y\<lparr>sys_config := c\<rparr>))"
    using sys_passphrase_entered [OF assms(1) assms(3-7)] by blast
  obtain p' where p: "ic_passphraseUpdate c (sys_pool y, Some cl, t) =
      Inr (p', Some (if s = [] then cl else told (cstr s) cl), t)"
    using passphraseUpdate_told [OF assms(2) c(1), of "Some cl" t] by (auto split: if_splits)
  have "mc_passphrase (told (cstr s) cl) = cstr s \<and> mc_wire (told (cstr s) cl) = mc_wire cl @
         (if mc_passphrase cl = cstr s then [] else [(mc_socket cl, passphrase_packet (cstr s))])"
    using assms(10-12) by (simp add: told_def SendPacket_def)
  with c p assms(8,9) show ?thesis
    by (intro exI [of _ "sys_put i (p', Some (if s = [] then cl else told (cstr s) cl), t) (y\<lparr>sys_config := c\<rparr>)"]
        exI [of _ "if s = [] then cl else told (cstr s) cl"]) (simp add: sys_handler_def sys_put_def)
qed

text \<open>
  C3: the whole system, whatever the user of the menu enters, the games command, the network sends and the
  operating system answers after a start that succeeded. The settings are well formed; the handler for
  passphrases is registered exactly when some service object did so; the service of the game that runs has a
  client exactly outside its state None, is never in the error state, and its virtual network satisfies its
  invariant. A game that asks for the service gets a new object if and only if the menu's switch is on.
\<close>

theorem system_reachable_safe:
  assumes "sys_reachable base y"
  shows "IsValidPassphrase (c_str (cfg_passphrase (sys_config y))) \<and> length (c_str (cfg_server_ip (sys_config y))) < 16
    \<and> 1 \<le> cfg_logging_level (sys_config y) \<and> cfg_logging_level (sys_config y) \<le> 5
    \<and> (cfg_handler (sys_config y) \<longleftrightarrow> sys_owner y \<noteq> None)
    \<and> (\<forall>i oc s. sys_service y = Some (i, oc, s) \<longrightarrow>
         (oc = None \<longleftrightarrow> ic_currentState s = CommState_None) \<and> ic_currentState s \<noteq> CommState_Error
         \<and> (\<forall>px. ic_ryuldnProxy s = Some px \<longrightarrow> px_inv px))
    \<and> (\<forall>e. sys_service y = None \<longrightarrow>
         (let (o', c') = enabled_changed True e (sys_overlay y, sys_config y)
          in sys_service (sys_create (y\<lparr>sys_overlay := o', sys_config := c'\<rparr>))) =
           (if e then Some (sys_next y, None, ICommunicationService_new) else None))"
proof -
  have y: "sys_inv y" by (rule sys_reachable_inv [OF assms])
  then have c: "cfg_ok (sys_config y)" by (simp add: sys_inv_def)
  have l: "length (c_str (cfg_server_ip (sys_config y))) < 16" using c holds_c_str by (simp add: cfg_ok_def)
  have s: "(oc = None \<longleftrightarrow> ic_currentState s = CommState_None) \<and> ic_currentState s \<noteq> CommState_Error
         \<and> (\<forall>px. ic_ryuldnProxy s = Some px \<longrightarrow> px_inv px)" if "sys_service y = Some (i, oc, s)" for i oc s
  proof -
    have "ic_inv (sys_pool y, oc, s)" using y that by (auto simp: sys_inv_def)
    then show ?thesis by (auto simp: ic_inv_def ic_ok_def proxy_ok_def)
  qed
  have e: "(let (o', c') = enabled_changed True e (sys_overlay y, sys_config y)
      in sys_service (sys_create (y\<lparr>sys_overlay := o', sys_config := c'\<rparr>))) =
       (if e then Some (sys_next y, None, ICommunicationService_new) else None)" if "sys_service y = None" for e
    using that by (simp add: enabled_changed_def sys_create_def ryuldnSetEnabled_def SetEnabled_def)
  have h: "cfg_handler (sys_config y) \<longleftrightarrow> sys_owner y \<noteq> None" using y by (simp add: sys_inv_def)
  have p: "IsValidPassphrase (c_str (cfg_passphrase (sys_config y)))" "1 \<le> cfg_logging_level (sys_config y)"
      "cfg_logging_level (sys_config y) \<le> 5" using c by (simp_all add: cfg_ok_def IsValidPassphrase_iff)
  show ?thesis using l p h s e by (intro conjI allI impI) blast+
qed

section \<open>Witnesses\<close>

text \<open>The system after a first start, with a game that has initialised the service.\<close>

definition demo_running :: System where
  "demo_running =
     (System_new (LdnConfig_initial 3 None) zero_pool)
       \<lparr>sys_service := Some (0, Some demo_started,
            ICommunicationService_new\<lparr>ic_stateEvent := Some True, ic_currentState := Initialized\<rparr>),
        sys_next := 1, sys_config := SetPassphraseUpdateHandler (LdnConfig_initial 3 None), sys_owner := Some 0\<rparr>"

lemma demo_config: "LdnConfig_Initialize b (LdnConfig_initial 3 None) = LdnConfig_initial 3 None"
  by (simp add: LdnConfig_Initialize_def LoadConfigFromIni_def LdnConfig_initial_def)

lemma demo_Finalize:
  "\<exists>p oc s. ic_Finalize demo_env (zero_pool, Some demo_started,
     ICommunicationService_new\<lparr>ic_stateEvent := Some True, ic_currentState := Initialized\<rparr>) = Inr (ResultSuccess, p, oc, s) \<and> p = zero_pool"
  by (simp add: ic_Finalize_def mc_Finalize_def demo_started_def LdnMasterProxyClient_new_def disable_def DisableTimeout_def with_lock_def
      NetworkTimeout_new_def delete_client_def LdnMasterProxyClient_destroy_def DisconnectProxy_def RyuLdnProtocol_destroy_def
      RyuLdnProtocol_new_def ICommunicationService_new_def Let_def)

lemma demo_running_reachable: "sys_reachable demo_base demo_running"
proof -
  let ?st = "replicate 3 (replicate BufferSize 0) :: bytes list"
  have a: "ba_log demo_boot = la_ok" "ba_has_file demo_boot" "ba_made_file demo_boot"
      "ba_sm demo_boot" "ba_mount demo_boot" "ba_mem demo_boot = Some ?st" "storage_ok ?st" "answers_ok demo_boot"
    by (auto simp: demo_boot_def answers_ok_def storage_ok_def MaxBuffers_def)
  then have o: "\<forall>st. ba_mem demo_boot = Some st \<longrightarrow> storage_ok st" by simp
  obtain m where m: "boot_module demo_boot (Module_initial None None) = Inr (Running m)"
      "md_config m = LdnConfig_initial 3 None" "md_pool m = Some zero_pool"
    using boot_granted [OF a(1-7), of None None] a(8) by (auto simp: demo_config zero_pool_def)
  let ?y = "System_new (LdnConfig_initial 3 None) zero_pool"
  have b: "sys_reachable demo_base ?y"
    using sys_reachable.Boot [OF m(1,3) a(1-3) o, of demo_base] m(2) by simp
  have "sys_step demo_base ?y (sys_create ?y)" by (rule sys_step.Create) (simp add: System_new_def)
  note c = sys_reachable.Step [OF b this]
  have "sys_initialize demo_env demo_startup (sys_create ?y) = Inr (ResultSuccess, demo_running)"
    using demo_Initialize
    by (simp add: sys_initialize_def sys_create_def System_new_def sys_put_def demo_running_def SetPassphraseUpdateHandler_def)
      (simp add: LdnConfig_initial_def)
  from sys_reachable.Step [OF c sys_step.Initialize [OF this]] show ?thesis .
qed

lemma demo_keyboard:
  assumes "cfg_ok c"
  shows "\<exists>g g'. Passphrase_clicked True (replicate 17 NUL) c = Inr g
    \<and> visit (\<lambda>(i, ks). pk_handleInput ((\<lambda>_ _. 10) i) ks) [(0 :: nat, {HidNpadButton_Y}), (0, {HidNpadButton_A})] g
      = Inr (Some (Some ''Ryujinx-aaaaaaaa''), g')"
proof -
  obtain g where g: "Passphrase_clicked True (replicate 17 NUL) c = Inr g" "pk_selectedAction g = -1"
    using GetPassphrase_ok [OF assms, of "replicate 17 NUL" True]
    by (auto simp: Passphrase_clicked_def Let_def PassphraseKeyboardGui_new_def)
  have "random_digits (\<lambda>_. 10) = ''aaaaaaaa''" by code_simp
  with g show ?thesis by (simp add: pk_handleInput_def pk_action_def Let_def)
qed

theorem system_reachable_safe_witness:
  "sys_reachable demo_base demo_running \<and> (\<exists>s. sys_service demo_running = Some (0, Some demo_started, s)
     \<and> ic_currentState s \<noteq> CommState_None)"
  using system_reachable_safe [OF demo_running_reachable] demo_running_reachable
  by (simp add: demo_running_def)

theorem passphrase_faults_after_game_witness:
  "\<exists>y. sys_reachable demo_base y \<and> sys_passphrase True (replicate 17 NUL) (\<lambda>_ _. 10)
     [(0, {HidNpadButton_Y}), (0, {HidNpadButton_A})] True (replicate 17 NUL) y = Inl UseAfterFree"
proof -
  let ?y = "demo_running\<lparr>sys_service := None\<rparr>"
  have d: "sys_destroy demo_env demo_running = Inr ?y"
    using demo_Finalize by (auto simp: sys_destroy_def demo_running_def System_new_def)
  have r: "sys_reachable demo_base ?y" by (rule sys_reachable.Step [OF demo_running_reachable sys_step.Destroy [OF d]])
  have p: "pool_ready (sys_pool ?y)"
    using zero_pool_inv zero_pool_free by (simp add: pool_ready_def demo_running_def System_new_def)
  have "cfg_ok (sys_config ?y)" using sys_reachable_inv [OF r] by (simp add: sys_inv_def)
  from demo_keyboard [OF this] obtain g g' where g: "Passphrase_clicked True (replicate 17 NUL) (sys_config ?y) = Inr g"
      "visit (\<lambda>(i, ks). pk_handleInput ((\<lambda>_ _. 10) i) ks) [(0 :: nat, {HidNpadButton_Y}), (0, {HidNpadButton_A})] g
        = Inr (Some (Some ''Ryujinx-aaaaaaaa''), g')" by blast
  have "dangling ?y" by (simp add: dangling_def demo_running_def System_new_def)
  moreover have l: "length (replicate 17 NUL) = 17" "\<forall>i j. (\<lambda>_ _. 10) (i :: nat) (j :: nat) < (16 :: nat)" by simp_all
  ultimately show ?thesis
    using passphrase_faults_after_game [where dis = "\<lambda>_ _. 10" and raw = "replicate 17 NUL" and junk = "replicate 17 NUL"
        and n = True, OF r p l(1) l(1) l(2) g] r by auto
qed

definition demo_playing :: System where
  "demo_playing = demo_running\<lparr>sys_service := Some (0, Some demo_linked, demo_service Initialized)\<rparr>"

theorem passphrase_reaches_server_witness:
  "\<exists>y' cl. sys_passphrase True (replicate 17 NUL) (\<lambda>_ _. 10)
     [(0, {HidNpadButton_Y}), (0, {HidNpadButton_A})] True (replicate 17 NUL) demo_playing = Inr y'
     \<and> sys_service y' = Some (0, Some cl, demo_service Initialized)
     \<and> mc_wire cl = [(3, passphrase_packet (cstr ''Ryujinx-aaaaaaaa''))]"
proof -
  have r: "sys_inv demo_running" by (rule sys_reachable_inv [OF demo_running_reachable])
  have "ic_inv (zero_pool, Some demo_linked, demo_service Initialized)"
    by (simp add: ic_inv_def ic_ok_def proxy_ok_def in_network_def demo_service_def ICommunicationService_new_def mc_inv_def
        demo_linked_def demo_client_fields) (rule exI [of _ False], simp)
  then have y: "sys_inv demo_playing"
    using r by (simp add: sys_inv_def demo_playing_def) (simp add: demo_running_def System_new_def)
  have p: "pool_ready (sys_pool demo_playing)"
    using zero_pool_inv zero_pool_free by (simp add: pool_ready_def demo_playing_def demo_running_def System_new_def)
  have "cfg_ok (sys_config demo_playing)" using y by (simp add: sys_inv_def)
  from demo_keyboard [OF this] obtain g g' where g: "Passphrase_clicked True (replicate 17 NUL) (sys_config demo_playing) = Inr g"
      "visit (\<lambda>(i, ks). pk_handleInput ((\<lambda>_ _. 10) i) ks) [(0 :: nat, {HidNpadButton_Y}), (0, {HidNpadButton_A})] g
        = Inr (Some (Some ''Ryujinx-aaaaaaaa''), g')" by blast
  have l: "length (replicate 17 NUL) = 17" "\<forall>i j. (\<lambda>_ _. 10) (i :: nat) (j :: nat) < (16 :: nat)" by simp_all
  have o: "sys_owner demo_playing = Some 0" "sys_service demo_playing = Some (0, Some demo_linked, demo_service Initialized)"
    by (simp_all add: demo_playing_def demo_running_def)
  have c: "mc_connected demo_linked" "0 \<le> mc_socket demo_linked" "mc_sends demo_linked = []" "mc_socket demo_linked = 3"
      "mc_wire demo_linked = []" "mc_passphrase demo_linked = []"
    by (simp_all add: demo_linked_def demo_client_fields) (simp add: demo_client_def LdnMasterProxyClient_new_def)
  from passphrase_reaches_server [where dis = "\<lambda>_ _. 10" and raw = "replicate 17 NUL" and junk = "replicate 17 NUL",
      OF y p l(1) l(1) l(2) g o c(1-3)] c(4-6) show ?thesis by (auto simp: cstr_def)
qed

end
